(* ===== verification/Prelude.thy ===== *)
theory Prelude
  imports Main "HOL-Library.AList" "HOL-Library.Multiset" "HOL-Library.Sublist"
    "HOL-Library.Char_ord" "HOL-Library.List_Lexorder" "HOL-Library.Word"
begin

text \<open>
  Shared ground of the development: the Go types that every component uses (strings as byte
  strings, byte slices, times and durations, errors, maps), the part of Go's standard library
  the sources call (packages \<^verbatim>\<open>strings\<close>, \<^verbatim>\<open>strconv\<close>, \<^verbatim>\<open>encoding/hex\<close>, \<^verbatim>\<open>fmt\<close>), and the generic
  lemmas on them.  Nothing here models code of the repository itself.

  \<^item> A Go string is a list of bytes, so it is a \<^typ>\<open>string\<close>, and \<^term>\<open>length\<close> is Go's \<^verbatim>\<open>len\<close>.
  \<^item> \<^verbatim>\<open>time.Time\<close> is the number of nanoseconds since the Unix epoch and \<^verbatim>\<open>time.Duration\<close> a number of
    nanoseconds, both as \<^typ>\<open>int\<close>; where 64-bit wrap-around matters a component uses words.
  \<^item> A Go map is an association list with distinct keys.  Go visits the entries of a map in an
    unspecified order: a function that ranges over a map takes an argument of type \<open>order\<close> that
    picks the order, and its theorems hold for every \<open>order\<close> that permutes the keys.
  \<^item> A pointer that may be nil is an \<open>option\<close>.
\<close>

named_theorems go_map "lookup, update and key laws of Go maps"
named_theorems go_str "laws of the string functions of Go's standard library"

type_synonym bytes = "8 word list"
type_synonym time = int
type_synonym duration = int
type_synonym 'v go_map = "(string \<times> 'v) list"
type_synonym order = "string list \<Rightarrow> string list"

section \<open>Errors\<close>

text \<open>
  A Go error value: a plain error text (also an error of a library call), an error of
  \<^verbatim>\<open>fmt.Errorf("prefix: %w", err)\<close>, the coordinator's \<^verbatim>\<open>resolveStageError\<close>, and the errors the
  sources recognise with \<^verbatim>\<open>errors.Is\<close>: the two of package context and the ADNL library's
  \<^verbatim>\<open>ErrPeerConnClosed\<close>, which carries whatever text that library gives it.
\<close>

datatype go_error =
    ErrText string
  | ErrWrap string go_error
  | ErrStage string go_error
  | ErrDeadlineExceeded
  | ErrCanceled
  | ErrPeerConnClosed string

primrec err_Error :: "go_error \<Rightarrow> string" where
  "err_Error (ErrText m) = m"
| "err_Error (ErrWrap p e) = p @ '': '' @ err_Error e"
| "err_Error (ErrStage st e) = err_Error e"
| "err_Error ErrDeadlineExceeded = ''context deadline exceeded''"
| "err_Error ErrCanceled = ''context canceled''"
| "err_Error (ErrPeerConnClosed m) = m"

text \<open>\<^verbatim>\<open>errors.Is(err, context.DeadlineExceeded)\<close> and \<^verbatim>\<open>errors.Is(err, adnl.ErrPeerConnClosed)\<close>.\<close>

fun is_DeadlineExceeded :: "go_error \<Rightarrow> bool" where
  "is_DeadlineExceeded ErrDeadlineExceeded = True"
| "is_DeadlineExceeded (ErrWrap _ e) = is_DeadlineExceeded e"
| "is_DeadlineExceeded (ErrStage _ e) = is_DeadlineExceeded e"
| "is_DeadlineExceeded _ = False"

fun is_PeerConnClosed :: "go_error \<Rightarrow> bool" where
  "is_PeerConnClosed (ErrPeerConnClosed _) = True"
| "is_PeerConnClosed (ErrWrap _ e) = is_PeerConnClosed e"
| "is_PeerConnClosed (ErrStage _ e) = is_PeerConnClosed e"
| "is_PeerConnClosed _ = False"

section \<open>Package strings\<close>

text \<open>The UTF-8 encodings of the code points that \<^verbatim>\<open>unicode.IsSpace\<close> accepts.\<close>

definition space_runes :: "nat list list" where
  "space_runes =
     [[32], [9], [10], [11], [12], [13], [194, 133], [194, 160], [225, 154, 128],
      [226, 128, 128], [226, 128, 129], [226, 128, 130], [226, 128, 131], [226, 128, 132],
      [226, 128, 133], [226, 128, 134], [226, 128, 135], [226, 128, 136], [226, 128, 137],
      [226, 128, 138], [226, 128, 168], [226, 128, 169], [226, 128, 175], [226, 129, 159],
      [227, 128, 128]]"

definition byte_codes :: "string \<Rightarrow> nat list" where
  "byte_codes s = map of_char s"

definition lead_space :: "nat list list \<Rightarrow> string \<Rightarrow> nat" where
  "lead_space rs s = (case find (\<lambda>r. prefix r (byte_codes (take 3 s))) rs of None \<Rightarrow> 0 | Some r \<Rightarrow> length r)"

function trim_lead :: "nat list list \<Rightarrow> string \<Rightarrow> string" where
  "trim_lead rs s =
     (if s = [] \<or> lead_space rs s = 0 then s else trim_lead rs (drop (lead_space rs s) s))"
  by pat_completeness auto
termination
  by (relation "measure (\<lambda>(rs, s). length s)") auto

declare trim_lead.simps [simp del]

definition TrimSpace :: "string \<Rightarrow> string" where
  "TrimSpace s = rev (trim_lead (map rev space_runes) (rev (trim_lead space_runes s)))"

definition TrimPrefix :: "string \<Rightarrow> string \<Rightarrow> string" where
  "TrimPrefix s p = (if prefix p s then drop (length p) s else s)"

text \<open>
  \<^verbatim>\<open>strings.Fields\<close>: the maximal runs of bytes between white space; \<open>cur\<close> holds the bytes of the
  field being read, in reverse order.
\<close>

function fields_from :: "string \<Rightarrow> string \<Rightarrow> string list" where
  "fields_from cur s =
     (if s = [] then (if cur = [] then [] else [rev cur])
      else if lead_space space_runes s = 0 then fields_from (hd s # cur) (tl s)
      else (if cur = [] then [] else [rev cur]) @ fields_from [] (drop (lead_space space_runes s) s))"
  by pat_completeness auto
termination
  by (relation "measure (\<lambda>(cur, s). length s)") auto

declare fields_from.simps [simp del]

definition Fields :: "string \<Rightarrow> string list" where
  "Fields s = fields_from [] s"

text \<open>\<^verbatim>\<open>strings.ToLower\<close> on the ASCII letters; other bytes are unchanged.\<close>

definition lower_char :: "char \<Rightarrow> char" where
  "lower_char c = (if 65 \<le> (of_char c :: nat) \<and> (of_char c :: nat) \<le> 90 then char_of ((of_char c :: nat) + 32) else c)"

definition ToLower :: "string \<Rightarrow> string" where
  "ToLower s = map lower_char s"

text \<open>\<^verbatim>\<open>strings.Index\<close>: the position of the first occurrence, \<open>None\<close> for -1.\<close>

fun str_Index :: "string \<Rightarrow> string \<Rightarrow> nat option" where
  "str_Index s sub =
     (if prefix sub s then Some 0
      else case s of [] \<Rightarrow> None | _ # s' \<Rightarrow> map_option Suc (str_Index s' sub))"

declare str_Index.simps [simp del]

fun str_Split :: "char \<Rightarrow> string \<Rightarrow> string list" where
  "str_Split sep [] = [[]]"
| "str_Split sep (c # s) =
     (if c = sep then [] # str_Split sep s
      else case str_Split sep s of [] \<Rightarrow> [[c]] | w # ws \<Rightarrow> (c # w) # ws)"

section \<open>Packages strconv and encoding/hex\<close>

definition dec_digit :: "nat \<Rightarrow> char" where
  "dec_digit n = char_of (48 + n)"

fun nat_Itoa :: "nat \<Rightarrow> string" where
  "nat_Itoa n = (if n < 10 then [dec_digit n] else nat_Itoa (n div 10) @ [dec_digit (n mod 10)])"

declare nat_Itoa.simps [simp del]

definition Itoa :: "int \<Rightarrow> string" where
  "Itoa i = (if i < 0 then CHR ''-'' # nat_Itoa (nat (- i)) else nat_Itoa (nat i))"

definition hex_digit :: "nat \<Rightarrow> char" where
  "hex_digit n = (if n < 10 then char_of (48 + n) else char_of (87 + n))"

definition hex_value :: "char \<Rightarrow> nat option" where
  "hex_value c =
     (let k = (of_char c :: nat)
      in if 48 \<le> k \<and> k \<le> 57 then Some (k - 48)
         else if 97 \<le> k \<and> k \<le> 102 then Some (k - 87)
         else if 65 \<le> k \<and> k \<le> 70 then Some (k - 55)
         else None)"

text \<open>
  The text of \<^verbatim>\<open>hex.InvalidByteError\<close>, formatted with \<^verbatim>\<open>%#U\<close>: the code point in upper-case hex and,
  when it is printable, the character in UTF-8 between quotes.
\<close>

definition upper_hex_digit :: "nat \<Rightarrow> char" where
  "upper_hex_digit n = (if n < 10 then char_of (48 + n) else char_of (55 + n))"

definition quote_latin1 :: "nat \<Rightarrow> string" where
  "quote_latin1 k =
     (if 32 \<le> k \<and> k \<le> 126 then [CHR '' '', CHR 0x27, char_of k, CHR 0x27]
      else if 161 \<le> k \<and> k \<noteq> 173 then [CHR '' '', CHR 0x27, char_of (192 + k div 64), char_of (128 + k mod 64), CHR 0x27]
      else [])"

definition hex_InvalidByteError :: "char \<Rightarrow> go_error" where
  "hex_InvalidByteError c =
     (let k = (of_char c :: nat)
      in ErrText (''encoding/hex: invalid byte: U+00'' @
           [upper_hex_digit (k div 16), upper_hex_digit (k mod 16)] @ quote_latin1 k))"

text \<open>\<^verbatim>\<open>fmt.Sprintf("%x", b)\<close> and \<^verbatim>\<open>hex.DecodeString\<close>.\<close>

fun hex_Encode :: "bytes \<Rightarrow> string" where
  "hex_Encode [] = []"
| "hex_Encode (b # bs) = hex_digit (unat b div 16) # hex_digit (unat b mod 16) # hex_Encode bs"

fun hex_DecodeString :: "string \<Rightarrow> go_error + bytes" where
  "hex_DecodeString [] = Inr []"
| "hex_DecodeString [c] =
     (case hex_value c of
        None \<Rightarrow> Inl (hex_InvalidByteError c)
      | Some _ \<Rightarrow> Inl (ErrText ''encoding/hex: odd length hex string''))"
| "hex_DecodeString (c # d # s) =
     (case hex_value c of
        None \<Rightarrow> Inl (hex_InvalidByteError c)
      | Some h \<Rightarrow>
         (case hex_value d of
            None \<Rightarrow> Inl (hex_InvalidByteError d)
          | Some l \<Rightarrow>
             (case hex_DecodeString s of
                Inl e \<Rightarrow> Inl e
              | Inr bs \<Rightarrow> Inr (word_of_nat (16 * h + l) # bs))))"

section \<open>Go maps\<close>

definition go_keys :: "'v go_map \<Rightarrow> string list" where
  "go_keys m = map fst m"

definition go_wf :: "'v go_map \<Rightarrow> bool" where
  "go_wf m \<longleftrightarrow> distinct (go_keys m)"

text \<open>The order of one range loop permutes the keys.\<close>

definition order_ok :: "order \<Rightarrow> bool" where
  "order_ok ord \<longleftrightarrow> (\<forall>ks. mset (ord ks) = mset ks)"

definition range_keys :: "order \<Rightarrow> 'v go_map \<Rightarrow> string list" where
  "range_keys ord m = ord (go_keys m)"

text \<open>Reading an absent key gives the zero value.\<close>

definition go_get :: "'v \<Rightarrow> 'v go_map \<Rightarrow> string \<Rightarrow> 'v" where
  "go_get z m k = (case map_of m k of None \<Rightarrow> z | Some v \<Rightarrow> v)"

section \<open>Lemmas on strings\<close>

lemma lead_space_Nil [simp]: "lead_space space_runes [] = 0"
  by (simp add: lead_space_def byte_codes_def space_runes_def)

lemma trim_lead_Nil [simp]: "trim_lead rs [] = []"
  by (simp add: trim_lead.simps)

lemma TrimSpace_Nil [simp]: "TrimSpace [] = []"
  by (simp add: TrimSpace_def)

lemma trim_lead_fixed: "lead_space rs s = 0 \<Longrightarrow> trim_lead rs s = s"
  by (subst trim_lead.simps) simp

lemma lead_space_trim_lead: "trim_lead rs s = [] \<or> lead_space rs (trim_lead rs s) = 0"
proof (induction rs s rule: trim_lead.induct)
  case (1 rs s)
  then show ?case by (cases "s = [] \<or> lead_space rs s = 0") (auto simp: trim_lead.simps [of rs s])
qed

lemma trim_lead_idem: "trim_lead rs (trim_lead rs s) = trim_lead rs s"
  using lead_space_trim_lead [of rs s] by (auto simp: trim_lead_fixed)

lemma suffix_trim_lead: "suffix (trim_lead rs s) s"
proof (induction rs s rule: trim_lead.induct)
  case (1 rs s)
  show ?case
  proof (cases "s = [] \<or> lead_space rs s = 0")
    case True
    then show ?thesis by (subst trim_lead.simps) simp
  next
    case False
    then have "suffix (trim_lead rs s) (drop (lead_space rs s) s)"
      using "1" by (simp add: trim_lead.simps [of rs s])
    then show ?thesis using suffix_drop suffix_order.trans by blast
  qed
qed

lemma length_TrimSpace: "length (TrimSpace s) \<le> length s"
proof -
  have "length (trim_lead (map rev space_runes) (rev (trim_lead space_runes s))) \<le> length (trim_lead space_runes s)"
    using suffix_length_le [OF suffix_trim_lead] by (metis length_rev)
  also have "\<dots> \<le> length s" by (rule suffix_length_le [OF suffix_trim_lead])
  finally show ?thesis by (simp add: TrimSpace_def)
qed

lemma TrimPrefix_append [simp, go_str]: "TrimPrefix (p @ s) p = s"
  by (simp add: TrimPrefix_def)

lemma ToLower_append [go_str]: "ToLower (s @ t) = ToLower s @ ToLower t"
  by (simp add: ToLower_def)

lemma length_ToLower [simp]: "length (ToLower s) = length s"
  by (simp add: ToLower_def)

lemma lower_char_idem: "lower_char (lower_char c) = lower_char c"
proof (cases "65 \<le> (of_char c :: nat) \<and> (of_char c :: nat) \<le> 90")
  case True
  then have "lower_char c = char_of ((of_char c :: nat) + 32)" by (simp add: lower_char_def)
  moreover from True have "(of_char (char_of ((of_char c :: nat) + 32)) :: nat) = of_char c + 32"
    by (simp add: of_char_of)
  ultimately show ?thesis using True by (simp add: lower_char_def)
next
  case False
  then have "lower_char c = c" by (auto simp: lower_char_def)
  then show ?thesis by simp
qed

lemma ToLower_idem [simp, go_str]: "ToLower (ToLower s) = ToLower s"
  by (simp add: ToLower_def lower_char_idem)

lemma fields_from_run:
  assumes "\<And>i. i < length w \<Longrightarrow> lead_space space_runes (drop i w @ s) = 0"
  shows "fields_from cur (w @ s) = fields_from (rev w @ cur) s"
  using assms
proof (induction w arbitrary: cur)
  case Nil
  then show ?case by simp
next
  case (Cons c w)
  have "lead_space space_runes (c # w @ s) = 0" using Cons.prems [of 0] by simp
  then have "fields_from cur ((c # w) @ s) = fields_from (c # cur) (w @ s)"
    by (subst fields_from.simps) simp
  also have "\<dots> = fields_from (rev w @ c # cur) s"
    by (rule Cons.IH) (use Cons.prems [of "Suc _"] in \<open>simp\<close>)
  finally show ?case by simp
qed

text \<open>No ASCII byte other than the six white-space ones starts a white-space rune.\<close>

definition ascii_word :: "string \<Rightarrow> bool" where
  "ascii_word w \<longleftrightarrow> list_all (\<lambda>c. 32 < (of_char c :: nat) \<and> (of_char c :: nat) < 128) w"

lemma lead_space_ascii:
  assumes "32 < (of_char c :: nat)" "(of_char c :: nat) < 128"
  shows "lead_space space_runes (c # s) = 0"
  using assms by (simp add: lead_space_def byte_codes_def space_runes_def)

lemma fields_from_word:
  assumes "ascii_word w"
  shows "fields_from cur (w @ s) = fields_from (rev w @ cur) s"
proof (rule fields_from_run)
  fix i
  assume i: "i < length w"
  then have "drop i w @ s = w ! i # drop (Suc i) w @ s"
    using Cons_nth_drop_Suc by (metis append_Cons)
  moreover from i assms have "32 < (of_char (w ! i) :: nat)" "(of_char (w ! i) :: nat) < 128"
    by (auto simp: ascii_word_def list_all_length)
  ultimately show "lead_space space_runes (drop i w @ s) = 0"
    by (simp add: lead_space_ascii)
qed

lemma lead_space_blank: "lead_space space_runes (CHR '' '' # s) = 1"
  by (simp add: lead_space_def byte_codes_def space_runes_def)

lemma Fields_word_end: "ascii_word w \<Longrightarrow> w \<noteq> [] \<Longrightarrow> Fields w = [w]"
  using fields_from_word [of w "[]" "[]"] by (simp add: Fields_def fields_from.simps)

lemma Fields_word_blank:
  assumes "ascii_word w" "w \<noteq> []"
  shows "\<exists>rest. Fields (w @ CHR '' '' # s) = w # rest"
proof -
  have "Fields (w @ CHR '' '' # s) = fields_from (rev w) (CHR '' '' # s)"
    using fields_from_word [OF assms(1)] by (simp add: Fields_def)
  also have "\<dots> = w # fields_from [] s"
    using assms(2) by (subst fields_from.simps) (simp add: lead_space_blank)
  finally show ?thesis by blast
qed

text \<open>Reversed space encodings do not reach over a blank.\<close>

lemma lead_space_before_blank:
  assumes "x \<noteq> []"
  shows "lead_space (map rev space_runes) (x @ CHR '' '' # y) = lead_space (map rev space_runes) x"
proof -
  consider a where "x = [a]" | a b where "x = [a, b]" | a b c z where "x = a # b # c # z"
    using assms by (metis list.exhaust)
  then show ?thesis
    by cases (auto simp: lead_space_def space_runes_def byte_codes_def)
qed

lemma TrimSpace_no_lead: "TrimSpace s = [] \<or> lead_space (map rev space_runes) (rev (TrimSpace s)) = 0"
  using lead_space_trim_lead [of "map rev space_runes" "rev (trim_lead space_runes s)"] by (auto simp: TrimSpace_def)

lemma lead_space_0: "lead_space space_runes s = 0 \<longleftrightarrow> (\<forall>r \<in> set space_runes. \<not> prefix r (byte_codes (take 3 s)))"
proof -
  have "[] \<notin> set space_runes" by (simp add: space_runes_def)
  then have "find (\<lambda>r. prefix r (byte_codes (take 3 s))) space_runes = Some r \<Longrightarrow> r \<noteq> []" for r
    by (metis find_Some_iff nth_mem)
  then show ?thesis
    by (auto simp: lead_space_def find_None_iff find_Some_iff split: option.splits)
qed

lemma prefix_trim_trail: "prefix (rev (trim_lead rs (rev s))) s"
  using suffix_trim_lead [of rs "rev s"] by (simp add: suffix_to_prefix)

lemma TrimSpace_idem [simp]: "TrimSpace (TrimSpace s) = TrimSpace s"
proof (cases "TrimSpace s = []")
  case False
  let ?v = "trim_lead space_runes s"
  have u: "prefix (TrimSpace s) ?v" by (simp add: TrimSpace_def prefix_trim_trail)
  have "?v \<noteq> []" using False u by auto
  then have "lead_space space_runes ?v = 0" using lead_space_trim_lead by blast
  moreover have "prefix (byte_codes (take 3 (TrimSpace s))) (byte_codes (take 3 ?v))"
    using u by (auto simp: prefix_def byte_codes_def)
  ultimately have "lead_space space_runes (TrimSpace s) = 0"
    unfolding lead_space_0 using prefix_order.trans by blast
  then have "trim_lead space_runes (TrimSpace s) = TrimSpace s" by (rule trim_lead_fixed)
  moreover have "trim_lead (map rev space_runes) (rev (TrimSpace s)) = rev (TrimSpace s)"
    using TrimSpace_no_lead [of s] False by (auto intro: trim_lead_fixed)
  ultimately show ?thesis by (simp add: TrimSpace_def [of "TrimSpace s"])
qed simp

text \<open>What is left of a text that starts with a word and a blank.\<close>

lemma lead_space_le: "lead_space rs s \<le> length s"
  by (auto simp: lead_space_def byte_codes_def find_Some_iff split: option.splits dest!: prefix_length_le)

lemma lead_space_rev_ascii:
  assumes "ascii_word w" "w \<noteq> []"
  shows "lead_space (map rev space_runes) (rev w) = 0"
proof -
  obtain c v where "rev w = c # v" using assms(2) by (metis rev_is_Nil_conv list.exhaust)
  then show ?thesis using assms(1)
    by (auto simp: lead_space_def space_runes_def byte_codes_def ascii_word_def)
qed

lemma trim_tail_blank:
  assumes "ascii_word w" "w \<noteq> []"
  shows "trim_lead (map rev space_runes) (x @ CHR '' '' # rev w) = rev w \<or>
    (\<exists>y. trim_lead (map rev space_runes) (x @ CHR '' '' # rev w) = y @ CHR '' '' # rev w)"
proof (induction "length x" arbitrary: x rule: less_induct)
  case less
  let ?s = "x @ CHR '' '' # rev w"
  show ?case
  proof (cases "lead_space (map rev space_runes) ?s = 0")
    case True
    then show ?thesis using trim_lead_fixed by blast
  next
    case False
    then have step: "trim_lead (map rev space_runes) ?s =
        trim_lead (map rev space_runes) (drop (lead_space (map rev space_runes) ?s) ?s)"
      by (subst trim_lead.simps) simp
    show ?thesis
    proof (cases "x = []")
      case True
      have "lead_space (map rev space_runes) (CHR '' '' # rev w) = 1"
        by (simp add: lead_space_def space_runes_def byte_codes_def)
      then show ?thesis using step True trim_lead_fixed [OF lead_space_rev_ascii [OF assms]] by simp
    next
      case ne: False
      let ?k = "lead_space (map rev space_runes) x"
      have "?k \<noteq> 0" using False lead_space_before_blank [OF ne] by simp
      then have "length (drop ?k x) < length x" using ne by simp
      then show ?thesis using less [of "drop ?k x"] step lead_space_before_blank [OF ne] lead_space_le [of _ x] by simp
    qed
  qed
qed

lemma TrimSpace_word_blank:
  assumes "ascii_word w" "w \<noteq> []"
  shows "TrimSpace (w @ CHR '' '' # rest) = w \<or> (\<exists>rest'. TrimSpace (w @ CHR '' '' # rest) = w @ CHR '' '' # rest')"
proof -
  obtain c v where w: "w = c # v" using assms(2) by (cases w) auto
  have "lead_space space_runes (w @ CHR '' '' # rest) = 0"
    using assms(1) lead_space_ascii [of c] by (simp add: w ascii_word_def)
  then have "trim_lead space_runes (w @ CHR '' '' # rest) = w @ CHR '' '' # rest" by (rule trim_lead_fixed)
  then have "TrimSpace (w @ CHR '' '' # rest) = rev (trim_lead (map rev space_runes) (rev rest @ CHR '' '' # rev w))"
    by (simp add: TrimSpace_def)
  then show ?thesis using trim_tail_blank [OF assms, of "rev rest"] by auto
qed

text \<open>A text with a printable ASCII byte in it is not blank.\<close>

lemma lead_space_before_ascii:
  assumes "x \<noteq> []" "32 < (of_char c :: nat)" "(of_char c :: nat) < 128"
  shows "lead_space (map rev space_runes) (x @ c # y) = lead_space (map rev space_runes) x"
proof -
  consider a where "x = [a]" | a b where "x = [a, b]" | a b d z where "x = a # b # d # z"
    using assms(1) by (metis list.exhaust)
  then show ?thesis
    using assms(2,3) by cases (auto simp: lead_space_def space_runes_def byte_codes_def)
qed

lemma trim_tail_ascii:
  assumes "32 < (of_char c :: nat)" "(of_char c :: nat) < 128"
  shows "trim_lead (map rev space_runes) (x @ c # y) \<noteq> []"
proof (induction "length x" arbitrary: x rule: less_induct)
  case less
  let ?l = "lead_space (map rev space_runes)"
  show ?case
  proof (cases "?l (x @ c # y) = 0")
    case True
    then show ?thesis by (simp add: trim_lead_fixed)
  next
    case False
    have "?l (c # y) = 0" using assms by (simp add: lead_space_def space_runes_def byte_codes_def)
    then have ne: "x \<noteq> []" using False by auto
    have k: "?l (x @ c # y) = ?l x" by (rule lead_space_before_ascii [OF ne assms])
    then have "drop (?l (x @ c # y)) (x @ c # y) = drop (?l x) x @ c # y" using lead_space_le [of _ x] by simp
    moreover have "length (drop (?l x) x) < length x" using ne False k by simp
    moreover have "trim_lead (map rev space_runes) (x @ c # y) =
        trim_lead (map rev space_runes) (drop (?l (x @ c # y)) (x @ c # y))"
      using False by (subst trim_lead.simps) simp
    ultimately show ?thesis using less [of "drop (?l x) x"] by simp
  qed
qed

lemma TrimSpace_ascii_start:
  assumes "32 < (of_char c :: nat)" "(of_char c :: nat) < 128"
  shows "TrimSpace (c # s) \<noteq> []"
proof -
  have "trim_lead space_runes (c # s) = c # s" using lead_space_ascii [OF assms] by (rule trim_lead_fixed)
  then show ?thesis using trim_tail_ascii [OF assms, of "rev s" "[]"] by (simp add: TrimSpace_def)
qed

section \<open>Lemmas on hexadecimal text\<close>

text \<open>The decimal digits, so that numerals print by rewriting.\<close>

lemma dec_digit_chars [simp]:
  "dec_digit 0 = CHR ''0''" "dec_digit (Suc 0) = CHR ''1''" "dec_digit 2 = CHR ''2''" "dec_digit 3 = CHR ''3''"
  "dec_digit 4 = CHR ''4''" "dec_digit 5 = CHR ''5''" "dec_digit 6 = CHR ''6''" "dec_digit 7 = CHR ''7''"
  "dec_digit 8 = CHR ''8''" "dec_digit 9 = CHR ''9''"
  by (simp_all add: dec_digit_def char_of_def bit_iff_odd)

lemma hex_value_digit: "n < 16 \<Longrightarrow> hex_value (hex_digit n) = Some n"
  by (simp add: hex_value_def hex_digit_def Let_def of_char_of)

lemma hex_roundtrip [simp]: "hex_DecodeString (hex_Encode bs) = Inr bs"
proof (induction bs)
  case Nil
  then show ?case by simp
next
  case (Cons b bs)
  have "unat b < 256" using unsigned_less [of b] by simp
  then have h: "unat b div 16 < 16" and l: "unat b mod 16 < 16" by auto
  have "word_of_nat (16 * (unat b div 16) + unat b mod 16) = b" by simp
  then show ?case using Cons h l by (simp add: hex_value_digit)
qed

lemma length_hex_DecodeString: "hex_DecodeString s = Inr bs \<Longrightarrow> length s = 2 * length bs"
  by (induction s arbitrary: bs rule: hex_DecodeString.induct)
    (auto split: option.splits sum.splits)

section \<open>Lemmas on Go maps\<close>

lemma go_keys_update: "go_keys (AList.update k v m) = (if k \<in> set (go_keys m) then go_keys m else go_keys m @ [k])"
  by (simp add: go_keys_def AList.update_keys)

lemma go_wf_update [simp, intro]: "go_wf m \<Longrightarrow> go_wf (AList.update k v m)"
  by (simp add: go_wf_def go_keys_update)

lemma go_wf_Nil [simp, intro]: "go_wf []"
  by (simp add: go_wf_def go_keys_def)

lemma map_of_update [simp, go_map]: "map_of (AList.update k v m) = (map_of m)(k \<mapsto> v)"
  by (rule AList.update_conv')

lemma set_go_keys [go_map]: "set (go_keys m) = dom (map_of m)"
  by (simp add: go_keys_def dom_map_of_conv_image_fst)

lemma go_get_update [simp, go_map]: "go_get z (AList.update k v m) k' = (if k = k' then v else go_get z m k')"
  by (simp add: go_get_def)

lemma go_get_Nil [simp, go_map]: "go_get z [] k = z"
  by (simp add: go_get_def)

lemma order_okD: "order_ok ord \<Longrightarrow> mset (range_keys ord m) = mset (go_keys m)"
  by (simp add: order_ok_def range_keys_def)

lemma set_range_keys [go_map]: "order_ok ord \<Longrightarrow> set (range_keys ord m) = dom (map_of m)"
  by (metis order_okD mset_eq_setD set_go_keys)

lemma distinct_range_keys [go_map]: "order_ok ord \<Longrightarrow> go_wf m \<Longrightarrow> distinct (range_keys ord m)"
  by (metis order_okD go_wf_def mset_eq_imp_distinct_iff)

lemma order_ok_id [simp]: "order_ok (\<lambda>ks. ks)"
  by (simp add: order_ok_def)

lemma order_ok_rev [simp]: "order_ok rev"
  by (simp add: order_ok_def)

text \<open>
  A fold that stores one entry per list element: the last element with a given key decides, which
  is how every loop of the sources that fills a map behaves.
\<close>

definition build_map :: "('a \<Rightarrow> string) \<Rightarrow> ('a \<Rightarrow> 'v) \<Rightarrow> 'a list \<Rightarrow> 'v go_map \<Rightarrow> 'v go_map" where
  "build_map key val xs m = fold (\<lambda>x. AList.update (key x) (val x)) xs m"

lemma build_map_Nil [simp]: "build_map key val [] m = m"
  by (simp add: build_map_def)

lemma build_map_Cons [simp]: "build_map key val (x # xs) m = build_map key val xs (AList.update (key x) (val x) m)"
  by (simp add: build_map_def)

lemma go_wf_build_map [simp]: "go_wf m \<Longrightarrow> go_wf (build_map key val xs m)"
  by (induction xs arbitrary: m) auto

lemma dom_build_map [go_map]: "dom (map_of (build_map key val xs m)) = dom (map_of m) \<union> key ` set xs"
  by (induction xs arbitrary: m) auto

lemma build_map_notin: "k \<notin> key ` set xs \<Longrightarrow> map_of (build_map key val xs m) k = map_of m k"
  by (induction xs arbitrary: m) auto

lemma build_map_Some:
  "map_of (build_map key val xs m) k = Some v \<Longrightarrow>
     (\<exists>x \<in> set xs. key x = k \<and> val x = v) \<or> map_of m k = Some v"
  by (induction xs arbitrary: m) (fastforce split: if_splits)+

lemma build_map_snoc: "build_map key val (xs @ [x]) m = AList.update (key x) (val x) (build_map key val xs m)"
  by (simp add: build_map_def)

lemma build_map_last:
  "x \<in> set xs \<Longrightarrow> \<exists>y \<in> set xs. key y = key x \<and> map_of (build_map key val xs m) (key x) = Some (val y)"
  by (induction xs rule: rev_induct) (auto simp: build_map_snoc)

lemma build_map_inj:
  assumes "x \<in> set xs" "\<And>y. y \<in> set xs \<Longrightarrow> key y = key x \<Longrightarrow> val y = val x"
  shows "map_of (build_map key val xs m) (key x) = Some (val x)"
  using build_map_last [OF assms(1), of key val m] assms(2) by auto

end
