(* ===== verification/Reason.thy ===== *)
theory Reason
  imports Prelude
begin

text \<open>
  The reason codes of a storage check.  The agent (\<^verbatim>\<open>agent/internal/reason\<close>) and the coordinator
  (\<^verbatim>\<open>coordinator/internal/constants\<close>) each have a \<^verbatim>\<open>uint32\<close> type with the same constants, and a reason
  travels between them as the protobuf enum \<^verbatim>\<open>ReasonCode\<close>, an \<^verbatim>\<open>int32\<close> whose number for a valid proof is
  1 and not 0.  All three are 32-bit words here, so the default branches of the two translations,
  which a value outside the constants takes, are modelled too.
\<close>

type_synonym reason_code = "32 word"
type_synonym proto_reason = "32 word"

definition ValidStorageProof :: reason_code where "ValidStorageProof = 0"
definition IPNotFound :: reason_code where "IPNotFound = 101"
definition NotFound :: reason_code where "NotFound = 102"
definition UnavailableProvider :: reason_code where "UnavailableProvider = 103"
definition CantCreatePeer :: reason_code where "CantCreatePeer = 104"
definition UnknownPeer :: reason_code where "UnknownPeer = 105"
definition PingFailed :: reason_code where "PingFailed = 201"
definition InvalidBagID :: reason_code where "InvalidBagID = 202"
definition FailedInitialPing :: reason_code where "FailedInitialPing = 203"
definition GetInfoFailed :: reason_code where "GetInfoFailed = 301"
definition InvalidHeader :: reason_code where "InvalidHeader = 302"
definition CantGetPiece :: reason_code where "CantGetPiece = 401"
definition CantParseBoC :: reason_code where "CantParseBoC = 402"
definition ProofCheckFailed :: reason_code where "ProofCheckFailed = 403"

lemmas reason_defs =
  ValidStorageProof_def IPNotFound_def NotFound_def UnavailableProvider_def CantCreatePeer_def
  UnknownPeer_def PingFailed_def InvalidBagID_def FailedInitialPing_def GetInfoFailed_def
  InvalidHeader_def CantGetPiece_def CantParseBoC_def ProofCheckFailed_def

text \<open>The declared codes, in the order of the source.\<close>

definition reason_codes :: "reason_code list" where
  "reason_codes =
     [ValidStorageProof, IPNotFound, NotFound, UnavailableProvider, CantCreatePeer, UnknownPeer,
      PingFailed, InvalidBagID, FailedInitialPing, GetInfoFailed, InvalidHeader, CantGetPiece,
      CantParseBoC, ProofCheckFailed]"

text \<open>The table \<^verbatim>\<open>ReasonCode_name\<close> of the generated protobuf code.\<close>

definition ReasonCode_name :: "(proto_reason \<times> string) list" where
  "ReasonCode_name =
     [(0, ''REASON_CODE_UNSPECIFIED''), (1, ''VALID_STORAGE_PROOF''), (101, ''IP_NOT_FOUND''),
      (102, ''NOT_FOUND''), (103, ''UNAVAILABLE_PROVIDER''), (104, ''CANT_CREATE_PEER''),
      (105, ''UNKNOWN_PEER''), (201, ''PING_FAILED''), (202, ''INVALID_BAG_ID''),
      (203, ''FAILED_INITIAL_PING''), (301, ''GET_INFO_FAILED''), (302, ''INVALID_HEADER''),
      (401, ''CANT_GET_PIECE''), (402, ''CANT_PARSE_BOC''), (403, ''PROOF_CHECK_FAILED'')]"

text \<open>\<^verbatim>\<open>ReasonCode.String\<close>: the declared name, else the number.\<close>

definition proto_String :: "proto_reason \<Rightarrow> string" where
  "proto_String r = (case map_of ReasonCode_name r of Some n \<Rightarrow> n | None \<Rightarrow> Itoa (sint r))"

definition ToProto :: "reason_code \<Rightarrow> proto_reason" where
  "ToProto code =
     (if code = ValidStorageProof then 1
      else if code = IPNotFound then 101
      else if code = NotFound then 102
      else if code = UnavailableProvider then 103
      else if code = CantCreatePeer then 104
      else if code = UnknownPeer then 105
      else if code = PingFailed then 201
      else if code = InvalidBagID then 202
      else if code = FailedInitialPing then 203
      else if code = GetInfoFailed then 301
      else if code = InvalidHeader then 302
      else if code = CantGetPiece then 401
      else if code = CantParseBoC then 402
      else if code = ProofCheckFailed then 403
      else 0)"

definition reasonFromProto :: "proto_reason \<Rightarrow> reason_code" where
  "reasonFromProto code =
     (if code = 1 then ValidStorageProof
      else if code = 101 then IPNotFound
      else if code = 102 then NotFound
      else if code = 103 then UnavailableProvider
      else if code = 104 then CantCreatePeer
      else if code = 105 then UnknownPeer
      else if code = 201 then PingFailed
      else if code = 202 then InvalidBagID
      else if code = 203 then FailedInitialPing
      else if code = 301 then GetInfoFailed
      else if code = 302 then InvalidHeader
      else if code = 401 then CantGetPiece
      else if code = 402 then CantParseBoC
      else if code = 403 then ProofCheckFailed
      else NotFound)"

definition isRetriableReason :: "reason_code \<Rightarrow> bool" where
  "isRetriableReason code \<longleftrightarrow>
     code = IPNotFound \<or> code = NotFound \<or> code = UnavailableProvider \<or> code = CantCreatePeer \<or>
     code = UnknownPeer \<or> code = PingFailed \<or> code = FailedInitialPing \<or> code = GetInfoFailed \<or>
     code = CantGetPiece"

definition IsErrorReason :: "reason_code \<Rightarrow> bool" where
  "IsErrorReason code \<longleftrightarrow> code \<noteq> ValidStorageProof"

definition reasonName :: "reason_code \<Rightarrow> string" where
  "reasonName code = proto_String (ToProto code)"

section \<open>Lemmas\<close>

lemma distinct_reason_codes: "distinct reason_codes"
  by (simp add: reason_codes_def reason_defs)

lemma reasonFromProto_valid_iff: "reasonFromProto p = ValidStorageProof \<longleftrightarrow> p = 1"
  by (simp add: reasonFromProto_def reason_defs)

lemma ToProto_valid_iff: "ToProto c = 1 \<longleftrightarrow> c = ValidStorageProof"
  by (simp add: ToProto_def reason_defs)

lemma retriable_is_error: "isRetriableReason c \<Longrightarrow> IsErrorReason c"
  by (auto simp: isRetriableReason_def IsErrorReason_def reason_defs)

lemma not_retriable_valid [simp]: "\<not> isRetriableReason ValidStorageProof"
  by (simp add: isRetriableReason_def reason_defs)

lemma reasonFromProto_known: "reasonFromProto p \<in> set reason_codes"
  by (simp add: reasonFromProto_def reason_codes_def)

text \<open>
  Sending a reason from the agent to the coordinator loses nothing: for every declared code
  the coordinator's \<^verbatim>\<open>reasonFromProto\<close> inverts the agent's \<^verbatim>\<open>reason.ToProto\<close>, a code outside the
  declared ones arrives as \<^verbatim>\<open>NotFound\<close>, and a row is read as a valid proof exactly when the agent
  found one.
\<close>

theorem reason_roundtrip:
  "reasonFromProto (ToProto c) = (if c \<in> set reason_codes then c else NotFound) \<and>
   (reasonFromProto (ToProto c) = ValidStorageProof \<longleftrightarrow> c = ValidStorageProof)"
  by (simp add: reasonFromProto_def ToProto_def reason_codes_def reason_defs)

end
