(* ===== verification/Messages.thy ===== *)
theory Messages
  imports Reason
begin

text \<open>
  The messages of \<^verbatim>\<open>contracts/gen/go/providerchecks/v1\<close>: the wire contract between coordinator and
  agents.  A message is a record with one field per protobuf field; a field that is a pointer is an
  \<open>option\<close>, a repeated message field a list of options (a Go slice of pointers may hold nil), a 32- or
  64-bit unsigned number a word, \<^verbatim>\<open>int32\<close> and \<^verbatim>\<open>int64\<close> numbers are \<^typ>\<open>int\<close>.  The generated getters return the
  zero value on nil; \<open>nil_or\<close> is that reading.
\<close>

definition nil_or :: "'a \<Rightarrow> ('b \<Rightarrow> 'a) \<Rightarrow> 'b option \<Rightarrow> 'a" where
  "nil_or z f p = (case p of None \<Rightarrow> z | Some x \<Rightarrow> f x)"

lemma nil_or_simps [simp]: "nil_or z f None = z" "nil_or z f (Some x) = f x"
  by (simp_all add: nil_or_def)

record contract_ref =
  cr_ContractAddress :: string
  cr_BagId :: string

record endpoint =
  ep_Ip :: string
  ep_Port :: int
  ep_AdnlPubkey :: bytes

record provider_batch =
  pb_ProviderPubkey :: string
  pb_ProviderAddress :: string
  pb_StorageEndpoint :: "endpoint option"
  pb_Contracts :: "contract_ref option list"

record check_timeouts =
  ct_PingMs :: "32 word"
  ct_RldpMs :: "32 word"
  ct_TotalMs :: "32 word"

record run_checks_request =
  rq_JobId :: string
  rq_Providers :: "provider_batch option list"
  rq_Timeouts :: "check_timeouts option"

record contract_check_result =
  ccr_ProviderPubkey :: string
  ccr_ProviderAddress :: string
  ccr_ContractAddress :: string
  ccr_BagId :: string
  ccr_ReasonCode :: proto_reason
  ccr_LatencyMs :: "32 word"
  ccr_Details :: string

datatype ErrorCode =
    ERROR_CODE_UNSPECIFIED | INVALID_ARGUMENT | NOT_FOUND_ERROR | DEADLINE_EXCEEDED | UNAVAILABLE | INTERNAL

record error_detail =
  ed_Code :: ErrorCode
  ed_Message :: string
  ed_Retryable :: bool

record run_checks_response =
  rs_JobId :: string
  rs_AgentId :: string
  rs_Location :: string
  rs_StartedAtUnix :: int
  rs_FinishedAtUnix :: int
  rs_Results :: "contract_check_result option list"
  rs_Warnings :: "error_detail list"

record rpc_timeouts =
  rt_QueryTimeoutMs :: "32 word"
  rt_TotalMs :: "32 word"

record storage_rates_request =
  rr_JobId :: string
  rr_ProviderPubkeys :: "string list"
  rr_QuerySize :: "64 word"
  rr_Timeouts :: "rpc_timeouts option"

record storage_rates_result =
  sr_ProviderPubkey :: string
  sr_Ok :: bool
  sr_Available :: bool
  sr_RatePerMbDay :: bytes
  sr_MinBounty :: bytes
  sr_SpaceAvailableMb :: "64 word"
  sr_MinSpan :: "32 word"
  sr_MaxSpan :: "32 word"
  sr_LatencyMs :: "32 word"
  sr_Details :: string

record storage_rates_response =
  rrs_JobId :: string
  rrs_AgentId :: string
  rrs_Location :: string
  rrs_StartedAtUnix :: int
  rrs_FinishedAtUnix :: int
  rrs_Results :: "storage_rates_result option list"
  rrs_Warnings :: "error_detail list"

record storage_info_query =
  siq_ProviderPubkey :: string
  siq_ContractAddress :: string
  siq_ByteToProof :: "64 word"

record storage_info_request =
  sirq_JobId :: string
  sirq_Queries :: "storage_info_query option list"
  sirq_Timeouts :: "rpc_timeouts option"

record storage_info_result =
  sir_ProviderPubkey :: string
  sir_ContractAddress :: string
  sir_Ok :: bool
  sir_Status :: string
  sir_Reason :: string
  sir_Downloaded :: "64 word"
  sir_Proof :: bytes
  sir_LatencyMs :: "32 word"
  sir_Details :: string

record storage_info_response =
  sirs_JobId :: string
  sirs_AgentId :: string
  sirs_Location :: string
  sirs_StartedAtUnix :: int
  sirs_FinishedAtUnix :: int
  sirs_Results :: "storage_info_result option list"
  sirs_Warnings :: "error_detail list"

text \<open>The identity a result is matched by: who, on which contract.\<close>

abbreviation ccr_key :: "contract_check_result \<Rightarrow> string \<times> string \<times> string \<times> string" where
  "ccr_key r \<equiv> (ccr_ProviderPubkey r, ccr_ProviderAddress r, ccr_ContractAddress r, ccr_BagId r)"

text \<open>\<^verbatim>\<open>time.Duration(ms) * time.Millisecond\<close> on a \<^verbatim>\<open>uint32\<close>, and back.\<close>

definition ms_duration :: "32 word \<Rightarrow> duration" where
  "ms_duration ms = uint ms * 1000000"

definition Milliseconds :: "duration \<Rightarrow> int" where
  "Milliseconds d = (if d < 0 then - ((- d) div 1000000) else d div 1000000)"

lemma Milliseconds_ms_duration [simp]: "Milliseconds (ms_duration ms) = uint ms"
  by (simp add: Milliseconds_def ms_duration_def)

text \<open>The entries of a slice of pointers that are not nil, as a loop with \<^verbatim>\<open>if x == nil { continue }\<close> sees them.\<close>

definition somes :: "'a option list \<Rightarrow> 'a list" where
  "somes xs = List.map_filter (\<lambda>x. x) xs"

lemma somes_simps [simp]: "somes [] = []" "somes (None # xs) = somes xs" "somes (Some x # xs) = x # somes xs"
  by (simp_all add: somes_def List.map_filter_simps)

lemma somes_append [simp]: "somes (xs @ ys) = somes xs @ somes ys"
  by (simp add: somes_def List.map_filter_def)

lemma set_somes [simp]: "set (somes xs) = {x. Some x \<in> set xs}"
  by (induction xs) (auto simp: somes_def List.map_filter_def)

lemma somes_map_Some [simp]: "somes (map Some xs) = xs"
  by (induction xs) simp_all

end
