(* ===== verification/Monitor.thy ===== *)
theory Monitor
  imports Prelude
begin

text \<open>
  Objects guarded by a mutex that count the goroutines inside them: the agent's \<^verbatim>\<open>pieceLimit\<close>
  (GetPiece calls that hold a slot) and \<^verbatim>\<open>peerGate\<close> (checks that use a peer).  Each method holds the
  mutex, so a concurrent run is a sequence of whole method calls in any order.  \<open>monitor_run\<close> is such
  a run; its last argument counts the goroutines that have entered and not yet left, which is not a
  field of the program.  The locale states what a method of each kind promises and shows once that
  the program's own counter is that number.
\<close>

inductive monitor_run ::
  "('s \<Rightarrow> 's \<Rightarrow> bool) \<Rightarrow> ('s \<Rightarrow> 's \<Rightarrow> bool) \<Rightarrow> ('s \<Rightarrow> 's \<Rightarrow> bool) \<Rightarrow> 's \<Rightarrow> 's \<Rightarrow> nat \<Rightarrow> bool"
  for enter leave other s0 where
  start: "monitor_run enter leave other s0 s0 0"
| enter: "monitor_run enter leave other s0 s h \<Longrightarrow> enter s t \<Longrightarrow> monitor_run enter leave other s0 t (Suc h)"
| leave: "monitor_run enter leave other s0 s (Suc h) \<Longrightarrow> leave s t \<Longrightarrow> monitor_run enter leave other s0 t h"
| other: "monitor_run enter leave other s0 s h \<Longrightarrow> other s t \<Longrightarrow> monitor_run enter leave other s0 t h"

locale monitor =
  fixes inflight :: "'s \<Rightarrow> int"
    and wf :: "'s \<Rightarrow> bool"
    and enter :: "'s \<Rightarrow> 's \<Rightarrow> bool"
    and leave :: "'s \<Rightarrow> 's \<Rightarrow> bool"
    and other :: "'s \<Rightarrow> 's \<Rightarrow> bool"
  assumes enter_wf: "wf s \<Longrightarrow> enter s t \<Longrightarrow> wf t"
    and leave_wf: "wf s \<Longrightarrow> leave s t \<Longrightarrow> 0 < inflight s \<Longrightarrow> wf t"
    and other_wf: "wf s \<Longrightarrow> other s t \<Longrightarrow> wf t"
    and enter_count: "wf s \<Longrightarrow> enter s t \<Longrightarrow> inflight t = inflight s + 1"
    and leave_count: "wf s \<Longrightarrow> leave s t \<Longrightarrow> 0 < inflight s \<Longrightarrow> inflight t = inflight s - 1"
    and other_count: "wf s \<Longrightarrow> other s t \<Longrightarrow> inflight t = inflight s"
begin

lemma run_counts:
  assumes "monitor_run enter leave other s0 s h" "wf s0" "inflight s0 = 0"
  shows "wf s \<and> inflight s = int h"
  using assms(1)
proof (induction rule: monitor_run.induct)
  case start
  then show ?case using assms(2,3) by simp
next
  case (enter s h t)
  then have s: "wf s" "inflight s = int h" by simp_all
  show ?case using enter_wf [OF s(1) enter.hyps(2)] enter_count [OF s(1) enter.hyps(2)] s(2) by simp
next
  case (leave s h t)
  then have s: "wf s" "0 < inflight s" "inflight s = int (Suc h)" by simp_all
  show ?case using leave_wf [OF s(1) leave.hyps(2) s(2)] leave_count [OF s(1) leave.hyps(2) s(2)] s(3) by simp
next
  case (other s h t)
  then have s: "wf s" "inflight s = int h" by simp_all
  show ?case using other_wf [OF s(1) other.hyps(2)] other_count [OF s(1) other.hyps(2)] s(2) by simp
qed

lemma run_idle: "monitor_run enter leave other s0 s 0 \<Longrightarrow> wf s0 \<Longrightarrow> inflight s0 = 0 \<Longrightarrow> inflight s = 0"
  using run_counts by force

end

end
