(* ===== verification/PieceLimit.thy ===== *)
theory PieceLimit
  imports Complex_Main Monitor "HOL-Library.Signed_Division"
begin

text \<open>
  \<^verbatim>\<open>agent/internal/checker/aimd.go\<close>: the cap on concurrent GetPiece calls, moved by additive increase
  and multiplicative decrease, and the deadline of one GetPiece call.

  A sample is the ratio of the time a piece took to its budget.  The program keeps it as a
  \<^verbatim>\<open>float64\<close> and compares it with 0.8 and 0.5; here it is the exact rational.  For budgets below
  \<^verbatim>\<open>2^50\<close> nanoseconds (13 days; \<^verbatim>\<open>pieceTimeout\<close> caps a budget at seconds) the two comparisons agree with
  those on the rounded quotient.  \<open>pl_gauge\<close> is the value last given to the \<^verbatim>\<open>onLimit\<close> callback, if there
  is one.

  \<^verbatim>\<open>acquire\<close> waits on a condition variable.  \<open>acquire_poll\<close> is one pass of its loop under the mutex: it
  takes a slot, fails with the context's error, or waits for the next broadcast and is tried again.
\<close>

record piece_limit =
  pl_inflight :: int
  pl_limit :: int
  pl_min :: int
  pl_max :: int
  pl_window :: int
  pl_samples :: "rat list"
  pl_onLimit :: bool
  pl_gauge :: int

definition aimdMinLimit :: int where "aimdMinLimit = 8"
definition aimdWindow :: int where "aimdWindow = 16"
definition aimdSlowRatio :: rat where "aimdSlowRatio = 4 / 5"
definition aimdFastRatio :: rat where "aimdFastRatio = 1 / 2"

definition newPieceLimit :: "int \<Rightarrow> int \<Rightarrow> int \<Rightarrow> int \<Rightarrow> bool \<Rightarrow> piece_limit" where
  "newPieceLimit mn mx initial window onLimit =
     (let mn = (if mn < 1 then 1 else mn);
          mx = (if mx < mn then mn else mx);
          initial = (if initial < mn then mn else initial);
          initial = (if initial > mx then mx else initial);
          window = (if window < 1 then aimdWindow else window)
      in \<lparr>pl_inflight = 0, pl_limit = initial, pl_min = mn, pl_max = mx, pl_window = window,
          pl_samples = [], pl_onLimit = onLimit, pl_gauge = (if onLimit then initial else 0)\<rparr>)"

datatype acquire_outcome = Acquired | CtxFailed go_error | Waiting

definition acquire_poll :: "go_error option \<Rightarrow> piece_limit \<Rightarrow> acquire_outcome \<times> piece_limit" where
  "acquire_poll ctxErr p =
     (if pl_inflight p \<ge> pl_limit p
      then (case ctxErr of Some e \<Rightarrow> (CtxFailed e, p) | None \<Rightarrow> (Waiting, p))
      else (case ctxErr of Some e \<Rightarrow> (CtxFailed e, p)
            | None \<Rightarrow> (Acquired, p\<lparr>pl_inflight := pl_inflight p + 1\<rparr>)))"

definition pl_release :: "piece_limit \<Rightarrow> piece_limit" where
  "pl_release p = (if pl_inflight p > 0 then p\<lparr>pl_inflight := pl_inflight p - 1\<rparr> else p)"

definition setLimitLocked :: "int \<Rightarrow> piece_limit \<Rightarrow> piece_limit" where
  "setLimitLocked next p =
     (if next = pl_limit p then p
      else (let p = p\<lparr>pl_limit := next\<rparr> in if pl_onLimit p then p\<lparr>pl_gauge := next\<rparr> else p))"

definition count_ratio :: "(rat \<Rightarrow> bool) \<Rightarrow> rat list \<Rightarrow> int" where
  "count_ratio P xs = int (length (filter P xs))"

definition pl_observe :: "duration \<Rightarrow> duration \<Rightarrow> piece_limit \<Rightarrow> piece_limit" where
  "pl_observe elapsed budget p =
     (if budget \<le> 0 \<or> elapsed < 0 then p
      else
       (let p = p\<lparr>pl_samples := pl_samples p @ [of_int elapsed / of_int budget]\<rparr>
        in if int (length (pl_samples p)) < pl_window p then p
           else
            (let slow = count_ratio (\<lambda>r. r > aimdSlowRatio) (pl_samples p);
                 fast = count_ratio (\<lambda>r. r \<le> aimdFastRatio) (pl_samples p);
                 p = p\<lparr>pl_samples := []\<rparr>
             in if slow * 2 \<ge> pl_window p
                then (let next = pl_limit p div 2
                      in setLimitLocked (if next < pl_min p then pl_min p else next) p)
                else if fast = pl_window p
                then (let next = pl_limit p + 1
                      in setLimitLocked (if next > pl_max p then pl_max p else next) p)
                else p)))"

text \<open>
  \<^verbatim>\<open>pieceTimeout\<close> at its machine widths: \<^verbatim>\<open>pieceSize\<close> is \<^verbatim>\<open>uint32\<close>, \<^verbatim>\<open>minBPS\<close> is \<^verbatim>\<open>uint64\<close>, durations are \<^verbatim>\<open>int64\<close>;
  the conversion \<^verbatim>\<open>time.Duration(minBPS)\<close> reinterprets the 64 bits as signed, and Go's division
  truncates.
\<close>

definition go_div64 :: "64 word \<Rightarrow> 64 word \<Rightarrow> 64 word" where
  "go_div64 a b = word_of_int (sint a sdiv sint b)"

definition pieceTimeout :: "32 word \<Rightarrow> 64 word \<Rightarrow> 64 word \<Rightarrow> 64 word \<Rightarrow> 64 word" where
  "pieceTimeout pieceSize base minBPS cap =
     (if minBPS = 0 \<or> pieceSize = 0 \<or> sint base \<le> 0
      then (if sint base < 0 then 0 else base)
      else
       (let extra = go_div64 (ucast pieceSize * 1000000000) minBPS;
            d = base + extra
        in if sint cap > 0 \<and> sint d > sint cap then cap else d))"

text \<open>Runs: goroutines acquire and release slots and report pieces in any order.\<close>

definition pl_enter_step :: "piece_limit \<Rightarrow> piece_limit \<Rightarrow> bool" where
  "pl_enter_step p p' \<longleftrightarrow> (\<exists>ctxErr. acquire_poll ctxErr p = (Acquired, p'))"

definition pl_leave_step :: "piece_limit \<Rightarrow> piece_limit \<Rightarrow> bool" where
  "pl_leave_step p p' \<longleftrightarrow> p' = pl_release p"

definition pl_other_step :: "piece_limit \<Rightarrow> piece_limit \<Rightarrow> bool" where
  "pl_other_step p p' \<longleftrightarrow> (\<exists>elapsed budget. p' = pl_observe elapsed budget p)"

abbreviation pl_run :: "piece_limit \<Rightarrow> piece_limit \<Rightarrow> nat \<Rightarrow> bool" where
  "pl_run \<equiv> monitor_run pl_enter_step pl_leave_step pl_other_step"

definition pl_inv :: "piece_limit \<Rightarrow> bool" where
  "pl_inv p \<longleftrightarrow> 1 \<le> pl_min p \<and> pl_min p \<le> pl_limit p \<and> pl_limit p \<le> pl_max p \<and> 1 \<le> pl_window p \<and>
     int (length (pl_samples p)) < pl_window p \<and> 0 \<le> pl_inflight p \<and> pl_inflight p \<le> pl_max p \<and>
     (pl_onLimit p \<longrightarrow> pl_gauge p = pl_limit p)"

text \<open>The reference for one full window of samples.\<close>

definition aimd_next :: "int \<Rightarrow> int \<Rightarrow> int \<Rightarrow> rat list \<Rightarrow> int" where
  "aimd_next lo hi cur rs =
     (if 2 * card {i. i < length rs \<and> rs ! i > 4 / 5} \<ge> length rs then max lo (cur div 2)
      else if \<forall>r \<in> set rs. r \<le> 1 / 2 then min hi (cur + 1)
      else cur)"

section \<open>Invariant\<close>

lemma setLimitLocked_sel [simp]:
  "pl_inflight (setLimitLocked n p) = pl_inflight p" "pl_limit (setLimitLocked n p) = n"
  "pl_min (setLimitLocked n p) = pl_min p" "pl_max (setLimitLocked n p) = pl_max p"
  "pl_window (setLimitLocked n p) = pl_window p" "pl_samples (setLimitLocked n p) = pl_samples p"
  "pl_onLimit (setLimitLocked n p) = pl_onLimit p"
  by (auto simp: setLimitLocked_def Let_def)

lemma setLimitLocked_inv:
  "pl_inv p \<Longrightarrow> pl_min p \<le> n \<Longrightarrow> n \<le> pl_max p \<Longrightarrow> pl_inv (setLimitLocked n p)"
  by (auto simp: setLimitLocked_def pl_inv_def Let_def)

lemma pl_inv_clear: "pl_inv p \<Longrightarrow> pl_inv (p\<lparr>pl_samples := []\<rparr>)"
  by (simp add: pl_inv_def)

lemma pl_inv_sample: "pl_inv p \<Longrightarrow> int (length xs) < pl_window p \<Longrightarrow> pl_inv (p\<lparr>pl_samples := xs\<rparr>)"
  by (simp add: pl_inv_def)

lemma pl_observe_inv:
  assumes "pl_inv p"
  shows "pl_inv (pl_observe elapsed budget p)"
proof -
  have c: "pl_inv (p\<lparr>pl_samples := []\<rparr>)" using assms by (rule pl_inv_clear)
  have h: "pl_min p \<le> max (pl_min p) (pl_limit p div 2)" "max (pl_min p) (pl_limit p div 2) \<le> pl_max p"
    and i: "pl_min p \<le> min (pl_max p) (pl_limit p + 1)" "min (pl_max p) (pl_limit p + 1) \<le> pl_max p"
    using assms by (auto simp: pl_inv_def)
  show ?thesis using assms c h i
    by (auto simp: pl_observe_def Let_def pl_inv_sample intro!: setLimitLocked_inv)
qed

lemma pl_observe_inflight [simp]: "pl_inflight (pl_observe elapsed budget p) = pl_inflight p"
  by (simp add: pl_observe_def Let_def)

lemma acquire_Acquired:
  "acquire_poll c p = (Acquired, p') \<longleftrightarrow>
     c = None \<and> pl_inflight p < pl_limit p \<and> p' = p\<lparr>pl_inflight := pl_inflight p + 1\<rparr>"
  by (auto simp: acquire_poll_def split: option.splits)

lemmas pl_steps = pl_enter_step_def pl_leave_step_def pl_other_step_def

interpretation pl: monitor pl_inflight pl_inv pl_enter_step pl_leave_step pl_other_step
  by unfold_locales
    (auto simp: pl_steps acquire_Acquired pl_release_def pl_inv_def [of "_\<lparr>pl_inflight := _\<rparr>"]
      intro: pl_observe_inv, (auto simp: pl_inv_def)?)

lemma newPieceLimit_inv: "pl_inv (newPieceLimit mn mx ini w cb)"
  by (auto simp: newPieceLimit_def pl_inv_def Let_def aimdWindow_def)

lemma newPieceLimit_idle [simp]: "pl_inflight (newPieceLimit mn mx ini w cb) = 0"
  by (simp add: newPieceLimit_def Let_def)



text \<open>
  No acquire is lost for good: when every slot has been given back, the next pass of a waiting
  acquire whose context is alive takes a slot.
\<close>

theorem acquire_when_idle:
  assumes "pl_run (newPieceLimit mn mx ini w cb) p 0"
  shows "acquire_poll None p = (Acquired, p\<lparr>pl_inflight := 1\<rparr>)"
proof -
  have "pl_inv p" "pl_inflight p = 0"
    using pl.run_counts [OF assms newPieceLimit_inv newPieceLimit_idle] by auto
  then show ?thesis by (simp add: acquire_poll_def pl_inv_def)
qed

theorem acquire_when_idle_witness:
  "fst (acquire_poll None (pl_observe 900 1000 (newPieceLimit 1 1 1 1 False))) = Acquired"
proof -
  have "pl_run (newPieceLimit 1 1 1 1 False) (pl_observe 900 1000 (newPieceLimit 1 1 1 1 False)) 0"
    by (rule monitor_run.other [OF monitor_run.start]) (auto simp: pl_steps)
  from acquire_when_idle [OF this] show ?thesis by simp
qed

section \<open>Additive increase, multiplicative decrease\<close>

lemma count_ratio_card: "count_ratio P xs = int (card {i. i < length xs \<and> P (xs ! i)})"
  by (simp add: count_ratio_def length_filter_conv_card)

lemma count_ratio_all: "count_ratio P xs = int (length xs) \<longleftrightarrow> (\<forall>x \<in> set xs. P x)"
  by (simp add: count_ratio_def) (metis filter_id_conv length_filter_less less_irrefl)

text \<open>A window of observations, each with a positive budget.\<close>

definition observe_all :: "(duration \<times> duration) list \<Rightarrow> piece_limit \<Rightarrow> piece_limit" where
  "observe_all obs p = fold (\<lambda>(el, bu). pl_observe el bu) obs p"

definition obs_ratio :: "duration \<times> duration \<Rightarrow> rat" where
  "obs_ratio ob = of_int (fst ob) / of_int (snd ob)"

lemma observe_all_Nil [simp]: "observe_all [] p = p"
  by (simp add: observe_all_def)

lemma observe_all_Cons [simp]: "observe_all (ob # obs) p = observe_all obs (pl_observe (fst ob) (snd ob) p)"
  by (simp add: observe_all_def split: prod.splits)

lemma observe_all_partial:
  assumes "\<forall>ob \<in> set obs. 0 \<le> fst ob \<and> 0 < snd ob"
    "int (length (pl_samples p) + length obs) < pl_window p"
  shows "observe_all obs p = p\<lparr>pl_samples := pl_samples p @ map obs_ratio obs\<rparr>"
  using assms
proof (induction obs arbitrary: p)
  case Nil
  then show ?case by simp
next
  case (Cons ob obs)
  have "pl_observe (fst ob) (snd ob) p = p\<lparr>pl_samples := pl_samples p @ [obs_ratio ob]\<rparr>"
    using Cons.prems by (auto simp: pl_observe_def Let_def obs_ratio_def)
  then show ?case using Cons by simp
qed

lemma pl_observe_full:
  assumes "0 \<le> el" "0 < bu" "int (Suc (length (pl_samples p))) = pl_window p"
  shows "pl_limit (pl_observe el bu p) =
      aimd_next (pl_min p) (pl_max p) (pl_limit p) (pl_samples p @ [obs_ratio (el, bu)]) \<and>
    pl_samples (pl_observe el bu p) = []"
proof -
  let ?rs = "pl_samples p @ [of_int el / of_int bu]"
  have len: "pl_window p = int (length ?rs)" using assms(3) by simp
  have slow: "count_ratio (\<lambda>r. r > aimdSlowRatio) ?rs * 2 \<ge> pl_window p \<longleftrightarrow>
      2 * card {i. i < length ?rs \<and> ?rs ! i > 4 / 5} \<ge> length ?rs"
    unfolding count_ratio_card aimdSlowRatio_def len by linarith
  have fast: "count_ratio (\<lambda>r. r \<le> aimdFastRatio) ?rs = pl_window p \<longleftrightarrow> (\<forall>r \<in> set ?rs. r \<le> 1 / 2)"
    unfolding len count_ratio_all aimdFastRatio_def ..
  have full: "\<not> int (length ?rs) < pl_window p" using len by simp
  show ?thesis
    using assms(1,2) full slow fast
    by (simp add: pl_observe_def Let_def aimd_next_def obs_ratio_def max_def min_def)
qed

text \<open>
  One full window moves the cap as the comment on \<^verbatim>\<open>pieceLimit\<close> says: if at least half of the
  pieces ran longer than 80\% of their timeout the cap is halved (not below \<^verbatim>\<open>min\<close>); otherwise, if
  every piece took at most half of its timeout, the cap grows by one slot (not above \<^verbatim>\<open>max\<close>);
  otherwise it is unchanged.  A new window then starts.
\<close>

theorem aimd_window:
  assumes "pl_samples p = []" "int (length obs) = pl_window p" "1 \<le> pl_window p"
    "\<forall>ob \<in> set obs. 0 \<le> fst ob \<and> 0 < snd ob"
  shows "pl_limit (observe_all obs p) = aimd_next (pl_min p) (pl_max p) (pl_limit p) (map obs_ratio obs) \<and>
    pl_samples (observe_all obs p) = []"
proof -
  have "obs \<noteq> []" using assms(2,3) by auto
  then obtain pre el bu where obs: "obs = pre @ [(el, bu)]" by (metis rev_exhaust surj_pair)
  let ?q = "p\<lparr>pl_samples := map obs_ratio pre\<rparr>"
  have "observe_all pre p = ?q"
    using observe_all_partial [of pre p] assms obs by simp
  then have "observe_all obs p = pl_observe el bu ?q"
    by (simp add: obs observe_all_def)
  moreover have "int (Suc (length (pl_samples ?q))) = pl_window ?q" using assms(2) obs by simp
  ultimately show ?thesis
    using pl_observe_full [of el bu ?q] assms(4) obs by simp
qed

theorem aimd_window_witness:
  "pl_limit (observe_all (replicate 8 (900, 1000) @ replicate 8 (100, 1000)) (newPieceLimit 8 40 20 16 False)) = 10"
proof -
  let ?obs = "replicate 8 (900, 1000) @ replicate 8 (100, 1000) :: (duration \<times> duration) list"
  have c: "{i. i < 16 \<and> map obs_ratio ?obs ! i > 4 / 5} = {0..<8}"
    by (auto simp: obs_ratio_def nth_append)
  have "aimd_next 8 40 20 (map obs_ratio ?obs) = 10"
    using c by (simp add: aimd_next_def)
  then show ?thesis
    using aimd_window [of "newPieceLimit 8 40 20 16 False" ?obs]
    by (simp add: newPieceLimit_def Let_def)
qed

section \<open>The deadline of one piece\<close>

lemma sint64_of_small: "0 \<le> i \<Longrightarrow> i < 2 ^ 63 \<Longrightarrow> sint (word_of_int i :: 64 word) = i"
  unfolding sint_sbintrunc' by (rule signed_take_bit_int_eq_self) simp_all

lemma piece_nanos: "sint ((ucast (n :: 32 word) :: 64 word) * 1000000000) = uint n * 1000000000"
proof -
  have "uint n < 2 ^ 32" using unsigned_less [of n] by simp
  then have b: "uint n * 1000000000 < 2 ^ 63" by simp
  have "(ucast n :: 64 word) * 1000000000 = word_of_int (uint n * 1000000000)"
    by (simp add: word_of_int_uint)
  then show ?thesis using b sint64_of_small [of "uint n * 1000000000"] by simp
qed

text \<open>
  With a positive base and cap and a floor throughput below \<^verbatim>\<open>2^63\<close>, no intermediate product
  or sum of \<^verbatim>\<open>pieceTimeout\<close> overflows: the deadline is the base plus the time the piece needs at the
  floor throughput, in whole nanoseconds, cut at the cap.
\<close>

theorem pieceTimeout_exact:
  assumes "0 < sint base" "sint base \<le> 2 ^ 62" "0 < sint minBPS" "pieceSize \<noteq> 0" "0 < sint cap"
  shows "sint (pieceTimeout pieceSize base minBPS cap) =
    min (sint cap) (sint base + uint pieceSize * 1000000000 div sint minBPS)"
proof -
  let ?x = "uint pieceSize * 1000000000 div sint minBPS"
  have "uint pieceSize < 2 ^ 32" using unsigned_less [of pieceSize] by simp
  moreover have "?x \<le> uint pieceSize * 1000000000"
    using assms(3) zdiv_mono2 [of "uint pieceSize * 1000000000" 1 "sint minBPS"] by simp
  ultimately have x: "0 \<le> ?x" "?x < 2 ^ 62" using assms(3) by (auto intro: pos_imp_zdiv_nonneg_iff [THEN iffD2])
  have e: "go_div64 (ucast pieceSize * 1000000000) minBPS = word_of_int ?x"
  proof -
    have "uint pieceSize * 1000000000 sdiv sint minBPS = ?x"
      using assms(3) by (cases "uint pieceSize = 0") (auto simp: signed_divide_int_def sgn_mult sgn_if)
    then show ?thesis by (simp add: go_div64_def piece_nanos)
  qed
  have "base + word_of_int ?x = word_of_int (sint base + ?x)"
    by simp
  then have d: "sint (base + word_of_int ?x) = sint base + ?x"
    using x assms(1,2) sint64_of_small [of "sint base + ?x"] by simp
  have "minBPS \<noteq> 0" using assms(3) by auto
  then show ?thesis using assms d by (simp add: pieceTimeout_def e Let_def min_def)
qed

theorem pieceTimeout_exact_witness:
  "sint (pieceTimeout 131072 2000000000 312500 15000000000) = 2419430400"
  using pieceTimeout_exact [of 2000000000 312500 131072 15000000000] by simp

text \<open>
  A floor throughput of \<^verbatim>\<open>2^63\<close> or more, which the agent's configuration accepts, is read as
  a negative number: with \<^verbatim>\<open>2^64 - 1\<close> bytes per second a piece of 128 KiB and a base of 2 seconds get a
  deadline in the past instead of 2 seconds.
\<close>

theorem pieceTimeout_huge_bps_negative:
  "sint (pieceTimeout 131072 2000000000 (2 ^ 64 - 1) 15000000000) < 0"
  by (simp add: pieceTimeout_def go_div64_def Let_def signed_divide_int_def piece_nanos)

end
