(* ===== verification/PeerGate.thy ===== *)
theory PeerGate
  imports Monitor
begin

text \<open>
  \<^verbatim>\<open>agent/internal/checker/session.go\<close>: the gate that keeps \<^verbatim>\<open>Reinit\<close> off an ADNL peer while a check on it
  is running.  The field \<open>pg_calls\<close> records, for every call of the \<^verbatim>\<open>reinit\<close> callback, the value of
  \<^verbatim>\<open>inflight\<close> at that moment; it stands for the callback's effect on the peer.
\<close>

record peer_gate =
  pg_inflight :: int
  pg_dirty :: bool
  pg_reinit :: bool
  pg_calls :: "int list"

definition newPeerGate :: "bool \<Rightarrow> peer_gate" where
  "newPeerGate reinit = \<lparr>pg_inflight = 0, pg_dirty = False, pg_reinit = reinit, pg_calls = []\<rparr>"

definition gate_begin :: "peer_gate \<Rightarrow> peer_gate" where
  "gate_begin g =
     (let g1 = (if pg_dirty g \<and> pg_inflight g = 0 \<and> pg_reinit g
                then g\<lparr>pg_calls := pg_calls g @ [pg_inflight g], pg_dirty := False\<rparr> else g)
      in g1\<lparr>pg_inflight := pg_inflight g1 + 1\<rparr>)"

definition gate_end :: "bool \<Rightarrow> peer_gate \<Rightarrow> peer_gate" where
  "gate_end connClosed g =
     (let g1 = (if connClosed then g\<lparr>pg_dirty := True\<rparr> else g);
          g2 = (if pg_inflight g1 > 0 then g1\<lparr>pg_inflight := pg_inflight g1 - 1\<rparr> else g1)
      in if pg_dirty g2 \<and> pg_inflight g2 = 0 \<and> pg_reinit g2
         then g2\<lparr>pg_calls := pg_calls g2 @ [pg_inflight g2], pg_dirty := False\<rparr> else g2)"

text \<open>The runs of a gate: checks begin and end in any order, each end reporting any outcome.\<close>

definition gate_enter_step :: "peer_gate \<Rightarrow> peer_gate \<Rightarrow> bool" where
  "gate_enter_step g g' \<longleftrightarrow> g' = gate_begin g"

definition gate_leave_step :: "peer_gate \<Rightarrow> peer_gate \<Rightarrow> bool" where
  "gate_leave_step g g' \<longleftrightarrow> (\<exists>connClosed. g' = gate_end connClosed g)"

definition gate_other_step :: "peer_gate \<Rightarrow> peer_gate \<Rightarrow> bool" where
  "gate_other_step g g' \<longleftrightarrow> False"

abbreviation gate_run :: "bool \<Rightarrow> peer_gate \<Rightarrow> nat \<Rightarrow> bool" where
  "gate_run reinit \<equiv> monitor_run gate_enter_step gate_leave_step gate_other_step (newPeerGate reinit)"

definition gate_inv :: "peer_gate \<Rightarrow> bool" where
  "gate_inv g \<longleftrightarrow> 0 \<le> pg_inflight g \<and> (\<forall>n \<in> set (pg_calls g). n = 0) \<and>
     (pg_reinit g \<and> pg_dirty g \<longrightarrow> 0 < pg_inflight g)"

lemmas gate_steps = gate_enter_step_def gate_leave_step_def gate_other_step_def

lemma gate_begin_reinit [simp]: "pg_reinit (gate_begin g) = pg_reinit g"
  by (simp add: gate_begin_def Let_def)

lemma gate_end_reinit [simp]: "pg_reinit (gate_end c g) = pg_reinit g"
  by (simp add: gate_end_def Let_def)

lemma gate_begin_inflight [simp]: "pg_inflight (gate_begin g) = pg_inflight g + 1"
  by (simp add: gate_begin_def Let_def)

lemma gate_end_inflight [simp]:
  "pg_inflight (gate_end c g) = (if 0 < pg_inflight g then pg_inflight g - 1 else pg_inflight g)"
  by (simp add: gate_end_def Let_def)

lemma gate_begin_inv: "gate_inv g \<Longrightarrow> gate_inv (gate_begin g)"
  by (auto simp: gate_inv_def gate_begin_def Let_def)

lemma gate_end_inv: "gate_inv g \<Longrightarrow> gate_inv (gate_end c g)"
  by (auto simp: gate_inv_def gate_end_def Let_def)

interpretation pg: monitor pg_inflight gate_inv gate_enter_step gate_leave_step gate_other_step
  by unfold_locales (auto simp: gate_steps intro: gate_begin_inv gate_end_inv)

lemma gate_run_reinit: "gate_run r g h \<Longrightarrow> pg_reinit g = r"
  by (induction rule: monitor_run.induct) (auto simp: gate_steps newPeerGate_def)

lemma gate_run_inv:
  assumes "gate_run r g h"
  shows "gate_inv g \<and> pg_inflight g = int h"
  by (rule pg.run_counts [OF assms]) (simp_all add: gate_inv_def newPeerGate_def)



end
