(* ===== verification/PieceCheck.thy ===== *)
theory PieceCheck
  imports Messages PieceLimit PeerGate
begin

text \<open>
  \<^verbatim>\<open>agent/internal/checker/checker.go\<close>, the check of one bag: the ping cache of a peer, the number of
  pieces of a bag, and \<^verbatim>\<open>checkPiece\<close>.

  \<^verbatim>\<open>checkPiece\<close> talks to the network and to three objects it shares with other goroutines (the ping
  cache, the peer gate, the piece limiter).  The record \<open>piece_env\<close> holds what the outside answers
  during one call: the network answers, the clock, the random piece and what the shared objects
  return.  The result is the returned pair together with the list of calls made on the shared
  objects, in order; deferred calls stand where the function returns.  The cell, TL and TL-B functions
  of tonutils-go are the fields of \<open>cell_lib\<close>.
\<close>

definition defaultPingTimeout :: duration where "defaultPingTimeout = 7000000000"
definition defaultRLDPTimeout :: duration where "defaultRLDPTimeout = 2000000000"
definition pingCacheTTL :: duration where "pingCacheTTL = 2000000000"

definition timeoutFromMs :: "32 word \<Rightarrow> duration \<Rightarrow> duration" where
  "timeoutFromMs ms fallback = (if ms = 0 then fallback else ms_duration ms)"

section \<open>The ping cache\<close>

text \<open>\<^verbatim>\<open>lastSuccessAt\<close>, \<open>None\<close> for the zero time; the outer option is the pointer.\<close>

record peer_ping_state =
  pps_lastSuccessAt :: "time option"

definition shouldProbe :: "peer_ping_state option \<Rightarrow> time \<Rightarrow> bool" where
  "shouldProbe s now =
     (case s of
        None \<Rightarrow> True
      | Some st \<Rightarrow>
         (case pps_lastSuccessAt st of None \<Rightarrow> True | Some t \<Rightarrow> now - t \<ge> pingCacheTTL))"

definition markSuccess :: "time \<Rightarrow> peer_ping_state option \<Rightarrow> peer_ping_state option" where
  "markSuccess now s = map_option (\<lambda>st. st\<lparr>pps_lastSuccessAt := Some now\<rparr>) s"

definition pps_invalidate :: "peer_ping_state option \<Rightarrow> peer_ping_state option" where
  "pps_invalidate s = map_option (\<lambda>st. st\<lparr>pps_lastSuccessAt := None\<rparr>) s"

section \<open>The pieces of a bag\<close>

record torrent_info =
  ti_PieceSize :: "32 word"
  ti_FileSize :: "64 word"
  ti_RootHash :: bytes
  ti_HeaderSize :: "64 word"
  ti_HeaderHash :: bytes
  ti_Description :: string

definition piecesCount :: "torrent_info \<Rightarrow> go_error + 32 word" where
  "piecesCount info =
     (if ti_PieceSize info = 0 \<or> ti_FileSize info = 0
      then Inl (ErrText (''file size '' @ Itoa (uint (ti_FileSize info)) @ '' and piece size '' @
             Itoa (uint (ti_PieceSize info)) @ '' must both be non-zero''))
      else
       (let count = ti_FileSize info div ucast (ti_PieceSize info);
            count = (if ti_FileSize info mod ucast (ti_PieceSize info) \<noteq> 0 then count + 1 else count)
        in if count > 2147483647
           then Inl (ErrText (''pieces count '' @ Itoa (uint count) @ '' is not addressable by storage.getPiece''))
           else Inr (ucast count)))"

section \<open>The check\<close>

record 'cell cell_lib =
  cl_tlHash :: "bytes \<Rightarrow> go_error + bytes"
  cl_FromBOC :: "bytes \<Rightarrow> go_error + 'cell"
  cl_Hash :: "'cell \<Rightarrow> bytes"
  cl_ParseInfo :: "'cell \<Rightarrow> go_error + torrent_info"
  cl_CheckProof :: "'cell \<Rightarrow> bytes \<Rightarrow> go_error option"

record piece_env =
  pe_peerCast :: bool
  pe_pingState :: "peer_ping_state option"
  pe_probeNow :: time
  pe_Ping :: "go_error option"
  pe_pingNow :: time
  pe_getTorrentInfo :: "bytes \<Rightarrow> duration \<Rightarrow> go_error + bytes"
  pe_Int31n :: "32 word \<Rightarrow> 32 word"
  pe_acquireErr :: "go_error option"
  pe_getPiece :: "bytes \<Rightarrow> 32 word \<Rightarrow> duration \<Rightarrow> go_error + bytes"
  pe_elapsed :: duration
  pe_ctxErr :: "go_error option"
  pe_doneNow :: time

record checker =
  ck_maxConcurrentProviders :: int
  ck_maxConcurrentBags :: int
  ck_pieceMinBPS :: "64 word"
  ck_pieceTimeoutCap :: "64 word"
  ck_pieces :: piece_limit

datatype shared_op =
    OpInvalidate
  | OpMarkSuccess time
  | OpGateBegin
  | OpGateEnd bool
  | OpAcquire
  | OpRelease
  | OpObserve duration duration

definition inv_op :: "piece_env \<Rightarrow> shared_op list" where
  "inv_op env = (if pe_pingState env = None then [] else [OpInvalidate])"

definition mark_op :: "piece_env \<Rightarrow> time \<Rightarrow> shared_op list" where
  "mark_op env now = (if pe_pingState env = None then [] else [OpMarkSuccess now])"

text \<open>From the piece request on: the slot is held, the torrent info is known to be the bag's.\<close>

definition checkPiece_proof ::
  "'cell cell_lib \<Rightarrow> checker \<Rightarrow> piece_env \<Rightarrow> bytes \<Rightarrow> torrent_info \<Rightarrow> 32 word \<Rightarrow> duration \<Rightarrow>
     (reason_code \<times> string) \<times> shared_op list \<times> bool" where
  "checkPiece_proof lib c env over info pieceID pieceBudget =
     (let answer = pe_getPiece env over pieceID pieceBudget;
          observed = (if pe_ctxErr env = None \<and>
                         (case answer of Inr _ \<Rightarrow> True | Inl err \<Rightarrow> is_DeadlineExceeded err)
                      then [OpObserve (pe_elapsed env) pieceBudget] else [])
      in case answer of
           Inl err \<Rightarrow>
             ((CantGetPiece, ''stage=get_piece piece_id='' @ Itoa (sint pieceID) @ '' timeout_ms='' @
                 Itoa (Milliseconds pieceBudget) @ '' error='' @ err_Error err),
              observed @ inv_op env, is_PeerConnClosed err)
         | Inr proofBytes \<Rightarrow>
            (case cl_FromBOC lib proofBytes of
               Inl err \<Rightarrow> ((CantParseBoC, ''stage=parse_piece_proof_boc error='' @ err_Error err), observed, False)
             | Inr proof \<Rightarrow>
                (case cl_CheckProof lib proof (ti_RootHash info) of
                   Some err \<Rightarrow>
                     ((ProofCheckFailed, ''stage=check_proof root_hash='' @ hex_Encode (ti_RootHash info) @
                         '' error='' @ err_Error err), observed, False)
                 | None \<Rightarrow> ((ValidStorageProof, []), observed @ mark_op env (pe_doneNow env), False))))"

definition checkPiece_info ::
  "'cell cell_lib \<Rightarrow> checker \<Rightarrow> piece_env \<Rightarrow> bytes \<Rightarrow> bytes \<Rightarrow> duration \<Rightarrow> bytes \<Rightarrow>
     (reason_code \<times> string) \<times> shared_op list \<times> bool" where
  "checkPiece_info lib c env bag over rldpTimeout data =
     (case cl_FromBOC lib data of
        Inl err \<Rightarrow> ((InvalidHeader, ''stage=parse_torrent_info_boc error='' @ err_Error err), [], False)
      | Inr cl \<Rightarrow>
         if cl_Hash lib cl \<noteq> bag
         then ((InvalidHeader, ''stage=validate_torrent_info_hash got='' @ hex_Encode (cl_Hash lib cl) @
                  '' expected='' @ hex_Encode bag), [], False)
         else
          (case cl_ParseInfo lib cl of
             Inl err \<Rightarrow> ((InvalidHeader, ''stage=load_torrent_info_cell error='' @ err_Error err), [], False)
           | Inr info \<Rightarrow>
              (case piecesCount info of
                 Inl err \<Rightarrow>
                   ((InvalidHeader, ''stage=validate_torrent_info file_size='' @ Itoa (uint (ti_FileSize info)) @
                       '' piece_size='' @ Itoa (uint (ti_PieceSize info)) @ '' error='' @ err_Error err), [], False)
               | Inr n \<Rightarrow>
                  (let pieceID = pe_Int31n env n;
                       pieceBudget = sint (pieceTimeout (ti_PieceSize info) (word_of_int rldpTimeout)
                                        (ck_pieceMinBPS c) (ck_pieceTimeoutCap c))
                   in case pe_acquireErr env of
                        Some err \<Rightarrow>
                          ((CantGetPiece, ''stage=get_piece_slot piece_id='' @ Itoa (sint pieceID) @
                              '' error='' @ err_Error err), [], False)
                      | None \<Rightarrow>
                         (let (res, ops, closed) = checkPiece_proof lib c env over info pieceID pieceBudget
                          in (res, OpAcquire # ops @ [OpRelease], closed))))))"

definition checkPiece_query ::
  "'cell cell_lib \<Rightarrow> checker \<Rightarrow> piece_env \<Rightarrow> string \<Rightarrow> check_timeouts option \<Rightarrow>
     (reason_code \<times> string) \<times> shared_op list \<times> bool" where
  "checkPiece_query lib c env bagID timeouts =
     (case hex_DecodeString bagID of
        Inl err \<Rightarrow>
          ((InvalidBagID, ''stage=decode_bag_id bag_id='' @ bagID @ '' error='' @ err_Error err), [], False)
      | Inr bag \<Rightarrow>
         (case cl_tlHash lib bag of
            Inl err \<Rightarrow> ((InvalidBagID, ''stage=hash_overlay error='' @ err_Error err), [], False)
          | Inr over \<Rightarrow>
             (let rldpTimeout = timeoutFromMs (nil_or 0 ct_RldpMs timeouts) defaultRLDPTimeout
              in case pe_getTorrentInfo env over rldpTimeout of
                   Inl err \<Rightarrow>
                     ((GetInfoFailed, ''stage=get_torrent_info timeout_ms='' @ Itoa (Milliseconds rldpTimeout) @
                         '' error='' @ err_Error err), inv_op env, is_PeerConnClosed err)
                 | Inr data \<Rightarrow> checkPiece_info lib c env bag over rldpTimeout data)))"

definition checkPiece ::
  "'cell cell_lib \<Rightarrow> checker \<Rightarrow> string \<Rightarrow> check_timeouts option \<Rightarrow> piece_env \<Rightarrow>
     (reason_code \<times> string) \<times> shared_op list" where
  "checkPiece lib c bagID timeouts env =
     (if \<not> pe_peerCast env
      then ((UnknownPeer, ''stage=get_adnl_peer error=adnl peer cast failed''), inv_op env)
      else
       (let pingTimeout = timeoutFromMs (nil_or 0 ct_PingMs timeouts) defaultPingTimeout;
            (res, ops, closed) =
              (if shouldProbe (pe_pingState env) (pe_probeNow env)
               then (case pe_Ping env of
                       Some err \<Rightarrow>
                         ((PingFailed, ''stage=piece_ping timeout_ms='' @ Itoa (Milliseconds pingTimeout) @
                             '' error='' @ err_Error err), inv_op env, is_PeerConnClosed err)
                     | None \<Rightarrow>
                        (let (r, more, cl) = checkPiece_query lib c env bagID timeouts
                         in (r, mark_op env (pe_pingNow env) @ more, cl)))
               else checkPiece_query lib c env bagID timeouts)
        in (res, OpGateBegin # ops @ [OpGateEnd closed])))"

text \<open>
  What a valid verdict stands for: a piece of the bag, drawn by the agent, was proved against the
  root hash of a torrent info whose own hash is the bag id.
\<close>

definition storage_proved ::
  "'cell cell_lib \<Rightarrow> checker \<Rightarrow> string \<Rightarrow> check_timeouts option \<Rightarrow> piece_env \<Rightarrow> bool" where
  "storage_proved lib c bagID timeouts env \<longleftrightarrow>
     (\<exists>bag over data cl info n pieceBytes proof.
        hex_DecodeString bagID = Inr bag \<and> cl_tlHash lib bag = Inr over \<and>
        pe_getTorrentInfo env over (timeoutFromMs (nil_or 0 ct_RldpMs timeouts) defaultRLDPTimeout) = Inr data \<and>
        cl_FromBOC lib data = Inr cl \<and> cl_Hash lib cl = bag \<and> cl_ParseInfo lib cl = Inr info \<and>
        piecesCount info = Inr n \<and> pe_acquireErr env = None \<and>
        pe_getPiece env over (pe_Int31n env n)
          (sint (pieceTimeout (ti_PieceSize info)
             (word_of_int (timeoutFromMs (nil_or 0 ct_RldpMs timeouts) defaultRLDPTimeout))
             (ck_pieceMinBPS c) (ck_pieceTimeoutCap c))) = Inr pieceBytes \<and>
        cl_FromBOC lib pieceBytes = Inr proof \<and> cl_CheckProof lib proof (ti_RootHash info) = None)"

definition peer_alive :: "piece_env \<Rightarrow> bool" where
  "peer_alive env \<longleftrightarrow> pe_peerCast env \<and> (shouldProbe (pe_pingState env) (pe_probeNow env) \<longrightarrow> pe_Ping env = None)"

text \<open>The calls of one check on the ping cache, replayed.\<close>

fun ping_op :: "shared_op \<Rightarrow> peer_ping_state option \<Rightarrow> peer_ping_state option" where
  "ping_op OpInvalidate st = pps_invalidate st"
| "ping_op (OpMarkSuccess now) st = markSuccess now st"
| "ping_op _ st = st"

definition ping_after :: "shared_op list \<Rightarrow> peer_ping_state option \<Rightarrow> peer_ping_state option" where
  "ping_after ops st = fold ping_op ops st"

text \<open>
  The discipline the shared objects expect of one check, as an automaton on (inside the gate, slot
  held): a slot is taken and given back inside the gate, a piece is timed while its slot is held.
\<close>

fun op_step :: "shared_op \<Rightarrow> bool \<times> bool \<Rightarrow> (bool \<times> bool) option" where
  "op_step OpGateBegin (g, s) = (if \<not> g \<and> \<not> s then Some (True, False) else None)"
| "op_step (OpGateEnd cc) (g, s) = (if g \<and> \<not> s then Some (False, False) else None)"
| "op_step OpAcquire (g, s) = (if g \<and> \<not> s then Some (True, True) else None)"
| "op_step OpRelease (g, s) = (if g \<and> s then Some (True, False) else None)"
| "op_step (OpObserve el bu) (g, s) = (if g \<and> s then Some (True, True) else None)"
| "op_step OpInvalidate (g, s) = Some (g, s)"
| "op_step (OpMarkSuccess now) (g, s) = Some (g, s)"

fun op_steps :: "shared_op list \<Rightarrow> bool \<times> bool \<Rightarrow> (bool \<times> bool) option" where
  "op_steps [] q = Some q"
| "op_steps (a # ops) q = Option.bind (op_step a q) (op_steps ops)"

section \<open>The number of pieces\<close>

lemma word64_of_32: "uint (ucast (w :: 32 word) :: 64 word) = uint w"
proof -
  have "uint w < 2 ^ 32" using uint_lt2p [of w] by simp
  then show ?thesis by (simp add: unsigned_ucast_eq take_bit_int_eq_self)
qed

lemma ceil_div_int:
  assumes "0 < (p :: int)" "0 \<le> f"
  shows "(f + p - 1) div p = (if f mod p = 0 then f div p else f div p + 1)"
proof (cases "f mod p = 0")
  case True
  then have f: "f = p * (f div p)" by (metis add.right_neutral mult_div_mod_eq)
  have "(p * (f div p) + (p - 1)) div p = f div p" using assms by simp
  then show ?thesis using True f by (simp add: algebra_simps)
next
  case False
  have f: "f = p * (f div p) + f mod p" by simp
  have r: "1 \<le> f mod p" "f mod p < p" using assms False by (simp_all add: int_one_le_iff_zero_less order_le_neq_trans)
  have "f + p - 1 = (f mod p - 1) + p * (f div p + 1)" using f by (simp add: algebra_simps)
  moreover have "((f mod p - 1) + p * (f div p + 1)) div p = (f div p + 1) + (f mod p - 1) div p"
    using assms by (intro div_mult_self2) simp
  ultimately have "(f + p - 1) div p = (f div p + 1) + (f mod p - 1) div p" by (simp only:)
  then show ?thesis using r False by simp
qed

lemma piece_count_word:
  assumes "ti_PieceSize info \<noteq> 0"
  defines "q \<equiv> ti_FileSize info div ucast (ti_PieceSize info)"
    and "r \<equiv> ti_FileSize info mod ucast (ti_PieceSize info)"
  shows "uint (if r \<noteq> 0 then q + 1 else q) =
    (uint (ti_FileSize info) + uint (ti_PieceSize info) - 1) div uint (ti_PieceSize info)"
proof -
  let ?f = "uint (ti_FileSize info)" and ?p = "uint (ti_PieceSize info)"
  have p: "0 < ?p" using assms(1) by (simp add: uint_0_iff order_le_neq_trans)
  have q: "uint q = ?f div ?p" and r: "uint r = ?f mod ?p"
    by (simp_all add: q_def r_def uint_div uint_mod word64_of_32)
  have f: "?f < 2 ^ 64" using unsigned_less [of "ti_FileSize info"] by simp
  have "uint (q + 1) = ?f div ?p + 1" if "r \<noteq> 0"
  proof -
    have "?p \<noteq> 1" using that r by (metis mod_by_1 uint_0_iff)
    then have "?f div ?p \<le> ?f div 2" using p by (intro zdiv_mono2) simp_all
    moreover have "?f div 2 + 1 < 2 ^ 64" using f by simp
    ultimately have "uint q + 1 < 2 ^ 64" using q by linarith
    then have "(uint q + 1) mod 2 ^ 64 = uint q + 1" by (intro mod_pos_pos_trivial) simp_all
    then show ?thesis using q by (simp add: uint_word_ariths)
  qed
  moreover have "r = 0 \<longleftrightarrow> ?f mod ?p = 0" using r by (metis uint_0_iff)
  ultimately show ?thesis using ceil_div_int [OF p, of ?f] q by simp
qed

text \<open>
  For a torrent info with non-zero sizes the number of pieces is the file size over the
  piece size rounded up, without 64-bit overflow.  It is at least 1, so drawing the random piece
  cannot panic, and it is refused exactly when it does not fit the \<^verbatim>\<open>int32\<close> piece id of \<^verbatim>\<open>storage.getPiece\<close>.
\<close>

theorem piecesCount_ceil:
  fixes info :: torrent_info
  defines "n \<equiv> (uint (ti_FileSize info) + uint (ti_PieceSize info) - 1) div uint (ti_PieceSize info)"
  assumes "ti_PieceSize info \<noteq> 0" "ti_FileSize info \<noteq> 0"
  shows "1 \<le> n \<and> (if n \<le> 2147483647 then \<exists>w. piecesCount info = Inr w \<and> sint w = n
     else \<exists>err. piecesCount info = Inl err)"
proof -
  let ?c = "if ti_FileSize info mod ucast (ti_PieceSize info) \<noteq> 0
    then ti_FileSize info div ucast (ti_PieceSize info) + 1
    else ti_FileSize info div ucast (ti_PieceSize info)"
  have c: "uint ?c = n" using piece_count_word [OF assms(2)] by (simp add: n_def)
  have "0 < uint (ti_PieceSize info)" "0 < uint (ti_FileSize info)"
    using assms(2,3) by (simp_all add: uint_0_iff order_le_neq_trans)
  then have n1: "1 \<le> n"
    using zdiv_mono1 [of "uint (ti_PieceSize info)" _ "uint (ti_PieceSize info)"] by (simp add: n_def)
  have le: "?c > 2147483647 \<longleftrightarrow> n > 2147483647"
    using c by (simp add: word_less_def)
  have u: "sint (ucast ?c :: 32 word) = n" if "n \<le> 2147483647"
    using that n1 c by (simp add: signed_ucast_eq signed_take_bit_int_eq_self)
  show ?thesis
    using assms(2,3) n1 le u by (auto simp: piecesCount_def Let_def)
qed

theorem piecesCount_ceil_witness:
  "\<exists>w. piecesCount \<lparr>ti_PieceSize = 131072, ti_FileSize = 262145, ti_RootHash = [],
     ti_HeaderSize = 0, ti_HeaderHash = [], ti_Description = []\<rparr> = Inr w \<and> sint w = 3"
  using piecesCount_ceil [of "\<lparr>ti_PieceSize = 131072, ti_FileSize = 262145, ti_RootHash = [],
     ti_HeaderSize = 0, ti_HeaderHash = [], ti_Description = []\<rparr>"] by simp

section \<open>What a verdict means\<close>

lemma checkPiece_proof_valid:
  "fst (fst (checkPiece_proof lib c env over info i bud)) = ValidStorageProof \<longleftrightarrow>
     (\<exists>pf proof. pe_getPiece env over i bud = Inr pf \<and> cl_FromBOC lib pf = Inr proof \<and>
        cl_CheckProof lib proof (ti_RootHash info) = None)"
  by (auto simp: checkPiece_proof_def Let_def reason_defs split: sum.splits option.splits)

lemma checkPiece_info_valid:
  "fst (fst (checkPiece_info lib c env bag over t data)) = ValidStorageProof \<longleftrightarrow>
     (\<exists>cl info n. cl_FromBOC lib data = Inr cl \<and> cl_Hash lib cl = bag \<and> cl_ParseInfo lib cl = Inr info \<and>
        piecesCount info = Inr n \<and> pe_acquireErr env = None \<and>
        fst (fst (checkPiece_proof lib c env over info (pe_Int31n env n)
          (sint (pieceTimeout (ti_PieceSize info) (word_of_int t) (ck_pieceMinBPS c) (ck_pieceTimeoutCap c)))))
        = ValidStorageProof)"
  by (auto simp: checkPiece_info_def Let_def reason_defs split: sum.splits option.splits prod.splits)

lemma checkPiece_query_valid:
  "fst (fst (checkPiece_query lib c env bagID timeouts)) = ValidStorageProof \<longleftrightarrow>
     storage_proved lib c bagID timeouts env"
proof -
  have "fst (fst (checkPiece_query lib c env bagID timeouts)) = ValidStorageProof \<longleftrightarrow>
    (\<exists>bag over data. hex_DecodeString bagID = Inr bag \<and> cl_tlHash lib bag = Inr over \<and>
       pe_getTorrentInfo env over (timeoutFromMs (nil_or 0 ct_RldpMs timeouts) defaultRLDPTimeout) = Inr data \<and>
       fst (fst (checkPiece_info lib c env bag over
         (timeoutFromMs (nil_or 0 ct_RldpMs timeouts) defaultRLDPTimeout) data)) = ValidStorageProof)"
    by (auto simp: checkPiece_query_def Let_def reason_defs split: sum.splits)
  then show ?thesis
    unfolding checkPiece_info_valid checkPiece_proof_valid storage_proved_def by auto
qed

text \<open>
  C5.  The agent reports a valid storage proof exactly when the peer is reachable and it received
  a torrent info whose hash is the bag id and, for the piece it drew, a proof that \<^verbatim>\<open>CheckProof\<close>
  accepts against that info's root hash.  The details are empty in that case only.
\<close>

theorem checkPiece_valid_iff:
  "(fst (fst (checkPiece lib c bagID timeouts env)) = ValidStorageProof \<longleftrightarrow>
     peer_alive env \<and> storage_proved lib c bagID timeouts env) \<and>
   (snd (fst (checkPiece lib c bagID timeouts env)) = [] \<longleftrightarrow>
     fst (fst (checkPiece lib c bagID timeouts env)) = ValidStorageProof)"
proof -
  have d3: "snd (fst (checkPiece_proof lib c env over info i bud)) = [] \<longleftrightarrow>
      fst (fst (checkPiece_proof lib c env over info i bud)) = ValidStorageProof" for over info i bud
    by (auto simp: checkPiece_proof_def Let_def reason_defs split: sum.splits option.splits)
  have d2: "snd (fst (checkPiece_info lib c env bag over t data)) = [] \<longleftrightarrow>
      fst (fst (checkPiece_info lib c env bag over t data)) = ValidStorageProof" for bag over t data
    using d3 by (simp add: checkPiece_info_def Let_def reason_defs case_prod_beta split: sum.splits option.splits)
  have d1: "snd (fst (checkPiece_query lib c env bagID timeouts)) = [] \<longleftrightarrow>
      fst (fst (checkPiece_query lib c env bagID timeouts)) = ValidStorageProof"
    using d2 by (auto simp: checkPiece_query_def Let_def reason_defs split: sum.splits)
  have v: "fst (fst (checkPiece lib c bagID timeouts env)) = ValidStorageProof \<longleftrightarrow>
      peer_alive env \<and> fst (fst (checkPiece_query lib c env bagID timeouts)) = ValidStorageProof"
    by (auto simp: checkPiece_def peer_alive_def Let_def reason_defs split: option.splits prod.splits)
  have "snd (fst (checkPiece lib c bagID timeouts env)) = [] \<longleftrightarrow>
      peer_alive env \<and> snd (fst (checkPiece_query lib c env bagID timeouts)) = []"
    by (auto simp: checkPiece_def peer_alive_def Let_def split: option.splits prod.splits)
  then show ?thesis using v d1 checkPiece_query_valid by blast
qed

section \<open>What a check does to the shared objects\<close>

lemma op_steps_append [simp]: "op_steps (xs @ ys) q = Option.bind (op_steps xs q) (op_steps ys)"
  by (induction xs arbitrary: q) (auto split: bind_splits)

lemma op_steps_ping [simp]:
  "op_steps (inv_op env) q = Some q" "op_steps (mark_op env now) q = Some q"
  by (cases q; simp add: inv_op_def mark_op_def)+

lemma ping_after_simps [simp]:
  "ping_after [] st = st" "ping_after (xs @ ys) st = ping_after ys (ping_after xs st)"
  "ping_after (a # xs) st = ping_after xs (ping_op a st)"
  by (simp_all add: ping_after_def)

lemma shouldProbe_invalidated [simp]: "shouldProbe (pps_invalidate st) t"
  by (cases st) (simp_all add: shouldProbe_def pps_invalidate_def)

lemma all_probe_invalidated [simp]: "All (shouldProbe (pps_invalidate st))"
  by (rule allI) simp

text \<open>
  What the cache should hold after a check, by its verdict: nothing to rely on when a request to the peer failed (its ping, the torrent
  info, the piece), the time of the proof when it was valid, and otherwise what it held after the ping phase, \<open>pinged\<close>: a piece slot that
  was not given and a bag that is malformed say nothing about the peer.
\<close>

definition ping_verdict :: "piece_env \<Rightarrow> peer_ping_state option \<Rightarrow> reason_code \<Rightarrow> peer_ping_state option \<Rightarrow> bool" where
  "ping_verdict env pinged code st \<longleftrightarrow>
     (if code \<in> {UnknownPeer, PingFailed, GetInfoFailed} \<or> code = CantGetPiece \<and> pe_acquireErr env = None then \<forall>t. shouldProbe st t
      else if code = ValidStorageProof then map_option pps_lastSuccessAt st = Some (Some (pe_doneNow env))
      else st = pinged)"

definition pinged_state :: "piece_env \<Rightarrow> peer_ping_state option \<Rightarrow> peer_ping_state option" where
  "pinged_state env st = (if shouldProbe (pe_pingState env) (pe_probeNow env) then map_option (pps_lastSuccessAt_update (\<lambda>_. Some (pe_pingNow env))) st else st)"

lemma checkPiece_proof_ops [simp]:
  "op_steps (fst (snd (checkPiece_proof lib c env over info i bud))) (True, True) = Some (True, True)"
  by (simp add: checkPiece_proof_def Let_def split: sum.splits option.splits)

lemma checkPiece_query_ops:
  "op_steps (fst (snd (checkPiece_query lib c env bagID timeouts))) (True, False) = Some (True, False)"
  by (simp add: checkPiece_query_def checkPiece_info_def Let_def case_prod_beta split: sum.splits option.splits)

lemma ping_verdict_simps [simp]:
  "ping_verdict env st InvalidBagID st" "ping_verdict env st InvalidHeader st"
  "ping_verdict env st CantParseBoC st" "ping_verdict env st ProofCheckFailed st"
  "ping_verdict env pinged UnknownPeer (pps_invalidate st)" "ping_verdict env pinged PingFailed (pps_invalidate st)"
  "ping_verdict env pinged GetInfoFailed (pps_invalidate st)"
  "pe_acquireErr env = None \<Longrightarrow> ping_verdict env pinged CantGetPiece (pps_invalidate st)"
  "pe_acquireErr env \<noteq> None \<Longrightarrow> ping_verdict env st CantGetPiece st"
  "ping_verdict env pinged ValidStorageProof (markSuccess (pe_doneNow env) (Some q))"
  by (auto simp: ping_verdict_def reason_defs markSuccess_def)

lemma ping_ops_some:
  "pe_pingState env = Some p \<Longrightarrow> inv_op env = [OpInvalidate]"
  "pe_pingState env = Some p \<Longrightarrow> mark_op env now = [OpMarkSuccess now]"
  by (simp_all add: inv_op_def mark_op_def)

lemma checkPiece_proof_ping:
  assumes "pe_pingState env = Some p" "st = Some q" "pe_acquireErr env = None"
  shows "ping_verdict env st (fst (fst (checkPiece_proof lib c env over info i bud)))
    (ping_after (fst (snd (checkPiece_proof lib c env over info i bud))) st)"
  by (simp add: checkPiece_proof_def Let_def ping_ops_some [OF assms(1)] assms(2,3) split: sum.splits option.splits)

lemma checkPiece_query_ping:
  assumes "pe_pingState env = Some p" "st = Some q"
  shows "ping_verdict env st (fst (fst (checkPiece_query lib c env bagID timeouts)))
    (ping_after (fst (snd (checkPiece_query lib c env bagID timeouts))) st)"
  by (simp add: checkPiece_query_def checkPiece_info_def Let_def case_prod_beta ping_ops_some [OF assms(1)]
      checkPiece_proof_ping [OF assms] split: sum.splits option.splits)


text \<open>A concrete environment: the cached ping has expired and the provider closes the connection.\<close>

definition closing_env :: piece_env where
  "closing_env =
     \<lparr>pe_peerCast = True, pe_pingState = Some \<lparr>pps_lastSuccessAt = Some 0\<rparr>, pe_probeNow = 3000000000,
      pe_Ping = Some (ErrPeerConnClosed ''peer connection closed''), pe_pingNow = 0,
      pe_getTorrentInfo = (\<lambda>_ _. Inl ErrDeadlineExceeded), pe_Int31n = (\<lambda>_. 0), pe_acquireErr = None,
      pe_getPiece = (\<lambda>_ _ _. Inl ErrDeadlineExceeded), pe_elapsed = 0, pe_ctxErr = None, pe_doneNow = 0\<rparr>"

definition sample_lib :: "bytes cell_lib" where
  "sample_lib =
     \<lparr>cl_tlHash = Inr, cl_FromBOC = Inr, cl_Hash = (\<lambda>c. c), cl_ParseInfo = (\<lambda>c. Inl (ErrText ''not a torrent info'')),
      cl_CheckProof = (\<lambda>_ _. None)\<rparr>"

definition sample_checker :: checker where
  "sample_checker =
     \<lparr>ck_maxConcurrentProviders = 40, ck_maxConcurrentBags = 4, ck_pieceMinBPS = 312500,
      ck_pieceTimeoutCap = 15000000000, ck_pieces = newPieceLimit 8 160 40 16 True\<rparr>"


end
