(* ===== verification/Checker.thy ===== *)
theory Checker
  imports PieceCheck
begin

text \<open>
  \<^verbatim>\<open>agent/internal/checker/checker.go\<close>, the check of a provider and of a whole request.

  \<^verbatim>\<open>checkProviderFiles\<close> starts worker goroutines that take contract indices from an unbuffered channel
  while the calling goroutine hands them out.  \<open>pool\<close> is the state they share; a step of one goroutine
  is a \<open>pool_action\<close> and an interleaving is the list of actions in the order they happen:
  \<^item> \<open>Dispatch\<close>: the handing loop looks at the next contract: a nil one is passed over, one met after the
    provider was given up is recorded as skipped, any other is offered on the channel;
  \<^item> \<open>Handoff w\<close>: idle worker \<open>w\<close> receives the offered index;
  \<^item> \<open>WorkerTake w\<close>: the worker reads the stop flag and records a skip or starts the check;
  \<^item> \<open>WorkerFinish w env lat\<close>: the check of that worker returns, with the answers \<open>env\<close> of its
    environment, and its result and its tally entry are recorded.
  Each step touches the shared tally at most once, under its mutex.  \<open>po_advanced\<close> adds up the calls of
  \<^verbatim>\<open>progress.advance\<close>.  \<open>po_outcomes\<close> lists the codes given to the tally, in order; it is not a field of the
  program.  The inter-bag sleep and the log lines have no state.

  The skip threshold is computed in \<^verbatim>\<open>float32\<close> as \<^verbatim>\<open>len / 100 * 20\<close> and truncated, which for every
  length below three million is the integer quotient by 5.
\<close>

section \<open>Tally and results\<close>

record failure_tally =
  ft_failsInARow :: nat
  ft_threshold :: nat
  ft_stopped :: bool
  ft_stats :: "(reason_code \<times> int) list"
  ft_details :: "int go_map"

definition map_inc :: "'k \<Rightarrow> ('k \<times> int) list \<Rightarrow> ('k \<times> int) list" where
  "map_inc k m = AList.update k ((case map_of m k of None \<Rightarrow> 0 | Some n \<Rightarrow> n) + 1) m"

definition tally_record :: "reason_code \<Rightarrow> string \<Rightarrow> failure_tally \<Rightarrow> failure_tally" where
  "tally_record code details t =
     (let t = t\<lparr>ft_stats := map_inc code (ft_stats t)\<rparr>
      in if code = ValidStorageProof then t\<lparr>ft_failsInARow := 0\<rparr>
         else
          (let t = t\<lparr>ft_details := map_inc details (ft_details t), ft_failsInARow := ft_failsInARow t + 1\<rparr>
           in if ft_failsInARow t > ft_threshold t then t\<lparr>ft_stopped := True\<rparr> else t))"

definition tally_recordSkip :: "string \<Rightarrow> failure_tally \<Rightarrow> failure_tally" where
  "tally_recordSkip details t = t\<lparr>ft_details := map_inc details (ft_details t)\<rparr>"

definition skipDetails :: "failure_tally \<Rightarrow> string" where
  "skipDetails t = ''stage=skip reason=too_many_consecutive_failures threshold='' @ nat_Itoa (ft_threshold t) @
     '' fails_in_a_row='' @ nat_Itoa (ft_failsInARow t)"

definition makeResult ::
  "provider_batch \<Rightarrow> contract_ref \<Rightarrow> reason_code \<Rightarrow> 32 word \<Rightarrow> string \<Rightarrow> contract_check_result" where
  "makeResult provider contract reasonCode latencyMs details =
     \<lparr>ccr_ProviderPubkey = pb_ProviderPubkey provider, ccr_ProviderAddress = pb_ProviderAddress provider,
      ccr_ContractAddress = cr_ContractAddress contract, ccr_BagId = cr_BagId contract,
      ccr_ReasonCode = ToProto reasonCode, ccr_LatencyMs = latencyMs, ccr_Details = details\<rparr>"

definition fillProviderResults ::
  "provider_batch \<Rightarrow> contract_ref option list \<Rightarrow> reason_code \<Rightarrow> string \<Rightarrow> contract_check_result list" where
  "fillProviderResults provider contracts reasonCode details =
     map (\<lambda>contract. makeResult provider contract reasonCode 0 details) (somes contracts)"

section \<open>The worker pool\<close>

datatype worker = Idle | Got nat | Busy nat

record pool =
  po_next :: nat
  po_sending :: bool
  po_workers :: "worker list"
  po_results :: "contract_check_result option list"
  po_tally :: failure_tally
  po_advanced :: nat
  po_outcomes :: "reason_code list"

datatype pool_action = Dispatch | Handoff nat | WorkerTake nat | WorkerFinish nat piece_env "32 word"

definition recordSkip :: "provider_batch \<Rightarrow> contract_ref \<Rightarrow> nat \<Rightarrow> pool \<Rightarrow> pool" where
  "recordSkip provider contract i s =
     (let details = skipDetails (po_tally s)
      in s\<lparr>po_results := (po_results s)[i := Some (makeResult provider contract UnavailableProvider 0 details)],
           po_tally := tally_recordSkip details (po_tally s), po_advanced := po_advanced s + 1\<rparr>)"

definition recordCheck ::
  "provider_batch \<Rightarrow> contract_ref \<Rightarrow> nat \<Rightarrow> 32 word \<Rightarrow> reason_code \<times> string \<Rightarrow> pool \<Rightarrow> pool" where
  "recordCheck provider contract i latency outcome s =
     s\<lparr>po_results := (po_results s)[i := Some (makeResult provider contract (fst outcome) latency (snd outcome))],
       po_tally := tally_record (fst outcome) (snd outcome) (po_tally s),
       po_advanced := po_advanced s + 1, po_outcomes := po_outcomes s @ [fst outcome]\<rparr>"

fun pool_step ::
  "'cell cell_lib \<Rightarrow> checker \<Rightarrow> provider_batch \<Rightarrow> check_timeouts option \<Rightarrow> pool_action \<Rightarrow> pool \<Rightarrow> pool option" where
  "pool_step lib c provider timeouts Dispatch s =
     (if po_sending s \<or> length (pb_Contracts provider) \<le> po_next s then None
      else case pb_Contracts provider ! po_next s of
             None \<Rightarrow> Some (s\<lparr>po_next := po_next s + 1\<rparr>)
           | Some contract \<Rightarrow>
              if ft_stopped (po_tally s)
              then Some ((recordSkip provider contract (po_next s) s)\<lparr>po_next := po_next s + 1\<rparr>)
              else Some (s\<lparr>po_sending := True\<rparr>))"
| "pool_step lib c provider timeouts (Handoff w) s =
     (if po_sending s \<and> w < length (po_workers s) \<and> po_workers s ! w = Idle
      then Some (s\<lparr>po_workers := (po_workers s)[w := Got (po_next s)], po_next := po_next s + 1,
                   po_sending := False\<rparr>)
      else None)"
| "pool_step lib c provider timeouts (WorkerTake w) s =
     (if w < length (po_workers s)
      then (case po_workers s ! w of
              Got i \<Rightarrow>
                (case pb_Contracts provider ! i of
                   None \<Rightarrow> None
                 | Some contract \<Rightarrow>
                    if ft_stopped (po_tally s)
                    then Some ((recordSkip provider contract i s)\<lparr>po_workers := (po_workers s)[w := Idle]\<rparr>)
                    else Some (s\<lparr>po_workers := (po_workers s)[w := Busy i]\<rparr>))
            | _ \<Rightarrow> None)
      else None)"
| "pool_step lib c provider timeouts (WorkerFinish w env latency) s =
     (if w < length (po_workers s)
      then (case po_workers s ! w of
              Busy i \<Rightarrow>
                (case pb_Contracts provider ! i of
                   None \<Rightarrow> None
                 | Some contract \<Rightarrow>
                    Some ((recordCheck provider contract i latency
                             (fst (checkPiece lib c (cr_BagId contract) timeouts env)) s)
                          \<lparr>po_workers := (po_workers s)[w := Idle]\<rparr>))
            | _ \<Rightarrow> None)
      else None)"

definition pool_workers :: "checker \<Rightarrow> provider_batch \<Rightarrow> int" where
  "pool_workers c provider =
     (let pending = int (length (somes (pb_Contracts provider)))
      in if ck_maxConcurrentBags c > pending then pending else ck_maxConcurrentBags c)"

definition pool_start :: "checker \<Rightarrow> provider_batch \<Rightarrow> pool" where
  "pool_start c provider =
     \<lparr>po_next = 0, po_sending = False, po_workers = replicate (nat (pool_workers c provider)) Idle,
      po_results = replicate (length (pb_Contracts provider)) None,
      po_tally = \<lparr>ft_failsInARow = 0, ft_threshold = length (pb_Contracts provider) div 5, ft_stopped = False,
                  ft_stats = [], ft_details = []\<rparr>,
      po_advanced = 0, po_outcomes = []\<rparr>"

text \<open>The channel is closed and every worker has left its loop: \<^verbatim>\<open>wg.Wait\<close> returns.\<close>

definition pool_done :: "provider_batch \<Rightarrow> pool \<Rightarrow> bool" where
  "pool_done provider s \<longleftrightarrow>
     po_next s = length (pb_Contracts provider) \<and> \<not> po_sending s \<and> (\<forall>w \<in> set (po_workers s). w = Idle)"

fun pool_exec ::
  "'cell cell_lib \<Rightarrow> checker \<Rightarrow> provider_batch \<Rightarrow> check_timeouts option \<Rightarrow> pool_action list \<Rightarrow> pool \<Rightarrow> pool option" where
  "pool_exec lib c provider timeouts [] s = Some s"
| "pool_exec lib c provider timeouts (a # as) s =
     Option.bind (pool_step lib c provider timeouts a s) (pool_exec lib c provider timeouts as)"

section \<open>A provider and a request\<close>

record session_env =
  se_StartClient :: "go_error option"
  se_RegisterClient :: "go_error option"
  se_Ping :: "go_error option"
  se_schedule :: "pool_action list"

definition endpoint_addr :: "provider_batch \<Rightarrow> string" where
  "endpoint_addr provider =
     nil_or [] ep_Ip (pb_StorageEndpoint provider) @ '':'' @ Itoa (nil_or 0 ep_Port (pb_StorageEndpoint provider))"

text \<open>
  The rows and the progress it reported; \<open>None\<close> when the schedule is not one of the pool or stops
  before every goroutine is done.
\<close>

definition checkProviderFiles ::
  "'cell cell_lib \<Rightarrow> checker \<Rightarrow> provider_batch \<Rightarrow> check_timeouts option \<Rightarrow> session_env \<Rightarrow>
     (contract_check_result list \<times> nat) option" where
  "checkProviderFiles lib c provider timeouts env =
     (let contracts = pb_Contracts provider;
          failed = (\<lambda>code details. let results = fillProviderResults provider contracts code details
                                   in Some (results, length results))
      in if contracts = [] then Some ([], 0)
         else case se_StartClient env of
           Some err \<Rightarrow> failed CantCreatePeer (''stage=start_client error='' @ err_Error err)
         | None \<Rightarrow>
            (case se_RegisterClient env of
               Some err \<Rightarrow> failed CantCreatePeer (''stage=register_client endpoint='' @ endpoint_addr provider @
                             '' error='' @ err_Error err)
             | None \<Rightarrow>
                (case se_Ping env of
                   Some err \<Rightarrow> failed FailedInitialPing (''stage=initial_ping endpoint='' @ endpoint_addr provider @
                                 '' error='' @ err_Error err)
                 | None \<Rightarrow>
                    if pool_workers c provider < 1 then Some ([], 0)
                    else
                     (case pool_exec lib c provider timeouts (se_schedule env) (pool_start c provider) of
                        None \<Rightarrow> None
                      | Some s \<Rightarrow> if pool_done provider s then Some (somes (po_results s), po_advanced s) else None))))"

text \<open>
  \<^verbatim>\<open>Run\<close>: one goroutine per provider; their batches arrive on the channel in the order of completion,
  which \<open>perm\<close> gives.  The semaphore only delays goroutines.
\<close>

definition checker_Run ::
  "'cell cell_lib \<Rightarrow> checker \<Rightarrow> provider_batch option list \<Rightarrow> check_timeouts option \<Rightarrow> session_env list \<Rightarrow>
     ((contract_check_result list) list \<Rightarrow> (contract_check_result list) list) \<Rightarrow> contract_check_result list option" where
  "checker_Run lib c providers timeouts envs perm =
     (if providers = [] then Some []
      else map_option (\<lambda>batches. concat (perm (map fst batches)))
             (those (map2 (\<lambda>provider env. checkProviderFiles lib c provider timeouts env) (somes providers) envs)))"

record options =
  op_MaxConcurrentProviders :: int
  op_MaxConcurrentBags :: int
  op_PieceMinBPS :: "64 word"
  op_PieceTimeoutCap :: "64 word"

text \<open>\<^verbatim>\<open>New\<close>; the argument \<open>keyErr\<close> is the error of \<^verbatim>\<open>ed25519.GenerateKey\<close>.  The ceiling is a product of two \<^verbatim>\<open>int\<close>s and wraps.\<close>

definition checker_New :: "go_error option \<Rightarrow> options \<Rightarrow> go_error + checker" where
  "checker_New keyErr opts =
     (case keyErr of
        Some err \<Rightarrow> Inl err
      | None \<Rightarrow>
         (let provs = (if op_MaxConcurrentProviders opts < 1 then 40 else op_MaxConcurrentProviders opts);
              bags = (if op_MaxConcurrentBags opts < 1 then 4 else op_MaxConcurrentBags opts);
              ceiling = sint (word_of_int provs * word_of_int bags :: 64 word);
              lowest = (if aimdMinLimit > ceiling then ceiling else aimdMinLimit);
              initial = (if provs > ceiling then ceiling else provs);
              initial = (if initial < lowest then lowest else initial)
          in Inr \<lparr>ck_maxConcurrentProviders = provs, ck_maxConcurrentBags = bags,
                  ck_pieceMinBPS = op_PieceMinBPS opts, ck_pieceTimeoutCap = op_PieceTimeoutCap opts,
                  ck_pieces = newPieceLimit lowest ceiling initial aimdWindow True\<rparr>))"

section \<open>Reachable states\<close>

inductive pool_reach ::
  "'cell cell_lib \<Rightarrow> checker \<Rightarrow> provider_batch \<Rightarrow> check_timeouts option \<Rightarrow> pool \<Rightarrow> bool"
  for lib c provider timeouts where
  start: "pool_reach lib c provider timeouts (pool_start c provider)"
| step: "pool_reach lib c provider timeouts s \<Longrightarrow> pool_step lib c provider timeouts a s = Some t \<Longrightarrow>
    pool_reach lib c provider timeouts t"

lemma pool_exec_reach:
  "pool_exec lib c provider timeouts as s = Some t \<Longrightarrow> pool_reach lib c provider timeouts s \<Longrightarrow>
   pool_reach lib c provider timeouts t"
  by (induction as arbitrary: s) (auto simp: Option.bind_eq_Some_conv intro: pool_reach.step)

lemma pool_exec_append:
  "pool_exec lib c provider timeouts (as @ bs) s =
   Option.bind (pool_exec lib c provider timeouts as s) (pool_exec lib c provider timeouts bs)"
  by (induction as arbitrary: s) (auto split: bind_splits)

text \<open>The steps, one case per branch of the goroutines.\<close>

lemma pool_step_cases [consumes 1, case_names nil skip offer hand take_skip take_start finish]:
  assumes "pool_step lib c provider timeouts a s = Some t"
  obtains
    "po_next s < length (pb_Contracts provider)" "\<not> po_sending s" "pb_Contracts provider ! po_next s = None"
    "t = s\<lparr>po_next := po_next s + 1\<rparr>"
  | ct where "po_next s < length (pb_Contracts provider)" "\<not> po_sending s"
    "pb_Contracts provider ! po_next s = Some ct" "ft_stopped (po_tally s)"
    "t = (recordSkip provider ct (po_next s) s)\<lparr>po_next := po_next s + 1\<rparr>"
  | ct where "po_next s < length (pb_Contracts provider)" "\<not> po_sending s"
    "pb_Contracts provider ! po_next s = Some ct" "\<not> ft_stopped (po_tally s)" "t = s\<lparr>po_sending := True\<rparr>"
  | w where "po_sending s" "w < length (po_workers s)" "po_workers s ! w = Idle"
    "t = s\<lparr>po_workers := (po_workers s)[w := Got (po_next s)], po_next := po_next s + 1, po_sending := False\<rparr>"
  | w i ct where "w < length (po_workers s)" "po_workers s ! w = Got i" "pb_Contracts provider ! i = Some ct"
    "ft_stopped (po_tally s)" "t = (recordSkip provider ct i s)\<lparr>po_workers := (po_workers s)[w := Idle]\<rparr>"
  | w i ct where "w < length (po_workers s)" "po_workers s ! w = Got i" "pb_Contracts provider ! i = Some ct"
    "\<not> ft_stopped (po_tally s)" "t = s\<lparr>po_workers := (po_workers s)[w := Busy i]\<rparr>"
  | w i ct lat oc where "w < length (po_workers s)" "po_workers s ! w = Busy i"
    "pb_Contracts provider ! i = Some ct"
    "t = (recordCheck provider ct i lat oc s)\<lparr>po_workers := (po_workers s)[w := Idle]\<rparr>"
  using assms
  by (cases a) (auto split: if_splits option.splits worker.splits intro: that)

text \<open>The indices that workers hold.\<close>

fun worker_job :: "worker \<Rightarrow> nat option" where
  "worker_job Idle = None"
| "worker_job (Got i) = Some i"
| "worker_job (Busy i) = Some i"

definition held :: "worker list \<Rightarrow> nat list" where
  "held ws = somes (map worker_job ws)"

lemma held_update:
  assumes "w < length ws"
  obtains a b where "ws = a @ ws ! w # b" "\<And>x. ws[w := x] = a @ x # b"
  using id_take_nth_drop [OF assms] upd_conv_take_nth_drop [OF assms] by (rule that)

lemma held_simps [simp]:
  "held [] = []" "held (a @ b) = held a @ held b" "held (Idle # ws) = held ws"
  "held (Got i # ws) = i # held ws" "held (Busy i # ws) = i # held ws"
  by (simp_all add: held_def)

definition row_key :: "provider_batch \<Rightarrow> contract_ref \<Rightarrow> string \<times> string \<times> string \<times> string" where
  "row_key provider contract =
     (pb_ProviderPubkey provider, pb_ProviderAddress provider, cr_ContractAddress contract, cr_BagId contract)"

lemma makeResult_key [simp]: "ccr_key (makeResult provider contract code lat details) = row_key provider contract"
  by (simp add: makeResult_def row_key_def)

text \<open>An index is in exactly one place: still to be dispatched, held by one worker, or answered.\<close>

definition slot_ok :: "provider_batch \<Rightarrow> pool \<Rightarrow> nat \<Rightarrow> bool" where
  "slot_ok provider s i \<longleftrightarrow>
     (case po_results s ! i of
        Some r \<Rightarrow> i < po_next s \<and> i \<notin> set (held (po_workers s)) \<and>
          (\<exists>contract. pb_Contracts provider ! i = Some contract \<and> ccr_key r = row_key provider contract)
      | None \<Rightarrow> i < po_next s \<longrightarrow> (pb_Contracts provider ! i \<noteq> None \<longleftrightarrow> i \<in> set (held (po_workers s))))"

definition pool_inv :: "provider_batch \<Rightarrow> pool \<Rightarrow> bool" where
  "pool_inv provider s \<longleftrightarrow>
     length (po_results s) = length (pb_Contracts provider) \<and> po_next s \<le> length (pb_Contracts provider) \<and>
     (po_sending s \<longrightarrow> po_next s < length (pb_Contracts provider) \<and> pb_Contracts provider ! po_next s \<noteq> None) \<and>
     distinct (held (po_workers s)) \<and> (\<forall>i \<in> set (held (po_workers s)). i < po_next s) \<and>
     (\<forall>i < length (pb_Contracts provider). slot_ok provider s i)"

lemma recordSkip_sel [simp]:
  "po_next (recordSkip p ct i s) = po_next s" "po_sending (recordSkip p ct i s) = po_sending s"
  "po_workers (recordSkip p ct i s) = po_workers s"
  "po_outcomes (recordSkip p ct i s) = po_outcomes s"
  "po_advanced (recordSkip p ct i s) = po_advanced s + 1"
  "po_tally (recordSkip p ct i s) = tally_recordSkip (skipDetails (po_tally s)) (po_tally s)"
  "po_results (recordSkip p ct i s) =
     (po_results s)[i := Some (makeResult p ct UnavailableProvider 0 (skipDetails (po_tally s)))]"
  by (simp_all add: recordSkip_def Let_def)

lemma recordCheck_sel [simp]:
  "po_next (recordCheck p ct i lat oc s) = po_next s" "po_sending (recordCheck p ct i lat oc s) = po_sending s"
  "po_workers (recordCheck p ct i lat oc s) = po_workers s"
  "po_outcomes (recordCheck p ct i lat oc s) = po_outcomes s @ [fst oc]"
  "po_advanced (recordCheck p ct i lat oc s) = po_advanced s + 1"
  "po_tally (recordCheck p ct i lat oc s) = tally_record (fst oc) (snd oc) (po_tally s)"
  "po_results (recordCheck p ct i lat oc s) = (po_results s)[i := Some (makeResult p ct (fst oc) lat (snd oc))]"
  by (simp_all add: recordCheck_def)

lemma pool_inv_start: "pool_inv provider (pool_start c provider)"
proof -
  have "held (replicate n Idle) = []" for n by (induction n) simp_all
  then show ?thesis by (simp add: pool_inv_def pool_start_def slot_ok_def)
qed

lemma pool_inv_step:
  assumes "pool_step lib c provider timeouts a s = Some t" "pool_inv provider s"
  shows "pool_inv provider t"
  using assms
proof (cases rule: pool_step_cases)
  case nil
  then show ?thesis using assms(2)
    by (auto simp: pool_inv_def slot_ok_def less_Suc_eq split: option.splits)
next
  case (skip ct)
  then show ?thesis using assms(2)
    by (auto simp: pool_inv_def slot_ok_def less_Suc_eq nth_list_update split: option.splits)
next
  case (offer ct)
  then show ?thesis using assms(2)
    by (auto simp: pool_inv_def slot_ok_def split: option.splits)
next
  case (hand w)
  obtain u v where "po_workers s = u @ Idle # v" "\<And>x. (po_workers s)[w := x] = u @ x # v"
    using held_update [OF hand(2)] hand(3) by metis
  then show ?thesis using assms(2) hand
    by (auto simp: pool_inv_def slot_ok_def less_Suc_eq split: option.splits)
next
  case (take_skip w i ct)
  obtain u v where "po_workers s = u @ Got i # v" "\<And>x. (po_workers s)[w := x] = u @ x # v"
    using held_update [OF take_skip(1)] take_skip(2) by metis
  then show ?thesis using assms(2) take_skip
    by (auto simp: pool_inv_def slot_ok_def nth_list_update split: option.splits)
next
  case (take_start w i ct)
  obtain u v where "po_workers s = u @ Got i # v" "\<And>x. (po_workers s)[w := x] = u @ x # v"
    using held_update [OF take_start(1)] take_start(2) by metis
  then show ?thesis using assms(2) take_start
    by (auto simp: pool_inv_def slot_ok_def split: option.splits)
next
  case (finish w i ct lat oc)
  obtain u v where "po_workers s = u @ Busy i # v" "\<And>x. (po_workers s)[w := x] = u @ x # v"
    using held_update [OF finish(1)] finish(2) by metis
  then show ?thesis using assms(2) finish
    by (auto simp: pool_inv_def slot_ok_def nth_list_update split: option.splits)
qed

lemma pool_reach_inv: "pool_reach lib c provider timeouts s \<Longrightarrow> pool_inv provider s"
  by (induction rule: pool_reach.induct) (auto intro: pool_inv_start pool_inv_step)

section \<open>Every contract gets its row\<close>

lemma somes_keys:
  assumes "length rs = length cs"
    "\<And>i. i < length cs \<Longrightarrow> map_option f (rs ! i) = map_option g (cs ! i)"
  shows "map f (somes rs) = map g (somes cs)"
proof -
  have "map (map_option f) rs = map (map_option g) cs"
    using assms by (auto simp: list_eq_iff_nth_eq)
  moreover have "map h (somes xs) = somes (map (map_option h) xs)" for h :: "'x \<Rightarrow> 'y" and xs
  proof (induction xs)
    case (Cons x xs)
    then show ?case by (cases x) simp_all
  qed simp
  ultimately show ?thesis by metis
qed

lemma held_done: "(\<forall>w \<in> set ws. w = Idle) \<Longrightarrow> held ws = []"
  by (induction ws) auto

lemma pool_done_keys:
  assumes "pool_inv provider s" "pool_done provider s"
  shows "map ccr_key (somes (po_results s)) = map (row_key provider) (somes (pb_Contracts provider))"
proof (rule somes_keys)
  show "length (po_results s) = length (pb_Contracts provider)" using assms(1) by (simp add: pool_inv_def)
  fix i assume i: "i < length (pb_Contracts provider)"
  have "slot_ok provider s i" "held (po_workers s) = []" "i < po_next s"
    using assms i held_done by (auto simp: pool_inv_def pool_done_def)
  then show "map_option ccr_key (po_results s ! i) = map_option (row_key provider) (pb_Contracts provider ! i)"
    by (auto simp: slot_ok_def split: option.splits)
qed

lemma fillProviderResults_keys:
  "map ccr_key (fillProviderResults provider contracts code details) = map (row_key provider) (somes contracts)"
  by (simp add: fillProviderResults_def comp_def)

lemma length_somes_0: "length (somes xs) = 0 \<longleftrightarrow> (\<forall>x \<in> set xs. x = None)"
  by (induction xs) (auto simp: somes_def List.map_filter_def)

lemma provider_rows:
  assumes "checkProviderFiles lib c provider timeouts env = Some (rows, advanced)" "1 \<le> ck_maxConcurrentBags c"
  shows "map ccr_key rows = map (row_key provider) (somes (pb_Contracts provider))"
proof (cases "somes (pb_Contracts provider) = []")
  case True
  have "rows = []"
    using assms(1) True
    by (auto simp: checkProviderFiles_def Let_def pool_workers_def fillProviderResults_def split: if_splits option.splits)
  then show ?thesis using True by simp
next
  case False
  then have w: "\<not> pool_workers c provider < 1" using assms(2) by (simp add: pool_workers_def Let_def Suc_le_eq)
  have "pb_Contracts provider \<noteq> []" using False by auto
  have d: "map ccr_key (somes (po_results s)) = map (row_key provider) (somes (pb_Contracts provider))"
    if "pool_exec lib c provider timeouts as (pool_start c provider) = Some s" "pool_done provider s" for as s
    by (rule pool_done_keys [OF pool_reach_inv [OF pool_exec_reach [OF that(1) pool_reach.start]] that(2)])
  show ?thesis
    using assms(1) w False d
    by (auto simp: checkProviderFiles_def Let_def fillProviderResults_keys split: if_splits option.splits)
qed

end
