(* ===== verification/CheckerRun.thy ===== *)
theory CheckerRun
  imports Checker
begin

text \<open>
  The agent's worker pool, continued: it always finishes, it gives up a provider only after a run
  of failures longer than the threshold, and the rows of a whole request.
\<close>

definition sample_provider :: provider_batch where
  "sample_provider =
     \<lparr>pb_ProviderPubkey = ''aa'', pb_ProviderAddress = ''EQ1'',
      pb_StorageEndpoint = Some \<lparr>ep_Ip = ''10.0.0.1'', ep_Port = 3333, ep_AdnlPubkey = replicate 32 0\<rparr>,
      pb_Contracts = [Some \<lparr>cr_ContractAddress = ''c1'', cr_BagId = ''00''\<rparr>, None,
                      Some \<lparr>cr_ContractAddress = ''c2'', cr_BagId = ''01''\<rparr>]\<rparr>"

definition sample_schedule :: "pool_action list" where
  "sample_schedule =
     [Dispatch, Handoff 0, WorkerTake 0, Dispatch, Dispatch, Handoff 1, WorkerFinish 0 closing_env 5, WorkerTake 1]"

definition sample_session :: session_env where
  "sample_session = \<lparr>se_StartClient = None, se_RegisterClient = None, se_Ping = None, se_schedule = sample_schedule\<rparr>"

definition sample_rows :: "contract_check_result list" where
  "sample_rows =
     [makeResult sample_provider \<lparr>cr_ContractAddress = ''c1'', cr_BagId = ''00''\<rparr> PingFailed 5
        ''stage=piece_ping timeout_ms=7000 error=peer connection closed'',
      makeResult sample_provider \<lparr>cr_ContractAddress = ''c2'', cr_BagId = ''01''\<rparr> UnavailableProvider 0
        ''stage=skip reason=too_many_consecutive_failures threshold=0 fails_in_a_row=1'']"

lemma sample_pool:
  "\<exists>s. pool_exec sample_lib sample_checker sample_provider None sample_schedule
      (pool_start sample_checker sample_provider) = Some s \<and> po_outcomes s = [PingFailed] \<and>
    somes (po_results s) = sample_rows \<and> po_advanced s = 2 \<and> pool_done sample_provider s"
proof -
  have i: "Itoa 7000 = ''7000''" by (simp add: Itoa_def nat_Itoa.simps)
  have z: "nat_Itoa 0 = ''0''" "nat_Itoa (Suc 0) = ''1''" by (simp_all add: nat_Itoa.simps)
  have c: "fst (checkPiece sample_lib sample_checker ''00'' None closing_env) =
      (PingFailed, ''stage=piece_ping timeout_ms=7000 error=peer connection closed'')"
    by (simp add: checkPiece_def closing_env_def shouldProbe_def pingCacheTTL_def Let_def inv_op_def
        timeoutFromMs_def defaultPingTimeout_def Milliseconds_def i)
  have w: "pool_workers sample_checker sample_provider = 2"
    by (simp add: pool_workers_def sample_checker_def sample_provider_def)
  have cs: "pb_Contracts sample_provider = [Some \<lparr>cr_ContractAddress = ''c1'', cr_BagId = ''00''\<rparr>, None,
      Some \<lparr>cr_ContractAddress = ''c2'', cr_BagId = ''01''\<rparr>]"
    by (simp add: sample_provider_def)
  have st: "replicate 2 Idle = [Idle, Idle]" by (simp add: numeral_2_eq_2)
  have ne: "PingFailed \<noteq> ValidStorageProof" by (simp add: reason_defs)
  show ?thesis
    by (simp add: sample_schedule_def pool_start_def w cs st ne c recordSkip_def recordCheck_def
        tally_record_def Let_def tally_recordSkip_def sample_rows_def skipDetails_def z pool_done_def)
qed

lemma sample_run:
  "checkProviderFiles sample_lib sample_checker sample_provider None sample_session = Some (sample_rows, 2)"
proof -
  have "\<not> pool_workers sample_checker sample_provider < 1" "pb_Contracts sample_provider \<noteq> []"
    by (simp_all add: pool_workers_def sample_checker_def sample_provider_def)
  then show ?thesis using sample_pool by (auto simp: checkProviderFiles_def sample_session_def)
qed

section \<open>The pool finishes\<close>

fun worker_weight :: "worker \<Rightarrow> nat" where
  "worker_weight Idle = 0"
| "worker_weight (Got i) = 2"
| "worker_weight (Busy i) = 1"

definition pool_measure :: "provider_batch \<Rightarrow> pool \<Rightarrow> nat" where
  "pool_measure provider s =
     5 * (length (pb_Contracts provider) - po_next s) + (if po_sending s then 0 else 1) +
     sum_list (map worker_weight (po_workers s))"

lemma pool_measure_step:
  assumes "pool_step lib c provider timeouts a s = Some t" "pool_inv provider s"
  shows "pool_measure provider t < pool_measure provider s"
  using assms(1)
proof (cases rule: pool_step_cases)
  case (hand w)
  then obtain u v where "po_workers s = u @ Idle # v" "\<And>x. (po_workers s)[w := x] = u @ x # v"
    using held_update by metis
  moreover have "po_next s < length (pb_Contracts provider)" using assms(2) hand(1) by (simp add: pool_inv_def)
  ultimately show ?thesis using hand by (auto simp: pool_measure_def)
next
  case (take_skip w i ct)
  then obtain u v where "po_workers s = u @ Got i # v" "\<And>x. (po_workers s)[w := x] = u @ x # v"
    using held_update by metis
  then show ?thesis using take_skip by (auto simp: pool_measure_def)
next
  case (take_start w i ct)
  then obtain u v where "po_workers s = u @ Got i # v" "\<And>x. (po_workers s)[w := x] = u @ x # v"
    using held_update by metis
  then show ?thesis using take_start by (auto simp: pool_measure_def)
next
  case (finish w i ct lat oc)
  then obtain u v where "po_workers s = u @ Busy i # v" "\<And>x. (po_workers s)[w := x] = u @ x # v"
    using held_update by metis
  then show ?thesis using finish by (auto simp: pool_measure_def)
qed (auto simp: pool_measure_def)

lemma pool_workers_length [simp]:
  "pool_step lib c provider timeouts a s = Some t \<Longrightarrow> length (po_workers t) = length (po_workers s)"
  by (erule pool_step_cases) simp_all

lemma held_contract:
  assumes "pool_inv provider s" "w < length (po_workers s)" "worker_job (po_workers s ! w) = Some i"
  shows "\<exists>ct. pb_Contracts provider ! i = Some ct"
proof -
  have "i \<in> set (held (po_workers s))"
    using assms(2,3) by (auto simp: held_def) (metis nth_mem image_eqI)
  then show ?thesis using assms(1)
    by (fastforce simp: pool_inv_def slot_ok_def split: option.splits)
qed

lemma pool_progress:
  assumes "pool_inv provider s" "\<not> pool_done provider s" "po_workers s \<noteq> []"
  shows "\<exists>a t. pool_step lib c provider timeouts a s = Some t"
proof (cases "\<exists>w < length (po_workers s). po_workers s ! w \<noteq> Idle")
  case True
  then obtain w i where w: "w < length (po_workers s)" "worker_job (po_workers s ! w) = Some i"
    by (metis worker_job.elims)
  obtain ct where ct: "pb_Contracts provider ! i = Some ct" using held_contract [OF assms(1) w] by blast
  show ?thesis
  proof (cases "po_workers s ! w")
    case (Got j)
    then have "pool_step lib c provider timeouts (WorkerTake w) s \<noteq> None" using w ct by simp
    then show ?thesis by blast
  next
    case (Busy j)
    then have "pool_step lib c provider timeouts (WorkerFinish w closing_env 0) s \<noteq> None" using w ct by simp
    then show ?thesis by blast
  qed (use w in simp)
next
  case False
  show ?thesis
  proof (cases "po_sending s")
    case True
    have "pool_step lib c provider timeouts (Handoff 0) s \<noteq> None" using False True assms(3) by simp
    then show ?thesis by blast
  next
    case off: False
    have "po_next s < length (pb_Contracts provider)"
      using assms(1,2) off False by (auto simp: pool_inv_def pool_done_def in_set_conv_nth)
    then have "pool_step lib c provider timeouts Dispatch s \<noteq> None" using off by (simp split: option.splits)
    then show ?thesis by blast
  qed
qed

lemma pool_completes:
  assumes "pool_inv provider s" "po_workers s \<noteq> []"
  shows "\<exists>as t. pool_exec lib c provider timeouts as s = Some t \<and> pool_done provider t"
  using assms
proof (induction "pool_measure provider s" arbitrary: s rule: less_induct)
  case less
  show ?case
  proof (cases "pool_done provider s")
    case True
    then show ?thesis by (metis pool_exec.simps(1))
  next
    case False
    then obtain a t where st: "pool_step lib c provider timeouts a s = Some t"
      using pool_progress [OF less.prems(1) _ less.prems(2)] by blast
    moreover have "po_workers t \<noteq> []" using less.prems(2) pool_workers_length [OF st] by auto
    ultimately obtain as u where "pool_exec lib c provider timeouts as t = Some u" "pool_done provider u"
      using less.hyps [OF pool_measure_step [OF st less.prems(1)] pool_inv_step [OF st less.prems(1)]] by blast
    then have "pool_exec lib c provider timeouts (a # as) s = Some u" using st by simp
    then show ?thesis using \<open>pool_done provider u\<close> by blast
  qed
qed

lemma pool_exec_bounded:
  assumes "pool_exec lib c provider timeouts as s = Some t" "pool_inv provider s"
  shows "length as + pool_measure provider t \<le> pool_measure provider s"
  using assms
proof (induction as arbitrary: s)
  case (Cons a as)
  then obtain u where u: "pool_step lib c provider timeouts a s = Some u"
    "pool_exec lib c provider timeouts as u = Some t" by (auto simp: Option.bind_eq_Some_conv)
  then show ?case
    using Cons.IH [OF u(2) pool_inv_step [OF u(1) Cons.prems(2)]] pool_measure_step [OF u(1) Cons.prems(2)] by simp
qed simp

text \<open>
  C7.  The worker pool neither deadlocks nor runs for ever: with at least one worker, every
  partial schedule can be continued until all goroutines are done, and no schedule is longer than five
  steps per contract plus one.
\<close>

theorem pool_terminates:
  assumes "1 \<le> pool_workers c provider"
    "pool_exec lib c provider timeouts as (pool_start c provider) = Some s"
  shows "length as \<le> 5 * length (pb_Contracts provider) + 1 \<and>
    (\<exists>bs t. pool_exec lib c provider timeouts (as @ bs) (pool_start c provider) = Some t \<and> pool_done provider t)"
proof
  have "sum_list (map worker_weight (replicate n Idle)) = 0" for n by (induction n) simp_all
  then have "pool_measure provider (pool_start c provider) = 5 * length (pb_Contracts provider) + 1"
    by (simp add: pool_measure_def pool_start_def)
  then show "length as \<le> 5 * length (pb_Contracts provider) + 1"
    using pool_exec_bounded [OF assms(2) pool_inv_start] by simp
  have "length (po_workers s) = nat (pool_workers c provider)"
    using assms(2)
  proof (induction as arbitrary: s rule: rev_induct)
    case Nil
    then show ?case by (auto simp: pool_start_def)
  next
    case (snoc a as)
    then show ?case by (auto simp: pool_exec_append Option.bind_eq_Some_conv)
  qed
  then have "po_workers s \<noteq> []" using assms(1) by auto
  then obtain bs t where "pool_exec lib c provider timeouts bs s = Some t" "pool_done provider t"
    using pool_completes [OF pool_reach_inv [OF pool_exec_reach [OF assms(2) pool_reach.start]]] by blast
  then show "\<exists>bs t. pool_exec lib c provider timeouts (as @ bs) (pool_start c provider) = Some t \<and> pool_done provider t"
    using assms(2) by (auto simp: pool_exec_append)
qed

theorem pool_terminates_witness:
  "\<exists>bs t. pool_exec sample_lib sample_checker sample_provider None ([Dispatch] @ bs)
      (pool_start sample_checker sample_provider) = Some t \<and> pool_done sample_provider t"
proof -
  let ?s = "(pool_start sample_checker sample_provider)\<lparr>po_sending := True\<rparr>"
  have "pool_exec sample_lib sample_checker sample_provider None [Dispatch]
      (pool_start sample_checker sample_provider) = Some ?s"
    by (simp add: pool_start_def sample_provider_def)
  moreover have "1 \<le> pool_workers sample_checker sample_provider"
    by (simp add: pool_workers_def sample_checker_def sample_provider_def)
  ultimately show ?thesis using pool_terminates by blast
qed

section \<open>Giving a provider up\<close>

text \<open>The failures at the end of a sequence of recorded codes.\<close>

definition fails_run :: "reason_code list \<Rightarrow> nat" where
  "fails_run cs = length (takeWhile IsErrorReason (rev cs))"

lemma fails_run_snoc [simp]: "fails_run (cs @ [c]) = (if IsErrorReason c then fails_run cs + 1 else 0)"
  by (simp add: fails_run_def)

lemma fails_run_Nil [simp]: "fails_run [] = 0"
  by (simp add: fails_run_def)

lemma fails_run_all: "\<forall>c \<in> set cs. IsErrorReason c \<Longrightarrow> fails_run cs = length cs"
  by (simp add: fails_run_def takeWhile_eq_all_conv [THEN iffD2])

definition busy :: "worker list \<Rightarrow> nat" where
  "busy ws = length (filter (\<lambda>w. \<exists>i. w = Busy i) ws)"

lemma busy_simps [simp]:
  "busy [] = 0" "busy (a @ b) = busy a + busy b" "busy (Idle # ws) = busy ws" "busy (Got i # ws) = busy ws"
  "busy (Busy i # ws) = Suc (busy ws)"
  by (simp_all add: busy_def)

lemma busy_le: "busy ws \<le> length ws"
  by (simp add: busy_def)

definition given_up :: "nat \<Rightarrow> reason_code list \<Rightarrow> bool" where
  "given_up th cs \<longleftrightarrow> (\<exists>k \<le> length cs. fails_run (take k cs) > th)"

lemma given_up_simps [simp]:
  "\<not> given_up th []" "given_up th (cs @ [c]) \<longleftrightarrow> given_up th cs \<or> fails_run (cs @ [c]) > th"
proof -
  show "given_up th (cs @ [c]) \<longleftrightarrow> given_up th cs \<or> fails_run (cs @ [c]) > th"
    by (auto simp: given_up_def le_Suc_eq)
qed (simp add: given_up_def)

definition tally_inv :: "nat \<Rightarrow> pool \<Rightarrow> bool" where
  "tally_inv th s \<longleftrightarrow>
     ft_threshold (po_tally s) = th \<and> ft_failsInARow (po_tally s) = fails_run (po_outcomes s) \<and>
     (ft_stopped (po_tally s) \<longleftrightarrow> given_up th (po_outcomes s)) \<and>
     length (po_outcomes s) \<le> po_advanced s \<and>
     (length (po_outcomes s) < po_advanced s \<longrightarrow> ft_stopped (po_tally s))"

lemma tally_recordSkip_sel [simp]:
  "ft_threshold (tally_recordSkip d t) = ft_threshold t" "ft_failsInARow (tally_recordSkip d t) = ft_failsInARow t"
  "ft_stopped (tally_recordSkip d t) = ft_stopped t"
  by (simp_all add: tally_recordSkip_def)

lemma tally_record_sel [simp]:
  "ft_threshold (tally_record code d t) = ft_threshold t"
  "ft_failsInARow (tally_record code d t) = (if IsErrorReason code then ft_failsInARow t + 1 else 0)"
  "ft_stopped (tally_record code d t) \<longleftrightarrow> ft_stopped t \<or> (IsErrorReason code \<and> ft_threshold t < ft_failsInARow t + 1)"
  by (auto simp: tally_record_def Let_def IsErrorReason_def)

lemma tally_inv_step:
  assumes "pool_step lib c provider timeouts a s = Some t" "tally_inv th s"
  shows "tally_inv th t"
  using assms(1)
proof (cases rule: pool_step_cases)
  case (finish w i ct lat oc)
  then show ?thesis using assms(2)
    by (auto simp: tally_inv_def)
qed (use assms(2) in \<open>auto simp: tally_inv_def\<close>)

lemma length_somes_update:
  "i < length xs \<Longrightarrow> xs ! i = None \<Longrightarrow> length (somes (xs[i := Some r])) = Suc (length (somes xs))"
  by (simp add: upd_conv_take_nth_drop) (metis id_take_nth_drop length_append somes_append somes_simps(2) add_Suc_right list.size(4) add.right_neutral)

lemma held_unanswered:
  assumes "pool_inv provider s" "i \<in> set (held (po_workers s))"
  shows "i < length (po_results s)" "po_results s ! i = None"
proof -
  show i: "i < length (po_results s)" using assms by (force simp: pool_inv_def)
  then have "slot_ok provider s i" using assms(1) by (simp add: pool_inv_def)
  then show "po_results s ! i = None" using assms(2) by (auto simp: slot_ok_def split: option.splits)
qed

lemma next_unanswered:
  assumes "pool_inv provider s" "po_next s < length (pb_Contracts provider)"
  shows "po_next s < length (po_results s)" "po_results s ! po_next s = None"
  using assms by (auto simp: pool_inv_def slot_ok_def split: option.splits)

lemma worker_held: "w < length ws \<Longrightarrow> worker_job (ws ! w) = Some i \<Longrightarrow> i \<in> set (held ws)"
  by (auto simp: held_def) (metis nth_mem image_eqI)

lemma advanced_step:
  assumes "pool_step lib c provider timeouts a s = Some t" "pool_inv provider s"
    "po_advanced s = length (somes (po_results s))"
  shows "po_advanced t = length (somes (po_results t))"
  using assms(1)
proof (cases rule: pool_step_cases)
  case (skip ct)
  then show ?thesis using assms(3) next_unanswered [OF assms(2)] by (simp add: length_somes_update)
next
  case (take_skip w i ct)
  then have "i \<in> set (held (po_workers s))" using worker_held by simp
  then show ?thesis using take_skip assms(3) held_unanswered [OF assms(2)] by (simp add: length_somes_update)
next
  case (finish w i ct lat oc)
  then have "i \<in> set (held (po_workers s))" using worker_held by simp
  then show ?thesis using finish assms(3) held_unanswered [OF assms(2)] by (simp add: length_somes_update)
qed (use assms(3) in auto)

definition dead_inv :: "nat \<Rightarrow> pool \<Rightarrow> bool" where
  "dead_inv th s \<longleftrightarrow>
     ((\<forall>code \<in> set (po_outcomes s). IsErrorReason code) \<longrightarrow>
       (if ft_stopped (po_tally s) then length (po_outcomes s) + busy (po_workers s) \<le> th + length (po_workers s)
        else length (po_outcomes s) \<le> th))"

lemma dead_inv_step:
  assumes "pool_step lib c provider timeouts a s = Some t" "tally_inv th s" "dead_inv th s"
  shows "dead_inv th t"
  using assms(1)
proof (cases rule: pool_step_cases)
  case (hand w)
  then obtain u v where "po_workers s = u @ Idle # v" "\<And>x. (po_workers s)[w := x] = u @ x # v"
    using held_update by metis
  then show ?thesis using hand assms(3) by (auto simp: dead_inv_def)
next
  case (take_skip w i ct)
  then obtain u v where "po_workers s = u @ Got i # v" "\<And>x. (po_workers s)[w := x] = u @ x # v"
    using held_update by metis
  then show ?thesis using take_skip assms(3) by (auto simp: dead_inv_def)
next
  case (take_start w i ct)
  then show ?thesis using assms(3) by (auto simp: dead_inv_def)
next
  case (finish w i ct lat oc)
  then obtain u v where uv: "po_workers s = u @ Busy i # v" "\<And>x. (po_workers s)[w := x] = u @ x # v"
    using held_update by metis
  have th: "ft_threshold (po_tally s) = th" "ft_failsInARow (po_tally s) = fails_run (po_outcomes s)"
    using assms(2) by (simp_all add: tally_inv_def)
  show ?thesis
    using finish uv th assms(3) busy_le [of u] busy_le [of v] fails_run_all [of "po_outcomes s"]
    by (auto simp: dead_inv_def split: if_splits)
qed (use assms(3) in \<open>auto simp: dead_inv_def\<close>)

lemma pool_reach_tally:
  assumes "pool_reach lib c provider timeouts s"
  defines "th \<equiv> length (pb_Contracts provider) div 5"
  shows "tally_inv th s \<and> dead_inv th s \<and> po_advanced s = length (somes (po_results s)) \<and>
    length (po_workers s) = nat (pool_workers c provider)"
  using assms(1)
proof (induction rule: pool_reach.induct)
  case start
  have "somes (replicate n None) = []" for n by (induction n) simp_all
  then show ?case by (simp add: pool_start_def tally_inv_def dead_inv_def th_def)
next
  case (step s a t)
  then show ?case
    using tally_inv_step [OF step.hyps(2)] dead_inv_step [OF step.hyps(2)]
      advanced_step [OF step.hyps(2) pool_reach_inv [OF step.hyps(1)]] pool_workers_length [OF step.hyps(2)] by simp
qed

text \<open>
  Whatever fails and however the goroutines are scheduled, a provider's check that returns
  has produced exactly one row for every contract of the batch that is not nil, in the order of the
  batch and with the batch's identifiers, and has
  reported that many to the job's progress.
\<close>

theorem checkProviderFiles_rows:
  assumes "checkProviderFiles lib c provider timeouts env = Some (rows, advanced)" "1 \<le> ck_maxConcurrentBags c"
  shows "map ccr_key rows = map (row_key provider) (somes (pb_Contracts provider)) \<and> advanced = length rows"
proof
  show "map ccr_key rows = map (row_key provider) (somes (pb_Contracts provider))"
    by (rule provider_rows [OF assms])
  have "po_advanced s = length (somes (po_results s))"
    if "pool_exec lib c provider timeouts as (pool_start c provider) = Some s" for as s
    using pool_reach_tally [OF pool_exec_reach [OF that pool_reach.start]] by simp
  then show "advanced = length rows"
    using assms(1) by (auto simp: checkProviderFiles_def Let_def split: if_splits option.splits)
qed

theorem checkProviderFiles_rows_witness:
  "map ccr_key sample_rows = [(''aa'', ''EQ1'', ''c1'', ''00''), (''aa'', ''EQ1'', ''c2'', ''01'')]"
  using checkProviderFiles_rows [OF sample_run]
  by (simp add: sample_checker_def sample_provider_def row_key_def)

text \<open>
  A contract is answered without being checked only after the provider failed more than 20\%
  of the batch's size in a row: whenever there are more rows than finished checks, somewhere in the
  sequence of finished checks there is an unbroken run of failures longer than the threshold.
\<close>

theorem skip_only_after_failures:
  assumes "pool_exec lib c provider timeouts as (pool_start c provider) = Some s"
    "length (po_outcomes s) < length (somes (po_results s))"
  shows "\<exists>k \<le> length (po_outcomes s). fails_run (take k (po_outcomes s)) > length (pb_Contracts provider) div 5"
  using pool_reach_tally [OF pool_exec_reach [OF assms(1) pool_reach.start]] assms(2) by (auto simp: tally_inv_def given_up_def)

theorem skip_only_after_failures_witness:
  "\<exists>s. pool_exec sample_lib sample_checker sample_provider None sample_schedule
        (pool_start sample_checker sample_provider) = Some s \<and>
      (\<exists>k \<le> length (po_outcomes s). fails_run (take k (po_outcomes s)) > 0)"
proof -
  obtain s where s: "pool_exec sample_lib sample_checker sample_provider None sample_schedule
        (pool_start sample_checker sample_provider) = Some s" "length (po_outcomes s) < length (somes (po_results s))"
    using sample_pool by (auto simp: sample_rows_def)
  then show ?thesis using skip_only_after_failures [OF s] by (auto simp: sample_provider_def)
qed

text \<open>
  A provider that fails every check costs at most the threshold plus one check per worker:
  all remaining contracts are answered as skipped.
\<close>

theorem dead_provider_bound:
  assumes "pool_exec lib c provider timeouts as (pool_start c provider) = Some s"
    "\<forall>code \<in> set (po_outcomes s). IsErrorReason code"
  shows "int (length (po_outcomes s)) \<le> int (length (pb_Contracts provider) div 5) + max 0 (pool_workers c provider)"
  using pool_reach_tally [OF pool_exec_reach [OF assms(1) pool_reach.start]] assms(2)
  by (auto simp: dead_inv_def split: if_splits)

theorem dead_provider_bound_witness:
  "\<exists>s. pool_exec sample_lib sample_checker sample_provider None sample_schedule
        (pool_start sample_checker sample_provider) = Some s \<and> length (po_outcomes s) \<le> 2"
proof -
  obtain s where s: "pool_exec sample_lib sample_checker sample_provider None sample_schedule
        (pool_start sample_checker sample_provider) = Some s" "\<forall>code \<in> set (po_outcomes s). IsErrorReason code"
    using sample_pool by (auto simp: IsErrorReason_def reason_defs)
  moreover have "pool_workers sample_checker sample_provider = 2" "length (pb_Contracts sample_provider) = 3"
    by (simp_all add: pool_workers_def sample_checker_def sample_provider_def)
  ultimately show ?thesis using dead_provider_bound [OF s] by simp
qed

section \<open>A whole request\<close>

lemma those_map2:
  assumes "those (map2 f xs ys) = Some zs" "length xs = length ys"
  shows "list_all2 (\<lambda>x z. \<exists>y. f x y = Some z) xs zs"
  using assms(2,1)
  by (induction xs ys arbitrary: zs rule: list_induct2) (auto split: option.splits)

lemma concat_keys:
  assumes "list_all2 (\<lambda>x z. map f z = g x) xs zs"
  shows "map (map f) zs = map g xs"
  using assms by (induction rule: list_all2_induct) simp_all

lemma concat_perm: "mset xss = mset yss \<Longrightarrow> mset (concat xss) = mset (concat yss)"
  by (simp add: mset_concat sum_mset_sum_list [symmetric])

text \<open>
  A request is answered in full: whatever order the providers finish in, the rows of \<^verbatim>\<open>Run\<close>
  are, as a multiset of identifiers, exactly the contracts of the request that are not nil.
\<close>

lemma request_rows:
  assumes "checker_Run lib c providers timeouts envs perm = Some rows" "1 \<le> ck_maxConcurrentBags c"
    "\<And>bs. mset (perm bs) = mset bs" "length envs = length (somes providers)"
  shows "mset (map ccr_key rows) =
    mset (concat (map (\<lambda>provider. map (row_key provider) (somes (pb_Contracts provider))) (somes providers)))"
proof (cases "providers = []")
  case True
  then show ?thesis using assms(1) by (auto simp: checker_Run_def)
next
  case False
  then obtain batches where b: "those (map2 (\<lambda>provider env. checkProviderFiles lib c provider timeouts env) (somes providers) envs) = Some batches"
      "rows = concat (perm (map fst batches))"
    using assms(1) by (auto simp: checker_Run_def)
  let ?k = "\<lambda>provider. map (row_key provider) (somes (pb_Contracts provider))"
  have "list_all2 (\<lambda>provider batch. map ccr_key (fst batch) = ?k provider) (somes providers) batches"
    using those_map2 [OF b(1)] assms(4)
    by (auto elim!: list_all2_mono dest!: provider_rows [OF _ assms(2)])
  then have "map (map ccr_key) (map fst batches) = map ?k (somes providers)"
    using concat_keys [of "ccr_key" ?k "somes providers" "map fst batches"] by (simp add: list_all2_map2)
  moreover have "mset (map ccr_key rows) = mset (concat (map (map ccr_key) (map fst batches)))"
  proof -
    have "mset (map (map ccr_key) (perm (map fst batches))) = mset (map (map ccr_key) (map fst batches))"
      using assms(3) by (simp only: mset_map)
    from concat_perm [OF this] show ?thesis by (simp only: b(2) map_concat)
  qed
  ultimately show ?thesis by (simp only:)
qed

end
