(* ===== verification/AgentServer.thy ===== *)
theory AgentServer
  imports CheckerRun
begin

text \<open>
  \<^verbatim>\<open>agent/internal/grpcserver\<close>: the agent's gRPC service.  The authorization interceptor, the three
  handlers with their request validation, and the deadline each handler runs under.

  A context is seen through its deadline (\<open>None\<close> without one) and, where a handler asks for
  \<^verbatim>\<open>ctx.Err()\<close>, the answer is an argument.  The goroutines of the two storage handlers write one slot of
  the result slice each, so their order has no effect; the answers of the provider transport are
  a function of the index.  Metrics and logs are left out except the counts a response is summarised by.
\<close>

datatype grpc_code = InvalidArgument | Unauthenticated | DeadlineExceededCode | UnavailableCode | OtherCode

record grpc_status =
  gs_Code :: grpc_code
  gs_Message :: string

section \<open>Authorization\<close>

text \<open>The incoming metadata: \<open>None\<close> when the context carries none, else the values of \<^verbatim>\<open>authorization\<close>.\<close>

definition isAuthorized :: "string list option \<Rightarrow> string \<Rightarrow> bool" where
  "isAuthorized md expectedToken =
     (case md of
        None \<Rightarrow> False
      | Some authHeaderValues \<Rightarrow>
         (case authHeaderValues of
            [] \<Rightarrow> False
          | first # _ \<Rightarrow>
             (let authHeader = TrimSpace first
              in if authHeader = [] then False
                 else
                  (let token = TrimSpace (TrimPrefix authHeader ''Bearer '')
                   in if token = [] then False else token = expectedToken))))"

definition authInterceptor ::
  "string \<Rightarrow> string list option \<Rightarrow> string \<Rightarrow> (unit \<Rightarrow> grpc_status + 'r) \<Rightarrow> grpc_status + 'r" where
  "authInterceptor expectedToken md fullMethod handler =
     (if fullMethod = ''/grpc.health.v1.Health/Check'' then handler ()
      else if \<not> isAuthorized md expectedToken
      then Inl \<lparr>gs_Code = Unauthenticated, gs_Message = ''invalid authorization token''\<rparr>
      else handler ())"

section \<open>Deadlines\<close>

definition with_timeout :: "time option \<Rightarrow> time \<Rightarrow> duration \<Rightarrow> time option" where
  "with_timeout deadline now d = Some (case deadline of None \<Rightarrow> now + d | Some dl \<Rightarrow> min dl (now + d))"

definition total_timeout :: "32 word \<Rightarrow> time option \<Rightarrow> time \<Rightarrow> time option" where
  "total_timeout totalMs deadline now =
     (if totalMs = 0 then deadline
      else
       (let d = ms_duration totalMs
        in case deadline of
             None \<Rightarrow> with_timeout deadline now d
           | Some dl \<Rightarrow>
              (let remaining = dl - now
               in if remaining \<le> 0 then deadline
                  else with_timeout deadline now (if remaining < d then remaining else d))))"

definition withTotalTimeout :: "check_timeouts option \<Rightarrow> time option \<Rightarrow> time \<Rightarrow> time option" where
  "withTotalTimeout timeouts deadline now =
     (case timeouts of None \<Rightarrow> deadline | Some t \<Rightarrow> total_timeout (ct_TotalMs t) deadline now)"

definition withStorageRatesTotalTimeout :: "rpc_timeouts option \<Rightarrow> time option \<Rightarrow> time \<Rightarrow> time option" where
  "withStorageRatesTotalTimeout timeouts deadline now =
     (case timeouts of None \<Rightarrow> deadline | Some t \<Rightarrow> total_timeout (rt_TotalMs t) deadline now)"

definition withStorageInfoTotalTimeout :: "rpc_timeouts option \<Rightarrow> time option \<Rightarrow> time \<Rightarrow> time option" where
  "withStorageInfoTotalTimeout timeouts deadline now =
     (case timeouts of None \<Rightarrow> deadline | Some t \<Rightarrow> total_timeout (rt_TotalMs t) deadline now)"

section \<open>RunChecks\<close>

text \<open>The first error of a loop over a slice, with the loop index.\<close>

fun first_error :: "(nat \<Rightarrow> 'a \<Rightarrow> go_error option) \<Rightarrow> nat \<Rightarrow> 'a list \<Rightarrow> go_error option" where
  "first_error f i [] = None"
| "first_error f i (x # xs) = (case f i x of Some e \<Rightarrow> Some e | None \<Rightarrow> first_error f (Suc i) xs)"

definition validateContract :: "string \<Rightarrow> nat \<Rightarrow> contract_ref option \<Rightarrow> go_error option" where
  "validateContract pubkey j contract =
     (case contract of
        None \<Rightarrow> Some (ErrText (''contract at index '' @ nat_Itoa j @ '' is nil for provider '' @ pubkey))
      | Some ct \<Rightarrow>
         if TrimSpace (cr_ContractAddress ct) = [] then Some (ErrText (''contract_address is empty for provider '' @ pubkey))
         else if TrimSpace (cr_BagId ct) = [] then Some (ErrText (''bag_id is empty for provider '' @ pubkey))
         else None)"

definition validateProvider :: "nat \<Rightarrow> provider_batch option \<Rightarrow> go_error option" where
  "validateProvider i provider =
     (case provider of
        None \<Rightarrow> Some (ErrText (''provider at index '' @ nat_Itoa i @ '' is nil''))
      | Some p \<Rightarrow>
         (let pubkey = pb_ProviderPubkey p
          in if TrimSpace pubkey = [] then Some (ErrText ''provider_pubkey is empty'')
             else if TrimSpace (pb_ProviderAddress p) = [] then Some (ErrText ''provider_address is empty'')
             else if pb_Contracts p = [] then Some (ErrText (''contracts are empty for provider '' @ pubkey))
             else case pb_StorageEndpoint p of
                    None \<Rightarrow> Some (ErrText (''storage_endpoint is nil for provider '' @ pubkey))
                  | Some ep \<Rightarrow>
                     if TrimSpace (ep_Ip ep) = []
                     then Some (ErrText (''storage endpoint ip is empty for provider '' @ pubkey))
                     else if ep_Port ep \<le> 0
                     then Some (ErrText (''storage endpoint port is invalid for provider '' @ pubkey))
                     else if length (ep_AdnlPubkey ep) \<noteq> 32
                     then Some (ErrText (''storage endpoint adnl_pubkey has invalid size for provider '' @ pubkey))
                     else first_error (validateContract pubkey) 0 (pb_Contracts p)))"

definition validateRequest :: "run_checks_request option \<Rightarrow> go_error option" where
  "validateRequest req =
     (case req of
        None \<Rightarrow> Some (ErrText ''request is nil'')
      | Some r \<Rightarrow>
         if TrimSpace (rq_JobId r) = [] then Some (ErrText ''job_id is empty'')
         else if rq_Providers r = [] then Some (ErrText ''providers list is empty'')
         else first_error validateProvider 0 (rq_Providers r))"

record service =
  sv_checker :: checker
  sv_maxConcurrentRates :: int
  sv_agentID :: string
  sv_location :: string

definition deadline_warning :: error_detail where
  "deadline_warning =
     \<lparr>ed_Code = DEADLINE_EXCEEDED, ed_Message = ''processing timeout reached'', ed_Retryable = True\<rparr>"

text \<open>
  \<open>run\<close> is \<^verbatim>\<open>checker.Run\<close> in the schedule that happened (\<open>None\<close> when that schedule is not complete);
  \<open>started\<close> and \<open>finished\<close> are Unix seconds, \<open>ctxErr\<close> is what \<^verbatim>\<open>ctx.Err()\<close> answers after the run.
\<close>

definition RunChecks ::
  "'cell cell_lib \<Rightarrow> service \<Rightarrow> run_checks_request option \<Rightarrow> session_env list \<Rightarrow>
     ((contract_check_result list) list \<Rightarrow> (contract_check_result list) list) \<Rightarrow> int \<Rightarrow> int \<Rightarrow> go_error option \<Rightarrow>
     (grpc_status + run_checks_response) option" where
  "RunChecks lib sv req envs perm started finished ctxErr =
     (case validateRequest req of
        Some _ \<Rightarrow> Some (Inl \<lparr>gs_Code = InvalidArgument, gs_Message = ''invalid request payload''\<rparr>)
      | None \<Rightarrow>
         (let r = the req
          in map_option
               (\<lambda>results. Inr \<lparr>rs_JobId = rq_JobId r, rs_AgentId = sv_agentID sv, rs_Location = sv_location sv,
                   rs_StartedAtUnix = started, rs_FinishedAtUnix = finished, rs_Results = map Some results,
                   rs_Warnings = (if ctxErr = None then [] else [deadline_warning])\<rparr>)
               (checker_Run lib (sv_checker sv) (rq_Providers r) (rq_Timeouts r) envs perm)))"

text \<open>The counts that \<^verbatim>\<open>RunChecks\<close> logs: per reason, and per reason and details of a failure.\<close>

fun reasonCounts :: "contract_check_result option list \<Rightarrow> int go_map \<times> int go_map \<Rightarrow> int go_map \<times> int go_map" where
  "reasonCounts [] (counts, sigs) = (counts, sigs)"
| "reasonCounts (None # rs) (counts, sigs) = reasonCounts rs (counts, sigs)"
| "reasonCounts (Some r # rs) (counts, sigs) =
     (let reason = proto_String (ccr_ReasonCode r);
          counts = map_inc reason counts
      in if ccr_ReasonCode r \<noteq> 1
         then (let d = (if ccr_Details r = [] then ''no_details'' else ccr_Details r)
               in reasonCounts rs (counts, map_inc (reason @ '' | '' @ d) sigs))
         else reasonCounts rs (counts, sigs))"

section \<open>RunStorageRates\<close>

definition maxStorageRatesPubkeys :: nat where "maxStorageRatesPubkeys = 4096"
definition defaultRatesQueryMs :: "32 word" where "defaultRatesQueryMs = 14000"

definition validateRunStorageRatesRequest :: "storage_rates_request option \<Rightarrow> go_error option" where
  "validateRunStorageRatesRequest req =
     (case req of
        None \<Rightarrow> Some (ErrText ''request is nil'')
      | Some r \<Rightarrow>
         if TrimSpace (rr_JobId r) = [] then Some (ErrText ''job_id is empty'')
         else if rr_ProviderPubkeys r = [] then Some (ErrText ''provider_pubkeys is empty'')
         else if length (rr_ProviderPubkeys r) > maxStorageRatesPubkeys
         then Some (ErrText (''provider_pubkeys exceeds max of '' @ nat_Itoa maxStorageRatesPubkeys))
         else None)"

text \<open>The answer of the transport library's \<^verbatim>\<open>GetStorageRates\<close>.\<close>

record storage_rates =
  ra_Available :: bool
  ra_RatePerMBDay :: bytes
  ra_MinBounty :: bytes
  ra_SpaceAvailableMB :: "64 word"
  ra_MinSpan :: "32 word"
  ra_MaxSpan :: "32 word"

definition rates_row :: "string \<Rightarrow> storage_rates_result" where
  "rates_row pubkey =
     \<lparr>sr_ProviderPubkey = pubkey, sr_Ok = False, sr_Available = False, sr_RatePerMbDay = [], sr_MinBounty = [],
      sr_SpaceAvailableMb = 0, sr_MinSpan = 0, sr_MaxSpan = 0, sr_LatencyMs = 0, sr_Details = []\<rparr>"

definition decodePubkey :: "string \<Rightarrow> string + bytes" where
  "decodePubkey pk =
     (if length pk \<noteq> 64
      then Inl (''invalid provider_pubkey length: got '' @ nat_Itoa (length pk) @ '' want 64 hex chars'')
      else case hex_DecodeString pk of
             Inl err \<Rightarrow> Inl (''invalid hex in provider_pubkey: '' @ err_Error err)
           | Inr key \<Rightarrow>
              if length key \<noteq> 32
              then Inl (''decoded pubkey length '' @ nat_Itoa (length key) @ '' != 32'')
              else Inr key)"

definition fetchOneStorageRate ::
  "(bytes \<Rightarrow> 64 word \<Rightarrow> duration \<Rightarrow> go_error + storage_rates) \<Rightarrow> 32 word \<Rightarrow> string \<Rightarrow> 64 word \<Rightarrow> duration \<Rightarrow> storage_rates_result" where
  "fetchOneStorageRate getRates latency pubkeyHex querySize perQuery =
     (let row = rates_row pubkeyHex
      in case decodePubkey (TrimSpace pubkeyHex) of
           Inl details \<Rightarrow> row\<lparr>sr_Details := details\<rparr>
         | Inr key \<Rightarrow>
            (let row = row\<lparr>sr_LatencyMs := latency\<rparr>
             in case getRates key querySize perQuery of
                  Inl err \<Rightarrow> row\<lparr>sr_Details := err_Error err\<rparr>
                | Inr rates \<Rightarrow>
                   row\<lparr>sr_Ok := True, sr_Available := ra_Available rates, sr_RatePerMbDay := ra_RatePerMBDay rates,
                       sr_MinBounty := ra_MinBounty rates, sr_SpaceAvailableMb := ra_SpaceAvailableMB rates,
                       sr_MinSpan := ra_MinSpan rates, sr_MaxSpan := ra_MaxSpan rates\<rparr>))"

definition queryTimeout :: "32 word \<Rightarrow> rpc_timeouts option \<Rightarrow> duration" where
  "queryTimeout defMs timeouts =
     ms_duration (case timeouts of
        Some t \<Rightarrow> if rt_QueryTimeoutMs t > 0 then rt_QueryTimeoutMs t else defMs
      | None \<Rightarrow> defMs)"

definition RunStorageRates ::
  "service \<Rightarrow> storage_rates_request option \<Rightarrow> (nat \<Rightarrow> bytes \<Rightarrow> 64 word \<Rightarrow> duration \<Rightarrow> go_error + storage_rates) \<Rightarrow>
     (nat \<Rightarrow> 32 word) \<Rightarrow> int \<Rightarrow> int \<Rightarrow> go_error option \<Rightarrow> grpc_status + storage_rates_response" where
  "RunStorageRates sv req getRates latency started finished ctxErr =
     (case validateRunStorageRatesRequest req of
        Some err \<Rightarrow> Inl \<lparr>gs_Code = InvalidArgument, gs_Message = err_Error err\<rparr>
      | None \<Rightarrow>
         (let r = the req;
              querySize = (if rr_QuerySize r = 0 then 1 else rr_QuerySize r);
              perQuery = queryTimeout defaultRatesQueryMs (rr_Timeouts r);
              pubkeys = rr_ProviderPubkeys r;
              results = map (\<lambda>i. fetchOneStorageRate (getRates i) (latency i) (pubkeys ! i) querySize perQuery)
                          [0..<length pubkeys]
          in Inr \<lparr>rrs_JobId = rr_JobId r, rrs_AgentId = sv_agentID sv, rrs_Location = sv_location sv,
                  rrs_StartedAtUnix = started, rrs_FinishedAtUnix = finished, rrs_Results = map Some results,
                  rrs_Warnings = (if ctxErr = None then [] else [deadline_warning])\<rparr>))"

section \<open>RequestStorageInfo\<close>

definition maxStorageInfoQueries :: nat where "maxStorageInfoQueries = 4096"
definition defaultStorageInfoQueryMs :: "32 word" where "defaultStorageInfoQueryMs = 10000"

definition validateRequestStorageInfoRequest :: "storage_info_request option \<Rightarrow> go_error option" where
  "validateRequestStorageInfoRequest req =
     (case req of
        None \<Rightarrow> Some (ErrText ''request is nil'')
      | Some r \<Rightarrow>
         if TrimSpace (sirq_JobId r) = [] then Some (ErrText ''job_id is empty'')
         else if sirq_Queries r = [] then Some (ErrText ''queries is empty'')
         else if length (sirq_Queries r) > maxStorageInfoQueries
         then Some (ErrText (''queries exceeds max of '' @ nat_Itoa maxStorageInfoQueries))
         else None)"

text \<open>The answer of the library's \<^verbatim>\<open>RequestStorageInfo\<close>; \<^verbatim>\<open>ParseAddr\<close> is its address parser.\<close>

record storage_info =
  inf_Status :: string
  inf_Reason :: string
  inf_Downloaded :: "64 word"
  inf_Proof :: bytes

definition fetchOneStorageInfo ::
  "(string \<Rightarrow> go_error + 'addr) \<Rightarrow> (bytes \<Rightarrow> 'addr \<Rightarrow> 64 word \<Rightarrow> duration \<Rightarrow> go_error + storage_info) \<Rightarrow> 32 word \<Rightarrow>
     storage_info_query option \<Rightarrow> duration \<Rightarrow> storage_info_result" where
  "fetchOneStorageInfo parseAddr requestInfo latency q perQuery =
     (let row = \<lparr>sir_ProviderPubkey = TrimSpace (nil_or [] siq_ProviderPubkey q),
                 sir_ContractAddress = TrimSpace (nil_or [] siq_ContractAddress q), sir_Ok = False, sir_Status = [],
                 sir_Reason = [], sir_Downloaded = 0, sir_Proof = [], sir_LatencyMs = 0, sir_Details = []\<rparr>
      in case decodePubkey (sir_ProviderPubkey row) of
           Inl details \<Rightarrow> row\<lparr>sir_Details := details\<rparr>
         | Inr key \<Rightarrow>
            if sir_ContractAddress row = [] then row\<lparr>sir_Details := ''contract_address is empty''\<rparr>
            else
             (case parseAddr (sir_ContractAddress row) of
                Inl err \<Rightarrow> row\<lparr>sir_Details := ''invalid contract_address: '' @ err_Error err\<rparr>
              | Inr contractAddr \<Rightarrow>
                 (let row = row\<lparr>sir_LatencyMs := latency\<rparr>
                  in case requestInfo key contractAddr (nil_or 0 siq_ByteToProof q) perQuery of
                       Inl err \<Rightarrow> row\<lparr>sir_Details := err_Error err\<rparr>
                     | Inr info \<Rightarrow>
                        row\<lparr>sir_Ok := True, sir_Status := inf_Status info, sir_Reason := inf_Reason info,
                            sir_Downloaded := inf_Downloaded info, sir_Proof := inf_Proof info\<rparr>)))"

definition RequestStorageInfo ::
  "service \<Rightarrow> storage_info_request option \<Rightarrow> (string \<Rightarrow> go_error + 'addr) \<Rightarrow>
     (nat \<Rightarrow> bytes \<Rightarrow> 'addr \<Rightarrow> 64 word \<Rightarrow> duration \<Rightarrow> go_error + storage_info) \<Rightarrow> (nat \<Rightarrow> 32 word) \<Rightarrow> int \<Rightarrow> int \<Rightarrow>
     go_error option \<Rightarrow> grpc_status + storage_info_response" where
  "RequestStorageInfo sv req parseAddr requestInfo latency started finished ctxErr =
     (case validateRequestStorageInfoRequest req of
        Some err \<Rightarrow> Inl \<lparr>gs_Code = InvalidArgument, gs_Message = err_Error err\<rparr>
      | None \<Rightarrow>
         (let r = the req;
              perQuery = queryTimeout defaultStorageInfoQueryMs (sirq_Timeouts r);
              queries = sirq_Queries r;
              results = map (\<lambda>i. fetchOneStorageInfo parseAddr (requestInfo i) (latency i) (queries ! i) perQuery)
                          [0..<length queries]
          in Inr \<lparr>sirs_JobId = sirq_JobId r, sirs_AgentId = sv_agentID sv, sirs_Location = sv_location sv,
                  sirs_StartedAtUnix = started, sirs_FinishedAtUnix = finished, sirs_Results = map Some results,
                  sirs_Warnings = (if ctxErr = None then [] else [deadline_warning])\<rparr>))"

section \<open>Which requests are accepted\<close>

definition contract_ok :: "contract_ref option \<Rightarrow> bool" where
  "contract_ok contract \<longleftrightarrow>
     (case contract of None \<Rightarrow> False | Some ct \<Rightarrow> TrimSpace (cr_ContractAddress ct) \<noteq> [] \<and> TrimSpace (cr_BagId ct) \<noteq> [])"

definition endpoint_ok :: "endpoint option \<Rightarrow> bool" where
  "endpoint_ok ep \<longleftrightarrow>
     (case ep of None \<Rightarrow> False
      | Some e \<Rightarrow> TrimSpace (ep_Ip e) \<noteq> [] \<and> 0 < ep_Port e \<and> length (ep_AdnlPubkey e) = 32)"

definition batch_ok :: "provider_batch option \<Rightarrow> bool" where
  "batch_ok provider \<longleftrightarrow>
     (case provider of None \<Rightarrow> False
      | Some p \<Rightarrow> TrimSpace (pb_ProviderPubkey p) \<noteq> [] \<and> TrimSpace (pb_ProviderAddress p) \<noteq> [] \<and>
          pb_Contracts p \<noteq> [] \<and> endpoint_ok (pb_StorageEndpoint p) \<and> (\<forall>ct \<in> set (pb_Contracts p). contract_ok ct))"

definition request_ok :: "run_checks_request \<Rightarrow> bool" where
  "request_ok r \<longleftrightarrow>
     TrimSpace (rq_JobId r) \<noteq> [] \<and> rq_Providers r \<noteq> [] \<and> (\<forall>p \<in> set (rq_Providers r). batch_ok p)"

lemma first_error_None: "first_error f i xs = None \<longleftrightarrow> (\<forall>j < length xs. f (i + j) (xs ! j) = None)"
proof (induction xs arbitrary: i)
  case (Cons x xs)
  show ?case by (auto simp: Cons.IH nth_Cons less_Suc_eq_0_disj split: option.splits nat.splits)
qed simp

lemma first_error_uniform:
  assumes "\<And>i x. f i x = None \<longleftrightarrow> P x"
  shows "first_error f i xs = None \<longleftrightarrow> (\<forall>x \<in> set xs. P x)"
  using assms by (simp add: first_error_None all_set_conv_all_nth)

lemma validateContract_None: "validateContract pk j ct = None \<longleftrightarrow> contract_ok ct"
  by (simp add: validateContract_def contract_ok_def split: option.splits)

lemma validateProvider_None: "validateProvider i p = None \<longleftrightarrow> batch_ok p"
  by (auto simp: validateProvider_def batch_ok_def endpoint_ok_def Let_def
      first_error_uniform [OF validateContract_None] split: option.splits)

lemma validateRequest_None: "validateRequest req = None \<longleftrightarrow> (\<exists>r. req = Some r \<and> request_ok r)"
  by (auto simp: validateRequest_def request_ok_def first_error_uniform [OF validateProvider_None] split: option.splits)

lemma somes_all: "(\<forall>x \<in> set xs. x \<noteq> None) \<Longrightarrow> somes xs = map the xs"
  by (induction xs) auto

lemma request_ok_somes:
  assumes "request_ok r"
  shows "somes (rq_Providers r) = map the (rq_Providers r)"
    "p \<in> set (rq_Providers r) \<Longrightarrow> somes (pb_Contracts (the p)) = map the (pb_Contracts (the p))"
  using assms
  by (auto simp: request_ok_def batch_ok_def contract_ok_def intro!: somes_all split: option.splits)

section \<open>Answers\<close>

text \<open>
  C6.  The agent accepts exactly the requests in which the job id, every provider and every
  contract are filled in and every storage endpoint is usable, and answers each accepted request in
  full: the response has no nil row and one row for every contract of the request, carries the job
  id, and warns about the deadline exactly when the context has ended.
\<close>

theorem RunChecks_complete:
  assumes "RunChecks lib sv req envs perm started finished ctxErr = Some res"
    "1 \<le> ck_maxConcurrentBags (sv_checker sv)" "\<And>bs. mset (perm bs) = mset bs"
    "\<And>r. req = Some r \<Longrightarrow> length envs = length (somes (rq_Providers r))"
  shows "case res of
      Inl st \<Rightarrow> gs_Code st = InvalidArgument \<and> \<not> (\<exists>r. req = Some r \<and> request_ok r)
    | Inr resp \<Rightarrow> (\<exists>r. req = Some r \<and> request_ok r \<and> rs_JobId resp = rq_JobId r \<and> None \<notin> set (rs_Results resp) \<and>
        mset (map (ccr_key \<circ> the) (rs_Results resp)) =
        mset (concat (map (\<lambda>p. map (row_key (the p) \<circ> the) (pb_Contracts (the p))) (rq_Providers r))) \<and>
        (rs_Warnings resp = [] \<longleftrightarrow> ctxErr = None))"
proof (cases "validateRequest req")
  case (Some err)
  then show ?thesis using assms(1) validateRequest_None [of req] by (auto simp: RunChecks_def)
next
  case None
  then obtain r where r: "req = Some r" "request_ok r" using validateRequest_None by blast
  then obtain rows where rows: "checker_Run lib (sv_checker sv) (rq_Providers r) (rq_Timeouts r) envs perm = Some rows"
      "res = Inr \<lparr>rs_JobId = rq_JobId r, rs_AgentId = sv_agentID sv, rs_Location = sv_location sv,
         rs_StartedAtUnix = started, rs_FinishedAtUnix = finished, rs_Results = map Some rows,
         rs_Warnings = (if ctxErr = None then [] else [deadline_warning])\<rparr>"
    using assms(1) None by (auto simp: RunChecks_def Let_def)
  have "concat (map (\<lambda>p. map (row_key p) (somes (pb_Contracts p))) (somes (rq_Providers r))) =
      concat (map (\<lambda>p. map (row_key (the p) \<circ> the) (pb_Contracts (the p))) (rq_Providers r))"
    using request_ok_somes [OF r(2)] by (simp add: comp_def cong: map_cong)
  then have "mset (map ccr_key rows) =
      mset (concat (map (\<lambda>p. map (row_key (the p) \<circ> the) (pb_Contracts (the p))) (rq_Providers r)))"
    using request_rows [OF rows(1) assms(2,3)] assms(4) r(1) by simp
  then show ?thesis using r rows(2) by (simp add: comp_def image_iff)
qed

text \<open>
  The deadline a handler works under is the earlier of the caller's deadline and the request's
  total timeout counted from now, for all three handlers and also when the caller's deadline has
  already passed; a request without a total timeout keeps the caller's deadline.
\<close>

theorem total_deadline:
  "withTotalTimeout (Some t) deadline now =
     (if ct_TotalMs t = 0 then deadline
      else Some (case deadline of None \<Rightarrow> now + ms_duration (ct_TotalMs t)
                 | Some dl \<Rightarrow> min dl (now + ms_duration (ct_TotalMs t)))) \<and>
   withStorageRatesTotalTimeout (Some u) deadline now =
     (if rt_TotalMs u = 0 then deadline
      else Some (case deadline of None \<Rightarrow> now + ms_duration (rt_TotalMs u)
                 | Some dl \<Rightarrow> min dl (now + ms_duration (rt_TotalMs u)))) \<and>
   withStorageInfoTotalTimeout (Some u) deadline now = withStorageRatesTotalTimeout (Some u) deadline now"
proof -
  have "total_timeout ms deadline now =
      (if ms = 0 then deadline
       else Some (case deadline of None \<Rightarrow> now + ms_duration ms | Some dl \<Rightarrow> min dl (now + ms_duration ms)))" for ms
  proof -
    have "0 \<le> ms_duration ms" by (simp add: ms_duration_def)
    then show ?thesis by (auto simp: total_timeout_def with_timeout_def Let_def min_def split: option.splits)
  qed
  then show ?thesis
    by (simp add: withTotalTimeout_def withStorageRatesTotalTimeout_def withStorageInfoTotalTimeout_def)
qed

definition good_provider :: provider_batch where
  "good_provider =
     \<lparr>pb_ProviderPubkey = ''aa'', pb_ProviderAddress = ''EQ1'',
      pb_StorageEndpoint = Some \<lparr>ep_Ip = ''10.0.0.1'', ep_Port = 3333, ep_AdnlPubkey = replicate 32 0\<rparr>,
      pb_Contracts = [Some \<lparr>cr_ContractAddress = ''c1'', cr_BagId = ''00''\<rparr>,
                      Some \<lparr>cr_ContractAddress = ''c2'', cr_BagId = ''01''\<rparr>]\<rparr>"

definition good_request :: run_checks_request where
  "good_request = \<lparr>rq_JobId = ''job'', rq_Providers = [Some good_provider], rq_Timeouts = None\<rparr>"

definition unreachable_session :: session_env where
  "unreachable_session =
     \<lparr>se_StartClient = Some (ErrText ''listen failed''), se_RegisterClient = None, se_Ping = None, se_schedule = []\<rparr>"

definition sample_service :: service where
  "sample_service =
     \<lparr>sv_checker = sample_checker, sv_maxConcurrentRates = 10, sv_agentID = ''agent-1'', sv_location = ''eu''\<rparr>"

lemma good_request_ok: "request_ok good_request"
proof -
  have t: "TrimSpace ''job'' = ''job''" "TrimSpace ''aa'' = ''aa''" "TrimSpace ''EQ1'' = ''EQ1''"
    "TrimSpace ''10.0.0.1'' = ''10.0.0.1''" "TrimSpace ''c1'' = ''c1''" "TrimSpace ''c2'' = ''c2''"
    "TrimSpace ''00'' = ''00''" "TrimSpace ''01'' = ''01''" by code_simp+
  show ?thesis
    by (simp add: request_ok_def good_request_def good_provider_def batch_ok_def endpoint_ok_def contract_ok_def t)
qed

theorem RunChecks_complete_witness:
  "\<exists>resp. RunChecks sample_lib sample_service (Some good_request) [unreachable_session] rev 100 101 None = Some (Inr resp) \<and>
     rs_Warnings resp = [] \<and>
     mset (map (ccr_key \<circ> the) (rs_Results resp)) =
       {#(''aa'', ''EQ1'', ''c1'', ''00''), (''aa'', ''EQ1'', ''c2'', ''01'')#}"
proof -
  have v: "validateRequest (Some good_request) = None" using good_request_ok validateRequest_None by blast
  obtain rows where "checker_Run sample_lib sample_checker (rq_Providers good_request) None [unreachable_session] rev = Some rows"
    by (simp add: checker_Run_def good_request_def checkProviderFiles_def unreachable_session_def good_provider_def Let_def)
  then obtain resp where resp: "RunChecks sample_lib sample_service (Some good_request) [unreachable_session] rev 100 101 None = Some (Inr resp)"
    using v by (simp add: RunChecks_def sample_service_def good_request_def)
  have "mset (map (ccr_key \<circ> the) (rs_Results resp)) =
      mset (concat (map (\<lambda>p. map (row_key (the p) \<circ> the) (pb_Contracts (the p))) (rq_Providers good_request))) \<and>
      (rs_Warnings resp = [])"
    using RunChecks_complete [OF resp] by (simp add: sample_service_def sample_checker_def good_request_def)
  then show ?thesis using resp by (simp add: good_request_def good_provider_def row_key_def)
qed

lemma decodePubkey_iff: "decodePubkey pk = Inr key \<longleftrightarrow> length pk = 64 \<and> hex_DecodeString pk = Inr key"
  using length_hex_DecodeString [of pk] by (auto simp: decodePubkey_def split: sum.splits if_splits)

text \<open>
  Storage rates are answered row by row: row \<open>i\<close> names the \<open>i\<close>-th key as it was sent and is ok
  exactly when the key is 64 hexadecimal digits and the provider answered; a bad key or a failing
  provider never loses another provider's row.
\<close>

theorem RunStorageRates_rows:
  assumes "RunStorageRates sv (Some r) getRates latency started finished ctxErr = Inr resp"
    "i < length (rr_ProviderPubkeys r)"
  shows "length (rrs_Results resp) = length (rr_ProviderPubkeys r) \<and>
    (\<exists>row. rrs_Results resp ! i = Some row \<and> sr_ProviderPubkey row = rr_ProviderPubkeys r ! i \<and>
       (sr_Ok row \<longleftrightarrow>
         (\<exists>key rates. length (TrimSpace (rr_ProviderPubkeys r ! i)) = 64 \<and>
            hex_DecodeString (TrimSpace (rr_ProviderPubkeys r ! i)) = Inr key \<and>
            getRates i key (if rr_QuerySize r = 0 then 1 else rr_QuerySize r)
              (queryTimeout defaultRatesQueryMs (rr_Timeouts r)) = Inr rates)))"
proof -
  have row: "sr_ProviderPubkey (fetchOneStorageRate g lat pk qs per) = pk \<and>
      (sr_Ok (fetchOneStorageRate g lat pk qs per) \<longleftrightarrow>
        (\<exists>key rates. length (TrimSpace pk) = 64 \<and> hex_DecodeString (TrimSpace pk) = Inr key \<and> g key qs per = Inr rates))"
    for g lat pk qs per
    unfolding conj_assoc [symmetric] decodePubkey_iff [symmetric]
    by (auto simp: fetchOneStorageRate_def rates_row_def Let_def split: sum.splits)
  show ?thesis using assms row by (auto simp: RunStorageRates_def Let_def split: option.splits)
qed

definition sample_rates_request :: storage_rates_request where
  "sample_rates_request = \<lparr>rr_JobId = ''job'', rr_ProviderPubkeys = [''zz''], rr_QuerySize = 0, rr_Timeouts = None\<rparr>"

theorem RunStorageRates_rows_witness:
  "\<exists>resp row. RunStorageRates sample_service (Some sample_rates_request) (\<lambda>_ _ _ _. Inl ErrCanceled) (\<lambda>_. 0) 1 2 None = Inr resp \<and>
     rrs_Results resp ! 0 = Some row \<and> sr_ProviderPubkey row = ''zz'' \<and> \<not> sr_Ok row"
proof -
  have "TrimSpace ''job'' = ''job''" by code_simp
  then obtain resp where r: "RunStorageRates sample_service (Some sample_rates_request) (\<lambda>_ _ _ _. Inl ErrCanceled) (\<lambda>_. 0) 1 2 None = Inr resp"
    by (simp add: RunStorageRates_def validateRunStorageRatesRequest_def sample_rates_request_def maxStorageRatesPubkeys_def Let_def)
  show ?thesis using RunStorageRates_rows [OF r, of 0] r by (auto simp: sample_rates_request_def)
qed

text \<open>
  The same for storage info: row \<open>i\<close> answers query \<open>i\<close> under the trimmed key and address, and is
  ok exactly when the key decodes, the address parses and the provider answered.
\<close>

theorem RequestStorageInfo_rows:
  assumes "RequestStorageInfo sv (Some r) parseAddr requestInfo latency started finished ctxErr = Inr resp"
    "i < length (sirq_Queries r)" "sirq_Queries r ! i = Some q"
  shows "length (sirs_Results resp) = length (sirq_Queries r) \<and>
    (\<exists>row. sirs_Results resp ! i = Some row \<and> sir_ProviderPubkey row = TrimSpace (siq_ProviderPubkey q) \<and>
       sir_ContractAddress row = TrimSpace (siq_ContractAddress q) \<and>
       (sir_Ok row \<longleftrightarrow>
         (\<exists>key addr info. decodePubkey (TrimSpace (siq_ProviderPubkey q)) = Inr key \<and>
            TrimSpace (siq_ContractAddress q) \<noteq> [] \<and> parseAddr (TrimSpace (siq_ContractAddress q)) = Inr addr \<and>
            requestInfo i key addr (siq_ByteToProof q) (queryTimeout defaultStorageInfoQueryMs (sirq_Timeouts r)) = Inr info)))"
proof -
  let ?per = "queryTimeout defaultStorageInfoQueryMs (sirq_Timeouts r)"
  let ?row = "fetchOneStorageInfo parseAddr (requestInfo i) (latency i) (Some q) ?per"
  have "sir_ProviderPubkey ?row = TrimSpace (siq_ProviderPubkey q)"
    "sir_ContractAddress ?row = TrimSpace (siq_ContractAddress q)"
    "sir_Ok ?row \<longleftrightarrow>
        (\<exists>key addr info. decodePubkey (TrimSpace (siq_ProviderPubkey q)) = Inr key \<and>
            TrimSpace (siq_ContractAddress q) \<noteq> [] \<and> parseAddr (TrimSpace (siq_ContractAddress q)) = Inr addr \<and>
            requestInfo i key addr (siq_ByteToProof q) ?per = Inr info)"
    by (auto simp: fetchOneStorageInfo_def Let_def split: sum.splits)
  moreover have "sirs_Results resp ! i = Some ?row" "length (sirs_Results resp) = length (sirq_Queries r)"
    using assms by (auto simp: RequestStorageInfo_def Let_def split: option.splits)
  ultimately show ?thesis by simp
qed

definition sample_info_query :: storage_info_query where
  "sample_info_query = \<lparr>siq_ProviderPubkey = ''zz'', siq_ContractAddress = [], siq_ByteToProof = 0\<rparr>"

definition sample_info_request :: storage_info_request where
  "sample_info_request = \<lparr>sirq_JobId = ''job'', sirq_Queries = [Some sample_info_query], sirq_Timeouts = None\<rparr>"

theorem RequestStorageInfo_rows_witness:
  "\<exists>resp row. RequestStorageInfo sample_service (Some sample_info_request) Inr (\<lambda>_ _ (_ :: string) _ _. Inl ErrCanceled)
       (\<lambda>_. 0) 1 2 (Some ErrDeadlineExceeded) = Inr resp \<and>
     sirs_Results resp ! 0 = Some row \<and> sir_ProviderPubkey row = TrimSpace ''zz'' \<and> \<not> sir_Ok row"
proof -
  have "TrimSpace ''job'' = ''job''" by code_simp
  then obtain resp where r: "RequestStorageInfo sample_service (Some sample_info_request) Inr
      (\<lambda>_ _ (_ :: string) _ _. Inl ErrCanceled) (\<lambda>_. 0) 1 2 (Some ErrDeadlineExceeded) = Inr resp"
    by (simp add: RequestStorageInfo_def validateRequestStorageInfoRequest_def sample_info_request_def
        maxStorageInfoQueries_def Let_def)
  show ?thesis using RequestStorageInfo_rows [OF r, of 0 sample_info_query] r
    by (auto simp: sample_info_request_def sample_info_query_def)
qed

end
