(* ===== verification/AgentRpc.thy ===== *)
theory AgentRpc
  imports AgentServer
begin

text \<open>
  \<^verbatim>\<open>coordinator/internal/clients/agentrpc\<close>: the coordinator's client of the agents.  A connection is
  named by its endpoint; \<open>dial\<close> says which endpoints gRPC can be given, \<open>call\<close> is the remote call with
  the outgoing authorization header and the per-call timeout.  \<open>RunChecksAll\<close> and
  \<open>RunStorageRatesAll\<close> start one goroutine per agent; \<open>perm\<close> is the order in which they finish.  The
  message for an unknown endpoint is written for endpoints without characters that \<^verbatim>\<open>%q\<close> escapes.
\<close>

record agentrpc_config =
  acf_Endpoints :: "string list"
  acf_AuthToken :: string
  acf_CACertFile :: string
  acf_RequestTimeout :: duration

record agent_client =
  ac_agents :: "string list"
  ac_authToken :: string
  ac_requestTimeout :: duration

fun dial_all :: "(string \<Rightarrow> bool) \<Rightarrow> string list \<Rightarrow> string list" where
  "dial_all dial [] = []"
| "dial_all dial (raw # rest) =
     (let endpoint = TrimSpace raw
      in if endpoint = [] then dial_all dial rest
         else if \<not> dial endpoint then dial_all dial rest
         else endpoint # dial_all dial rest)"

text \<open>\<open>tlsErr\<close> is the outcome of \<^verbatim>\<open>loadTLSCredentials\<close>.\<close>

definition agentrpc_New :: "(string \<Rightarrow> go_error option) \<Rightarrow> (string \<Rightarrow> bool) \<Rightarrow> agentrpc_config \<Rightarrow> go_error + agent_client" where
  "agentrpc_New tlsErr dial cfg =
     (if acf_Endpoints cfg = [] then Inr \<lparr>ac_agents = [], ac_authToken = [], ac_requestTimeout = 0\<rparr>
      else if TrimSpace (acf_AuthToken cfg) = []
      then Inl (ErrText ''agent auth token is required when AGENT_ENDPOINTS is set'')
      else if TrimSpace (acf_CACertFile cfg) = []
      then Inl (ErrText ''agent CA cert path is required when AGENT_ENDPOINTS is set'')
      else case tlsErr (acf_CACertFile cfg) of
             Some err \<Rightarrow> Inl err
           | None \<Rightarrow>
              Inr \<lparr>ac_agents = dial_all dial (acf_Endpoints cfg), ac_authToken = TrimSpace (acf_AuthToken cfg),
                   ac_requestTimeout = (if acf_RequestTimeout cfg \<le> 0 then 30000000000 else acf_RequestTimeout cfg)\<rparr>)"

definition AgentCount :: "agent_client option \<Rightarrow> nat" where
  "AgentCount c = nil_or 0 (\<lambda>cl. length (ac_agents cl)) c"

definition Endpoints :: "agent_client option \<Rightarrow> string list" where
  "Endpoints c = nil_or [] ac_agents c"

definition auth_header :: "agent_client \<Rightarrow> string" where
  "auth_header c = ''Bearer '' @ ac_authToken c"

definition call_timeout :: "agent_client \<Rightarrow> duration option" where
  "call_timeout c = (if ac_requestTimeout c > 0 then Some (ac_requestTimeout c) else None)"

definition agentByEndpoint :: "agent_client \<Rightarrow> string \<Rightarrow> string option" where
  "agentByEndpoint c endpoint = find (\<lambda>a. a = endpoint) (ac_agents c)"

type_synonym ('req, 'resp) agent_call = "string \<Rightarrow> string \<Rightarrow> duration option \<Rightarrow> 'req \<Rightarrow> go_error + 'resp"

definition client_RunChecks ::
  "('req, 'resp) agent_call \<Rightarrow> agent_client option \<Rightarrow> string \<Rightarrow> 'req \<Rightarrow> go_error + (string \<times> 'resp)" where
  "client_RunChecks call c endpoint req =
     (case c of
        None \<Rightarrow> Inl (ErrText ''agent client is nil'')
      | Some cl \<Rightarrow>
         (case agentByEndpoint cl endpoint of
            None \<Rightarrow> Inl (ErrText (''unknown agent endpoint '' @ [CHR 0x22] @ endpoint @ [CHR 0x22]))
          | Some agent \<Rightarrow>
             (case call agent (auth_header cl) (call_timeout cl) req of
                Inl err \<Rightarrow> Inl err
              | Inr resp \<Rightarrow> Inr (agent, resp))))"

fun collect_calls ::
  "(string \<Rightarrow> go_error + (string \<times> 'resp)) \<Rightarrow> string list \<Rightarrow> (string \<times> 'resp) list \<times> (string \<times> go_error) list" where
  "collect_calls run [] = ([], [])"
| "collect_calls run (a # as) =
     (let (results, errs) = collect_calls run as
      in case run a of Inl err \<Rightarrow> (results, (a, err) # errs) | Inr r \<Rightarrow> (r # results, errs))"

definition RunChecksAll ::
  "('req, 'resp) agent_call \<Rightarrow> (string list \<Rightarrow> string list) \<Rightarrow> agent_client option \<Rightarrow> 'req \<Rightarrow>
     (string \<times> 'resp) list \<times> (string \<times> go_error) list" where
  "RunChecksAll call perm c req =
     (case c of
        None \<Rightarrow> ([], [])
      | Some cl \<Rightarrow>
         if ac_agents cl = [] then ([], [])
         else collect_calls (\<lambda>a. client_RunChecks call (Some cl) a req) (perm (ac_agents cl)))"

definition RunStorageRatesAll ::
  "('req, 'resp) agent_call \<Rightarrow> (string list \<Rightarrow> string list) \<Rightarrow> agent_client option \<Rightarrow> 'req \<Rightarrow>
     (string \<times> 'resp) list \<times> (string \<times> go_error) list" where
  "RunStorageRatesAll call perm c req =
     (case c of
        None \<Rightarrow> ([], [])
      | Some cl \<Rightarrow>
         if ac_agents cl = [] then ([], [])
         else collect_calls
                (\<lambda>a. case call a (auth_header cl) (call_timeout cl) req of
                       Inl err \<Rightarrow> Inl err
                     | Inr resp \<Rightarrow> Inr (a, resp))
                (perm (ac_agents cl)))"

definition ParseEndpointsCSV :: "string \<Rightarrow> string list" where
  "ParseEndpointsCSV csv =
     (if TrimSpace csv = [] then []
      else filter (\<lambda>v. v \<noteq> []) (map TrimSpace (str_Split (CHR '','') csv)))"

section \<open>Every agent is called once\<close>

lemma find_eq: "find (\<lambda>b. b = a) xs = (if a \<in> set xs then Some a else None)"
  by (induction xs) auto

lemma client_RunChecks_known:
  "a \<in> set (ac_agents cl) \<Longrightarrow>
   client_RunChecks call (Some cl) a req =
     (case call a (auth_header cl) (call_timeout cl) req of Inl err \<Rightarrow> Inl err | Inr resp \<Rightarrow> Inr (a, resp))"
  by (simp add: client_RunChecks_def agentByEndpoint_def find_eq)

lemma collect_calls_endpoints:
  assumes "\<And>a r. a \<in> set as \<Longrightarrow> run a = Inr r \<Longrightarrow> fst r = a"
  shows "mset (map fst (fst (collect_calls run as)) @ map fst (snd (collect_calls run as))) = mset as"
  using assms by (induction as) (auto simp: Let_def case_prod_beta split: sum.splits)

text \<open>
  A fan-out to all agents reports every agent exactly once, as a result or as an error, in
  whatever order the calls finish, so that no answer and no failure is lost or counted twice.
\<close>

theorem fanout_all_accounted:
  assumes "\<And>xs. mset (perm xs) = mset xs"
  shows "mset (map fst (fst (RunChecksAll call perm (Some cl) req)) @
            map fst (snd (RunChecksAll call perm (Some cl) req))) = mset (ac_agents cl) \<and>
    mset (map fst (fst (RunStorageRatesAll call' perm (Some cl) req')) @
            map fst (snd (RunStorageRatesAll call' perm (Some cl) req'))) = mset (ac_agents cl)"
proof -
  have s: "set (perm (ac_agents cl)) = set (ac_agents cl)" using assms by (metis set_mset_mset)
  have "mset (map fst (fst (collect_calls (\<lambda>a. client_RunChecks call (Some cl) a req) (perm (ac_agents cl)))) @
      map fst (snd (collect_calls (\<lambda>a. client_RunChecks call (Some cl) a req) (perm (ac_agents cl))))) =
      mset (perm (ac_agents cl))"
    by (rule collect_calls_endpoints) (auto simp: s client_RunChecks_known split: sum.splits)
  moreover have "mset (map fst (fst (collect_calls (\<lambda>a. case call' a (auth_header cl) (call_timeout cl) req' of
          Inl err \<Rightarrow> Inl err | Inr resp \<Rightarrow> Inr (a, resp)) (perm (ac_agents cl)))) @
      map fst (snd (collect_calls (\<lambda>a. case call' a (auth_header cl) (call_timeout cl) req' of
          Inl err \<Rightarrow> Inl err | Inr resp \<Rightarrow> Inr (a, resp)) (perm (ac_agents cl))))) = mset (perm (ac_agents cl))"
    by (rule collect_calls_endpoints) (auto split: sum.splits)
  ultimately show ?thesis using assms by (simp add: RunChecksAll_def RunStorageRatesAll_def)
qed

theorem fanout_all_accounted_witness:
  "mset (map fst (fst (RunChecksAll (\<lambda>a _ _ (_ :: nat). if a = ''x'' then Inr () else Inl ErrCanceled) rev
       (Some \<lparr>ac_agents = [''x'', ''y''], ac_authToken = ''t'', ac_requestTimeout = 5\<rparr>) 0)) @
     map fst (snd (RunChecksAll (\<lambda>a _ _ (_ :: nat). if a = ''x'' then Inr () else Inl ErrCanceled) rev
       (Some \<lparr>ac_agents = [''x'', ''y''], ac_authToken = ''t'', ac_requestTimeout = 5\<rparr>) 0))) = {#''x'', ''y''#}"
  using fanout_all_accounted [of rev "\<lambda>a _ _ (_ :: nat). if a = ''x'' then Inr () else Inl ErrCanceled"
      "\<lparr>ac_agents = [''x'', ''y''], ac_authToken = ''t'', ac_requestTimeout = 5\<rparr>" 0
      "\<lambda>_ _ _ (_ :: nat). Inr ()" 0] by simp

section \<open>The authorization header\<close>

lemma TrimSpace_bearer:
  assumes "TrimSpace s \<noteq> []"
  shows "TrimSpace (''Bearer '' @ TrimSpace s) = ''Bearer '' @ TrimSpace s"
proof -
  have "lead_space space_runes (''Bearer '' @ t) = 0" for t
    by (simp add: lead_space_def space_runes_def byte_codes_def)
  then have l: "trim_lead space_runes (''Bearer '' @ TrimSpace s) = ''Bearer '' @ TrimSpace s"
    by (rule trim_lead_fixed)
  have "rev (''Bearer '' @ TrimSpace s) = rev (TrimSpace s) @ CHR '' '' # ''reraeB''" by simp
  then have "lead_space (map rev space_runes) (rev (''Bearer '' @ TrimSpace s)) = 0"
    using lead_space_before_blank [of "rev (TrimSpace s)" "''reraeB''"] TrimSpace_no_lead [of s] assms by simp
  from trim_lead_fixed [OF this] show ?thesis
    unfolding TrimSpace_def [of "''Bearer '' @ TrimSpace s"] l by simp
qed

text \<open>
  The coordinator's header opens the agent: a client built from a configuration with agents
  is authorized by an agent exactly when the agent's token is the configured one without the white
  space around it, and so never by an agent without a token.
\<close>

theorem bearer_accepted:
  assumes "agentrpc_New tlsErr dial cfg = Inr c" "acf_Endpoints cfg \<noteq> []"
  shows "isAuthorized (Some [auth_header c]) expected \<longleftrightarrow> expected = TrimSpace (acf_AuthToken cfg)"
proof -
  have t: "TrimSpace (acf_AuthToken cfg) \<noteq> []" "ac_authToken c = TrimSpace (acf_AuthToken cfg)"
    using assms by (auto simp: agentrpc_New_def split: if_splits option.splits)
  then have "TrimSpace (auth_header c) = ''Bearer '' @ TrimSpace (acf_AuthToken cfg)"
    using TrimSpace_bearer [OF t(1)] by (simp only: auth_header_def)
  then show ?thesis
    using t(1) TrimPrefix_append [of "''Bearer ''" "TrimSpace (acf_AuthToken cfg)"]
    by (auto simp: isAuthorized_def)
qed

theorem bearer_accepted_witness:
  "\<exists>c. agentrpc_New (\<lambda>_. None) (\<lambda>_. True)
        \<lparr>acf_Endpoints = [''a:1''], acf_AuthToken = '' tok '', acf_CACertFile = ''ca'', acf_RequestTimeout = 0\<rparr> = Inr c \<and>
      isAuthorized (Some [auth_header c]) ''tok''"
proof -
  have t: "TrimSpace '' tok '' = ''tok''" "TrimSpace ''ca'' = ''ca''" by code_simp+
  obtain c where c: "agentrpc_New (\<lambda>_. None) (\<lambda>_. True)
        \<lparr>acf_Endpoints = [''a:1''], acf_AuthToken = '' tok '', acf_CACertFile = ''ca'', acf_RequestTimeout = 0\<rparr> = Inr c"
    by (simp add: agentrpc_New_def t)
  from bearer_accepted [OF this] show ?thesis using c t by simp
qed

end
