(* ===== verification/DbTypes.thy ===== *)
theory DbTypes
  imports Reason
begin

text \<open>
  \<^verbatim>\<open>coordinator/internal/models/db/types.go\<close>: the rows that the coordinator's workers exchange with the
  repositories.  \<^verbatim>\<open>uint64\<close> sizes and logical times are 64-bit words, other numbers \<^typ>\<open>int\<close>.
\<close>

record contract_relation =
  rel_ProviderPublicKey :: string
  rel_ProviderAddress :: string
  rel_Address :: string
  rel_BagID :: string
  rel_Size :: "64 word"
  rel_Reason :: "int option"

record ip_info =
  ip_PublicKey :: bytes
  ip_IP :: string
  ip_Port :: int

record provider_ip =
  pip_PublicKey :: string
  pip_Storage :: ip_info
  pip_Provider :: ip_info

record provider_endpoint_state =
  pes_PublicKey :: string
  pes_Address :: string
  pes_UpdatedAt :: "time option"
  pes_ProviderIP :: string
  pes_ProviderPort :: int
  pes_StorageIP :: string
  pes_StoragePort :: int

record contract_proofs_check =
  cpc_ContractAddress :: string
  cpc_ProviderAddress :: string
  cpc_Reason :: reason_code

datatype pipeline_status = PipelineEventError | PipelineEventOK

record provider_pipeline_event =
  ppe_ProviderPubkey :: string
  ppe_Status :: pipeline_status
  ppe_Stage :: string
  ppe_ReasonCode :: "int option"
  ppe_ErrorMessage :: "string option"
  ppe_RunID :: string
  ppe_Worker :: string

record bag_pipeline_event =
  bpe_ProviderPubkey :: string
  bpe_ContractAddress :: string
  bpe_BagID :: string
  bpe_Status :: pipeline_status
  bpe_Stage :: string
  bpe_ReasonCode :: "int option"
  bpe_ErrorMessage :: "string option"
  bpe_RunID :: string
  bpe_Worker :: string

record provider_create =
  pc_Pubkey :: string
  pc_Address :: string
  pc_RegisteredAt :: time

record provider_update =
  pu_Pubkey :: string
  pu_RatePerMBDay :: int
  pu_MinBounty :: int
  pu_MinSpan :: "32 word"
  pu_MaxSpan :: "32 word"

record provider_status_update =
  psu_Pubkey :: string
  psu_IsOnline :: bool

record provider_wallet =
  pw_PubKey :: string
  pw_Address :: string
  pw_LT :: "64 word"

record provider_wallet_lt =
  pwl_PubKey :: string
  pwl_LT :: "64 word"

text \<open>\<^verbatim>\<open>ProvidersAddresses\<close> is a set kept as a Go map.\<close>

record storage_contract =
  sc_ProvidersAddresses :: "unit go_map"
  sc_Address :: string
  sc_BagID :: string
  sc_OwnerAddr :: string
  sc_Size :: "64 word"
  sc_ChunkSize :: "64 word"
  sc_LastLT :: "64 word"

end
