(* ===== verification/Recorder.thy ===== *)
theory Recorder
  imports DbTypes
begin

text \<open>
  \<^verbatim>\<open>coordinator/internal/pipelineevents\<close>: the recorder of pipeline events of one worker run, and
  \<^verbatim>\<open>workers/providersMaster/resolve_errors.go\<close>, the errors that carry the stage they happened at.
  \<open>rc_repo\<close> is whether a repository is attached; the inserts of \<^verbatim>\<open>Flush\<close> are arguments that act on an
  abstract database state.
\<close>

definition StageEndpointResolve :: string where "StageEndpointResolve = ''endpoint_resolve''"
definition StageEndpointUnresolved :: string where "StageEndpointUnresolved = ''endpoint_unresolved''"
definition StageRecovered :: string where "StageRecovered = ''recovered''"
definition StageUnknown :: string where "StageUnknown = ''unknown''"
definition StageAgentRunChecksNoResult :: string where "StageAgentRunChecksNoResult = ''agent_runchecks_no_result''"
definition StageDHTFindProviderRecord :: string where "StageDHTFindProviderRecord = ''dht_find_provider_record''"
definition StageDHTFindProviderAddresses :: string where "StageDHTFindProviderAddresses = ''dht_find_provider_addresses''"
definition StageVerifyStorageADNLProof :: string where "StageVerifyStorageADNLProof = ''verify_storage_adnl_proof''"
definition StageDHTFindStorageAddresses :: string where "StageDHTFindStorageAddresses = ''dht_find_storage_addresses''"
definition StageOverlayStorageFallback :: string where "StageOverlayStorageFallback = ''overlay_storage_fallback''"

definition maxErrorMessageLen :: nat where "maxErrorMessageLen = 1024"

section \<open>Stages of errors\<close>

definition stageError :: "string \<Rightarrow> go_error option \<Rightarrow> go_error option" where
  "stageError stage err = map_option (ErrStage stage) err"

text \<open>\<^verbatim>\<open>errors.As\<close> finds the outermost \<^verbatim>\<open>resolveStageError\<close> of the chain.\<close>

fun as_stage_error :: "go_error \<Rightarrow> string option" where
  "as_stage_error (ErrStage st e) = Some st"
| "as_stage_error (ErrWrap _ e) = as_stage_error e"
| "as_stage_error _ = None"

definition resolveStageFromErr :: "go_error option \<Rightarrow> string" where
  "resolveStageFromErr err =
     (case err of
        None \<Rightarrow> StageUnknown
      | Some e \<Rightarrow>
         (case as_stage_error e of
            Some st \<Rightarrow> if st \<noteq> [] then st else StageUnknown
          | None \<Rightarrow> StageUnknown))"

text \<open>\<^verbatim>\<open>strings.HasPrefix\<close> and the first field that names a stage.\<close>

fun first_stage :: "string list \<Rightarrow> string" where
  "first_stage [] = StageUnknown"
| "first_stage (part # parts) =
     (if prefix ''stage='' part
      then (let stage = TrimPrefix part ''stage='' in if stage \<noteq> [] then stage else first_stage parts)
      else first_stage parts)"

definition ParseStageFromDetails :: "string \<Rightarrow> string" where
  "ParseStageFromDetails details =
     (let details = TrimSpace details
      in if details = [] then StageUnknown else first_stage (Fields details))"

section \<open>The recorder\<close>

record recorder =
  rc_repo :: bool
  rc_runID :: string
  rc_worker :: string
  rc_lastProviderStatus :: "pipeline_status go_map"
  rc_providerEvents :: "provider_pipeline_event list"
  rc_bagEvents :: "bag_pipeline_event list"

definition NewRecorder :: "bool \<Rightarrow> string \<Rightarrow> string \<Rightarrow> recorder" where
  "NewRecorder repo runID worker =
     \<lparr>rc_repo = repo, rc_runID = runID, rc_worker = worker, rc_lastProviderStatus = [],
      rc_providerEvents = [], rc_bagEvents = []\<rparr>"

text \<open>\<open>getLast\<close> is the repository's \<^verbatim>\<open>GetLastProviderPipelineEventStatus\<close>.\<close>

definition LoadProviderStatuses ::
  "(string list \<Rightarrow> go_error + pipeline_status go_map) \<Rightarrow> string list \<Rightarrow> recorder \<Rightarrow> go_error option \<times> recorder" where
  "LoadProviderStatuses getLast pubkeys r =
     (if \<not> rc_repo r \<or> pubkeys = [] then (None, r)
      else case getLast pubkeys of
             Inl err \<Rightarrow> (Some err, r)
           | Inr statuses \<Rightarrow> (None, r\<lparr>rc_lastProviderStatus := statuses\<rparr>))"

definition appendProviderEvent :: "provider_pipeline_event \<Rightarrow> recorder \<Rightarrow> recorder" where
  "appendProviderEvent event r = r\<lparr>rc_providerEvents := rc_providerEvents r @ [event]\<rparr>"

definition appendBagEvent :: "bag_pipeline_event \<Rightarrow> recorder \<Rightarrow> recorder" where
  "appendBagEvent event r = r\<lparr>rc_bagEvents := rc_bagEvents r @ [event]\<rparr>"

definition errorText :: "go_error option \<Rightarrow> string option" where
  "errorText err = map_option err_Error err"

definition truncateMessage :: "string option \<Rightarrow> string option" where
  "truncateMessage msg =
     (case msg of
        None \<Rightarrow> None
      | Some m \<Rightarrow>
         (let s = TrimSpace m
          in if s = [] then None else Some (if length s > maxErrorMessageLen then take maxErrorMessageLen s else s)))"

definition RecordProviderResolve ::
  "string \<Rightarrow> string \<Rightarrow> bool \<Rightarrow> go_error option \<Rightarrow> recorder option \<Rightarrow> recorder option" where
  "RecordProviderResolve pubkey stage resolved resolveErr rec =
     (case rec of
        None \<Rightarrow> None
      | Some r \<Rightarrow>
         if pubkey = [] then Some r
         else if resolved then
           (if map_of (rc_lastProviderStatus r) pubkey = Some PipelineEventError
            then Some ((appendProviderEvent
                    \<lparr>ppe_ProviderPubkey = pubkey, ppe_Status = PipelineEventOK, ppe_Stage = StageEndpointResolve,
                     ppe_ReasonCode = Some (uint ValidStorageProof), ppe_ErrorMessage = None,
                     ppe_RunID = rc_runID r, ppe_Worker = rc_worker r\<rparr> r)
                  \<lparr>rc_lastProviderStatus := AList.update pubkey PipelineEventOK (rc_lastProviderStatus r)\<rparr>)
            else Some r)
         else
           (let stage = (if stage = [] then StageEndpointResolve else stage)
            in Some ((appendProviderEvent
                    \<lparr>ppe_ProviderPubkey = pubkey, ppe_Status = PipelineEventError, ppe_Stage = stage,
                     ppe_ReasonCode = Some (uint IPNotFound), ppe_ErrorMessage = truncateMessage (errorText resolveErr),
                     ppe_RunID = rc_runID r, ppe_Worker = rc_worker r\<rparr> r)
                  \<lparr>rc_lastProviderStatus := AList.update pubkey PipelineEventError (rc_lastProviderStatus r)\<rparr>)))"

definition reasonIsError :: "int option \<Rightarrow> bool" where
  "reasonIsError reason = (case reason of None \<Rightarrow> False | Some n \<Rightarrow> n \<noteq> uint ValidStorageProof)"

definition RecordBagTransition ::
  "contract_relation \<Rightarrow> reason_code \<Rightarrow> string \<Rightarrow> string \<Rightarrow> recorder option \<Rightarrow> recorder option" where
  "RecordBagTransition rel newReason stage details rec =
     (case rec of
        None \<Rightarrow> None
      | Some r \<Rightarrow>
         (let prevHadError = reasonIsError (rel_Reason rel);
              newHasError = IsErrorReason newReason
          in if \<not> prevHadError \<and> \<not> newHasError then Some r
             else if prevHadError \<and> \<not> newHasError
             then Some (appendBagEvent
                    \<lparr>bpe_ProviderPubkey = rel_ProviderPublicKey rel, bpe_ContractAddress = rel_Address rel,
                     bpe_BagID = rel_BagID rel, bpe_Status = PipelineEventOK,
                     bpe_Stage = (if stage = [] then StageRecovered else stage),
                     bpe_ReasonCode = Some (uint ValidStorageProof), bpe_ErrorMessage = None,
                     bpe_RunID = rc_runID r, bpe_Worker = rc_worker r\<rparr> r)
             else Some (appendBagEvent
                    \<lparr>bpe_ProviderPubkey = rel_ProviderPublicKey rel, bpe_ContractAddress = rel_Address rel,
                     bpe_BagID = rel_BagID rel, bpe_Status = PipelineEventError,
                     bpe_Stage = (if stage = [] then StageUnknown else stage),
                     bpe_ReasonCode = Some (uint newReason),
                     bpe_ErrorMessage = (if TrimSpace details \<noteq> [] then truncateMessage (Some details) else None),
                     bpe_RunID = rc_runID r, bpe_Worker = rc_worker r\<rparr> r)))"

definition RecordBagEndpointUnresolved :: "contract_relation \<Rightarrow> recorder option \<Rightarrow> recorder option" where
  "RecordBagEndpointUnresolved rel rec =
     RecordBagTransition rel IPNotFound StageEndpointUnresolved ''storage endpoint not resolved for RunChecks'' rec"

definition Flush ::
  "(provider_pipeline_event list \<Rightarrow> 's \<Rightarrow> go_error option \<times> 's) \<Rightarrow>
   (bag_pipeline_event list \<Rightarrow> 's \<Rightarrow> go_error option \<times> 's) \<Rightarrow> recorder option \<Rightarrow> 's \<Rightarrow> recorder option \<times> 's" where
  "Flush insertProvider insertBag rec db =
     (case rec of
        None \<Rightarrow> (None, db)
      | Some r \<Rightarrow>
         if \<not> rc_repo r then (Some r, db)
         else
          (let (r, db) = (if rc_providerEvents r \<noteq> []
                          then (r\<lparr>rc_providerEvents := []\<rparr>, snd (insertProvider (rc_providerEvents r) db)) else (r, db));
               (r, db) = (if rc_bagEvents r \<noteq> []
                          then (r\<lparr>rc_bagEvents := []\<rparr>, snd (insertBag (rc_bagEvents r) db)) else (r, db))
           in (Some r, db)))"

section \<open>Stages\<close>

lemma first_stage_hit: "st \<noteq> [] \<Longrightarrow> first_stage ((''stage='' @ st) # parts) = st"
  using TrimPrefix_append [of "''stage=''" st] by simp

lemma ascii_stage: "ascii_word st \<Longrightarrow> ascii_word (''stage='' @ st)"
  by (simp add: ascii_word_def)

lemma ParseStage_blank:
  assumes "ascii_word st" "st \<noteq> []"
  shows "ParseStageFromDetails (''stage='' @ st @ CHR '' '' # rest) = st"
proof -
  let ?w = "''stage='' @ st"
  have w: "ascii_word ?w" "?w \<noteq> []" using ascii_stage [OF assms(1)] by simp_all
  consider "TrimSpace (?w @ CHR '' '' # rest) = ?w"
    | rest' where "TrimSpace (?w @ CHR '' '' # rest) = ?w @ CHR '' '' # rest'"
    using TrimSpace_word_blank [OF w] by blast
  then show ?thesis
  proof cases
    case 1
    then show ?thesis
      using Fields_word_end [OF w] first_stage_hit [OF assms(2)] by (simp add: ParseStageFromDetails_def)
  next
    case 2
    then show ?thesis
      using Fields_word_blank [OF w, of rest'] first_stage_hit [OF assms(2)] by (auto simp: ParseStageFromDetails_def)
  qed
qed

lemma ParseStage_Nil [simp]: "ParseStageFromDetails [] = StageUnknown"
  by (simp add: ParseStageFromDetails_def)

text \<open>
  A stage put on an error by \<^verbatim>\<open>stageError\<close> is read back by \<^verbatim>\<open>resolveStageFromErr\<close>, also through
  further wrapping, and does not change the error's text.
\<close>

theorem stage_roundtrip:
  assumes "stage \<noteq> []"
  shows "resolveStageFromErr (map_option (ErrWrap p) (stageError stage (Some e))) = stage \<and>
    resolveStageFromErr (stageError stage (Some e)) = stage \<and>
    errorText (stageError stage (Some e)) = Some (err_Error e) \<and>
    resolveStageFromErr (stageError stage None) = StageUnknown"
  using assms by (simp add: resolveStageFromErr_def stageError_def errorText_def)

theorem stage_roundtrip_witness:
  "resolveStageFromErr (stageError StageOverlayStorageFallback (Some ErrDeadlineExceeded)) = StageOverlayStorageFallback"
  using stage_roundtrip [of StageOverlayStorageFallback "[]" ErrDeadlineExceeded]
  by (simp add: StageOverlayStorageFallback_def)

section \<open>Events of a run\<close>

definition record_resolves ::
  "(string \<times> string \<times> bool \<times> go_error option) list \<Rightarrow> recorder option \<Rightarrow> recorder option" where
  "record_resolves calls rec = fold (\<lambda>(pk, st, ok, err). RecordProviderResolve pk st ok err) calls rec"

definition events_of :: "string \<Rightarrow> recorder \<Rightarrow> provider_pipeline_event list" where
  "events_of pk r = filter (\<lambda>e. ppe_ProviderPubkey e = pk) (rc_providerEvents r)"

text \<open>An ok event follows an error, given the status before the first event.\<close>

fun ok_follows :: "pipeline_status option \<Rightarrow> provider_pipeline_event list \<Rightarrow> bool" where
  "ok_follows prev [] = True"
| "ok_follows prev (e # es) =
     ((ppe_Status e = PipelineEventOK \<longrightarrow> prev = Some PipelineEventError) \<and> ok_follows (Some (ppe_Status e)) es)"

definition status_after :: "pipeline_status option \<Rightarrow> provider_pipeline_event list \<Rightarrow> pipeline_status option" where
  "status_after prev es = (if es = [] then prev else Some (ppe_Status (last es)))"

lemma ok_follows_snoc:
  "ok_follows prev (es @ [e]) \<longleftrightarrow>
   ok_follows prev es \<and> (ppe_Status e = PipelineEventOK \<longrightarrow> status_after prev es = Some PipelineEventError)"
  by (induction es arbitrary: prev) (auto simp: status_after_def)

definition resolve_inv :: "pipeline_status option \<Rightarrow> string \<Rightarrow> recorder \<Rightarrow> bool" where
  "resolve_inv prev pk r \<longleftrightarrow>
     ok_follows prev (events_of pk r) \<and> map_of (rc_lastProviderStatus r) pk = status_after prev (events_of pk r)"

lemma RecordProviderResolve_inv:
  assumes "resolve_inv prev pk r"
  shows "\<exists>r'. RecordProviderResolve pk' st ok err (Some r) = Some r' \<and> resolve_inv prev pk r'"
  using assms
  by (auto simp: RecordProviderResolve_def resolve_inv_def events_of_def appendProviderEvent_def Let_def
      ok_follows_snoc status_after_def)

lemma record_resolves_inv:
  "resolve_inv prev pk r \<Longrightarrow> \<exists>r'. record_resolves calls (Some r) = Some r' \<and> resolve_inv prev pk r'"
proof (induction calls arbitrary: r)
  case (Cons call calls)
  obtain pk' st ok err where c: "call = (pk', st, ok, err)" by (cases call)
  obtain r1 where "RecordProviderResolve pk' st ok err (Some r) = Some r1" "resolve_inv prev pk r1"
    using RecordProviderResolve_inv [OF Cons.prems] by blast
  then show ?case using Cons.IH [of r1] by (simp add: record_resolves_def c)
qed (simp add: record_resolves_def)

text \<open>
  However resolutions succeed and fail during a run, the recorder reports a provider's
  recovery only when the event before it, in this run or as loaded from the database, is an error: the
  log never shows two recoveries in a row nor one without a failure.
\<close>

theorem resolve_events_alternate:
  assumes "rc_providerEvents r = []"
  shows "\<exists>r'. record_resolves calls (Some r) = Some r' \<and>
    ok_follows (map_of (rc_lastProviderStatus r) pk) (events_of pk r')"
proof -
  have "resolve_inv (map_of (rc_lastProviderStatus r) pk) pk r"
    using assms by (simp add: resolve_inv_def events_of_def status_after_def)
  from record_resolves_inv [OF this, of calls] show ?thesis by (auto simp: resolve_inv_def)
qed

theorem resolve_events_alternate_witness:
  "\<exists>r'. record_resolves [(''p'', [], False, Some ErrCanceled), (''p'', [], True, None), (''p'', [], True, None)]
        (Some (NewRecorder True ''run'' ''w'')) = Some r' \<and> ok_follows None (events_of ''p'' r')"
  using resolve_events_alternate [of "NewRecorder True ''run'' ''w''"
      "[(''p'', [], False, Some ErrCanceled), (''p'', [], True, None), (''p'', [], True, None)]" "''p''"]
  by (simp add: NewRecorder_def)

lemma truncateMessage_bounds:
  "truncateMessage (Some m) = Some t \<Longrightarrow> t \<noteq> [] \<and> length t \<le> 1024"
  by (auto simp: truncateMessage_def Let_def maxErrorMessageLen_def split: if_splits)

text \<open>
  A bag check leaves an event exactly when the bag had an error before or has one now: an ok
  event without message for a recovery, otherwise an error event with the new reason and a message
  of at most 1024 bytes, absent when there are no details.
\<close>

theorem bag_transition_events:
  "\<exists>r'. RecordBagTransition rel code stage details (Some r) = Some r' \<and>
     rc_providerEvents r' = rc_providerEvents r \<and>
     (if reasonIsError (rel_Reason rel) \<or> IsErrorReason code
      then \<exists>e. rc_bagEvents r' = rc_bagEvents r @ [e] \<and> bpe_ContractAddress e = rel_Address rel \<and>
        bpe_ReasonCode e = Some (uint code) \<and> bpe_Stage e \<noteq> [] \<and>
        (bpe_Status e = PipelineEventOK \<longleftrightarrow> \<not> IsErrorReason code) \<and>
        (case bpe_ErrorMessage e of None \<Rightarrow> TrimSpace details = [] \<or> \<not> IsErrorReason code
         | Some m \<Rightarrow> m \<noteq> [] \<and> length m \<le> 1024)
      else rc_bagEvents r' = rc_bagEvents r)"
proof -
  have t: "\<exists>m. truncateMessage (Some details) = Some m \<and> m \<noteq> [] \<and> length m \<le> 1024" if "TrimSpace details \<noteq> []"
    using that by (auto simp: truncateMessage_def Let_def maxErrorMessageLen_def)
  show ?thesis
  proof (cases "TrimSpace details = []")
    case True
    then show ?thesis
      by (auto simp: RecordBagTransition_def appendBagEvent_def Let_def IsErrorReason_def StageRecovered_def StageUnknown_def)
  next
    case False
    then show ?thesis using t
      by (auto simp: RecordBagTransition_def appendBagEvent_def Let_def IsErrorReason_def StageRecovered_def StageUnknown_def)
  qed
qed

definition failing_bag :: contract_relation where
  "failing_bag = \<lparr>rel_ProviderPublicKey = ''pk'', rel_ProviderAddress = ''EQp'', rel_Address = ''EQc'', rel_BagID = ''00'',
     rel_Size = 1, rel_Reason = Some 201\<rparr>"

theorem bag_transition_events_witness:
  "\<exists>r' e. RecordBagTransition failing_bag ValidStorageProof [] [] (Some (NewRecorder True ''run'' ''w'')) = Some r' \<and>
     rc_bagEvents r' = [e] \<and> bpe_Status e = PipelineEventOK"
  using bag_transition_events [of failing_bag ValidStorageProof "[]" "[]" "NewRecorder True ''run'' ''w''"]
  by (auto simp: failing_bag_def reasonIsError_def NewRecorder_def IsErrorReason_def reason_defs)

text \<open>
  A flush hands every buffered event to the repository once: a second flush writes nothing,
  whether or not the inserts of the first succeeded.
\<close>

theorem flush_once:
  "snd (Flush insP insB (fst (Flush insP insB (Some r) db)) db') = db' \<and>
   snd (Flush insP insB (Some r) db) =
     (if rc_repo r
      then (let db1 = (if rc_providerEvents r = [] then db else snd (insP (rc_providerEvents r) db))
            in if rc_bagEvents r = [] then db1 else snd (insB (rc_bagEvents r) db1))
      else db)"
  by (auto simp: Flush_def Let_def split: prod.splits if_splits)

end
