(* ===== verification/Shard.thy ===== *)
theory Shard
  imports Messages
begin

text \<open>
  \<^verbatim>\<open>coordinator/internal/workers/providersMaster/runchecks_shard.go\<close>: the distribution of provider
  batches over the agents.  \<^verbatim>\<open>sort.SliceStable\<close> with the source's comparison is the stable \<^const>\<open>sort_key\<close> on
  \<open>shard_rank\<close>, whose order puts more contracts first and breaks ties by key.  \<open>pickAgent\<close> returns
  \<open>None\<close> where the program would panic on an empty candidate list.
\<close>

datatype shard_rank = ShardRank nat string

instantiation shard_rank :: linorder
begin

fun less_shard_rank :: "shard_rank \<Rightarrow> shard_rank \<Rightarrow> bool" where
  "less_shard_rank (ShardRank c p) (ShardRank d q) \<longleftrightarrow> (if c \<noteq> d then c > d else p < q)"

definition less_eq_shard_rank :: "shard_rank \<Rightarrow> shard_rank \<Rightarrow> bool" where
  "less_eq_shard_rank x y \<longleftrightarrow> x = y \<or> x < y"

instance
proof
  fix x y z :: shard_rank
  show "x < y \<longleftrightarrow> x \<le> y \<and> \<not> y \<le> x"
    by (cases x; cases y) (auto simp: less_eq_shard_rank_def split: if_splits)
  show "x \<le> x" by (simp add: less_eq_shard_rank_def)
  show "x \<le> y \<Longrightarrow> y \<le> z \<Longrightarrow> x \<le> z"
    by (cases x; cases y; cases z) (auto simp: less_eq_shard_rank_def split: if_splits)
  show "x \<le> y \<Longrightarrow> y \<le> x \<Longrightarrow> x = y"
    by (cases x; cases y) (auto simp: less_eq_shard_rank_def split: if_splits)
  show "x \<le> y \<or> y \<le> x"
    by (cases x; cases y) (auto simp: less_eq_shard_rank_def split: if_splits)
qed

end

definition batch_pubkey :: "provider_batch option \<Rightarrow> string" where
  "batch_pubkey b = nil_or [] pb_ProviderPubkey b"

definition batch_bags :: "provider_batch option \<Rightarrow> nat" where
  "batch_bags b = nil_or 0 (\<lambda>p. length (pb_Contracts p)) b"

definition shard_order :: "provider_batch option list \<Rightarrow> provider_batch option list" where
  "shard_order providers = sort_key (\<lambda>b. ShardRank (batch_bags b) (batch_pubkey b)) providers"

record provider_assignment =
  pa_byEndpoint :: "(provider_batch list) go_map"
  pa_byProvider :: "string go_map"

fun least_loaded :: "int go_map \<Rightarrow> string \<Rightarrow> int \<Rightarrow> string list \<Rightarrow> string" where
  "least_loaded loads chosen minLoad [] = chosen"
| "least_loaded loads chosen minLoad (ep # eps) =
     (if go_get 0 loads ep < minLoad then least_loaded loads ep (go_get 0 loads ep) eps
      else least_loaded loads chosen minLoad eps)"

definition pickAgent :: "string list \<Rightarrow> int go_map \<Rightarrow> string \<Rightarrow> string option" where
  "pickAgent candidates loads stickyEndpoint =
     (if stickyEndpoint \<noteq> [] \<and> stickyEndpoint \<in> set candidates then Some stickyEndpoint
      else case candidates of
             [] \<Rightarrow> None
           | c # cs \<Rightarrow> Some (least_loaded loads c (go_get 0 loads c) cs))"

definition shard_candidates :: "string list \<Rightarrow> string \<Rightarrow> string list" where
  "shard_candidates endpoints excluded =
     (if excluded \<noteq> [] \<and> length endpoints > 1
      then (let filtered = filter (\<lambda>ep. ep \<noteq> excluded) endpoints
            in if filtered \<noteq> [] then filtered else endpoints)
      else endpoints)"

definition assign_one ::
  "string list \<Rightarrow> string go_map \<Rightarrow> string go_map \<Rightarrow> provider_batch \<Rightarrow> provider_assignment \<times> int go_map \<Rightarrow>
     (provider_assignment \<times> int go_map) option" where
  "assign_one endpoints sticky exclude batch st =
     (let (out, loads) = st;
          pubkey = pb_ProviderPubkey batch;
          bags = int (length (pb_Contracts batch))
      in case pickAgent (shard_candidates endpoints (go_get [] exclude pubkey)) loads (go_get [] sticky pubkey) of
           None \<Rightarrow> None
         | Some chosen \<Rightarrow>
            Some (\<lparr>pa_byEndpoint = AList.update chosen (go_get [] (pa_byEndpoint out) chosen @ [batch]) (pa_byEndpoint out),
                   pa_byProvider = AList.update pubkey chosen (pa_byProvider out)\<rparr>,
                  AList.update chosen (go_get 0 loads chosen + bags) loads))"

fun assign_loop ::
  "string list \<Rightarrow> string go_map \<Rightarrow> string go_map \<Rightarrow> provider_batch option list \<Rightarrow> provider_assignment \<times> int go_map \<Rightarrow>
     (provider_assignment \<times> int go_map) option" where
  "assign_loop endpoints sticky exclude [] st = Some st"
| "assign_loop endpoints sticky exclude (None # bs) st = assign_loop endpoints sticky exclude bs st"
| "assign_loop endpoints sticky exclude (Some b # bs) st =
     Option.bind (assign_one endpoints sticky exclude b st) (assign_loop endpoints sticky exclude bs)"

definition assign_start :: "string list \<Rightarrow> provider_assignment \<times> int go_map" where
  "assign_start endpoints =
     (\<lparr>pa_byEndpoint = build_map (\<lambda>ep. ep) (\<lambda>_. []) endpoints [], pa_byProvider = []\<rparr>,
      build_map (\<lambda>ep. ep) (\<lambda>_. 0) endpoints [])"

text \<open>A nil map reads like an empty one, so the two optional maps are plain maps.\<close>

definition assignProvidersToAgents ::
  "provider_batch option list \<Rightarrow> string list \<Rightarrow> string go_map \<Rightarrow> string go_map \<Rightarrow> provider_assignment option" where
  "assignProvidersToAgents providers endpoints sticky exclude =
     (if providers = [] \<or> endpoints = [] then Some \<lparr>pa_byEndpoint = [], pa_byProvider = []\<rparr>
      else map_option fst (assign_loop endpoints sticky exclude (shard_order providers) (assign_start endpoints)))"

section \<open>Picking an agent\<close>

lemma least_loaded_in: "least_loaded loads c m cs \<in> insert c (set cs)"
  by (induction cs arbitrary: c m) auto

lemma least_loaded_min:
  "e \<in> insert c (set cs) \<Longrightarrow>
   go_get 0 loads (least_loaded loads c (go_get 0 loads c) cs) \<le> go_get 0 loads e"
proof (induction cs arbitrary: c e)
  case (Cons d cs)
  have d: "go_get 0 loads (least_loaded loads d (go_get 0 loads d) cs) \<le> go_get 0 loads d"
    and c: "go_get 0 loads (least_loaded loads c (go_get 0 loads c) cs) \<le> go_get 0 loads c"
    using Cons.IH by simp_all
  show ?case using Cons.prems Cons.IH [of e c] Cons.IH [of e d] c d by (auto split: if_splits)
qed simp

lemma shard_candidates_sub: "set (shard_candidates endpoints ex) \<subseteq> set endpoints"
  by (auto simp: shard_candidates_def Let_def)

lemma shard_candidates_ne: "endpoints \<noteq> [] \<Longrightarrow> shard_candidates endpoints ex \<noteq> []"
  by (simp add: shard_candidates_def Let_def)

lemma shard_candidates_excluded:
  assumes "e \<in> set endpoints" "e \<noteq> ex" "ex \<noteq> []" "ex \<in> set endpoints"
  shows "ex \<notin> set (shard_candidates endpoints ex)"
proof -
  have "length endpoints > 1"
    using assms(1,2,4) by (metis One_nat_def length_0_conv less_one linorder_neqE_nat list.size(3) in_set_conv_nth not_less_eq)
  then show ?thesis using assms by (auto simp: shard_candidates_def Let_def filter_empty_conv)
qed

lemma pickAgent_total: "candidates \<noteq> [] \<Longrightarrow> \<exists>e. pickAgent candidates loads st = Some e"
  by (cases candidates) (simp_all add: pickAgent_def)

lemma pickAgent_in: "pickAgent candidates loads st = Some e \<Longrightarrow> e \<in> set candidates"
  using least_loaded_in [of loads "hd candidates" "go_get 0 loads (hd candidates)" "tl candidates"]
  by (cases candidates) (auto simp: pickAgent_def split: if_splits)

lemma pickAgent_sticky: "st \<noteq> [] \<Longrightarrow> st \<in> set candidates \<Longrightarrow> pickAgent candidates loads st = Some st"
  by (simp add: pickAgent_def)

lemma pickAgent_least:
  "pickAgent candidates loads [] = Some e \<Longrightarrow> f \<in> set candidates \<Longrightarrow> go_get 0 loads e \<le> go_get 0 loads f"
  by (cases candidates) (auto simp: pickAgent_def least_loaded_min)

section \<open>The loop\<close>

lemma assign_one_Some:
  assumes "endpoints \<noteq> []"
  obtains e where
    "pickAgent (shard_candidates endpoints (go_get [] exclude (pb_ProviderPubkey b))) (snd st)
       (go_get [] sticky (pb_ProviderPubkey b)) = Some e"
    "e \<in> set (shard_candidates endpoints (go_get [] exclude (pb_ProviderPubkey b)))" "e \<in> set endpoints"
    "assign_one endpoints sticky exclude b st =
       Some (\<lparr>pa_byEndpoint = AList.update e (go_get [] (pa_byEndpoint (fst st)) e @ [b]) (pa_byEndpoint (fst st)),
              pa_byProvider = AList.update (pb_ProviderPubkey b) e (pa_byProvider (fst st))\<rparr>,
             AList.update e (go_get 0 (snd st) e + int (length (pb_Contracts b))) (snd st))"
proof -
  obtain e where e: "pickAgent (shard_candidates endpoints (go_get [] exclude (pb_ProviderPubkey b))) (snd st)
       (go_get [] sticky (pb_ProviderPubkey b)) = Some e"
    using pickAgent_total [OF shard_candidates_ne [OF assms]] by blast
  show ?thesis
    by (rule that [OF e pickAgent_in [OF e]])
      (use pickAgent_in [OF e] shard_candidates_sub e in \<open>auto simp: assign_one_def Let_def case_prod_beta\<close>)
qed

text \<open>Induction over the loop, with the batches handled so far.\<close>

lemma assign_loop_induct:
  assumes "endpoints \<noteq> []" "Q ps st"
    and step: "\<And>ps b st st'. Q ps st \<Longrightarrow> b \<in> set (somes bs) \<Longrightarrow> assign_one endpoints sticky exclude b st = Some st' \<Longrightarrow> Q (ps @ [b]) st'"
  shows "\<exists>st'. assign_loop endpoints sticky exclude bs st = Some st' \<and> Q (ps @ somes bs) st'"
  using assms(2) step
proof (induction bs arbitrary: ps st)
  case (Cons x bs)
  show ?case
  proof (cases x)
    case None
    then show ?thesis using Cons by simp
  next
    case (Some b)
    obtain st' where st': "assign_one endpoints sticky exclude b st = Some st'"
      using assign_one_Some [OF assms(1)] by metis
    have "Q (ps @ [b]) st'" using Cons.prems(2) [OF Cons.prems(1) _ st'] Some by simp
    from Cons.IH [OF this] Cons.prems(2) show ?thesis using st' Some by simp
  qed
qed simp

lemma mset_somes_perm: "mset xs = mset ys \<Longrightarrow> mset (somes xs) = mset (somes ys)"
proof -
  have "mset (somes zs) = image_mset the (filter_mset (\<lambda>x. x \<noteq> None) (mset zs))" for zs :: "'a option list"
    by (induction zs) (auto simp: somes_def List.map_filter_def)
  then show "mset xs = mset ys \<Longrightarrow> mset (somes xs) = mset (somes ys)" by simp
qed

lemma mset_shard_order: "mset (somes (shard_order providers)) = mset (somes providers)"
  by (rule mset_somes_perm) (simp add: shard_order_def)

lemma concat_map_notin:
  "e \<notin> set eps \<Longrightarrow> concat (map (\<lambda>x. if e = x then c else f x) eps) = concat (map f eps)"
  by (induction eps) auto

lemma concat_map_update:
  assumes "distinct eps" "e \<in> set eps"
  shows "mset (concat (map (\<lambda>x. if e = x then f e @ [b] else f x) eps)) = mset (concat (map f eps)) + {#b#}"
  using assms
proof (induction eps)
  case (Cons x eps)
  then show ?case by (cases "e = x") (auto simp: concat_map_notin)
qed simp

definition shards :: "provider_assignment \<Rightarrow> string list \<Rightarrow> provider_batch list" where
  "shards out endpoints = concat (map (go_get [] (pa_byEndpoint out)) endpoints)"

definition placed :: "string list \<Rightarrow> provider_batch list \<Rightarrow> provider_assignment \<times> int go_map \<Rightarrow> bool" where
  "placed endpoints ps st \<longleftrightarrow>
     mset (shards (fst st) endpoints) = mset ps \<and> dom (map_of (pa_byEndpoint (fst st))) \<subseteq> set endpoints \<and>
     dom (map_of (pa_byProvider (fst st))) = pb_ProviderPubkey ` set ps \<and>
     (distinct (map pb_ProviderPubkey ps) \<longrightarrow>
       (\<forall>e. \<forall>b \<in> set (go_get [] (pa_byEndpoint (fst st)) e). map_of (pa_byProvider (fst st)) (pb_ProviderPubkey b) = Some e \<and> b \<in> set ps))"

lemma go_get_build_const: "go_get z m e = z \<Longrightarrow> go_get z (build_map (\<lambda>ep. ep) (\<lambda>_. z) eps m) e = z"
  by (induction eps arbitrary: m) simp_all

lemma start_empty: "go_get [] (pa_byEndpoint (fst (assign_start endpoints))) e = []" "go_get 0 (snd (assign_start endpoints)) e = 0"
  by (simp_all add: assign_start_def go_get_build_const)

lemma placed_start: "placed endpoints [] (assign_start endpoints)"
proof -
  have "shards (fst (assign_start endpoints)) eps = []" for eps
    by (simp add: shards_def start_empty)
  moreover have "dom (map_of (pa_byEndpoint (fst (assign_start endpoints)))) \<subseteq> set endpoints"
    by (simp add: assign_start_def dom_build_map)
  ultimately show ?thesis by (simp add: placed_def start_empty) (simp add: assign_start_def)
qed

lemma placed_step:
  assumes "distinct endpoints" "endpoints \<noteq> []" "placed endpoints ps st"
    "assign_one endpoints sticky exclude b st = Some st'"
  shows "placed endpoints (ps @ [b]) st'"
proof -
  obtain e where e: "e \<in> set endpoints"
    "st' = (\<lparr>pa_byEndpoint = AList.update e (go_get [] (pa_byEndpoint (fst st)) e @ [b]) (pa_byEndpoint (fst st)),
              pa_byProvider = AList.update (pb_ProviderPubkey b) e (pa_byProvider (fst st))\<rparr>,
             AList.update e (go_get 0 (snd st) e + int (length (pb_Contracts b))) (snd st))"
    using assign_one_Some [OF assms(2), of exclude b st sticky] assms(4) by (metis option.inject)
  have "mset (shards (fst st') endpoints) = mset (shards (fst st) endpoints) + {#b#}"
  proof -
    have "go_get [] (AList.update e (go_get [] (pa_byEndpoint (fst st)) e @ [b]) (pa_byEndpoint (fst st))) =
        (\<lambda>x. if e = x then go_get [] (pa_byEndpoint (fst st)) e @ [b] else go_get [] (pa_byEndpoint (fst st)) x)"
      by (rule ext) simp
    then show ?thesis
      using concat_map_update [OF assms(1) e(1), of "go_get [] (pa_byEndpoint (fst st))" b] by (simp add: shards_def e(2))
  qed
  then show ?thesis using assms(3) e
    by (auto simp: placed_def) (metis imageI)+
qed

lemma assign_cases:
  assumes "endpoints \<noteq> []" "Q [] (assign_start endpoints)"
    "\<And>ps b st st'. Q ps st \<Longrightarrow> b \<in> set (somes providers) \<Longrightarrow> assign_one endpoints sticky exclude b st = Some st' \<Longrightarrow> Q (ps @ [b]) st'"
  shows "\<exists>st. assignProvidersToAgents providers endpoints sticky exclude =
      Some (if providers = [] then \<lparr>pa_byEndpoint = [], pa_byProvider = []\<rparr> else fst st) \<and>
    Q (somes (shard_order providers)) st"
proof -
  have m: "set (somes (shard_order providers)) = set (somes providers)"
    using mset_shard_order by (metis set_mset_mset)
  have "\<exists>st. assign_loop endpoints sticky exclude (shard_order providers) (assign_start endpoints) = Some st \<and>
      Q ([] @ somes (shard_order providers)) st"
    by (rule assign_loop_induct [where Q = Q and ps = "[]"]) (use assms m in blast)+
  then show ?thesis using assms(1) by (auto simp: assignProvidersToAgents_def)
qed

text \<open>
  C11.  Sharding neither loses nor duplicates work and never panics: over the distinct endpoints the
  shards together hold exactly the batches that were passed in, every provider has an endpoint, and,
  when providers have distinct keys, a batch lies in the shard of the endpoint noted for its provider.
\<close>

theorem assign_partition:
  assumes "distinct endpoints" "endpoints \<noteq> []"
  shows "\<exists>out. assignProvidersToAgents providers endpoints sticky exclude = Some out \<and>
    mset (shards out endpoints) = mset (somes providers) \<and>
    dom (map_of (pa_byProvider out)) = pb_ProviderPubkey ` set (somes providers) \<and>
    (distinct (map pb_ProviderPubkey (somes providers)) \<longrightarrow>
      (\<forall>e. \<forall>b \<in> set (go_get [] (pa_byEndpoint out) e). map_of (pa_byProvider out) (pb_ProviderPubkey b) = Some e))"
proof -
  have "\<exists>st. assignProvidersToAgents providers endpoints sticky exclude =
      Some (if providers = [] then \<lparr>pa_byEndpoint = [], pa_byProvider = []\<rparr> else fst st) \<and>
      placed endpoints (somes (shard_order providers)) st"
    by (rule assign_cases [where Q = "placed endpoints"]) (use assms placed_start placed_step [OF assms] in blast)+
  then obtain st where st: "assignProvidersToAgents providers endpoints sticky exclude =
      Some (if providers = [] then \<lparr>pa_byEndpoint = [], pa_byProvider = []\<rparr> else fst st)"
    "placed endpoints (somes (shard_order providers)) st" by blast
  have m: "mset (somes (shard_order providers)) = mset (somes providers)" by (rule mset_shard_order)
  then have d: "set (somes (shard_order providers)) = set (somes providers)"
    "distinct (map pb_ProviderPubkey (somes (shard_order providers))) \<longleftrightarrow> distinct (map pb_ProviderPubkey (somes providers))"
    by (metis set_mset_mset, metis mset_map mset_eq_imp_distinct_iff)
  show ?thesis
  proof (cases "providers = []")
    case True
    then show ?thesis using st(1) by (simp add: shards_def)
  next
    case False
    then show ?thesis using st m d by (simp add: placed_def)
  qed
qed

definition shard_sample :: "provider_batch option list" where
  "shard_sample = map (\<lambda>(pk, n). Some \<lparr>pb_ProviderPubkey = pk, pb_ProviderAddress = pk, pb_StorageEndpoint = None,
     pb_Contracts = replicate n None\<rparr>) [(''a'', 1), (''b'', 3), (''c'', 2)]"

theorem assign_partition_witness:
  "\<exists>out. assignProvidersToAgents shard_sample [''x'', ''y''] [] [] = Some out \<and>
     mset (shards out [''x'', ''y'']) = mset (somes shard_sample)"
  using assign_partition [of "[''x'', ''y'']" shard_sample "[]" "[]"] by auto

definition chosen_ok :: "string list \<Rightarrow> string go_map \<Rightarrow> string go_map \<Rightarrow> provider_assignment \<Rightarrow> bool" where
  "chosen_ok endpoints sticky exclude out \<longleftrightarrow>
     (\<forall>pk e. map_of (pa_byProvider out) pk = Some e \<longrightarrow>
        e \<in> set (shard_candidates endpoints (go_get [] exclude pk)) \<and>
        (go_get [] sticky pk \<noteq> [] \<and> go_get [] sticky pk \<in> set (shard_candidates endpoints (go_get [] exclude pk)) \<longrightarrow>
           e = go_get [] sticky pk))"

lemma chosen_ok_step:
  assumes "endpoints \<noteq> []" "chosen_ok endpoints sticky exclude (fst st)"
    "assign_one endpoints sticky exclude b st = Some st'"
  shows "chosen_ok endpoints sticky exclude (fst st')"
proof -
  obtain e where e: "pickAgent (shard_candidates endpoints (go_get [] exclude (pb_ProviderPubkey b))) (snd st)
       (go_get [] sticky (pb_ProviderPubkey b)) = Some e"
    "e \<in> set (shard_candidates endpoints (go_get [] exclude (pb_ProviderPubkey b)))"
    "pa_byProvider (fst st') = AList.update (pb_ProviderPubkey b) e (pa_byProvider (fst st))"
    using assign_one_Some [OF assms(1), of exclude b st sticky] assms(3)
    by (metis (no_types, lifting) fst_conv option.inject provider_assignment.select_convs(2))
  show ?thesis using assms(2) e pickAgent_sticky by (auto simp: chosen_ok_def)
qed

text \<open>
  Every provider goes to one of the endpoints; on a retry it never goes back to the endpoint
  it is kept away from as long as there is another one; and the agent that last proved it gets it
  again unless that agent is the excluded one.
\<close>

theorem assign_respects_choice:
  assumes "assignProvidersToAgents providers endpoints sticky exclude = Some out" "endpoints \<noteq> []"
    "map_of (pa_byProvider out) pk = Some e"
  shows "e \<in> set endpoints \<and>
    (go_get [] exclude pk \<noteq> [] \<and> (\<exists>f \<in> set endpoints. f \<noteq> go_get [] exclude pk) \<longrightarrow> e \<noteq> go_get [] exclude pk) \<and>
    (go_get [] sticky pk \<in> set endpoints \<and> go_get [] sticky pk \<noteq> [] \<and> go_get [] sticky pk \<noteq> go_get [] exclude pk
      \<longrightarrow> e = go_get [] sticky pk)"
proof -
  have c0: "chosen_ok endpoints sticky exclude (fst (assign_start endpoints))"
    by (simp add: chosen_ok_def assign_start_def)
  have "\<exists>st :: provider_assignment \<times> int go_map. assignProvidersToAgents providers endpoints sticky exclude =
      Some (if providers = [] then \<lparr>pa_byEndpoint = [], pa_byProvider = []\<rparr> else fst st) \<and>
      chosen_ok endpoints sticky exclude (fst st)"
    by (rule assign_cases [where Q = "\<lambda>ps st. chosen_ok endpoints sticky exclude (fst st)"])
      (use assms(2) c0 chosen_ok_step [OF assms(2)] in blast)+
  then have c: "chosen_ok endpoints sticky exclude out" using assms(1) by (auto simp: chosen_ok_def split: if_splits)
  let ?x = "go_get [] exclude pk" and ?s = "go_get [] sticky pk"
  have sc: "?s \<in> set (shard_candidates endpoints ?x)" if "?s \<in> set endpoints" "?s \<noteq> ?x"
    using that by (auto simp: shard_candidates_def Let_def)
  have "?x \<notin> set (shard_candidates endpoints ?x)" if "?x \<noteq> []" "f \<in> set endpoints" "f \<noteq> ?x" for f
    using that shard_candidates_excluded [of f endpoints ?x] shard_candidates_sub by blast
  moreover have "e \<in> set (shard_candidates endpoints ?x)"
    "?s \<noteq> [] \<and> ?s \<in> set (shard_candidates endpoints ?x) \<longrightarrow> e = ?s"
    using c assms(3) unfolding chosen_ok_def by blast+
  ultimately show ?thesis using sc shard_candidates_sub by blast
qed

theorem assign_respects_choice_witness:
  "\<exists>out e. assignProvidersToAgents shard_sample [''x'', ''y''] [(''b'', ''x'')] [(''b'', ''x'')] = Some out \<and>
     map_of (pa_byProvider out) ''b'' = Some e \<and> e \<noteq> ''x''"
proof -
  have "map_option (\<lambda>out. map_of (pa_byProvider out) ''b'')
      (assignProvidersToAgents shard_sample [''x'', ''y''] [(''b'', ''x'')] [(''b'', ''x'')]) = Some (Some ''y'')"
    by code_simp
  then obtain out e where out: "assignProvidersToAgents shard_sample [''x'', ''y''] [(''b'', ''x'')] [(''b'', ''x'')] = Some out"
    and e: "map_of (pa_byProvider out) ''b'' = Some e" by auto
  show ?thesis using assign_respects_choice [OF out _ e] out e by (auto simp: go_get_def)
qed

definition balanced :: "string list \<Rightarrow> int \<Rightarrow> int go_map \<Rightarrow> bool" where
  "balanced endpoints bnd loads \<longleftrightarrow> (\<forall>e \<in> set endpoints. \<forall>f \<in> set endpoints. go_get 0 loads e \<le> go_get 0 loads f + bnd)"

definition load_inv :: "string list \<Rightarrow> int \<Rightarrow> provider_assignment \<times> int go_map \<Rightarrow> bool" where
  "load_inv endpoints bnd st \<longleftrightarrow>
     balanced endpoints bnd (snd st) \<and>
     (\<forall>e. go_get 0 (snd st) e = int (sum_list (map (length \<circ> pb_Contracts) (go_get [] (pa_byEndpoint (fst st)) e))))"

lemma load_inv_step:
  assumes "endpoints \<noteq> []" "load_inv endpoints bnd st" "int (length (pb_Contracts b)) \<le> bnd"
    "assign_one endpoints [] [] b st = Some st'"
  shows "load_inv endpoints bnd st'"
proof -
  let ?n = "int (length (pb_Contracts b))"
  obtain e where e: "pickAgent endpoints (snd st) [] = Some e" "e \<in> set endpoints"
    "st' = (\<lparr>pa_byEndpoint = AList.update e (go_get [] (pa_byEndpoint (fst st)) e @ [b]) (pa_byEndpoint (fst st)),
              pa_byProvider = AList.update (pb_ProviderPubkey b) e (pa_byProvider (fst st))\<rparr>,
             AList.update e (go_get 0 (snd st) e + ?n) (snd st))"
    using assign_one_Some [OF assms(1), of "[]" b st "[]"] assms(4)
    by (auto simp: shard_candidates_def)
  have lo: "go_get 0 (snd st) e \<le> go_get 0 (snd st) f" if "f \<in> set endpoints" for f
    using pickAgent_least [OF e(1) that] .
  have "0 \<le> ?n" by simp
  then have "balanced endpoints bnd (snd st')"
    using assms(2,3) lo e(2) by (force simp: load_inv_def balanced_def e(3))
  then show ?thesis using assms(2) by (simp add: load_inv_def e(3))
qed

text \<open>
  C12.  Without preferences the sharding is balanced: the numbers of contracts of any two agents
  differ by at most the largest batch.
\<close>

theorem assign_balanced:
  assumes "assignProvidersToAgents providers endpoints [] [] = Some out" "e \<in> set endpoints" "f \<in> set endpoints"
    "\<forall>b \<in> set (somes providers). length (pb_Contracts b) \<le> n"
  shows "sum_list (map (length \<circ> pb_Contracts) (go_get [] (pa_byEndpoint out) e)) \<le>
    sum_list (map (length \<circ> pb_Contracts) (go_get [] (pa_byEndpoint out) f)) + n"
proof -
  have ne: "endpoints \<noteq> []" using assms(2) by auto
  have l0: "load_inv endpoints (int n) (assign_start endpoints)"
    by (simp add: load_inv_def balanced_def start_empty)
  have "\<exists>st. assignProvidersToAgents providers endpoints [] [] =
      Some (if providers = [] then \<lparr>pa_byEndpoint = [], pa_byProvider = []\<rparr> else fst st) \<and> load_inv endpoints (int n) st"
    by (rule assign_cases [where Q = "\<lambda>ps st. load_inv endpoints (int n) st"])
      (use ne l0 load_inv_step [OF ne] assms(4) in force)+
  then obtain st where st: "out = (if providers = [] then \<lparr>pa_byEndpoint = [], pa_byProvider = []\<rparr> else fst st)"
    "load_inv endpoints (int n) st" using assms(1) by auto
  have le: "go_get 0 (snd st) e \<le> go_get 0 (snd st) f + int n"
    using st(2) assms(2,3) unfolding load_inv_def balanced_def by blast
  have eq: "go_get 0 (snd st) x = int (sum_list (map (length \<circ> pb_Contracts) (go_get [] (pa_byEndpoint (fst st)) x)))" for x
    using st(2) unfolding load_inv_def by blast
  show ?thesis using st(1) le [unfolded eq] by auto
qed

theorem assign_balanced_witness:
  "\<exists>out. assignProvidersToAgents shard_sample [''x'', ''y''] [] [] = Some out \<and>
     sum_list (map (length \<circ> pb_Contracts) (go_get [] (pa_byEndpoint out) ''x'')) \<le>
     sum_list (map (length \<circ> pb_Contracts) (go_get [] (pa_byEndpoint out) ''y'')) + 3"
proof -
  have "assignProvidersToAgents shard_sample [''x'', ''y''] [] [] \<noteq> None" by code_simp
  then obtain out where out: "assignProvidersToAgents shard_sample [''x'', ''y''] [] [] = Some out" by blast
  show ?thesis using assign_balanced [OF out, of "''x''" "''y''" 3] out by (auto simp: shard_sample_def)
qed

end
