(* ===== verification/Merge.thy ===== *)
theory Merge
  imports AgentRpc Recorder Shard
begin

text \<open>
  \<^verbatim>\<open>coordinator/internal/workers/providersMaster\<close>: the request that a storage-proof pass sends to the
  agents, the merge of their answers (\<^verbatim>\<open>worker.go\<close>), and the choice of what is written to the database
  after the main pass and after the retry (\<^verbatim>\<open>storeproof_commit.go\<close>).  A set kept as a Go map is a
  \<^typ>\<open>unit go_map\<close>.
\<close>

definition contractRelationKey :: "contract_relation \<Rightarrow> string" where
  "contractRelationKey sc = rel_ProviderAddress sc @ ''|'' @ rel_Address sc"

record merged_contract_check =
  mc_Check :: contract_proofs_check
  mc_Details :: string
  mc_Stage :: string

record run_checks_timeouts =
  rct_PingMs :: "32 word"
  rct_RldpMs :: "32 word"
  rct_TotalMs :: "32 word"
  rct_StorageRatesQueryMs :: "32 word"

section \<open>The request\<close>

definition group_contracts :: "contract_relation list \<Rightarrow> (contract_relation list) go_map" where
  "group_contracts scs =
     fold (\<lambda>sc m. AList.update (rel_ProviderPublicKey sc) (go_get [] m (rel_ProviderPublicKey sc) @ [sc]) m) scs []"

definition endpoint_usable :: "provider_ip go_map \<Rightarrow> string \<Rightarrow> bool" where
  "endpoint_usable ips pubkey \<longleftrightarrow>
     (case map_of ips pubkey of
        None \<Rightarrow> False
      | Some ip \<Rightarrow> TrimSpace (ip_IP (pip_Storage ip)) \<noteq> [] \<and> ip_Port (pip_Storage ip) > 0 \<and>
          length (ip_PublicKey (pip_Storage ip)) = 32)"

definition provider_request :: "provider_ip go_map \<Rightarrow> string \<Rightarrow> contract_relation list \<Rightarrow> provider_batch" where
  "provider_request ips pubkey contracts =
     (let ip = the (map_of ips pubkey)
      in \<lparr>pb_ProviderPubkey = pubkey, pb_ProviderAddress = rel_ProviderAddress (contracts ! 0),
          pb_StorageEndpoint = Some \<lparr>ep_Ip = ip_IP (pip_Storage ip), ep_Port = ip_Port (pip_Storage ip),
                                     ep_AdnlPubkey = ip_PublicKey (pip_Storage ip)\<rparr>,
          pb_Contracts = map (\<lambda>c. Some \<lparr>cr_ContractAddress = rel_Address c, cr_BagId = rel_BagID c\<rparr>) contracts\<rparr>)"

definition mark_keys :: "contract_relation list \<Rightarrow> unit go_map \<Rightarrow> unit go_map" where
  "mark_keys contracts keys = fold (\<lambda>c. AList.update (contractRelationKey c) ()) contracts keys"

fun build_providers ::
  "provider_ip go_map \<Rightarrow> (contract_relation list) go_map \<Rightarrow> string list \<Rightarrow> provider_batch list \<times> unit go_map \<Rightarrow>
     provider_batch list \<times> unit go_map" where
  "build_providers ips groups [] acc = acc"
| "build_providers ips groups (pubkey # pks) (providers, keys) =
     (if \<not> endpoint_usable ips pubkey then build_providers ips groups pks (providers, keys)
      else (let contracts = go_get [] groups pubkey
            in build_providers ips groups pks
                 (providers @ [provider_request ips pubkey contracts], mark_keys contracts keys)))"

definition buildRunChecksRPCRequest ::
  "run_checks_timeouts \<Rightarrow> order \<Rightarrow> time \<Rightarrow> string \<Rightarrow> contract_relation list \<Rightarrow> provider_ip go_map \<Rightarrow>
     run_checks_request \<times> nat \<times> unit go_map" where
  "buildRunChecksRPCRequest timeouts ord nowUnix jobID storageContracts ips =
     (let groups = group_contracts storageContracts;
          (providers, checkedKeys) = build_providers ips groups (range_keys ord groups) ([], []);
          jobID = (if TrimSpace jobID = [] then ''storeproof-'' @ Itoa nowUnix else jobID)
      in (\<lparr>rq_JobId = jobID, rq_Providers = map Some providers,
           rq_Timeouts = Some \<lparr>ct_PingMs = rct_PingMs timeouts, ct_RldpMs = rct_RldpMs timeouts,
                               ct_TotalMs = rct_TotalMs timeouts\<rparr>\<rparr>,
          length providers, checkedKeys))"

section \<open>The merge\<close>

record selected_result =
  sel_reason :: reason_code
  sel_hasValue :: bool
  sel_valid :: bool
  sel_details :: string
  sel_stage :: string

definition no_result :: selected_result where
  "no_result = \<lparr>sel_reason = 0, sel_hasValue = False, sel_valid = False, sel_details = [], sel_stage = []\<rparr>"

definition row_merge_key :: "contract_check_result \<Rightarrow> string" where
  "row_merge_key row = ccr_ProviderAddress row @ ''|'' @ ccr_ContractAddress row"

definition select_row :: "contract_check_result \<Rightarrow> selected_result" where
  "select_row row =
     (let reasonCode = reasonFromProto (ccr_ReasonCode row)
      in \<lparr>sel_reason = reasonCode, sel_hasValue = True, sel_valid = (reasonCode = ValidStorageProof),
          sel_details = ccr_Details row, sel_stage = ParseStageFromDetails (ccr_Details row)\<rparr>)"

definition merge_row :: "contract_check_result \<Rightarrow> selected_result go_map \<Rightarrow> selected_result go_map" where
  "merge_row row merged =
     (let key = row_merge_key row;
          current = go_get no_result merged key
      in if \<not> sel_hasValue current then AList.update key (select_row row) merged
         else if sel_valid current then merged
         else if reasonFromProto (ccr_ReasonCode row) = ValidStorageProof
         then AList.update key (select_row row) merged
         else merged)"

text \<open>A response is an endpoint with the message, nil possible; the rows of all responses in turn.\<close>

definition response_rows :: "(string \<times> run_checks_response option) list \<Rightarrow> contract_check_result list" where
  "response_rows responses = concat (map (\<lambda>(_, resp). somes (nil_or [] rs_Results resp)) responses)"

definition merged_entry :: "selected_result go_map \<Rightarrow> contract_relation \<Rightarrow> merged_contract_check" where
  "merged_entry merged sc =
     (let chosen = go_get no_result merged (contractRelationKey sc);
          (reasonCode, details, stage) =
            (if sel_hasValue chosen then (sel_reason chosen, sel_details chosen, sel_stage chosen)
             else (NotFound, [], StageAgentRunChecksNoResult))
      in \<lparr>mc_Check = \<lparr>cpc_ContractAddress = rel_Address sc, cpc_ProviderAddress = rel_ProviderAddress sc,
                      cpc_Reason = reasonCode\<rparr>,
          mc_Details = details, mc_Stage = stage\<rparr>)"

fun merge_contracts ::
  "selected_result go_map \<Rightarrow> contract_relation list \<Rightarrow> merged_contract_check go_map \<times> nat \<Rightarrow> merged_contract_check go_map \<times> nat" where
  "merge_contracts merged [] acc = acc"
| "merge_contracts merged (sc # scs) (byKey, valid) =
     (let entry = merged_entry merged sc
      in merge_contracts merged scs
           (AList.update (contractRelationKey sc) entry byKey,
            if cpc_Reason (mc_Check entry) = ValidStorageProof then valid + 1 else valid))"

definition mergeRunChecksResponses ::
  "contract_relation list \<Rightarrow> (string \<times> run_checks_response option) list \<Rightarrow> merged_contract_check go_map \<times> nat" where
  "mergeRunChecksResponses storageContracts responses =
     merge_contracts (fold merge_row (response_rows responses) []) storageContracts ([], 0)"

section \<open>The merge of storage rates\<close>

definition merge_rates_row ::
  "storage_rates_result \<Rightarrow> (storage_rates_result \<times> bool) go_map \<Rightarrow> (storage_rates_result \<times> bool) go_map" where
  "merge_rates_row row m =
     (let key = TrimSpace (sr_ProviderPubkey row)
      in if key = [] then m
         else case map_of m key of
                None \<Rightarrow> AList.update key (row, sr_Ok row) m
              | Some (_, valid) \<Rightarrow>
                 if valid then m else if sr_Ok row then AList.update key (row, True) m else m)"

definition rates_rows :: "(string \<times> storage_rates_response option) list \<Rightarrow> storage_rates_result list" where
  "rates_rows responses = concat (map (\<lambda>(_, resp). somes (nil_or [] rrs_Results resp)) responses)"

definition mergeStorageRatesResponses ::
  "string list \<Rightarrow> (string \<times> storage_rates_response option) list \<Rightarrow> storage_rates_result go_map" where
  "mergeStorageRatesResponses pubkeys responses =
     (let byPubkey = fold merge_rates_row (rates_rows responses) []
      in fold (\<lambda>pk out. case map_of byPubkey pk of None \<Rightarrow> out | Some (row, _) \<Rightarrow> AList.update pk row out) pubkeys [])"

section \<open>What is committed\<close>

definition storeProofRetryBuffer :: duration where "storeProofRetryBuffer = 300000000000"

definition bag_check_entry ::
  "unit go_map \<Rightarrow> merged_contract_check go_map \<Rightarrow> contract_relation \<Rightarrow> merged_contract_check" where
  "bag_check_entry checkedKeys merged sc =
     (let key = contractRelationKey sc
      in if map_of checkedKeys key = None
         then \<lparr>mc_Check = \<lparr>cpc_ContractAddress = rel_Address sc, cpc_ProviderAddress = rel_ProviderAddress sc,
                           cpc_Reason = IPNotFound\<rparr>,
               mc_Details = ''storage endpoint not resolved for RunChecks'', mc_Stage = StageEndpointUnresolved\<rparr>
         else case map_of merged key of
                Some row \<Rightarrow> row
              | None \<Rightarrow>
                 \<lparr>mc_Check = \<lparr>cpc_ContractAddress = rel_Address sc, cpc_ProviderAddress = rel_ProviderAddress sc,
                              cpc_Reason = NotFound\<rparr>,
                  mc_Details = ''agent did not return result for contract'',
                  mc_Stage = StageAgentRunChecksNoResult\<rparr>)"

definition buildBagCheckResults ::
  "contract_relation list \<Rightarrow> unit go_map \<Rightarrow> merged_contract_check go_map \<Rightarrow> merged_contract_check go_map" where
  "buildBagCheckResults storageContracts checkedKeys merged =
     build_map contractRelationKey (bag_check_entry checkedKeys merged) storageContracts []"

definition zero_check :: merged_contract_check where
  "zero_check = \<lparr>mc_Check = \<lparr>cpc_ContractAddress = [], cpc_ProviderAddress = [], cpc_Reason = 0\<rparr>, mc_Details = [], mc_Stage = []\<rparr>"

definition commit_now :: "merged_contract_check \<Rightarrow> bool" where
  "commit_now row \<longleftrightarrow> cpc_Reason (mc_Check row) = ValidStorageProof \<or> \<not> isRetriableReason (cpc_Reason (mc_Check row))"

fun select_main ::
  "merged_contract_check go_map \<Rightarrow> string list \<Rightarrow> contract_proofs_check list \<times> unit go_map \<Rightarrow> contract_proofs_check list \<times> unit go_map" where
  "select_main results [] acc = acc"
| "select_main results (key # keys) (toCommit, pendingKeys) =
     (let row = go_get zero_check results key
      in if commit_now row then select_main results keys (toCommit @ [mc_Check row], pendingKeys)
         else select_main results keys (toCommit, AList.update key () pendingKeys))"

definition selectMainProofsCommit :: "order \<Rightarrow> merged_contract_check go_map \<Rightarrow> contract_proofs_check list \<times> unit go_map" where
  "selectMainProofsCommit ord results = select_main results (range_keys ord results) ([], [])"

text \<open>The retry's results are nil when there was no retry.\<close>

definition final_row ::
  "merged_contract_check go_map \<Rightarrow> (merged_contract_check go_map) option \<Rightarrow> string \<Rightarrow> contract_proofs_check option" where
  "final_row mainResults retryMerged key =
     (case Option.bind retryMerged (\<lambda>m. map_of m key) of
        Some row \<Rightarrow> Some (mc_Check row)
      | None \<Rightarrow> map_option mc_Check (map_of mainResults key))"

definition selectFinalProofsCommit ::
  "order \<Rightarrow> merged_contract_check go_map \<Rightarrow> unit go_map \<Rightarrow> (merged_contract_check go_map) option \<Rightarrow> contract_proofs_check list" where
  "selectFinalProofsCommit ord mainResults pendingKeys retryMerged =
     (if pendingKeys = [] then []
      else List.map_filter (final_row mainResults retryMerged) (range_keys ord pendingKeys))"

definition pendingContracts :: "contract_relation list \<Rightarrow> unit go_map \<Rightarrow> contract_relation list" where
  "pendingContracts storageContracts pendingKeys =
     (if pendingKeys = [] then []
      else filter (\<lambda>sc. map_of pendingKeys (contractRelationKey sc) \<noteq> None) storageContracts)"

section \<open>Keys\<close>

definition bar_free :: "contract_relation list \<Rightarrow> bool" where
  "bar_free scs \<longleftrightarrow> (\<forall>sc \<in> set scs. CHR ''|'' \<notin> set (rel_ProviderAddress sc))"

lemma append_bar_inj:
  "x \<notin> set a \<Longrightarrow> x \<notin> set b \<Longrightarrow> a @ x # c = b @ x # d \<Longrightarrow> a = b \<and> c = d"
proof (induction a arbitrary: b)
  case Nil
  then show ?case by (cases b) auto
next
  case (Cons y a)
  then show ?case by (cases b) auto
qed

lemma contractRelationKey_inj:
  assumes "bar_free scs" "sc \<in> set scs" "sc' \<in> set scs" "contractRelationKey sc = contractRelationKey sc'"
  shows "rel_ProviderAddress sc = rel_ProviderAddress sc' \<and> rel_Address sc = rel_Address sc'"
  using assms append_bar_inj [of "CHR ''|''" "rel_ProviderAddress sc" "rel_ProviderAddress sc'"]
  by (auto simp: bar_free_def contractRelationKey_def)

section \<open>Merging keeps the best answer\<close>

definition row_valid :: "contract_check_result \<Rightarrow> bool" where
  "row_valid row \<longleftrightarrow> reasonFromProto (ccr_ReasonCode row) = ValidStorageProof"

text \<open>The reference for both merges: the first good element, else the first element.\<close>

definition first_best :: "('a \<Rightarrow> bool) \<Rightarrow> 'a list \<Rightarrow> 'a option" where
  "first_best good xs = (case find good xs of Some x \<Rightarrow> Some x | None \<Rightarrow> (case xs of [] \<Rightarrow> None | x # _ \<Rightarrow> Some x))"

lemma first_best_Nil [simp]: "first_best good [] = None"
  by (simp add: first_best_def)

lemma first_best_snoc:
  "first_best good (xs @ [r]) =
     (case first_best good xs of
        None \<Rightarrow> Some r
      | Some s \<Rightarrow> if good s then Some s else if good r then Some r else Some s)"
proof -
  have f: "find good (xs @ [r]) = (case find good xs of Some s \<Rightarrow> Some s | None \<Rightarrow> if good r then Some r else None)"
    by (induction xs) auto
  show ?thesis
  proof (cases "find good xs")
    case None
    then have n: "\<not> good x" if "x \<in> set xs" for x using that by (simp add: find_None_iff)
    show ?thesis
    proof (cases xs)
      case (Cons y ys)
      have "first_best good xs = Some y" using None Cons by (simp add: first_best_def)
      moreover have "\<not> good y" using n Cons by simp
      moreover have "first_best good (xs @ [r]) = (if good r then Some r else Some y)"
        using f None Cons by (simp add: first_best_def)
      ultimately show ?thesis by simp
    qed (simp add: first_best_def)
  next
    case (Some y)
    then have "good y" by (auto simp: find_Some_iff)
    then show ?thesis using f Some by (simp add: first_best_def)
  qed
qed

lemma first_best_cases:
  "first_best good xs = None \<longleftrightarrow> xs = []" "first_best good xs = Some r \<Longrightarrow> r \<in> set xs"
  "first_best good xs = Some r \<Longrightarrow> good r \<longleftrightarrow> (\<exists>x \<in> set xs. good x)"
proof -
  show "first_best good xs = None \<longleftrightarrow> xs = []" by (auto simp: first_best_def split: option.splits list.splits)
  show "first_best good xs = Some r \<Longrightarrow> r \<in> set xs"
    by (auto simp: first_best_def find_Some_iff split: option.splits list.splits)
  show "first_best good xs = Some r \<Longrightarrow> good r \<longleftrightarrow> (\<exists>x \<in> set xs. good x)"
    by (auto simp: first_best_def find_Some_iff find_None_iff split: option.splits list.splits)
qed

lemma sel_select_row [simp]: "sel_hasValue (select_row r)" "sel_valid (select_row r) = row_valid r"
  by (simp_all add: select_row_def row_valid_def Let_def)

lemma merge_rows_lookup:
  "map_of (fold merge_row rows []) key = map_option select_row (first_best row_valid (filter (\<lambda>r. row_merge_key r = key) rows))"
proof (induction rows rule: rev_induct)
  case Nil
  then show ?case by simp
next
  case (snoc r rows)
  let ?m = "fold merge_row rows []" and ?b = "first_best row_valid (filter (\<lambda>r. row_merge_key r = key) rows)"
  have cur: "go_get no_result ?m key = (case ?b of None \<Rightarrow> no_result | Some b \<Rightarrow> select_row b)"
    by (simp add: go_get_def snoc split: option.splits)
  have fold: "fold merge_row (rows @ [r]) [] = merge_row r ?m" by simp
  show ?case
  proof (cases "row_merge_key r = key")
    case True
    have "map_of (merge_row r ?m) key =
        (if \<not> sel_hasValue (go_get no_result ?m key) \<or> (\<not> sel_valid (go_get no_result ?m key) \<and> row_valid r)
         then Some (select_row r) else map_of ?m key)"
      using True by (simp add: merge_row_def [of r ?m] Let_def row_valid_def)
    moreover have "\<not> sel_hasValue no_result" by (simp add: no_result_def)
    ultimately show ?thesis using snoc True
      by (simp only: fold) (simp add: cur first_best_snoc split: option.splits)
  next
    case False
    then have "map_of (merge_row r ?m) key = map_of ?m key" by (simp add: merge_row_def [of r ?m] Let_def)
    then show ?thesis using snoc False by (simp only: fold) simp
  qed
qed

lemma merge_contracts_map:
  "fst (merge_contracts merged scs (byKey, v)) = build_map contractRelationKey (merged_entry merged) scs byKey \<and>
   snd (merge_contracts merged scs (byKey, v)) =
     v + length (filter (\<lambda>sc. cpc_Reason (mc_Check (merged_entry merged sc)) = ValidStorageProof) scs)"
  by (induction scs arbitrary: byKey v) (auto simp: Let_def)

lemma merged_entry_best:
  defines "merged rows \<equiv> fold merge_row rows []"
  shows "merged_entry (merged rows) sc =
    (case first_best row_valid (filter (\<lambda>r. row_merge_key r = contractRelationKey sc) rows) of
       None \<Rightarrow> \<lparr>mc_Check = \<lparr>cpc_ContractAddress = rel_Address sc, cpc_ProviderAddress = rel_ProviderAddress sc,
                 cpc_Reason = NotFound\<rparr>, mc_Details = [], mc_Stage = StageAgentRunChecksNoResult\<rparr>
     | Some r \<Rightarrow> \<lparr>mc_Check = \<lparr>cpc_ContractAddress = rel_Address sc, cpc_ProviderAddress = rel_ProviderAddress sc,
                 cpc_Reason = reasonFromProto (ccr_ReasonCode r)\<rparr>,
                 mc_Details = ccr_Details r, mc_Stage = ParseStageFromDetails (ccr_Details r)\<rparr>)"
  by (simp add: merged_entry_def Let_def go_get_def merge_rows_lookup merged_def no_result_def select_row_def
      split: option.splits)

lemma merged_entry_cong:
  "rel_ProviderAddress sc = rel_ProviderAddress sc' \<Longrightarrow> rel_Address sc = rel_Address sc' \<Longrightarrow>
   merged_entry m sc = merged_entry m sc'"
  by (simp add: merged_entry_def contractRelationKey_def)

lemma merge_lookup:
  assumes "bar_free scs" "sc \<in> set scs"
  shows "map_of (fst (mergeRunChecksResponses scs responses)) (contractRelationKey sc) =
    Some (merged_entry (fold merge_row (response_rows responses) []) sc)"
  unfolding mergeRunChecksResponses_def merge_contracts_map [THEN conjunct1]
proof (rule build_map_inj [OF assms(2)])
  fix y assume "y \<in> set scs" "contractRelationKey y = contractRelationKey sc"
  then show "merged_entry (fold merge_row (response_rows responses) []) y =
      merged_entry (fold merge_row (response_rows responses) []) sc"
    using contractRelationKey_inj [OF assms(1)] assms(2) by (intro merged_entry_cong) blast+
qed

text \<open>
  C4.  Merging the agents' answers loses no proof and invents none: a contract is valid in the
  merged result exactly when some agent returned a valid row for it, whatever other agents say and in
  whatever order they answer; otherwise it carries reason, details and stage of one returned row, or
  \<^verbatim>\<open>NotFound\<close> when no agent returned one.
\<close>

theorem merge_valid_wins:
  assumes "bar_free scs" "sc \<in> set scs"
  shows "\<exists>row. map_of (fst (mergeRunChecksResponses scs responses)) (contractRelationKey sc) = Some row \<and>
    cpc_ContractAddress (mc_Check row) = rel_Address sc \<and> cpc_ProviderAddress (mc_Check row) = rel_ProviderAddress sc \<and>
    (cpc_Reason (mc_Check row) = ValidStorageProof \<longleftrightarrow>
      (\<exists>r \<in> set (response_rows responses). row_merge_key r = contractRelationKey sc \<and> ccr_ReasonCode r = 1)) \<and>
    (if \<exists>r \<in> set (response_rows responses). row_merge_key r = contractRelationKey sc
     then \<exists>r \<in> set (response_rows responses). row_merge_key r = contractRelationKey sc \<and>
       cpc_Reason (mc_Check row) = reasonFromProto (ccr_ReasonCode r) \<and> mc_Details row = ccr_Details r \<and>
       mc_Stage row = ParseStageFromDetails (ccr_Details r)
     else cpc_Reason (mc_Check row) = NotFound \<and> mc_Stage row = StageAgentRunChecksNoResult)"
proof -
  let ?rows = "filter (\<lambda>r. row_merge_key r = contractRelationKey sc) (response_rows responses)"
  have nv: "NotFound \<noteq> ValidStorageProof" by (simp add: reason_defs)
  have v: "row_valid x \<longleftrightarrow> ccr_ReasonCode x = 1" for x by (simp add: row_valid_def reasonFromProto_valid_iff)
  show ?thesis
  proof (cases "first_best row_valid ?rows")
    case None
    then have "?rows = []" by (simp add: first_best_cases(1))
    then have "\<not> (\<exists>r \<in> set (response_rows responses). row_merge_key r = contractRelationKey sc)"
      by (simp add: filter_empty_conv)
    then show ?thesis using None nv by (simp add: merge_lookup [OF assms] merged_entry_best)
  next
    case (Some r)
    then have r: "r \<in> set (response_rows responses)" "row_merge_key r = contractRelationKey sc"
      using first_best_cases(2) by fastforce+
    have "row_valid r \<longleftrightarrow> (\<exists>x \<in> set (response_rows responses). row_merge_key x = contractRelationKey sc \<and> row_valid x)"
      using first_best_cases(3) [OF Some] by auto
    then show ?thesis using Some r v
      by (auto simp: merge_lookup [OF assms] merged_entry_best reasonFromProto_valid_iff)
  qed
qed

definition sample_relation :: contract_relation where
  "sample_relation = \<lparr>rel_ProviderPublicKey = ''pk'', rel_ProviderAddress = ''EQp'', rel_Address = ''EQc'',
     rel_BagID = ''00'', rel_Size = 10, rel_Reason = None\<rparr>"

definition sample_row :: "proto_reason \<Rightarrow> string \<Rightarrow> contract_check_result" where
  "sample_row code details = \<lparr>ccr_ProviderPubkey = ''pk'', ccr_ProviderAddress = ''EQp'', ccr_ContractAddress = ''EQc'',
     ccr_BagId = ''00'', ccr_ReasonCode = code, ccr_LatencyMs = 0, ccr_Details = details\<rparr>"

definition sample_response :: "contract_check_result list \<Rightarrow> string \<times> run_checks_response option" where
  "sample_response rows = (''agent'', Some \<lparr>rs_JobId = ''j'', rs_AgentId = ''agent'', rs_Location = ''eu'', rs_StartedAtUnix = 0,
     rs_FinishedAtUnix = 1, rs_Results = map Some rows, rs_Warnings = []\<rparr>)"

theorem merge_valid_wins_witness:
  "\<exists>row. map_of (fst (mergeRunChecksResponses [sample_relation]
        [sample_response [sample_row 201 ''stage=piece_ping ''], sample_response [sample_row 1 []], (''down'', None)]))
      (contractRelationKey sample_relation) = Some row \<and> cpc_Reason (mc_Check row) = ValidStorageProof"
proof -
  have "bar_free [sample_relation]" by (simp add: bar_free_def sample_relation_def)
  from merge_valid_wins [OF this, of sample_relation
      "[sample_response [sample_row 201 ''stage=piece_ping ''], sample_response [sample_row 1 []], (''down'', None)]"]
  show ?thesis
    by (auto simp: response_rows_def sample_response_def sample_row_def row_merge_key_def contractRelationKey_def sample_relation_def)
qed

text \<open>The number reported as valid is the number of contracts whose merged row is valid.\<close>

lemma merge_valid_count:
  "snd (mergeRunChecksResponses scs responses) =
   length (filter (\<lambda>sc. cpc_Reason (mc_Check (merged_entry (fold merge_row (response_rows responses) []) sc)) = ValidStorageProof) scs)"
  by (simp add: mergeRunChecksResponses_def merge_contracts_map [THEN conjunct2])

section \<open>Storage rates\<close>

lemma merge_rates_lookup:
  assumes "key \<noteq> []"
  shows "map_of (fold merge_rates_row rows []) key =
    map_option (\<lambda>r. (r, sr_Ok r)) (first_best sr_Ok (filter (\<lambda>r. TrimSpace (sr_ProviderPubkey r) = key) rows))"
proof (induction rows rule: rev_induct)
  case Nil
  then show ?case by simp
next
  case (snoc r rows)
  let ?m = "fold merge_rates_row rows []" and ?b = "first_best sr_Ok (filter (\<lambda>r. TrimSpace (sr_ProviderPubkey r) = key) rows)"
  have fold: "fold merge_rates_row (rows @ [r]) [] = merge_rates_row r ?m" by simp
  show ?case
  proof (cases "TrimSpace (sr_ProviderPubkey r) = key")
    case True
    then show ?thesis using assms snoc
      by (simp only: fold) (auto simp: merge_rates_row_def [of r ?m] Let_def first_best_snoc split: option.splits)
  next
    case False
    then have "map_of (merge_rates_row r ?m) key = map_of ?m key"
      by (auto simp: merge_rates_row_def [of r ?m] Let_def split: option.splits)
    then show ?thesis using snoc False by (simp only: fold) simp
  qed
qed

lemma pick_rates_lookup:
  "map_of (fold (\<lambda>pk out. case map_of m pk of None \<Rightarrow> out | Some (row, _) \<Rightarrow> AList.update pk row out) pubkeys out) k =
   (if k \<in> set pubkeys \<and> map_of m k \<noteq> None then map_option fst (map_of m k) else map_of out k)"
  by (induction pubkeys arbitrary: out) (auto split: option.splits)

text \<open>
  Storage rates: for a requested key the merged row is ok exactly when some agent returned an
  ok row for it, it is one of the returned rows, it is absent exactly when no agent returned one, and
  nothing is reported for a key that was not requested.
\<close>

theorem rates_ok_wins:
  assumes "pk \<noteq> []"
  shows "map_of (mergeStorageRatesResponses pubkeys responses) pk =
      (if pk \<in> set pubkeys then first_best sr_Ok (filter (\<lambda>r. TrimSpace (sr_ProviderPubkey r) = pk) (rates_rows responses)) else None) \<and>
    ((\<exists>row. map_of (mergeStorageRatesResponses pubkeys responses) pk = Some row \<and> sr_Ok row) \<longleftrightarrow>
      pk \<in> set pubkeys \<and> (\<exists>r \<in> set (rates_rows responses). TrimSpace (sr_ProviderPubkey r) = pk \<and> sr_Ok r))"
proof -
  let ?rows = "filter (\<lambda>r. TrimSpace (sr_ProviderPubkey r) = pk) (rates_rows responses)"
  have l: "map_of (mergeStorageRatesResponses pubkeys responses) pk = (if pk \<in> set pubkeys then first_best sr_Ok ?rows else None)"
    by (auto simp: mergeStorageRatesResponses_def Let_def pick_rates_lookup merge_rates_lookup [OF assms] option.map_comp comp_def
        option.map_ident)
  have "(\<exists>row. first_best sr_Ok ?rows = Some row \<and> sr_Ok row) \<longleftrightarrow> (\<exists>r \<in> set ?rows. sr_Ok r)"
  proof (cases "first_best sr_Ok ?rows")
    case None
    then have e: "?rows = []" by (simp add: first_best_cases(1))
    show ?thesis unfolding e by simp
  next
    case (Some r)
    then show ?thesis using first_best_cases(3) [OF Some] by simp
  qed
  then show ?thesis using l by auto
qed

definition sample_rates :: "bool \<Rightarrow> storage_rates_result" where
  "sample_rates good = \<lparr>sr_ProviderPubkey = '' k '', sr_Ok = good, sr_Available = True, sr_RatePerMbDay = [1], sr_MinBounty = [],
     sr_SpaceAvailableMb = 5, sr_MinSpan = 1, sr_MaxSpan = 2, sr_LatencyMs = 3, sr_Details = []\<rparr>"

definition sample_rates_response :: "storage_rates_result list \<Rightarrow> string \<times> storage_rates_response option" where
  "sample_rates_response rows = (''agent'', Some \<lparr>rrs_JobId = ''j'', rrs_AgentId = ''agent'', rrs_Location = ''eu'',
     rrs_StartedAtUnix = 0, rrs_FinishedAtUnix = 1, rrs_Results = None # map Some rows, rrs_Warnings = []\<rparr>)"

theorem rates_ok_wins_witness:
  "\<exists>row. map_of (mergeStorageRatesResponses [''k'']
        [sample_rates_response [sample_rates False], sample_rates_response [sample_rates True]]) ''k'' = Some row \<and> sr_Ok row"
proof -
  have "TrimSpace '' k '' = ''k''" by code_simp
  then show ?thesis
    using rates_ok_wins [of "''k''" "[''k'']" "[sample_rates_response [sample_rates False], sample_rates_response [sample_rates True]]"]
    by (simp add: rates_rows_def sample_rates_response_def sample_rates_def nil_or_def first_best_def)
qed

end
