(* ===== verification/Commit.thy ===== *)
theory Commit
  imports Merge
begin

text \<open>
  Properties of a storage-proof pass of the coordinator: what is committed after the main pass and
  after the retry, and that the requests it sends are the ones an agent accepts.
\<close>

section \<open>Main and final commit\<close>

lemma go_keys_mark:
  "distinct ks \<Longrightarrow> set ks \<inter> set (go_keys m) = {} \<Longrightarrow> go_keys (fold (\<lambda>k. AList.update k ()) ks m) = go_keys m @ ks"
  by (induction ks arbitrary: m) (auto simp: go_keys_update)

lemma select_main_eq:
  "select_main results keys (tc, pk) =
    (tc @ map (\<lambda>k. mc_Check (go_get zero_check results k)) (filter (\<lambda>k. commit_now (go_get zero_check results k)) keys),
     fold (\<lambda>k. AList.update k ()) (filter (\<lambda>k. \<not> commit_now (go_get zero_check results k)) keys) pk)"
  by (induction keys arbitrary: tc pk) (simp_all add: Let_def)

lemma main_commit:
  assumes "go_wf results" "order_ok ord"
  shows "fst (selectMainProofsCommit ord results) =
      map (\<lambda>k. mc_Check (go_get zero_check results k))
        (filter (\<lambda>k. commit_now (go_get zero_check results k)) (range_keys ord results))"
    "go_keys (snd (selectMainProofsCommit ord results)) =
      filter (\<lambda>k. \<not> commit_now (go_get zero_check results k)) (range_keys ord results)"
  using distinct_range_keys [OF assms(2,1)]
  by (simp_all add: selectMainProofsCommit_def select_main_eq go_keys_mark go_keys_def [of "[]"])

text \<open>What ends up in the database for one key.\<close>

definition committed_row ::
  "merged_contract_check go_map \<Rightarrow> (merged_contract_check go_map) option \<Rightarrow> string \<Rightarrow> contract_proofs_check" where
  "committed_row results retry k =
     (let row = go_get zero_check results k
      in if commit_now row then mc_Check row
         else case Option.bind retry (\<lambda>m. map_of m k) of Some r \<Rightarrow> mc_Check r | None \<Rightarrow> mc_Check row)"

lemma final_row_known:
  "map_of results k \<noteq> None \<Longrightarrow> \<not> commit_now (go_get zero_check results k) \<Longrightarrow>
   final_row results retry k = Some (committed_row results retry k)"
  by (auto simp: final_row_def committed_row_def Let_def go_get_def split: option.splits)

lemma map_filter_known: "(\<And>x. x \<in> set xs \<Longrightarrow> f x = Some (g x)) \<Longrightarrow> List.map_filter f xs = map g xs"
  by (induction xs) (simp_all add: List.map_filter_simps)

lemma final_commit:
  assumes "go_wf results" "order_ok ord" "order_ok ord'"
  shows "mset (selectFinalProofsCommit ord' results (snd (selectMainProofsCommit ord results)) retry) =
    image_mset (committed_row results retry)
      (mset (filter (\<lambda>k. \<not> commit_now (go_get zero_check results k)) (go_keys results)))"
proof -
  let ?p = "snd (selectMainProofsCommit ord results)"
  let ?open = "\<lambda>k. \<not> commit_now (go_get zero_check results k)"
  have keys: "mset (range_keys ord' ?p) = mset (filter ?open (go_keys results))"
    using order_okD [OF assms(3), of ?p] order_okD [OF assms(2), of results]
    by (simp add: main_commit(2) [OF assms(1,2)] mset_filter)
  have "final_row results retry k = Some (committed_row results retry k)" if "k \<in> set (range_keys ord' ?p)" for k
  proof -
    have "k \<in> set (filter ?open (go_keys results))" using that keys by (metis set_mset_mset)
    then show ?thesis by (intro final_row_known) (auto simp: set_go_keys)
  qed
  then have "List.map_filter (final_row results retry) (range_keys ord' ?p) =
      map (committed_row results retry) (range_keys ord' ?p)" by (rule map_filter_known)
  moreover have "?p = [] \<Longrightarrow> range_keys ord' ?p = []"
    using order_okD [OF assms(3), of ?p] by (simp add: go_keys_def)
  ultimately have "selectFinalProofsCommit ord' results ?p retry = map (committed_row results retry) (range_keys ord' ?p)"
    by (simp add: selectFinalProofsCommit_def)
  then show ?thesis by (simp add: keys)
qed

lemma main_final_commit:
  assumes "go_wf results" "order_ok ord" "order_ok ord'"
  shows "mset (fst (selectMainProofsCommit ord results) @
      selectFinalProofsCommit ord' results (snd (selectMainProofsCommit ord results)) retry) =
    mset (map (committed_row results retry) (go_keys results))"
proof -
  let ?now = "\<lambda>k. commit_now (go_get zero_check results k)"
  have "mset (range_keys ord results) = mset (go_keys results)" by (rule order_okD [OF assms(2)])
  then have f: "mset (filter ?now (range_keys ord results)) = mset (filter ?now (go_keys results))" by (simp add: mset_filter)
  have "map (\<lambda>k. mc_Check (go_get zero_check results k)) (filter ?now (range_keys ord results)) =
      map (committed_row results retry) (filter ?now (range_keys ord results))"
    by (rule map_cong) (auto simp: committed_row_def)
  then have "fst (selectMainProofsCommit ord results) = map (committed_row results retry) (filter ?now (range_keys ord results))"
    by (simp only: main_commit(1) [OF assms(1,2)])
  then have m: "mset (fst (selectMainProofsCommit ord results)) =
      image_mset (committed_row results retry) (mset (filter ?now (go_keys results)))"
    by (simp only: mset_map f)
  have "mset (fst (selectMainProofsCommit ord results) @ selectFinalProofsCommit ord' results (snd (selectMainProofsCommit ord results)) retry) =
      image_mset (committed_row results retry) (mset (filter ?now (go_keys results)) + mset (filter (\<lambda>k. \<not> ?now k) (go_keys results)))"
    by (simp only: mset_append m final_commit [OF assms] image_mset_union)
  also have "mset (filter ?now (go_keys results)) + mset (filter (\<lambda>k. \<not> ?now k) (go_keys results)) = mset (go_keys results)"
    by (simp only: mset_filter multiset_partition [symmetric])
  finally show ?thesis by simp
qed

text \<open>
  C3.  Main and final commit together write every checked bag exactly once, in whatever order the
  maps are traversed: a bag that is valid or failed for good is written by the main pass with its
  main result, every other bag is deferred and written by the final commit, with the retry's result if the
  retry produced one for it and the main result otherwise.  The main pass never publishes a failure
  that a retry might still repair.
\<close>

theorem commit_exactly_once:
  assumes "go_wf results" "order_ok ord" "order_ok ord'"
  shows "mset (fst (selectMainProofsCommit ord results) @
      selectFinalProofsCommit ord' results (snd (selectMainProofsCommit ord results)) retry) =
      mset (map (committed_row results retry) (go_keys results)) \<and>
    (\<forall>c \<in> set (fst (selectMainProofsCommit ord results)).
       cpc_Reason c = ValidStorageProof \<or> \<not> isRetriableReason (cpc_Reason c))"
  using main_final_commit [OF assms] by (auto simp: main_commit(1) [OF assms(1,2)] commit_now_def)

definition sample_check :: "reason_code \<Rightarrow> merged_contract_check" where
  "sample_check code = \<lparr>mc_Check = \<lparr>cpc_ContractAddress = ''EQc'', cpc_ProviderAddress = ''EQp'', cpc_Reason = code\<rparr>,
     mc_Details = [], mc_Stage = []\<rparr>"

theorem commit_exactly_once_witness:
  "mset (fst (selectMainProofsCommit rev [(''a'', sample_check 0), (''b'', sample_check 201)]) @
     selectFinalProofsCommit rev [(''a'', sample_check 0), (''b'', sample_check 201)]
       (snd (selectMainProofsCommit rev [(''a'', sample_check 0), (''b'', sample_check 201)])) (Some [(''b'', sample_check 0)])) =
   {#mc_Check (sample_check 0), mc_Check (sample_check 0)#}"
  using commit_exactly_once [of "[(''a'', sample_check 0), (''b'', sample_check 201)]" rev rev "Some [(''b'', sample_check 0)]"]
  by (simp add: go_wf_def go_keys_def committed_row_def go_get_def commit_now_def sample_check_def
      isRetriableReason_def reason_defs)

section \<open>The request\<close>

lemma group_contracts_get:
  "go_get [] (group_contracts scs) pk = filter (\<lambda>sc. rel_ProviderPublicKey sc = pk) scs"
  "dom (map_of (group_contracts scs)) = rel_ProviderPublicKey ` set scs" "go_wf (group_contracts scs)"
proof -
  let ?f = "\<lambda>sc m. AList.update (rel_ProviderPublicKey sc) (go_get [] m (rel_ProviderPublicKey sc) @ [sc]) m"
  have "go_get [] (fold ?f scs m) pk = go_get [] m pk @ filter (\<lambda>sc. rel_ProviderPublicKey sc = pk) scs" for m
    by (induction scs arbitrary: m) auto
  then show "go_get [] (group_contracts scs) pk = filter (\<lambda>sc. rel_ProviderPublicKey sc = pk) scs"
    by (simp add: group_contracts_def)
  have "dom (map_of (fold ?f scs m)) = dom (map_of m) \<union> rel_ProviderPublicKey ` set scs" for m
    by (induction scs arbitrary: m) auto
  then show "dom (map_of (group_contracts scs)) = rel_ProviderPublicKey ` set scs" by (simp add: group_contracts_def)
  have "go_wf m \<Longrightarrow> go_wf (fold ?f scs m)" for m by (induction scs arbitrary: m) auto
  then show "go_wf (group_contracts scs)" by (simp add: group_contracts_def)
qed

lemma build_providers_eq:
  "build_providers ips groups pks (ps, keys) =
    (ps @ map (\<lambda>pk. provider_request ips pk (go_get [] groups pk)) (filter (endpoint_usable ips) pks),
     mark_keys (concat (map (go_get [] groups) (filter (endpoint_usable ips) pks))) keys)"
  by (induction pks arbitrary: ps keys) (simp_all add: Let_def mark_keys_def)

text \<open>The batch of one provider, by its key.\<close>

definition batch_for :: "provider_ip go_map \<Rightarrow> contract_relation list \<Rightarrow> string \<Rightarrow> provider_batch" where
  "batch_for ips scs pk = provider_request ips pk (filter (\<lambda>sc. rel_ProviderPublicKey sc = pk) scs)"

lemma built_providers:
  "rq_Providers (fst (buildRunChecksRPCRequest tmo ord now job scs ips)) =
     map (\<lambda>pk. Some (batch_for ips scs pk)) (filter (endpoint_usable ips) (range_keys ord (group_contracts scs)))"
  "fst (snd (buildRunChecksRPCRequest tmo ord now job scs ips)) =
     length (filter (endpoint_usable ips) (range_keys ord (group_contracts scs)))"
  by (simp_all add: buildRunChecksRPCRequest_def Let_def build_providers_eq group_contracts_get batch_for_def)

lemma mark_keys_dom: "dom (map_of (mark_keys cs keys)) = dom (map_of keys) \<union> contractRelationKey ` set cs"
  unfolding mark_keys_def by (induction cs arbitrary: keys) auto

lemma checked_keys:
  assumes "order_ok ord"
  shows "dom (map_of (snd (snd (buildRunChecksRPCRequest tmo ord now job scs ips)))) =
    contractRelationKey ` {sc \<in> set scs. endpoint_usable ips (rel_ProviderPublicKey sc)}"
proof -
  have "set (range_keys ord (group_contracts scs)) = rel_ProviderPublicKey ` set scs"
    using set_range_keys [OF assms] group_contracts_get(2) by metis
  then show ?thesis
    by (auto simp: buildRunChecksRPCRequest_def Let_def build_providers_eq mark_keys_dom group_contracts_get)
qed

definition relation_filled :: "contract_relation \<Rightarrow> bool" where
  "relation_filled sc \<longleftrightarrow> TrimSpace (rel_ProviderPublicKey sc) \<noteq> [] \<and> TrimSpace (rel_ProviderAddress sc) \<noteq> [] \<and>
     TrimSpace (rel_Address sc) \<noteq> [] \<and> TrimSpace (rel_BagID sc) \<noteq> []"

lemma batch_for_ok:
  assumes "endpoint_usable ips pk" "\<forall>sc \<in> set scs. relation_filled sc" "pk \<in> rel_ProviderPublicKey ` set scs"
  shows "batch_ok (Some (batch_for ips scs pk))"
proof -
  let ?cs = "filter (\<lambda>sc. rel_ProviderPublicKey sc = pk) scs"
  have ne: "?cs \<noteq> []" using assms(3) by (auto simp: filter_empty_conv)
  then have "?cs ! 0 \<in> set ?cs" by (metis length_greater_0_conv nth_mem)
  then have "relation_filled (?cs ! 0)" "rel_ProviderPublicKey (?cs ! 0) = pk" using assms(2) by auto
  then have h: "TrimSpace pk \<noteq> []" "TrimSpace (rel_ProviderAddress (?cs ! 0)) \<noteq> []" by (auto simp: relation_filled_def)
  show ?thesis
    using assms(1,2) h ne
    by (auto simp: batch_ok_def batch_for_def provider_request_def Let_def endpoint_ok_def contract_ok_def
        endpoint_usable_def relation_filled_def split: option.splits)
qed

text \<open>
  C13.  The coordinator and its agents agree on what a request is: when the relations read from the
  database are filled in, every request built from them, and every non-empty part of it that goes to
  one agent, passes the agent's validation, so no check is refused for its form; and a contract is
  noted as checked exactly when it has the key of one whose provider has a usable endpoint.
\<close>

theorem request_accepted:
  assumes "order_ok ord" "\<forall>sc \<in> set scs. relation_filled sc"
    "buildRunChecksRPCRequest tmo ord now job scs ips = (req, n, keys)"
    "bs \<noteq> []" "set bs \<subseteq> set (rq_Providers req)"
  shows "validateRequest (Some \<lparr>rq_JobId = rq_JobId req, rq_Providers = bs, rq_Timeouts = rq_Timeouts req\<rparr>) = None \<and>
    n = length (rq_Providers req) \<and>
    dom (map_of keys) = contractRelationKey ` {sc \<in> set scs. endpoint_usable ips (rel_ProviderPublicKey sc)}"
proof -
  have ks: "set (range_keys ord (group_contracts scs)) = rel_ProviderPublicKey ` set scs"
    using set_range_keys [OF assms(1)] group_contracts_get(2) by metis
  have "batch_ok b" if "b \<in> set (rq_Providers req)" for b
    using that assms(2,3) ks built_providers(1) [of tmo ord now job scs ips] batch_for_ok by auto
  moreover have "TrimSpace (rq_JobId req) \<noteq> []"
    using assms(3) TrimSpace_ascii_start [of "CHR ''s''"]
    by (auto simp: buildRunChecksRPCRequest_def Let_def case_prod_beta split: if_splits)
  ultimately have "request_ok \<lparr>rq_JobId = rq_JobId req, rq_Providers = bs, rq_Timeouts = rq_Timeouts req\<rparr>"
    using assms(4,5) by (auto simp: request_ok_def)
  moreover have "n = length (rq_Providers req)"
    using built_providers [of tmo ord now job scs ips] assms(3) by simp
  moreover have "dom (map_of keys) = contractRelationKey ` {sc \<in> set scs. endpoint_usable ips (rel_ProviderPublicKey sc)}"
    using checked_keys [OF assms(1), of tmo now job scs ips] assms(3) by simp
  ultimately show ?thesis using validateRequest_None by blast
qed

definition sample_ips :: "provider_ip go_map" where
  "sample_ips = [(''pk'', \<lparr>pip_PublicKey = ''pk'', pip_Storage = \<lparr>ip_PublicKey = replicate 32 0, ip_IP = ''10.0.0.1'', ip_Port = 3333\<rparr>,
     pip_Provider = \<lparr>ip_PublicKey = [], ip_IP = [], ip_Port = 0\<rparr>\<rparr>)]"

definition zero_timeouts :: run_checks_timeouts where
  "zero_timeouts = \<lparr>rct_PingMs = 0, rct_RldpMs = 0, rct_TotalMs = 0, rct_StorageRatesQueryMs = 0\<rparr>"

lemma sample_usable: "endpoint_usable sample_ips ''pk''"
proof -
  have "TrimSpace ''10.0.0.1'' \<noteq> []" by (rule TrimSpace_ascii_start) simp_all
  then show ?thesis by (simp add: endpoint_usable_def sample_ips_def)
qed

theorem request_accepted_witness:
  "\<exists>req n keys. buildRunChecksRPCRequest zero_timeouts (\<lambda>ks. ks) 7 [] [sample_relation] sample_ips = (req, n, keys) \<and>
     validateRequest (Some \<lparr>rq_JobId = rq_JobId req, rq_Providers = rq_Providers req, rq_Timeouts = rq_Timeouts req\<rparr>) = None"
proof -
  obtain req n keys where b: "buildRunChecksRPCRequest zero_timeouts (\<lambda>ks. ks) 7 [] [sample_relation] sample_ips = (req, n, keys)"
    by (metis prod_cases3)
  have f: "relation_filled sample_relation"
    using TrimSpace_ascii_start [of "CHR ''p''" "''k''"] TrimSpace_ascii_start [of "CHR ''E''"] TrimSpace_ascii_start [of "CHR ''0''" "''0''"]
    by (simp add: relation_filled_def sample_relation_def)
  have g: "group_contracts [sample_relation] = [(''pk'', [sample_relation])]"
    by (simp add: group_contracts_def sample_relation_def go_get_def)
  have "rq_Providers req \<noteq> []"
    using built_providers(1) [of zero_timeouts "\<lambda>ks. ks" 7 "[]" "[sample_relation]" sample_ips] b sample_usable
    by (simp add: g range_keys_def go_keys_def)
  then show ?thesis using request_accepted [OF order_ok_id _ b _ subset_refl] f b by auto
qed

section \<open>Results of a pass\<close>

text \<open>
  C15.  Every contract of a pass gets a result with its own identifiers: \<^verbatim>\<open>IPNotFound\<close> when no
  endpoint was known for its provider, otherwise the merged answer of the agents.  The branch for an
  agent that returned no result for a contract is never taken, because the merge already has an entry
  for every contract: its message is not recorded, the details are empty.
\<close>

theorem pass_results:
  fixes scs :: "contract_relation list" and checked :: "unit go_map"
    and responses :: "(string \<times> run_checks_response option) list"
  assumes "bar_free scs" "sc \<in> set scs"
  defines "results \<equiv> buildBagCheckResults scs checked (fst (mergeRunChecksResponses scs responses))"
  shows "map_of results (contractRelationKey sc) = Some
    (if map_of checked (contractRelationKey sc) = None
     then \<lparr>mc_Check = \<lparr>cpc_ContractAddress = rel_Address sc, cpc_ProviderAddress = rel_ProviderAddress sc, cpc_Reason = IPNotFound\<rparr>,
           mc_Details = ''storage endpoint not resolved for RunChecks'', mc_Stage = StageEndpointUnresolved\<rparr>
     else merged_entry (fold merge_row (response_rows responses) []) sc) \<and>
    go_wf results \<and> dom (map_of results) = contractRelationKey ` set scs"
proof -
  have cong: "bag_check_entry checked m y = bag_check_entry checked m sc"
    if "y \<in> set scs" "contractRelationKey y = contractRelationKey sc" for y m
    using contractRelationKey_inj [OF assms(1) that(1) assms(2) that(2)] that(2)
    by (auto simp: bag_check_entry_def Let_def split: option.splits)
  have "map_of results (contractRelationKey sc) =
      Some (bag_check_entry checked (fst (mergeRunChecksResponses scs responses)) sc)"
    unfolding results_def buildBagCheckResults_def by (rule build_map_inj [OF assms(2)]) (rule cong)
  then show ?thesis
    by (simp add: bag_check_entry_def Let_def merge_lookup [OF assms(1,2)] results_def buildBagCheckResults_def dom_build_map)
qed

theorem pass_results_witness:
  "map_of (buildBagCheckResults [sample_relation] [(contractRelationKey sample_relation, ())]
      (fst (mergeRunChecksResponses [sample_relation] []))) (contractRelationKey sample_relation) =
   Some \<lparr>mc_Check = \<lparr>cpc_ContractAddress = ''EQc'', cpc_ProviderAddress = ''EQp'', cpc_Reason = NotFound\<rparr>,
         mc_Details = [], mc_Stage = StageAgentRunChecksNoResult\<rparr>"
  using pass_results [of "[sample_relation]" sample_relation "[(contractRelationKey sample_relation, ())]" "[]"]
    merged_entry_best [of "[]" sample_relation]
  by (simp add: bar_free_def sample_relation_def response_rows_def)

end
