(* ===== verification/Rejected.thy ===== *)
theory Rejected
  imports DbTypes Messages
begin

text \<open>
  \<^verbatim>\<open>updateRejectedContracts\<close> of \<^verbatim>\<open>coordinator/internal/workers/providersMaster/worker.go\<close> and
  \<^verbatim>\<open>isRemovedByLowBalance\<close> of \<^verbatim>\<open>helpers.go\<close>: which relations are closed because the provider left the contract
  or the contract ran out of money.  The TON client's answer is an argument; its big integers are
  \<^typ>\<open>int\<close>, its times Unix seconds.  The clock is read once (\<open>now\<close>).
\<close>

record ton_provider =
  tp_Key :: bytes
  tp_LastProofTime :: int
  tp_RatePerMBDay :: "64 word"
  tp_MaxSpan :: "32 word"

record contract_providers =
  cp_Address :: string
  cp_Balance :: "64 word"
  cp_Providers :: "ton_provider list"
  cp_LiteServerError :: bool

definition storageFee :: int where "storageFee = 50000000"

definition isRemovedByLowBalance :: "int \<Rightarrow> int \<Rightarrow> ton_provider \<Rightarrow> contract_providers \<Rightarrow> bool" where
  "isRemovedByLowBalance now bagSize provider contract =
     (let mul = uint (tp_RatePerMBDay provider) * bagSize;
          mul = mul * uint (tp_MaxSpan provider);
          bounty = mul div (24 * 60 * 60 * 1024 * 1024);
          bounty = bounty + storageFee
      in if uint (cp_Balance contract) < bounty
         then (if tp_LastProofTime provider \<le> 0 then False
               else (let deadline = tp_LastProofTime provider + uint (tp_MaxSpan provider) + 3600
                     in if now > deadline then True else False))
         else False)"

record contract_info =
  ci_providers :: "unit go_map"
  ci_skip :: bool

fun active_providers :: "int \<Rightarrow> int \<Rightarrow> contract_providers \<Rightarrow> ton_provider list \<Rightarrow> unit go_map \<Rightarrow> unit go_map" where
  "active_providers now sz contract [] m = m"
| "active_providers now sz contract (p # ps) m =
     (if isRemovedByLowBalance now sz p contract then active_providers now sz contract ps m
      else active_providers now sz contract ps (AList.update (hex_Encode (tp_Key p)) () m))"

definition contract_entry :: "int \<Rightarrow> 64 word go_map \<Rightarrow> contract_providers \<Rightarrow> contract_info" where
  "contract_entry now sizes contract =
     \<lparr>ci_providers = active_providers now (uint (go_get 0 sizes (cp_Address contract))) contract (cp_Providers contract) [],
      ci_skip = cp_LiteServerError contract\<rparr>"

definition keep_active :: "contract_info go_map \<Rightarrow> contract_relation \<Rightarrow> bool" where
  "keep_active activeRelations sc \<longleftrightarrow>
     (case map_of activeRelations (rel_Address sc) of
        Some info \<Rightarrow>
          if ci_skip info then True else map_of (ci_providers info) (rel_ProviderPublicKey sc) \<noteq> None
      | None \<Rightarrow> False)"

fun split_contracts ::
  "contract_info go_map \<Rightarrow> contract_relation list \<Rightarrow> contract_relation list \<times> contract_relation list \<Rightarrow>
     contract_relation list \<times> contract_relation list" where
  "split_contracts rels [] acc = acc"
| "split_contracts rels (sc # scs) (active, shut) =
     (if keep_active rels sc then split_contracts rels scs (active @ [sc], shut)
      else split_contracts rels scs (active, shut @ [sc]))"

definition updateRejectedContracts ::
  "order \<Rightarrow> int \<Rightarrow> (string list \<Rightarrow> go_error + contract_providers list) \<Rightarrow>
   (contract_relation list \<Rightarrow> 's \<Rightarrow> go_error option \<times> 's) \<Rightarrow> contract_relation list \<Rightarrow> 's \<Rightarrow>
     (go_error + contract_relation list) \<times> 's" where
  "updateRejectedContracts ord now getProvidersInfo updateRejected storageContracts db =
     (if storageContracts = [] then (Inr [], db)
      else
       (let sizes = build_map rel_Address rel_Size storageContracts []
        in case getProvidersInfo (range_keys ord sizes) of
             Inl err \<Rightarrow> (Inl err, db)
           | Inr infos \<Rightarrow>
              (let activeRelations = build_map cp_Address (contract_entry now sizes) infos [];
                   (active, shut) = split_contracts activeRelations storageContracts ([], [])
               in case updateRejected shut db of
                    (Some err, db) \<Rightarrow> (Inl err, db)
                  | (None, db) \<Rightarrow> (Inr active, db))))"

section \<open>What is closed\<close>

text \<open>The money a contract needs for one proof, as a rational number of nanotons before rounding down.\<close>

lemma low_balance_iff:
  "isRemovedByLowBalance now sz p c \<longleftrightarrow>
     uint (cp_Balance c) < uint (tp_RatePerMBDay p) * sz * uint (tp_MaxSpan p) div 90596966400 + 50000000 \<and>
     0 < tp_LastProofTime p \<and> tp_LastProofTime p + uint (tp_MaxSpan p) + 3600 < now"
  by (auto simp: isRemovedByLowBalance_def Let_def storageFee_def)

lemma active_providers_dom:
  "dom (map_of (active_providers now sz c ps m)) =
     dom (map_of m) \<union> {hex_Encode (tp_Key p) | p. p \<in> set ps \<and> \<not> isRemovedByLowBalance now sz p c}"
  by (induction ps arbitrary: m) auto

lemma split_contracts_eq:
  "split_contracts rels scs (a, c) = (a @ filter (keep_active rels) scs, c @ filter (\<lambda>sc. \<not> keep_active rels sc) scs)"
  by (induction scs arbitrary: a c) auto

definition info_keeps :: "int \<Rightarrow> 64 word go_map \<Rightarrow> contract_providers \<Rightarrow> contract_relation \<Rightarrow> bool" where
  "info_keeps now sizes info sc \<longleftrightarrow>
     cp_LiteServerError info \<or>
     (\<exists>p \<in> set (cp_Providers info). hex_Encode (tp_Key p) = rel_ProviderPublicKey sc \<and>
        \<not> isRemovedByLowBalance now (uint (go_get 0 sizes (cp_Address info))) p info)"

lemma keep_active_iff:
  assumes "distinct (map cp_Address infos)"
  shows "keep_active (build_map cp_Address (contract_entry now sizes) infos []) sc \<longleftrightarrow>
    (\<exists>info \<in> set infos. cp_Address info = rel_Address sc \<and> info_keeps now sizes info sc)"
proof (cases "rel_Address sc \<in> cp_Address ` set infos")
  case True
  then obtain info where i: "info \<in> set infos" "cp_Address info = rel_Address sc" by auto
  have uniq: "y = info" if "y \<in> set infos" "cp_Address y = rel_Address sc" for y
    using that i assms by (auto simp: distinct_map inj_on_def)
  have "map_of (build_map cp_Address (contract_entry now sizes) infos []) (rel_Address sc) = Some (contract_entry now sizes info)"
    using build_map_inj [OF i(1), of cp_Address "contract_entry now sizes" "[]"] uniq i(2) by metis
  moreover have "map_of (ci_providers (contract_entry now sizes info)) (rel_ProviderPublicKey sc) \<noteq> None \<longleftrightarrow>
      (\<exists>p \<in> set (cp_Providers info). hex_Encode (tp_Key p) = rel_ProviderPublicKey sc \<and>
        \<not> isRemovedByLowBalance now (uint (go_get 0 sizes (cp_Address info))) p info)"
    unfolding domIff [symmetric] by (simp add: contract_entry_def active_providers_dom) metis
  moreover have "ci_skip (contract_entry now sizes info) = cp_LiteServerError info" by (simp add: contract_entry_def)
  ultimately have "keep_active (build_map cp_Address (contract_entry now sizes) infos []) sc \<longleftrightarrow> info_keeps now sizes info sc"
    by (simp add: keep_active_def info_keeps_def)
  then show ?thesis using i uniq by blast
next
  case False
  then have "map_of (build_map cp_Address (contract_entry now sizes) infos []) (rel_Address sc) = None"
    by (simp add: build_map_notin)
  then show ?thesis using False by (simp add: keep_active_def) (metis image_eqI)
qed

lemma updateRejected_split:
  assumes "updateRejectedContracts ord now getInfo upd scs db = (Inr active, db')" "scs \<noteq> []"
    "getInfo (range_keys ord (build_map rel_Address rel_Size scs [])) = Inr infos"
  defines "keep \<equiv> keep_active (build_map cp_Address (contract_entry now (build_map rel_Address rel_Size scs [])) infos [])"
  shows "active = filter keep scs" "upd (filter (\<lambda>sc. \<not> keep sc) scs) db = (None, db')"
  using assms(1,2,3) unfolding keep_def
  by (auto simp: updateRejectedContracts_def Let_def split_contracts_eq split: prod.splits option.splits sum.splits)

text \<open>
  Closing relations loses nothing and closes nothing by accident: with one answer per
  contract, the relations returned as active and the ones handed to the database as rejected partition
  the input; a relation stays active exactly when its contract was answered and either no lite server
  could be reached or the provider is still listed and not out of money for longer than its span plus
  an hour.
\<close>

theorem rejected_partition:
  assumes "updateRejectedContracts ord now getInfo upd scs db = (Inr active, db')" "scs \<noteq> []"
    "getInfo (range_keys ord (build_map rel_Address rel_Size scs [])) = Inr infos" "distinct (map cp_Address infos)"
  shows "active = filter (\<lambda>sc. \<exists>info \<in> set infos. cp_Address info = rel_Address sc \<and>
        info_keeps now (build_map rel_Address rel_Size scs []) info sc) scs \<and>
    upd (filter (\<lambda>sc. sc \<notin> set active) scs) db = (None, db')"
proof -
  let ?sizes = "build_map rel_Address rel_Size scs []"
  let ?keep = "keep_active (build_map cp_Address (contract_entry now ?sizes) infos [])"
  note a = updateRejected_split [OF assms(1,2,3)]
  moreover have "filter (\<lambda>sc. sc \<notin> set active) scs = filter (\<lambda>sc. \<not> ?keep sc) scs"
    unfolding a(1) by (rule filter_cong) auto
  moreover have "filter ?keep scs = filter (\<lambda>sc. \<exists>info \<in> set infos. cp_Address info = rel_Address sc \<and>
        info_keeps now ?sizes info sc) scs"
    by (rule filter_cong [OF refl keep_active_iff [OF assms(4)]])
  ultimately show ?thesis by simp
qed

definition sample_closing :: "contract_relation list" where
  "sample_closing = map (\<lambda>pk. \<lparr>rel_ProviderPublicKey = pk, rel_ProviderAddress = ''EQp'', rel_Address = ''EQc'',
     rel_BagID = ''00'', rel_Size = 10, rel_Reason = None\<rparr>) [''aa'', ''bb'']"

definition sample_info :: contract_providers where
  "sample_info = \<lparr>cp_Address = ''EQc'', cp_Balance = 0,
     cp_Providers = [\<lparr>tp_Key = [170], tp_LastProofTime = 0, tp_RatePerMBDay = 1, tp_MaxSpan = 1\<rparr>,
                     \<lparr>tp_Key = [187], tp_LastProofTime = 5, tp_RatePerMBDay = 1, tp_MaxSpan = 1\<rparr>],
     cp_LiteServerError = False\<rparr>"

theorem rejected_partition_witness:
  "\<exists>active shut. updateRejectedContracts (\<lambda>ks. ks) 9000 (\<lambda>_. Inr [sample_info]) (\<lambda>cs db. (None, cs)) sample_closing [] =
      (Inr active, shut) \<and> shut = filter (\<lambda>sc. sc \<notin> set active) sample_closing"
proof -
  obtain r db' where r: "updateRejectedContracts (\<lambda>ks. ks) 9000 (\<lambda>_. Inr [sample_info]) (\<lambda>cs db. (None, cs)) sample_closing [] = (r, db')"
    by (metis surj_pair)
  then obtain active where "r = Inr active"
    by (auto simp: updateRejectedContracts_def sample_closing_def Let_def split: prod.splits)
  then have s: "updateRejectedContracts (\<lambda>ks. ks) 9000 (\<lambda>_. Inr [sample_info]) (\<lambda>cs db. (None, cs)) sample_closing [] = (Inr active, db')"
    using r by simp
  have "(\<lambda>cs db. (None, cs)) (filter (\<lambda>sc. sc \<notin> set active) sample_closing) [] = (None :: go_error option, db')"
    using rejected_partition [OF s] by (auto simp: sample_closing_def)
  then show ?thesis using s by auto
qed

end
