(* ===== verification/EndpointRefresh.thy ===== *)
theory EndpointRefresh
  imports Recorder Messages
begin

text \<open>
  \<^verbatim>\<open>coordinator/internal/workers/providersMaster/endpoint_refresh.go\<close> and the lookups it uses from
  \<^verbatim>\<open>worker.go\<close>: finding where a provider and its storage listen, and keeping those endpoints fresh.

  The DHT, the provider transport, TL hashing and parsing, and address parsing are the fields of
  \<open>resolve_lib\<close>; an address of a DHT answer is its printed IP (\<open>None\<close> for nil) and its port.  The
  goroutines that resolve the targets run under a mutex from the moment their lookup has returned, so
  they are the steps \<open>resolve_one\<close> in the order \<open>re_perm\<close> in which they get it.  Prometheus counters
  are left out.
\<close>

section \<open>Lookups\<close>

type_synonym dht_addr = "string option \<times> int"

record 'addr resolve_lib =
  rl_ParseAddr :: "string \<Rightarrow> go_error + 'addr"
  rl_hashKey :: "bytes \<Rightarrow> go_error + bytes"
  rl_FindValue :: "bytes \<Rightarrow> go_error + bytes"
  rl_ParseRecord :: "bytes \<Rightarrow> go_error + bytes"
  rl_FindAddresses :: "bytes \<Rightarrow> go_error + dht_addr list option \<times> bytes"
  rl_VerifyStorageADNLProof :: "nat \<Rightarrow> bytes \<Rightarrow> 'addr \<Rightarrow> go_error + bytes"
  rl_FindOverlayNodes :: "bytes \<Rightarrow> go_error + (bytes option list) option"

definition zero_ip :: ip_info where
  "zero_ip = \<lparr>ip_PublicKey = [], ip_IP = [], ip_Port = 0\<rparr>"

text \<open>\<^verbatim>\<open>utils.TryNTimes\<close>: \<open>f i\<close> is the outcome of call number \<open>i\<close>, \<open>err\<close> what was returned last.\<close>

fun try_loop :: "(nat \<Rightarrow> go_error + 'a) \<Rightarrow> nat \<Rightarrow> nat \<Rightarrow> go_error + 'a \<Rightarrow> go_error + 'a" where
  "try_loop f i 0 err = err"
| "try_loop f i (Suc n) err = (case f i of Inr v \<Rightarrow> Inr v | Inl e \<Rightarrow> try_loop f (Suc i) n (Inl e))"

definition TryNTimes :: "'a \<Rightarrow> (nat \<Rightarrow> go_error + 'a) \<Rightarrow> nat \<Rightarrow> go_error + 'a" where
  "TryNTimes zero f n = try_loop f 0 n (Inr zero)"

definition verifyStorageRetries :: nat where "verifyStorageRetries = 3"

definition findProviderIP :: "'addr resolve_lib \<Rightarrow> bytes \<Rightarrow> ip_info \<times> go_error option" where
  "findProviderIP lib pk =
     (case rl_hashKey lib pk of
        Inl err \<Rightarrow> (zero_ip, stageError StageDHTFindProviderRecord (Some (ErrWrap ''failed to calc hash of provider key'' err)))
      | Inr channelKeyId \<Rightarrow>
         (case rl_FindValue lib channelKeyId of
            Inl err \<Rightarrow> (zero_ip, stageError StageDHTFindProviderRecord (Some (ErrWrap ''failed to find storage-provider in dht'' err)))
          | Inr dhtVal \<Rightarrow>
             (case rl_ParseRecord lib dhtVal of
                Inl pErr \<Rightarrow> (zero_ip, stageError StageDHTFindProviderRecord (Some (ErrWrap ''failed to parse node dht value'' pErr)))
              | Inr adnlAddr \<Rightarrow>
                 if adnlAddr = []
                 then (zero_ip, stageError StageDHTFindProviderRecord (Some (ErrText ''no adnl addresses in node dht value'')))
                 else
                  (case rl_FindAddresses lib adnlAddr of
                     Inl fErr \<Rightarrow> (zero_ip, stageError StageDHTFindProviderAddresses (Some (ErrWrap ''failed to find adnl addresses in dht'' fErr)))
                   | Inr (l, pub) \<Rightarrow>
                      (case l of
                         Some (a # _) \<Rightarrow>
                           (case fst a of
                              None \<Rightarrow> (zero_ip\<lparr>ip_PublicKey := pub\<rparr>,
                                       stageError StageDHTFindProviderAddresses (Some (ErrText ''empty provider address ip'')))
                            | Some ipVal \<Rightarrow> (\<lparr>ip_PublicKey = pub, ip_IP = ipVal, ip_Port = snd a\<rparr>, None))
                       | _ \<Rightarrow> (zero_ip, stageError StageDHTFindProviderAddresses (Some (ErrText ''no provider addresses found'')))))))) "

definition findStorageIP :: "'addr resolve_lib \<Rightarrow> 'addr \<Rightarrow> bytes \<Rightarrow> ip_info \<times> go_error option" where
  "findStorageIP lib addr pk =
     (case TryNTimes [] (\<lambda>i. rl_VerifyStorageADNLProof lib i pk addr) verifyStorageRetries of
        Inl err \<Rightarrow> (zero_ip, stageError StageVerifyStorageADNLProof (Some (ErrWrap ''failed to verify storage adnl proof'' err)))
      | Inr proof_ \<Rightarrow>
         (case rl_FindAddresses lib proof_ of
            Inl err \<Rightarrow> (zero_ip, stageError StageDHTFindStorageAddresses (Some (ErrWrap ''failed to find addresses in dht'' err)))
          | Inr (l, pub) \<Rightarrow>
             (case l of
                Some (a # _) \<Rightarrow>
                  (case fst a of
                     None \<Rightarrow> (zero_ip\<lparr>ip_PublicKey := pub\<rparr>,
                              stageError StageDHTFindStorageAddresses (Some (ErrText ''empty storage address ip'')))
                   | Some ipVal \<Rightarrow> (\<lparr>ip_PublicKey = pub, ip_IP = ipVal, ip_Port = snd a\<rparr>, None))
              | _ \<Rightarrow> (zero_ip, stageError StageDHTFindStorageAddresses (Some (ErrText ''no storage addresses found''))))))"

definition findProviderIPs :: "'addr resolve_lib \<Rightarrow> contract_relation \<Rightarrow> provider_ip \<times> go_error option" where
  "findProviderIPs lib sc =
     (let result = \<lparr>pip_PublicKey = rel_ProviderPublicKey sc, pip_Storage = zero_ip, pip_Provider = zero_ip\<rparr>
      in case rl_ParseAddr lib (rel_Address sc) of
           Inl err \<Rightarrow> (result, Some err)
         | Inr addr \<Rightarrow>
            (case hex_DecodeString (rel_ProviderPublicKey sc) of
               Inl err \<Rightarrow> (result, Some err)
             | Inr pk \<Rightarrow>
                (case findProviderIP lib pk of
                   (ip, Some err) \<Rightarrow> (result\<lparr>pip_Provider := ip\<rparr>, Some err)
                 | (ip, None) \<Rightarrow>
                    (case findStorageIP lib addr pk of
                       (sip, err) \<Rightarrow> (result\<lparr>pip_Provider := ip, pip_Storage := sip\<rparr>, err)))))"

text \<open>The overlay search: the first address of a node of some bag's overlay that is the provider's IP.\<close>

definition overlay_node :: "'addr resolve_lib \<Rightarrow> string \<Rightarrow> bytes option \<Rightarrow> ip_info option" where
  "overlay_node lib providerIP node =
     (case node of
        None \<Rightarrow> None
      | Some key \<Rightarrow>
         (case rl_hashKey lib key of
            Inl _ \<Rightarrow> None
          | Inr adnlID \<Rightarrow>
             (case rl_FindAddresses lib adnlID of
                Inl _ \<Rightarrow> None
              | Inr (l, pub) \<Rightarrow>
                 map_option (\<lambda>a. \<lparr>ip_PublicKey = pub, ip_IP = providerIP, ip_Port = snd a\<rparr>)
                   (find (\<lambda>a. fst a = Some providerIP) (nil_or [] (\<lambda>as. as) l)))))"

fun first_some :: "('a \<Rightarrow> 'b option) \<Rightarrow> 'a list \<Rightarrow> 'b option" where
  "first_some f [] = None"
| "first_some f (x # xs) = (case f x of Some y \<Rightarrow> Some y | None \<Rightarrow> first_some f xs)"

definition overlay_bag :: "'addr resolve_lib \<Rightarrow> string \<Rightarrow> contract_relation \<Rightarrow> ip_info option" where
  "overlay_bag lib providerIP sc =
     (case hex_DecodeString (rel_BagID sc) of
        Inl _ \<Rightarrow> None
      | Inr bag \<Rightarrow>
         (case rl_FindOverlayNodes lib bag of
            Inl _ \<Rightarrow> None
          | Inr nodesList \<Rightarrow> first_some (overlay_node lib providerIP) (nil_or [] (\<lambda>ns. ns) nodesList)))"

definition bagsToCheck :: "nat \<Rightarrow> nat" where
  "bagsToCheck n =
     (if n > 100 then max 1 (n * 10 div 100) else if n > 5 then max 1 (n * 20 div 100) else n)"

definition findStorageIPOverlay ::
  "'addr resolve_lib \<Rightarrow> (contract_relation list \<Rightarrow> contract_relation list) \<Rightarrow> string \<Rightarrow> contract_relation list \<Rightarrow> go_error + ip_info" where
  "findStorageIPOverlay lib shuffle providerIP contracts =
     (if contracts = [] then Inl (ErrText ''no contracts provided'')
      else case first_some (overlay_bag lib providerIP) (take (bagsToCheck (length contracts)) (shuffle contracts)) of
             Some ip \<Rightarrow> Inr ip
           | None \<Rightarrow> Inl (ErrText (''storage IP not found via overlay DHT after checking '' @
                       nat_Itoa (bagsToCheck (length contracts)) @ '' bags'')))"

section \<open>Refresh\<close>

definition hasValidResolvedStorageEndpoint :: "provider_ip \<Rightarrow> bool" where
  "hasValidResolvedStorageEndpoint ip \<longleftrightarrow>
     TrimSpace (ip_IP (pip_Storage ip)) \<noteq> [] \<and> ip_Port (pip_Storage ip) > 0 \<and> length (ip_PublicKey (pip_Storage ip)) = 32"

definition isEndpointStateStale :: "provider_endpoint_state \<Rightarrow> duration \<Rightarrow> time \<Rightarrow> bool" where
  "isEndpointStateStale state ttl now =
     (if TrimSpace (pes_StorageIP state) = [] \<or> pes_StoragePort state \<le> 0 then True
      else case pes_UpdatedAt state of
             None \<Rightarrow> True
           | Some t \<Rightarrow> if ttl \<le> 0 then False else now - t > ttl)"

record endpoint_cfg =
  ecf_StaleTTL :: duration
  ecf_FullRefreshInterval :: duration
  ecf_FailInterval :: duration

text \<open>What a refresh uses of the outside, and the orders its map loops and goroutines happen to take.\<close>

record ('addr, 's) refresh_env =
  re_lib :: "'addr resolve_lib"
  re_cfg :: endpoint_cfg
  re_now :: time
  re_pubkeyOrder :: order
  re_targetOrder :: order
  re_cacheOrder :: order
  re_persistOrder :: order
  re_perm :: "contract_relation list \<Rightarrow> contract_relation list"
  re_shuffle :: "contract_relation list \<Rightarrow> contract_relation list"
  re_getState :: "string list \<Rightarrow> 's \<Rightarrow> go_error + provider_endpoint_state list"
  re_getLast :: "string list \<Rightarrow> 's \<Rightarrow> go_error + pipeline_status go_map"
  re_updateIPs :: "provider_ip list \<Rightarrow> 's \<Rightarrow> go_error option \<times> 's"

record refresh_state =
  rf_available :: "provider_ip go_map"
  rf_persist :: "provider_ip go_map"
  rf_lastKnown :: "provider_ip go_map"
  rf_notFound :: "string list"
  rf_errors :: "go_error go_map"

definition unique_providers :: "contract_relation list \<Rightarrow> contract_relation go_map" where
  "unique_providers scs =
     fold (\<lambda>sc m. if map_of m (rel_ProviderPublicKey sc) = None then AList.update (rel_ProviderPublicKey sc) sc m else m) scs []"

definition provider_contracts :: "contract_relation list \<Rightarrow> (contract_relation list) go_map" where
  "provider_contracts scs =
     fold (\<lambda>sc m. AList.update (rel_ProviderPublicKey sc) (go_get [] m (rel_ProviderPublicKey sc) @ [sc]) m) scs []"

definition is_stale :: "('addr, 's) refresh_env \<Rightarrow> provider_endpoint_state go_map \<Rightarrow> string \<Rightarrow> bool" where
  "is_stale env states pubkey =
     (case map_of states pubkey of
        None \<Rightarrow> True
      | Some state \<Rightarrow> isEndpointStateStale state (ecf_StaleTTL (re_cfg env)) (re_now env))"

definition resolve_one :: "'addr resolve_lib \<Rightarrow> contract_relation \<Rightarrow> refresh_state \<Rightarrow> refresh_state" where
  "resolve_one lib contract st =
     (let pk = rel_ProviderPublicKey contract;
          (resolved, resolveErr) = findProviderIPs lib contract
      in case resolveErr of
           Some err \<Rightarrow>
             (let st = st\<lparr>rf_notFound := rf_notFound st @ [pk],
                          rf_errors := (if map_of (rf_errors st) pk = None then AList.update pk err (rf_errors st) else rf_errors st)\<rparr>
              in if hasValidResolvedStorageEndpoint resolved
                 then st\<lparr>rf_available := AList.update pk resolved (rf_available st)\<rparr> else st)
         | None \<Rightarrow>
             if hasValidResolvedStorageEndpoint resolved
             then st\<lparr>rf_available := AList.update pk resolved (rf_available st),
                     rf_persist := AList.update pk resolved (rf_persist st),
                     rf_lastKnown := AList.update pk resolved (rf_lastKnown st)\<rparr>
             else st)"

definition zero_provider_ip :: provider_ip where
  "zero_provider_ip = \<lparr>pip_PublicKey = [], pip_Storage = zero_ip, pip_Provider = zero_ip\<rparr>"

definition overlay_one ::
  "'addr resolve_lib \<Rightarrow> (contract_relation list \<Rightarrow> contract_relation list) \<Rightarrow> (contract_relation list) go_map \<Rightarrow> string \<Rightarrow>
     refresh_state \<times> go_error go_map \<Rightarrow> refresh_state \<times> go_error go_map" where
  "overlay_one lib shuffle contractsOf pk acc =
     (let (st, overlayFailed) = acc;
          ip = go_get zero_provider_ip (rf_available st) pk
      in if TrimSpace (ip_IP (pip_Provider ip)) = [] then (st, overlayFailed)
         else if go_get [] contractsOf pk = [] then (st, overlayFailed)
         else case findStorageIPOverlay lib shuffle (ip_IP (pip_Provider ip)) (go_get [] contractsOf pk) of
                Inl overlayErr \<Rightarrow> (st, AList.update pk overlayErr overlayFailed)
              | Inr storageIP \<Rightarrow>
                 (let ip = ip\<lparr>pip_Storage := storageIP\<rparr>
                  in if hasValidResolvedStorageEndpoint ip
                     then (st\<lparr>rf_available := AList.update pk ip (rf_available st),
                              rf_persist := AList.update pk ip (rf_persist st),
                              rf_lastKnown := AList.update pk ip (rf_lastKnown st)\<rparr>, overlayFailed)
                     else (st, overlayFailed)))"

fun record_targets ::
  "refresh_state \<Rightarrow> go_error go_map \<Rightarrow> contract_relation list \<Rightarrow> string list \<Rightarrow> recorder option \<Rightarrow> recorder option" where
  "record_targets st overlayFailed [] seen rec = rec"
| "record_targets st overlayFailed (sc # scs) seen rec =
     (let pk = rel_ProviderPublicKey sc
      in if pk \<in> set seen then record_targets st overlayFailed scs seen rec
         else if hasValidResolvedStorageEndpoint (go_get zero_provider_ip (rf_available st) pk)
         then record_targets st overlayFailed scs (pk # seen) (RecordProviderResolve pk StageEndpointResolve True None rec)
         else
          (let (stage, err) =
             (case map_of overlayFailed pk of
                Some e \<Rightarrow> (StageOverlayStorageFallback, e)
              | None \<Rightarrow>
                 (case map_of (rf_errors st) pk of
                    Some e \<Rightarrow> (resolveStageFromErr (Some e), e)
                  | None \<Rightarrow> (StageEndpointResolve, ErrText ''storage endpoint not resolved'')))
           in record_targets st overlayFailed scs (pk # seen) (RecordProviderResolve pk stage False (Some err) rec)))"

definition refresh_targets ::
  "('addr, 's) refresh_env \<Rightarrow> provider_endpoint_state go_map \<Rightarrow> contract_relation list \<Rightarrow> bool \<Rightarrow> contract_relation list" where
  "refresh_targets env states scs staleOnly =
     (let uniq = unique_providers scs
      in map (\<lambda>pk. the (map_of uniq pk))
           (filter (\<lambda>pk. \<not> (staleOnly \<and> \<not> is_stale env states pk)) (range_keys (re_targetOrder env) uniq)))"

definition cached_ips :: "string list \<Rightarrow> provider_ip go_map \<Rightarrow> provider_ip go_map" where
  "cached_ips pks lastKnown =
     fold (\<lambda>pk m. case map_of lastKnown pk of
                    None \<Rightarrow> m
                  | Some ip \<Rightarrow> if hasValidResolvedStorageEndpoint ip then AList.update pk ip m else m) pks []"

definition persist_endpoints :: "('addr, 's) refresh_env \<Rightarrow> provider_ip go_map \<Rightarrow> 's \<Rightarrow> go_error option \<times> 's" where
  "persist_endpoints env resolved db =
     (if resolved \<noteq> [] then re_updateIPs env (map (\<lambda>pk. the (map_of resolved pk)) (range_keys (re_persistOrder env) resolved)) db
      else (None, db))"

definition refreshProvidersEndpoints ::
  "('addr, 's) refresh_env \<Rightarrow> contract_relation list \<Rightarrow> bool \<Rightarrow> recorder option \<Rightarrow> provider_ip go_map \<Rightarrow> 's \<Rightarrow>
     (go_error + provider_ip go_map) \<times> recorder option \<times> provider_ip go_map \<times> 's" where
  "refreshProvidersEndpoints env scs staleOnly rec lastKnown db =
     (if scs = [] then (Inr [], rec, lastKnown, db)
      else
       (let uniq = unique_providers scs
        in case re_getState env (range_keys (re_pubkeyOrder env) uniq) db of
             Inl err \<Rightarrow> (Inl err, rec, lastKnown, db)
           | Inr rows \<Rightarrow>
              (let targets = refresh_targets env (build_map pes_PublicKey (\<lambda>r. r) rows []) scs staleOnly
               in if staleOnly \<and> targets = [] then (Inr [], rec, lastKnown, db)
                  else
                   (let rec = (case rec of
                                 None \<Rightarrow> None
                               | Some r \<Rightarrow>
                                  if targets = [] then Some r
                                  else Some (snd (LoadProviderStatuses (\<lambda>pks. re_getLast env pks db)
                                                    (rev (remdups (rev (map rel_ProviderPublicKey targets)))) r)));
                        st = \<lparr>rf_available = cached_ips (range_keys (re_cacheOrder env) uniq) lastKnown, rf_persist = [],
                              rf_lastKnown = lastKnown, rf_notFound = [], rf_errors = []\<rparr>;
                        st = fold (resolve_one (re_lib env)) (re_perm env targets) st;
                        (st, overlayFailed) = fold (overlay_one (re_lib env) (re_shuffle env) (provider_contracts scs))
                                                (rf_notFound st) (st, []);
                        rec = record_targets st overlayFailed targets [] rec
                    in case persist_endpoints env (rf_persist st) db of
                         (Some err, db) \<Rightarrow> (Inl err, rec, rf_lastKnown st, db)
                       | (None, db) \<Rightarrow> (Inr (rf_available st), rec, rf_lastKnown st, db)))))"

definition RefreshEndpointsFull ::
  "('addr, 's) refresh_env \<Rightarrow> ('s \<Rightarrow> go_error + contract_relation list) \<Rightarrow> provider_ip go_map \<Rightarrow> 's \<Rightarrow>
     (duration \<times> go_error option) \<times> provider_ip go_map \<times> 's" where
  "RefreshEndpointsFull env getContracts lastKnown db =
     (let successInterval = (if ecf_FullRefreshInterval (re_cfg env) \<le> 0 then 21600000000000 else ecf_FullRefreshInterval (re_cfg env));
          failureInterval = (if ecf_FailInterval (re_cfg env) \<le> 0 then 30000000000 else ecf_FailInterval (re_cfg env))
      in case getContracts db of
           Inl err \<Rightarrow> ((failureInterval, Some err), lastKnown, db)
         | Inr scs \<Rightarrow>
            if scs = [] then ((successInterval, None), lastKnown, db)
            else
             (case refreshProvidersEndpoints env scs False None lastKnown db of
                (Inl err, _, lastKnown, db) \<Rightarrow> ((failureInterval, Some err), lastKnown, db)
              | (Inr _, _, lastKnown, db) \<Rightarrow> ((successInterval, None), lastKnown, db)))"

definition updateProvidersIPs ::
  "('addr, 's) refresh_env \<Rightarrow> contract_relation list \<Rightarrow> recorder option \<Rightarrow> provider_ip go_map \<Rightarrow> 's \<Rightarrow>
     (go_error + provider_ip go_map) \<times> recorder option \<times> provider_ip go_map \<times> 's" where
  "updateProvidersIPs env scs rec lastKnown db = refreshProvidersEndpoints env scs False rec lastKnown db"

section \<open>A failed lookup yields no endpoint\<close>

lemma zero_ip_invalid [simp]:
  "pip_Storage ip = zero_ip \<Longrightarrow> \<not> hasValidResolvedStorageEndpoint ip"
  "pip_Storage ip = zero_ip\<lparr>ip_PublicKey := pub\<rparr> \<Longrightarrow> \<not> hasValidResolvedStorageEndpoint ip"
  by (auto simp: hasValidResolvedStorageEndpoint_def zero_ip_def)

lemma stageError_Some [simp]: "stageError stage (Some e) \<noteq> None"
  by (simp add: stageError_def)

lemma findStorageIP_error:
  "findStorageIP lib addr pk = (sip, Some e) \<Longrightarrow> \<exists>pub. sip = zero_ip \<or> sip = zero_ip\<lparr>ip_PublicKey := pub\<rparr>"
  by (auto simp: findStorageIP_def split: sum.splits option.splits list.splits prod.splits)

lemma findProviderIPs_error:
  "findProviderIPs lib sc = (ip, Some e) \<Longrightarrow> \<not> hasValidResolvedStorageEndpoint ip"
  by (auto simp: findProviderIPs_def Let_def split: sum.splits prod.splits option.splits dest!: findStorageIP_error)

lemma resolve_one_unfold:
  "resolve_one lib contract st =
     (case findProviderIPs lib contract of
        (_, Some err) \<Rightarrow>
          st\<lparr>rf_notFound := rf_notFound st @ [rel_ProviderPublicKey contract],
             rf_errors := (if map_of (rf_errors st) (rel_ProviderPublicKey contract) = None
                           then AList.update (rel_ProviderPublicKey contract) err (rf_errors st) else rf_errors st)\<rparr>
      | (ip, None) \<Rightarrow>
          if hasValidResolvedStorageEndpoint ip
          then st\<lparr>rf_available := AList.update (rel_ProviderPublicKey contract) ip (rf_available st),
                  rf_persist := AList.update (rel_ProviderPublicKey contract) ip (rf_persist st),
                  rf_lastKnown := AList.update (rel_ProviderPublicKey contract) ip (rf_lastKnown st)\<rparr>
          else st)"
  by (auto simp: resolve_one_def Let_def dest: findProviderIPs_error split: prod.splits option.splits)

section \<open>The returned map is the cache\<close>

definition valid_only :: "provider_ip option \<Rightarrow> provider_ip option" where
  "valid_only x = (case x of None \<Rightarrow> None | Some ip \<Rightarrow> if hasValidResolvedStorageEndpoint ip then Some ip else None)"

lemma valid_only_simps [simp]:
  "valid_only None = None" "hasValidResolvedStorageEndpoint ip \<Longrightarrow> valid_only (Some ip) = Some ip"
  by (simp_all add: valid_only_def)

lemma valid_only_Some: "valid_only x = Some ip \<longleftrightarrow> x = Some ip \<and> hasValidResolvedStorageEndpoint ip"
  by (auto simp: valid_only_def split: option.splits)

definition refresh_inv :: "string set \<Rightarrow> refresh_state \<Rightarrow> bool" where
  "refresh_inv pks st \<longleftrightarrow>
     (\<forall>k. map_of (rf_available st) k = (if k \<in> pks then valid_only (map_of (rf_lastKnown st) k) else None)) \<and>
     (\<forall>k ip. map_of (rf_persist st) k = Some ip \<longrightarrow> map_of (rf_available st) k = Some ip)"

lemma refresh_invD:
  "refresh_inv pks st \<Longrightarrow> map_of (rf_available st) k = (if k \<in> pks then valid_only (map_of (rf_lastKnown st) k) else None)"
  "refresh_inv pks st \<Longrightarrow> map_of (rf_persist st) k = Some ip \<Longrightarrow> map_of (rf_available st) k = Some ip"
  unfolding refresh_inv_def by blast+

lemma refresh_invI:
  assumes "\<And>k. map_of (rf_available st) k = (if k \<in> pks then valid_only (map_of (rf_lastKnown st) k) else None)"
    and "\<And>k ip. map_of (rf_persist st) k = Some ip \<Longrightarrow> map_of (rf_available st) k = Some ip"
  shows "refresh_inv pks st"
  unfolding refresh_inv_def using assms by blast

text \<open>Writing a valid endpoint to all three maps, the way both passes do.\<close>

definition learn :: "string \<Rightarrow> provider_ip \<Rightarrow> refresh_state \<Rightarrow> refresh_state" where
  "learn pk ip st = st\<lparr>rf_available := AList.update pk ip (rf_available st),
     rf_persist := AList.update pk ip (rf_persist st), rf_lastKnown := AList.update pk ip (rf_lastKnown st)\<rparr>"

lemma refresh_inv_learn:
  "refresh_inv pks st \<Longrightarrow> pk \<in> pks \<Longrightarrow> hasValidResolvedStorageEndpoint ip \<Longrightarrow> refresh_inv pks (learn pk ip st)"
proof (rule refresh_invI)
  assume inv: "refresh_inv pks st" and ok: "pk \<in> pks" "hasValidResolvedStorageEndpoint ip"
  show "map_of (rf_available (learn pk ip st)) k = (if k \<in> pks then valid_only (map_of (rf_lastKnown (learn pk ip st)) k) else None)" for k
    using ok refresh_invD(1) [OF inv, of k] by (simp add: learn_def)
  show "map_of (rf_available (learn pk ip st)) k = Some ip'" if "map_of (rf_persist (learn pk ip st)) k = Some ip'" for k ip'
    using that refresh_invD(2) [OF inv, of k ip'] by (simp add: learn_def split: if_splits)
qed

lemma resolve_one_cases:
  "(\<exists>ip. findProviderIPs lib sc = (ip, None) \<and> hasValidResolvedStorageEndpoint ip \<and>
      resolve_one lib sc st = learn (rel_ProviderPublicKey sc) ip st) \<or>
   (rf_available (resolve_one lib sc st) = rf_available st \<and> rf_persist (resolve_one lib sc st) = rf_persist st \<and>
    rf_lastKnown (resolve_one lib sc st) = rf_lastKnown st)"
  by (auto simp: resolve_one_unfold learn_def split: prod.splits option.splits)

lemma overlay_one_cases:
  "fst (overlay_one lib sh cs pk (st, ov)) = st \<or>
   (\<exists>ip. map_of (rf_available st) pk \<noteq> None \<and> hasValidResolvedStorageEndpoint ip \<and>
      fst (overlay_one lib sh cs pk (st, ov)) = learn pk ip st)"
proof (cases "map_of (rf_available st) pk")
  case None
  then show ?thesis by (simp add: overlay_one_def go_get_def zero_provider_ip_def zero_ip_def)
next
  case (Some ip)
  then show ?thesis
    by (auto simp: overlay_one_def learn_def Let_def split: sum.splits)
qed

lemma resolve_fold_inv:
  "refresh_inv pks st \<Longrightarrow> rel_ProviderPublicKey ` set scs \<subseteq> pks \<Longrightarrow> refresh_inv pks (fold (resolve_one lib) scs st)"
proof (induction scs arbitrary: st)
  case (Cons sc scs)
  have "refresh_inv pks (resolve_one lib sc st)"
    using resolve_one_cases [of lib sc st]
  proof
    assume "\<exists>ip. findProviderIPs lib sc = (ip, None) \<and> hasValidResolvedStorageEndpoint ip \<and>
      resolve_one lib sc st = learn (rel_ProviderPublicKey sc) ip st"
    then show ?thesis using Cons.prems by (auto intro: refresh_inv_learn)
  next
    assume "rf_available (resolve_one lib sc st) = rf_available st \<and> rf_persist (resolve_one lib sc st) = rf_persist st \<and>
      rf_lastKnown (resolve_one lib sc st) = rf_lastKnown st"
    then show ?thesis using Cons.prems(1) unfolding refresh_inv_def by metis
  qed
  then show ?case using Cons by simp
qed simp

lemma overlay_fold_inv:
  "refresh_inv pks st \<Longrightarrow> refresh_inv pks (fst (fold (overlay_one lib sh cs) xs (st, ov)))"
proof (induction xs arbitrary: st ov)
  case (Cons pk xs)
  obtain st' ov' where o: "overlay_one lib sh cs pk (st, ov) = (st', ov')" by fastforce
  have "refresh_inv pks st'"
    using overlay_one_cases [of lib sh cs pk st ov] o Cons.prems refresh_invD(1) [OF Cons.prems, of pk]
    by (auto intro!: refresh_inv_learn split: if_splits)
  then show ?case using Cons.IH o by simp
qed simp

lemma cached_ips_map:
  "map_of (cached_ips pks lk) k = (if k \<in> set pks then valid_only (map_of lk k) else None)"
  by (induction pks rule: rev_induct) (auto simp: cached_ips_def valid_only_def split: option.splits)

lemma unique_providers_snoc:
  "unique_providers (scs @ [sc]) =
     (if map_of (unique_providers scs) (rel_ProviderPublicKey sc) = None
      then AList.update (rel_ProviderPublicKey sc) sc (unique_providers scs) else unique_providers scs)"
  by (simp add: unique_providers_def)

lemma unique_providers_dom: "dom (map_of (unique_providers scs)) = rel_ProviderPublicKey ` set scs"
proof (induction scs rule: rev_induct)
  case (snoc sc scs)
  show ?case
  proof (cases "map_of (unique_providers scs) (rel_ProviderPublicKey sc) = None")
    case True
    then show ?thesis unfolding unique_providers_snoc using snoc by (simp add: dom_if) blast
  next
    case False
    then have "rel_ProviderPublicKey sc \<in> rel_ProviderPublicKey ` set scs" using snoc by blast
    then show ?thesis unfolding unique_providers_snoc if_not_P [OF False] using snoc by (simp add: insert_absorb)
  qed
qed (simp add: unique_providers_def)

lemma unique_providers_Some:
  "map_of (unique_providers scs) k = Some sc \<Longrightarrow> sc \<in> set scs \<and> rel_ProviderPublicKey sc = k"
proof (induction scs rule: rev_induct)
  case (snoc sc' scs)
  then show ?case by (auto simp: unique_providers_snoc split: if_splits)
qed (simp add: unique_providers_def)

lemma refresh_targets_sub:
  assumes "order_ok (re_targetOrder env)" "sc \<in> set (refresh_targets env states scs staleOnly)"
  shows "sc \<in> set scs"
proof -
  obtain k where "k \<in> dom (map_of (unique_providers scs))" "sc = the (map_of (unique_providers scs) k)"
    using assms by (auto simp: refresh_targets_def Let_def set_range_keys)
  then show ?thesis using unique_providers_Some by fastforce
qed

text \<open>The environment only chooses orders.\<close>

definition refresh_env_ok :: "('addr, 's) refresh_env \<Rightarrow> bool" where
  "refresh_env_ok env \<longleftrightarrow> order_ok (re_targetOrder env) \<and> order_ok (re_cacheOrder env) \<and> order_ok (re_persistOrder env) \<and>
     (\<forall>xs. mset (re_perm env xs) = mset xs)"

definition refresh_start :: "('addr, 's) refresh_env \<Rightarrow> contract_relation list \<Rightarrow> provider_ip go_map \<Rightarrow> refresh_state" where
  "refresh_start env scs lastKnown =
     \<lparr>rf_available = cached_ips (range_keys (re_cacheOrder env) (unique_providers scs)) lastKnown, rf_persist = [],
      rf_lastKnown = lastKnown, rf_notFound = [], rf_errors = []\<rparr>"

definition refresh_end ::
  "('addr, 's) refresh_env \<Rightarrow> contract_relation list \<Rightarrow> contract_relation list \<Rightarrow> provider_ip go_map \<Rightarrow> refresh_state \<times> go_error go_map" where
  "refresh_end env scs targets lastKnown =
     (let st = fold (resolve_one (re_lib env)) (re_perm env targets) (refresh_start env scs lastKnown)
      in fold (overlay_one (re_lib env) (re_shuffle env) (provider_contracts scs)) (rf_notFound st) (st, []))"

lemma refresh_start_inv:
  "order_ok (re_cacheOrder env) \<Longrightarrow> refresh_inv (rel_ProviderPublicKey ` set scs) (refresh_start env scs lastKnown)"
  by (rule refresh_invI) (auto simp: refresh_start_def cached_ips_map set_range_keys unique_providers_dom)

lemma refresh_end_inv:
  assumes "refresh_env_ok env"
  shows "refresh_inv (rel_ProviderPublicKey ` set scs) (fst (refresh_end env scs (refresh_targets env states scs staleOnly) lastKnown))"
proof -
  let ?ts = "refresh_targets env states scs staleOnly"
  have "set (re_perm env ?ts) = set ?ts"
    using assms by (metis refresh_env_ok_def mset_eq_setD)
  then have "rel_ProviderPublicKey ` set (re_perm env ?ts) \<subseteq> rel_ProviderPublicKey ` set scs"
    using assms refresh_targets_sub [of env _ states scs staleOnly] by (auto simp: refresh_env_ok_def)
  then show ?thesis
    using assms by (simp add: refresh_end_def Let_def refresh_env_ok_def overlay_fold_inv resolve_fold_inv refresh_start_inv)
qed

lemma refreshProvidersEndpoints_Inr:
  assumes "refreshProvidersEndpoints env scs staleOnly rec lastKnown db = (Inr avail, rec', lastKnown', db')" "scs \<noteq> []"
    "re_getState env (range_keys (re_pubkeyOrder env) (unique_providers scs)) db = Inr rows"
    "\<not> (staleOnly \<and> refresh_targets env (build_map pes_PublicKey (\<lambda>r. r) rows []) scs staleOnly = [])"
  shows "\<exists>st ov. refresh_end env scs (refresh_targets env (build_map pes_PublicKey (\<lambda>r. r) rows []) scs staleOnly) lastKnown = (st, ov) \<and>
    avail = rf_available st \<and> lastKnown' = rf_lastKnown st \<and>
    (if rf_persist st = [] then db' = db
     else re_updateIPs env (map (\<lambda>pk. the (map_of (rf_persist st) pk)) (range_keys (re_persistOrder env) (rf_persist st))) db = (None, db'))"
  using assms
  by (auto simp: refreshProvidersEndpoints_def persist_endpoints_def refresh_end_def refresh_start_def Let_def split: prod.splits option.splits if_splits)

text \<open>
  What a refresh returns is what the worker remembers: for every order of the map loops and every
  order in which the lookups finish, a successful refresh returns, for each provider of the batch, the
  cached endpoint if that one is usable (an IP, a positive port, a 32-byte key) and nothing otherwise;
  the rows it hands to the database are a nonempty set of endpoints it also returns.
\<close>

theorem refresh_available_is_cache:
  assumes "refresh_env_ok env" "scs \<noteq> []"
    "refreshProvidersEndpoints env scs False rec lastKnown db = (Inr avail, rec', lastKnown', db')"
  shows "map_of avail pk = (if pk \<in> rel_ProviderPublicKey ` set scs then valid_only (map_of lastKnown' pk) else None) \<and>
    (db' = db \<or> (\<exists>rows. rows \<noteq> [] \<and> set rows \<subseteq> ran (map_of avail) \<and> re_updateIPs env rows db = (None, db')))"
proof -
  let ?s = "re_getState env (range_keys (re_pubkeyOrder env) (unique_providers scs)) db"
  obtain states where s: "?s = Inr states"
    using assms(2,3) by (cases ?s) (auto simp: refreshProvidersEndpoints_def persist_endpoints_def Let_def)
  obtain st ov where e:
    "refresh_end env scs (refresh_targets env (build_map pes_PublicKey (\<lambda>r. r) states []) scs False) lastKnown = (st, ov)"
    "avail = rf_available st" "lastKnown' = rf_lastKnown st"
    "if rf_persist st = [] then db' = db
     else re_updateIPs env (map (\<lambda>pk. the (map_of (rf_persist st) pk)) (range_keys (re_persistOrder env) (rf_persist st))) db = (None, db')"
    using refreshProvidersEndpoints_Inr [OF assms(3,2) s] by auto
  have inv: "refresh_inv (rel_ProviderPublicKey ` set scs) st"
    using refresh_end_inv [OF assms(1)] e(1) by (metis fst_conv)
  let ?rows = "map (\<lambda>pk. the (map_of (rf_persist st) pk)) (range_keys (re_persistOrder env) (rf_persist st))"
  have keys: "set (range_keys (re_persistOrder env) (rf_persist st)) = dom (map_of (rf_persist st))"
    using assms(1) by (simp add: refresh_env_ok_def set_range_keys)
  have "set ?rows \<subseteq> ran (map_of avail)"
    using refresh_invD(2) [OF inv] by (auto simp: keys e(2) ran_def) blast
  moreover have "?rows \<noteq> []" if "rf_persist st \<noteq> []"
    using that keys by (cases "rf_persist st") auto
  ultimately show ?thesis using refresh_invD(1) [OF inv] e(2-4) by (metis (no_types, lifting))
qed

text \<open>An error of every lookup of a provider leaves what the cache has; without that the overlay is not asked.\<close>

lemma resolve_fold_keeps:
  assumes "\<And>sc. sc \<in> set scs \<Longrightarrow> rel_ProviderPublicKey sc = pk \<Longrightarrow> snd (findProviderIPs lib sc) \<noteq> None"
  shows "map_of (rf_available (fold (resolve_one lib) scs st)) pk = map_of (rf_available st) pk"
  using assms
proof (induction scs arbitrary: st)
  case (Cons sc scs)
  have "map_of (rf_available (resolve_one lib sc st)) pk = map_of (rf_available st) pk"
    using resolve_one_cases [of lib sc st] Cons.prems [of sc] by (auto simp: learn_def)
  then show ?case using Cons by simp
qed simp

lemma overlay_fold_None:
  "map_of (rf_available st) pk = None \<Longrightarrow> map_of (rf_available (fst (fold (overlay_one lib sh cs) xs (st, ov)))) pk = None"
proof (induction xs arbitrary: st ov)
  case (Cons x xs)
  obtain st' ov' where o: "overlay_one lib sh cs x (st, ov) = (st', ov')" by fastforce
  have "map_of (rf_available st') pk = None"
    using overlay_one_cases [of lib sh cs x st ov] o Cons.prems by (auto simp: learn_def)
  then show ?case using Cons.IH o by simp
qed simp

text \<open>
  The overlay search cannot help a provider that has no usable cached endpoint: when the lookup
  through its DHT record fails, the provider is not available after the refresh, whatever the
  overlays of its bags would answer, because the search starts from an address only the cache holds.
\<close>

theorem overlay_needs_cache:
  assumes "refresh_env_ok env" "scs \<noteq> []"
    "refreshProvidersEndpoints env scs False rec lastKnown db = (Inr avail, rec', lastKnown', db')"
    "valid_only (map_of lastKnown pk) = None"
    "\<And>sc. sc \<in> set scs \<Longrightarrow> rel_ProviderPublicKey sc = pk \<Longrightarrow> snd (findProviderIPs (re_lib env) sc) \<noteq> None"
  shows "map_of avail pk = None"
proof -
  let ?s = "re_getState env (range_keys (re_pubkeyOrder env) (unique_providers scs)) db"
  obtain states where s: "?s = Inr states"
    using assms(2,3) by (cases ?s) (auto simp: refreshProvidersEndpoints_def persist_endpoints_def Let_def)
  let ?ts = "refresh_targets env (build_map pes_PublicKey (\<lambda>r. r) states []) scs False"
  obtain st ov where e: "refresh_end env scs ?ts lastKnown = (st, ov)" "avail = rf_available st"
    using refreshProvidersEndpoints_Inr [OF assms(3,2) s] by auto
  have "set (re_perm env ?ts) = set ?ts"
    using assms(1) by (metis refresh_env_ok_def mset_eq_setD)
  then have "map_of (rf_available (fold (resolve_one (re_lib env)) (re_perm env ?ts) (refresh_start env scs lastKnown))) pk =
      map_of (rf_available (refresh_start env scs lastKnown)) pk"
    using assms(1,5) refresh_targets_sub [of env] by (intro resolve_fold_keeps) (simp add: refresh_env_ok_def)
  also have "\<dots> = None"
    using assms(4) by (simp add: refresh_start_def cached_ips_map)
  finally show ?thesis
    using overlay_fold_None e by (metis (no_types, lifting) fst_conv refresh_end_def)
qed

text \<open>A DHT in which the record of provider \<open>aa\<close> is found, and the storage of no provider answers.\<close>

definition dht_sample :: "unit resolve_lib" where
  "dht_sample = \<lparr>rl_ParseAddr = (\<lambda>_. Inr ()), rl_hashKey = Inr, rl_FindValue = Inr, rl_ParseRecord = Inr,
     rl_FindAddresses = (\<lambda>k. if k = [170] then Inr (Some [(Some ''1.2.3.4'', 17)], replicate 32 7) else Inl (ErrText ''none'')),
     rl_VerifyStorageADNLProof = (\<lambda>i pk _. if pk = [170] then Inr pk else Inl (ErrText ''timeout'')),
     rl_FindOverlayNodes = (\<lambda>_. Inr (Some [Some [170]]))\<rparr>"

definition refresh_sample :: "(unit, provider_ip list) refresh_env" where
  "refresh_sample = \<lparr>re_lib = dht_sample, re_cfg = \<lparr>ecf_StaleTTL = 1, ecf_FullRefreshInterval = 1, ecf_FailInterval = 1\<rparr>, re_now = 0,
     re_pubkeyOrder = (\<lambda>ks. ks), re_targetOrder = rev, re_cacheOrder = rev, re_persistOrder = (\<lambda>ks. ks), re_perm = rev,
     re_shuffle = rev, re_getState = (\<lambda>_ _. Inr []), re_getLast = (\<lambda>_ _. Inr []), re_updateIPs = (\<lambda>rows db. (None, rows))\<rparr>"

definition refresh_batch :: "contract_relation list" where
  "refresh_batch = map (\<lambda>pk. \<lparr>rel_ProviderPublicKey = pk, rel_ProviderAddress = ''EQp'', rel_Address = ''EQc'',
     rel_BagID = ''00'', rel_Size = 10, rel_Reason = None\<rparr>) [''aa'', ''bb'']"

lemma refresh_sample_ok: "refresh_env_ok refresh_sample"
  by (simp add: refresh_env_ok_def refresh_sample_def)

lemma refresh_sample_run:
  "fst (refreshProvidersEndpoints refresh_sample refresh_batch False None [] []) =
     Inr [(''aa'', \<lparr>pip_PublicKey = ''aa'', pip_Storage = \<lparr>ip_PublicKey = replicate 32 7, ip_IP = ''1.2.3.4'', ip_Port = 17\<rparr>,
                    pip_Provider = \<lparr>ip_PublicKey = replicate 32 7, ip_IP = ''1.2.3.4'', ip_Port = 17\<rparr>\<rparr>)]"
  by code_simp

theorem refresh_available_is_cache_witness:
  "\<exists>avail rec' lk db'. refreshProvidersEndpoints refresh_sample refresh_batch False None [] [] = (Inr avail, rec', lk, db') \<and>
     map_of avail ''aa'' = valid_only (map_of lk ''aa'') \<and> map_of avail ''cc'' = None"
proof -
  obtain rec' lk db' avail where r:
    "refreshProvidersEndpoints refresh_sample refresh_batch False None [] [] = (Inr avail, rec', lk, db')"
    using refresh_sample_run by (metis fst_conv surj_pair)
  have "refresh_batch \<noteq> []" by (simp add: refresh_batch_def)
  note x = refresh_available_is_cache [OF refresh_sample_ok this r]
  have "map_of avail ''aa'' = valid_only (map_of lk ''aa'')" "map_of avail ''cc'' = None"
    using x [of "''aa''"] x [of "''cc''"] by (auto simp: refresh_batch_def)
  then show ?thesis using r by blast
qed

theorem overlay_needs_cache_witness:
  "\<exists>avail rec' lk db'. refreshProvidersEndpoints refresh_sample refresh_batch False None [] [] = (Inr avail, rec', lk, db') \<and>
     map_of avail ''bb'' = None"
proof -
  obtain rec' lk db' avail where r:
    "refreshProvidersEndpoints refresh_sample refresh_batch False None [] [] = (Inr avail, rec', lk, db')"
    using refresh_sample_run by (metis fst_conv surj_pair)
  have ne: "refresh_batch \<noteq> []" by (simp add: refresh_batch_def)
  have f: "\<forall>sc \<in> set refresh_batch. rel_ProviderPublicKey sc = ''bb'' \<longrightarrow> snd (findProviderIPs (re_lib refresh_sample) sc) \<noteq> None"
    by code_simp
  have "map_of avail ''bb'' = None"
    by (rule overlay_needs_cache [OF refresh_sample_ok ne r]) (use f in auto)
  then show ?thesis using r by blast
qed

end
