(* ===== verification/StoreProof.thy ===== *)
theory StoreProof
  imports Commit Rejected EndpointRefresh
begin

text \<open>
  \<^verbatim>\<open>coordinator/internal/workers/providersMaster/worker.go\<close>: one storage-proof cycle, \<^verbatim>\<open>StoreProof\<close>, and
  the pass over the agents it runs once or twice, \<^verbatim>\<open>runStoreProofChecks\<close>.

  What the worker keeps between cycles is \<open>master_state\<close>; \<open>'s\<close> is the state of the database.  A cycle
  takes place in an \<open>sp_env\<close>: the configuration, the repository and TON client calls, one environment
  per endpoint refresh and per pass (the network answers differently each time), the orders of map
  loops, and the readings of the clock in the order the code makes them.  \<open>sp_ctxErr\<close> is the error of a
  context that ends before the timer of \<^verbatim>\<open>waitUntil\<close>.  What the deadline of the retry's context does
  to its calls is part of the outcomes of these calls.
\<close>

section \<open>One pass over the agents\<close>

record pass_env =
  pe_call :: "(run_checks_request, run_checks_response option) agent_call"
  pe_nowUnix :: time
  pe_groupOrder :: order
  pe_itemOrder :: order
  pe_perm :: "string list \<Rightarrow> string list"

definition fanoutRunChecks ::
  "pass_env \<Rightarrow> agent_client option \<Rightarrow> run_checks_request \<Rightarrow> (provider_batch list) go_map \<Rightarrow>
     (string \<times> run_checks_response option) list \<times> (string \<times> go_error) list" where
  "fanoutRunChecks penv cl base byEndpoint =
     (let items = filter (\<lambda>ep. go_get [] byEndpoint ep \<noteq> []) (range_keys (pe_itemOrder penv) byEndpoint)
      in if items = [] then ([], [])
         else collect_calls
                (\<lambda>ep. client_RunChecks (pe_call penv) cl ep
                        \<lparr>rq_JobId = rq_JobId base, rq_Providers = map Some (go_get [] byEndpoint ep),
                         rq_Timeouts = rq_Timeouts base\<rparr>)
                (pe_perm penv items))"

definition snapshotProviderAgentSuccess :: "string go_map \<Rightarrow> string go_map" where
  "snapshotProviderAgentSuccess m = (if m = [] then [] else fold (\<lambda>(k, v). AList.update k v) m [])"

definition updateProviderAgentSuccess ::
  "contract_relation list \<Rightarrow> merged_contract_check go_map \<Rightarrow> string go_map \<Rightarrow> string go_map \<Rightarrow> string go_map" where
  "updateProviderAgentSuccess scs results assignment success =
     (if results = [] \<or> assignment = [] then success
      else fold (\<lambda>sc m.
             case map_of results (contractRelationKey sc) of
               None \<Rightarrow> m
             | Some row \<Rightarrow>
                if cpc_Reason (mc_Check row) \<noteq> ValidStorageProof then m
                else (let endpoint = go_get [] assignment (rel_ProviderPublicKey sc)
                      in if endpoint = [] then m else AList.update (rel_ProviderPublicKey sc) endpoint m))
           scs success)"

definition record_unresolved :: "unit go_map \<Rightarrow> contract_relation list \<Rightarrow> recorder option \<Rightarrow> recorder option" where
  "record_unresolved checkedKeys scs rec =
     fold (\<lambda>sc rec. if map_of checkedKeys (contractRelationKey sc) = None then RecordBagEndpointUnresolved sc rec else rec) scs rec"

definition record_results ::
  "merged_contract_check go_map \<Rightarrow> contract_relation list \<Rightarrow> recorder option \<Rightarrow> recorder option" where
  "record_results results scs rec =
     fold (\<lambda>sc rec. case map_of results (contractRelationKey sc) of
                      None \<Rightarrow> rec
                    | Some row \<Rightarrow> RecordBagTransition sc (cpc_Reason (mc_Check row)) (mc_Stage row) (mc_Details row) rec) scs rec"

text \<open>
  Results, assignment and error, with the recorder and the memory of successful agents.  The error
  for an assignment that fails stands for the panic of \<^verbatim>\<open>pickAgent\<close> on no candidates, which
  \<open>assign_total\<close> excludes.
\<close>

definition runStoreProofChecks ::
  "run_checks_timeouts \<Rightarrow> agent_client option \<Rightarrow> pass_env \<Rightarrow> string \<Rightarrow> contract_relation list \<Rightarrow> provider_ip go_map \<Rightarrow>
   recorder option \<Rightarrow> string go_map \<Rightarrow> string go_map \<Rightarrow>
     (merged_contract_check go_map \<times> string go_map \<times> go_error option) \<times> recorder option \<times> string go_map" where
  "runStoreProofChecks tmo cl penv jobID scs ips rec exclude success =
     (if AgentCount cl = 0 then (([], [], Some (ErrText ''no configured agent clients for RunChecks'')), rec, success)
      else if scs = [] then (([], [], None), rec, success)
      else
       (let (req, providerCount, checkedKeys) = buildRunChecksRPCRequest tmo (pe_groupOrder penv) (pe_nowUnix penv) jobID scs ips
        in if providerCount = 0
           then ((buildBagCheckResults scs checkedKeys [], [], None), record_unresolved checkedKeys scs rec, success)
           else if Endpoints cl = [] then (([], [], Some (ErrText ''no configured agent endpoints for RunChecks'')), rec, success)
           else
            (case assignProvidersToAgents (rq_Providers req) (Endpoints cl) (snapshotProviderAgentSuccess success) exclude of
               None \<Rightarrow> (([], [], Some (ErrText ''index out of range'')), rec, success)
             | Some shard \<Rightarrow>
                (let assignment = pa_byProvider shard;
                     (responses, callErrs) = fanoutRunChecks penv cl req (pa_byEndpoint shard)
                 in if responses = []
                    then (([], assignment, Some (ErrText ''all agents are unavailable for RunChecks'')), rec, success)
                    else
                     (let (merged, valid) = mergeRunChecksResponses scs responses;
                          results = buildBagCheckResults scs checkedKeys merged
                      in ((results, assignment, None), record_results results scs rec,
                          updateProviderAgentSuccess scs results assignment success))))))"

section \<open>A cycle\<close>

record store_proof_config =
  spc_Interval :: duration
  spc_RetryDelay :: duration

definition defaultStoreProofInterval :: duration where "defaultStoreProofInterval = 3600000000000"
definition storeProofFailureInterval :: duration where "storeProofFailureInterval = 15000000000"

record master_state =
  ms_lastKnownIPs :: "provider_ip go_map"
  ms_providerAgentSuccess :: "string go_map"

record ('addr, 's) sp_env =
  sp_cfg :: store_proof_config
  sp_timeouts :: run_checks_timeouts
  sp_client :: "agent_client option"
  sp_stale :: "('addr, 's) refresh_env"
  sp_full :: "('addr, 's) refresh_env"
  sp_forced :: "('addr, 's) refresh_env"
  sp_main :: pass_env
  sp_retry :: pass_env
  sp_rejectOrder :: order
  sp_mainOrder :: order
  sp_finalOrder :: order
  sp_refreshedOrder :: order
  sp_GetStorageContracts :: "'s \<Rightarrow> go_error + contract_relation list"
  sp_GetProvidersInfo :: "string list \<Rightarrow> go_error + contract_providers list"
  sp_UpdateRejected :: "contract_relation list \<Rightarrow> 's \<Rightarrow> go_error option \<times> 's"
  sp_UpdateContractProofsChecks :: "contract_proofs_check list \<Rightarrow> 's \<Rightarrow> go_error option \<times> 's"
  sp_UpdateStatuses :: "'s \<Rightarrow> go_error option \<times> 's"
  sp_InsertProviderEvents :: "provider_pipeline_event list \<Rightarrow> 's \<Rightarrow> go_error option \<times> 's"
  sp_InsertBagEvents :: "bag_pipeline_event list \<Rightarrow> 's \<Rightarrow> go_error option \<times> 's"
  sp_started :: time
  sp_rejectedAt :: int
  sp_decideAt :: time
  sp_sleepAt :: time
  sp_waitAt :: time
  sp_wokenAt :: time
  sp_endAt :: time
  sp_ctxErr :: "go_error option"

definition nextFullAt :: "('addr, 's) sp_env \<Rightarrow> time" where
  "nextFullAt env =
     sp_started env + (if spc_Interval (sp_cfg env) \<le> 0 then defaultStoreProofInterval else spc_Interval (sp_cfg env))"

definition remain :: "('addr, 's) sp_env \<Rightarrow> duration" where
  "remain env = (let d = nextFullAt env - sp_endAt env in if d < 0 then 0 else d)"

definition retryDeadline :: "('addr, 's) sp_env \<Rightarrow> time" where
  "retryDeadline env = nextFullAt env - storeProofRetryBuffer"

definition waitUntil :: "go_error option \<Rightarrow> time \<Rightarrow> time \<Rightarrow> go_error option" where
  "waitUntil ctxErr now due = (if due - now \<le> 0 then None else ctxErr)"

definition sp_flush :: "('addr, 's) sp_env \<Rightarrow> recorder option \<Rightarrow> 's \<Rightarrow> 's" where
  "sp_flush env rec db = snd (Flush (sp_InsertProviderEvents env) (sp_InsertBagEvents env) rec db)"

text \<open>Writing what the main pass deferred when there is no retry, as three places of the code do.\<close>

definition commit_deferred ::
  "('addr, 's) sp_env \<Rightarrow> merged_contract_check go_map \<Rightarrow> unit go_map \<Rightarrow> 's \<Rightarrow> go_error option \<times> 's" where
  "commit_deferred env mainResults pendingKeys db =
     (let finalCommit = selectFinalProofsCommit (sp_finalOrder env) mainResults pendingKeys None
      in if finalCommit = [] then (None, db)
         else case sp_UpdateContractProofsChecks env finalCommit db of
                (Some err, db) \<Rightarrow> (Some err, db)
              | (None, db) \<Rightarrow> sp_UpdateStatuses env db)"

definition deferred_result :: "('addr, 's) sp_env \<Rightarrow> go_error option \<times> 's \<Rightarrow> (duration \<times> go_error option) \<times> 's" where
  "deferred_result env r =
     (case r of
        (Some err, db) \<Rightarrow> ((storeProofFailureInterval, Some err), db)
      | (None, db) \<Rightarrow> ((remain env, None), db))"

definition sp_runID :: "('addr, 's) sp_env \<Rightarrow> string" where
  "sp_runID env = ''storeproof-'' @ Itoa (sp_started env div 1000000000)"

definition sp_recorder :: "('addr, 's) sp_env \<Rightarrow> recorder" where
  "sp_recorder env = NewRecorder True (sp_runID env) ''StoreProof''"

text \<open>The endpoints of the retry: what the refresh found replaces what was known.\<close>

definition retry_ips :: "('addr, 's) sp_env \<Rightarrow> go_error + provider_ip go_map \<Rightarrow> provider_ip go_map \<Rightarrow> provider_ip go_map" where
  "retry_ips env refreshed ips =
     (case refreshed of
        Inl _ \<Rightarrow> ips
      | Inr m \<Rightarrow> fold (\<lambda>pk. AList.update pk (the (map_of m pk))) (range_keys (sp_refreshedOrder env) m) ips)"

text \<open>The second pass: forced refresh of the pending providers, agents other than before, final commit.\<close>

definition retry_pass ::
  "('addr, 's) sp_env \<Rightarrow> contract_relation list \<Rightarrow> merged_contract_check go_map \<Rightarrow> unit go_map \<Rightarrow> provider_ip go_map \<Rightarrow>
   string go_map \<Rightarrow> master_state \<Rightarrow> 's \<Rightarrow> (duration \<times> go_error option) \<times> master_state \<times> 's" where
  "retry_pass env scs mainResults pendingKeys availableIPs mainAssignment ms db =
     (let pending = pendingContracts scs pendingKeys;
          (refreshed, rec, lastKnown, db) =
            refreshProvidersEndpoints (sp_forced env) pending False (Some (sp_recorder env)) (ms_lastKnownIPs ms) db;
          ms = ms\<lparr>ms_lastKnownIPs := lastKnown\<rparr>;
          availableIPs = retry_ips env refreshed availableIPs;
          ((retryResults, _, retryErr), rec, success) =
            runStoreProofChecks (sp_timeouts env) (sp_client env) (sp_retry env) (sp_runID env @ ''-retry'') pending
              availableIPs rec mainAssignment (ms_providerAgentSuccess ms);
          ms = ms\<lparr>ms_providerAgentSuccess := success\<rparr>;
          finalCommit = selectFinalProofsCommit (sp_finalOrder env) mainResults pendingKeys
                          (if retryErr = None then Some retryResults else None)
      in case (if finalCommit \<noteq> [] then sp_UpdateContractProofsChecks env finalCommit db else (None, db)) of
           (Some err, db) \<Rightarrow> ((storeProofFailureInterval, Some err), ms, sp_flush env rec db)
         | (None, db) \<Rightarrow>
            (case sp_UpdateStatuses env db of
               (Some err, db) \<Rightarrow> ((storeProofFailureInterval, Some err), ms, sp_flush env rec db)
             | (None, db) \<Rightarrow> ((remain env, None), ms, sp_flush env rec db)))"

text \<open>What follows the commit of the main pass.\<close>

definition after_main ::
  "('addr, 's) sp_env \<Rightarrow> contract_relation list \<Rightarrow> merged_contract_check go_map \<Rightarrow> unit go_map \<Rightarrow> provider_ip go_map \<Rightarrow>
   string go_map \<Rightarrow> master_state \<Rightarrow> 's \<Rightarrow> (duration \<times> go_error option) \<times> master_state \<times> 's" where
  "after_main env scs mainResults pendingKeys availableIPs mainAssignment ms db =
     (let retryDelay = spc_RetryDelay (sp_cfg env)
      in if \<not> (pendingKeys \<noteq> [] \<and> retryDelay > 0 \<and> sp_decideAt env < retryDeadline env)
         then (if pendingKeys \<noteq> []
               then (case deferred_result env (commit_deferred env mainResults pendingKeys db) of (r, db) \<Rightarrow> (r, ms, db))
               else ((remain env, None), ms, db))
         else
          (let sleepUntil = sp_sleepAt env + retryDelay;
               sleepUntil = (if sleepUntil > retryDeadline env then retryDeadline env else sleepUntil)
           in case waitUntil (sp_ctxErr env) (sp_waitAt env) sleepUntil of
                Some err \<Rightarrow> ((remain env, Some err), ms, snd (commit_deferred env mainResults pendingKeys db))
              | None \<Rightarrow>
                 if \<not> sp_wokenAt env < retryDeadline env
                 then (case deferred_result env (commit_deferred env mainResults pendingKeys db) of (r, db) \<Rightarrow> (r, ms, db))
                 else retry_pass env scs mainResults pendingKeys availableIPs mainAssignment ms db))"

text \<open>The main pass and its commit.\<close>

definition main_pass ::
  "('addr, 's) sp_env \<Rightarrow> contract_relation list \<Rightarrow> provider_ip go_map \<Rightarrow> recorder option \<Rightarrow> master_state \<Rightarrow> 's \<Rightarrow>
     (duration \<times> go_error option) \<times> master_state \<times> 's" where
  "main_pass env scs availableIPs rec ms db =
     (let ((mainResults, mainAssignment, err), rec, success) =
            runStoreProofChecks (sp_timeouts env) (sp_client env) (sp_main env) (sp_runID env) scs availableIPs rec []
              (ms_providerAgentSuccess ms);
          ms = ms\<lparr>ms_providerAgentSuccess := success\<rparr>
      in case err of
           Some e \<Rightarrow> ((storeProofFailureInterval, Some e), ms, sp_flush env rec db)
         | None \<Rightarrow>
            (let (toCommit, pendingKeys) = selectMainProofsCommit (sp_mainOrder env) mainResults
             in case (if toCommit \<noteq> [] then sp_UpdateContractProofsChecks env toCommit db else (None, db)) of
                  (Some e, db) \<Rightarrow> ((storeProofFailureInterval, Some e), ms, sp_flush env rec db)
                | (None, db) \<Rightarrow>
                   (case sp_UpdateStatuses env db of
                      (Some e, db) \<Rightarrow> ((storeProofFailureInterval, Some e), ms, sp_flush env rec db)
                    | (None, db) \<Rightarrow>
                       after_main env scs mainResults pendingKeys availableIPs mainAssignment ms (sp_flush env rec db))))"

definition StoreProof ::
  "('addr, 's) sp_env \<Rightarrow> master_state \<Rightarrow> 's \<Rightarrow> (duration \<times> go_error option) \<times> master_state \<times> 's" where
  "StoreProof env ms db =
     (case sp_GetStorageContracts env db of
        Inl err \<Rightarrow> ((storeProofFailureInterval, Some err), ms, db)
      | Inr scs \<Rightarrow>
         (let (_, rec, lastKnown, db) =
                refreshProvidersEndpoints (sp_stale env) scs True (Some (sp_recorder env)) (ms_lastKnownIPs ms) db;
              ms = ms\<lparr>ms_lastKnownIPs := lastKnown\<rparr>
          in case updateRejectedContracts (sp_rejectOrder env) (sp_rejectedAt env) (sp_GetProvidersInfo env)
                    (sp_UpdateRejected env) scs db of
               (Inl err, db) \<Rightarrow> ((storeProofFailureInterval, Some err), ms, db)
             | (Inr active, db) \<Rightarrow>
                (case updateProvidersIPs (sp_full env) active rec (ms_lastKnownIPs ms) db of
                   (Inl err, rec, lastKnown, db) \<Rightarrow>
                     ((storeProofFailureInterval, Some err), ms\<lparr>ms_lastKnownIPs := lastKnown\<rparr>, db)
                 | (Inr available, rec, lastKnown, db) \<Rightarrow>
                     main_pass env active available rec (ms\<lparr>ms_lastKnownIPs := lastKnown\<rparr>) db)))"

section \<open>What a pass returns\<close>

lemma assign_total: "endpoints \<noteq> [] \<Longrightarrow> \<exists>out. assignProvidersToAgents providers endpoints sticky exclude = Some out"
  using assign_cases [of endpoints "\<lambda>_ _. True" providers sticky exclude] by blast

definition rel_pair :: "contract_relation \<Rightarrow> string \<times> string" where
  "rel_pair sc = (rel_ProviderAddress sc, rel_Address sc)"

definition row_pair :: "contract_proofs_check \<Rightarrow> string \<times> string" where
  "row_pair c = (cpc_ProviderAddress c, cpc_ContractAddress c)"

definition results_of :: "contract_relation list \<Rightarrow> merged_contract_check go_map \<Rightarrow> bool" where
  "results_of scs results \<longleftrightarrow> go_wf results \<and> dom (map_of results) = contractRelationKey ` set scs \<and>
     (\<forall>k row. map_of results k = Some row \<longrightarrow>
        (\<exists>sc \<in> set scs. contractRelationKey sc = k \<and> row_pair (mc_Check row) = rel_pair sc))"

lemma results_ofD:
  "results_of scs results \<Longrightarrow> map_of results k = Some row \<Longrightarrow>
   \<exists>sc \<in> set scs. contractRelationKey sc = k \<and> row_pair (mc_Check row) = rel_pair sc"
  unfolding results_of_def by blast

lemma merged_pair:
  "map_of (fst (mergeRunChecksResponses scs responses)) k = Some row \<Longrightarrow>
   \<exists>sc \<in> set scs. contractRelationKey sc = k \<and> row_pair (mc_Check row) = rel_pair sc"
  unfolding mergeRunChecksResponses_def merge_contracts_map [THEN conjunct1]
  by (drule build_map_Some) (auto simp: merged_entry_def row_pair_def rel_pair_def Let_def)

lemma bag_check_pair:
  assumes "\<And>k row. map_of merged k = Some row \<Longrightarrow>
      \<exists>sc \<in> set scs. contractRelationKey sc = k \<and> row_pair (mc_Check row) = rel_pair sc"
  shows "results_of scs (buildBagCheckResults scs checked merged)"
proof -
  have "\<exists>sc \<in> set scs. contractRelationKey sc = k \<and> row_pair (mc_Check row) = rel_pair sc"
    if r: "map_of (buildBagCheckResults scs checked merged) k = Some row" for k row
  proof -
    obtain sc where "sc \<in> set scs" "contractRelationKey sc = k" "row = bag_check_entry checked merged sc"
      using build_map_Some [OF r [unfolded buildBagCheckResults_def]] by auto
    then show ?thesis
      using assms [of k row] by (auto simp: bag_check_entry_def row_pair_def rel_pair_def Let_def split: if_splits option.splits)
  qed
  then show ?thesis by (simp add: results_of_def) (simp add: buildBagCheckResults_def dom_build_map)
qed

lemma pass_results_of:
  assumes "runStoreProofChecks tmo cl penv job scs ips rec exclude success = ((results, assignment, None), rec', success')"
  shows "results_of scs results"
proof (cases "scs = []")
  case True
  then show ?thesis using assms by (auto simp: runStoreProofChecks_def results_of_def split: if_splits)
next
  case False
  then obtain checked merged where "results = buildBagCheckResults scs checked merged"
    "merged = [] \<or> (\<exists>responses. merged = fst (mergeRunChecksResponses scs responses))"
    using assms by (auto simp: runStoreProofChecks_def Let_def split: if_splits prod.splits option.splits)
      (metis fst_conv)+
  then show ?thesis using bag_check_pair merged_pair by (metis map_of.simps(1) option.distinct(1))
qed

section \<open>What a cycle writes\<close>

lemma pending_sub: "set (pendingContracts scs pend) \<subseteq> set scs"
  by (auto simp: pendingContracts_def)

text \<open>Every key is written once, with the identifiers of a contract that has this key.\<close>

lemma committed_pair:
  assumes "results_of scs main" "case retry of None \<Rightarrow> True | Some results \<Rightarrow> results_of (pendingContracts scs pend) results"
    "k \<in> set (go_keys main)"
  shows "\<exists>sc \<in> set scs. contractRelationKey sc = k \<and> row_pair (committed_row main retry k) = rel_pair sc"
proof -
  have "\<exists>row. committed_row main retry k = mc_Check row \<and>
      (map_of main k = Some row \<or> (\<exists>results. retry = Some results \<and> map_of results k = Some row))"
    using assms(3) by (auto simp: committed_row_def Let_def go_get_def set_go_keys split: option.splits Option.bind_splits)
  then obtain row where row: "committed_row main retry k = mc_Check row"
    "map_of main k = Some row \<or> (\<exists>results. retry = Some results \<and> map_of results k = Some row)" by blast
  from row(2) show ?thesis
  proof
    assume "map_of main k = Some row"
    then show ?thesis using results_ofD [OF assms(1)] row(1) by simp
  next
    assume "\<exists>results. retry = Some results \<and> map_of results k = Some row"
    then obtain results where r: "results_of (pendingContracts scs pend) results" "map_of results k = Some row"
      using assms(2) by auto
    then show ?thesis using results_ofD [OF r] pending_sub row(1) by fastforce
  qed
qed

lemma committed_key:
  assumes "results_of scs main" "case retry of None \<Rightarrow> True | Some results \<Rightarrow> results_of (pendingContracts scs pend) results"
    "k \<in> set (go_keys main)"
  shows "k = fst (row_pair (committed_row main retry k)) @ ''|'' @ snd (row_pair (committed_row main retry k))"
  using committed_pair [OF assms] by (auto simp: contractRelationKey_def rel_pair_def)

lemma committed_distinct:
  assumes "results_of scs main" "case retry of None \<Rightarrow> True | Some results \<Rightarrow> results_of (pendingContracts scs pend) results"
  shows "distinct (map row_pair (map (committed_row main retry) (go_keys main)))"
proof -
  have "inj_on (\<lambda>k. row_pair (committed_row main retry k)) (set (go_keys main))"
    by (rule inj_onI) (metis committed_key [OF assms])
  moreover have "distinct (go_keys main)" using assms(1) by (simp add: results_of_def go_wf_def)
  ultimately show ?thesis by (simp add: distinct_map comp_def)
qed

lemma commits_distinct:
  assumes "results_of scs main" "case retry of None \<Rightarrow> True | Some results \<Rightarrow> results_of (pendingContracts scs pend) results"
    and "order_ok ord" "order_ok ord'"
  shows "distinct (map row_pair (fst (selectMainProofsCommit ord main)))"
    "distinct (map row_pair (selectFinalProofsCommit ord' main (snd (selectMainProofsCommit ord main)) retry))"
proof -
  have wf: "go_wf main" using assms(1) by (simp add: results_of_def)
  have "distinct (map row_pair (fst (selectMainProofsCommit ord main) @
      selectFinalProofsCommit ord' main (snd (selectMainProofsCommit ord main)) retry))"
    using committed_distinct [OF assms(1,2)] main_final_commit [OF wf assms(3,4), of retry]
    by (metis mset_map mset_eq_imp_distinct_iff)
  then show "distinct (map row_pair (fst (selectMainProofsCommit ord main)))"
    "distinct (map row_pair (selectFinalProofsCommit ord' main (snd (selectMainProofsCommit ord main)) retry))" by simp_all
qed

lemma committed_pairs:
  assumes "results_of scs main" "case retry of None \<Rightarrow> True | Some results \<Rightarrow> results_of (pendingContracts scs pend) results"
    "bar_free scs"
  shows "distinct (map row_pair (map (committed_row main retry) (go_keys main))) \<and>
    set (map row_pair (map (committed_row main retry) (go_keys main))) = rel_pair ` set scs"
proof -
  let ?f = "\<lambda>k. row_pair (committed_row main retry k)"
  note pair = committed_pair [OF assms(1,2)]
  have "distinct (map ?f (go_keys main))" using committed_distinct [OF assms(1,2)] by (simp add: comp_def)
  moreover have "?f ` set (go_keys main) = rel_pair ` set scs"
  proof (intro equalityI subsetI)
    fix p assume "p \<in> rel_pair ` set scs"
    then obtain sc where sc: "sc \<in> set scs" "p = rel_pair sc" by blast
    then have k: "contractRelationKey sc \<in> set (go_keys main)" using assms(1) by (simp add: results_of_def set_go_keys)
    then obtain sc' where sc': "sc' \<in> set scs" "contractRelationKey sc' = contractRelationKey sc" "?f (contractRelationKey sc) = rel_pair sc'"
      using pair by blast
    then have "?f (contractRelationKey sc) = p"
      using contractRelationKey_inj [OF assms(3) sc'(1) sc(1) sc'(2)] sc(2) by (simp add: rel_pair_def)
    then show "p \<in> ?f ` set (go_keys main)" using k by blast
  qed (use pair in fastforce)
  ultimately show ?thesis by (simp add: comp_def image_image)
qed

lemma refresh_db:
  "snd (snd (snd (refreshProvidersEndpoints renv scs staleOnly rec lk db))) = db \<or>
   (\<exists>rows. snd (snd (snd (refreshProvidersEndpoints renv scs staleOnly rec lk db))) = snd (re_updateIPs renv rows db))"
  by (auto simp: refreshProvidersEndpoints_def persist_endpoints_def Let_def split: prod.splits option.splits sum.splits if_splits) (metis snd_conv)+

lemma rejected_sub:
  "updateRejectedContracts ord now info upd scs db = (Inr active, db') \<Longrightarrow> set active \<subseteq> set scs"
  by (auto simp: updateRejectedContracts_def Let_def split_contracts_eq split: prod.splits option.splits sum.splits if_splits)

lemma rejected_db:
  "snd (updateRejectedContracts ord now info upd scs db) = db \<or> (\<exists>rels. snd (updateRejectedContracts ord now info upd scs db) = snd (upd rels db))"
  by (auto simp: updateRejectedContracts_def Let_def split: prod.splits option.splits sum.splits if_splits) (metis snd_conv)+

lemma pass_outcome: obtains a b c d e where "x = ((a, b, c), d, e)"
  by (metis prod.exhaust)

text \<open>
  What a cycle relies on from the database it works on: \<open>view\<close> is what it holds of the results of checks, and \<open>put rows\<close> is how a
  successful \<^verbatim>\<open>UpdateContractProofsChecks\<close> with one row per contract changes it; the other calls leave it as it is, and all calls, whatever
  they answer, keep the invariant.  \<^verbatim>\<open>UpdateRejectedStorageContracts\<close> may change the view: it runs before the checks.
\<close>

locale proof_store =
  fixes env :: "('addr, 's) sp_env"
    and inv :: "'s \<Rightarrow> bool"
    and view :: "'s \<Rightarrow> 'v"
    and put :: "contract_proofs_check list \<Rightarrow> 'v \<Rightarrow> 'v"
  assumes put_Nil: "put [] v = v"
    and commit: "inv s \<Longrightarrow> distinct (map row_pair rows) \<Longrightarrow> sp_UpdateContractProofsChecks env rows s = (None, s') \<Longrightarrow> view s' = put rows (view s)"
    and commit_inv: "inv s \<Longrightarrow> inv (snd (sp_UpdateContractProofsChecks env rows s))"
    and statuses: "inv s \<Longrightarrow> inv (snd (sp_UpdateStatuses env s)) \<and> view (snd (sp_UpdateStatuses env s)) = view s"
    and provider_events: "inv s \<Longrightarrow> inv (snd (sp_InsertProviderEvents env pes s)) \<and> view (snd (sp_InsertProviderEvents env pes s)) = view s"
    and bag_events: "inv s \<Longrightarrow> inv (snd (sp_InsertBagEvents env bes s)) \<and> view (snd (sp_InsertBagEvents env bes s)) = view s"
    and endpoints: "inv s \<Longrightarrow> renv \<in> {sp_stale env, sp_full env, sp_forced env} \<Longrightarrow>
      inv (snd (re_updateIPs renv ips s)) \<and> view (snd (re_updateIPs renv ips s)) = view s"
    and rejected: "inv s \<Longrightarrow> inv (snd (sp_UpdateRejected env rels s))"
begin

lemma statusesD: "inv s \<Longrightarrow> sp_UpdateStatuses env s = (e, s') \<Longrightarrow> inv s' \<and> view s' = view s"
  using statuses [of s] by simp

lemma update_inv:
  "inv s \<Longrightarrow> (if rows \<noteq> [] then sp_UpdateContractProofsChecks env rows s else (None, s)) = (e, s') \<Longrightarrow> inv s'"
  using commit_inv [of s rows] by (auto split: if_splits)

lemma update_view:
  "inv s \<Longrightarrow> (if rows \<noteq> [] then sp_UpdateContractProofsChecks env rows s else (None, s)) = (None, s') \<Longrightarrow>
   distinct (map row_pair rows) \<Longrightarrow> view s' = put rows (view s)"
  using commit [of s rows s'] by (auto simp: put_Nil split: if_splits)

lemma refresh_keeps:
  "inv db \<Longrightarrow> renv \<in> {sp_stale env, sp_full env, sp_forced env} \<Longrightarrow>
   refreshProvidersEndpoints renv scs staleOnly rec lk db = (r, rec', lk', db') \<Longrightarrow> inv db' \<and> view db' = view db"
  using refresh_db [of renv scs staleOnly rec lk db] endpoints [of db renv] by (metis snd_conv)

lemma rejected_keeps:
  "inv db \<Longrightarrow> updateRejectedContracts ord now info (sp_UpdateRejected env) scs db = (r, db') \<Longrightarrow> inv db'"
  using rejected_db [of ord now info "sp_UpdateRejected env" scs db] rejected [of db] by (metis snd_conv)

lemma flush_keeps: "inv db \<Longrightarrow> inv (sp_flush env rec db) \<and> view (sp_flush env rec db) = view db"
  using provider_events bag_events by (auto simp: sp_flush_def Flush_def Let_def split: option.splits)

subsection \<open>Every outcome keeps the invariant\<close>

lemma deferred_inv:
  assumes "inv db"
  shows "inv (snd (commit_deferred env main pend db))"
proof -
  obtain e db1 where u: "sp_UpdateContractProofsChecks env (selectFinalProofsCommit (sp_finalOrder env) main pend None) db = (e, db1)"
    by (meson surj_pair)
  then have "inv db1" using commit_inv [OF assms] by (metis snd_conv)
  then show ?thesis using assms statuses [of db1] u by (auto simp: commit_deferred_def Let_def split: option.split)
qed

lemma retry_inv:
  assumes "inv db"
  shows "inv (snd (snd (retry_pass env scs main pend ips assignment ms db)))"
proof -
  obtain refreshed rec lk db1 where f: "refreshProvidersEndpoints (sp_forced env) (pendingContracts scs pend) False (Some (sp_recorder env))
      (ms_lastKnownIPs ms) db = (refreshed, rec, lk, db1)" by (rule prod_cases4)
  then have i1: "inv db1" using refresh_keeps [OF assms _ f] by simp
  obtain results a err rec2 success where c: "runStoreProofChecks (sp_timeouts env) (sp_client env) (sp_retry env) (sp_runID env @ ''-retry'')
      (pendingContracts scs pend) (retry_ips env refreshed ips) rec assignment (ms_providerAgentSuccess (ms\<lparr>ms_lastKnownIPs := lk\<rparr>)) =
      ((results, a, err), rec2, success)" by (rule pass_outcome)
  let ?fc = "selectFinalProofsCommit (sp_finalOrder env) main pend (if err = None then Some results else None)"
  obtain e2 db2 where u: "(if ?fc \<noteq> [] then sp_UpdateContractProofsChecks env ?fc db1 else (None, db1)) = (e2, db2)"
    by (meson surj_pair)
  obtain e3 db3 where s: "sp_UpdateStatuses env db2 = (e3, db3)" by (meson surj_pair)
  have i2: "inv db2" by (rule update_inv [OF i1 u])
  then have "inv db3" using statusesD [OF _ s] by simp
  with i2 show ?thesis unfolding retry_pass_def Let_def f prod.case c u s
    using flush_keeps by (auto split: option.split)
qed

lemma after_main_inv:
  assumes "inv db"
  shows "inv (snd (snd (after_main env scs main pend ips assignment ms db)))"
proof -
  have "inv (snd (deferred_result env (commit_deferred env main pend db)))"
    using deferred_inv [OF assms, of main pend] by (auto simp: deferred_result_def split: prod.split option.split)
  then show ?thesis using assms retry_inv [OF assms] deferred_inv [OF assms, of main pend]
    by (auto simp: after_main_def Let_def split: prod.split option.split)
qed

lemma main_pass_inv:
  assumes "inv db"
  shows "inv (snd (snd (main_pass env scs ips rec ms db)))"
proof -
  obtain main assignment err rec2 success where c: "runStoreProofChecks (sp_timeouts env) (sp_client env) (sp_main env) (sp_runID env) scs
      ips rec [] (ms_providerAgentSuccess ms) = ((main, assignment, err), rec2, success)" by (rule pass_outcome)
  obtain toCommit pend where p: "selectMainProofsCommit (sp_mainOrder env) main = (toCommit, pend)" by fastforce
  obtain e2 db2 where u: "(if toCommit \<noteq> [] then sp_UpdateContractProofsChecks env toCommit db else (None, db)) = (e2, db2)"
    by (meson surj_pair)
  obtain e3 db3 where s: "sp_UpdateStatuses env db2 = (e3, db3)" by (meson surj_pair)
  have "inv db2" by (rule update_inv [OF assms u])
  moreover from this have "inv db3" using statusesD [OF _ s] by simp
  ultimately show ?thesis
    unfolding main_pass_def Let_def c prod.case p u s using assms flush_keeps after_main_inv by (auto split: option.split)
qed

lemma cycle_inv:
  assumes "inv db"
  shows "inv (snd (snd (StoreProof env ms db)))"
proof (cases "sp_GetStorageContracts env db")
  case (Inr scs)
  obtain r1 rec1 lk1 db1 where f: "refreshProvidersEndpoints (sp_stale env) scs True (Some (sp_recorder env)) (ms_lastKnownIPs ms) db =
      (r1, rec1, lk1, db1)" by (rule prod_cases4)
  obtain u db2 where u: "updateRejectedContracts (sp_rejectOrder env) (sp_rejectedAt env) (sp_GetProvidersInfo env)
      (sp_UpdateRejected env) scs db1 = (u, db2)" by fastforce
  have "inv db1" using refresh_keeps [OF assms _ f] by simp
  then have i2: "inv db2" by (rule rejected_keeps [OF _ u])
  show ?thesis
  proof (cases u)
    case (Inr active)
    obtain r2 rec2 lk2 db3 where g: "refreshProvidersEndpoints (sp_full env) active False rec1 lk1 db2 = (r2, rec2, lk2, db3)"
      by (rule prod_cases4)
    have "inv db3" using refresh_keeps [OF i2 _ g] by simp
    then show ?thesis unfolding StoreProof_def \<open>sp_GetStorageContracts env db = Inr scs\<close> sum.case Let_def f prod.case u Inr updateProvidersIPs_def
      using main_pass_inv by (cases r2) (simp_all add: g)
  qed (use i2 in \<open>simp add: StoreProof_def \<open>sp_GetStorageContracts env db = Inr scs\<close> f u\<close>)
qed (use assms in \<open>simp add: StoreProof_def\<close>)

subsection \<open>A cycle without error commits in two steps\<close>

definition final_view ::
  "contract_relation list \<Rightarrow> merged_contract_check go_map \<Rightarrow> unit go_map \<Rightarrow> 's \<Rightarrow> 's \<Rightarrow> bool" where
  "final_view scs main pend db db' \<longleftrightarrow>
     (\<exists>retry. view db' = put (selectFinalProofsCommit (sp_finalOrder env) main pend retry) (view db) \<and>
        (case retry of None \<Rightarrow> True | Some results \<Rightarrow> results_of (pendingContracts scs pend) results))"

definition finals_distinct :: "contract_relation list \<Rightarrow> merged_contract_check go_map \<Rightarrow> unit go_map \<Rightarrow> bool" where
  "finals_distinct scs main pend \<longleftrightarrow>
     (\<forall>retry. (case retry of None \<Rightarrow> True | Some results \<Rightarrow> results_of (pendingContracts scs pend) results) \<longrightarrow>
        distinct (map row_pair (selectFinalProofsCommit (sp_finalOrder env) main pend retry)))"

lemma deferred_view:
  assumes "inv db" "finals_distinct scs main pend" "deferred_result env (commit_deferred env main pend db) = ((interval, None), db')"
  shows "final_view scs main pend db db'"
proof -
  let ?fc = "selectFinalProofsCommit (sp_finalOrder env) main pend None"
  have fd: "distinct (map row_pair ?fc)" using assms(2) unfolding finals_distinct_def by (auto dest: spec [of _ None])
  obtain e1 db1 where u: "(if ?fc \<noteq> [] then sp_UpdateContractProofsChecks env ?fc db else (None, db)) = (e1, db1)" by (meson surj_pair)
  have "?fc = [] \<and> db' = db \<or> e1 = None \<and> ?fc \<noteq> [] \<and> sp_UpdateStatuses env db1 = (None, db')"
    using assms(3) u by (auto simp: deferred_result_def commit_deferred_def Let_def split: prod.splits option.splits if_splits)
  then have "view db' = put ?fc (view db)"
    using update_view [OF assms(1), of ?fc db1] statusesD [OF update_inv [OF assms(1) u], of None db'] u fd by (auto simp: put_Nil)
  then show ?thesis unfolding final_view_def by (intro exI [of _ None]) simp
qed

lemma retry_view:
  assumes i: "inv db" and fd: "finals_distinct scs main pend"
    and r: "retry_pass env scs main pend ips assignment ms db = ((interval, None), ms', db')"
  shows "final_view scs main pend db db'"
proof -
  let ?p = "pendingContracts scs pend"
  obtain refreshed rec lk db1 where f: "refreshProvidersEndpoints (sp_forced env) ?p False (Some (sp_recorder env)) (ms_lastKnownIPs ms) db =
      (refreshed, rec, lk, db1)" by (rule prod_cases4)
  obtain results a err rec2 success where c: "runStoreProofChecks (sp_timeouts env) (sp_client env) (sp_retry env) (sp_runID env @ ''-retry'') ?p
      (retry_ips env refreshed ips) rec assignment (ms_providerAgentSuccess (ms\<lparr>ms_lastKnownIPs := lk\<rparr>)) = ((results, a, err), rec2, success)"
    by (rule pass_outcome)
  let ?ms = "ms\<lparr>ms_lastKnownIPs := lk, ms_providerAgentSuccess := success\<rparr>"
  let ?retry = "if err = None then Some results else None"
  let ?fc = "selectFinalProofsCommit (sp_finalOrder env) main pend ?retry"
  obtain e2 db2 where u: "(if ?fc \<noteq> [] then sp_UpdateContractProofsChecks env ?fc db1 else (None, db1)) = (e2, db2)"
    by (meson surj_pair)
  obtain e3 db3 where s: "sp_UpdateStatuses env db2 = (e3, db3)" by (meson surj_pair)
  have "(case e2 of Some err \<Rightarrow> ((storeProofFailureInterval, Some err), ?ms, sp_flush env rec2 db2)
      | None \<Rightarrow> (case e3 of Some err \<Rightarrow> ((storeProofFailureInterval, Some err), ?ms, sp_flush env rec2 db3)
        | None \<Rightarrow> ((remain env, None), ?ms, sp_flush env rec2 db3))) = ((interval, None), ms', db')"
    using r unfolding retry_pass_def Let_def f prod.case c u s .
  then have d: "e2 = None" "e3 = None" "db' = sp_flush env rec2 db3" by (auto split: option.splits)
  have retry: "case ?retry of None \<Rightarrow> True | Some results \<Rightarrow> results_of ?p results"
    using pass_results_of [of _ _ _ _ ?p] c by (cases err) auto
  have i1: "inv db1" "view db1 = view db" using refresh_keeps [OF i _ f] by simp_all
  have "view db2 = put ?fc (view db1)"
    using update_view [OF i1(1) u [unfolded d(1)]] fd retry unfolding finals_distinct_def by blast
  then have "view db' = put ?fc (view db)"
    using d(3) statusesD [OF update_inv [OF i1(1) u] s] flush_keeps i1(2) by simp
  then show ?thesis unfolding final_view_def using retry by blast
qed

lemma after_main_view:
  assumes i: "inv db" and fd: "finals_distinct scs main pend"
    and r: "after_main env scs main pend ips assignment ms db = ((interval, None), ms', db')"
  shows "final_view scs main pend db db'"
proof -
  consider "pend = []" "db' = db"
    | "deferred_result env (commit_deferred env main pend db) = ((interval, None), db')"
    | "retry_pass env scs main pend ips assignment ms db = ((interval, None), ms', db')"
    using r by (auto simp: after_main_def Let_def split: if_splits prod.splits option.splits)
  then show ?thesis
  proof cases
    case 1
    then show ?thesis by (auto simp: final_view_def selectFinalProofsCommit_def put_Nil intro: exI [of _ None])
  qed (use deferred_view [OF i fd] retry_view [OF i fd] in blast)+
qed

lemma main_pass_view:
  assumes i: "inv db" and ord: "order_ok (sp_mainOrder env)" "order_ok (sp_finalOrder env)"
    and r: "main_pass env scs ips rec ms db = ((interval, None), ms', db')"
  shows "\<exists>main db1. results_of scs main \<and> view db1 = put (fst (selectMainProofsCommit (sp_mainOrder env) main)) (view db) \<and>
    final_view scs main (snd (selectMainProofsCommit (sp_mainOrder env) main)) db1 db'"
proof -
  obtain main assignment err rec2 success where c: "runStoreProofChecks (sp_timeouts env) (sp_client env) (sp_main env) (sp_runID env) scs
      ips rec [] (ms_providerAgentSuccess ms) = ((main, assignment, err), rec2, success)" by (rule pass_outcome)
  obtain toCommit pend where p: "selectMainProofsCommit (sp_mainOrder env) main = (toCommit, pend)" by fastforce
  obtain e2 db2 where u: "(if toCommit \<noteq> [] then sp_UpdateContractProofsChecks env toCommit db else (None, db)) = (e2, db2)"
    by (meson surj_pair)
  obtain e3 db3 where s: "sp_UpdateStatuses env db2 = (e3, db3)" by (meson surj_pair)
  let ?ms = "ms\<lparr>ms_providerAgentSuccess := success\<rparr>"
  have d: "err = None \<and> e2 = None \<and> e3 = None \<and>
      after_main env scs main pend ips assignment ?ms (sp_flush env rec2 db3) = ((interval, None), ms', db')"
    using r unfolding main_pass_def Let_def c prod.case p u s by (auto split: option.splits)
  then have main: "results_of scs main" using pass_results_of c by simp
  then have fd: "finals_distinct scs main pend"
    using commits_distinct(2) [OF main _ ord] p unfolding finals_distinct_def by (metis snd_conv)
  have "distinct (map row_pair toCommit)" using commits_distinct(1) [where retry = None, OF main _ ord] p by simp
  then have "view db2 = put toCommit (view db)" using update_view [OF i] u d by blast
  then have f: "inv (sp_flush env rec2 db3)" "view (sp_flush env rec2 db3) = put toCommit (view db)"
    using statusesD [OF update_inv [OF i u] s] flush_keeps by simp_all
  have "final_view scs main pend (sp_flush env rec2 db3) db'" using after_main_view [OF f(1) fd] d by blast
  then show ?thesis using f(2) main
    by (intro exI [of _ main] exI [of _ "sp_flush env rec2 db3"]) (simp add: p)
qed

lemma cycle_view:
  assumes "inv db" "order_ok (sp_mainOrder env)" "order_ok (sp_finalOrder env)"
    "sp_GetStorageContracts env db = Inr scs" "StoreProof env ms db = ((interval, None), ms', db')"
  shows "\<exists>db1 db2 active main now pend retry. selectMainProofsCommit (sp_mainOrder env) main = (now, pend) \<and>
    inv db1 \<and> view db1 = view db \<and>
    updateRejectedContracts (sp_rejectOrder env) (sp_rejectedAt env) (sp_GetProvidersInfo env) (sp_UpdateRejected env) scs db1 =
      (Inr active, db2) \<and>
    results_of active main \<and> (case retry of None \<Rightarrow> True | Some results \<Rightarrow> results_of (pendingContracts active pend) results) \<and>
    view db' = put (selectFinalProofsCommit (sp_finalOrder env) main pend retry) (put now (view db2))"
proof -
  obtain r1 rec1 lk1 db1 where f: "refreshProvidersEndpoints (sp_stale env) scs True (Some (sp_recorder env)) (ms_lastKnownIPs ms) db =
      (r1, rec1, lk1, db1)" by (rule prod_cases4)
  obtain u db2 where u: "updateRejectedContracts (sp_rejectOrder env) (sp_rejectedAt env) (sp_GetProvidersInfo env)
      (sp_UpdateRejected env) scs db1 = (u, db2)" by fastforce
  obtain active where a: "u = Inr active"
    using assms(5) unfolding StoreProof_def assms(4) sum.case Let_def f prod.case u by (cases u) auto
  obtain r2 rec2 lk2 db3 where g: "refreshProvidersEndpoints (sp_full env) active False rec1 lk1 db2 = (r2, rec2, lk2, db3)"
    by (rule prod_cases4)
  obtain ips where m: "main_pass env active ips rec2 (ms\<lparr>ms_lastKnownIPs := lk2\<rparr>) db3 = ((interval, None), ms', db')"
    using assms(5) unfolding StoreProof_def assms(4) sum.case Let_def f prod.case u a updateProvidersIPs_def
    by (cases r2) (simp_all add: g)
  have i1: "inv db1" "view db1 = view db" using refresh_keeps [OF assms(1) _ f] by simp_all
  have i3: "inv db3" "view db3 = view db2" using refresh_keeps [OF rejected_keeps [OF i1(1) u] _ g] by simp_all
  obtain main retry where "results_of active main"
    "case retry of None \<Rightarrow> True | Some results \<Rightarrow> results_of (pendingContracts active (snd (selectMainProofsCommit (sp_mainOrder env) main))) results"
    "view db' = put (selectFinalProofsCommit (sp_finalOrder env) main (snd (selectMainProofsCommit (sp_mainOrder env) main)) retry)
      (put (fst (selectMainProofsCommit (sp_mainOrder env) main)) (view db2))"
    using main_pass_view [OF i3(1) assms(2,3) m] i3(2) unfolding final_view_def by auto
  then show ?thesis using i1 u a
    by (intro exI [of _ db1] exI [of _ db2] exI [of _ active] exI [of _ main]
        exI [of _ "fst (selectMainProofsCommit (sp_mainOrder env) main)"] exI [of _ "snd (selectMainProofsCommit (sp_mainOrder env) main)"]
        exI [of _ retry]) simp
qed

end

text \<open>
  The weakest such store keeps the rows it was given: \<open>written\<close> is their multiset, a successful \<^verbatim>\<open>UpdateContractProofsChecks\<close>
  adds its rows and no other operation touches it.
\<close>

definition store_log_ok :: "('addr, 's) sp_env \<Rightarrow> ('s \<Rightarrow> contract_proofs_check multiset) \<Rightarrow> bool" where
  "store_log_ok env written \<longleftrightarrow>
     (\<forall>rows s s'. sp_UpdateContractProofsChecks env rows s = (None, s') \<longrightarrow> written s' = written s + mset rows) \<and>
     (\<forall>s. written (snd (sp_UpdateStatuses env s)) = written s) \<and>
     (\<forall>rows s. written (snd (sp_UpdateRejected env rows s)) = written s) \<and>
     (\<forall>rows s. written (snd (sp_InsertProviderEvents env rows s)) = written s) \<and>
     (\<forall>rows s. written (snd (sp_InsertBagEvents env rows s)) = written s) \<and>
     (\<forall>renv \<in> {sp_stale env, sp_full env, sp_forced env}. \<forall>rows s. written (snd (re_updateIPs renv rows s)) = written s)"

lemma store_log_store: "store_log_ok env written \<Longrightarrow> proof_store env (\<lambda>_. True) written (\<lambda>rows m. m + mset rows)"
  unfolding store_log_ok_def by unfold_locales auto

lemma rejected_log:
  assumes "store_log_ok env written" "updateRejectedContracts ord now info (sp_UpdateRejected env) scs db = (r, db')"
  shows "written db' = written db"
  using rejected_db [of ord now info "sp_UpdateRejected env" scs db] assms unfolding store_log_ok_def by (metis snd_conv)

text \<open>
  C1.  A storage-proof cycle that reports no error has written exactly one proof result for every
  contract that is still active, and none for any other: with or without the retry, however the
  agents answered, in whatever order maps are traversed and calls finish.
\<close>

theorem storeproof_commits_all:
  assumes "store_log_ok env written" "order_ok (sp_mainOrder env)" "order_ok (sp_finalOrder env)"
    "sp_GetStorageContracts env db = Inr scs" "bar_free scs" "StoreProof env ms db = ((interval, None), ms', db')"
  shows "\<exists>db1 db2 active rows.
    updateRejectedContracts (sp_rejectOrder env) (sp_rejectedAt env) (sp_GetProvidersInfo env) (sp_UpdateRejected env) scs db1 =
      (Inr active, db2) \<and>
    written db' = written db + mset rows \<and> distinct (map row_pair rows) \<and> set (map row_pair rows) = rel_pair ` set active"
proof -
  obtain db1 db2 active main retry now pend where sel: "selectMainProofsCommit (sp_mainOrder env) main = (now, pend)"
    and u: "updateRejectedContracts (sp_rejectOrder env) (sp_rejectedAt env) (sp_GetProvidersInfo env) (sp_UpdateRejected env) scs db1 =
      (Inr active, db2)"
    and x: "results_of active main" "case retry of None \<Rightarrow> True | Some results \<Rightarrow> results_of (pendingContracts active pend) results"
    and w: "written db1 = written db"
      "written db' = written db2 + mset now + mset (selectFinalProofsCommit (sp_finalOrder env) main pend retry)"
    using proof_store.cycle_view [OF store_log_store [OF assms(1)] _ assms(2,3,4,6)] by blast
  have "bar_free active" using assms(5) rejected_sub [OF u] unfolding bar_free_def by blast
  note pairs = committed_pairs [OF x this]
  have "go_wf main" using x(1) by (simp add: results_of_def)
  from main_final_commit [OF this assms(2,3), of retry]
  have "written db' = written db + mset (map (committed_row main retry) (go_keys main))"
    using w rejected_log [OF assms(1) u] sel by (simp add: add.assoc)
  then show ?thesis using u pairs by blast
qed

section \<open>When the next cycle starts\<close>

definition interval_ok :: "('addr, 's) sp_env \<Rightarrow> duration \<times> go_error option \<Rightarrow> bool" where
  "interval_ok env r \<longleftrightarrow>
     (if snd r = None then fst r = remain env
      else fst r = storeProofFailureInterval \<or> (snd r = sp_ctxErr env \<and> fst r = remain env))"

lemma interval_okI [simp]:
  "interval_ok env (storeProofFailureInterval, Some e)" "interval_ok env (remain env, None)"
  "sp_ctxErr env = Some e \<Longrightarrow> interval_ok env (remain env, Some e)"
  by (simp_all add: interval_ok_def)

lemma deferred_interval: "interval_ok env (fst (deferred_result env r))"
  by (simp add: deferred_result_def split: prod.split option.split)

lemma retry_interval: "interval_ok env (fst (retry_pass env scs main pend ips assignment ms db))"
  by (simp add: retry_pass_def Let_def split: prod.split option.split)

lemma after_main_interval: "interval_ok env (fst (after_main env scs main pend ips assignment ms db))"
proof -
  obtain a b c where d: "deferred_result env (commit_deferred env main pend db) = ((a, b), c)" by (metis surj_pair)
  then have "interval_ok env (a, b)" using deferred_interval [of env "commit_deferred env main pend db"] by simp
  then show ?thesis by (simp add: after_main_def Let_def waitUntil_def d retry_interval split: option.split)
qed

lemma main_pass_interval: "interval_ok env (fst (main_pass env scs ips rec ms db))"
  by (simp add: main_pass_def Let_def after_main_interval split: prod.split option.split)

lemma StoreProof_interval: "interval_ok env (fst (StoreProof env ms db))"
  by (simp add: StoreProof_def Let_def main_pass_interval split: prod.split sum.split)

text \<open>
  When the next cycle starts: a cycle without error asks to be called again exactly one
  interval after it started, or at once when it took longer; after an error it is called again in 15
  seconds, except when the wait for the retry was cancelled, which keeps the schedule.  The delay is
  never negative and never longer than the interval or these 15 seconds.
\<close>

theorem storeproof_interval:
  assumes "StoreProof env ms db = ((interval, err), ms', db')" "sp_started env \<le> sp_endAt env"
  shows "(err = None \<longrightarrow> interval = max 0 (nextFullAt env - sp_endAt env)) \<and>
    (err \<noteq> None \<longrightarrow> interval = 15 * 10 ^ 9 \<or> (err = sp_ctxErr env \<and> interval = max 0 (nextFullAt env - sp_endAt env))) \<and>
    0 \<le> interval \<and> interval \<le> max (15 * 10 ^ 9) (nextFullAt env - sp_started env)"
  using StoreProof_interval [of env ms db] assms
  by (auto simp: interval_ok_def remain_def Let_def storeProofFailureInterval_def split: if_splits)

text \<open>
  A cycle over two providers, with the database reduced to the list of rows written: only \<open>aa\<close> has an
  endpoint, one of the two agents is down, the other one returns a valid row for \<open>aa\<close>; \<open>bb\<close> is retried.
\<close>

definition cycle_contracts :: "contract_relation list" where
  "cycle_contracts = map (\<lambda>(pk, addr). \<lparr>rel_ProviderPublicKey = pk, rel_ProviderAddress = addr, rel_Address = ''EQc'',
     rel_BagID = ''00'', rel_Size = 10, rel_Reason = None\<rparr>) [(''aa'', ''EQp''), (''bb'', ''EQq'')]"

definition cycle_refresh :: "(unit, contract_proofs_check list) refresh_env" where
  "cycle_refresh = \<lparr>re_lib = dht_sample, re_cfg = \<lparr>ecf_StaleTTL = 1, ecf_FullRefreshInterval = 1, ecf_FailInterval = 1\<rparr>, re_now = 0,
     re_pubkeyOrder = (\<lambda>ks. ks), re_targetOrder = (\<lambda>ks. ks), re_cacheOrder = rev, re_persistOrder = (\<lambda>ks. ks), re_perm = rev,
     re_shuffle = rev, re_getState = (\<lambda>_ _. Inr []), re_getLast = (\<lambda>_ _. Inr []), re_updateIPs = (\<lambda>rows db. (None, db))\<rparr>"

definition cycle_pass :: pass_env where
  "cycle_pass = \<lparr>pe_call = (\<lambda>ep auth tmo req. if ep = ''x'' then Inr (snd (sample_response [sample_row 1 []])) else Inl (ErrText ''down'')),
     pe_nowUnix = 0, pe_groupOrder = rev, pe_itemOrder = rev, pe_perm = rev\<rparr>"

definition cycle_env :: "(unit, contract_proofs_check list) sp_env" where
  "cycle_env = \<lparr>sp_cfg = \<lparr>spc_Interval = 0, spc_RetryDelay = 1\<rparr>, sp_timeouts = zero_timeouts,
     sp_client = Some \<lparr>ac_agents = [''x'', ''y''], ac_authToken = ''t'', ac_requestTimeout = 1\<rparr>,
     sp_stale = cycle_refresh, sp_full = cycle_refresh, sp_forced = cycle_refresh, sp_main = cycle_pass, sp_retry = cycle_pass,
     sp_rejectOrder = (\<lambda>ks. ks), sp_mainOrder = rev, sp_finalOrder = rev, sp_refreshedOrder = rev,
     sp_GetStorageContracts = (\<lambda>_. Inr cycle_contracts),
     sp_GetProvidersInfo = (\<lambda>_. Inr [\<lparr>cp_Address = ''EQc'', cp_Balance = 0, cp_Providers = [], cp_LiteServerError = True\<rparr>]),
     sp_UpdateRejected = (\<lambda>_ db. (None, db)), sp_UpdateContractProofsChecks = (\<lambda>rows db. (None, db @ rows)),
     sp_UpdateStatuses = (\<lambda>db. (None, db)), sp_InsertProviderEvents = (\<lambda>_ db. (None, db)), sp_InsertBagEvents = (\<lambda>_ db. (None, db)),
     sp_started = 0, sp_rejectedAt = 0, sp_decideAt = 1, sp_sleepAt = 1, sp_waitAt = 1, sp_wokenAt = 2, sp_endAt = 3, sp_ctxErr = None\<rparr>"

definition cycle_start :: master_state where
  "cycle_start = \<lparr>ms_lastKnownIPs = [], ms_providerAgentSuccess = []\<rparr>"

lemma cycle_run:
  "(case StoreProof cycle_env cycle_start [] of (r, _, rows) \<Rightarrow> (r, map cpc_Reason rows)) =
     ((3599999999997, None), [ValidStorageProof, IPNotFound])"
  by code_simp

theorem storeproof_commits_all_witness:
  "\<exists>ms' db'. StoreProof cycle_env cycle_start [] = ((3599999999997, None), ms', db') \<and> distinct (map row_pair db')"
proof -
  obtain ms' db' where r: "StoreProof cycle_env cycle_start [] = ((3599999999997, None), ms', db')"
    using cycle_run by (auto split: prod.splits)
  have "store_log_ok cycle_env mset" by (simp add: store_log_ok_def cycle_env_def cycle_refresh_def)
  moreover have "bar_free cycle_contracts" by (simp add: bar_free_def cycle_contracts_def)
  ultimately obtain rows where "mset db' = mset rows" "distinct (map row_pair rows)"
    using storeproof_commits_all [of cycle_env mset "[]" cycle_contracts, OF _ _ _ _ _ r] by (auto simp: cycle_env_def)
  then have "distinct (map row_pair db')" by (metis mset_map mset_eq_imp_distinct_iff)
  then show ?thesis using r by blast
qed

theorem storeproof_interval_witness:
  "\<exists>interval ms' db'. StoreProof cycle_env cycle_start [] = ((interval, None), ms', db') \<and>
     interval = nextFullAt cycle_env - sp_endAt cycle_env"
proof -
  obtain ms' db' where r: "StoreProof cycle_env cycle_start [] = ((3599999999997, None), ms', db')"
    using cycle_run by (auto split: prod.splits)
  have "sp_started cycle_env \<le> sp_endAt cycle_env" by (simp add: cycle_env_def)
  from storeproof_interval [OF r this] show ?thesis using r by (auto simp: max_def split: if_splits)
qed

end
