(* ===== verification/Stages.thy ===== *)
theory Stages
  imports CheckerRun Recorder
begin

text \<open>
  The text contract between an agent and the coordinator: the details an agent writes into a row start
  with the stage that failed, the coordinator reads it back with \<^verbatim>\<open>ParseStageFromDetails\<close>.
\<close>

section \<open>The stages of an agent\<close>

lemma agent_stage:
  "ParseStageFromDetails (''stage=start_client '' @ x) = ''start_client''"
  "ParseStageFromDetails (''stage=register_client '' @ x) = ''register_client''"
  "ParseStageFromDetails (''stage=initial_ping '' @ x) = ''initial_ping''"
  "ParseStageFromDetails (''stage=skip '' @ x) = ''skip''"
  "ParseStageFromDetails (''stage=get_adnl_peer '' @ x) = ''get_adnl_peer''"
  "ParseStageFromDetails (''stage=piece_ping '' @ x) = ''piece_ping''"
  "ParseStageFromDetails (''stage=decode_bag_id '' @ x) = ''decode_bag_id''"
  "ParseStageFromDetails (''stage=hash_overlay '' @ x) = ''hash_overlay''"
  "ParseStageFromDetails (''stage=get_torrent_info '' @ x) = ''get_torrent_info''"
  "ParseStageFromDetails (''stage=parse_torrent_info_boc '' @ x) = ''parse_torrent_info_boc''"
  "ParseStageFromDetails (''stage=validate_torrent_info_hash '' @ x) = ''validate_torrent_info_hash''"
  "ParseStageFromDetails (''stage=load_torrent_info_cell '' @ x) = ''load_torrent_info_cell''"
  "ParseStageFromDetails (''stage=validate_torrent_info '' @ x) = ''validate_torrent_info''"
  "ParseStageFromDetails (''stage=get_piece_slot '' @ x) = ''get_piece_slot''"
  "ParseStageFromDetails (''stage=get_piece '' @ x) = ''get_piece''"
  "ParseStageFromDetails (''stage=parse_piece_proof_boc '' @ x) = ''parse_piece_proof_boc''"
  "ParseStageFromDetails (''stage=check_proof '' @ x) = ''check_proof''"
  using ParseStage_blank [of "''start_client''" x] ParseStage_blank [of "''register_client''" x]
    ParseStage_blank [of "''initial_ping''" x] ParseStage_blank [of "''skip''" x] ParseStage_blank [of "''get_adnl_peer''" x]
    ParseStage_blank [of "''piece_ping''" x] ParseStage_blank [of "''decode_bag_id''" x] ParseStage_blank [of "''hash_overlay''" x]
    ParseStage_blank [of "''get_torrent_info''" x] ParseStage_blank [of "''parse_torrent_info_boc''" x]
    ParseStage_blank [of "''validate_torrent_info_hash''" x] ParseStage_blank [of "''load_torrent_info_cell''" x]
    ParseStage_blank [of "''validate_torrent_info''" x] ParseStage_blank [of "''get_piece_slot''" x]
    ParseStage_blank [of "''get_piece''" x] ParseStage_blank [of "''parse_piece_proof_boc''" x] ParseStage_blank [of "''check_proof''" x]
  by (simp_all add: ascii_word_def)

lemmas agent_stage_simps = agent_stage [simplified]

text \<open>Which stages stand with which reason; a valid row has no stage.\<close>

definition agent_stages :: "(reason_code \<times> string) list" where
  "agent_stages =
    [(ValidStorageProof, StageUnknown),
     (CantCreatePeer, ''start_client''), (CantCreatePeer, ''register_client''), (FailedInitialPing, ''initial_ping''),
     (UnavailableProvider, ''skip''), (UnknownPeer, ''get_adnl_peer''), (PingFailed, ''piece_ping''),
     (InvalidBagID, ''decode_bag_id''), (InvalidBagID, ''hash_overlay''), (GetInfoFailed, ''get_torrent_info''),
     (InvalidHeader, ''parse_torrent_info_boc''), (InvalidHeader, ''validate_torrent_info_hash''),
     (InvalidHeader, ''load_torrent_info_cell''), (InvalidHeader, ''validate_torrent_info''),
     (CantGetPiece, ''get_piece_slot''), (CantGetPiece, ''get_piece''),
     (CantParseBoC, ''parse_piece_proof_boc''), (ProofCheckFailed, ''check_proof'')]"

definition verdict_staged :: "reason_code \<times> string \<Rightarrow> bool" where
  "verdict_staged v \<longleftrightarrow> (fst v, ParseStageFromDetails (snd v)) \<in> set agent_stages"

lemma verdict_stage:
  "verdict_staged (ValidStorageProof, [])"
  "verdict_staged (CantCreatePeer, ''stage=start_client '' @ x)"
  "verdict_staged (CantCreatePeer, ''stage=register_client '' @ x)"
  "verdict_staged (FailedInitialPing, ''stage=initial_ping '' @ x)"
  "verdict_staged (UnavailableProvider, ''stage=skip '' @ x)"
  "verdict_staged (UnknownPeer, ''stage=get_adnl_peer '' @ x)"
  "verdict_staged (PingFailed, ''stage=piece_ping '' @ x)"
  "verdict_staged (InvalidBagID, ''stage=decode_bag_id '' @ x)"
  "verdict_staged (InvalidBagID, ''stage=hash_overlay '' @ x)"
  "verdict_staged (GetInfoFailed, ''stage=get_torrent_info '' @ x)"
  "verdict_staged (InvalidHeader, ''stage=parse_torrent_info_boc '' @ x)"
  "verdict_staged (InvalidHeader, ''stage=validate_torrent_info_hash '' @ x)"
  "verdict_staged (InvalidHeader, ''stage=load_torrent_info_cell '' @ x)"
  "verdict_staged (InvalidHeader, ''stage=validate_torrent_info '' @ x)"
  "verdict_staged (CantGetPiece, ''stage=get_piece_slot '' @ x)"
  "verdict_staged (CantGetPiece, ''stage=get_piece '' @ x)"
  "verdict_staged (CantParseBoC, ''stage=parse_piece_proof_boc '' @ x)"
  "verdict_staged (ProofCheckFailed, ''stage=check_proof '' @ x)"
  by (simp_all add: verdict_staged_def agent_stages_def agent_stage_simps)

lemmas verdict_stage_simps = verdict_stage [simplified]

lemma proof_staged: "verdict_staged (fst (checkPiece_proof lib c env over info pieceID budget))"
  by (simp add: checkPiece_proof_def Let_def verdict_stage_simps split: sum.split option.split)

lemma info_staged: "verdict_staged (fst (checkPiece_info lib c env bag over tmo data))"
  by (simp add: checkPiece_info_def Let_def case_prod_beta verdict_stage_simps proof_staged split: sum.split option.split)

lemma query_staged: "verdict_staged (fst (checkPiece_query lib c env bagID tmo))"
  by (simp add: checkPiece_query_def Let_def verdict_stage_simps info_staged split: sum.split)

lemma check_staged: "verdict_staged (fst (checkPiece lib c bagID tmo env))"
  by (simp add: checkPiece_def Let_def case_prod_beta verdict_stage_simps query_staged split: option.split)

section \<open>Rows\<close>

definition row_staged :: "contract_check_result \<Rightarrow> bool" where
  "row_staged row \<longleftrightarrow> (reasonFromProto (ccr_ReasonCode row), ParseStageFromDetails (ccr_Details row)) \<in> set agent_stages"

lemma agent_reasons: "(code, st) \<in> set agent_stages \<Longrightarrow> reasonFromProto (ToProto code) = code"
  by (auto simp: agent_stages_def reasonFromProto_def ToProto_def reason_codes_def reason_defs)

lemma makeResult_staged: "verdict_staged (code, details) \<Longrightarrow> row_staged (makeResult provider contract code lat details)"
  by (auto simp: row_staged_def makeResult_def verdict_staged_def agent_reasons)

lemma fill_staged:
  "verdict_staged (code, details) \<Longrightarrow> r \<in> set (fillProviderResults provider contracts code details) \<Longrightarrow> row_staged r"
  by (auto simp: fillProviderResults_def makeResult_staged)

lemma skip_staged: "verdict_staged (UnavailableProvider, skipDetails t)"
  by (simp add: skipDetails_def verdict_stage_simps)

lemma pool_step_staged:
  assumes "pool_step lib c provider timeouts a s = Some t" "\<forall>r. Some r \<in> set (po_results s) \<longrightarrow> row_staged r"
  shows "\<forall>r. Some r \<in> set (po_results t) \<longrightarrow> row_staged r"
proof -
  have upd: "\<forall>r. Some r \<in> set ((po_results s)[i := Some (makeResult provider ct code lat d)]) \<longrightarrow> row_staged r"
    if "verdict_staged (code, d)" for i ct code lat d
    using assms(2) makeResult_staged [OF that] set_update_subset_insert by fastforce
  have oc: "verdict_staged (fst (fst x), snd (fst x))" if "verdict_staged (fst x)" for x :: "(reason_code \<times> string) \<times> shared_op list"
    using that by simp
  show ?thesis
    using assms upd [OF skip_staged] upd [OF oc [OF check_staged [of lib c _ timeouts]]]
    by (cases a) (auto split: if_splits option.splits worker.splits)
qed

lemma pool_reach_staged:
  "pool_reach lib c provider timeouts s \<Longrightarrow> \<forall>r. Some r \<in> set (po_results s) \<longrightarrow> row_staged r"
  by (induction rule: pool_reach.induct) (auto simp: pool_start_def dest: pool_step_staged)

text \<open>
  C14.  The coordinator understands what an agent reports: from every row an agent returns for a
  provider, it reads back one of the agent's reasons together with a stage that belongs to this reason
  (\<open>agent_stages\<close>); the stage is unknown exactly for valid rows, whatever errors, paths and sizes the
  details quote after it.
\<close>

theorem agent_rows_staged:
  assumes "checkProviderFiles lib c provider timeouts env = Some (rows, advanced)" "row \<in> set rows"
  shows "(reasonFromProto (ccr_ReasonCode row), ParseStageFromDetails (ccr_Details row)) \<in> set agent_stages \<and>
    (ParseStageFromDetails (ccr_Details row) = StageUnknown \<longleftrightarrow> reasonFromProto (ccr_ReasonCode row) = ValidStorageProof)"
proof -
  have done_: "row_staged row" if "pool_exec lib c provider timeouts as (pool_start c provider) = Some s"
      "rows = somes (po_results s)" for as s
    using pool_reach_staged [OF pool_exec_reach [OF that(1) pool_reach.start]] that(2) assms(2) by simp
  have "row_staged row"
    using assms done_
    by (auto simp: checkProviderFiles_def Let_def verdict_stage_simps intro: fill_staged [rotated] split: if_splits option.splits)
  then have "(reasonFromProto (ccr_ReasonCode row), ParseStageFromDetails (ccr_Details row)) \<in> set agent_stages"
    by (simp add: row_staged_def)
  moreover have "(code, st) \<in> set agent_stages \<Longrightarrow> st = StageUnknown \<longleftrightarrow> code = ValidStorageProof" for code st
    by (auto simp: agent_stages_def StageUnknown_def reason_defs)
  ultimately show ?thesis by blast
qed

theorem agent_rows_staged_witness:
  "row_staged (sample_rows ! 1) \<and> ParseStageFromDetails (ccr_Details (sample_rows ! 1)) \<noteq> StageUnknown"
proof -
  have "sample_rows ! 1 \<in> set sample_rows" by (simp add: sample_rows_def)
  from agent_rows_staged [OF sample_run this] show ?thesis
    by (auto simp: row_staged_def) (simp add: sample_rows_def makeResult_def reasonFromProto_def ToProto_def reason_codes_def reason_defs)
qed

end
