(* ===== verification/Cache.thy ===== *)
theory Cache
  imports Prelude
begin

text \<open>
  \<^verbatim>\<open>coordinator/internal/cache/simple.go\<close>: a map whose entries expire.  Every method holds the mutex, so
  a concurrent run is a sequence of whole calls; each call and each tick of \<^verbatim>\<open>cleanup\<close> reads the clock
  once (\<open>now\<close>).  The cache is polymorphic: each cache of the program holds values of one type, so the
  type assertions of its clients succeed.

  The locale \<open>timed_store\<close> is what clients rely on, with the value that is still live at a time as the
  only observation; a client's lemmas are proved there and hold for \<open>SimpleCache\<close> by interpretation.
\<close>

record 'v SimpleCache =
  sc_items :: "('v \<times> time) go_map"
  sc_ttl :: duration

definition NewSimpleCache :: "duration \<Rightarrow> 'v SimpleCache" where
  "NewSimpleCache ttl = \<lparr>sc_items = [], sc_ttl = ttl\<rparr>"

definition cache_GetAll :: "order \<Rightarrow> time \<Rightarrow> 'v SimpleCache \<Rightarrow> 'v go_map" where
  "cache_GetAll ord now c =
     fold (\<lambda>k result. case map_of (sc_items c) k of
             None \<Rightarrow> result
           | Some (v, expiry) \<Rightarrow> if now < expiry then AList.update k v result else result)
       (range_keys ord (sc_items c)) []"

definition cache_Set :: "time \<Rightarrow> string \<Rightarrow> 'v \<Rightarrow> 'v SimpleCache \<Rightarrow> 'v SimpleCache" where
  "cache_Set now key v c = c\<lparr>sc_items := AList.update key (v, now + sc_ttl c) (sc_items c)\<rparr>"

definition cache_Get :: "time \<Rightarrow> string \<Rightarrow> 'v SimpleCache \<Rightarrow> 'v option \<times> 'v SimpleCache" where
  "cache_Get now key c =
     (case map_of (sc_items c) key of
        None \<Rightarrow> (None, c\<lparr>sc_items := AList.delete key (sc_items c)\<rparr>)
      | Some (v, expiry) \<Rightarrow>
         if now > expiry then (None, c\<lparr>sc_items := AList.delete key (sc_items c)\<rparr>) else (Some v, c))"

definition cache_Release :: "time \<Rightarrow> string \<Rightarrow> 'v SimpleCache \<Rightarrow> 'v option \<times> 'v SimpleCache" where
  "cache_Release now key c =
     (case map_of (sc_items c) key of
        None \<Rightarrow> (None, c\<lparr>sc_items := AList.delete key (sc_items c)\<rparr>)
      | Some (v, expiry) \<Rightarrow>
         if now > expiry then (None, c\<lparr>sc_items := AList.delete key (sc_items c)\<rparr>)
         else (Some v, c\<lparr>sc_items := AList.delete key (sc_items c)\<rparr>))"

text \<open>One tick of \<^verbatim>\<open>cleanup\<close>.\<close>

definition cache_cleanup :: "order \<Rightarrow> time \<Rightarrow> 'v SimpleCache \<Rightarrow> 'v SimpleCache" where
  "cache_cleanup ord now c =
     c\<lparr>sc_items := fold (\<lambda>k items. case map_of (sc_items c) k of
                            None \<Rightarrow> items
                          | Some (v, expiry) \<Rightarrow> if now > expiry then AList.delete k items else items)
                     (range_keys ord (sc_items c)) (sc_items c)\<rparr>"

section \<open>What clients rely on\<close>

datatype 'v cache_op = OpSet string 'v | OpGet string | OpRelease string | OpCleanup order

text \<open>The reference: what an operation at \<open>now\<close> does to the value that is live at a later time.\<close>

fun op_live :: "duration \<Rightarrow> time \<Rightarrow> 'v cache_op \<Rightarrow> time \<Rightarrow> (string \<Rightarrow> 'v option) \<Rightarrow> string \<Rightarrow> 'v option" where
  "op_live ttl now (OpSet key v) later live = live(key := if later \<le> now + ttl then Some v else None)"
| "op_live ttl now (OpRelease key) later live = live(key := None)"
| "op_live ttl now (OpGet key) later live = live"
| "op_live ttl now (OpCleanup ord) later live = live"

text \<open>The log of calls, newest first, decides alone what is live.\<close>

fun log_live :: "duration \<Rightarrow> (time \<times> 'v cache_op) list \<Rightarrow> time \<Rightarrow> string \<Rightarrow> 'v option" where
  "log_live ttl [] later = (\<lambda>_. None)"
| "log_live ttl ((now, op) # ops) later = op_live ttl now op later (log_live ttl ops later)"

text \<open>
  The calls of a log read the clock no later than \<open>later\<close>.  They need not be in the order of their clock
  readings: \<^verbatim>\<open>cleanup\<close> reads the clock before it takes the mutex.
\<close>

definition times_ok :: "time \<Rightarrow> (time \<times> 'v cache_op) list \<Rightarrow> bool" where
  "times_ok later ops \<longleftrightarrow> list_all (\<lambda>(now, op). now \<le> later) ops"

locale timed_store =
  fixes live :: "time \<Rightarrow> 'c \<Rightarrow> string \<Rightarrow> 'v option"
    and perform :: "time \<Rightarrow> 'v cache_op \<Rightarrow> 'c \<Rightarrow> 'c"
    and fetch :: "time \<Rightarrow> string \<Rightarrow> 'c \<Rightarrow> 'v option"
    and fresh :: "duration \<Rightarrow> 'c"
    and ttl_of :: "'c \<Rightarrow> duration"
  assumes live_fresh: "live later (fresh ttl) = (\<lambda>_. None)"
    and ttl_fresh: "ttl_of (fresh ttl) = ttl"
    and ttl_perform: "ttl_of (perform now op c) = ttl_of c"
    and live_perform: "now \<le> later \<Longrightarrow> live later (perform now op c) = op_live (ttl_of c) now op later (live later c)"
    and fetch_live: "fetch now key c = live now c key"
begin

text \<open>Any run of calls refines the log.\<close>

lemma run_ttl: "ttl_of (foldr (\<lambda>(now, op). perform now op) ops (fresh ttl)) = ttl"
  by (induction ops) (auto simp: ttl_fresh ttl_perform)

lemma run_live:
  "times_ok later ops \<Longrightarrow> live later (foldr (\<lambda>(now, op). perform now op) ops (fresh ttl)) = log_live ttl ops later"
proof (induction ops)
  case Nil
  then show ?case by (simp add: live_fresh)
next
  case (Cons x ops)
  obtain now op where x: "x = (now, op)" by fastforce
  then show ?case using Cons by (simp add: live_perform run_ttl times_ok_def)
qed

lemma run_fetch:
  "times_ok now ops \<Longrightarrow> fetch now key (foldr (\<lambda>(now, op). perform now op) ops (fresh ttl)) = log_live ttl ops now key"
  by (simp add: fetch_live run_live)

end

section \<open>SimpleCache keeps the contract\<close>

definition cache_live :: "time \<Rightarrow> 'v SimpleCache \<Rightarrow> string \<Rightarrow> 'v option" where
  "cache_live later c key =
     (case map_of (sc_items c) key of None \<Rightarrow> None | Some (v, expiry) \<Rightarrow> if later \<le> expiry then Some v else None)"

fun cache_perform :: "time \<Rightarrow> 'v cache_op \<Rightarrow> 'v SimpleCache \<Rightarrow> 'v SimpleCache" where
  "cache_perform now (OpSet key v) c = cache_Set now key v c"
| "cache_perform now (OpGet key) c = snd (cache_Get now key c)"
| "cache_perform now (OpRelease key) c = snd (cache_Release now key c)"
| "cache_perform now (OpCleanup ord) c = cache_cleanup ord now c"

lemma map_of_delete [simp, go_map]: "map_of (AList.delete k m) = (map_of m)(k := None)"
  by (rule AList.delete_conv')

lemma cleanup_fold:
  "map_of (fold (\<lambda>k items. case map_of orig k of None \<Rightarrow> items
        | Some (v, expiry) \<Rightarrow> if now > expiry then AList.delete k items else items) ks items) k =
   (if k \<in> set ks \<and> (\<exists>v expiry. map_of orig k = Some (v, expiry) \<and> expiry < now) then None else map_of items k)"
  by (induction ks arbitrary: items) (auto split: option.splits)

lemma cache_cleanup_live: "now \<le> later \<Longrightarrow> cache_live later (cache_cleanup ord now c) k = cache_live later c k"
  by (auto simp: cache_live_def cache_cleanup_def cleanup_fold split: option.splits)

lemma cache_Get_live:
  "fst (cache_Get now key c) = cache_live now c key"
  by (simp add: cache_Get_def cache_live_def split: option.splits)

lemma cache_Get_keeps:
  "now \<le> later \<Longrightarrow> cache_live later (snd (cache_Get now key c)) k = cache_live later c k"
  by (auto simp: cache_Get_def cache_live_def split: option.splits if_splits)

lemma cache_Release_live:
  "fst (cache_Release now key c) = cache_live now c key"
  "cache_live later (snd (cache_Release now key c)) k = (if k = key then None else cache_live later c k)"
  by (auto simp: cache_Release_def cache_live_def split: option.splits)

lemma cache_Set_live:
  "cache_live later (cache_Set now key v c) k =
     (if k = key then (if later \<le> now + sc_ttl c then Some v else None) else cache_live later c k)"
  by (simp add: cache_Set_def cache_live_def)

lemma cache_ttl [simp]: "sc_ttl (cache_perform now op c) = sc_ttl c"
  by (cases op) (auto simp: cache_Set_def cache_Get_def cache_Release_def cache_cleanup_def split: option.splits)

interpretation sc: timed_store cache_live cache_perform "\<lambda>now key c. fst (cache_Get now key c)" NewSimpleCache sc_ttl
proof
  fix now later op and c :: "'v SimpleCache"
  show "now \<le> later \<Longrightarrow> cache_live later (cache_perform now op c) = op_live (sc_ttl c) now op later (cache_live later c)"
    by (cases op) (auto simp: cache_Set_live cache_Get_keeps cache_Release_live cache_cleanup_live fun_eq_iff)
qed (auto simp: cache_live_def NewSimpleCache_def cache_Get_live fun_eq_iff)

lemma GetAll_fold:
  "map_of (fold (\<lambda>k result. case map_of items k of None \<Rightarrow> result
        | Some (v, expiry) \<Rightarrow> if now < expiry then AList.update k v result else result) ks result) k =
   (if k \<in> set ks \<and> (\<exists>v expiry. map_of items k = Some (v, expiry) \<and> now < expiry) then map_option fst (map_of items k)
    else map_of result k)"
  by (induction ks arbitrary: result) (auto split: option.splits)

text \<open>\<^verbatim>\<open>GetAll\<close> leaves out an entry already at the instant of its expiry, \<^verbatim>\<open>Get\<close> still returns it: it gives what \<^verbatim>\<open>Get\<close> gives a nanosecond later.\<close>

lemma GetAll_live:
  assumes "order_ok ord"
  shows "map_of (cache_GetAll ord now c) k = cache_live (now + 1) c k"
  by (auto simp: cache_GetAll_def cache_live_def GetAll_fold set_range_keys [OF assms] split: option.splits)

lemma times_ok_later: "times_ok now ops \<Longrightarrow> now \<le> later \<Longrightarrow> times_ok later ops"
  by (auto simp: times_ok_def list_all_iff split: prod.splits)

text \<open>
  C36.  Whatever sequence of calls, with \<^verbatim>\<open>cleanup\<close> ticking in between, leads to a cache, the three reads \<^verbatim>\<open>Get\<close>,
  \<^verbatim>\<open>Release\<close> and \<^verbatim>\<open>GetAll\<close> answer from the log of the calls alone: the value of the last \<^verbatim>\<open>Set\<close> of the key, unless a
  \<^verbatim>\<open>Release\<close> came after it or the time to live has passed.  At the very instant of its expiry \<^verbatim>\<open>Get\<close> and \<^verbatim>\<open>Release\<close> still
  hand a value out and \<^verbatim>\<open>GetAll\<close> no longer does, in whatever order it reads its map.  A \<^verbatim>\<open>Release\<close> hands a value out at most once.
\<close>

theorem cache_refines_log:
  fixes ops :: "(time \<times> 'v cache_op) list" and ttl :: duration and now :: time and key :: string
  assumes "times_ok now ops" "order_ok ord"
  defines "c \<equiv> foldr (\<lambda>(t, op). cache_perform t op) ops (NewSimpleCache ttl)"
  shows "fst (cache_Get now key c) = log_live ttl ops now key \<and>
    fst (cache_Release now key c) = log_live ttl ops now key \<and>
    map_of (cache_GetAll ord now c) key = log_live ttl ops (now + 1) key \<and>
    fst (cache_Release now key (snd (cache_Release now key c))) = None"
  using sc.run_fetch [OF assms(1), of key ttl] sc.run_live [OF assms(1), of ttl]
    sc.run_live [OF times_ok_later [OF assms(1)], of "now + 1" ttl]
  unfolding c_def by (simp add: cache_Release_live GetAll_live [OF assms(2)])

definition sample_log :: "(time \<times> nat cache_op) list" where
  "sample_log = [(7, OpGet ''b''), (6, OpSet ''a'' 2), (4, OpCleanup rev), (3, OpRelease ''a''), (1, OpSet ''a'' 1)]"

theorem cache_refines_log_witness:
  "fst (cache_Get 11 ''a'' (foldr (\<lambda>(t, op). cache_perform t op) sample_log (NewSimpleCache 5))) = Some 2 \<and>
   map_of (cache_GetAll rev 11 (foldr (\<lambda>(t, op). cache_perform t op) sample_log (NewSimpleCache 5))) ''a'' = None"
  using cache_refines_log [of 11 sample_log rev "''a''" 5] order_ok_rev by (simp add: sample_log_def times_ok_def)

end
