(* ===== verification/ApiTypes.thy ===== *)
theory ApiTypes
  imports Prelude
begin

text \<open>
  The rows and messages of the search API: \<^verbatim>\<open>coordinator/internal/models/db/types.go\<close> (filters, sorting, rows
  of the provider table) and \<^verbatim>\<open>coordinator/internal/models/api/v1/types.go\<close> (requests and answers).  Integers keep
  their width as words; \<^verbatim>\<open>int64\<close> and \<^verbatim>\<open>int32\<close> are read as signed.  \<^verbatim>\<open>float64\<close> and \<^verbatim>\<open>float32\<close> are the type
  parameters \<open>'f\<close> and \<open>'g\<close>: the code copies them, prints them and scales two of them, so its behaviour needs
  nothing else of them.
\<close>

section \<open>Database rows\<close>

record ('f, 'g) provider_filters =
  pf_StorageGitHash :: "string option"
  pf_ProviderGitHash :: "string option"
  pf_CPUName :: "string option"
  pf_Location :: "string option"
  pf_Country :: "string option"
  pf_ISP :: "string option"
  pf_RegTimeDaysGt :: "64 word option"
  pf_RegTimeDaysLt :: "64 word option"
  pf_WorkingTimeGtSec :: "64 word option"
  pf_WorkingTimeLtSec :: "64 word option"
  pf_MinSpanGt :: "64 word option"
  pf_MinSpanLt :: "64 word option"
  pf_MaxSpanGt :: "64 word option"
  pf_MaxSpanLt :: "64 word option"
  pf_MaxBagSizeBytesGt :: "64 word option"
  pf_MaxBagSizeBytesLt :: "64 word option"
  pf_BenchmarkDiskReadSpeedKiBGt :: "64 word option"
  pf_BenchmarkDiskReadSpeedKiBLt :: "64 word option"
  pf_BenchmarkDiskWriteSpeedKiBGt :: "64 word option"
  pf_BenchmarkDiskWriteSpeedKiBLt :: "64 word option"
  pf_SpeedtestDownloadSpeedGt :: "64 word option"
  pf_SpeedtestDownloadSpeedLt :: "64 word option"
  pf_SpeedtestUploadSpeedGt :: "64 word option"
  pf_SpeedtestUploadSpeedLt :: "64 word option"
  pf_SpeedtestPingGt :: "64 word option"
  pf_SpeedtestPingLt :: "64 word option"
  pf_RatingGt :: "'f option"
  pf_RatingLt :: "'f option"
  pf_UpTimeGtPercent :: "'f option"
  pf_UpTimeLtPercent :: "'f option"
  pf_PriceGt :: "'f option"
  pf_PriceLt :: "'f option"
  pf_TotalProviderSpaceGt :: "'f option"
  pf_TotalProviderSpaceLt :: "'f option"
  pf_UsedProviderSpaceGt :: "'f option"
  pf_UsedProviderSpaceLt :: "'f option"
  pf_CPUNumberGt :: "32 word option"
  pf_CPUNumberLt :: "32 word option"
  pf_TotalRamGt :: "'g option"
  pf_TotalRamLt :: "'g option"
  pf_UsageRamPercentGt :: "'g option"
  pf_UsageRamPercentLt :: "'g option"
  pf_CPUIsVirtual :: "bool option"
  pf_HasFreeSpace :: "bool option"
  pf_IsSendTelemetry :: "bool option"

record provider_sort =
  ps_Column :: string
  ps_Order :: string

record ('f, 'g) filters_range =
  fr_Locations :: "string list"
  fr_RegTimeDaysMax :: "64 word"
  fr_MinSpanMin :: "64 word"
  fr_MinSpanMax :: "64 word"
  fr_MaxSpanMin :: "64 word"
  fr_MaxSpanMax :: "64 word"
  fr_MaxBagSizeMbMin :: "64 word"
  fr_MaxBagSizeMbMax :: "64 word"
  fr_BenchmarkDiskReadSpeedMin :: "64 word"
  fr_BenchmarkDiskReadSpeedMax :: "64 word"
  fr_BenchmarkDiskWriteSpeedMin :: "64 word"
  fr_BenchmarkDiskWriteSpeedMax :: "64 word"
  fr_SpeedtestDownloadSpeedMin :: "64 word"
  fr_SpeedtestDownloadSpeedMax :: "64 word"
  fr_SpeedtestUploadSpeedMin :: "64 word"
  fr_SpeedtestUploadSpeedMax :: "64 word"
  fr_TotalProviderSpaceMin :: "64 word"
  fr_TotalProviderSpaceMax :: "64 word"
  fr_UsedProviderSpaceMax :: "64 word"
  fr_RatingMax :: "'f"
  fr_PriceMax :: "'f"
  fr_CPUNumberMax :: "32 word"
  fr_SpeedtestPingMin :: "32 word"
  fr_SpeedtestPingMax :: "32 word"
  fr_TotalRAMMin :: "'g"
  fr_TotalRAMMax :: "'g"

record reason_stat =
  rs_Reason :: "32 word"
  rs_Count :: "32 word"

record location =
  loc_Country :: string
  loc_CountryISO :: string
  loc_City :: string
  loc_TimeZone :: string

record 'g telemetry_db =
  td_StorageGitHash :: "string option"
  td_ProviderGitHash :: "string option"
  td_BenchmarkDiskReadSpeed :: "string option"
  td_BenchmarkDiskWriteSpeed :: "string option"
  td_CPUName :: "string option"
  td_Country :: "string option"
  td_ISP :: "string option"
  td_UpdatedAt :: "64 word option"
  td_TotalProviderSpace :: "'g option"
  td_UsedProviderSpace :: "'g option"
  td_TotalRAM :: "'g option"
  td_UsageRAM :: "'g option"
  td_UsageRAMPercent :: "'g option"
  td_SpeedtestDownload :: "'g option"
  td_SpeedtestUpload :: "'g option"
  td_SpeedtestPing :: "'g option"
  td_CPUNumber :: "16 word option"
  td_CPUIsVirtual :: "bool option"

record 'g provider_db =
  pdb_Location :: "location option"
  pdb_Status :: "32 word option"
  pdb_PubKey :: string
  pdb_Address :: string
  pdb_UpTime :: "'g"
  pdb_Rating :: "'g"
  pdb_StatusRatio :: "'g"
  pdb_StatusesReasonStats :: "reason_stat list"
  pdb_MaxSpan :: "32 word"
  pdb_Price :: "64 word"
  pdb_MinSpan :: "32 word"
  pdb_MaxBagSizeBytes :: "64 word"
  pdb_RegTime :: "64 word"
  pdb_LastOnlineCheckTime :: "64 word option"
  pdb_IsSendTelemetry :: bool
  pdb_Telemetry :: "'g telemetry_db"

record contract_check =
  cc_Address :: string
  cc_ProviderPublicKey :: string
  cc_ReasonTimestamp :: "time option"
  cc_Reason :: "32 word option"

record contract_bag =
  cb_Address :: string
  cb_ProviderPublicKey :: string
  cb_BagID :: string
  cb_OwnerAddress :: string
  cb_Size :: "64 word"
  cb_Reason :: "32 word option"
  cb_ReasonTimestamp :: "time option"

section \<open>API messages\<close>

record api_sort =
  as_Column :: string
  as_Order :: string

record ('f, 'g) api_filters =
  af_Location :: "string option"
  af_RatingGt :: "'f option"
  af_RatingLt :: "'f option"
  af_RegTimeDaysGt :: "64 word option"
  af_RegTimeDaysLt :: "64 word option"
  af_UpTimeGtPercent :: "'f option"
  af_UpTimeLtPercent :: "'f option"
  af_WorkingTimeGtSec :: "64 word option"
  af_WorkingTimeLtSec :: "64 word option"
  af_PriceGt :: "'f option"
  af_PriceLt :: "'f option"
  af_MinSpanGt :: "64 word option"
  af_MinSpanLt :: "64 word option"
  af_MaxSpanGt :: "64 word option"
  af_MaxSpanLt :: "64 word option"
  af_MaxBagSizeMbGt :: "64 word option"
  af_MaxBagSizeMbLt :: "64 word option"
  af_HasFreeSpace :: "bool option"
  af_IsSendTelemetry :: "bool option"
  af_TotalProviderSpaceGt :: "'f option"
  af_TotalProviderSpaceLt :: "'f option"
  af_UsedProviderSpaceGt :: "'f option"
  af_UsedProviderSpaceLt :: "'f option"
  af_StorageGitHash :: "string option"
  af_ProviderGitHash :: "string option"
  af_CPUNumberGt :: "32 word option"
  af_CPUNumberLt :: "32 word option"
  af_CPUName :: "string option"
  af_CPUIsVirtual :: "bool option"
  af_TotalRamGt :: "'g option"
  af_TotalRamLt :: "'g option"
  af_UsageRamPercentGt :: "'g option"
  af_UsageRamPercentLt :: "'g option"
  af_BenchmarkDiskReadSpeedGt :: "64 word option"
  af_BenchmarkDiskReadSpeedLt :: "64 word option"
  af_BenchmarkDiskWriteSpeedGt :: "64 word option"
  af_BenchmarkDiskWriteSpeedLt :: "64 word option"
  af_SpeedtestDownloadSpeedGt :: "64 word option"
  af_SpeedtestDownloadSpeedLt :: "64 word option"
  af_SpeedtestUploadSpeedGt :: "64 word option"
  af_SpeedtestUploadSpeedLt :: "64 word option"
  af_SpeedtestPingGt :: "64 word option"
  af_SpeedtestPingLt :: "64 word option"
  af_Country :: "string option"
  af_ISP :: "string option"

record ('f, 'g) search_request =
  sq_Filters :: "('f, 'g) api_filters"
  sq_Sort :: api_sort
  sq_Limit :: int
  sq_Offset :: int
  sq_Exact :: "string list"

record ('f, 'g) filters_range_resp =
  frr_Locations :: "string list"
  frr_RegTimeDaysMax :: "64 word"
  frr_MinSpanMin :: "64 word"
  frr_MinSpanMax :: "64 word"
  frr_MaxSpanMin :: "64 word"
  frr_MaxSpanMax :: "64 word"
  frr_MaxBagSizeMbMin :: "64 word"
  frr_MaxBagSizeMbMax :: "64 word"
  frr_TotalProviderSpaceMin :: "64 word"
  frr_TotalProviderSpaceMax :: "64 word"
  frr_UsedProviderSpaceMax :: "64 word"
  frr_BenchmarkDiskReadSpeedMin :: "64 word"
  frr_BenchmarkDiskReadSpeedMax :: "64 word"
  frr_BenchmarkDiskWriteSpeedMin :: "64 word"
  frr_BenchmarkDiskWriteSpeedMax :: "64 word"
  frr_SpeedtestDownloadSpeedMin :: "64 word"
  frr_SpeedtestDownloadSpeedMax :: "64 word"
  frr_SpeedtestUploadSpeedMin :: "64 word"
  frr_SpeedtestUploadSpeedMax :: "64 word"
  frr_RatingMax :: "'f"
  frr_PriceMax :: "'f"
  frr_CPUNumberMax :: "32 word"
  frr_SpeedtestPingMin :: "32 word"
  frr_SpeedtestPingMax :: "32 word"
  frr_TotalRamMin :: "'g"
  frr_TotalRamMax :: "'g"

record 'g api_telemetry =
  at_StorageGitHash :: "string option"
  at_ProviderGitHash :: "string option"
  at_BenchmarkDiskReadSpeed :: "string option"
  at_BenchmarkDiskWriteSpeed :: "string option"
  at_Country :: "string option"
  at_ISP :: "string option"
  at_CPUName :: "string option"
  at_UpdatedAt :: "64 word option"
  at_TotalProviderSpace :: "'g option"
  at_UsedProviderSpace :: "'g option"
  at_TotalRAM :: "'g option"
  at_UsageRAM :: "'g option"
  at_UsageRAMPercent :: "'g option"
  at_SpeedtestDownload :: "'g option"
  at_SpeedtestUpload :: "'g option"
  at_SpeedtestPing :: "'g option"
  at_CPUNumber :: "16 word option"
  at_CPUIsVirtual :: "bool option"

record api_reason_stats =
  ars_Reason :: "32 word"
  ars_Count :: "32 word"

record api_location =
  al_Country :: string
  al_CountryISO :: string
  al_City :: string
  al_TimeZone :: string

record 'g api_provider =
  ap_Location :: "api_location option"
  ap_Status :: "32 word option"
  ap_PubKey :: string
  ap_Address :: string
  ap_UpTime :: "'g"
  ap_StatusRatio :: "'g"
  ap_StatusesReasonStats :: "api_reason_stats list"
  ap_WorkingTime :: "64 word"
  ap_Rating :: "'g"
  ap_MaxSpan :: "32 word"
  ap_Price :: "64 word"
  ap_MinSpan :: "32 word"
  ap_MaxBagSizeBytes :: "64 word"
  ap_RegTime :: "64 word"
  ap_LastOnlineCheckTime :: "64 word option"
  ap_IsSendTelemetry :: bool
  ap_Telemetry :: "'g api_telemetry"

record api_contract_check =
  acc_Address :: string
  acc_ProviderPublicKey :: string
  acc_Reason :: "32 word option"
  acc_ReasonTimestamp :: "64 word option"

record contract_bags_request =
  cbr_Provider :: string
  cbr_Limit :: int
  cbr_Offset :: int

record api_contract_bag =
  acb_Address :: string
  acb_ProviderPubKey :: string
  acb_BagID :: string
  acb_OwnerAddress :: string
  acb_Size :: "64 word"
  acb_Reason :: "32 word option"
  acb_ReasonTimestamp :: "64 word option"

end
