(* ===== verification/Query.thy ===== *)
theory Query
  imports ApiTypes
begin

text \<open>
  \<^verbatim>\<open>coordinator/internal/repositories/providers/helpers.go\<close> and \<^verbatim>\<open>GetFilteredProviders\<close> of \<^verbatim>\<open>repository.go\<close>:
  the text of the search query, its arguments, and the reading of its rows.  A query is a pair of
  text and arguments; the database is a function from queries to rows.

  Formatting and scaling of floating-point numbers are parameters (\<open>float_lib\<close>).
\<close>

record ('f, 'g) float_lib =
  fl_Format64 :: "'f \<Rightarrow> string"
  fl_Format32 :: "'g \<Rightarrow> string"
  fl_Div100 :: "'f \<Rightarrow> 'f"
  fl_PriceRate :: "'f \<Rightarrow> 'f"

datatype sql_arg = ArgInt int | ArgText string | ArgFloat64 int

definition minFreeDiskSpaceGb :: int where "minFreeDiskSpaceGb = 4"

definition sql_str :: "string \<Rightarrow> string" where "sql_str s = CHR 0x27 # s @ [CHR 0x27]"

text \<open>A line of a raw string literal after its tabs; one line of the source starts with blanks.\<close>

definition row_text :: "nat \<Rightarrow> string \<Rightarrow> string" where
  "row_text tabs s = CHR 0x0A # replicate tabs CHR 0x09 @ s"

definition row_text_sp :: "string \<Rightarrow> string" where
  "row_text_sp s = CHR 0x0A # replicate 4 CHR '' '' @ replicate 2 CHR 0x09 @ s"

definition providersQuerySelect :: string where
  "providersQuerySelect =
     row_text 2 (''SELECT '') @
     row_text 3 (''p.public_key,'') @
     row_text 3 (''p.address,'') @
     row_text 3 (''p.status,'') @
     row_text 3 (''p.status_ratio,'') @
     row_text 3 (''p.statuses_reason_stats,'') @
     row_text 3 (''p.uptime * 100 as uptime,'') @
     row_text 3 (''p.rating,'') @
     row_text 3 (''p.max_span,'') @
     row_text 3 (''p.rate_per_mb_per_day * 1024 * 200 * 30 as price, -- NanoTON per 200GB per month'') @
     row_text 3 (''p.min_span,'') @
     row_text 3 (''p.max_bag_size_bytes,'') @
     row_text 3 (''p.registered_at,'') @
     row_text 3 (''CASE'') @
     row_text 4 (''WHEN p.ip_info - '' @ sql_str ''ip'' @ '' <> '' @ sql_str ''{}'' @ ''::jsonb THEN p.ip_info - '' @ sql_str ''ip'') @
     row_text 4 (''ELSE NULL'') @
     row_text 3 (''END as location,'') @
     row_text 3 (''t.public_key is not null as is_send_telemetry,'') @
     row_text 3 (''t.storage_git_hash,'') @
     row_text 3 (''t.provider_git_hash,'') @
     row_text 3 (''t.total_provider_space,'') @
     row_text 3 (''t.used_provider_space,'') @
     row_text 3 (''t.cpu_name,'') @
     row_text 3 (''t.cpu_number,'') @
     row_text 3 (''t.cpu_is_virtual,'') @
     row_text 3 (''t.total_ram,'') @
     row_text 3 (''t.usage_ram,'') @
     row_text 3 (''t.ram_usage_percent,'') @
     row_text 3 (''t.updated_at,'') @
     row_text 3 (''b.qd64_disk_read_speed,'') @
     row_text 3 (''b.qd64_disk_write_speed,'') @
     row_text 3 (''b.speedtest_download,'') @
     row_text 3 (''b.speedtest_upload,'') @
     row_text 3 (''b.speedtest_ping,'') @
     row_text 3 (''b.country,'') @
     row_text 3 (''b.isp,'') @
     row_text_sp (''l.check_time as last_status_check_time'') @
     row_text 2 (''FROM providers.providers p'') @
     row_text 3 (''LEFT JOIN providers.telemetry t ON p.public_key = t.public_key'') @
     row_text 3 (''LEFT JOIN providers.benchmarks b ON p.public_key = b.public_key'') @
     row_text_sp (''LEFT JOIN providers.last_online l ON p.public_key = l.public_key'') @
     row_text 2 (''WHERE p.is_initialized AND p.rating IS NOT NULL AND p.uptime IS NOT NULL'') @
     row_text 3 []"

definition providersQueryOrder :: string where
  "providersQueryOrder = row_text 2 (''ORDER BY '')"

definition providersQueryLimit :: string where
  "providersQueryLimit = row_text 2 (''LIMIT '' @ [CHR 0x24] @ ''1'') @
     row_text 2 (''OFFSET '' @ [CHR 0x24] @ ''2'')"

section \<open>Sorting and filters\<close>

definition sortToCondition :: "provider_sort \<Rightarrow> string" where
  "sortToCondition srt =
     (if ps_Column srt = [] then ''p.rating '' else ps_Column srt @ '' '') @
     (if ps_Order srt = [] then ''DESC'' else if ps_Order srt = ''ASC'' then ''ASC'' else ''DESC'')"

type_synonym cond_state = "string \<times> sql_arg list"

text \<open>
  The branches of \<^verbatim>\<open>filtersToCondition\<close> are of four kinds: a number printed into the condition, a flag that
  picks one of two texts, a value appended to the arguments with a placeholder, and the constant argument
  of \<^verbatim>\<open>HasFreeSpace\<close>.
\<close>

definition fmt_d :: "'a::len word \<Rightarrow> string" where "fmt_d x = Itoa (sint x)"

definition opt_lit :: "'a option \<Rightarrow> string \<Rightarrow> ('a \<Rightarrow> string) \<Rightarrow> string \<Rightarrow> cond_state \<Rightarrow> cond_state" where
  "opt_lit v pre fmt post st =
     (case v of None \<Rightarrow> st | Some x \<Rightarrow> (fst st @ pre @ fmt x @ post, snd st))"

definition opt_bool :: "bool option \<Rightarrow> string \<Rightarrow> string \<Rightarrow> cond_state \<Rightarrow> cond_state" where
  "opt_bool v yes no st = (case v of None \<Rightarrow> st | Some b \<Rightarrow> (fst st @ (if b then yes else no), snd st))"

definition bind_arg :: "string \<Rightarrow> sql_arg \<Rightarrow> cond_state \<Rightarrow> cond_state" where
  "bind_arg pre arg st =
     (let resArgs = snd st @ [arg] in (fst st @ pre @ CHR 0x24 # nat_Itoa (length resArgs), resArgs))"

definition opt_arg ::
  "string option \<Rightarrow> (string \<Rightarrow> bool) \<Rightarrow> string \<Rightarrow> (string \<Rightarrow> sql_arg) \<Rightarrow> cond_state \<Rightarrow> cond_state" where
  "opt_arg v guard pre arg st =
     (case v of None \<Rightarrow> st | Some s \<Rightarrow> if guard s then bind_arg pre (arg s) st else st)"

definition filter_steps :: "('f, 'g) float_lib \<Rightarrow> ('f, 'g) provider_filters \<Rightarrow> (cond_state \<Rightarrow> cond_state) list" where
  "filter_steps fl f =
     [opt_arg (pf_Location f) (\<lambda>s. length s > 0) ('' AND p.ip_info->>'' @ sql_str ''country'' @ '' || '' @ sql_str '' ('' @ '' || COALESCE(p.ip_info->>'' @ sql_str ''country_iso'' @ '', '' @ sql_str [] @ '') || '' @ sql_str '')'' @ '' = '') (\<lambda>s. ArgText s),
      opt_lit (pf_RatingGt f) ('' AND p.rating >= '') (fl_Format64 fl) [],
      opt_lit (pf_RatingLt f) ('' AND p.rating <= '') (fl_Format64 fl) [],
      opt_lit (pf_RegTimeDaysGt f) ('' AND p.registered_at <= NOW() - INTERVAL '' @ [CHR 0x27]) fmt_d ('' days'' @ [CHR 0x27]),
      opt_lit (pf_RegTimeDaysLt f) ('' AND p.registered_at >= NOW() - INTERVAL '' @ [CHR 0x27]) fmt_d ('' days'' @ [CHR 0x27]),
      opt_lit (pf_UpTimeGtPercent f) ('' AND p.uptime >= '') (fl_Format64 fl \<circ> fl_Div100 fl) [],
      opt_lit (pf_UpTimeLtPercent f) ('' AND p.uptime <= '') (fl_Format64 fl \<circ> fl_Div100 fl) [],
      opt_lit (pf_WorkingTimeGtSec f) ('' AND p.working_time >= '') fmt_d [],
      opt_lit (pf_WorkingTimeLtSec f) ('' AND p.working_time <= '') fmt_d [],
      opt_lit (pf_PriceGt f) ('' AND p.rate_per_mb_per_day >= '') (fl_Format64 fl \<circ> fl_PriceRate fl) [],
      opt_lit (pf_PriceLt f) ('' AND p.rate_per_mb_per_day <= '') (fl_Format64 fl \<circ> fl_PriceRate fl) [],
      opt_lit (pf_MinSpanGt f) ('' AND p.min_span >= '') fmt_d [],
      opt_lit (pf_MinSpanLt f) ('' AND p.min_span <= '') fmt_d [],
      opt_lit (pf_MaxSpanGt f) ('' AND p.max_span >= '') fmt_d [],
      opt_lit (pf_MaxSpanLt f) ('' AND p.max_span <= '') fmt_d [],
      opt_lit (pf_MaxBagSizeBytesGt f) ('' AND p.max_bag_size_bytes/1024/1024 >= '') fmt_d [],
      opt_lit (pf_MaxBagSizeBytesLt f) ('' AND p.max_bag_size_bytes/1024/1024 <= '') fmt_d ('' + 1''),
      (if pf_HasFreeSpace f = Some True then bind_arg ('' AND t.total_provider_space - t.used_provider_space > '') (ArgFloat64 minFreeDiskSpaceGb) else id),
      opt_bool (pf_IsSendTelemetry f) ('' AND t.public_key is not null'') ('' AND t.public_key is null''),
      opt_lit (pf_TotalProviderSpaceGt f) ('' AND t.total_provider_space >= '') (fl_Format64 fl) [],
      opt_lit (pf_TotalProviderSpaceLt f) ('' AND t.total_provider_space <= '') (fl_Format64 fl) [],
      opt_lit (pf_UsedProviderSpaceGt f) ('' AND t.used_provider_space >= '') (fl_Format64 fl) [],
      opt_lit (pf_UsedProviderSpaceLt f) ('' AND t.used_provider_space <= '') (fl_Format64 fl) [],
      opt_arg (pf_StorageGitHash f) (\<lambda>s. length s = 7) ('' AND t.storage_git_hash = '') (\<lambda>s. ArgText s),
      opt_arg (pf_ProviderGitHash f) (\<lambda>s. length s = 7) ('' AND t.provider_git_hash = '') (\<lambda>s. ArgText s),
      opt_lit (pf_CPUNumberGt f) ('' AND t.cpu_number >= '') fmt_d [],
      opt_lit (pf_CPUNumberLt f) ('' AND t.cpu_number <= '') fmt_d [],
      opt_arg (pf_CPUName f) (\<lambda>s. length s \<ge> 0) ('' AND t.cpu_name ILIKE '') (\<lambda>s. ArgText (''%'' @ s @ ''%'')),
      opt_bool (pf_CPUIsVirtual f) ('' AND t.cpu_is_virtual'') ('' AND (t.cpu_is_virtual IS NULL OR NOT t.cpu_is_virtual)''),
      opt_lit (pf_TotalRamGt f) ('' AND t.total_ram >= '') (fl_Format32 fl) [],
      opt_lit (pf_TotalRamLt f) ('' AND t.total_ram <= '') (fl_Format32 fl) [],
      opt_lit (pf_UsageRamPercentGt f) ('' AND t.ram_usage_percent >= '') (fl_Format32 fl) [],
      opt_lit (pf_UsageRamPercentLt f) ('' AND t.ram_usage_percent <= '') (fl_Format32 fl) [],
      opt_lit (pf_BenchmarkDiskReadSpeedKiBGt f) ('' AND providers.parse_speed_to_int(b.qd64_disk_read_speed) >= '') (\<lambda>x. fmt_d (x * 1024)) [],
      opt_lit (pf_BenchmarkDiskReadSpeedKiBLt f) ('' AND providers.parse_speed_to_int(b.qd64_disk_read_speed) <= '') (\<lambda>x. fmt_d (x * 1024)) [],
      opt_lit (pf_BenchmarkDiskWriteSpeedKiBGt f) ('' AND providers.parse_speed_to_int(b.qd64_disk_write_speed) >= '') (\<lambda>x. fmt_d (x * 1024)) [],
      opt_lit (pf_BenchmarkDiskWriteSpeedKiBLt f) ('' AND providers.parse_speed_to_int(b.qd64_disk_write_speed) <= '') (\<lambda>x. fmt_d (x * 1024)) [],
      opt_lit (pf_SpeedtestDownloadSpeedGt f) ('' AND b.speedtest_download >= '') fmt_d [],
      opt_lit (pf_SpeedtestDownloadSpeedLt f) ('' AND b.speedtest_download <= '') fmt_d [],
      opt_lit (pf_SpeedtestUploadSpeedGt f) ('' AND b.speedtest_upload >= '') fmt_d [],
      opt_lit (pf_SpeedtestUploadSpeedLt f) ('' AND b.speedtest_upload <= '') fmt_d [],
      opt_lit (pf_SpeedtestPingGt f) ('' AND b.speedtest_ping >= '') fmt_d [],
      opt_lit (pf_SpeedtestPingLt f) ('' AND b.speedtest_ping <= '') fmt_d [],
      opt_arg (pf_Country f) (\<lambda>s. length s \<ge> 0) ('' AND b.country ILIKE '') (\<lambda>s. ArgText (''%'' @ s @ ''%'')),
      opt_arg (pf_ISP f) (\<lambda>s. length s \<ge> 0) ('' AND b.isp ILIKE '') (\<lambda>s. ArgText (''%'' @ s @ ''%''))]"

definition filtersToCondition ::
  "('f, 'g) float_lib \<Rightarrow> ('f, 'g) provider_filters \<Rightarrow> sql_arg list \<Rightarrow> string \<times> sql_arg list" where
  "filtersToCondition fl filters args = fold (\<lambda>step. step) (filter_steps fl filters) ([], args)"

section \<open>Running the query\<close>

text \<open>
  A scanned row: the columns that go straight into the row, and the times and the location that are copied afterwards.
  The database returns an error for the query, or the rows, each with its scan error, and the error of \<^verbatim>\<open>rows.Err\<close>.
\<close>

record 'g scanned_row =
  row_provider :: "'g provider_db"
  row_regTime :: time
  row_updatedAt :: "time option"
  row_lastOnlineCheckTime :: "time option"
  row_location :: "location option"

definition unix_seconds :: "time \<Rightarrow> int" where "unix_seconds t = t div 1000000000"

definition scan_provider :: "'g scanned_row \<Rightarrow> 'g provider_db" where
  "scan_provider row =
     (let p = row_provider row;
          p = (case row_updatedAt row of
                 None \<Rightarrow> p
               | Some t \<Rightarrow> p\<lparr>pdb_Telemetry := (pdb_Telemetry p)\<lparr>td_UpdatedAt := Some (word_of_int (unix_seconds t))\<rparr>\<rparr>);
          p = (case row_lastOnlineCheckTime row of
                 None \<Rightarrow> p | Some t \<Rightarrow> p\<lparr>pdb_LastOnlineCheckTime := Some (word_of_int (unix_seconds t))\<rparr>);
          p = (case row_location row of None \<Rightarrow> p | Some l \<Rightarrow> p\<lparr>pdb_Location := Some l\<rparr>)
      in p\<lparr>pdb_RegTime := word_of_int (unix_seconds (row_regTime row))\<rparr>)"

fun scanProviderDBRows ::
  "(go_error + 'g scanned_row) list \<Rightarrow> go_error option \<Rightarrow> 'g provider_db list \<Rightarrow> 'g provider_db list \<times> go_error option" where
  "scanProviderDBRows [] rowsErr providers = (providers, rowsErr)"
| "scanProviderDBRows (Inl err # rows) rowsErr providers = ([], Some err)"
| "scanProviderDBRows (Inr row # rows) rowsErr providers = scanProviderDBRows rows rowsErr (providers @ [scan_provider row])"

datatype 'g query_answer = ErrNoRows | QueryError go_error | QueryRows "(go_error + 'g scanned_row) list" "go_error option"

definition filtered_query ::
  "('f, 'g) float_lib \<Rightarrow> ('f, 'g) provider_filters \<Rightarrow> provider_sort \<Rightarrow> int \<Rightarrow> int \<Rightarrow> string \<times> sql_arg list" where
  "filtered_query fl filters srt limit offset =
     (case filtersToCondition fl filters [ArgInt limit, ArgInt offset] of
        (filtersStr, args) \<Rightarrow>
          (providersQuerySelect @ filtersStr @ providersQueryOrder @ sortToCondition srt @ providersQueryLimit, args))"

definition GetFilteredProviders ::
  "(string \<times> sql_arg list \<Rightarrow> 'g query_answer) \<Rightarrow> ('f, 'g) float_lib \<Rightarrow> ('f, 'g) provider_filters \<Rightarrow> provider_sort \<Rightarrow> int \<Rightarrow> int \<Rightarrow>
     'g provider_db list \<times> go_error option" where
  "GetFilteredProviders query fl filters srt limit offset =
     (case query (filtered_query fl filters srt limit offset) of
        ErrNoRows \<Rightarrow> ([], None)
      | QueryError err \<Rightarrow> ([], Some err)
      | QueryRows rows rowsErr \<Rightarrow> scanProviderDBRows rows rowsErr [])"

text \<open>The other query of the search service, with the list of keys as its only argument.\<close>

definition providersByPubkeysSelect :: string where
  "providersByPubkeysSelect =
     row_text 2 (''SELECT '') @
     row_text 3 (''p.public_key,'') @
     row_text 3 (''p.address,'') @
     row_text 3 (''p.status,'') @
     row_text 3 (''p.status_ratio,'') @
     row_text 3 (''p.statuses_reason_stats,'') @
     row_text 3 (''COALESCE(p.uptime, 0) * 100 as uptime,'') @
     row_text 3 (''COALESCE(p.rating, 0) as rating,'') @
     row_text 3 (''p.max_span,'') @
     row_text 3 (''p.rate_per_mb_per_day * 1024 * 200 * 30 as price, -- NanoTON per 200GB per month'') @
     row_text 3 (''p.min_span,'') @
     row_text 3 (''p.max_bag_size_bytes,'') @
     row_text 3 (''p.registered_at,'') @
     row_text 3 (''CASE'') @
     row_text 4 (''WHEN p.ip_info - '' @ sql_str ''ip'' @ '' <> '' @ sql_str ''{}'' @ ''::jsonb THEN p.ip_info - '' @ sql_str ''ip'') @
     row_text 4 (''ELSE NULL'') @
     row_text 3 (''END as location,'') @
     row_text 3 (''t.public_key is not null as is_send_telemetry,'') @
     row_text 3 (''t.storage_git_hash,'') @
     row_text 3 (''t.provider_git_hash,'') @
     row_text 3 (''t.total_provider_space,'') @
     row_text 3 (''t.used_provider_space,'') @
     row_text 3 (''t.cpu_name,'') @
     row_text 3 (''t.cpu_number,'') @
     row_text 3 (''t.cpu_is_virtual,'') @
     row_text 3 (''t.total_ram,'') @
     row_text 3 (''t.usage_ram,'') @
     row_text 3 (''t.ram_usage_percent,'') @
     row_text 3 (''t.updated_at,'') @
     row_text 3 (''b.qd64_disk_read_speed,'') @
     row_text 3 (''b.qd64_disk_write_speed,'') @
     row_text 3 (''b.speedtest_download,'') @
     row_text 3 (''b.speedtest_upload,'') @
     row_text 3 (''b.speedtest_ping,'') @
     row_text 3 (''b.country,'') @
     row_text 3 (''b.isp,'') @
     row_text_sp (''l.check_time as last_status_check_time'') @
     row_text 2 (''FROM providers.providers p'') @
     row_text 3 (''LEFT JOIN providers.telemetry t ON p.public_key = t.public_key'') @
     row_text 3 (''LEFT JOIN providers.benchmarks b ON p.public_key = b.public_key'') @
     row_text_sp (''LEFT JOIN providers.last_online l ON p.public_key = l.public_key'') @
     row_text 2 (''WHERE lower(p.public_key) = ANY(SELECT lower(x) FROM unnest('' @ [CHR 0x24] @ ''1::text[]) AS x)'')"

definition GetProvidersByPubkeys ::
  "(string \<times> string list \<Rightarrow> 'g query_answer) \<Rightarrow> string list \<Rightarrow> 'g provider_db list \<times> go_error option" where
  "GetProvidersByPubkeys query pubkeys =
     (case query (providersByPubkeysSelect, pubkeys) of
        ErrNoRows \<Rightarrow> ([], None)
      | QueryError err \<Rightarrow> ([], Some err)
      | QueryRows rows rowsErr \<Rightarrow> scanProviderDBRows rows rowsErr [])"

section \<open>Placeholders and arguments\<close>

definition is_digit :: "char \<Rightarrow> bool" where
  "is_digit c \<longleftrightarrow> 48 \<le> (of_char c :: nat) \<and> (of_char c :: nat) \<le> 57"

text \<open>The numbers that follow the dollar signs of a text.\<close>

fun placeholders :: "string \<Rightarrow> string list" where
  "placeholders [] = []"
| "placeholders (c # s) = (if c = CHR 0x24 then takeWhile is_digit s # placeholders s else placeholders s)"

lemma placeholders_none: "CHR 0x24 \<notin> set s \<Longrightarrow> placeholders (s @ t) = placeholders t"
  by (induction s) auto

lemma placeholders_append:
  assumes "t = [] \<or> \<not> is_digit (hd t)"
  shows "placeholders (s @ t) = placeholders s @ placeholders t"
proof (induction s)
  case (Cons c s)
  have "takeWhile is_digit (s @ t) = takeWhile is_digit s"
    using assms by (cases t) (simp_all add: takeWhile_tail)
  then show ?case using Cons by simp
qed simp

lemma is_digit_dec: "d < 10 \<Longrightarrow> is_digit (dec_digit d)"
  by (simp add: is_digit_def dec_digit_def of_char_of)

lemma nat_Itoa_digits: "c \<in> set (nat_Itoa n) \<Longrightarrow> is_digit c"
proof (induction n rule: nat_Itoa.induct)
  case (1 n)
  then show ?case by (cases "n < 10") (auto simp: nat_Itoa.simps [of n] is_digit_dec)
qed

lemma no_dollar_Itoa: "CHR 0x24 \<notin> set (nat_Itoa n)" "CHR 0x24 \<notin> set (fmt_d x)"
  using nat_Itoa_digits [of "CHR 0x24"] by (auto simp: is_digit_def fmt_d_def Itoa_def)

lemma placeholders_number: "placeholders (CHR 0x24 # nat_Itoa n) = [nat_Itoa n]"
proof -
  have "takeWhile is_digit (nat_Itoa n) = nat_Itoa n" using nat_Itoa_digits by (simp add: takeWhile_eq_all_conv)
  moreover have "placeholders (nat_Itoa n) = []" using placeholders_none [OF no_dollar_Itoa(1), of n "[]"] by simp
  ultimately show ?thesis by simp
qed

text \<open>
  A step of the filter adds text that starts with a blank, and its placeholders are exactly the positions of the
  arguments it adds.
\<close>

definition binds :: "(cond_state \<Rightarrow> cond_state) \<Rightarrow> bool" where
  "binds step \<longleftrightarrow>
     (\<forall>c args. \<exists>seg new. step (c, args) = (c @ seg, args @ new) \<and> (seg = [] \<or> hd seg = CHR '' '') \<and>
        placeholders seg = map nat_Itoa [Suc (length args)..<Suc (length args + length new)])"

lemma bindsI:
  assumes "\<And>c args. step (c, args) = (c @ seg args, args @ new args)" "\<And>args. seg args = [] \<or> hd (seg args) = CHR '' ''"
    "\<And>args. placeholders (seg args) = map nat_Itoa [Suc (length args)..<Suc (length args + length (new args))]"
  shows "binds step"
  unfolding binds_def using assms by blast

definition sql_start :: "string \<Rightarrow> bool" where
  "sql_start pre \<longleftrightarrow> pre \<noteq> [] \<and> hd pre = CHR '' '' \<and> CHR 0x24 \<notin> set pre"

lemma binds_id: "binds id" "binds (\<lambda>st. st)"
  by (rule bindsI [where seg = "\<lambda>_. []" and new = "\<lambda>_. []"]; simp)+

lemma binds_opt_lit:
  assumes "sql_start pre" "\<And>x. CHR 0x24 \<notin> set (fmt x)" "CHR 0x24 \<notin> set post"
  shows "binds (opt_lit v pre fmt post)"
proof (cases v)
  case None
  then show ?thesis using binds_id by (simp add: opt_lit_def [abs_def] binds_def)
next
  case (Some x)
  have "placeholders (pre @ fmt x @ post) = []"
    using assms placeholders_none [of pre] placeholders_none [of "fmt x"] placeholders_none [of post "[]"] by (simp add: sql_start_def)
  then show ?thesis using assms(1) Some
    by (intro bindsI [where seg = "\<lambda>_. pre @ fmt x @ post" and new = "\<lambda>_. []"]) (auto simp: opt_lit_def sql_start_def)
qed

lemma binds_opt_bool:
  assumes "sql_start yes" "sql_start no"
  shows "binds (opt_bool v yes no)"
proof (cases v)
  case None
  then show ?thesis using binds_id by (simp add: opt_bool_def [abs_def] binds_def)
next
  case (Some b)
  then show ?thesis using assms placeholders_none [of yes "[]"] placeholders_none [of no "[]"]
    by (intro bindsI [where seg = "\<lambda>_. if b then yes else no" and new = "\<lambda>_. []"]) (auto simp: opt_bool_def sql_start_def)
qed

lemma binds_bind_arg: "sql_start pre \<Longrightarrow> binds (bind_arg pre arg)"
  using placeholders_none [of pre] placeholders_number
  by (intro bindsI [where seg = "\<lambda>args. pre @ CHR 0x24 # nat_Itoa (Suc (length args))" and new = "\<lambda>_. [arg]"])
    (auto simp: bind_arg_def sql_start_def simp del: placeholders.simps)

lemma binds_opt_arg: "sql_start pre \<Longrightarrow> binds (opt_arg v guard pre arg)"
  using binds_bind_arg [of pre] binds_id by (cases v) (auto simp: opt_arg_def [abs_def] binds_def)

lemma binds_if: "binds s \<Longrightarrow> binds t \<Longrightarrow> binds (if b then s else t)"
  by simp

lemma upt_join: "i \<le> j \<Longrightarrow> j \<le> k \<Longrightarrow> [i..<j] @ [j..<k] = [i..<k]"
  by (metis upt_add_eq_append le_Suc_ex)

lemma binds_fold:
  assumes "list_all binds steps"
  shows "\<exists>seg new. fold (\<lambda>step. step) steps (c, args) = (c @ seg, args @ new) \<and> (seg = [] \<or> hd seg = CHR '' '') \<and>
    placeholders seg = map nat_Itoa [Suc (length args)..<Suc (length args + length new)]"
  using assms
proof (induction steps arbitrary: c args)
  case (Cons step steps)
  obtain seg new where 1: "step (c, args) = (c @ seg, args @ new)" "seg = [] \<or> hd seg = CHR '' ''"
    "placeholders seg = map nat_Itoa [Suc (length args)..<Suc (length args + length new)]"
    using Cons.prems unfolding binds_def list.pred_inject by meson
  obtain seg' new' where 2: "fold (\<lambda>step. step) steps (c @ seg, args @ new) = ((c @ seg) @ seg', (args @ new) @ new')"
    "seg' = [] \<or> hd seg' = CHR '' ''"
    "placeholders seg' = map nat_Itoa [Suc (length (args @ new))..<Suc (length (args @ new) + length new')]"
    using Cons.IH [of "c @ seg" "args @ new"] Cons.prems by auto
  have "placeholders (seg @ seg') = placeholders seg @ placeholders seg'"
    by (rule placeholders_append) (use 2(2) in \<open>auto simp: is_digit_def\<close>)
  also have "\<dots> = map nat_Itoa [Suc (length args)..<Suc (length args + length (new @ new'))]"
    unfolding 1(3) 2(3) length_append map_append [symmetric] by (subst upt_join) (simp_all add: add.assoc del: upt_Suc)
  finally have "placeholders (seg @ seg') = map nat_Itoa [Suc (length args)..<Suc (length args + length (new @ new'))]" .
  then show ?case using 1 2 by (intro exI [of _ "seg @ seg'"] exI [of _ "new @ new'"]) (auto simp: hd_append)
qed simp

lemmas binds_intros = binds_opt_lit binds_opt_bool binds_bind_arg binds_opt_arg binds_if binds_id

definition plain_floats :: "('f, 'g) float_lib \<Rightarrow> bool" where
  "plain_floats fl \<longleftrightarrow> (\<forall>x. CHR 0x24 \<notin> set (fl_Format64 fl x)) \<and> (\<forall>x. CHR 0x24 \<notin> set (fl_Format32 fl x))"

lemma sql_start_Cons: "sql_start (c # s) \<longleftrightarrow> c = CHR '' '' \<and> CHR 0x24 \<notin> set s"
  by (auto simp: sql_start_def)

lemma filter_steps_bind: "plain_floats fl \<Longrightarrow> list_all binds (filter_steps fl f)"
  unfolding filter_steps_def list.pred_inject
  by (intro conjI TrueI binds_intros) (simp_all add: sql_start_Cons sql_str_def no_dollar_Itoa plain_floats_def)

lemma no_dollar_rows: "CHR 0x24 \<notin> set (row_text n t) \<longleftrightarrow> CHR 0x24 \<notin> set t" "CHR 0x24 \<notin> set (row_text_sp t) \<longleftrightarrow> CHR 0x24 \<notin> set t"
  by (auto simp: row_text_def row_text_sp_def)

lemma no_dollar_head: "CHR 0x24 \<notin> set providersQuerySelect"
  unfolding providersQuerySelect_def set_append Un_iff de_Morgan_disj no_dollar_rows
  by (intro conjI) (simp_all add: sql_str_def)

lemma replicate_2: "replicate 2 x = [x, x]"
  by (simp add: numeral_2_eq_2)

lemma placeholders_tail: "placeholders providersQueryLimit = map nat_Itoa [1, 2]"
  by (simp add: providersQueryLimit_def row_text_def is_digit_def nat_Itoa.simps replicate_2)

lemma no_dollar_sort: "CHR 0x24 \<notin> set (ps_Column srt) \<Longrightarrow> CHR 0x24 \<notin> set (providersQueryOrder @ sortToCondition srt)"
  by (auto simp: providersQueryOrder_def row_text_def sortToCondition_def)

text \<open>
  The search query and its arguments fit: whatever filters are set, each argument is referred to by exactly
  one placeholder and each placeholder refers to an argument, with limit and offset first.
\<close>

theorem query_binds_all_args:
  assumes "plain_floats fl" "CHR 0x24 \<notin> set (ps_Column srt)"
  shows "mset (placeholders (fst (filtered_query fl f srt limit offset))) =
      mset (map nat_Itoa [1..<Suc (length (snd (filtered_query fl f srt limit offset)))]) \<and>
    take 2 (snd (filtered_query fl f srt limit offset)) = [ArgInt limit, ArgInt offset]"
proof -
  let ?rest = "providersQueryOrder @ sortToCondition srt @ providersQueryLimit"
  obtain seg new where f: "filtersToCondition fl f [ArgInt limit, ArgInt offset] = (seg, [ArgInt limit, ArgInt offset] @ new)"
    "placeholders seg = map nat_Itoa [3..<3 + length new]"
    using binds_fold [OF filter_steps_bind [OF assms(1)], of f "[]" "[ArgInt limit, ArgInt offset]"]
    by (auto simp: filtersToCondition_def numeral_eq_Suc)
  have "placeholders ((providersQueryOrder @ sortToCondition srt) @ providersQueryLimit) = placeholders providersQueryLimit"
    by (rule placeholders_none [OF no_dollar_sort [OF assms(2)]])
  then have rest: "placeholders ?rest = map nat_Itoa [1, 2]" using placeholders_tail by simp
  have "placeholders (seg @ ?rest) = placeholders seg @ placeholders ?rest"
    by (rule placeholders_append) (simp add: providersQueryOrder_def row_text_def is_digit_def)
  then have q: "placeholders (providersQuerySelect @ seg @ ?rest) = map nat_Itoa ([3..<3 + length new] @ [1, 2])"
    using f(2) rest placeholders_none [OF no_dollar_head] by simp
  have "[1..<3 + length new] = [1, 2] @ [3..<3 + length new]"
    using upt_join [of 1 3 "3 + length new"] by (simp add: upt_conv_Cons numeral_eq_Suc)
  then have "mset (map nat_Itoa [1..<3 + length new]) = mset (map nat_Itoa ([3..<3 + length new] @ [1, 2]))"
    by (simp only: map_append mset_append union_commute)
  moreover have "filtered_query fl f srt limit offset = (providersQuerySelect @ seg @ ?rest, [ArgInt limit, ArgInt offset] @ new)"
    using f(1) by (simp add: filtered_query_def)
  moreover have "Suc (length ([ArgInt limit, ArgInt offset] @ new)) = 3 + length new" by simp
  ultimately show ?thesis using q by (simp only: fst_conv snd_conv) simp
qed

definition text_floats :: "(nat, nat) float_lib" where
  "text_floats = \<lparr>fl_Format64 = nat_Itoa, fl_Format32 = nat_Itoa, fl_Div100 = \<lambda>x. x div 100, fl_PriceRate = \<lambda>x. x\<rparr>"

definition no_filters :: "('f, 'g) provider_filters" where
  "no_filters = \<lparr>pf_StorageGitHash = None, pf_ProviderGitHash = None, pf_CPUName = None, pf_Location = None,
     pf_Country = None, pf_ISP = None, pf_RegTimeDaysGt = None, pf_RegTimeDaysLt = None,
     pf_WorkingTimeGtSec = None, pf_WorkingTimeLtSec = None, pf_MinSpanGt = None, pf_MinSpanLt = None,
     pf_MaxSpanGt = None, pf_MaxSpanLt = None, pf_MaxBagSizeBytesGt = None, pf_MaxBagSizeBytesLt = None,
     pf_BenchmarkDiskReadSpeedKiBGt = None, pf_BenchmarkDiskReadSpeedKiBLt = None, pf_BenchmarkDiskWriteSpeedKiBGt = None, pf_BenchmarkDiskWriteSpeedKiBLt = None,
     pf_SpeedtestDownloadSpeedGt = None, pf_SpeedtestDownloadSpeedLt = None, pf_SpeedtestUploadSpeedGt = None, pf_SpeedtestUploadSpeedLt = None,
     pf_SpeedtestPingGt = None, pf_SpeedtestPingLt = None, pf_RatingGt = None, pf_RatingLt = None,
     pf_UpTimeGtPercent = None, pf_UpTimeLtPercent = None, pf_PriceGt = None, pf_PriceLt = None,
     pf_TotalProviderSpaceGt = None, pf_TotalProviderSpaceLt = None, pf_UsedProviderSpaceGt = None, pf_UsedProviderSpaceLt = None,
     pf_CPUNumberGt = None, pf_CPUNumberLt = None, pf_TotalRamGt = None, pf_TotalRamLt = None,
     pf_UsageRamPercentGt = None, pf_UsageRamPercentLt = None, pf_CPUIsVirtual = None, pf_HasFreeSpace = None,
     pf_IsSendTelemetry = None\<rparr>"

definition location_filter :: "(nat, nat) provider_filters" where
  "location_filter = no_filters\<lparr>pf_Location := Some [CHR 0x27, CHR 0x24], pf_RatingGt := Some 3, pf_ISP := Some ''x''\<rparr>"

theorem query_binds_all_args_witness:
  "mset (placeholders (fst (filtered_query text_floats location_filter \<lparr>ps_Column = ''p.rating'', ps_Order = ''ASC''\<rparr> 10 0))) =
     mset (map nat_Itoa [1..<5])"
proof -
  have "length (snd (filtered_query text_floats location_filter \<lparr>ps_Column = ''p.rating'', ps_Order = ''ASC''\<rparr> 10 0)) = 4"
    by (simp add: filtered_query_def filtersToCondition_def filter_steps_def opt_arg_def opt_lit_def opt_bool_def bind_arg_def
        location_filter_def no_filters_def)
  moreover have "plain_floats text_floats" by (simp add: plain_floats_def text_floats_def no_dollar_Itoa)
  ultimately show ?thesis using query_binds_all_args [of text_floats "\<lparr>ps_Column = ''p.rating'', ps_Order = ''ASC''\<rparr>" location_filter 10 0]
    by simp
qed

section \<open>No text of the user in the query\<close>

definition blank :: "string \<Rightarrow> string" where
  "blank s = replicate (length s) CHR ''x''"

definition blank_filters :: "('f, 'g) provider_filters \<Rightarrow> ('f, 'g) provider_filters" where
  "blank_filters f =
     f\<lparr>pf_StorageGitHash := map_option blank (pf_StorageGitHash f), pf_ProviderGitHash := map_option blank (pf_ProviderGitHash f),
       pf_CPUName := map_option blank (pf_CPUName f), pf_Location := map_option blank (pf_Location f),
       pf_Country := map_option blank (pf_Country f), pf_ISP := map_option blank (pf_ISP f)\<rparr>"

definition same_text :: "cond_state \<Rightarrow> cond_state \<Rightarrow> bool" where
  "same_text st st' \<longleftrightarrow> fst st = fst st' \<and> length (snd st) = length (snd st')"

definition text_alike :: "(cond_state \<Rightarrow> cond_state) \<Rightarrow> (cond_state \<Rightarrow> cond_state) \<Rightarrow> bool" where
  "text_alike s t \<longleftrightarrow> (\<forall>a b. same_text a b \<longrightarrow> same_text (s a) (t b))"

lemma alike_opt_lit: "text_alike (opt_lit v pre fmt post) (opt_lit v pre fmt post)"
  by (auto simp: text_alike_def same_text_def opt_lit_def split: option.splits)

lemma alike_opt_bool: "text_alike (opt_bool v yes no) (opt_bool v yes no)"
  by (auto simp: text_alike_def same_text_def opt_bool_def split: option.splits)

lemma alike_bind_arg: "text_alike (bind_arg pre x) (bind_arg pre y)"
  by (auto simp: text_alike_def same_text_def bind_arg_def)

lemma alike_id: "text_alike id id"
  by (simp add: text_alike_def)

lemma alike_opt_arg:
  assumes "\<And>s. guard (blank s) = guard s"
  shows "text_alike (opt_arg v guard pre arg) (opt_arg (map_option blank v) guard pre arg)"
  using assms alike_bind_arg [of pre] by (cases v) (auto simp: opt_arg_def [abs_def] text_alike_def)

lemma alike_if: "(b \<Longrightarrow> text_alike s s') \<Longrightarrow> (\<not> b \<Longrightarrow> text_alike t t') \<Longrightarrow> text_alike (if b then s else t) (if b then s' else t')"
  by simp

lemma fold_alike:
  "list_all2 text_alike xs ys \<Longrightarrow> same_text a b \<Longrightarrow> same_text (fold (\<lambda>s. s) xs a) (fold (\<lambda>s. s) ys b)"
proof (induction xs ys arbitrary: a b rule: list_all2_induct)
  case (Cons x xs y ys)
  then have "same_text (x a) (y b)" unfolding text_alike_def by blast
  then show ?case using Cons.IH by simp
qed simp

lemma filter_steps_alike: "list_all2 text_alike (filter_steps fl f) (filter_steps fl (blank_filters f))"
  unfolding filter_steps_def blank_filters_def
  by (simp del: list_all2_Nil2 add: alike_opt_lit alike_opt_bool alike_bind_arg alike_id alike_opt_arg blank_def)

text \<open>
  No text of the user reaches the text of the query: replacing every string of the filters, whatever it contains, by
  one of the same length changes the arguments only.
\<close>

theorem query_text_no_user_text:
  "fst (filtered_query fl (blank_filters f) srt limit offset) = fst (filtered_query fl f srt limit offset)"
proof -
  have "same_text (filtersToCondition fl f [ArgInt limit, ArgInt offset]) (filtersToCondition fl (blank_filters f) [ArgInt limit, ArgInt offset])"
    unfolding filtersToCondition_def by (rule fold_alike [OF filter_steps_alike]) (simp add: same_text_def)
  then show ?thesis by (simp add: filtered_query_def same_text_def case_prod_beta)
qed

end
