(* ===== verification/Search.thy ===== *)
theory Search
  imports Query
begin

text \<open>
  \<^verbatim>\<open>coordinator/internal/services/providers/service.go\<close>: the read side of the API service, with
  \<^verbatim>\<open>constants.go\<close> (sorting) and \<^verbatim>\<open>models/apperror.go\<close>.  The repository calls are parameters; \<open>nowUnix i\<close> is the
  clock in seconds when row \<open>i\<close> is converted.
\<close>

section \<open>Errors of the service\<close>

record app_error =
  ae_Code :: int
  ae_Message :: string

definition NotFoundErrorCode :: int where "NotFoundErrorCode = 404"

definition InternalServerErrorCode :: int where "InternalServerErrorCode = 500"

definition BadRequestErrorCode :: int where "BadRequestErrorCode = 400"

definition ForbiddenErrorCode :: int where "ForbiddenErrorCode = 403"

definition defaultMessages :: "(int \<times> string) list" where
  "defaultMessages = [(InternalServerErrorCode, ''internal server error''), (BadRequestErrorCode, ''bad request''),
     (NotFoundErrorCode, ''not found''), (ForbiddenErrorCode, ''forbidden'')]"

definition app_Error :: "app_error \<Rightarrow> string" where
  "app_Error e = ''code='' @ Itoa (ae_Code e) @ '', message='' @ ae_Message e"

definition NewAppError :: "int \<Rightarrow> string \<Rightarrow> app_error" where
  "NewAppError code message =
     \<lparr>ae_Code = code,
      ae_Message = (if message = [] then (case map_of defaultMessages code of Some defMsg \<Rightarrow> defMsg | None \<Rightarrow> ''error'') else message)\<rparr>"

section \<open>Sorting\<close>

definition RatingColumn :: string where "RatingColumn = ''p.rating''"

definition LocationColumn :: string where
  "LocationColumn = ''(p.ip_info->>'' @ sql_str ''country'' @ '' || '' @ sql_str '' ('' @ '' || COALESCE(p.ip_info->>'' @
     sql_str ''country_iso'' @ '', '' @ sql_str [] @ '') || '' @ sql_str '')'' @ '', p.rating)''"

definition SortingMap :: "string go_map" where
  "SortingMap = [(''pubkey'', ''p.public_key''), (''uptime'', ''p.uptime''), (''workingtime'', ''p.registered_at''),
     (''rating'', RatingColumn), (''price'', ''p.rate_per_mb_per_day''), (''location'', LocationColumn)]"

definition OrderMap :: "string go_map" where
  "OrderMap = [(''asc'', ''ASC''), (''desc'', ''DESC'')]"

definition maxProvidersLimit :: int where "maxProvidersLimit = 1000"

definition clampLimit :: "int \<Rightarrow> int" where
  "clampLimit limit = (if limit \<le> 0 \<or> limit > maxProvidersLimit then maxProvidersLimit else limit)"

definition clampOffset :: "int \<Rightarrow> int" where
  "clampOffset offset = (if offset < 0 then 0 else offset)"

definition filters_of :: "('f, 'g) api_filters \<Rightarrow> ('f, 'g) provider_filters" where
  "filters_of f = \<lparr>
      pf_StorageGitHash = af_StorageGitHash f, pf_ProviderGitHash = af_ProviderGitHash f, pf_CPUName = af_CPUName f,
      pf_Location = af_Location f, pf_Country = af_Country f, pf_ISP = af_ISP f,
      pf_RegTimeDaysGt = af_RegTimeDaysGt f, pf_RegTimeDaysLt = af_RegTimeDaysLt f, pf_WorkingTimeGtSec = af_WorkingTimeGtSec f,
      pf_WorkingTimeLtSec = af_WorkingTimeLtSec f, pf_MinSpanGt = af_MinSpanGt f, pf_MinSpanLt = af_MinSpanLt f,
      pf_MaxSpanGt = af_MaxSpanGt f, pf_MaxSpanLt = af_MaxSpanLt f, pf_MaxBagSizeBytesGt = af_MaxBagSizeMbGt f,
      pf_MaxBagSizeBytesLt = af_MaxBagSizeMbLt f, pf_BenchmarkDiskReadSpeedKiBGt = af_BenchmarkDiskReadSpeedGt f, pf_BenchmarkDiskReadSpeedKiBLt = af_BenchmarkDiskReadSpeedLt f,
      pf_BenchmarkDiskWriteSpeedKiBGt = af_BenchmarkDiskWriteSpeedGt f, pf_BenchmarkDiskWriteSpeedKiBLt = af_BenchmarkDiskWriteSpeedLt f, pf_SpeedtestDownloadSpeedGt = af_SpeedtestDownloadSpeedGt f,
      pf_SpeedtestDownloadSpeedLt = af_SpeedtestDownloadSpeedLt f, pf_SpeedtestUploadSpeedGt = af_SpeedtestUploadSpeedGt f, pf_SpeedtestUploadSpeedLt = af_SpeedtestUploadSpeedLt f,
      pf_SpeedtestPingGt = af_SpeedtestPingGt f, pf_SpeedtestPingLt = af_SpeedtestPingLt f, pf_RatingGt = af_RatingGt f,
      pf_RatingLt = af_RatingLt f, pf_UpTimeGtPercent = af_UpTimeGtPercent f, pf_UpTimeLtPercent = af_UpTimeLtPercent f,
      pf_PriceGt = af_PriceGt f, pf_PriceLt = af_PriceLt f, pf_TotalProviderSpaceGt = af_TotalProviderSpaceGt f,
      pf_TotalProviderSpaceLt = af_TotalProviderSpaceLt f, pf_UsedProviderSpaceGt = af_UsedProviderSpaceGt f, pf_UsedProviderSpaceLt = af_UsedProviderSpaceLt f,
      pf_CPUNumberGt = af_CPUNumberGt f, pf_CPUNumberLt = af_CPUNumberLt f, pf_TotalRamGt = af_TotalRamGt f,
      pf_TotalRamLt = af_TotalRamLt f, pf_UsageRamPercentGt = af_UsageRamPercentGt f, pf_UsageRamPercentLt = af_UsageRamPercentLt f,
      pf_CPUIsVirtual = af_CPUIsVirtual f, pf_HasFreeSpace = af_HasFreeSpace f, pf_IsSendTelemetry = af_IsSendTelemetry f\<rparr>"

definition buildProviderQueryParams ::
  "('f, 'g) search_request \<Rightarrow> ('f, 'g) provider_filters \<times> provider_sort \<times> int \<times> int" where
  "buildProviderQueryParams req =
     (let sortColumn = (case map_of SortingMap (ToLower (as_Column (sq_Sort req))) of Some v \<Rightarrow> v | None \<Rightarrow> RatingColumn);
          order = (case map_of OrderMap (ToLower (as_Order (sq_Sort req))) of Some v \<Rightarrow> v | None \<Rightarrow> ''DESC'')
      in (filters_of (sq_Filters req), \<lparr>ps_Column = sortColumn, ps_Order = order\<rparr>, clampLimit (sq_Limit req), clampOffset (sq_Offset req)))"

section \<open>Conversion of rows\<close>

definition convert_location :: "location \<Rightarrow> api_location" where
  "convert_location l = \<lparr>al_Country = loc_Country l, al_CountryISO = loc_CountryISO l, al_City = loc_City l, al_TimeZone = loc_TimeZone l\<rparr>"

definition convert_stat :: "reason_stat \<Rightarrow> api_reason_stats" where
  "convert_stat r = \<lparr>ars_Reason = rs_Reason r, ars_Count = rs_Count r\<rparr>"

definition convert_telemetry :: "'g telemetry_db \<Rightarrow> 'g api_telemetry" where
  "convert_telemetry t = \<lparr>
      at_StorageGitHash = td_StorageGitHash t, at_ProviderGitHash = td_ProviderGitHash t, at_BenchmarkDiskReadSpeed = td_BenchmarkDiskReadSpeed t,
      at_BenchmarkDiskWriteSpeed = td_BenchmarkDiskWriteSpeed t, at_Country = td_Country t, at_ISP = td_ISP t,
      at_CPUName = td_CPUName t, at_UpdatedAt = td_UpdatedAt t, at_TotalProviderSpace = td_TotalProviderSpace t,
      at_UsedProviderSpace = td_UsedProviderSpace t, at_TotalRAM = td_TotalRAM t, at_UsageRAM = td_UsageRAM t,
      at_UsageRAMPercent = td_UsageRAMPercent t, at_SpeedtestDownload = td_SpeedtestDownload t, at_SpeedtestUpload = td_SpeedtestUpload t,
      at_SpeedtestPing = td_SpeedtestPing t, at_CPUNumber = td_CPUNumber t, at_CPUIsVirtual = td_CPUIsVirtual t\<rparr>"

definition convert_provider :: "int \<Rightarrow> 'g provider_db \<Rightarrow> 'g api_provider" where
  "convert_provider nowUnix p = \<lparr>
      ap_Location = map_option convert_location (pdb_Location p), ap_Status = pdb_Status p, ap_PubKey = pdb_PubKey p,
      ap_Address = pdb_Address p, ap_UpTime = pdb_UpTime p, ap_StatusRatio = pdb_StatusRatio p,
      ap_StatusesReasonStats = map convert_stat (pdb_StatusesReasonStats p), ap_WorkingTime = word_of_int nowUnix - pdb_RegTime p, ap_Rating = pdb_Rating p,
      ap_MaxSpan = pdb_MaxSpan p, ap_Price = pdb_Price p, ap_MinSpan = pdb_MinSpan p,
      ap_MaxBagSizeBytes = pdb_MaxBagSizeBytes p, ap_RegTime = pdb_RegTime p, ap_LastOnlineCheckTime = pdb_LastOnlineCheckTime p,
      ap_IsSendTelemetry = pdb_IsSendTelemetry p, ap_Telemetry = convert_telemetry (pdb_Telemetry p)\<rparr>"

definition convertDBProvidersToAPI :: "(nat \<Rightarrow> int) \<Rightarrow> 'g provider_db list \<Rightarrow> 'g api_provider list" where
  "convertDBProvidersToAPI nowUnix providersDB = map (\<lambda>(i, p). convert_provider (nowUnix i) p) (zip [0..<length providersDB] providersDB)"

section \<open>The calls\<close>

definition getExactProviders ::
  "(string list \<Rightarrow> 'g provider_db list \<times> go_error option) \<Rightarrow> (nat \<Rightarrow> int) \<Rightarrow> string list \<Rightarrow> app_error + 'g api_provider list" where
  "getExactProviders getByPubkeys nowUnix pubkeys =
     (if int (length pubkeys) > maxProvidersLimit then Inl (NewAppError BadRequestErrorCode ''too many pubkeys in request'')
      else case getByPubkeys pubkeys of
             (_, Some _) \<Rightarrow> Inl (NewAppError InternalServerErrorCode [])
           | (p, None) \<Rightarrow> Inr (convertDBProvidersToAPI nowUnix p))"

definition getFilteredProviders ::
  "(('f, 'g) provider_filters \<Rightarrow> provider_sort \<Rightarrow> int \<Rightarrow> int \<Rightarrow> 'g provider_db list \<times> go_error option) \<Rightarrow> (nat \<Rightarrow> int) \<Rightarrow>
   ('f, 'g) search_request \<Rightarrow> app_error + 'g api_provider list" where
  "getFilteredProviders getFiltered nowUnix req =
     (case buildProviderQueryParams req of
        (filters, srt, limit, offset) \<Rightarrow>
          (case getFiltered filters srt limit offset of
             (_, Some _) \<Rightarrow> Inl (NewAppError InternalServerErrorCode [])
           | (p, None) \<Rightarrow> Inr (convertDBProvidersToAPI nowUnix p)))"

definition SearchProviders ::
  "(string list \<Rightarrow> 'g provider_db list \<times> go_error option) \<Rightarrow>
   (('f, 'g) provider_filters \<Rightarrow> provider_sort \<Rightarrow> int \<Rightarrow> int \<Rightarrow> 'g provider_db list \<times> go_error option) \<Rightarrow> (nat \<Rightarrow> int) \<Rightarrow>
   ('f, 'g) search_request \<Rightarrow> app_error + 'g api_provider list" where
  "SearchProviders getByPubkeys getFiltered nowUnix req =
     (if sq_Exact req \<noteq> [] then getExactProviders getByPubkeys nowUnix (sq_Exact req)
      else getFilteredProviders getFiltered nowUnix req)"

definition range_resp :: "('f, 'g) filters_range \<Rightarrow> ('f, 'g) filters_range_resp" where
  "range_resp r = \<lparr>
      frr_Locations = fr_Locations r, frr_RegTimeDaysMax = fr_RegTimeDaysMax r, frr_MinSpanMin = fr_MinSpanMin r,
      frr_MinSpanMax = fr_MinSpanMax r, frr_MaxSpanMin = fr_MaxSpanMin r, frr_MaxSpanMax = fr_MaxSpanMax r,
      frr_MaxBagSizeMbMin = fr_MaxBagSizeMbMin r, frr_MaxBagSizeMbMax = fr_MaxBagSizeMbMax r, frr_TotalProviderSpaceMin = fr_TotalProviderSpaceMin r,
      frr_TotalProviderSpaceMax = fr_TotalProviderSpaceMax r, frr_UsedProviderSpaceMax = fr_UsedProviderSpaceMax r, frr_BenchmarkDiskReadSpeedMin = fr_BenchmarkDiskReadSpeedMin r,
      frr_BenchmarkDiskReadSpeedMax = fr_BenchmarkDiskReadSpeedMax r, frr_BenchmarkDiskWriteSpeedMin = fr_BenchmarkDiskWriteSpeedMin r, frr_BenchmarkDiskWriteSpeedMax = fr_BenchmarkDiskWriteSpeedMax r,
      frr_SpeedtestDownloadSpeedMin = fr_SpeedtestDownloadSpeedMin r, frr_SpeedtestDownloadSpeedMax = fr_SpeedtestDownloadSpeedMax r, frr_SpeedtestUploadSpeedMin = fr_SpeedtestUploadSpeedMin r,
      frr_SpeedtestUploadSpeedMax = fr_SpeedtestUploadSpeedMax r, frr_RatingMax = fr_RatingMax r, frr_PriceMax = fr_PriceMax r,
      frr_CPUNumberMax = fr_CPUNumberMax r, frr_SpeedtestPingMin = fr_SpeedtestPingMin r, frr_SpeedtestPingMax = fr_SpeedtestPingMax r,
      frr_TotalRamMin = fr_TotalRAMMin r, frr_TotalRamMax = fr_TotalRAMMax r\<rparr>"

definition service_GetFiltersRange :: "go_error + ('f, 'g) filters_range \<Rightarrow> go_error + ('f, 'g) filters_range_resp" where
  "service_GetFiltersRange answer = (case answer of Inl err \<Rightarrow> Inl err | Inr r \<Rightarrow> Inr (range_resp r))"

definition convert_check :: "contract_check \<Rightarrow> api_contract_check" where
  "convert_check r = \<lparr>acc_Address = cc_Address r, acc_ProviderPublicKey = cc_ProviderPublicKey r, acc_Reason = cc_Reason r,
     acc_ReasonTimestamp = map_option (word_of_int \<circ> unix_seconds) (cc_ReasonTimestamp r)\<rparr>"

definition service_GetStorageContractsChecks ::
  "(string list \<Rightarrow> go_error + contract_check list) \<Rightarrow> string list \<Rightarrow> app_error + api_contract_check list" where
  "service_GetStorageContractsChecks getChecks contracts =
     (if contracts = [] then Inr []
      else if length contracts > 1000 then Inl (NewAppError BadRequestErrorCode ''too many statuses in request'')
      else case getChecks contracts of
             Inl _ \<Rightarrow> Inl (NewAppError InternalServerErrorCode [])
           | Inr dbReasons \<Rightarrow> Inr (map convert_check dbReasons))"

definition convert_bag :: "contract_bag \<Rightarrow> api_contract_bag" where
  "convert_bag c = \<lparr>acb_Address = cb_Address c, acb_ProviderPubKey = cb_ProviderPublicKey c, acb_BagID = cb_BagID c,
     acb_OwnerAddress = cb_OwnerAddress c, acb_Size = cb_Size c, acb_Reason = cb_Reason c,
     acb_ReasonTimestamp = map_option (word_of_int \<circ> unix_seconds) (cb_ReasonTimestamp c)\<rparr>"

definition service_GetContractBags ::
  "(string \<Rightarrow> int \<Rightarrow> int \<Rightarrow> go_error + contract_bag list \<times> int) \<Rightarrow> contract_bags_request \<Rightarrow> app_error + api_contract_bag list \<times> int" where
  "service_GetContractBags getBags req =
     (case getBags (cbr_Provider req) (clampLimit (cbr_Limit req)) (clampOffset (cbr_Offset req)) of
        Inl _ \<Rightarrow> Inl (NewAppError InternalServerErrorCode [])
      | Inr (dbContracts, n) \<Rightarrow> Inr (map convert_bag dbContracts, n))"

section \<open>The query of a request\<close>

definition request_query :: "('f, 'g) float_lib \<Rightarrow> ('f, 'g) search_request \<Rightarrow> string \<times> sql_arg list" where
  "request_query fl req =
     (case buildProviderQueryParams req of (filters, srt, limit, offset) \<Rightarrow> filtered_query fl filters srt limit offset)"

lemma sort_column_cases:
  "(case map_of SortingMap k of Some v \<Rightarrow> v | None \<Rightarrow> RatingColumn) \<in> snd ` set SortingMap"
  "v \<in> snd ` set SortingMap \<Longrightarrow> CHR 0x24 \<notin> set v"
  by (auto simp: SortingMap_def RatingColumn_def LocationColumn_def sql_str_def split: option.splits dest!: map_of_SomeD)

lemma convert_Nil: "convertDBProvidersToAPI nowUnix [] = []"
  by (simp add: convertDBProvidersToAPI_def)

lemma clamp_bounds: "1 \<le> clampLimit l \<and> clampLimit l \<le> 1000" "0 \<le> clampOffset off"
  by (simp_all add: clampLimit_def clampOffset_def maxProvidersLimit_def)

text \<open>What the service makes of the answer to its one query.\<close>

definition search_answer :: "(nat \<Rightarrow> int) \<Rightarrow> 'g query_answer \<Rightarrow> app_error + 'g api_provider list" where
  "search_answer nowUnix a =
     (case a of
        ErrNoRows \<Rightarrow> Inr []
      | QueryError _ \<Rightarrow> Inl (NewAppError InternalServerErrorCode [])
      | QueryRows rows rowsErr \<Rightarrow>
         (case scanProviderDBRows rows rowsErr [] of
            (ps, None) \<Rightarrow> Inr (convertDBProvidersToAPI nowUnix ps)
          | (_, Some _) \<Rightarrow> Inl (NewAppError InternalServerErrorCode [])))"

lemma placeholders_exact: "placeholders providersByPubkeysSelect = [''1'']"
proof -
  have "placeholders (row_text 2 (''WHERE lower(p.public_key) = ANY(SELECT lower(x) FROM unnest('' @ [CHR 0x24] @ ''1::text[]) AS x)'')) = [''1'']"
    by (simp add: row_text_def is_digit_def replicate_2)
  then show ?thesis
    unfolding providersByPubkeysSelect_def by (simp only: append_assoc placeholders_none no_dollar_rows set_append Un_iff de_Morgan_disj
        sql_str_def list.set insert_iff empty_iff char.inject simp_thms not_False_eq_True)
qed

text \<open>
  C23.  Every search leads to at most one query.  A search for given keys is refused with status 400 when there are
  more than 1000 of them, whatever the database would say; otherwise it runs the query for keys, whose one placeholder is the list
  of exactly these keys.  Any other search leads to a query whose placeholders and arguments fit, whose limit
  lies between 1 and 1000 and whose offset is not negative.  The answer of the service is the rows of exactly that
  query, or the internal error.
\<close>

theorem search_runs_one_query:
  assumes "plain_floats fl"
  shows "(1000 < length (sq_Exact req) \<longrightarrow>
      SearchProviders (GetProvidersByPubkeys byKeys) (GetFilteredProviders db fl) nowUnix req =
        Inl (NewAppError BadRequestErrorCode ''too many pubkeys in request'')) \<and>
    (sq_Exact req \<noteq> [] \<and> length (sq_Exact req) \<le> 1000 \<longrightarrow>
      placeholders providersByPubkeysSelect = [''1''] \<and>
      SearchProviders (GetProvidersByPubkeys byKeys) (GetFilteredProviders db fl) nowUnix req =
        search_answer nowUnix (byKeys (providersByPubkeysSelect, sq_Exact req))) \<and>
    (sq_Exact req = [] \<longrightarrow>
      mset (placeholders (fst (request_query fl req))) = mset (map nat_Itoa [1..<Suc (length (snd (request_query fl req)))]) \<and>
      (\<exists>limit offset. take 2 (snd (request_query fl req)) = [ArgInt limit, ArgInt offset] \<and> 1 \<le> limit \<and> limit \<le> 1000 \<and> 0 \<le> offset) \<and>
      SearchProviders (GetProvidersByPubkeys byKeys) (GetFilteredProviders db fl) nowUnix req =
        search_answer nowUnix (db (request_query fl req)))"
proof -
  obtain f srt l off where b: "buildProviderQueryParams req = (f, srt, l, off)" by (rule prod_cases4)
  then have "ps_Column srt \<in> snd ` set SortingMap" and lo: "1 \<le> l" "l \<le> 1000" "0 \<le> off"
    using sort_column_cases(1) clamp_bounds by (auto simp: buildProviderQueryParams_def Let_def)
  then have q: "mset (placeholders (fst (filtered_query fl f srt l off))) =
      mset (map nat_Itoa [1..<Suc (length (snd (filtered_query fl f srt l off)))])"
    "take 2 (snd (filtered_query fl f srt l off)) = [ArgInt l, ArgInt off]"
    using query_binds_all_args [OF assms sort_column_cases(2)] by blast+
  have "SearchProviders (GetProvidersByPubkeys byKeys) (GetFilteredProviders db fl) nowUnix req = search_answer nowUnix (db (filtered_query fl f srt l off))"
    if "sq_Exact req = []"
    using that b
    by (simp add: SearchProviders_def getFilteredProviders_def GetFilteredProviders_def convert_Nil search_answer_def split: query_answer.splits)
  moreover have "SearchProviders (GetProvidersByPubkeys byKeys) (GetFilteredProviders db fl) nowUnix req =
      search_answer nowUnix (byKeys (providersByPubkeysSelect, sq_Exact req))" if "sq_Exact req \<noteq> []" "length (sq_Exact req) \<le> 1000"
    using that by (simp add: SearchProviders_def getExactProviders_def maxProvidersLimit_def GetProvidersByPubkeys_def convert_Nil
        search_answer_def split: query_answer.splits)
  moreover have "SearchProviders (GetProvidersByPubkeys byKeys) (GetFilteredProviders db fl) nowUnix req =
      Inl (NewAppError BadRequestErrorCode ''too many pubkeys in request'')" if "1000 < length (sq_Exact req)"
  proof -
    have "sq_Exact req \<noteq> []" using that by auto
    then show ?thesis using that by (simp add: SearchProviders_def getExactProviders_def maxProvidersLimit_def)
  qed
  ultimately show ?thesis using q lo b placeholders_exact by (simp add: request_query_def)
qed

definition blank_api_filters :: "('f, 'g) api_filters \<Rightarrow> ('f, 'g) api_filters" where
  "blank_api_filters f =
     f\<lparr>af_Location := map_option blank (af_Location f), af_StorageGitHash := map_option blank (af_StorageGitHash f),
       af_ProviderGitHash := map_option blank (af_ProviderGitHash f), af_CPUName := map_option blank (af_CPUName f),
       af_Country := map_option blank (af_Country f), af_ISP := map_option blank (af_ISP f)\<rparr>"

definition known_or_empty :: "string go_map \<Rightarrow> string \<Rightarrow> string" where
  "known_or_empty m k = (if map_of m (ToLower k) = None then [] else ToLower k)"

definition blank_request :: "('f, 'g) search_request \<Rightarrow> ('f, 'g) search_request" where
  "blank_request req =
     req\<lparr>sq_Filters := blank_api_filters (sq_Filters req),
         sq_Sort := \<lparr>as_Column = known_or_empty SortingMap (as_Column (sq_Sort req)), as_Order = known_or_empty OrderMap (as_Order (sq_Sort req))\<rparr>\<rparr>"

text \<open>
  The text of the query holds nothing a client wrote: it stays the same when every filter string is replaced by
  another of the same length and every sort column and order outside the two tables is emptied.  Client strings
  reach the database as arguments only.
\<close>

theorem search_text_from_tables:
  "fst (request_query fl (blank_request req)) = fst (request_query fl req)"
proof -
  have f: "filters_of (blank_api_filters f) = blank_filters (filters_of f)" for f :: "('f, 'g) api_filters"
    by (simp add: filters_of_def blank_api_filters_def blank_filters_def)
  have "map_of SortingMap (ToLower []) = None" "map_of OrderMap (ToLower []) = None"
    by (simp_all add: SortingMap_def OrderMap_def ToLower_def)
  then have k: "map_of SortingMap (ToLower (known_or_empty SortingMap c)) = map_of SortingMap (ToLower c)"
    "map_of OrderMap (ToLower (known_or_empty OrderMap c)) = map_of OrderMap (ToLower c)" for c
    by (auto simp: known_or_empty_def)
  show ?thesis
    by (simp add: request_query_def buildProviderQueryParams_def blank_request_def Let_def f k query_text_no_user_text)
qed

definition sample_search :: "(nat, nat) search_request" where
  "sample_search = \<lparr>sq_Filters = \<lparr>af_Location = None, af_RatingGt = None, af_RatingLt = None, af_RegTimeDaysGt = None,
     af_RegTimeDaysLt = None, af_UpTimeGtPercent = None, af_UpTimeLtPercent = None, af_WorkingTimeGtSec = None,
     af_WorkingTimeLtSec = None, af_PriceGt = None, af_PriceLt = None, af_MinSpanGt = None,
     af_MinSpanLt = None, af_MaxSpanGt = None, af_MaxSpanLt = None, af_MaxBagSizeMbGt = None,
     af_MaxBagSizeMbLt = None, af_HasFreeSpace = None, af_IsSendTelemetry = None, af_TotalProviderSpaceGt = None,
     af_TotalProviderSpaceLt = None, af_UsedProviderSpaceGt = None, af_UsedProviderSpaceLt = None, af_StorageGitHash = None,
     af_ProviderGitHash = None, af_CPUNumberGt = None, af_CPUNumberLt = None, af_CPUName = None,
     af_CPUIsVirtual = None, af_TotalRamGt = None, af_TotalRamLt = None, af_UsageRamPercentGt = None,
     af_UsageRamPercentLt = None, af_BenchmarkDiskReadSpeedGt = None, af_BenchmarkDiskReadSpeedLt = None, af_BenchmarkDiskWriteSpeedGt = None,
     af_BenchmarkDiskWriteSpeedLt = None, af_SpeedtestDownloadSpeedGt = None, af_SpeedtestDownloadSpeedLt = None, af_SpeedtestUploadSpeedGt = None,
     af_SpeedtestUploadSpeedLt = None, af_SpeedtestPingGt = None, af_SpeedtestPingLt = None, af_Country = None,
     af_ISP = None\<rparr>\<lparr>af_Country := Some [CHR 0x27]\<rparr>,
     sq_Sort = \<lparr>as_Column = ''PRICE'', as_Order = ''; --''\<rparr>, sq_Limit = 0, sq_Offset = -1, sq_Exact = []\<rparr>"

theorem search_runs_one_query_witness:
  "SearchProviders (GetProvidersByPubkeys (\<lambda>_. ErrNoRows)) (GetFilteredProviders (\<lambda>_. ErrNoRows) text_floats) (\<lambda>_. 0) sample_search = Inr [] \<and>
   SearchProviders (GetProvidersByPubkeys (\<lambda>_. ErrNoRows)) (GetFilteredProviders (\<lambda>_. QueryError ErrCanceled) text_floats) (\<lambda>_. 0)
     (sample_search\<lparr>sq_Exact := [''k'']\<rparr>) = Inr []"
proof -
  have "plain_floats text_floats" by (simp add: plain_floats_def text_floats_def no_dollar_Itoa)
  note run = search_runs_one_query [OF this]
  show ?thesis
    using run [of sample_search "\<lambda>_. ErrNoRows" "\<lambda>_. ErrNoRows" "\<lambda>_. 0"]
      run [of "sample_search\<lparr>sq_Exact := [''k'']\<rparr>" "\<lambda>_. ErrNoRows" "\<lambda>_. QueryError ErrCanceled" "\<lambda>_. 0"]
    by (simp add: sample_search_def search_answer_def)
qed

text \<open>The working time of a provider whose registration lies ahead of the clock wraps around.\<close>

lemma working_time_wraps:
  "ap_WorkingTime (convert_provider 10 (p\<lparr>pdb_RegTime := 11\<rparr>)) = - 1"
  by (simp add: convert_provider_def)

end
