(* ===== verification/Strconv.thy ===== *)
theory Strconv
  imports Prelude
begin

text \<open>
  Number parsing of Go's package \<^verbatim>\<open>strconv\<close>, as the coordinator and the agent's configuration call it:
  \<^verbatim>\<open>ParseInt(s, 10, 64)\<close>, \<^verbatim>\<open>Atoi\<close>, \<^verbatim>\<open>FormatUint(n, 10)\<close>, and the round trip between them.  Nothing here models
  code of the repository.
\<close>

definition digit_value :: "char \<Rightarrow> nat option" where
  "digit_value c = (let k = (of_char c :: nat) in if 48 \<le> k \<and> k \<le> 57 then Some (k - 48) else None)"

datatype parsed_uint = UInt nat | RangeError | SyntaxError

text \<open>\<^verbatim>\<open>ParseUint\<close> with 64 bits: it stops at the first digit that overflows, before it looks at the rest.\<close>

fun parse_uint :: "nat \<Rightarrow> string \<Rightarrow> parsed_uint" where
  "parse_uint n [] = UInt n"
| "parse_uint n (c # s) =
     (case digit_value c of
        None \<Rightarrow> SyntaxError
      | Some d \<Rightarrow> if 10 * n + d > 2 ^ 64 - 1 then RangeError else parse_uint (10 * n + d) s)"

definition ParseUint :: "string \<Rightarrow> parsed_uint" where
  "ParseUint s = (if s = [] then SyntaxError else parse_uint 0 s)"

text \<open>\<^verbatim>\<open>%q\<close>, exact for texts without characters that need escaping.\<close>

definition quote_text :: "string \<Rightarrow> string" where
  "quote_text s = CHR 0x22 # s @ [CHR 0x22]"

definition num_error :: "string \<Rightarrow> string \<Rightarrow> string \<Rightarrow> go_error" where
  "num_error fn s what = ErrText (''strconv.'' @ fn @ '': parsing '' @ quote_text s @ '': '' @ what)"

text \<open>The value is returned beside the error, as a caller that drops the error sees it.\<close>

definition ParseInt :: "string \<Rightarrow> string \<Rightarrow> int \<times> go_error option" where
  "ParseInt fn s =
     (let neg = (prefix ''-'' s); body = (if prefix ''+'' s \<or> neg then tl s else s)
      in case ParseUint body of
           SyntaxError \<Rightarrow> (0, Some (num_error fn s ''invalid syntax''))
         | RangeError \<Rightarrow> ((if neg then - (2 ^ 63) else 2 ^ 63 - 1), Some (num_error fn s ''value out of range''))
         | UInt n \<Rightarrow>
            if \<not> neg \<and> n \<ge> 2 ^ 63 then (2 ^ 63 - 1, Some (num_error fn s ''value out of range''))
            else if neg \<and> n > 2 ^ 63 then (- (2 ^ 63), Some (num_error fn s ''value out of range''))
            else ((if neg then - int n else int n), None))"

definition ParseInt64 :: "string \<Rightarrow> int \<times> go_error option" where
  "ParseInt64 s = ParseInt ''ParseInt'' s"

definition Atoi :: "string \<Rightarrow> int \<times> go_error option" where
  "Atoi s = ParseInt ''Atoi'' s"

definition FormatUint :: "64 word \<Rightarrow> string" where
  "FormatUint w = nat_Itoa (unat w)"

text \<open>For evaluation, the bounds are compared as integers.\<close>

lemma parse_uint_code [code]:
  "parse_uint n [] = UInt n"
  "parse_uint n (c # s) =
     (case digit_value c of
        None \<Rightarrow> SyntaxError
      | Some d \<Rightarrow> if 10 * int n + int d > 2 ^ 64 - 1 then RangeError else parse_uint (10 * n + d) s)"
  by (auto simp del: of_nat_add of_nat_mult split: option.split)

lemma ParseInt_code [code]:
  "ParseInt fn s =
     (let neg = (prefix ''-'' s); body = (if prefix ''+'' s \<or> neg then tl s else s)
      in case ParseUint body of
           SyntaxError \<Rightarrow> (0, Some (num_error fn s ''invalid syntax''))
         | RangeError \<Rightarrow> ((if neg then - (2 ^ 63) else 2 ^ 63 - 1), Some (num_error fn s ''value out of range''))
         | UInt n \<Rightarrow>
            if \<not> neg \<and> int n \<ge> 2 ^ 63 then (2 ^ 63 - 1, Some (num_error fn s ''value out of range''))
            else if neg \<and> int n > 2 ^ 63 then (- (2 ^ 63), Some (num_error fn s ''value out of range''))
            else ((if neg then - int n else int n), None))"
proof -
  have "(2 ^ 63 \<le> int n) = (2 ^ 63 \<le> n)" "(2 ^ 63 < int n) = (2 ^ 63 < n)" for n by simp_all
  then show ?thesis unfolding ParseInt_def by presburger
qed
lemma ParseInt_range: "- (2 ^ 63) \<le> fst (ParseInt fn s) \<and> fst (ParseInt fn s) < 2 ^ 63"
  by (auto simp: ParseInt_def Let_def split: parsed_uint.splits)

lemma digit_value_dec: "d < 10 \<Longrightarrow> digit_value (dec_digit d) = Some d"
  by (simp add: digit_value_def dec_digit_def Let_def of_char_of)

lemma parse_uint_snoc:
  "parse_uint n s = UInt k \<Longrightarrow> d < 10 \<Longrightarrow> 10 * k + d < 2 ^ 64 \<Longrightarrow> parse_uint n (s @ [dec_digit d]) = UInt (10 * k + d)"
  by (induction n s rule: parse_uint.induct) (auto simp: digit_value_dec split: option.splits if_splits)

lemma parse_uint_Itoa: "n < 2 ^ 64 \<Longrightarrow> parse_uint 0 (nat_Itoa n) = UInt n"
proof (induction n rule: nat_Itoa.induct)
  case (1 n)
  show ?case
  proof (cases "n < 10")
    case True
    then show ?thesis by (subst nat_Itoa.simps) (simp add: digit_value_dec)
  next
    case False
    then have "parse_uint 0 (nat_Itoa (n div 10)) = UInt (n div 10)" using 1 by simp
    moreover have "10 * (n div 10) + n mod 10 = n" by simp
    ultimately show ?thesis
      using False "1.prems" parse_uint_snoc [of 0 "nat_Itoa (n div 10)" "n div 10" "n mod 10"]
      by (subst nat_Itoa.simps) simp
  qed
qed

lemma dec_digit_sign: "d < 10 \<Longrightarrow> CHR ''-'' \<noteq> dec_digit d \<and> CHR ''+'' \<noteq> dec_digit d"
proof -
  assume "d < 10"
  then have "digit_value (dec_digit d) = Some d" by (rule digit_value_dec)
  moreover have "digit_value CHR ''-'' = None" "digit_value CHR ''+'' = None" by (simp_all add: digit_value_def)
  ultimately show ?thesis by force
qed

lemma nat_Itoa_start: "\<exists>d s. d < 10 \<and> nat_Itoa n = dec_digit d # s"
proof (induction n rule: nat_Itoa.induct)
  case (1 n)
  show ?case
  proof (cases "n < 10")
    case True
    then show ?thesis by (subst nat_Itoa.simps) auto
  next
    case False
    then obtain d s where "d < 10" "nat_Itoa (n div 10) = dec_digit d # s" using 1 by blast
    then show ?thesis using False by (subst nat_Itoa.simps) auto
  qed
qed

lemma ParseInt64_FormatUint: "unat w < 2 ^ 63 \<Longrightarrow> ParseInt64 (FormatUint w) = (int (unat w), None)"
proof -
  assume w: "unat w < 2 ^ 63"
  obtain d s where s: "d < 10" "nat_Itoa (unat w) = dec_digit d # s" using nat_Itoa_start by blast
  have "parse_uint 0 (nat_Itoa (unat w)) = UInt (unat w)" using w by (intro parse_uint_Itoa) simp
  then show ?thesis using w s dec_digit_sign [OF s(1)]
    by (simp add: ParseInt64_def ParseInt_def FormatUint_def ParseUint_def Let_def)
qed

end
