(* ===== verification/NetIp.thy ===== *)
theory NetIp
  imports Strconv
begin

text \<open>
  \<^verbatim>\<open>coordinator/internal/utils/ip.go\<close>: the comparison of two addresses, with what it uses of Go's packages \<^verbatim>\<open>net\<close> and
  \<^verbatim>\<open>net/netip\<close>: \<^verbatim>\<open>SplitHostPort\<close>, \<^verbatim>\<open>ParseIP\<close> for IPv4, IPv6 and mixed notation, and \<^verbatim>\<open>strings.Trim\<close>.  A
  \<^verbatim>\<open>net.IP\<close> is the list of its sixteen bytes, an IPv4 address in its mapped form; nil is \<open>None\<close>.
\<close>

section \<open>Packages net and netip\<close>

definition colon :: char where "colon = CHR '':''"

definition dot :: char where "dot = CHR ''.''"

text \<open>The dotted fields; \<open>val\<close> and \<open>dig\<close> are value and digits of the current one.\<close>

fun parseIPv4Fields :: "nat \<Rightarrow> nat \<Rightarrow> nat list \<Rightarrow> string \<Rightarrow> nat list option" where
  "parseIPv4Fields val dig fs [] = (if length fs < 3 then None else Some (fs @ [val]))"
| "parseIPv4Fields val dig fs (c # s) =
     (case digit_value c of
        Some d \<Rightarrow>
          if dig = 1 \<and> val = 0 then None
          else if val * 10 + d > 255 then None
          else parseIPv4Fields (val * 10 + d) (Suc dig) fs s
      | None \<Rightarrow>
          if c \<noteq> dot then None
          else if dig = 0 \<or> s = [] then None
          else if length fs = 3 then None
          else parseIPv4Fields 0 0 (fs @ [val]) s)"

definition hex_number :: "string \<Rightarrow> nat" where
  "hex_number g = fold (\<lambda>c n. 16 * n + (case hex_value c of None \<Rightarrow> 0 | Some d \<Rightarrow> d)) g 0"

text \<open>The groups between colons; the first argument counts the groups that still have room.\<close>

fun parseIPv6Groups :: "nat \<Rightarrow> nat list \<Rightarrow> nat option \<Rightarrow> string \<Rightarrow> (nat list \<times> nat option \<times> string) option" where
  "parseIPv6Groups 0 ip ellipsis s = Some (ip, ellipsis, s)"
| "parseIPv6Groups (Suc n) ip ellipsis s =
     (let g = takeWhile (\<lambda>c. hex_value c \<noteq> None) s; rest = drop (length g) s
      in if length g > 4 then None
         else if g = [] then None
         else if prefix [dot] rest
         then (if ellipsis = None \<and> length ip \<noteq> 12 then None
               else if length ip + 4 > 16 then None
               else case parseIPv4Fields 0 0 [] s of None \<Rightarrow> None | Some fs \<Rightarrow> Some (ip @ fs, ellipsis, []))
         else
          (let ip = ip @ [hex_number g div 256, hex_number g mod 256]
           in case rest of
                [] \<Rightarrow> Some (ip, ellipsis, [])
              | c # rest \<Rightarrow>
                 if c \<noteq> colon then None
                 else if rest = [] then None
                 else if hd rest = colon
                 then (if ellipsis \<noteq> None then None
                       else if tl rest = [] then Some (ip, Some (length ip), [])
                       else parseIPv6Groups n ip (Some (length ip)) (tl rest))
                 else parseIPv6Groups n ip ellipsis rest))"

definition parseIPv6 :: "string \<Rightarrow> nat list option" where
  "parseIPv6 s =
     (if CHR ''%'' \<in> set s then None
      else if s = [colon, colon] then Some (replicate 16 0)
      else
       (let start = (if prefix [colon, colon] s then parseIPv6Groups 8 [] (Some 0) (drop 2 s) else parseIPv6Groups 8 [] None s)
        in case start of
             None \<Rightarrow> None
           | Some (ip, ellipsis, rest) \<Rightarrow>
              if rest \<noteq> [] then None
              else if length ip < 16
              then (case ellipsis of None \<Rightarrow> None | Some e \<Rightarrow> Some (take e ip @ replicate (16 - length ip) 0 @ drop e ip))
              else if ellipsis \<noteq> None then None else Some ip))"

definition v4_mapped :: "nat list \<Rightarrow> nat list" where
  "v4_mapped fs = replicate 10 0 @ [255, 255] @ fs"

definition ParseIP :: "string \<Rightarrow> nat list option" where
  "ParseIP s =
     (case find (\<lambda>c. c = dot \<or> c = colon \<or> c = CHR ''%'') s of
        None \<Rightarrow> None
      | Some c \<Rightarrow>
         if c = dot then map_option v4_mapped (parseIPv4Fields 0 0 [] s)
         else if c = colon then parseIPv6 s
         else None)"

definition index_of :: "char \<Rightarrow> string \<Rightarrow> nat option" where
  "index_of c s = (if c \<in> set s then Some (length (takeWhile (\<lambda>d. d \<noteq> c) s)) else None)"

definition last_index_of :: "char \<Rightarrow> string \<Rightarrow> nat option" where
  "last_index_of c s = (if c \<in> set s then Some (length s - Suc (length (takeWhile (\<lambda>d. d \<noteq> c) (rev s)))) else None)"

text \<open>\<^verbatim>\<open>SplitHostPort\<close>; its errors are told apart by nobody.\<close>

definition SplitHostPort :: "string \<Rightarrow> (string \<times> string) option" where
  "SplitHostPort hostport =
     (case last_index_of colon hostport of
        None \<Rightarrow> None
      | Some i \<Rightarrow>
         (if prefix ''['' hostport
          then (case index_of (CHR '']'') hostport of
                  None \<Rightarrow> None
                | Some e \<Rightarrow>
                   if Suc e = i \<and> CHR ''['' \<notin> set (drop 1 hostport) \<and> CHR '']'' \<notin> set (drop (Suc e) hostport)
                   then Some (take (e - 1) (drop 1 hostport), drop (Suc i) hostport) else None)
          else if colon \<in> set (take i hostport) then None
          else if CHR ''['' \<in> set hostport \<or> CHR '']'' \<in> set hostport then None
          else Some (take i hostport, drop (Suc i) hostport)))"

definition Trim :: "string \<Rightarrow> string \<Rightarrow> string" where
  "Trim s cutset = rev (dropWhile (\<lambda>c. c \<in> set cutset) (rev (dropWhile (\<lambda>c. c \<in> set cutset) s)))"

section \<open>utils/ip.go\<close>

definition parseIP :: "string \<Rightarrow> nat list option" where
  "parseIP s =
     (let s = TrimSpace s
      in if s = [] then None
         else (let s = (case SplitHostPort s of Some (host, _) \<Rightarrow> host | None \<Rightarrow> s) in ParseIP (Trim s ''[]'')))"

definition SameIP :: "string \<Rightarrow> string \<Rightarrow> bool" where
  "SameIP a b =
     (case (parseIP a, parseIP b) of
        (Some ipA, Some ipB) \<Rightarrow> ipA = ipB
      | _ \<Rightarrow> False)"

lemma digit_values [simp]:
  "digit_value CHR ''0'' = Some 0" "digit_value CHR ''1'' = Some 1" "digit_value CHR ''2'' = Some 2" "digit_value CHR ''3'' = Some 3"
  "digit_value CHR ''4'' = Some 4" "digit_value CHR ''5'' = Some 5" "digit_value CHR ''6'' = Some 6" "digit_value CHR ''7'' = Some 7"
  "digit_value CHR ''8'' = Some 8" "digit_value CHR ''9'' = Some 9" "digit_value CHR ''.'' = None" "digit_value CHR '':'' = None"
  by (simp_all add: digit_value_def)

lemmas ip_eval = parseIP_def TrimSpace_def trim_lead.simps lead_space_def space_runes_def byte_codes_def SplitHostPort_def
  last_index_of_def index_of_def colon_def dot_def Trim_def ParseIP_def parseIPv6_def hex_value_def hex_number_def numeral_2_eq_2

lemmas parseIPv6Groups_numeral = parseIPv6Groups.simps(2) [where n = "pred_numeral k" for k, folded numeral_eq_Suc]

text \<open>The cases of the repository's test.\<close>

lemma SameIP_tests:
  "SameIP '' 1.2.3.4 '' ''1.2.3.4''"
  "SameIP ''127.0.0.1'' ''::ffff:127.0.0.1''"
  "SameIP ''2001:db8::1'' ''2001:db8::1''"
  "SameIP ''[2001:db8::1]'' ''2001:db8::1''"
  "SameIP ''1.2.3.4:8080'' ''1.2.3.4''"
  "\<not> SameIP ''1.2.3.4'' ''5.6.7.8''"
  "\<not> SameIP ''1.2.3.4'' []"
  "\<not> SameIP ''not-an-ip'' ''1.2.3.4''"
  by (simp_all add: SameIP_def ip_eval v4_mapped_def parseIPv6Groups_numeral Let_def)

section \<open>IPv4 addresses\<close>

definition ipv4_text :: "nat \<times> nat \<times> nat \<times> nat \<Rightarrow> string" where
  "ipv4_text q = (case q of (a, b, c, d) \<Rightarrow> nat_Itoa a @ dot # nat_Itoa b @ dot # nat_Itoa c @ dot # nat_Itoa d)"

definition octets :: "nat \<times> nat \<times> nat \<times> nat \<Rightarrow> bool" where
  "octets q \<longleftrightarrow> (case q of (a, b, c, d) \<Rightarrow> a \<le> 255 \<and> b \<le> 255 \<and> c \<le> 255 \<and> d \<le> 255)"

text \<open>Nothing, or the port after a colon.\<close>

definition port_text :: "nat option \<Rightarrow> string" where
  "port_text p = (case p of None \<Rightarrow> [] | Some n \<Rightarrow> colon # nat_Itoa n)"

lemma octet_digits:
  assumes "n \<le> 255"
  obtains "n < 10" "nat_Itoa n = [dec_digit n]"
  | "10 \<le> n" "n < 100" "nat_Itoa n = [dec_digit (n div 10), dec_digit (n mod 10)]"
  | "100 \<le> n" "nat_Itoa n = [dec_digit (n div 100), dec_digit (n div 10 mod 10), dec_digit (n mod 10)]"
proof (cases "n < 10")
  case True
  then show ?thesis using that(1) by (simp add: nat_Itoa.simps)
next
  case 1: False
  show ?thesis
  proof (cases "n < 100")
    case True
    then have "n div 10 < 10" by simp
    then show ?thesis using that(2) 1 True by (simp add: nat_Itoa.simps [of n] nat_Itoa.simps [of "n div 10"])
  next
    case False
    then have "\<not> n div 10 < 10" "n div 10 div 10 < 10" "n div 10 div 10 = n div 100" using assms by (auto simp: div_mult2_eq [symmetric])
    then show ?thesis using that(3) 1 False
      by (simp add: nat_Itoa.simps [of n] nat_Itoa.simps [of "n div 10"] nat_Itoa.simps [of "n div 100"])
  qed
qed

lemma parse_octet:
  assumes "n \<le> 255"
  shows "parseIPv4Fields 0 0 fs (nat_Itoa n @ rest) = parseIPv4Fields n (length (nat_Itoa n)) fs rest"
  using assms
proof (cases rule: octet_digits [OF assms])
  case 1
  then show ?thesis by (simp add: digit_value_dec)
next
  case 2
  define x y where "x = n div 10" "y = n mod 10"
  then have "x < 10" "x \<noteq> 0" "y < 10" "x * 10 + y = n" "nat_Itoa n = [dec_digit x, dec_digit y]" using 2 by auto
  then show ?thesis using assms by (simp add: digit_value_dec)
next
  case 3
  define x y z where "x = n div 100" "y = n div 10 mod 10" "z = n mod 10"
  then have "x < 10" "x \<noteq> 0" "y < 10" "z < 10" "nat_Itoa n = [dec_digit x, dec_digit y, dec_digit z]" using 3 assms by auto
  moreover have "(x * 10 + y) * 10 + z = n"
    using div_mult_mod_eq [of "n div 10" 10] unfolding x_y_z_def by (simp add: div_mult2_eq [symmetric])
  ultimately show ?thesis using assms by (simp add: digit_value_dec)
qed

lemma digit_value_dot: "digit_value dot = None" "digit_value colon = None"
  by (simp_all add: dot_def colon_def)

lemma parse_ipv4: "octets q \<Longrightarrow> parseIPv4Fields 0 0 [] (ipv4_text q) = Some (case q of (a, b, c, d) \<Rightarrow> [a, b, c, d])"
proof -
  assume "octets q"
  then obtain a b c d where q: "q = (a, b, c, d)" "a \<le> 255" "b \<le> 255" "c \<le> 255" "d \<le> 255" by (auto simp: octets_def)
  have "nat_Itoa n \<noteq> []" for n using nat_Itoa_start [of n] by auto
  then have ne: "length (nat_Itoa n) \<noteq> 0" "nat_Itoa n \<noteq> []" for n by auto
  have last: "parseIPv4Fields 0 0 fs (nat_Itoa d) = parseIPv4Fields d (length (nat_Itoa d)) fs []" for fs
    using parse_octet [OF q(5), of fs "[]"] by simp
  show ?thesis using q ne by (simp add: ipv4_text_def parse_octet last digit_value_dot)
qed

definition addr_char :: "char \<Rightarrow> bool" where
  "addr_char c \<longleftrightarrow> digit_value c \<noteq> None \<or> c = dot \<or> c = colon"

lemma Itoa_digit: "c \<in> set (nat_Itoa n) \<Longrightarrow> digit_value c \<noteq> None"
proof (induction n rule: nat_Itoa.induct)
  case (1 n)
  then show ?case by (cases "n < 10") (auto simp: nat_Itoa.simps [of n] digit_value_dec)
qed

lemma addr_chars: "c \<in> set (ipv4_text q @ port_text p) \<Longrightarrow> addr_char c"
  using Itoa_digit by (cases q) (auto simp: ipv4_text_def port_text_def addr_char_def split: option.splits)

lemma addr_char_ascii: "addr_char c \<Longrightarrow> 32 < (of_char c :: nat) \<and> (of_char c :: nat) < 128"
  by (auto simp: addr_char_def digit_value_def dot_def colon_def Let_def split: if_splits)

lemma TrimSpace_word: "ascii_word w \<Longrightarrow> TrimSpace w = w"
proof (cases w)
  case (Cons c v)
  assume w: "ascii_word w"
  then have "lead_space space_runes w = 0" using Cons lead_space_ascii by (simp add: ascii_word_def)
  then have "trim_lead space_runes w = w" by (rule trim_lead_fixed)
  moreover have "trim_lead (map rev space_runes) (rev w) = rev w"
    by (rule trim_lead_fixed [OF lead_space_rev_ascii [OF w]]) (simp add: Cons)
  ultimately show ?thesis by (simp add: TrimSpace_def)
qed simp

lemma Trim_none: "s \<noteq> [] \<Longrightarrow> hd s \<notin> set cs \<Longrightarrow> last s \<notin> set cs \<Longrightarrow> Trim s cs = s"
proof -
  assume s: "s \<noteq> []" "hd s \<notin> set cs" "last s \<notin> set cs"
  have "dropWhile (\<lambda>c. c \<in> set cs) s = s" using s by (cases s) auto
  moreover have "dropWhile (\<lambda>c. c \<in> set cs) (rev s) = rev s" using s by (cases s rule: rev_cases) auto
  ultimately show ?thesis by (simp add: Trim_def)
qed

lemma no_bracket: "addr_char c \<Longrightarrow> c \<noteq> CHR ''['' \<and> c \<noteq> CHR '']''"
  by (auto simp: addr_char_def digit_value_def dot_def colon_def split: if_splits)

lemma colon_free: "colon \<notin> set (ipv4_text q)" "colon \<notin> set (nat_Itoa n)"
  using Itoa_digit [of colon] digit_value_dot by (cases q, auto simp: ipv4_text_def dot_def colon_def)

lemma SplitHostPort_ipv4:
  "SplitHostPort (ipv4_text q @ port_text p) = map_option (\<lambda>n. (ipv4_text q, nat_Itoa n)) p"
proof (cases p)
  case None
  then show ?thesis using colon_free by (simp add: SplitHostPort_def last_index_of_def port_text_def)
next
  case (Some n)
  let ?s = "ipv4_text q @ colon # nat_Itoa n"
  have "takeWhile (\<lambda>d. d \<noteq> colon) (rev (nat_Itoa n) @ colon # rev (ipv4_text q)) = rev (nat_Itoa n)"
    using colon_free(2) [of n] by (subst takeWhile_append2) auto
  then have i: "last_index_of colon ?s = Some (length (ipv4_text q))" by (simp add: last_index_of_def)
  have chars: "CHR ''['' \<notin> set ?s" "CHR '']'' \<notin> set ?s"
    using addr_chars [of _ q p] no_bracket Some by (auto simp: port_text_def)
  then have "\<not> prefix ''['' ?s" by (metis set_mono_prefix list.set_intros(1) subset_eq)
  then show ?thesis using Some i chars colon_free(1) [of q] by (simp add: SplitHostPort_def port_text_def)
qed

lemma ipv4_ends: "ipv4_text q \<noteq> []" "digit_value (hd (ipv4_text q)) \<noteq> None" "digit_value (last (ipv4_text q)) \<noteq> None"
proof -
  obtain a b c d where q: "q = (a, b, c, d)" by (rule prod_cases4)
  have ne: "nat_Itoa n \<noteq> []" for n using nat_Itoa_start [of n] by auto
  then show "ipv4_text q \<noteq> []" "digit_value (hd (ipv4_text q)) \<noteq> None" "digit_value (last (ipv4_text q)) \<noteq> None"
    using Itoa_digit [OF hd_in_set [OF ne]] Itoa_digit [OF last_in_set [OF ne]] by (auto simp: q ipv4_text_def)
qed

lemma find_skip: "\<forall>c \<in> set xs. \<not> P c \<Longrightarrow> P d \<Longrightarrow> find P (xs @ d # r) = Some d"
  by (induction xs) auto

lemma parseIP_ipv4:
  assumes "octets q"
  shows "parseIP (ipv4_text q @ port_text p) = Some (v4_mapped (case q of (a, b, c, d) \<Rightarrow> [a, b, c, d]))"
proof -
  let ?s = "ipv4_text q @ port_text p"
  have "ascii_word ?s" using addr_chars addr_char_ascii by (auto simp: ascii_word_def list_all_iff)
  then have trim: "TrimSpace ?s = ?s" by (rule TrimSpace_word)
  have host: "(case SplitHostPort ?s of Some (host, _) \<Rightarrow> host | None \<Rightarrow> ?s) = ipv4_text q"
    unfolding SplitHostPort_ipv4 by (cases p) (simp_all add: port_text_def)
  have br: "digit_value c \<noteq> None \<Longrightarrow> c \<notin> set ''[]''" for c
    by (auto simp: digit_value_def)
  have cut: "Trim (ipv4_text q) ''[]'' = ipv4_text q"
    using ipv4_ends [of q] br by (intro Trim_none) blast+
  have "find (\<lambda>c. c = dot \<or> c = colon \<or> c = CHR ''%'') (ipv4_text q) = Some dot"
  proof -
    obtain a r where r: "ipv4_text q = nat_Itoa a @ dot # r" by (cases q) (auto simp: ipv4_text_def)
    have "digit_value CHR ''%'' = None" by (simp add: digit_value_def)
    then have "\<forall>c \<in> set (nat_Itoa a). \<not> (c = dot \<or> c = colon \<or> c = CHR ''%'')"
      using Itoa_digit digit_value_dot by metis
    then have "find (\<lambda>c. c = dot \<or> c = colon \<or> c = CHR ''%'') (nat_Itoa a @ dot # r) = Some dot"
      by (intro find_skip) auto
    then show ?thesis using r by simp
  qed
  then show ?thesis using trim host cut ipv4_ends(1) [of q] parse_ipv4 [OF assms]
    by (simp add: parseIP_def ParseIP_def Let_def)
qed

text \<open>
  The source check compares addresses and not texts: for IPv4 addresses in dotted form, either of them with or without
  a port, \<^verbatim>\<open>SameIP\<close> holds exactly when all four bytes agree.
\<close>

theorem SameIP_ipv4:
  assumes "octets q" "octets q'"
  shows "SameIP (ipv4_text q @ port_text p) (ipv4_text q' @ port_text p') \<longleftrightarrow> q = q'"
  unfolding SameIP_def parseIP_ipv4 [OF assms(1)] parseIP_ipv4 [OF assms(2)] by (cases q, cases q') (auto simp: v4_mapped_def)

theorem SameIP_ipv4_witness:
  "SameIP (ipv4_text (10, 0, 0, 1) @ port_text (Some 80)) (ipv4_text (10, 0, 0, 1) @ port_text None) \<and>
   \<not> SameIP (ipv4_text (10, 0, 0, 1) @ port_text None) (ipv4_text (10, 0, 0, 2) @ port_text None)"
  using SameIP_ipv4 [of "(10, 0, 0, 1)" "(10, 0, 0, 1)" "Some 80" None] SameIP_ipv4 [of "(10, 0, 0, 1)" "(10, 0, 0, 2)" None None]
  by (simp add: octets_def)

end
