(* ===== verification/TonClient.thy ===== *)
theory TonClient
  imports Rejected Strconv
begin

text \<open>
  \<^verbatim>\<open>coordinator/internal/clients/ton/client.go\<close> and \<^verbatim>\<open>types.go\<close>: reading the chain through lite servers.  The
  lite-server API of tonutils-go is a set of parameters; where the code may repeat a call, the parameter
  takes the number of the call first, so that each call may answer differently.  The loop of
  \<^verbatim>\<open>GetTransactions\<close> follows the links a server sends, so it is a partial function: \<open>None\<close> is a
  scan that never ends.  Log lines are left out.
\<close>

section \<open>Transactions\<close>

record Transaction =
  tx_Hash :: bytes
  tx_LT :: "64 word"
  tx_Op :: "64 word"
  tx_From :: string
  tx_To :: string
  tx_Message :: string
  tx_CreatedAt :: time

text \<open>
  What the code reads of \<^verbatim>\<open>tlb.Transaction\<close>.  An internal message holds its addresses as text, the second it was
  created, and of the payload, if there is one, the results of \<^verbatim>\<open>LoadStringSnake\<close> and \<^verbatim>\<open>LoadUInt(32)\<close> at
  its start (their values when they fail are the ones the library returns; \<open>None\<close> when
  \<^verbatim>\<open>BeginParse\<close> fails).  \<^verbatim>\<open>IO.In\<close> is nil for a transaction that no message started.
\<close>

record internal_message =
  im_SrcAddr :: string
  im_DstAddr :: string
  im_CreatedAt :: "32 word"
  im_Payload :: "(string option \<times> 64 word option) option"

datatype tlb_message = MsgInternal "internal_message option" | MsgOther

record tlb_transaction =
  tlb_Hash :: bytes
  tlb_LT :: "64 word"
  tlb_PrevTxLT :: "64 word"
  tlb_PrevTxHash :: bytes
  tlb_In :: "tlb_message option"

text \<open>A call that ends, or the run-time panic of a nil dereference.\<close>

datatype 'a outcome = Panics | Returns 'a

definition parseTx :: "tlb_transaction \<Rightarrow> Transaction option outcome" where
  "parseTx tx =
     (case tlb_In tx of
        None \<Rightarrow> Panics
      | Some MsgOther \<Rightarrow> Returns None
      | Some (MsgInternal None) \<Rightarrow> Returns None
      | Some (MsgInternal (Some msg)) \<Rightarrow>
         (let comment = (case im_Payload msg of Some (Some text, _) \<Rightarrow> text | _ \<Rightarrow> []);
              op = (case im_Payload msg of Some (_, Some op) \<Rightarrow> op | _ \<Rightarrow> 0)
          in Returns (Some \<lparr>tx_Hash = tlb_Hash tx, tx_LT = tlb_LT tx, tx_Op = op, tx_From = im_SrcAddr msg,
               tx_To = im_DstAddr msg, tx_Message = comment,
               tx_CreatedAt = uint (im_CreatedAt msg) * 1000000000\<rparr>)))"

fun parse_all :: "tlb_transaction list \<Rightarrow> Transaction list outcome" where
  "parse_all [] = Returns []"
| "parse_all (t # ts) =
     (case parseTx t of
        Panics \<Rightarrow> Panics
      | Returns r \<Rightarrow>
         (case parse_all ts of
            Panics \<Rightarrow> Panics
          | Returns txs \<Rightarrow> Returns (case r of None \<Rightarrow> txs | Some tx \<Rightarrow> tx # txs)))"

text \<open>
  The errors of \<^verbatim>\<open>ListTransactions\<close> that the loop tells apart: the library's \<^verbatim>\<open>ErrNoTransactionsWereFound\<close>, a
  \<^verbatim>\<open>ton.LSError\<close> with its code, any other; each with the error value itself.
\<close>

datatype list_error =
    NoTransactionsWereFound (list_err: go_error)
  | LSError (ls_Code: int) (list_err: go_error)
  | ListOther (list_err: go_error)

text \<open>A page arrives oldest first; the inner loop looks for the newest transaction already processed.\<close>

fun newest_processed :: "64 word \<Rightarrow> tlb_transaction list \<Rightarrow> nat \<Rightarrow> nat option" where
  "newest_processed lastLT res 0 = None"
| "newest_processed lastLT res (Suc k) =
     (if tlb_LT (res ! k) \<le> lastLT then Some k else newest_processed lastLT res k)"

partial_function (option) scan_pages ::
  "(nat \<Rightarrow> 64 word \<Rightarrow> bytes \<Rightarrow> list_error + tlb_transaction list) \<Rightarrow> 64 word \<Rightarrow>
   nat \<Rightarrow> 64 word \<Rightarrow> bytes \<Rightarrow> tlb_transaction list \<Rightarrow> (go_error + tlb_transaction list) option" where
  "scan_pages listTx lastProcessedLT n lastLT lastHash transactions =
     (case listTx n lastLT lastHash of
        Inl errTx \<Rightarrow>
          if is_NoTransactionsWereFound errTx \<and> transactions \<noteq> [] then Some (Inr transactions)
          else if is_DeadlineExceeded (list_err errTx) then Some (Inr transactions)
          else if is_LSError errTx \<and> ls_Code errTx = - 400 then Some (Inr transactions)
          else Some (Inl (ErrWrap ''list transactions'' (list_err errTx)))
      | Inr res \<Rightarrow>
          if res = [] then Some (Inr transactions)
          else
           (case newest_processed lastProcessedLT res (length res) of
              Some i \<Rightarrow> Some (Inr (transactions @ drop i res))
            | None \<Rightarrow> scan_pages listTx lastProcessedLT (Suc n) (tlb_PrevTxLT (res ! 0)) (tlb_PrevTxHash (res ! 0)) (transactions @ res)))"

text \<open>
  \<^verbatim>\<open>ParseAddr\<close>, \<^verbatim>\<open>GetMasterchainInfo\<close>, \<^verbatim>\<open>GetAccount\<close> (whose result is read for its last transaction only) and
  \<^verbatim>\<open>ListTransactions\<close> with \<^verbatim>\<open>batch\<close> = 100 are the parameters.
\<close>

record ('a, 'b) ton_api =
  api_ParseAddr :: "string \<Rightarrow> go_error + 'a option"
  api_GetMasterchainInfo :: "go_error + 'b"
  api_GetAccount :: "'b \<Rightarrow> 'a \<Rightarrow> go_error + 64 word \<times> bytes"
  api_ListTransactions :: "'a \<Rightarrow> nat \<Rightarrow> 64 word \<Rightarrow> bytes \<Rightarrow> list_error + tlb_transaction list"

definition batch :: nat where "batch = 100"

definition GetTransactions ::
  "('a, 'b) ton_api \<Rightarrow> string \<Rightarrow> 64 word \<Rightarrow> (go_error + Transaction list) outcome option" where
  "GetTransactions api addr lastProcessedLT =
     (case api_ParseAddr api addr of
        Inl err \<Rightarrow> Some (Returns (Inl (ErrWrap (''parse address '' @ quote_text addr) err)))
      | Inr None \<Rightarrow> Some (Returns (Inl (ErrText (''parse address '' @ quote_text addr @ '': nil address''))))
      | Inr (Some a) \<Rightarrow>
         (case api_GetMasterchainInfo api of
            Inl err \<Rightarrow> Some (Returns (Inl (ErrWrap ''get masterchain info err'' err)))
          | Inr block \<Rightarrow>
             (case api_GetAccount api block a of
                Inl err \<Rightarrow> Some (Returns (Inl (ErrWrap ''get account err'' err)))
              | Inr (lastLT, lastHash) \<Rightarrow>
                 (case scan_pages (api_ListTransactions api a) lastProcessedLT 0 lastLT lastHash [] of
                    None \<Rightarrow> None
                  | Some (Inl err) \<Rightarrow> Some (Returns (Inl err))
                  | Some (Inr transactions) \<Rightarrow>
                     Some (case parse_all transactions of Panics \<Rightarrow> Panics | Returns txs \<Rightarrow> Returns (Inr txs))))))"

section \<open>A scan of the whole history\<close>

text \<open>
  A history, newest first, as the chain links it: logical times decrease and each transaction names its
  predecessor.  A server that works sends up to \<^verbatim>\<open>batch\<close> transactions ending at the one asked for,
  oldest first.
\<close>

fun linked :: "tlb_transaction list \<Rightarrow> bool" where
  "linked [] \<longleftrightarrow> True"
| "linked [t] \<longleftrightarrow> tlb_PrevTxLT t < tlb_LT t"
| "linked (t # u # ts) \<longleftrightarrow> tlb_PrevTxLT t < tlb_LT t \<and> tlb_PrevTxLT t = tlb_LT u \<and> linked (u # ts)"

definition serve :: "go_error \<Rightarrow> tlb_transaction list \<Rightarrow> 64 word \<Rightarrow> list_error + tlb_transaction list" where
  "serve e hist lt =
     (let page = take batch (dropWhile (\<lambda>t. lt < tlb_LT t) hist)
      in if page = [] then Inl (NoTransactionsWereFound e) else Inr (rev page))"

text \<open>All that is newer than the last processed transaction, and one more if there is one.\<close>

definition unprocessed :: "64 word \<Rightarrow> tlb_transaction list \<Rightarrow> tlb_transaction list" where
  "unprocessed lastLT hist = take (Suc (length (takeWhile (\<lambda>t. lastLT < tlb_LT t) hist))) hist"

text \<open>The order in which a scan delivers them: pages from the newest to the oldest, each with its oldest transaction first.\<close>

function in_pages :: "nat \<Rightarrow> 'a list \<Rightarrow> 'a list" where
  "in_pages n xs = (if n = 0 \<or> xs = [] then [] else rev (take n xs) @ in_pages n (drop n xs))"
  by pat_completeness auto
termination by (relation "measure (\<lambda>(n, xs). length xs)") (auto simp: length_greater_0_conv [symmetric] simp del: length_greater_0_conv)

declare in_pages.simps [simp del]

lemma in_pages_Nil [simp]: "in_pages n [] = []"
  by (simp add: in_pages.simps)

lemma in_pages_one: "xs \<noteq> [] \<Longrightarrow> length xs \<le> n \<Longrightarrow> in_pages n xs = rev xs"
  by (cases xs; subst in_pages.simps) auto

lemma in_pages_page: "xs \<noteq> [] \<Longrightarrow> length xs = n \<Longrightarrow> in_pages n (xs @ ys) = rev xs @ in_pages n ys"
  by (subst in_pages.simps) auto

lemma mset_in_pages: "0 < n \<Longrightarrow> mset (in_pages n xs) = mset xs"
proof (induction n xs rule: in_pages.induct)
  case (1 n xs)
  have "mset (take n xs) + mset (drop n xs) = mset xs" by (metis append_take_drop_id mset_append)
  then show ?case using 1 by (subst in_pages.simps) auto
qed

lemma linked_tl: "linked (t # ts) \<Longrightarrow> linked ts"
  by (cases ts) auto

lemma linked_below: "linked (t # ts) \<Longrightarrow> u \<in> set ts \<Longrightarrow> tlb_LT u < tlb_LT t"
proof (induction ts arbitrary: t)
  case (Cons v ts)
  then have "tlb_LT v < tlb_LT t" "linked (v # ts)" by auto
  with Cons show ?case by (cases "u = v") (auto intro: less_trans)
qed simp

lemma linked_prev: "linked ts \<Longrightarrow> t \<in> set ts \<Longrightarrow> tlb_PrevTxLT t < tlb_LT t"
  by (induction ts rule: linked.induct) auto

lemma dropWhile_prev:
  assumes "linked hist" "k < length hist"
  shows "dropWhile (\<lambda>t. tlb_PrevTxLT (hist ! k) < tlb_LT t) hist = drop (Suc k) hist"
  using assms
proof (induction hist arbitrary: k)
  case (Cons t ts)
  show ?case
  proof (cases k)
    case 0
    then show ?thesis using Cons.prems by (cases ts) auto
  next
    case (Suc j)
    then have j: "j < length ts" using Cons.prems by simp
    have "tlb_PrevTxLT (ts ! j) < tlb_LT (ts ! j)"
      using linked_prev [OF linked_tl [OF Cons.prems(1)]] j by simp
    also have "\<dots> < tlb_LT t" using linked_below [OF Cons.prems(1)] j by simp
    finally show ?thesis using Cons.IH [OF linked_tl [OF Cons.prems(1)] j] Suc by simp
  qed
qed simp

lemma newest_processed_append: "k \<le> length xs \<Longrightarrow> newest_processed l (xs @ ys) k = newest_processed l xs k"
  by (induction k) (auto simp: nth_append)

lemma newest_processed_rev:
  "newest_processed l (rev xs) (length xs) =
     (let j = length (takeWhile (\<lambda>t. l < tlb_LT t) xs) in if j = length xs then None else Some (length xs - Suc j))"
  by (induction xs) (auto simp: Let_def nth_append newest_processed_append)

lemma unprocessed_page:
  "unprocessed l (xs @ ys) =
     (if length (takeWhile (\<lambda>t. l < tlb_LT t) xs) = length xs then xs @ unprocessed l ys else unprocessed l xs)"
proof (cases "length (takeWhile (\<lambda>t. l < tlb_LT t) xs) = length xs")
  case True
  then have "takeWhile (\<lambda>t. l < tlb_LT t) xs = xs" by (metis takeWhile_eq_take take_all order_refl)
  then have "\<forall>t \<in> set xs. l < tlb_LT t" by (simp add: takeWhile_eq_all_conv)
  then show ?thesis using True by (simp add: unprocessed_def)
next
  case False
  then have "takeWhile (\<lambda>t. l < tlb_LT t) xs \<noteq> xs" by metis
  then obtain t where "t \<in> set xs" "\<not> l < tlb_LT t" by (auto simp: takeWhile_eq_all_conv)
  then have "takeWhile (\<lambda>t. l < tlb_LT t) (xs @ ys) = takeWhile (\<lambda>t. l < tlb_LT t) xs" by (rule takeWhile_append1)
  moreover have "length (takeWhile (\<lambda>t. l < tlb_LT t) xs) < length xs"
    using False length_takeWhile_le [of "\<lambda>t. l < tlb_LT t" xs] by linarith
  ultimately show ?thesis using False by (simp add: unprocessed_def)
qed

lemma page_split: "drop m xs = take b (drop m xs) @ drop (m + length (take b (drop m xs))) xs"
proof -
  have "drop (m + length (take b (drop m xs))) xs = drop (length (take b (drop m xs))) (drop m xs)"
    by (simp add: add.commute)
  also have "\<dots> = drop b (drop m xs)" by (cases "b \<le> length (drop m xs)") auto
  finally show ?thesis by (metis append_take_drop_id)
qed

lemma scan_all:
  assumes "linked hist" "\<And>n lt h. listTx n lt h = serve e hist lt"
    "dropWhile (\<lambda>t. lt < tlb_LT t) hist = drop m hist" "acc \<noteq> [] \<or> m < length hist"
  shows "scan_pages listTx l n lt h acc = Some (Inr (acc @ in_pages batch (unprocessed l (drop m hist))))"
  using assms(3,4)
proof (induction "length hist - m" arbitrary: m n lt h acc rule: less_induct)
  case less
  let ?page = "take batch (drop m hist)" and ?rest = "drop (m + length (take batch (drop m hist))) hist"
  let ?j = "length (takeWhile (\<lambda>t. l < tlb_LT t) ?page)"
  have split: "drop m hist = ?page @ ?rest" by (rule page_split)
  show ?case
  proof (cases "m < length hist")
    case False
    then show ?thesis using less.prems assms(2)
      by (subst scan_pages.simps) (auto simp: serve_def Let_def unprocessed_def)
  next
    case True
    then have ne: "?page \<noteq> []" by (simp add: batch_def)
    then have list: "listTx n lt h = Inr (rev ?page)" by (simp only: assms(2) serve_def less.prems(1) Let_def if_False)
    show ?thesis
    proof (cases "?j = length ?page")
      case False
      then have "?j < length ?page" using length_takeWhile_le le_neq_implies_less by blast
      then have "drop (length ?page - Suc ?j) (rev ?page) = rev (unprocessed l ?page)"
        by (simp add: drop_rev unprocessed_def)
      moreover have "unprocessed l (drop m hist) = unprocessed l ?page"
        using False by (subst split) (simp only: unprocessed_page if_False)
      moreover have "newest_processed l (rev ?page) (length (rev ?page)) = Some (length ?page - Suc ?j)"
        using False newest_processed_rev [of l ?page] by (simp add: Let_def)
      moreover have "unprocessed l ?page \<noteq> []" "length (unprocessed l ?page) \<le> batch" using ne by (auto simp: unprocessed_def)
      then have "in_pages batch (unprocessed l ?page) = rev (unprocessed l ?page)" by (rule in_pages_one)
      ultimately show ?thesis using ne list by (subst scan_pages.simps) simp
    next
      case all: True
      let ?k = "m + length ?page - 1"
      have k: "?k < length hist" "Suc ?k = m + length ?page" using ne True by (auto simp: batch_def)
      have "rev ?page ! 0 = ?page ! (length ?page - 1)" using ne by (simp add: rev_nth)
      also have "\<dots> = hist ! ?k" using ne True by (simp add: batch_def)
      finally have first: "rev ?page ! 0 = hist ! ?k" .
      have drop: "dropWhile (\<lambda>t. tlb_PrevTxLT (hist ! ?k) < tlb_LT t) hist = ?rest"
        using dropWhile_prev [OF assms(1) k(1)] k(2) by simp
      have un: "unprocessed l (drop m hist) = ?page @ unprocessed l ?rest"
        using all by (subst split) (simp only: unprocessed_page refl if_True)
      have step: "scan_pages listTx l n lt h acc =
          scan_pages listTx l (Suc n) (tlb_PrevTxLT (hist ! ?k)) (tlb_PrevTxHash (hist ! ?k)) (acc @ rev ?page)"
        using ne list all newest_processed_rev [of l ?page] first by (subst scan_pages.simps) (simp add: Let_def)
      have "length hist - (m + length ?page) < length hist - m" using ne True by (simp add: batch_def)
      from less.hyps [OF this drop, of "acc @ rev ?page" "Suc n" "tlb_PrevTxHash (hist ! ?k)"] ne
      have rest: "scan_pages listTx l (Suc n) (tlb_PrevTxLT (hist ! ?k)) (tlb_PrevTxHash (hist ! ?k)) (acc @ rev ?page) =
          Some (Inr ((acc @ rev ?page) @ in_pages batch (unprocessed l ?rest)))" by simp
      have "in_pages batch (?page @ unprocessed l ?rest) = rev ?page @ in_pages batch (unprocessed l ?rest)"
      proof (cases "length ?page = batch")
        case True
        then show ?thesis using ne by (intro in_pages_page)
      next
        case False
        then have "?rest = []" by simp
        then have "unprocessed l ?rest = []" by (simp add: unprocessed_def)
        then show ?thesis using ne by (simp add: in_pages_one)
      qed
      then show ?thesis using step un rest by simp
    qed
  qed
qed

definition parsed :: "tlb_transaction \<Rightarrow> Transaction option" where
  "parsed t = (case parseTx t of Panics \<Rightarrow> None | Returns r \<Rightarrow> r)"

lemma parse_all_somes:
  "list_all (\<lambda>t. tlb_In t \<noteq> None) ts \<Longrightarrow> parse_all ts = Returns (List.map_filter parsed ts)"
proof (induction ts)
  case (Cons t ts)
  have "parseTx t \<noteq> Panics" using Cons.prems
    by (auto simp: parseTx_def Let_def split: option.splits tlb_message.splits)
  then obtain r where "parseTx t = Returns r" by (cases "parseTx t") auto
  then show ?case using Cons by (simp add: parsed_def List.map_filter_simps split: option.splits)
qed (simp add: List.map_filter_simps)

lemma mset_map_filter: "mset xs = mset ys \<Longrightarrow> mset (List.map_filter f xs) = mset (List.map_filter f ys)"
  by (simp add: List.map_filter_def)

lemma newer_prefix: "linked hist \<Longrightarrow> set (takeWhile (\<lambda>t. l < tlb_LT t) hist) = {t \<in> set hist. l < tlb_LT t}"
proof (induction hist)
  case (Cons t ts)
  show ?case
  proof (cases "l < tlb_LT t")
    case True
    then show ?thesis using Cons linked_tl by auto
  next
    case False
    then have "\<not> l < tlb_LT u" if "u \<in> set (t # ts)" for u using that linked_below [OF Cons.prems] by fastforce
    then show ?thesis using False by auto
  qed
qed simp

lemma unprocessed_split:
  assumes "linked hist"
  shows "\<exists>newer older rest. unprocessed l hist = newer @ older \<and> hist = newer @ older @ rest \<and> length older \<le> 1 \<and>
    (older = [] \<longrightarrow> rest = []) \<and> set newer = {t \<in> set hist. l < tlb_LT t}"
proof -
  let ?newer = "takeWhile (\<lambda>t. l < tlb_LT t) hist" and ?below = "dropWhile (\<lambda>t. l < tlb_LT t) hist"
  have "unprocessed l hist = take (Suc (length ?newer)) (?newer @ ?below)" by (simp add: unprocessed_def)
  also have "\<dots> = ?newer @ take 1 ?below" by (simp only: take_append) simp
  finally have "unprocessed l hist = ?newer @ take 1 ?below" .
  moreover have "hist = ?newer @ take 1 ?below @ drop 1 ?below" by (metis append_take_drop_id takeWhile_dropWhile_id)
  moreover have "length (take 1 ts) \<le> 1" "take 1 ts = [] \<longrightarrow> drop 1 ts = []" for ts :: "tlb_transaction list" by (cases ts; simp)+
  ultimately show ?thesis using newer_prefix [OF assms] by blast
qed

lemma GetTransactions_pages:
  assumes "api_ParseAddr api addr = Inr (Some a)" "api_GetMasterchainInfo api = Inr block"
    and "api_GetAccount api block a = Inr (tlb_LT (hd hist), h)"
    and "linked hist" "hist \<noteq> []" "\<forall>n lt h. api_ListTransactions api a n lt h = serve e hist lt"
    and "list_all (\<lambda>t. tlb_In t \<noteq> None) hist"
  shows "GetTransactions api addr lastProcessedLT =
    Some (Returns (Inr (List.map_filter parsed (in_pages batch (unprocessed lastProcessedLT hist)))))"
proof -
  have "dropWhile (\<lambda>t. tlb_LT (hd hist) < tlb_LT t) hist = drop 0 hist" using assms(5) by (cases hist) auto
  then have res: "scan_pages (api_ListTransactions api a) lastProcessedLT 0 (tlb_LT (hd hist)) h [] =
      Some (Inr (in_pages batch (unprocessed lastProcessedLT hist)))"
    using scan_all [OF assms(4), of "api_ListTransactions api a" e "tlb_LT (hd hist)" 0 "[]" lastProcessedLT 0 h] assms(5,6) by auto
  have "set (in_pages batch (unprocessed lastProcessedLT hist)) \<subseteq> set hist"
    using mset_eq_setD [OF mset_in_pages [of batch "unprocessed lastProcessedLT hist"]] set_take_subset [of _ hist]
    by (simp add: unprocessed_def batch_def)
  then have "list_all (\<lambda>t. tlb_In t \<noteq> None) (in_pages batch (unprocessed lastProcessedLT hist))" using assms(7) by (auto simp: list_all_iff)
  then show ?thesis using assms(1,2,3) res by (simp add: GetTransactions_def parse_all_somes)
qed

lemma GetTransactions_run:
  assumes "api_ParseAddr api addr = Inr (Some a)" "api_GetMasterchainInfo api = Inr block"
    and "api_GetAccount api block a = Inr (tlb_LT (hd hist), h)"
    and "linked hist" "hist \<noteq> []" "\<forall>n lt h. api_ListTransactions api a n lt h = serve e hist lt"
    and "list_all (\<lambda>t. tlb_In t \<noteq> None) hist"
  shows "\<exists>txs. GetTransactions api addr lastProcessedLT = Some (Returns (Inr txs)) \<and>
    mset txs = mset (List.map_filter parsed (unprocessed lastProcessedLT hist))"
  using GetTransactions_pages [OF assms] mset_map_filter [OF mset_in_pages [of batch "unprocessed lastProcessedLT hist"]]
  by (auto simp: batch_def)

text \<open>
  C34.  A scan returns, whatever the length of the history.  With a server that answers it delivers the internal
  transactions newer than the last processed one together with the first one that is not, each once and nothing else: pages from
  the newest to the oldest, and within a page of \<^verbatim>\<open>batch\<close> transactions the oldest first.
\<close>

theorem GetTransactions_exact:
  assumes "api_ParseAddr api addr = Inr (Some a)" "api_GetMasterchainInfo api = Inr block"
    and "api_GetAccount api block a = Inr (tlb_LT (hd hist), h)"
    and "linked hist" "hist \<noteq> []" "\<forall>n lt h. api_ListTransactions api a n lt h = serve e hist lt"
    and "list_all (\<lambda>t. tlb_In t \<noteq> None) hist"
  shows "\<exists>newer older rest. hist = newer @ older @ rest \<and> set newer = {t \<in> set hist. lastProcessedLT < tlb_LT t} \<and>
    length older \<le> 1 \<and> (older = [] \<longrightarrow> rest = []) \<and>
    GetTransactions api addr lastProcessedLT = Some (Returns (Inr (List.map_filter parsed (in_pages batch (newer @ older)))))"
  using unprocessed_split [OF assms(4), of lastProcessedLT] GetTransactions_pages [OF assms, of lastProcessedLT] by metis

definition sample_tx :: "64 word \<Rightarrow> tlb_transaction" where
  "sample_tx lt = \<lparr>tlb_Hash = [], tlb_LT = lt, tlb_PrevTxLT = lt - 1, tlb_PrevTxHash = [],
     tlb_In = Some (MsgInternal (Some \<lparr>im_SrcAddr = ''EQa'', im_DstAddr = ''EQb'', im_CreatedAt = 7,
       im_Payload = Some (Some ''hi'', Some 0)\<rparr>))\<rparr>"

definition sample_api :: "(unit, unit) ton_api" where
  "sample_api = \<lparr>api_ParseAddr = \<lambda>_. Inr (Some ()), api_GetMasterchainInfo = Inr (),
     api_GetAccount = \<lambda>_ _. Inr (3, []), api_ListTransactions = \<lambda>_ _ lt _. serve (ErrText ''none'') (map sample_tx [3, 2, 1]) lt\<rparr>"

theorem GetTransactions_exact_witness:
  "\<exists>txs. GetTransactions sample_api ''EQb'' 2 = Some (Returns (Inr txs)) \<and> map tx_LT txs = [2, 3]"
proof -
  let ?hist = "map sample_tx [3, 2, 1]"
  have lt: "tlb_LT (sample_tx l) = l" "tlb_PrevTxLT (sample_tx l) = l - 1" "\<exists>m. tlb_In (sample_tx l) = Some m" for l
    by (simp_all add: sample_tx_def)
  have api: "api_ParseAddr sample_api ''EQb'' = Inr (Some ())" "api_GetMasterchainInfo sample_api = Inr ()"
    "api_GetAccount sample_api () () = Inr (tlb_LT (hd ?hist), [])"
    "\<forall>n lt h. api_ListTransactions sample_api () n lt h = serve (ErrText ''none'') ?hist lt"
    by (simp_all add: sample_api_def lt)
  have h: "linked ?hist" "?hist \<noteq> []" "list_all (\<lambda>t. tlb_In t \<noteq> None) ?hist" using lt(3) by (simp_all add: lt)
  obtain newer older rest where split: "?hist = newer @ older @ rest" "set newer = {t \<in> set ?hist. 2 < tlb_LT t}" "length older \<le> 1"
    "older = [] \<longrightarrow> rest = []"
    and run: "GetTransactions sample_api ''EQb'' 2 = Some (Returns (Inr (List.map_filter parsed (in_pages batch (newer @ older)))))"
    using GetTransactions_exact [OF api(1-3) h(1,2) api(4) h(3), of 2] by blast
  have "set newer = set (filter (\<lambda>t. 2 < tlb_LT t) ?hist)" unfolding split(2) set_filter ..
  then have "set newer = {sample_tx 3}" by (simp add: lt(1))
  moreover have "sample_tx 2 \<noteq> sample_tx 3" by (simp add: sample_tx_def)
  ultimately have "newer = [sample_tx 3]" using split(1) by (cases newer; cases "tl newer") simp_all
  then have "newer @ older = map sample_tx [3, 2]" using split(1,3,4) by (cases older) auto
  then have "GetTransactions sample_api ''EQb'' 2 = Some (Returns (Inr (List.map_filter parsed (in_pages batch (map sample_tx [3, 2])))))"
    using run by simp
  moreover have "in_pages batch (map sample_tx [3, 2]) = map sample_tx [2, 3]" by (subst in_pages_one) (simp_all add: batch_def)
  moreover have "map tx_LT (List.map_filter parsed (map sample_tx [2, 3])) = [2, 3]"
    by (simp add: List.map_filter_simps parsed_def parseTx_def sample_tx_def)
  ultimately show ?thesis by simp
qed

text \<open>
  A deadline that ends the scan on a later page leaves the newest pages only: older transactions that were never
  processed are missing from an answer that carries no error.
\<close>

lemma deadline_keeps_newest:
  assumes "listTx n lt h = Inl (ListOther ErrDeadlineExceeded)"
  shows "scan_pages listTx l n lt h acc = Some (Inr acc)"
  using assms by (subst scan_pages.simps) simp

lemma unprocessed_newer:
  assumes "linked hist"
  shows "t \<in> set (unprocessed l hist) \<and> l < tlb_LT t \<longleftrightarrow> t \<in> set hist \<and> l < tlb_LT t"
  using assms
proof (induction hist)
  case (Cons u ts)
  show ?case
  proof (cases "l < tlb_LT u")
    case True
    then have "unprocessed l (u # ts) = u # unprocessed l ts" by (simp add: unprocessed_def)
    then show ?thesis using Cons linked_tl by auto
  next
    case False
    then have "\<not> l < tlb_LT t" if "t \<in> set (u # ts)" using that linked_below [OF Cons.prems] by fastforce
    then show ?thesis by (auto simp: unprocessed_def dest: in_set_takeD)
  qed
qed (simp add: unprocessed_def)

section \<open>Storage contracts\<close>

record StorageContract =
  stc_Address :: string
  stc_BagID :: string
  stc_OwnerAddr :: string
  stc_Size :: "64 word"
  stc_ChunkSize :: "64 word"

text \<open>What the code reads of \<^verbatim>\<open>StorageDataV1\<close>; the owner as \<^verbatim>\<open>OwnerAddr.String()\<close> prints it.\<close>

record storage_data =
  sd_TorrentHash :: bytes
  sd_OwnerAddr :: string
  sd_Size :: "64 word"
  sd_ChunkSize :: "64 word"

text \<open>The calls of the loop are made once per address; \<open>i\<close> is the position in the list.\<close>

record ('a, 'b) contract_api =
  ca_GetMasterchainInfo :: "nat \<Rightarrow> go_error + 'b"
  ca_ParseAddr :: "string \<Rightarrow> go_error + 'a"
  ca_GetStorageInfoV1 :: "nat \<Rightarrow> 'b \<Rightarrow> 'a \<Rightarrow> go_error + storage_data option"

definition contract_of :: "('a, 'b) contract_api \<Rightarrow> 'b \<Rightarrow> nat \<times> string \<Rightarrow> StorageContract option" where
  "contract_of api block ia =
     (case ca_ParseAddr api (snd ia) of
        Inl _ \<Rightarrow> None
      | Inr addr \<Rightarrow>
         (case ca_GetStorageInfoV1 api (fst ia) block addr of
            Inl _ \<Rightarrow> None
          | Inr None \<Rightarrow> None
          | Inr (Some info) \<Rightarrow>
             Some \<lparr>stc_Address = snd ia, stc_BagID = hex_Encode (sd_TorrentHash info), stc_OwnerAddr = sd_OwnerAddr info,
                   stc_Size = sd_Size info, stc_ChunkSize = sd_ChunkSize info\<rparr>))"

definition GetStorageContractsInfo ::
  "('a, 'b) contract_api \<Rightarrow> string list \<Rightarrow> go_error + StorageContract list" where
  "GetStorageContractsInfo api addrs =
     (case ca_GetMasterchainInfo api 0 of
        Inl err \<Rightarrow> Inl (ErrWrap ''get masterchain info err'' err)
      | Inr block \<Rightarrow> Inr (List.map_filter (contract_of api block) (zip [0..<length addrs] addrs)))"

section \<open>Providers of the contracts\<close>

definition history_texts :: "string list" where
  "history_texts = [''state already gc'' @ [CHR 0x27] @ ''d'', ''cannot load state'', ''failed to get account state'']"

definition isLiteServerHistoryUnavailableErr :: "go_error option \<Rightarrow> bool" where
  "isLiteServerHistoryUnavailableErr err =
     (case err of
        None \<Rightarrow> False
      | Some e \<Rightarrow> (let msg = ToLower (err_Error e) in list_ex (\<lambda>t. str_Index msg t \<noteq> None) history_texts))"

text \<open>
  \<^verbatim>\<open>GetProvidersV1\<close> returns the list, the balance and an error together, and the closure stores all three, so
  the last call decides.  The balance is a big integer of nanotons, a rate likewise; \<^verbatim>\<open>Uint64\<close> takes
  their low 64 bits.
\<close>

record provider_data =
  pd_Key :: bytes
  pd_LastProofAt :: int
  pd_RatePerMB :: int
  pd_MaxSpan :: "32 word"

type_synonym providers_reply = "provider_data list \<times> int \<times> go_error option"

fun try_calls :: "(nat \<Rightarrow> providers_reply) \<Rightarrow> nat \<Rightarrow> nat \<Rightarrow> providers_reply \<Rightarrow> providers_reply" where
  "try_calls f i 0 st = st"
| "try_calls f i (Suc n) st = (case f i of (info, coins, None) \<Rightarrow> (info, coins, None) | st' \<Rightarrow> try_calls f (Suc i) n st')"

text \<open>
  The environment of one goroutine: \<open>pa_Refresh k\<close> is the answer to its attempt \<open>k\<close> to read the
  masterchain again, \<open>pa_GetProvidersV1 i\<close> its call number \<open>i\<close>; attempt \<open>k\<close> makes the
  calls from \<open>5 * k\<close>.
\<close>

record ('a, 'b) providers_api =
  pa_ParseAddr :: "string \<Rightarrow> go_error + 'a"
  pa_Refresh :: "nat \<Rightarrow> go_error + 'b"
  pa_GetProvidersV1 :: "nat \<Rightarrow> 'b \<Rightarrow> 'a \<Rightarrow> providers_reply"

definition getProvidersRetries :: nat where "getProvidersRetries = 5"

definition getProvidersFallbackMasterchainRefreshAttempts :: nat where
  "getProvidersFallbackMasterchainRefreshAttempts = 3"

fun fallback_loop :: "('a, 'b) providers_api \<Rightarrow> 'a \<Rightarrow> nat \<Rightarrow> nat \<Rightarrow> providers_reply \<Rightarrow> providers_reply" where
  "fallback_loop api addr attempt 0 st = st"
| "fallback_loop api addr attempt (Suc n) (info, coins, callErr) =
     (case pa_Refresh api attempt of
        Inl blockErr \<Rightarrow>
          (let callErr = Some (ErrWrap ''refresh masterchain info for fallback'' blockErr)
           in if \<not> isLiteServerHistoryUnavailableErr callErr then (info, coins, callErr)
              else fallback_loop api addr (Suc attempt) n (info, coins, callErr))
      | Inr fallbackBlock \<Rightarrow>
          (case try_calls (\<lambda>i. pa_GetProvidersV1 api i fallbackBlock addr) (getProvidersRetries * attempt)
                  getProvidersRetries (info, coins, None) of
             (info, coins, None) \<Rightarrow> (info, coins, None)
           | (info, coins, Some retryErr) \<Rightarrow>
              if \<not> isLiteServerHistoryUnavailableErr (Some retryErr) then (info, coins, Some retryErr)
              else fallback_loop api addr (Suc attempt) n (info, coins, Some retryErr)))"

definition provider_of :: "provider_data \<Rightarrow> ton_provider" where
  "provider_of p = \<lparr>tp_Key = pd_Key p, tp_LastProofTime = pd_LastProofAt p, tp_RatePerMBDay = word_of_int (pd_RatePerMB p),
     tp_MaxSpan = pd_MaxSpan p\<rparr>"

definition providers_call :: "('a, 'b) providers_api \<Rightarrow> 'b \<Rightarrow> 'a \<Rightarrow> providers_reply" where
  "providers_call api block addr =
     (let st = try_calls (\<lambda>i. pa_GetProvidersV1 api i block addr) 0 getProvidersRetries ([], 0, None)
      in if isLiteServerHistoryUnavailableErr (snd (snd st))
         then fallback_loop api addr 1 getProvidersFallbackMasterchainRefreshAttempts st else st)"

definition contract_row :: "string \<Rightarrow> providers_reply \<Rightarrow> contract_providers" where
  "contract_row addrStr reply =
     (case reply of
        (info, coins, callErr) \<Rightarrow>
          \<lparr>cp_Address = addrStr, cp_Balance = word_of_int coins, cp_Providers = map provider_of info,
           cp_LiteServerError = (callErr \<noteq> None)\<rparr>)"

definition providers_goroutine :: "('a, 'b) providers_api \<Rightarrow> 'b \<Rightarrow> string \<Rightarrow> contract_providers option" where
  "providers_goroutine api block addrStr =
     (case pa_ParseAddr api addrStr of
        Inl _ \<Rightarrow> None
      | Inr addr \<Rightarrow>
         Some (contract_row addrStr (providers_call api block addr)))"

text \<open>
  \<open>finished\<close> lists the positions of the addresses in the order in which their goroutines append; the
  semaphore only delays them.
\<close>

definition GetProvidersInfo ::
  "go_error + 'b \<Rightarrow> (nat \<Rightarrow> ('a, 'b) providers_api) \<Rightarrow> nat list \<Rightarrow> string list \<Rightarrow> go_error + contract_providers list" where
  "GetProvidersInfo masterchain api finished addrs =
     (case masterchain of
        Inl err \<Rightarrow> Inl (ErrWrap ''get masterchain info err'' err)
      | Inr block \<Rightarrow> Inr (List.map_filter (\<lambda>i. providers_goroutine (api i) block (addrs ! i)) finished))"

lemma try_calls_call: "0 < n \<Longrightarrow> \<exists>j. i \<le> j \<and> j < i + n \<and> try_calls f i n st = f j"
proof (induction n arbitrary: i st)
  case (Suc n)
  obtain info coins err where f: "f i = (info, coins, err)" by (metis prod_cases3)
  show ?case
  proof (cases "err = None \<or> n = 0")
    case True
    then have "try_calls f i (Suc n) st = f i" using f by (auto split: option.splits)
    then show ?thesis by auto
  next
    case False
    then obtain j where "Suc i \<le> j" "j < Suc i + n" "try_calls f (Suc i) n (f i) = f j"
      using Suc.IH [of "Suc i" "f i"] by auto
    then show ?thesis using f False by (auto intro!: exI [of _ j])
  qed
qed simp

lemma fallback_loop_call:
  assumes "fallback_loop api addr k n (info, coins, Some e) = (info', coins', None)"
  shows "\<exists>j b. j < 5 * (k + n) \<and> pa_GetProvidersV1 api j b addr = (info', coins', None)"
  using assms
proof (induction n arbitrary: k info coins e)
  case (Suc n)
  show ?case
  proof (cases "pa_Refresh api k")
    case (Inl be)
    then show ?thesis using Suc.prems Suc.IH [of "Suc k"] by (simp add: Let_def split: if_splits)
  next
    case (Inr b)
    obtain r where r: "r = try_calls (\<lambda>i. pa_GetProvidersV1 api i b addr) (5 * k) 5 (info, coins, None)" by simp
    obtain j where j: "j < 5 * k + 5" "r = pa_GetProvidersV1 api j b addr"
      using try_calls_call [of 5 "5 * k" "\<lambda>i. pa_GetProvidersV1 api i b addr" "(info, coins, None)"] r by auto
    obtain ri rc re where ri: "r = (ri, rc, re)" by (metis prod_cases3)
    show ?thesis
    proof (cases re)
      case None
      then have "(info', coins') = (ri, rc)" using Suc.prems Inr r [symmetric] ri by (simp add: getProvidersRetries_def)
      then show ?thesis using j ri None by (intro exI [of _ j] exI [of _ b]) auto
    next
      case (Some e')
      then have "fallback_loop api addr (Suc k) n (ri, rc, Some e') = (info', coins', None)"
        using Suc.prems Inr r [symmetric] ri by (auto simp: getProvidersRetries_def split: if_splits)
      then show ?thesis using Suc.IH [of "Suc k" ri rc e'] by simp
    qed
  qed
qed simp

text \<open>An answer without error is the answer of one of at most twenty calls.\<close>

lemma providers_call_ok:
  assumes "providers_call api block addr = (info, coins, None)"
  shows "\<exists>j b. j < 20 \<and> pa_GetProvidersV1 api j b addr = (info, coins, None)"
proof -
  let ?st = "try_calls (\<lambda>i. pa_GetProvidersV1 api i block addr) 0 5 ([], 0, None)"
  obtain j where j: "j < 5" "?st = pa_GetProvidersV1 api j block addr"
    using try_calls_call [of 5 0 "\<lambda>i. pa_GetProvidersV1 api i block addr" "([], 0, None)"] by auto
  obtain i c e where st: "?st = (i, c, e)" by (metis prod_cases3)
  show ?thesis
  proof (cases "isLiteServerHistoryUnavailableErr e")
    case True
    then obtain e' where "e = Some e'" by (cases e) (auto simp: isLiteServerHistoryUnavailableErr_def)
    then have "fallback_loop api addr 1 3 (i, c, Some e') = (info, coins, None)"
      using assms True st by (simp add: providers_call_def getProvidersRetries_def Let_def
        getProvidersFallbackMasterchainRefreshAttempts_def)
    then show ?thesis using fallback_loop_call [of api addr 1 3 i c e' info coins] by simp
  next
    case False
    then have "?st = (info, coins, None)" using assms st by (simp add: providers_call_def getProvidersRetries_def Let_def)
    then show ?thesis using j by (intro exI [of _ j] exI [of _ block]) simp
  qed
qed

lemma distinct_map_filter_key:
  assumes "distinct xs" "inj_on key (set xs)" "\<And>x y. x \<in> set xs \<Longrightarrow> f x = Some y \<Longrightarrow> g y = key x"
  shows "distinct (map g (List.map_filter f xs))"
proof -
  have "map g (List.map_filter f xs) = map key (filter (\<lambda>x. f x \<noteq> None) xs)"
    using assms(3) by (auto simp: List.map_filter_def)
  then show ?thesis using assms(1,2) by (simp add: distinct_map inj_on_subset [of key "set xs"])
qed

lemma goroutine_address: "providers_goroutine api block a = Some row \<Longrightarrow> cp_Address row = a"
  by (auto simp: providers_goroutine_def contract_row_def split: sum.splits prod.splits)

lemma GetProvidersInfo_distinct:
  assumes "distinct addrs" "mset finished = mset [0..<length addrs]" "GetProvidersInfo mc api finished addrs = Inr infos"
  shows "distinct (map cp_Address infos)"
proof -
  obtain block where infos: "infos = List.map_filter (\<lambda>i. providers_goroutine (api i) block (addrs ! i)) finished"
    using assms(3) by (auto simp: GetProvidersInfo_def split: sum.splits)
  have "distinct finished" using assms(2) by (metis distinct_upt mset_eq_imp_distinct_iff)
  moreover have "set finished = {0..<length addrs}" using assms(2) by (metis mset_eq_setD set_upt)
  then have "inj_on (\<lambda>i. addrs ! i) (set finished)" using assms(1) by (auto simp: inj_on_def nth_eq_iff_index_eq)
  ultimately show ?thesis unfolding infos by (rule distinct_map_filter_key) (rule goroutine_address)
qed

lemma map_filter_Some: "x \<in> set xs \<Longrightarrow> f x = Some y \<Longrightarrow> y \<in> set (List.map_filter f xs)"
  by (force simp: List.map_filter_def)

text \<open>
  C35.  A relation is closed on evidence only: when closing works on the answers of this client and the
  address of a contract can be parsed, a relation that is closed was missing from an answer that a lite server
  gave without error, or that answer shows it out of money and overdue.  No failure of the lite servers closes a
  relation.
\<close>

theorem closed_on_evidence:
  assumes "updateRejectedContracts ord now (GetProvidersInfo (Inr block) api finished) upd scs db = (Inr active, db')"
    and "order_ok ord" "sc \<in> set scs" "sc \<notin> set active"
    and "mset finished = mset [0..<length (range_keys ord (build_map rel_Address rel_Size scs []))]"
    and "\<forall>i. pa_ParseAddr (api i) (rel_Address sc) = Inr addr"
  shows "\<exists>i j b info coins. j < 20 \<and> pa_GetProvidersV1 (api i) j b addr = (info, coins, None) \<and>
    (\<forall>p \<in> set info. hex_Encode (pd_Key p) = rel_ProviderPublicKey sc \<longrightarrow>
      isRemovedByLowBalance now (uint (go_get 0 (build_map rel_Address rel_Size scs []) (rel_Address sc)))
        (provider_of p) (contract_row (rel_Address sc) (info, coins, None)))"
proof -
  let ?sizes = "build_map rel_Address rel_Size scs []"
  let ?addrs = "range_keys ord ?sizes"
  let ?infos = "List.map_filter (\<lambda>i. providers_goroutine (api i) block (?addrs ! i)) finished"
  have ne: "scs \<noteq> []" using assms(3) by auto
  have info: "GetProvidersInfo (Inr block) api finished ?addrs = Inr ?infos" by (simp add: GetProvidersInfo_def)
  have "distinct ?addrs" by (rule distinct_range_keys [OF assms(2)]) simp
  then have "distinct (map cp_Address ?infos)" using GetProvidersInfo_distinct assms(5) info by blast
  note keep = keep_active_iff [OF this, of now ?sizes]
  from updateRejected_split(1) [OF assms(1) ne info]
  have closed: "\<forall>row \<in> set ?infos. cp_Address row = rel_Address sc \<longrightarrow> \<not> info_keeps now ?sizes row sc"
    using assms(3,4) keep by auto
  have "rel_Address sc \<in> set ?addrs" using assms(3) by (simp add: set_range_keys [OF assms(2)] dom_build_map)
  then obtain i where i: "i < length ?addrs" "?addrs ! i = rel_Address sc" by (auto simp: in_set_conv_nth)
  then have fin: "i \<in> set finished" using mset_eq_setD [OF assms(5)] by simp
  obtain ps cs err where call: "providers_call (api i) block addr = (ps, cs, err)" by (metis prod_cases3)
  let ?row = "contract_row (rel_Address sc) (ps, cs, err)"
  have "providers_goroutine (api i) block (?addrs ! i) = Some ?row"
    using i assms(6) call by (simp add: providers_goroutine_def)
  then have "?row \<in> set ?infos" by (rule map_filter_Some [OF fin])
  moreover have "cp_Address ?row = rel_Address sc" by (simp add: contract_row_def)
  ultimately have "\<not> info_keeps now ?sizes ?row sc" using closed by blast
  then have err: "err = None" and low: "\<forall>p \<in> set ps. hex_Encode (pd_Key p) = rel_ProviderPublicKey sc \<longrightarrow>
      isRemovedByLowBalance now (uint (go_get 0 ?sizes (rel_Address sc))) (provider_of p) ?row"
    by (auto simp: info_keeps_def provider_of_def contract_row_def)
  then obtain j b where "j < 20" "pa_GetProvidersV1 (api i) j b addr = (ps, cs, None)"
    using providers_call_ok [of "api i" block addr ps cs] call err by auto
  then show ?thesis using low err by blast
qed

definition evidence_api :: "nat \<Rightarrow> (unit, unit) providers_api" where
  "evidence_api i = \<lparr>pa_ParseAddr = \<lambda>_. Inr (), pa_Refresh = \<lambda>_. Inr (),
     pa_GetProvidersV1 = \<lambda>j _ _. if j < 3 then ([], 0, Some (ErrText ''Cannot load state'')) else ([], 7, None)\<rparr>"

definition evidence_rel :: contract_relation where
  "evidence_rel = \<lparr>rel_ProviderPublicKey = ''aa'', rel_ProviderAddress = ''EQp'', rel_Address = ''EQc'', rel_BagID = ''00'',
     rel_Size = 10, rel_Reason = None\<rparr>"

theorem closed_on_evidence_witness:
  "\<exists>i j b info coins. j < 20 \<and> pa_GetProvidersV1 (evidence_api i) j b () = (info, coins, None)"
proof -
  have call: "providers_call (evidence_api 0) () () = ([], 7, None)"
    by (simp add: providers_call_def evidence_api_def getProvidersRetries_def numeral_eq_Suc isLiteServerHistoryUnavailableErr_def)
  have "updateRejectedContracts (\<lambda>ks. ks) 0 (GetProvidersInfo (Inr ()) evidence_api [0]) (\<lambda>cs db. (None, db)) [evidence_rel] () = (Inr [], ())"
    by (simp add: updateRejectedContracts_def GetProvidersInfo_def range_keys_def go_keys_def evidence_rel_def
        providers_goroutine_def call List.map_filter_simps evidence_api_def [THEN arg_cong, of pa_ParseAddr]
        contract_row_def contract_entry_def keep_active_def)
  from closed_on_evidence [OF this, of evidence_rel "()"] show ?thesis
    by (auto simp: range_keys_def go_keys_def evidence_api_def)
qed

end
