(* ===== verification/Collect.thy ===== *)
theory Collect
  imports TonClient Merge
begin

text \<open>
  The collecting steps of \<^verbatim>\<open>coordinator/internal/workers/providersMaster/worker.go\<close>: new providers from the
  transactions of the master wallet (\<^verbatim>\<open>CollectNewProviders\<close>), rates and online status from the agents
  (\<^verbatim>\<open>UpdateKnownProviders\<close>), new storage contracts from the transactions of the providers' wallets
  (\<^verbatim>\<open>CollectProvidersNewStorageContracts\<close>, \<^verbatim>\<open>scanProviderTransactions\<close>), and the three steps that hand one
  call to the repository.  Each returns the interval until its next run and an error, beside the database.

  The repositories are parameters over a database state \<open>'s\<close>; \<open>getTx\<close> is \<^verbatim>\<open>ton.GetTransactions\<close> as it
  answers in this run, \<open>getInfo\<close> is \<^verbatim>\<open>ton.GetStorageContractsInfo\<close>.
\<close>

definition lastLTKey :: string where "lastLTKey = ''masterWalletLastLT''"

definition msg_prefix :: string where "msg_prefix = ''tsp-''"

definition storageRewardWithdrawalOpCode :: "64 word" where "storageRewardWithdrawalOpCode = 0xa91baf56"

definition fakeSize :: "64 word" where "fakeSize = 1"

type_synonym step_result = "duration \<times> go_error option"

definition seconds :: "int \<Rightarrow> duration" where "seconds n = n * 1000000000"

definition minutes :: "int \<Rightarrow> duration" where "minutes n = n * 60000000000"

section \<open>New providers\<close>

record 's collect_repo =
  cr_GetParam :: "string \<Rightarrow> 's \<Rightarrow> go_error + string"
  cr_SetParam :: "string \<Rightarrow> string \<Rightarrow> 's \<Rightarrow> go_error option \<times> 's"
  cr_GetAllProvidersPubkeys :: "'s \<Rightarrow> go_error + string list"
  cr_AddProviders :: "provider_create list \<Rightarrow> 's \<Rightarrow> go_error option \<times> 's"

text \<open>
  \<^verbatim>\<open>ToLower\<close> of the model changes ASCII letters only.  A message in which Go lowers another letter is rejected
  either way, since the key must decode from hexadecimal.
\<close>

definition message_pubkey :: "string \<Rightarrow> string option" where
  "message_pubkey message =
     (case str_Index message msg_prefix of
        None \<Rightarrow> None
      | Some pos \<Rightarrow>
         (let pos = pos + length msg_prefix
          in if pos \<ge> length message then None
             else (let pubkey = ToLower (drop pos message)
                   in if length pubkey \<noteq> 64 then None else Some pubkey)))"

definition collect_tx ::
  "64 word \<Rightarrow> unit go_map \<Rightarrow> Transaction \<Rightarrow> provider_create go_map \<times> 64 word \<Rightarrow> provider_create go_map \<times> 64 word" where
  "collect_tx lastLT known tx st =
     (case st of
        (uniqueProviders, biggestLT) \<Rightarrow>
          if tx_LT tx \<le> lastLT then (uniqueProviders, biggestLT)
          else
           (let biggestLT = (if biggestLT < tx_LT tx then tx_LT tx else biggestLT)
            in case message_pubkey (tx_Message tx) of
                 None \<Rightarrow> (uniqueProviders, biggestLT)
               | Some pubkey \<Rightarrow>
                  if map_of known pubkey \<noteq> None then (uniqueProviders, biggestLT)
                  else
                   (case hex_DecodeString pubkey of
                      Inl _ \<Rightarrow> (uniqueProviders, biggestLT)
                    | Inr prv \<Rightarrow>
                       if length prv \<noteq> 32 then (uniqueProviders, biggestLT)
                       else (AList.update pubkey \<lparr>pc_Pubkey = pubkey, pc_Address = tx_From tx, pc_RegisteredAt = tx_CreatedAt tx\<rparr>
                               uniqueProviders, biggestLT))))"

definition CollectNewProviders ::
  "'s collect_repo \<Rightarrow> (string \<Rightarrow> 64 word \<Rightarrow> go_error + Transaction list) \<Rightarrow> string \<Rightarrow> order \<Rightarrow> 's \<Rightarrow> step_result \<times> 's" where
  "CollectNewProviders repo getTx masterAddr ord db =
     (case cr_GetParam repo lastLTKey db of
        Inl err \<Rightarrow> ((seconds 5, Some err), db)
      | Inr lv \<Rightarrow>
         (let lastProcessedLT = word_of_int (fst (ParseInt64 lv))
          in case cr_GetAllProvidersPubkeys repo db of
               Inl err \<Rightarrow> ((seconds 5, Some err), db)
             | Inr p \<Rightarrow>
                (let known = build_map ToLower (\<lambda>_. ()) p []
                 in case getTx masterAddr lastProcessedLT of
                      Inl err \<Rightarrow> ((seconds 5, Some err), db)
                    | Inr txs \<Rightarrow>
                       (case fold (collect_tx lastProcessedLT known) txs ([], lastProcessedLT) of
                          (uniqueProviders, biggestLT) \<Rightarrow>
                            if uniqueProviders = [] then ((minutes 1, None), db)
                            else
                             (let db = (if lastProcessedLT < biggestLT
                                        then snd (cr_SetParam repo lastLTKey (FormatUint biggestLT) db) else db);
                                  providersInit = List.map_filter (map_of uniqueProviders) (range_keys ord uniqueProviders)
                              in case cr_AddProviders repo providersInit db of
                                   (Some err, db) \<Rightarrow> ((seconds 5, Some err), db)
                                 | (None, db) \<Rightarrow> ((minutes 1, None), db))))))"

text \<open>A transaction that registers a provider the repository does not know.\<close>

definition registers :: "64 word \<Rightarrow> string list \<Rightarrow> Transaction \<Rightarrow> string \<Rightarrow> bool" where
  "registers lastLT known tx pk \<longleftrightarrow>
     lastLT < tx_LT tx \<and> message_pubkey (tx_Message tx) = Some pk \<and> pk \<notin> ToLower ` set known \<and> (\<exists>b. hex_DecodeString pk = Inr b)"

definition registration :: "Transaction \<Rightarrow> string \<Rightarrow> provider_create" where
  "registration tx pk = \<lparr>pc_Pubkey = pk, pc_Address = tx_From tx, pc_RegisteredAt = tx_CreatedAt tx\<rparr>"

lemma message_pubkey_length: "message_pubkey m = Some pk \<Longrightarrow> length pk = 64"
  by (auto simp: message_pubkey_def Let_def split: option.splits if_splits)

lemma collect_tx_eq:
  "collect_tx l (build_map ToLower (\<lambda>_. ()) p []) tx (uniq, big) =
     ((case message_pubkey (tx_Message tx) of
         Some pk \<Rightarrow> if registers l p tx pk then AList.update pk (registration tx pk) uniq else uniq
       | None \<Rightarrow> uniq),
      if l < tx_LT tx \<and> big < tx_LT tx then tx_LT tx else big)"
proof -
  have "map_of (build_map ToLower (\<lambda>_. ()) p []) pk \<noteq> None \<longleftrightarrow> pk \<in> ToLower ` set p" for pk
    using dom_build_map [of ToLower "\<lambda>_. ()" p "[]"] by (auto simp: domIff)
  then have known: "map_of (build_map ToLower (\<lambda>_. ()) p []) pk = (if pk \<in> ToLower ` set p then Some () else None)" for pk
    by (metis old.unit.exhaust option.exhaust)
  have len: "hex_DecodeString pk = Inr b \<Longrightarrow> message_pubkey (tx_Message tx) = Some pk \<Longrightarrow> length b = 32" for pk b
    using length_hex_DecodeString [of pk b] message_pubkey_length [of "tx_Message tx" pk] by simp
  show ?thesis
    by (auto simp: collect_tx_def Let_def registers_def registration_def known len split: option.splits sum.splits)
qed

definition collected :: "64 word \<Rightarrow> string list \<Rightarrow> Transaction list \<Rightarrow> provider_create go_map \<times> 64 word" where
  "collected l p txs = fold (collect_tx l (build_map ToLower (\<lambda>_. ()) p [])) txs ([], l)"

lemma collected_snoc: "collected l p (txs @ [tx]) = collect_tx l (build_map ToLower (\<lambda>_. ()) p []) tx (collected l p txs)"
  by (simp add: collected_def)

lemma registers_unique: "registers l p tx pk \<Longrightarrow> registers l p tx k \<longleftrightarrow> k = pk"
  by (auto simp: registers_def)

lemma collected_cases [case_names registered other]:
  assumes "\<And>pk. registers l p tx pk \<Longrightarrow> fst (collected l p (txs @ [tx])) = AList.update pk (registration tx pk) (fst (collected l p txs)) \<Longrightarrow> P"
    and "\<not> (\<exists>pk. registers l p tx pk) \<Longrightarrow> fst (collected l p (txs @ [tx])) = fst (collected l p txs) \<Longrightarrow> P"
  shows P
proof -
  obtain uniq big where c: "collected l p txs = (uniq, big)" by fastforce
  show P
  proof (cases "\<exists>pk. registers l p tx pk")
    case True
    then obtain pk where "registers l p tx pk" "message_pubkey (tx_Message tx) = Some pk" by (auto simp: registers_def)
    then show P using assms(1) [of pk] by (simp add: collected_snoc c collect_tx_eq)
  next
    case False
    then show P using assms(2) by (auto simp: collected_snoc c collect_tx_eq split: option.splits)
  qed
qed

lemma collected_wf: "go_wf (fst (collected l p txs))"
proof (induction txs rule: rev_induct)
  case (snoc tx txs)
  show ?case by (rule collected_cases [of l p tx txs]) (simp_all add: snoc)
qed (simp add: collected_def)

lemma collected_dom: "dom (map_of (fst (collected l p txs))) = {pk. \<exists>tx \<in> set txs. registers l p tx pk}"
proof (induction txs rule: rev_induct)
  case (snoc tx txs)
  show ?case
  proof (cases rule: collected_cases [of l p tx txs])
    case (registered pk)
    then have "dom (map_of (fst (collected l p (txs @ [tx])))) = insert pk {pk. \<exists>tx \<in> set txs. registers l p tx pk}"
      by (simp add: snoc)
    then show ?thesis using registered(1) by (auto simp: registers_unique)
  next
    case other
    then show ?thesis using snoc by auto
  qed
qed (simp add: collected_def)

lemma collected_row:
  "map_of (fst (collected l p txs)) pk = Some row \<Longrightarrow> \<exists>tx \<in> set txs. registers l p tx pk \<and> row = registration tx pk"
proof (induction txs rule: rev_induct)
  case (snoc tx txs)
  show ?case
  proof (cases rule: collected_cases [of l p tx txs])
    case (registered k)
    then show ?thesis using snoc by (cases "k = pk") auto
  next
    case other
    then show ?thesis using snoc by auto
  qed
qed (simp add: collected_def)

lemma collected_LT:
  "l \<le> snd (collected l p txs) \<and> (\<forall>tx \<in> set txs. tx_LT tx \<le> snd (collected l p txs)) \<and>
   (snd (collected l p txs) = l \<or> snd (collected l p txs) \<in> tx_LT ` set txs)"
proof (induction txs rule: rev_induct)
  case (snoc tx txs)
  obtain uniq big where c: "collected l p txs = (uniq, big)" by fastforce
  then have "snd (collected l p (txs @ [tx])) = (if l < tx_LT tx \<and> big < tx_LT tx then tx_LT tx else big)"
    by (simp add: collected_snoc collect_tx_eq)
  then show ?case using snoc c by (auto intro: order.trans less_imp_le)
qed (simp add: collected_def)

lemma map_filter_keys:
  assumes "order_ok ord" "go_wf m"
  shows "set (List.map_filter (map_of m) (range_keys ord m)) = ran (map_of m)"
    and "(\<And>k v. map_of m k = Some v \<Longrightarrow> key v = k) \<Longrightarrow>
      map key (List.map_filter (map_of m) (range_keys ord m)) = range_keys ord m"
proof -
  have all: "\<forall>k \<in> set (range_keys ord m). \<exists>v. map_of m k = Some v" using set_range_keys [OF assms(1), of m] by auto
  then have mf: "List.map_filter (map_of m) (range_keys ord m) = map (the \<circ> map_of m) (range_keys ord m)"
    by (induction "range_keys ord m") (auto simp: List.map_filter_def intro!: filter_True)
  show "set (List.map_filter (map_of m) (range_keys ord m)) = ran (map_of m)"
    unfolding mf using set_range_keys [OF assms(1), of m] by (force simp: ran_def dom_def image_iff)
  show "map key (List.map_filter (map_of m) (range_keys ord m)) = range_keys ord m"
    if "\<And>k v. map_of m k = Some v \<Longrightarrow> key v = k"
    unfolding mf using all that by (auto intro!: map_idI)
qed

lemma dom_empty_iff: "dom (map_of m) = {} \<longleftrightarrow> m = []"
  by (simp add: dom_map_of_conv_image_fst)

lemma CollectNewProviders_run:
  fixes repo :: "'s collect_repo"
  assumes "cr_GetParam repo lastLTKey db = Inr lv" "cr_GetAllProvidersPubkeys repo db = Inr p" "order_ok ord"
  defines "l \<equiv> word_of_int (fst (ParseInt64 lv))"
  assumes "getTx masterAddr l = Inr txs"
  shows "\<exists>rows lt. distinct (map pc_Pubkey rows) \<and> pc_Pubkey ` set rows = {pk. \<exists>tx \<in> set txs. registers l p tx pk} \<and>
    (\<forall>row \<in> set rows. \<exists>tx \<in> set txs. registers l p tx (pc_Pubkey row) \<and> row = registration tx (pc_Pubkey row)) \<and>
    l \<le> lt \<and> (\<forall>tx \<in> set txs. tx_LT tx \<le> lt) \<and> (lt = l \<or> lt \<in> tx_LT ` set txs) \<and>
    CollectNewProviders repo getTx masterAddr ord db =
      (if rows = [] then ((minutes 1, None), db)
       else case cr_AddProviders repo rows (snd (cr_SetParam repo lastLTKey (FormatUint lt) db)) of
              (err, db') \<Rightarrow> ((if err = None then minutes 1 else seconds 5, err), db'))"
proof -
  obtain uniq lt where c: "collected l p txs = (uniq, lt)" by fastforce
  let ?rows = "List.map_filter (map_of uniq) (range_keys ord uniq)"
  have wf: "go_wf uniq" using collected_wf [of l p txs] c by simp
  have row: "\<exists>tx \<in> set txs. registers l p tx pk \<and> r = registration tx pk" if "map_of uniq pk = Some r" for pk r
    using collected_row [of l p txs pk r] c that by simp
  then have key: "map_of uniq pk = Some r \<Longrightarrow> pc_Pubkey r = pk" for pk r by (fastforce simp: registration_def)
  have keys: "map pc_Pubkey ?rows = range_keys ord uniq" by (rule map_filter_keys(2) [OF assms(3) wf key])
  have dom: "dom (map_of uniq) = {pk. \<exists>tx \<in> set txs. registers l p tx pk}" using collected_dom [of l p txs] c by simp
  have empty: "?rows = [] \<longleftrightarrow> uniq = []"
    using dom_empty_iff [of uniq] set_range_keys [OF assms(3), of uniq] keys by (metis map_is_Nil_conv set_empty)
  have big: "l < lt" if "uniq \<noteq> []"
  proof -
    have "dom (map_of uniq) \<noteq> {}" using that by (simp add: dom_empty_iff)
    then obtain tx where "tx \<in> set txs" "l < tx_LT tx" using dom by (auto simp: registers_def)
    then show ?thesis using collected_LT [of l p txs] c by (auto intro: less_le_trans)
  qed
  have "CollectNewProviders repo getTx masterAddr ord db =
      (if uniq = [] then ((minutes 1, None), db)
       else case cr_AddProviders repo ?rows (snd (cr_SetParam repo lastLTKey (FormatUint lt) db)) of
              (err, db') \<Rightarrow> ((if err = None then minutes 1 else seconds 5, err), db'))"
    using assms(1,2,5) big c [unfolded collected_def]
    by (auto simp: CollectNewProviders_def l_def [symmetric] Let_def split: prod.splits option.splits)
  moreover have "distinct (map pc_Pubkey ?rows)" unfolding keys by (rule distinct_range_keys [OF assms(3) wf])
  moreover have "pc_Pubkey ` set ?rows = {pk. \<exists>tx \<in> set txs. registers l p tx pk}"
    using arg_cong [OF keys, of set] by (simp add: set_range_keys [OF assms(3)] dom)
  moreover have "\<exists>tx \<in> set txs. registers l p tx (pc_Pubkey r) \<and> r = registration tx (pc_Pubkey r)" if "r \<in> set ?rows" for r
    using that row key by (auto simp: map_filter_keys(1) [OF assms(3) wf] ran_def)
  ultimately show ?thesis using collected_LT [of l p txs] c empty by (intro exI [of _ ?rows] exI [of _ lt]) auto
qed

lemma parsed_LT: "parsed t = Some tx \<Longrightarrow> tx_LT tx = tlb_LT t"
  by (auto simp: parsed_def parseTx_def Let_def split: option.splits tlb_message.splits outcome.splits)

lemma set_map_filter: "set (List.map_filter f xs) = {y. \<exists>x \<in> set xs. f x = Some y}"
  by (force simp: List.map_filter_def)

text \<open>
  C16.  Discovery is complete: with a lite server that serves a linked history, one run hands the repository
  exactly the keys that some transaction of that history newer than the stored logical time registers and that
  are not known, each once and with the wallet and time of such a transaction.  It writes nothing if there is
  none; otherwise it first stores a logical time that covers the whole history.
\<close>

theorem collect_from_chain:
  fixes repo :: "'s collect_repo"
  assumes "cr_GetParam repo lastLTKey db = Inr lv" "cr_GetAllProvidersPubkeys repo db = Inr p" "order_ok ord"
  defines "l \<equiv> word_of_int (fst (ParseInt64 lv))"
  assumes "api_ParseAddr api masterAddr = Inr (Some a)" "api_GetMasterchainInfo api = Inr block"
    and "api_GetAccount api block a = Inr (tlb_LT (hd hist), h)"
    and "linked hist" "hist \<noteq> []" "\<forall>n lt h. api_ListTransactions api a n lt h = serve e hist lt"
    and "list_all (\<lambda>t. tlb_In t \<noteq> None) hist"
    and "\<forall>r. GetTransactions api masterAddr l = Some (Returns r) \<longrightarrow> getTx masterAddr l = r"
  shows "\<exists>rows lt. distinct (map pc_Pubkey rows) \<and>
    pc_Pubkey ` set rows = {pk. \<exists>t \<in> set hist. \<exists>tx. parsed t = Some tx \<and> registers l p tx pk} \<and>
    (\<forall>row \<in> set rows. \<exists>t \<in> set hist. \<exists>tx. parsed t = Some tx \<and> registers l p tx (pc_Pubkey row) \<and>
        row = registration tx (pc_Pubkey row)) \<and>
    (\<forall>t \<in> set hist. \<forall>tx. parsed t = Some tx \<longrightarrow> tx_LT tx \<le> lt) \<and>
    CollectNewProviders repo getTx masterAddr ord db =
      (if rows = [] then ((minutes 1, None), db)
       else case cr_AddProviders repo rows (snd (cr_SetParam repo lastLTKey (FormatUint lt) db)) of
              (err, db') \<Rightarrow> ((if err = None then minutes 1 else seconds 5, err), db'))"
proof -
  obtain txs where txs: "GetTransactions api masterAddr l = Some (Returns (Inr txs))"
    "mset txs = mset (List.map_filter parsed (unprocessed l hist))"
    using GetTransactions_run [OF assms(5-11)] by blast
  have get: "getTx masterAddr l = Inr txs" using assms(12) txs(1) by blast
  have mem: "tx \<in> set txs \<longleftrightarrow> (\<exists>t \<in> set (unprocessed l hist). parsed t = Some tx)" for tx
    using mset_eq_setD [OF txs(2)] by (auto simp: set_map_filter)
  have newer: "t \<in> set (unprocessed l hist) \<longleftrightarrow> t \<in> set hist" if "registers l p tx pk" "parsed t = Some tx" for t tx pk
    using that unprocessed_newer [OF assms(8), of t l] parsed_LT [OF that(2)] by (auto simp: registers_def)
  have reg: "(\<exists>tx \<in> set txs. registers l p tx pk \<and> Q tx) \<longleftrightarrow>
      (\<exists>t \<in> set hist. \<exists>tx. parsed t = Some tx \<and> registers l p tx pk \<and> Q tx)" for pk Q
    using newer mem by blast
  obtain rows lt where rows: "distinct (map pc_Pubkey rows)" "pc_Pubkey ` set rows = {pk. \<exists>tx \<in> set txs. registers l p tx pk}"
    "\<forall>row \<in> set rows. \<exists>tx \<in> set txs. registers l p tx (pc_Pubkey row) \<and> row = registration tx (pc_Pubkey row)"
    and lt: "l \<le> lt" "\<forall>tx \<in> set txs. tx_LT tx \<le> lt"
    and run: "CollectNewProviders repo getTx masterAddr ord db =
      (if rows = [] then ((minutes 1, None), db)
       else case cr_AddProviders repo rows (snd (cr_SetParam repo lastLTKey (FormatUint lt) db)) of
              (err, db') \<Rightarrow> ((if err = None then minutes 1 else seconds 5, err), db'))"
    using CollectNewProviders_run [OF assms(1,2,3), of getTx masterAddr txs, folded l_def, OF get] by blast
  have "tx_LT tx \<le> lt" if "t \<in> set hist" "parsed t = Some tx" for t tx
  proof (cases "l < tlb_LT t")
    case True
    then have "tx \<in> set txs" using mem that unprocessed_newer [OF assms(8), of t l] by blast
    then show ?thesis using lt by simp
  next
    case False
    then show ?thesis using lt(1) parsed_LT [OF that(2)] by simp
  qed
  then show ?thesis using rows run reg [of _ "\<lambda>_. True"] by (intro exI [of _ rows] exI [of _ lt]) (simp add: reg)
qed

definition sample_key :: string where "sample_key = replicate 64 CHR ''a''"

definition sample_registration :: tlb_transaction where
  "sample_registration = \<lparr>tlb_Hash = [], tlb_LT = 9, tlb_PrevTxLT = 0, tlb_PrevTxHash = [],
     tlb_In = Some (MsgInternal (Some \<lparr>im_SrcAddr = ''EQw'', im_DstAddr = ''EQm'', im_CreatedAt = 7,
       im_Payload = Some (Some (''tsp-'' @ sample_key), Some 0)\<rparr>))\<rparr>"

definition sample_chain :: "(unit, unit) ton_api" where
  "sample_chain = \<lparr>api_ParseAddr = \<lambda>_. Inr (Some ()), api_GetMasterchainInfo = Inr (),
     api_GetAccount = \<lambda>_ _. Inr (9, []), api_ListTransactions = \<lambda>_ _ lt _. serve (ErrText ''none'') [sample_registration] lt\<rparr>"

definition sample_getTx :: "string \<Rightarrow> 64 word \<Rightarrow> go_error + Transaction list" where
  "sample_getTx addr lt = (case GetTransactions sample_chain addr lt of Some (Returns r) \<Rightarrow> r | _ \<Rightarrow> Inl ErrCanceled)"

text \<open>A repository of one parameter and the known keys.\<close>

definition sample_repo :: "(string \<times> string list) collect_repo" where
  "sample_repo = \<lparr>cr_GetParam = \<lambda>_ db. Inr (fst db), cr_SetParam = \<lambda>_ v db. (None, (v, snd db)),
     cr_GetAllProvidersPubkeys = \<lambda>db. Inr (snd db),
     cr_AddProviders = \<lambda>rows db. (None, (fst db, snd db @ map pc_Pubkey rows))\<rparr>"

lemma sample_key_ok: "message_pubkey (''tsp-'' @ sample_key) = Some sample_key" "\<exists>b. hex_DecodeString sample_key = Inr b"
proof -
  show "message_pubkey (''tsp-'' @ sample_key) = Some sample_key"
    by (simp add: message_pubkey_def msg_prefix_def str_Index.simps sample_key_def ToLower_def lower_char_def)
  have "hex_DecodeString (replicate (2 * n) CHR ''a'') = Inr (replicate n 170)" for n
    by (induction n) (simp_all add: hex_value_def)
  from this [of 32] show "\<exists>b. hex_DecodeString sample_key = Inr b" by (auto simp: sample_key_def)
qed

theorem collect_from_chain_witness:
  "\<exists>db. CollectNewProviders sample_repo sample_getTx ''EQm'' rev (''3'', []) = ((minutes 1, None), db) \<and> set (snd db) = {sample_key}"
proof -
  have "FormatUint 3 = ''3''" by (simp add: FormatUint_def nat_Itoa.simps)
  then have l: "fst (ParseInt64 ''3'') = 3" using ParseInt64_FormatUint [of 3] by simp
  have p: "parsed sample_registration = Some tx \<longleftrightarrow>
      tx = \<lparr>tx_Hash = [], tx_LT = 9, tx_Op = 0, tx_From = ''EQw'', tx_To = ''EQm'', tx_Message = ''tsp-'' @ sample_key, tx_CreatedAt = 7000000000\<rparr>" for tx
    by (auto simp: parsed_def parseTx_def sample_registration_def)
  let ?l = "word_of_int (fst (ParseInt64 ''3'')) :: 64 word"
  have keys: "{pk. \<exists>t \<in> set [sample_registration]. \<exists>tx. parsed t = Some tx \<and> registers ?l [] tx pk} = {sample_key}"
    using sample_key_ok by (auto simp: p registers_def l)
  have "cr_GetParam sample_repo lastLTKey (''3'', []) = Inr ''3''" "cr_GetAllProvidersPubkeys sample_repo (''3'', []) = Inr []"
    by (simp_all add: sample_repo_def)
  moreover have "api_ParseAddr sample_chain ''EQm'' = Inr (Some ())" "api_GetMasterchainInfo sample_chain = Inr ()"
    "api_GetAccount sample_chain () () = Inr (tlb_LT (hd [sample_registration]), [])" "linked [sample_registration]"
    "[sample_registration] \<noteq> []"
    "\<forall>n lt h. api_ListTransactions sample_chain () n lt h = serve (ErrText ''none'') [sample_registration] lt"
    "list_all (\<lambda>t. tlb_In t \<noteq> None) [sample_registration]"
    "\<forall>r. GetTransactions sample_chain ''EQm'' ?l = Some (Returns r) \<longrightarrow> sample_getTx ''EQm'' ?l = r"
    by (simp_all add: sample_chain_def sample_registration_def sample_getTx_def)
  ultimately obtain rows lt where rows: "pc_Pubkey ` set rows = {sample_key}"
    and run: "CollectNewProviders sample_repo sample_getTx ''EQm'' rev (''3'', []) =
      (if rows = [] then ((minutes 1, None), (''3'', []))
       else case cr_AddProviders sample_repo rows (snd (cr_SetParam sample_repo lastLTKey (FormatUint lt) (''3'', []))) of
              (err, db') \<Rightarrow> ((if err = None then minutes 1 else seconds 5, err), db'))"
    using collect_from_chain [of sample_repo "(''3'', [])" "''3''" "[]" rev sample_chain "''EQm''" "()" "()" "[sample_registration]"
        "[]" "ErrText ''none''" sample_getTx, unfolded keys, OF _ _ order_ok_rev] by blast
  from rows have "rows \<noteq> []" by auto
  then show ?thesis using rows run by (simp add: sample_repo_def)
qed

section \<open>Rates and status of known providers\<close>

record 's status_repo =
  st_GetAllProvidersPubkeys :: "'s \<Rightarrow> go_error + string list"
  st_AddStatuses :: "provider_status_update list \<Rightarrow> 's \<Rightarrow> go_error option \<times> 's"
  st_UpdateProviders :: "provider_update list \<Rightarrow> 's \<Rightarrow> go_error option \<times> 's"

text \<open>\<^verbatim>\<open>new(big.Int).SetBytes(b)\<close> reads big-endian; \<^verbatim>\<open>Int64\<close> keeps the low 64 bits.\<close>

definition big_SetBytes :: "bytes \<Rightarrow> nat" where
  "big_SetBytes b = fold (\<lambda>d n. 256 * n + unat d) b 0"

definition big_Int64 :: "nat \<Rightarrow> int" where
  "big_Int64 n = sint (word_of_nat n :: 64 word)"

definition known_status :: "storage_rates_result go_map \<Rightarrow> string \<Rightarrow> provider_status_update" where
  "known_status merged pubkey =
     (case map_of merged pubkey of
        None \<Rightarrow> \<lparr>psu_Pubkey = pubkey, psu_IsOnline = False\<rparr>
      | Some rates \<Rightarrow>
         if \<not> sr_Ok rates then \<lparr>psu_Pubkey = pubkey, psu_IsOnline = False\<rparr>
         else \<lparr>psu_Pubkey = pubkey, psu_IsOnline = True\<rparr>)"

definition known_update :: "storage_rates_result go_map \<Rightarrow> string \<Rightarrow> provider_update option" where
  "known_update merged pubkey =
     (case map_of merged pubkey of
        None \<Rightarrow> None
      | Some rates \<Rightarrow>
         if \<not> sr_Ok rates then None
         else Some \<lparr>pu_Pubkey = pubkey, pu_RatePerMBDay = big_Int64 (big_SetBytes (sr_RatePerMbDay rates)),
                     pu_MinBounty = big_Int64 (big_SetBytes (sr_MinBounty rates)),
                     pu_MinSpan = sr_MinSpan rates, pu_MaxSpan = sr_MaxSpan rates\<rparr>)"

text \<open>\<open>nowUnix\<close> is the clock in seconds.\<close>

definition UpdateKnownProviders ::
  "'s status_repo \<Rightarrow> (storage_rates_request, storage_rates_response option) agent_call \<Rightarrow> (string list \<Rightarrow> string list) \<Rightarrow>
   agent_client option \<Rightarrow> run_checks_timeouts \<Rightarrow> int \<Rightarrow> 's \<Rightarrow> step_result \<times> 's" where
  "UpdateKnownProviders repo call perm cl timeouts nowUnix db =
     (case st_GetAllProvidersPubkeys repo db of
        Inl err \<Rightarrow> ((seconds 5, Some err), db)
      | Inr p \<Rightarrow>
         if p = [] then ((minutes 1, None), db)
         else if AgentCount cl = 0 then ((seconds 5, None), db)
         else
          (let req = \<lparr>rr_JobId = ''update-known-providers-'' @ Itoa nowUnix, rr_ProviderPubkeys = p, rr_QuerySize = fakeSize,
                      rr_Timeouts = Some \<lparr>rt_QueryTimeoutMs = rct_StorageRatesQueryMs timeouts, rt_TotalMs = 0\<rparr>\<rparr>;
               responses = fst (RunStorageRatesAll call perm cl req)
           in if responses = [] then ((seconds 5, None), db)
              else
               (let merged = mergeStorageRatesResponses p responses
                in case st_AddStatuses repo (map (known_status merged) p) db of
                     (Some err, db) \<Rightarrow> ((seconds 5, Some err), db)
                   | (None, db) \<Rightarrow>
                      (case st_UpdateProviders repo (List.map_filter (known_update merged) p) db of
                         (Some err, db) \<Rightarrow> ((seconds 5, Some err), db)
                       | (None, db) \<Rightarrow> ((minutes 1, None), db)))))"

lemma set_collect_calls: "set (fst (collect_calls run xs)) = {r. \<exists>a \<in> set xs. run a = Inr r}"
  by (induction xs) (auto simp: Let_def split: prod.splits sum.splits)

lemma sum_case_Inr: "(case x of Inl e \<Rightarrow> Inl e | Inr v \<Rightarrow> Inr (f v)) = Inr y \<longleftrightarrow> (\<exists>v. x = Inr v \<and> y = f v)"
  by (cases x) auto

definition rates_request :: "string list \<Rightarrow> run_checks_timeouts \<Rightarrow> int \<Rightarrow> storage_rates_request" where
  "rates_request p timeouts nowUnix =
     \<lparr>rr_JobId = ''update-known-providers-'' @ Itoa nowUnix, rr_ProviderPubkeys = p, rr_QuerySize = fakeSize,
      rr_Timeouts = Some \<lparr>rt_QueryTimeoutMs = rct_StorageRatesQueryMs timeouts, rt_TotalMs = 0\<rparr>\<rparr>"

text \<open>Agent \<open>a\<close> answered the request and reported rates for \<open>pk\<close>, in row \<open>r\<close>.\<close>

definition reports_row ::
  "(storage_rates_request, storage_rates_response option) agent_call \<Rightarrow> agent_client \<Rightarrow> storage_rates_request \<Rightarrow> string \<Rightarrow> string \<Rightarrow>
     storage_rates_result \<Rightarrow> bool" where
  "reports_row call c req pk a r \<longleftrightarrow>
     (\<exists>resp. call a (auth_header c) (call_timeout c) req = Inr (Some resp) \<and> Some r \<in> set (rrs_Results resp) \<and>
        TrimSpace (sr_ProviderPubkey r) = pk \<and> sr_Ok r)"

definition reports_rates ::
  "(storage_rates_request, storage_rates_response option) agent_call \<Rightarrow> agent_client \<Rightarrow> storage_rates_request \<Rightarrow> string \<Rightarrow> string \<Rightarrow> bool" where
  "reports_rates call c req pk a \<longleftrightarrow> (\<exists>r. reports_row call c req pk a r)"

text \<open>The number that bytes stand for, the most significant first.\<close>

definition be_value :: "bytes \<Rightarrow> nat" where
  "be_value b = (\<Sum>i < length b. unat (rev b ! i) * 256 ^ i)"

lemma big_SetBytes_value: "big_SetBytes b = be_value b"
proof (induction b rule: rev_induct)
  case (snoc d b)
  have "be_value (b @ [d]) = unat d + (\<Sum>i < length b. unat (rev b ! i) * (256 * 256 ^ i))"
    by (simp add: be_value_def sum.lessThan_Suc_shift del: sum.lessThan_Suc)
  also have "\<dots> = 256 * be_value b + unat d" by (simp add: be_value_def sum_distrib_left mult.left_commute)
  finally show ?case using snoc by (simp add: big_SetBytes_def)
qed (simp add: big_SetBytes_def be_value_def)

lemma rates_row_reported:
  assumes "mset (perm (ac_agents c)) = mset (ac_agents c)"
  shows "(r \<in> set (rates_rows (fst (RunStorageRatesAll call perm (Some c) req))) \<and> TrimSpace (sr_ProviderPubkey r) = pk \<and> sr_Ok r) \<longleftrightarrow>
    (\<exists>a \<in> set (ac_agents c). reports_row call c req pk a r)"
proof (cases "ac_agents c = []")
  case True
  then show ?thesis by (simp add: RunStorageRatesAll_def rates_rows_def)
next
  case False
  have "set (fst (RunStorageRatesAll call perm (Some c) req)) =
      {(a, resp). a \<in> set (ac_agents c) \<and> call a (auth_header c) (call_timeout c) req = Inr resp}"
    using False mset_eq_setD [OF assms] by (auto simp: RunStorageRatesAll_def set_collect_calls sum_case_Inr)
  then show ?thesis by (force simp: rates_rows_def reports_row_def nil_or_def split: option.splits)
qed

lemma rates_rows_reported:
  assumes "mset (perm (ac_agents c)) = mset (ac_agents c)"
  shows "(\<exists>r \<in> set (rates_rows (fst (RunStorageRatesAll call perm (Some c) req))). TrimSpace (sr_ProviderPubkey r) = pk \<and> sr_Ok r) \<longleftrightarrow>
    (\<exists>a \<in> set (ac_agents c). reports_rates call c req pk a)"
  using rates_row_reported [of perm c, OF assms, of _ call req pk] unfolding reports_rates_def by blast

lemma known_status_online:
  assumes "pk \<noteq> []" "pk \<in> set p"
  shows "psu_IsOnline (known_status (mergeStorageRatesResponses p responses) pk) \<longleftrightarrow>
      (\<exists>r \<in> set (rates_rows responses). TrimSpace (sr_ProviderPubkey r) = pk \<and> sr_Ok r)"
proof -
  have "psu_IsOnline (known_status m pk) \<longleftrightarrow> (\<exists>row. map_of m pk = Some row \<and> sr_Ok row)" for m
    by (auto simp: known_status_def split: option.splits)
  then show ?thesis using conjunct2 [OF rates_ok_wins [OF assms(1), of p responses]] assms(2) by simp
qed

lemma known_update_keys:
  "map pu_Pubkey (List.map_filter (known_update m) p) = map psu_Pubkey (filter psu_IsOnline (map (known_status m) p))"
  by (induction p) (auto simp: known_update_def known_status_def List.map_filter_simps split: option.splits)

lemma known_update_row:
  assumes "u \<in> set (List.map_filter (known_update (mergeStorageRatesResponses p responses)) p)" "[] \<notin> set p"
  shows "\<exists>r \<in> set (rates_rows responses). TrimSpace (sr_ProviderPubkey r) = pu_Pubkey u \<and> sr_Ok r \<and>
    u = \<lparr>pu_Pubkey = pu_Pubkey u, pu_RatePerMBDay = big_Int64 (big_SetBytes (sr_RatePerMbDay r)),
         pu_MinBounty = big_Int64 (big_SetBytes (sr_MinBounty r)), pu_MinSpan = sr_MinSpan r, pu_MaxSpan = sr_MaxSpan r\<rparr>"
proof -
  obtain pk where pk: "pk \<in> set p" "known_update (mergeStorageRatesResponses p responses) pk = Some u"
    using assms(1) by (auto simp: set_map_filter)
  then have "pk \<noteq> []" using assms(2) by auto
  obtain r where r: "map_of (mergeStorageRatesResponses p responses) pk = Some r" "sr_Ok r"
    and u: "u = \<lparr>pu_Pubkey = pk, pu_RatePerMBDay = big_Int64 (big_SetBytes (sr_RatePerMbDay r)),
         pu_MinBounty = big_Int64 (big_SetBytes (sr_MinBounty r)), pu_MinSpan = sr_MinSpan r, pu_MaxSpan = sr_MaxSpan r\<rparr>"
    using pk(2) by (auto simp: known_update_def split: option.splits if_splits)
  have "first_best sr_Ok (filter (\<lambda>r. TrimSpace (sr_ProviderPubkey r) = pk) (rates_rows responses)) = Some r"
    using conjunct1 [OF rates_ok_wins [OF \<open>pk \<noteq> []\<close>, of p responses]] r(1) pk(1) by simp
  from first_best_cases(2) [OF this] show ?thesis using r(2) u by auto
qed

text \<open>
  C18.  A run of \<^verbatim>\<open>UpdateKnownProviders\<close> that succeeds stores exactly one status per known provider, in order,
  and calls it online exactly when some configured agent answered and reported its rates.  It updates the
  online ones and no other, each with the rate, bounty and spans of one row that such an agent reported for it: rate and bounty are
  the big-endian numbers of the row, reduced to 64 bits.
\<close>

theorem known_providers_statuses:
  assumes "st_GetAllProvidersPubkeys repo db = Inr p" "p \<noteq> []" "[] \<notin> set p"
    and "mset (perm (ac_agents c)) = mset (ac_agents c)"
    and "UpdateKnownProviders repo call perm (Some c) timeouts nowUnix db = ((minutes 1, None), db')"
  shows "\<exists>statuses updates db1. st_AddStatuses repo statuses db = (None, db1) \<and> st_UpdateProviders repo updates db1 = (None, db') \<and>
    map psu_Pubkey statuses = p \<and> map pu_Pubkey updates = map psu_Pubkey (filter psu_IsOnline statuses) \<and>
    (\<forall>s \<in> set statuses. psu_IsOnline s \<longleftrightarrow>
       (\<exists>a \<in> set (ac_agents c). reports_rates call c (rates_request p timeouts nowUnix) (psu_Pubkey s) a)) \<and>
    (\<forall>u \<in> set updates. \<exists>a \<in> set (ac_agents c). \<exists>r. reports_row call c (rates_request p timeouts nowUnix) (pu_Pubkey u) a r \<and>
       pu_RatePerMBDay u = sint (word_of_nat (be_value (sr_RatePerMbDay r)) :: 64 word) \<and>
       pu_MinBounty u = sint (word_of_nat (be_value (sr_MinBounty r)) :: 64 word) \<and>
       pu_MinSpan u = sr_MinSpan r \<and> pu_MaxSpan u = sr_MaxSpan r)"
proof -
  let ?rs = "fst (RunStorageRatesAll call perm (Some c) (rates_request p timeouts nowUnix))"
  let ?m = "mergeStorageRatesResponses p ?rs"
  have "minutes 1 \<noteq> seconds 5" by (simp add: minutes_def seconds_def)
  then obtain db1 where db1: "st_AddStatuses repo (map (known_status ?m) p) db = (None, db1)"
    "st_UpdateProviders repo (List.map_filter (known_update ?m) p) db1 = (None, db')"
    using assms(1,2,5) unfolding UpdateKnownProviders_def rates_request_def [symmetric]
    by (auto simp: Let_def split: if_splits prod.splits option.splits)
  have key: "psu_Pubkey (known_status ?m pk) = pk" for pk by (simp add: known_status_def split: option.splits)
  have "psu_IsOnline (known_status ?m pk) \<longleftrightarrow>
      (\<exists>a \<in> set (ac_agents c). reports_rates call c (rates_request p timeouts nowUnix) pk a)" if "pk \<in> set p" for pk
  proof -
    have "pk \<noteq> []" using that assms(3) by auto
    from known_status_online [OF this that] show ?thesis
      by (rule trans) (rule rates_rows_reported [of perm c, OF assms(4)])
  qed
  then have online: "\<forall>s \<in> set (map (known_status ?m) p). psu_IsOnline s \<longleftrightarrow>
      (\<exists>a \<in> set (ac_agents c). reports_rates call c (rates_request p timeouts nowUnix) (psu_Pubkey s) a)"
    by (simp add: key)
  have rates: "\<exists>a \<in> set (ac_agents c). \<exists>r. reports_row call c (rates_request p timeouts nowUnix) (pu_Pubkey u) a r \<and>
       pu_RatePerMBDay u = sint (word_of_nat (be_value (sr_RatePerMbDay r)) :: 64 word) \<and>
       pu_MinBounty u = sint (word_of_nat (be_value (sr_MinBounty r)) :: 64 word) \<and>
       pu_MinSpan u = sr_MinSpan r \<and> pu_MaxSpan u = sr_MaxSpan r" if upd: "u \<in> set (List.map_filter (known_update ?m) p)" for u
  proof -
    obtain r where r: "r \<in> set (rates_rows ?rs) \<and> TrimSpace (sr_ProviderPubkey r) = pu_Pubkey u \<and> sr_Ok r"
      and u: "u = \<lparr>pu_Pubkey = pu_Pubkey u, pu_RatePerMBDay = big_Int64 (big_SetBytes (sr_RatePerMbDay r)),
         pu_MinBounty = big_Int64 (big_SetBytes (sr_MinBounty r)), pu_MinSpan = sr_MinSpan r, pu_MaxSpan = sr_MaxSpan r\<rparr>"
      using known_update_row [OF upd assms(3)] by blast
    obtain a where "a \<in> set (ac_agents c)" "reports_row call c (rates_request p timeouts nowUnix) (pu_Pubkey u) a r"
      using r unfolding rates_row_reported [of perm c, OF assms(4)] by blast
    then show ?thesis
      by (intro bexI [of _ a] exI [of _ r]) (subst u, simp add: big_Int64_def big_SetBytes_value)+
  qed
  have "map psu_Pubkey (map (known_status ?m) p) = p" using key by (simp add: comp_def)
  then show ?thesis using db1 known_update_keys [of ?m p] online rates
    by (intro exI [of _ "map (known_status ?m) p"] exI [of _ "List.map_filter (known_update ?m) p"] exI [of _ db1] conjI ballI) blast+
qed

definition status_repo0 :: "(provider_status_update list \<times> provider_update list) status_repo" where
  "status_repo0 = \<lparr>st_GetAllProvidersPubkeys = \<lambda>_. Inr [''k'', ''m''], st_AddStatuses = \<lambda>xs db. (None, (xs, snd db)),
     st_UpdateProviders = \<lambda>xs db. (None, (fst db, xs))\<rparr>"

definition rates_agent :: "(storage_rates_request, storage_rates_response option) agent_call" where
  "rates_agent a auth timeout req = (if a = ''down'' then Inl ErrCanceled else Inr (snd (sample_rates_response [sample_rates True])))"

definition two_agents :: agent_client where
  "two_agents = \<lparr>ac_agents = [''down'', ''up''], ac_authToken = ''t'', ac_requestTimeout = 5\<rparr>"

theorem known_providers_statuses_witness:
  "\<exists>db. UpdateKnownProviders status_repo0 rates_agent rev (Some two_agents)
      \<lparr>rct_PingMs = 1, rct_RldpMs = 1, rct_TotalMs = 1, rct_StorageRatesQueryMs = 1\<rparr> 0 ([], []) = ((minutes 1, None), db) \<and>
    map psu_Pubkey (fst db) = [''k'', ''m''] \<and> map pu_Pubkey (snd db) = map psu_Pubkey (filter psu_IsOnline (fst db)) \<and>
    (\<forall>u \<in> set (snd db). pu_MinSpan u = 1 \<and> pu_MaxSpan u = 2)"
proof -
  let ?t = "\<lparr>rct_PingMs = 1, rct_RldpMs = 1, rct_TotalMs = 1, rct_StorageRatesQueryMs = 1\<rparr>"
  obtain db where db: "UpdateKnownProviders status_repo0 rates_agent rev (Some two_agents) ?t 0 ([], []) = ((minutes 1, None), db)"
    by (simp add: UpdateKnownProviders_def status_repo0_def two_agents_def AgentCount_def nil_or_def RunStorageRatesAll_def
        rates_agent_def Let_def)
  have "sr_MinSpan r = 1 \<and> sr_MaxSpan r = 2" if "reports_row rates_agent two_agents req pk a r" for req pk a r
    using that by (auto simp: reports_row_def rates_agent_def sample_rates_response_def sample_rates_def split: if_splits)
  note spans = this
  have get: "st_GetAllProvidersPubkeys status_repo0 ([], []) = Inr [''k'', ''m'']"
    and ks: "[''k'', ''m''] \<noteq> []" "[] \<notin> set [''k'', ''m'']" by (simp_all add: status_repo0_def)
  obtain statuses updates db1 where st: "st_AddStatuses status_repo0 statuses ([], []) = (None, db1)"
      "st_UpdateProviders status_repo0 updates db1 = (None, db)"
    and keys: "map psu_Pubkey statuses = [''k'', ''m'']" "map pu_Pubkey updates = map psu_Pubkey (filter psu_IsOnline statuses)"
    and row: "\<forall>u \<in> set updates. \<exists>a \<in> set (ac_agents two_agents). \<exists>r.
      reports_row rates_agent two_agents (rates_request [''k'', ''m''] ?t 0) (pu_Pubkey u) a r \<and>
      pu_RatePerMBDay u = sint (word_of_nat (be_value (sr_RatePerMbDay r)) :: 64 word) \<and>
      pu_MinBounty u = sint (word_of_nat (be_value (sr_MinBounty r)) :: 64 word) \<and>
      pu_MinSpan u = sr_MinSpan r \<and> pu_MaxSpan u = sr_MaxSpan r"
    using known_providers_statuses [OF get ks mset_rev db] by (elim exE conjE) (rule that)
  have rows: "\<forall>u \<in> set updates. pu_MinSpan u = 1 \<and> pu_MaxSpan u = 2"
  proof
    fix u assume "u \<in> set updates"
    then obtain a r where "reports_row rates_agent two_agents (rates_request [''k'', ''m''] ?t 0) (pu_Pubkey u) a r"
      "pu_MinSpan u = sr_MinSpan r" "pu_MaxSpan u = sr_MaxSpan r" using row by blast
    then show "pu_MinSpan u = 1 \<and> pu_MaxSpan u = 2" using spans by metis
  qed
  have "db = (statuses, updates)" using st by (auto simp: status_repo0_def)
  then show ?thesis using db keys rows by auto
qed

text \<open>Rates are truncated to 64 bits, which is exact for the values a contract can hold.\<close>

lemma big_Int64_small: "n < 2 ^ 63 \<Longrightarrow> big_Int64 n = int n"
  by (simp add: big_Int64_def signed_of_nat signed_take_bit_int_eq_self)

section \<open>New storage contracts\<close>

record 's wallet_repo =
  wr_GetAllProvidersWallets :: "'s \<Rightarrow> go_error + provider_wallet list"
  wr_UpdateProvidersLT :: "provider_wallet_lt list \<Rightarrow> 's \<Rightarrow> go_error option \<times> 's"
  wr_AddStorageContracts :: "storage_contract list \<Rightarrow> 's \<Rightarrow> go_error option \<times> 's"

text \<open>\<^verbatim>\<open>GetTransactions\<close> never returns nil pointers, so the nil test of the loop is left out.\<close>

definition scan_tx ::
  "string \<Rightarrow> Transaction \<Rightarrow> storage_contract go_map \<times> 64 word \<Rightarrow> storage_contract go_map \<times> 64 word" where
  "scan_tx address tx st =
     (case st of
        (contracts, lastLT) \<Rightarrow>
          if tx_Op tx \<noteq> storageRewardWithdrawalOpCode then (contracts, lastLT)
          else (AList.update (tx_From tx)
                  \<lparr>sc_ProvidersAddresses = [(address, ())], sc_Address = tx_From tx, sc_BagID = [], sc_OwnerAddr = [], sc_Size = 0,
                   sc_ChunkSize = 0, sc_LastLT = tx_LT tx\<rparr> contracts,
                if tx_LT tx > lastLT then tx_LT tx else lastLT))"

definition scanProviderTransactions ::
  "(string \<Rightarrow> 64 word \<Rightarrow> go_error + Transaction list) \<Rightarrow> provider_wallet \<Rightarrow> go_error + storage_contract go_map \<times> 64 word" where
  "scanProviderTransactions getTx provider =
     (case getTx (pw_Address provider) (pw_LT provider) of
        Inl err \<Rightarrow> Inl (ErrWrap ''failed to get transactions error'' err)
      | Inr txs \<Rightarrow> Inr (fold (scan_tx (pw_Address provider)) txs ([], pw_LT provider)))"

definition merge_contract :: "storage_contract go_map \<Rightarrow> string \<Rightarrow> storage_contract go_map \<Rightarrow> storage_contract go_map" where
  "merge_contract sc src storageContracts =
     (case map_of sc src of
        None \<Rightarrow> storageContracts
      | Some tx \<Rightarrow>
         (case map_of storageContracts src of
            Some v \<Rightarrow>
              (let v = v\<lparr>sc_ProvidersAddresses :=
                           fold (\<lambda>p. AList.update p ()) (go_keys (sc_ProvidersAddresses tx)) (sc_ProvidersAddresses v)\<rparr>;
                   v = (if sc_LastLT v < sc_LastLT tx then v\<lparr>sc_LastLT := sc_LastLT tx\<rparr> else v)
               in AList.update src v storageContracts)
          | None \<Rightarrow> AList.update src tx storageContracts))"

text \<open>
  The goroutines share the two collections under two mutexes; \<open>finished\<close> is the order in which they take
  the first, \<open>updated\<close> the order in which they take the second.
\<close>

definition collect_wallet ::
  "(string \<Rightarrow> 64 word \<Rightarrow> go_error + Transaction list) \<Rightarrow> order \<Rightarrow> provider_wallet \<Rightarrow> storage_contract go_map \<Rightarrow>
     storage_contract go_map" where
  "collect_wallet getTx ord provider storageContracts =
     (case scanProviderTransactions getTx provider of
        Inl _ \<Rightarrow> storageContracts
      | Inr (sc, _) \<Rightarrow> fold (merge_contract sc) (range_keys ord sc) storageContracts)"

definition wallet_update ::
  "(string \<Rightarrow> 64 word \<Rightarrow> go_error + Transaction list) \<Rightarrow> provider_wallet \<Rightarrow> provider_wallet_lt option" where
  "wallet_update getTx provider =
     (case scanProviderTransactions getTx provider of
        Inl _ \<Rightarrow> None
      | Inr (_, lastLT) \<Rightarrow>
         if lastLT \<noteq> pw_LT provider then Some \<lparr>pwl_PubKey = pw_PubKey provider, pwl_LT = lastLT\<rparr> else None)"

definition new_contract :: "storage_contract go_map \<Rightarrow> StorageContract \<Rightarrow> storage_contract option" where
  "new_contract storageContracts contract =
     (case map_of storageContracts (stc_Address contract) of
        None \<Rightarrow> None
      | Some sc \<Rightarrow>
         Some \<lparr>sc_ProvidersAddresses = sc_ProvidersAddresses sc, sc_Address = stc_Address contract, sc_BagID = stc_BagID contract,
               sc_OwnerAddr = stc_OwnerAddr contract, sc_Size = stc_Size contract, sc_ChunkSize = stc_ChunkSize contract,
               sc_LastLT = sc_LastLT sc\<rparr>)"

definition CollectProvidersNewStorageContracts ::
  "'s wallet_repo \<Rightarrow> (string \<Rightarrow> 64 word \<Rightarrow> go_error + Transaction list) \<Rightarrow> (string list \<Rightarrow> go_error + StorageContract list) \<Rightarrow>
   order \<Rightarrow> (provider_wallet list \<Rightarrow> provider_wallet list) \<Rightarrow> (provider_wallet list \<Rightarrow> provider_wallet list) \<Rightarrow> 's \<Rightarrow> step_result \<times> 's" where
  "CollectProvidersNewStorageContracts repo getTx getInfo ord finished updated db =
     (case wr_GetAllProvidersWallets repo db of
        Inl err \<Rightarrow> ((seconds 15, Some err), db)
      | Inr providersWallets \<Rightarrow>
         (let storageContracts = fold (collect_wallet getTx ord) (finished providersWallets) [];
              providersToUpdate = List.map_filter (wallet_update getTx) (updated providersWallets)
          in if storageContracts = [] then ((minutes 60, None), db)
             else
              (case getInfo (range_keys ord storageContracts) of
                 Inl err \<Rightarrow> ((seconds 15, Some err), db)
               | Inr contractsInfo \<Rightarrow>
                  (case wr_UpdateProvidersLT repo providersToUpdate db of
                     (Some err, db) \<Rightarrow> ((seconds 15, Some err), db)
                   | (None, db) \<Rightarrow>
                      (case wr_AddStorageContracts repo (List.map_filter (new_contract storageContracts) contractsInfo) db of
                         (Some err, db) \<Rightarrow> ((seconds 15, Some err), db)
                       | (None, db) \<Rightarrow> ((minutes 60, None), db))))))"

text \<open>
  What the goroutines gather about one contract: the wallets whose scan saw it, and the largest of the
  logical times their scans give it.
\<close>

definition saw :: "(string \<Rightarrow> 64 word \<Rightarrow> go_error + Transaction list) \<Rightarrow> string \<Rightarrow> provider_wallet \<Rightarrow> storage_contract option" where
  "saw getTx src w = (case scanProviderTransactions getTx w of Inl _ \<Rightarrow> None | Inr (sc, _) \<Rightarrow> map_of sc src)"

lemma scan_fold_entry:
  assumes "map_of (fst (fold (scan_tx a) txs (m, l))) src = Some sc" "\<And>sc. map_of m src = Some sc \<Longrightarrow> sc_ProvidersAddresses sc = [(a, ())] \<and> sc_Address sc = src"
  shows "sc_ProvidersAddresses sc = [(a, ())] \<and> sc_Address sc = src"
  using assms
proof (induction txs arbitrary: m l)
  case (Cons tx txs)
  obtain m' l' where s: "scan_tx a tx (m, l) = (m', l')" by fastforce
  then have "map_of m' src = Some sc \<Longrightarrow> sc_ProvidersAddresses sc = [(a, ())] \<and> sc_Address sc = src" for sc
    using Cons.prems(2) by (auto simp: scan_tx_def split: if_splits)
  then show ?case using Cons.IH [of m' l'] Cons.prems(1) s by simp
qed simp

lemma saw_scan:
  assumes "saw getTx src w = Some sc"
  obtains txs where "map_of (fst (fold (scan_tx (pw_Address w)) txs ([], pw_LT w))) src = Some sc"
  using assms by (auto simp: saw_def scanProviderTransactions_def split: sum.splits prod.splits dest!: arg_cong [of _ _ fst])

lemma saw_entry:
  assumes "saw getTx src w = Some sc"
  shows "sc_ProvidersAddresses sc = [(pw_Address w, ())] \<and> sc_Address sc = src"
proof -
  from saw_scan [OF assms]
  obtain txs where "map_of (fst (fold (scan_tx (pw_Address w)) txs ([], pw_LT w))) src = Some sc" .
  then show ?thesis by (rule scan_fold_entry) simp
qed

lemma scan_wf: "go_wf m \<Longrightarrow> go_wf (fst (fold (scan_tx a) txs (m, l)))"
proof (induction txs arbitrary: m l)
  case (Cons tx txs)
  obtain m' l' where s: "scan_tx a tx (m, l) = (m', l')" by fastforce
  then have "go_wf m'" using Cons.prems by (auto simp: scan_tx_def split: if_splits)
  then show ?case using Cons.IH [of m' l'] s by simp
qed simp

text \<open>One goroutine adds its wallet to the contracts it saw and raises their logical times.\<close>

definition absorb :: "storage_contract option \<Rightarrow> storage_contract option \<Rightarrow> storage_contract option" where
  "absorb new old =
     (case new of
        None \<Rightarrow> old
      | Some tx \<Rightarrow>
         (case old of
            None \<Rightarrow> Some tx
          | Some v \<Rightarrow>
             Some (v\<lparr>sc_ProvidersAddresses := fold (\<lambda>p. AList.update p ()) (go_keys (sc_ProvidersAddresses tx)) (sc_ProvidersAddresses v),
                     sc_LastLT := max (sc_LastLT v) (sc_LastLT tx)\<rparr>)))"

lemma merge_contract_lookup:
  "map_of (merge_contract sc src m) k = (if k = src then absorb (map_of sc src) (map_of m src) else map_of m k)"
  by (auto simp: merge_contract_def absorb_def Let_def max_def split: option.splits)

lemma merge_contracts_lookup:
  "distinct ks \<Longrightarrow> map_of (fold (merge_contract sc) ks m) k = (if k \<in> set ks then absorb (map_of sc k) (map_of m k) else map_of m k)"
  by (induction ks arbitrary: m) (auto simp: merge_contract_lookup)

lemma collect_wallet_lookup:
  assumes "order_ok ord"
  shows "map_of (collect_wallet getTx ord w m) k = absorb (saw getTx k w) (map_of m k)"
proof (cases "scanProviderTransactions getTx w")
  case (Inr r)
  obtain sc l where r: "r = (sc, l)" by fastforce
  then obtain txs where "fold (scan_tx (pw_Address w)) txs ([], pw_LT w) = (sc, l)"
    using Inr by (auto simp: scanProviderTransactions_def split: sum.splits)
  then have "go_wf sc" using scan_wf [of "[]" "pw_Address w" txs "pw_LT w"] by simp
  note d = distinct_range_keys [OF assms this]
  show ?thesis using Inr r merge_contracts_lookup [OF d, of sc m k]
    by (auto simp: collect_wallet_def saw_def set_range_keys [OF assms] absorb_def domIff)
qed (simp add: collect_wallet_def saw_def absorb_def)

definition gathered ::
  "(string \<Rightarrow> 64 word \<Rightarrow> go_error + Transaction list) \<Rightarrow> provider_wallet set \<Rightarrow> string \<Rightarrow> storage_contract option \<Rightarrow> bool" where
  "gathered getTx ws src entry \<longleftrightarrow>
     (case entry of
        None \<Rightarrow> \<forall>w \<in> ws. saw getTx src w = None
      | Some v \<Rightarrow>
          set (go_keys (sc_ProvidersAddresses v)) = {pw_Address w | w. w \<in> ws \<and> saw getTx src w \<noteq> None} \<and>
          (\<exists>w \<in> ws. \<exists>sc. saw getTx src w = Some sc \<and> sc_LastLT sc = sc_LastLT v) \<and>
          (\<forall>w \<in> ws. \<forall>sc. saw getTx src w = Some sc \<longrightarrow> sc_LastLT sc \<le> sc_LastLT v))"

lemma fold_update_keys: "set (go_keys (fold (\<lambda>p. AList.update p ()) ks m)) = set ks \<union> set (go_keys m)"
  by (induction ks arbitrary: m) (auto simp: go_keys_update)

lemma gathered_absorb:
  assumes "gathered getTx ws src entry"
  shows "gathered getTx (insert w ws) src (absorb (saw getTx src w) entry)"
proof (cases "saw getTx src w")
  case None
  then show ?thesis using assms by (cases entry) (auto simp: gathered_def absorb_def)
next
  case (Some sc)
  then have keys: "go_keys (sc_ProvidersAddresses sc) = [pw_Address w]" using saw_entry [OF Some] by (simp add: go_keys_def)
  show ?thesis
  proof (cases entry)
    case None
    then show ?thesis using assms Some keys by (auto simp: gathered_def absorb_def)
  next
    case (Some v)
    then have "set (go_keys (sc_ProvidersAddresses (the (absorb (saw getTx src w) entry)))) =
        insert (pw_Address w) {pw_Address w | w. w \<in> ws \<and> saw getTx src w \<noteq> None}"
      using assms keys \<open>saw getTx src w = Some sc\<close> by (simp add: gathered_def absorb_def fold_update_keys go_keys_update insert_absorb)
    moreover have "\<exists>w' \<in> insert w ws. \<exists>sc'. saw getTx src w' = Some sc' \<and> sc_LastLT sc' = max (sc_LastLT v) (sc_LastLT sc)"
      using assms Some \<open>saw getTx src w = Some sc\<close> by (cases "sc_LastLT v \<le> sc_LastLT sc") (auto simp: gathered_def max_def)
    moreover have "sc_LastLT sc' \<le> max (sc_LastLT v) (sc_LastLT sc)" if "w' \<in> insert w ws" "saw getTx src w' = Some sc'" for w' sc'
      using that assms Some \<open>saw getTx src w = Some sc\<close> by (auto simp: gathered_def le_max_iff_disj)
    ultimately show ?thesis using Some \<open>saw getTx src w = Some sc\<close>
      by (auto simp: gathered_def [of getTx "insert w ws"] absorb_def)
  qed
qed

lemma gathered_fold:
  assumes "order_ok ord"
  shows "gathered getTx (set ws) src (map_of (fold (collect_wallet getTx ord) ws []) src)"
proof (induction ws rule: rev_induct)
  case Nil
  then show ?case by (simp add: gathered_def)
next
  case (snoc w ws)
  then show ?case using gathered_absorb [OF snoc, of w] by (simp add: collect_wallet_lookup [OF assms])
qed

lemma new_contract_fields:
  "new_contract m info = Some row \<Longrightarrow>
     sc_Address row = stc_Address info \<and> sc_BagID row = stc_BagID info \<and> sc_OwnerAddr row = stc_OwnerAddr info \<and>
     sc_Size row = stc_Size info \<and> sc_ChunkSize row = stc_ChunkSize info \<and>
     (\<exists>v. map_of m (stc_Address info) = Some v \<and> sc_ProvidersAddresses row = sc_ProvidersAddresses v \<and> sc_LastLT row = sc_LastLT v)"
  by (auto simp: new_contract_def split: option.splits)

lemma gathered_cong: "gathered getTx ws src entry \<Longrightarrow> entry \<noteq> None \<longleftrightarrow> (\<exists>w \<in> ws. saw getTx src w \<noteq> None)"
  by (cases entry) (auto simp: gathered_def)

text \<open>
  The same from the transactions themselves: the logical times of the withdrawals from a contract that a wallet's
  answer lists, and the logical time to which a wallet moves on.
\<close>

definition withdrawal_LTs :: "(string \<Rightarrow> 64 word \<Rightarrow> go_error + Transaction list) \<Rightarrow> string \<Rightarrow> provider_wallet \<Rightarrow> 64 word list" where
  "withdrawal_LTs getTx src w =
     (case getTx (pw_Address w) (pw_LT w) of
        Inl _ \<Rightarrow> []
      | Inr txs \<Rightarrow> map tx_LT (filter (\<lambda>tx. tx_Op tx = 0xa91baf56 \<and> tx_From tx = src) txs))"

definition moved_on :: "(string \<Rightarrow> 64 word \<Rightarrow> go_error + Transaction list) \<Rightarrow> provider_wallet \<Rightarrow> provider_wallet_lt option" where
  "moved_on getTx w =
     (let newer = {lt. pw_LT w < lt \<and> (\<exists>src. lt \<in> set (withdrawal_LTs getTx src w))}
      in if newer = {} then None else Some \<lparr>pwl_PubKey = pw_PubKey w, pwl_LT = Max newer\<rparr>)"

lemma scan_fold_last:
  "map_option sc_LastLT (map_of (fst (fold (scan_tx a) txs (m, l))) src) =
     (let lts = map tx_LT (filter (\<lambda>tx. tx_Op tx = storageRewardWithdrawalOpCode \<and> tx_From tx = src) txs)
      in if lts = [] then map_option sc_LastLT (map_of m src) else Some (last lts))"
proof (induction txs arbitrary: m l)
  case (Cons tx txs)
  obtain m' l' where s: "scan_tx a tx (m, l) = (m', l')" by fastforce
  then have "map_option sc_LastLT (map_of m' src) =
      (if tx_Op tx = storageRewardWithdrawalOpCode \<and> tx_From tx = src then Some (tx_LT tx) else map_option sc_LastLT (map_of m src))"
    by (auto simp: scan_tx_def split: if_splits)
  then show ?case using Cons.IH [of m' l'] s by (auto simp: Let_def)
qed simp

lemma saw_last:
  "map_option sc_LastLT (saw getTx src w) = (if withdrawal_LTs getTx src w = [] then None else Some (last (withdrawal_LTs getTx src w)))"
proof (cases "getTx (pw_Address w) (pw_LT w)")
  case (Inr txs)
  obtain sc l where "fold (scan_tx (pw_Address w)) txs ([], pw_LT w) = (sc, l)" by fastforce
  then show ?thesis using Inr scan_fold_last [of "pw_Address w" txs "[]" "pw_LT w" src]
    by (simp add: saw_def scanProviderTransactions_def withdrawal_LTs_def storageRewardWithdrawalOpCode_def Let_def)
qed (simp add: saw_def scanProviderTransactions_def withdrawal_LTs_def)

lemma saw_withdrawal: "saw getTx src w \<noteq> None \<longleftrightarrow> withdrawal_LTs getTx src w \<noteq> []"
  using saw_last [of getTx src w] by (auto split: if_splits)

lemma scan_fold_LT:
  "snd (fold (scan_tx a) txs (m, l)) = Max (insert l (tx_LT ` {tx \<in> set txs. tx_Op tx = storageRewardWithdrawalOpCode}))"
proof (induction txs arbitrary: m l)
  case (Cons tx txs)
  obtain m' l' where s: "scan_tx a tx (m, l) = (m', l')" by fastforce
  let ?rest = "tx_LT ` {tx \<in> set txs. tx_Op tx = storageRewardWithdrawalOpCode}"
  have l': "l' = (if tx_Op tx = storageRewardWithdrawalOpCode then max l (tx_LT tx) else l)"
    using s by (auto simp: scan_tx_def max_def split: if_splits)
  have ins: "tx_LT ` {u \<in> set (tx # txs). tx_Op u = storageRewardWithdrawalOpCode} =
      (if tx_Op tx = storageRewardWithdrawalOpCode then insert (tx_LT tx) ?rest else ?rest)" by auto
  have "Max (insert (max l k) S) = Max (insert l (insert k S))" if "finite S" for k and S :: "64 word set"
    using that by (cases "S = {}") (auto simp: ac_simps)
  from this [of ?rest] have "Max (insert (max l k) ?rest) = Max (insert l (insert k ?rest))" for k by simp
  then show ?case using Cons.IH [of m' l'] s l' unfolding ins by simp
qed simp

lemma Max_insert_newer:
  fixes l :: "'a :: linorder"
  assumes "finite S"
  shows "Max (insert l S) = (if {x \<in> S. l < x} = {} then l else Max {x \<in> S. l < x})"
proof (cases "{x \<in> S. l < x} = {}")
  case True
  then have "x \<le> l" if "x \<in> insert l S" for x using that by (auto simp: not_less)
  then show ?thesis using True assms by (simp only: if_True) (rule Max_eqI, auto)
next
  case False
  let ?m = "Max {x \<in> S. l < x}"
  have m: "?m \<in> S" "l < ?m" using Max_in [of "{x \<in> S. l < x}"] False assms by auto
  have "x \<le> ?m" if "x \<in> insert l S" for x
  proof (cases "l < x")
    case True
    then show ?thesis using that assms by (intro Max_ge) auto
  next
    case False
    then show ?thesis using m(2) by simp
  qed
  then have "Max (insert l S) = ?m" using m(1) assms by (intro Max_eqI) auto
  then show ?thesis using False by (simp only: if_False)
qed

lemma wallet_update_moved: "wallet_update getTx w = moved_on getTx w"
proof (cases "getTx (pw_Address w) (pw_LT w)")
  case (Inl err)
  then show ?thesis by (simp add: wallet_update_def scanProviderTransactions_def moved_on_def withdrawal_LTs_def)
next
  case (Inr txs)
  let ?S = "tx_LT ` {tx \<in> set txs. tx_Op tx = storageRewardWithdrawalOpCode}" and ?l = "pw_LT w"
  have newer: "{lt. ?l < lt \<and> (\<exists>src. lt \<in> set (withdrawal_LTs getTx src w))} = {lt \<in> ?S. ?l < lt}"
    using Inr by (auto simp: withdrawal_LTs_def storageRewardWithdrawalOpCode_def)
  have fin: "finite ?S" by simp
  note max = Max_insert_newer [OF fin, of ?l]
  have "wallet_update getTx w =
      (if Max (insert ?l ?S) \<noteq> ?l then Some \<lparr>pwl_PubKey = pw_PubKey w, pwl_LT = Max (insert ?l ?S)\<rparr> else None)"
  proof -
    obtain m l where "fold (scan_tx (pw_Address w)) txs ([], ?l) = (m, l)" by fastforce
    moreover from this have "l = Max (insert ?l ?S)" using scan_fold_LT [of "pw_Address w" txs "[]" ?l] by (simp only: snd_conv)
    ultimately show ?thesis using Inr by (simp only: wallet_update_def scanProviderTransactions_def sum.case prod.case)
  qed
  moreover have "Max {lt \<in> ?S. ?l < lt} \<noteq> ?l" if "{lt \<in> ?S. ?l < lt} \<noteq> {}" using Max_in [OF _ that] by auto
  ultimately show ?thesis unfolding moved_on_def newer Let_def max by (cases "{lt \<in> ?S. ?l < lt} = {}") simp_all
qed

lemma gathered_row:
  assumes "gathered getTx ws src (Some v)" "finite ws"
  shows "set (go_keys (sc_ProvidersAddresses v)) = {pw_Address w | w. w \<in> ws \<and> withdrawal_LTs getTx src w \<noteq> []}"
    and "sc_LastLT v = Max {last (withdrawal_LTs getTx src w) | w. w \<in> ws \<and> withdrawal_LTs getTx src w \<noteq> []}"
proof -
  show "set (go_keys (sc_ProvidersAddresses v)) = {pw_Address w | w. w \<in> ws \<and> withdrawal_LTs getTx src w \<noteq> []}"
    using assms(1) unfolding saw_withdrawal [symmetric] by (simp add: gathered_def)
  have lt: "(\<exists>sc. saw getTx src w = Some sc \<and> sc_LastLT sc = k) \<longleftrightarrow> withdrawal_LTs getTx src w \<noteq> [] \<and> last (withdrawal_LTs getTx src w) = k" for w k
    using saw_last [of getTx src w] by (cases "saw getTx src w") (auto split: if_splits)
  have "\<exists>w \<in> ws. withdrawal_LTs getTx src w \<noteq> [] \<and> last (withdrawal_LTs getTx src w) = sc_LastLT v"
    using assms(1) by (simp add: gathered_def lt)
  moreover have "last (withdrawal_LTs getTx src w) \<le> sc_LastLT v" if w: "w \<in> ws" "withdrawal_LTs getTx src w \<noteq> []" for w
  proof -
    obtain sc where "saw getTx src w = Some sc" "sc_LastLT sc = last (withdrawal_LTs getTx src w)" using lt [of w] w(2) by blast
    then show ?thesis using assms(1) w(1) by (auto simp: gathered_def)
  qed
  moreover have "finite {last (withdrawal_LTs getTx src w) | w. w \<in> ws \<and> withdrawal_LTs getTx src w \<noteq> []}" using assms(2) by simp
  ultimately show "sc_LastLT v = Max {last (withdrawal_LTs getTx src w) | w. w \<in> ws \<and> withdrawal_LTs getTx src w \<noteq> []}"
    by (intro Max_eqI [symmetric]) (auto, metis)
qed

text \<open>
  C17.  Whatever order the goroutines finish in and the maps are read in, a successful run asks about exactly the
  contracts from which some wallet's transactions withdraw and writes one row per answer about one of them: bag, owner and
  sizes of the answer, the wallets that withdrew from it, and the largest over these of the logical
  time of the withdrawal listed last.  Before that each wallet with a withdrawal newer than its logical time moves on
  to the newest one.
\<close>

theorem contracts_collected:
  assumes "wr_GetAllProvidersWallets repo db = Inr ws" "order_ok ord"
    and "mset (finished ws) = mset ws" "mset (updated ws) = mset ws"
    and "CollectProvidersNewStorageContracts repo getTx getInfo ord finished updated db = ((minutes 60, None), db')"
    and "w0 \<in> set ws" "withdrawal_LTs getTx src0 w0 \<noteq> []"
  shows "\<exists>ks infos rows lts db1.
    set ks = {src. \<exists>w \<in> set ws. withdrawal_LTs getTx src w \<noteq> []} \<and> getInfo ks = Inr infos \<and>
    mset lts = mset (List.map_filter (moved_on getTx) ws) \<and> wr_UpdateProvidersLT repo lts db = (None, db1) \<and>
    wr_AddStorageContracts repo rows db1 = (None, db') \<and>
    map (\<lambda>r. (sc_Address r, sc_BagID r, sc_OwnerAddr r, sc_Size r, sc_ChunkSize r)) rows =
      map (\<lambda>i. (stc_Address i, stc_BagID i, stc_OwnerAddr i, stc_Size i, stc_ChunkSize i))
        (filter (\<lambda>i. \<exists>w \<in> set ws. withdrawal_LTs getTx (stc_Address i) w \<noteq> []) infos) \<and>
    (\<forall>row \<in> set rows.
       set (go_keys (sc_ProvidersAddresses row)) = {pw_Address w | w. w \<in> set ws \<and> withdrawal_LTs getTx (sc_Address row) w \<noteq> []} \<and>
       sc_LastLT row = Max {last (withdrawal_LTs getTx (sc_Address row) w) | w. w \<in> set ws \<and> withdrawal_LTs getTx (sc_Address row) w \<noteq> []})"
proof -
  let ?m = "fold (collect_wallet getTx ord) (finished ws) []"
  let ?lts = "List.map_filter (wallet_update getTx) (updated ws)"
  have g: "gathered getTx (set ws) src (map_of ?m src)" for src
    using gathered_fold [OF assms(2), of getTx "finished ws" src] mset_eq_setD [OF assms(3)] by simp
  have seen: "map_of ?m src \<noteq> None \<longleftrightarrow> (\<exists>w \<in> set ws. withdrawal_LTs getTx src w \<noteq> [])" for src
    unfolding gathered_cong [OF g] saw_withdrawal ..
  then have dom: "dom (map_of ?m) = {src. \<exists>w \<in> set ws. withdrawal_LTs getTx src w \<noteq> []}" unfolding dom_def by simp
  then have ne: "?m \<noteq> []" using assms(6,7) by auto
  have "minutes 60 \<noteq> seconds 15" by (simp add: minutes_def seconds_def)
  then obtain infos db1 where i: "getInfo (range_keys ord ?m) = Inr infos" "wr_UpdateProvidersLT repo ?lts db = (None, db1)"
    "wr_AddStorageContracts repo (List.map_filter (new_contract ?m) infos) db1 = (None, db')"
    using assms(1,5) ne
    by (auto simp: CollectProvidersNewStorageContracts_def Let_def split: if_splits prod.splits option.splits sum.splits)
  let ?rows = "List.map_filter (new_contract ?m) infos"
  have "map (\<lambda>r. (sc_Address r, sc_BagID r, sc_OwnerAddr r, sc_Size r, sc_ChunkSize r)) ?rows =
      map (\<lambda>i. (stc_Address i, stc_BagID i, stc_OwnerAddr i, stc_Size i, stc_ChunkSize i))
        (filter (\<lambda>i. map_of ?m (stc_Address i) \<noteq> None) infos)"
    by (induction infos) (auto simp: List.map_filter_simps new_contract_def split: option.splits)
  note answers = this [unfolded seen]
  have rows: "set (go_keys (sc_ProvidersAddresses row)) = {pw_Address w | w. w \<in> set ws \<and> withdrawal_LTs getTx (sc_Address row) w \<noteq> []} \<and>
       sc_LastLT row = Max {last (withdrawal_LTs getTx (sc_Address row) w) | w. w \<in> set ws \<and> withdrawal_LTs getTx (sc_Address row) w \<noteq> []}"
    if row: "row \<in> set ?rows" for row
  proof -
    obtain info where info: "info \<in> set infos" "new_contract ?m info = Some row" using row by (auto simp: set_map_filter)
    obtain v where v: "map_of ?m (stc_Address info) = Some v" "sc_ProvidersAddresses row = sc_ProvidersAddresses v" "sc_LastLT row = sc_LastLT v"
      using new_contract_fields [OF info(2)] by blast
    then have "gathered getTx (set ws) (sc_Address row) (Some v)"
      using g [of "stc_Address info"] new_contract_fields [OF info(2)] by simp
    from gathered_row [OF this] show ?thesis unfolding v(2,3) by simp
  qed
  have "mset ?lts = mset (List.map_filter (moved_on getTx) ws)"
    using mset_map_filter [OF assms(4)] by (simp add: wallet_update_moved [abs_def])
  then show ?thesis
    using i answers rows dom
    by (intro exI [of _ "range_keys ord ?m"] exI [of _ infos] exI [of _ ?rows] exI [of _ ?lts] exI [of _ db1])
      (simp add: set_range_keys [OF assms(2)])
qed

definition wallet_repo0 :: "(provider_wallet_lt list \<times> storage_contract list) wallet_repo" where
  "wallet_repo0 = \<lparr>wr_GetAllProvidersWallets = \<lambda>_. Inr (map (\<lambda>a. \<lparr>pw_PubKey = a, pw_Address = a, pw_LT = 1\<rparr>) [''a'', ''b'']),
     wr_UpdateProvidersLT = \<lambda>xs db. (None, (xs, snd db)), wr_AddStorageContracts = \<lambda>xs db. (None, (fst db, xs))\<rparr>"

definition withdrawals :: "string \<Rightarrow> 64 word \<Rightarrow> go_error + Transaction list" where
  "withdrawals a lt = Inr [\<lparr>tx_Hash = [], tx_LT = (if a = ''a'' then 7 else 8), tx_Op = storageRewardWithdrawalOpCode, tx_From = ''c'',
     tx_To = a, tx_Message = [], tx_CreatedAt = 0\<rparr>]"

definition contract_info0 :: "string list \<Rightarrow> go_error + StorageContract list" where
  "contract_info0 ks = Inr (map (\<lambda>k. \<lparr>stc_Address = k, stc_BagID = ''00'', stc_OwnerAddr = ''EQo'', stc_Size = 5, stc_ChunkSize = 1\<rparr>) ks)"

theorem contracts_collected_witness:
  "\<exists>rows lts. CollectProvidersNewStorageContracts wallet_repo0 withdrawals contract_info0 rev rev rev ([], []) =
      ((minutes 60, None), (lts, rows)) \<and> map sc_Address rows = [''c''] \<and> (\<forall>row \<in> set rows. sc_LastLT row = 8)"
proof -
  let ?w = "\<lambda>a. \<lparr>pw_PubKey = a, pw_Address = a, pw_LT = 1\<rparr> :: provider_wallet"
  let ?ws = "[?w ''a'', ?w ''b'']"
  let ?run = "CollectProvidersNewStorageContracts wallet_repo0 withdrawals contract_info0 rev rev rev ([], [])"
  have lts: "withdrawal_LTs withdrawals src (?w a) = (if src = ''c'' then [if a = ''a'' then 7 else 8] else [])" for a src
    by (simp add: withdrawal_LTs_def withdrawals_def storageRewardWithdrawalOpCode_def)
  have res: "?run = ((minutes 60, None), ([\<lparr>pwl_PubKey = ''b'', pwl_LT = 8\<rparr>, \<lparr>pwl_PubKey = ''a'', pwl_LT = 7\<rparr>],
      [\<lparr>sc_ProvidersAddresses = [(''b'', ()), (''a'', ())], sc_Address = ''c'', sc_BagID = ''00'', sc_OwnerAddr = ''EQo'', sc_Size = 5,
        sc_ChunkSize = 1, sc_LastLT = 8\<rparr>]))"
    by (simp add: CollectProvidersNewStorageContracts_def wallet_repo0_def contract_info0_def collect_wallet_def scanProviderTransactions_def
        withdrawals_def scan_tx_def merge_contract_def wallet_update_def new_contract_def range_keys_def go_keys_def Let_def
        List.map_filter_simps)
  then have run: "?run = ((minutes 60, None), snd ?run)" by (simp only: snd_conv)
  have ws: "wr_GetAllProvidersWallets wallet_repo0 ([], []) = Inr ?ws" by (simp add: wallet_repo0_def)
  have w0: "?w ''a'' \<in> set ?ws" by simp
  have s0: "withdrawal_LTs withdrawals ''c'' (?w ''a'') \<noteq> []" by (simp add: lts)
  obtain rows lts' db1 where st: "wr_UpdateProvidersLT wallet_repo0 lts' ([], []) = (None, db1)"
      "wr_AddStorageContracts wallet_repo0 rows db1 = (None, snd ?run)"
    and row: "\<forall>row \<in> set rows. sc_LastLT row = Max {last (withdrawal_LTs withdrawals (sc_Address row) w) | w.
      w \<in> set ?ws \<and> withdrawal_LTs withdrawals (sc_Address row) w \<noteq> []}"
    using contracts_collected [OF ws order_ok_rev mset_rev mset_rev run w0 s0] by blast
  have "wr_AddStorageContracts wallet_repo0 = (\<lambda>xs db. (None, (fst db, xs)))" by (simp add: wallet_repo0_def)
  then have out: "rows = snd (snd ?run)" using st(2) by (metis snd_conv)
  then have "map sc_Address rows = [''c'']" using res by simp
  moreover have "{last (withdrawal_LTs withdrawals ''c'' w) | w. w \<in> set ?ws \<and> withdrawal_LTs withdrawals ''c'' w \<noteq> []} = {7, 8}"
    by (auto simp: lts intro: exI [of _ "?w ''a''"] exI [of _ "?w ''b''"])
  then have "\<forall>row \<in> set rows. sc_LastLT row = 8" using row out res by simp
  ultimately show ?thesis using res out by simp
qed

text \<open>
  The scan keeps the withdrawal it reads last.  A scan reads the pages from the newest to the oldest, so a
  contract with withdrawals on two pages gets the logical time of the older page.
\<close>

lemma older_page_wins:
  assumes "tx_Op new = storageRewardWithdrawalOpCode" "tx_Op old = storageRewardWithdrawalOpCode"
    and "tx_From new = src" "tx_From old = src" "getTx (pw_Address w) (pw_LT w) = Inr (newer @ [new] @ [old])"
  shows "map_option sc_LastLT (saw getTx src w) = Some (tx_LT old)"
  using assms by (simp add: saw_last withdrawal_LTs_def storageRewardWithdrawalOpCode_def)

text \<open>
  The logical time of a wallet moves on even for a contract about which no answer came, so that the transaction
  that named it is not read again.
\<close>

lemma unanswered_contract_skipped:
  assumes "wr_GetAllProvidersWallets repo db = Inr [w]" "getInfo [src] = Inr []" "order_ok ord"
    and "getTx (pw_Address w) (pw_LT w) = Inr [tx]" "tx_From tx = src" "tx_Op tx = storageRewardWithdrawalOpCode" "pw_LT w < tx_LT tx"
  shows "CollectProvidersNewStorageContracts repo getTx getInfo ord id id db =
    (case wr_UpdateProvidersLT repo [\<lparr>pwl_PubKey = pw_PubKey w, pwl_LT = tx_LT tx\<rparr>] db of
       (Some err, db) \<Rightarrow> ((seconds 15, Some err), db)
     | (None, db) \<Rightarrow>
        (case wr_AddStorageContracts repo [] db of
           (Some err, db) \<Rightarrow> ((seconds 15, Some err), db)
         | (None, db) \<Rightarrow> ((minutes 60, None), db)))"
proof -
  have one: "ord [k] = [k]" for k using assms(3) by (metis order_ok_def mset_single_iff_right)
  have "tx_LT tx \<noteq> pw_LT w" using assms(7) by simp
  then show ?thesis using assms
    by (simp add: CollectProvidersNewStorageContracts_def scanProviderTransactions_def scan_tx_def collect_wallet_def
        merge_contract_def wallet_update_def range_keys_def go_keys_def one List.map_filter_simps split: prod.splits option.splits)
qed

section \<open>Steps of one repository call\<close>

definition UpdateUptime :: "('s \<Rightarrow> go_error option \<times> 's) \<Rightarrow> 's \<Rightarrow> step_result \<times> 's" where
  "UpdateUptime call db =
     (case call db of (Some err, db) \<Rightarrow> ((seconds 5, Some err), db) | (None, db) \<Rightarrow> ((minutes 5, None), db))"

definition UpdateRating :: "('s \<Rightarrow> go_error option \<times> 's) \<Rightarrow> 's \<Rightarrow> step_result \<times> 's" where
  "UpdateRating call db =
     (case call db of (Some err, db) \<Rightarrow> ((seconds 5, Some err), db) | (None, db) \<Rightarrow> ((minutes 5, None), db))"

record provider_ip_info =
  pii_PublicKey :: string
  pii_IPInfo :: string

text \<open>\<open>lookup i ip\<close> is the answer of \<^verbatim>\<open>ifconfig\<close> for the address at position \<open>i\<close>, \<open>marshal\<close> is \<^verbatim>\<open>json.Marshal\<close>.\<close>

definition ip_entry ::
  "(nat \<Rightarrow> string \<Rightarrow> go_error + 'info) \<Rightarrow> ('info \<Rightarrow> go_error + string) \<Rightarrow> nat \<times> provider_ip \<Rightarrow> provider_ip_info option" where
  "ip_entry lookup marshal nip =
     (case lookup (fst nip) (ip_IP (pip_Provider (snd nip))) of
        Inl _ \<Rightarrow> None
      | Inr info \<Rightarrow>
         (case marshal info of
            Inl _ \<Rightarrow> None
          | Inr s \<Rightarrow> Some \<lparr>pii_PublicKey = pip_PublicKey (snd nip), pii_IPInfo = s\<rparr>))"

definition UpdateIPInfo ::
  "('s \<Rightarrow> go_error + provider_ip list) \<Rightarrow> (nat \<Rightarrow> string \<Rightarrow> go_error + 'info) \<Rightarrow> ('info \<Rightarrow> go_error + string) \<Rightarrow>
   (provider_ip_info list \<Rightarrow> 's \<Rightarrow> go_error option \<times> 's) \<Rightarrow> 's \<Rightarrow> step_result \<times> 's" where
  "UpdateIPInfo getIPs lookup marshal update db =
     (case getIPs db of
        Inl err \<Rightarrow> ((seconds 30, Some err), db)
      | Inr ips \<Rightarrow>
         if ips = [] then ((minutes 240, None), db)
         else
          (case update (List.map_filter (ip_entry lookup marshal) (zip [0..<length ips] ips)) db of
             (Some err, db) \<Rightarrow> ((seconds 30, Some err), db)
           | (None, db) \<Rightarrow> ((minutes 240, None), db)))"

end
