(* ===== verification/Telemetry.thy ===== *)
theory Telemetry
  imports Cache Search NetIp Collect
begin

text \<open>
  What providers report about themselves: the messages (\<^verbatim>\<open>models/api/v1/types.go\<close>), the checks of the service
  (\<^verbatim>\<open>services/providers/service.go\<close>), the buffers of the cache middleware (\<^verbatim>\<open>services/providers/cache.go\<close>) and the worker that
  writes them to the database (\<^verbatim>\<open>workers/telemetry/worker.go\<close>).

  JSON text, values of type \<^verbatim>\<open>interface{}\<close> (\<open>'j\<close>) and the formatting of times are parameters; Prometheus gauges are left out.
  Each call of a cache method reads the clock.
\<close>

section \<open>Messages and rows\<close>

record disk_benchmark =
  dbm_Name :: string
  dbm_Read :: string
  dbm_Write :: string
  dbm_ReadIOPS :: string
  dbm_WriteIOPS :: string

record client_info =
  cli_Country :: string
  cli_IP :: string
  cli_ISP :: string
  cli_ISPDownloadAvg :: string
  cli_ISPUploadAvg :: string
  cli_ISPRating :: string
  cli_Lat :: string
  cli_Lon :: string
  cli_LoggedIn :: string
  cli_Rating :: string

record ('f, 'g) server_info =
  srv_CC :: string
  srv_Country :: string
  srv_D :: "'f"
  srv_Host :: string
  srv_ID :: string
  srv_Lat :: string
  srv_Lon :: string
  srv_Name :: string
  srv_Sponsor :: string
  srv_URL :: string
  srv_Latency :: "'g"

record ('f, 'g) network_benchmark =
  nb_Server :: "('f, 'g) server_info"
  nb_Client :: client_info
  nb_Share :: string
  nb_Timestamp :: string
  nb_BytesReceived :: "64 word"
  nb_BytesSent :: "64 word"
  nb_Download :: "'f"
  nb_Upload :: "'f"
  nb_Ping :: "'g"

record ('f, 'g) benchmarks_request =
  bq_PubKey :: string
  bq_Disk :: "disk_benchmark go_map option"
  bq_Network :: "('f, 'g) network_benchmark"
  bq_Timestamp :: "64 word"
  bq_XRealIP :: string

record 'f provider_info =
  pin_PubKey :: string
  pin_UsedProviderSpace :: "'f"
  pin_TotalProviderSpace :: "'f"
  pin_MaxBagSizeBytes :: "64 word"

record 'f api_storage_info =
  sti_PubKey :: string
  sti_DiskName :: string
  sti_TotalDiskSpace :: "'f"
  sti_UsedDiskSpace :: "'f"
  sti_FreeDiskSpace :: "'f"
  sti_Provider :: "'f provider_info"

record 'g memory_info =
  mem_Total :: "'g"
  mem_Usage :: "'g"
  mem_UsagePercent :: "'g"

record uname_info =
  un_Sysname :: string
  un_Release :: string
  un_Version :: string
  un_Machine :: string

record 'g cpu_info =
  cpu_CPULoad :: "'g list"
  cpu_Number :: "32 word"
  cpu_CPUName :: string
  cpu_ProductName :: string
  cpu_IsVirtual :: bool

record ('f, 'g, 'j) telemetry_request =
  tr_Storage :: "'f api_storage_info"
  tr_GitHashes :: "string go_map option"
  tr_NetLoad :: "'g list"
  tr_NetReceived :: "'g list"
  tr_NetSent :: "'g list"
  tr_DisksLoad :: "'j"
  tr_DisksLoadPercent :: "'j"
  tr_IOPS :: "'j"
  tr_PPS :: "'g list"
  tr_Memory :: "'g memory_info"
  tr_Swap :: "'g memory_info"
  tr_Uname :: uname_info
  tr_CPUInfo :: "'g cpu_info"
  tr_Pings :: "'g go_map option"
  tr_Benchmark :: "'j"
  tr_XRealIP :: string
  tr_Timestamp :: "64 word"

record ('f, 'g, 'j) telemetry_update =
  tu_PublicKey :: string
  tu_StorageGitHash :: string
  tu_ProviderGitHash :: string
  tu_CPUName :: string
  tu_Pings :: string
  tu_CPUProductName :: string
  tu_USysname :: string
  tu_URelease :: string
  tu_UVersion :: string
  tu_UMachine :: string
  tu_DiskName :: string
  tu_CPULoad :: "'g list"
  tu_TotalDiskSpace :: "'f"
  tu_FreeDiskSpace :: "'f"
  tu_UsedDiskSpace :: "'f"
  tu_UsedProviderSpace :: "'f"
  tu_TotalProviderSpace :: "'f"
  tu_SwapTotal :: "'g"
  tu_SwapUsage :: "'g"
  tu_SwapUsagePercent :: "'g"
  tu_RAMUsage :: "'g"
  tu_RAMTotal :: "'g"
  tu_RAMUsagePercent :: "'g"
  tu_MaxBagSizeBytes :: "64 word"
  tu_CPUNumber :: "32 word"
  tu_CPUIsVirtual :: bool
  tu_TelemetryIP :: string
  tu_NetLoad :: "'g list"
  tu_NetReceived :: "'g list"
  tu_NetSent :: "'g list"
  tu_DisksLoad :: "'j"
  tu_DisksLoadPercent :: "'j"
  tu_IOPS :: "'j"
  tu_PPS :: "'g list"

record ('f, 'g) benchmark_update =
  bu_PublicKey :: string
  bu_Disk :: string
  bu_Network :: string
  bu_DiskReadSpeed :: string
  bu_DiskWriteSpeed :: string
  bu_BenchmarkTimestamp :: string
  bu_SpeedtestDownload :: "'f"
  bu_SpeedtestUpload :: "'f"
  bu_SpeedtestPing :: "'g"
  bu_Country :: string
  bu_ISP :: string

section \<open>The service\<close>

text \<open>\<^verbatim>\<open>utf8.RuneCount\<close>: a byte that starts no valid encoding counts as one rune.\<close>

definition cont_byte :: "nat \<Rightarrow> nat \<Rightarrow> nat list \<Rightarrow> nat \<Rightarrow> bool" where
  "cont_byte lo hi s i \<longleftrightarrow> i < length s \<and> lo \<le> s ! i \<and> s ! i \<le> hi"

definition rune_size :: "nat list \<Rightarrow> nat" where
  "rune_size s =
     (let c = hd s
      in if 194 \<le> c \<and> c \<le> 223 then (if cont_byte 128 191 s 1 then 2 else 1)
         else if 224 \<le> c \<and> c \<le> 239
         then (if cont_byte (if c = 224 then 160 else 128) (if c = 237 then 159 else 191) s 1 \<and> cont_byte 128 191 s 2 then 3 else 1)
         else if 240 \<le> c \<and> c \<le> 244
         then (if cont_byte (if c = 240 then 144 else 128) (if c = 244 then 143 else 191) s 1 \<and> cont_byte 128 191 s 2 \<and>
                  cont_byte 128 191 s 3 then 4 else 1)
         else 1)"

function RuneCount :: "nat list \<Rightarrow> nat" where
  "RuneCount s = (if s = [] then 0 else Suc (RuneCount (drop (rune_size s) s)))"
  by pat_completeness auto
termination
  by (relation "measure length") (auto simp: rune_size_def Let_def)

declare RuneCount.simps [simp del]

definition telemetryBodyLimit :: nat where "telemetryBodyLimit = 5000"

definition verifyProviderSourceIP :: "(string \<Rightarrow> go_error + string) \<Rightarrow> string \<Rightarrow> string \<Rightarrow> app_error option" where
  "verifyProviderSourceIP getProviderIP pubkey sourceIP =
     (case getProviderIP pubkey of
        Inl _ \<Rightarrow> Some (NewAppError InternalServerErrorCode [])
      | Inr providerIP \<Rightarrow> if SameIP sourceIP providerIP then None else Some (NewAppError ForbiddenErrorCode []))"

definition telemetry_pubkey :: "('f, 'g, 'j) telemetry_request \<Rightarrow> string" where
  "telemetry_pubkey t = pin_PubKey (sti_Provider (tr_Storage t))"

definition service_UpdateTelemetry ::
  "(string \<Rightarrow> go_error + string) \<Rightarrow> ('f, 'g, 'j) telemetry_request \<Rightarrow> string \<Rightarrow> app_error option" where
  "service_UpdateTelemetry getProviderIP telemetry rawBody =
     (if telemetry_pubkey telemetry = [] then Some (NewAppError BadRequestErrorCode [])
      else if RuneCount (byte_codes rawBody) > telemetryBodyLimit then Some (NewAppError BadRequestErrorCode ''request body too large'')
      else verifyProviderSourceIP getProviderIP (telemetry_pubkey telemetry) (tr_XRealIP telemetry))"

definition service_UpdateBenchmarks :: "(string \<Rightarrow> go_error + string) \<Rightarrow> ('f, 'g) benchmarks_request \<Rightarrow> app_error option" where
  "service_UpdateBenchmarks getProviderIP benchmark =
     (if bq_PubKey benchmark = [] then Some (NewAppError BadRequestErrorCode [])
      else verifyProviderSourceIP getProviderIP (bq_PubKey benchmark) (bq_XRealIP benchmark))"

section \<open>The cache middleware\<close>

text \<open>
  The raw body is a slice of a buffer of the framework, which is not configured to copy it: it is the first bytes of a buffer
  into which the framework may write the body of a later request.  The middleware keeps the slice.
\<close>

record body_slice =
  bs_Buffer :: nat
  bs_Length :: nat

type_synonym body_memory = "nat \<Rightarrow> string"

definition read_body :: "body_memory \<Rightarrow> body_slice \<Rightarrow> string" where
  "read_body mem b = take (bs_Length b) (mem (bs_Buffer b))"

record ('f, 'g, 'j) cache_middleware =
  mw_telemetryBuffer :: "('f, 'g, 'j) telemetry_request SimpleCache"
  mw_benchmarksBuffer :: "('f, 'g) benchmarks_request SimpleCache"
  mw_latestTelemetryBuffer :: "body_slice SimpleCache"
  mw_cache :: "('f, 'g) filters_range_resp SimpleCache"

definition NewCacheMiddleware ::
  "('f, 'g, 'j) telemetry_request SimpleCache \<Rightarrow> ('f, 'g) benchmarks_request SimpleCache \<Rightarrow> ('f, 'g, 'j) cache_middleware" where
  "NewCacheMiddleware telemetry benchmarks =
     \<lparr>mw_telemetryBuffer = telemetry, mw_benchmarksBuffer = benchmarks,
      mw_latestTelemetryBuffer = NewSimpleCache (minutes 2), mw_cache = NewSimpleCache (minutes 1)\<rparr>"

text \<open>
  \<^verbatim>\<open>utils.DeepCopy\<close> over the JSON library's \<^verbatim>\<open>Marshal\<close> and \<^verbatim>\<open>Unmarshal\<close> at the type of the value; a result of \<open>None\<close> of
  \<open>MustDeepCopy\<close> is its panic.
\<close>

definition DeepCopy :: "('a \<Rightarrow> go_error + string) \<Rightarrow> (string \<Rightarrow> go_error + 'a) \<Rightarrow> 'a \<Rightarrow> go_error + 'a" where
  "DeepCopy marshal unmarshal src =
     (case marshal src of
        Inl err \<Rightarrow> Inl err
      | Inr data \<Rightarrow> (case unmarshal data of Inl err \<Rightarrow> Inl err | Inr dst \<Rightarrow> Inr dst))"

definition MustDeepCopy :: "('a \<Rightarrow> go_error + string) \<Rightarrow> (string \<Rightarrow> go_error + 'a) \<Rightarrow> 'a \<Rightarrow> 'a option" where
  "MustDeepCopy marshal unmarshal src =
     (case DeepCopy marshal unmarshal src of Inl err \<Rightarrow> None | Inr dst \<Rightarrow> Some dst)"

text \<open>
  \<open>copy\<close> is \<^verbatim>\<open>utils.DeepCopy\<close> at the type of the message, \<open>None\<close> for its error, so
  \<^term>\<open>MustDeepCopy marshal unmarshal\<close> for the JSON functions of that type; \<open>now1\<close>, \<open>now2\<close> are the readings of the
  clock of the two \<^verbatim>\<open>Set\<close> calls.
\<close>

definition mw_UpdateTelemetry ::
  "(string \<Rightarrow> go_error + string) \<Rightarrow> (('f, 'g, 'j) telemetry_request \<Rightarrow> ('f, 'g, 'j) telemetry_request option) \<Rightarrow> time \<Rightarrow> time \<Rightarrow> body_memory \<Rightarrow>
   ('f, 'g, 'j) telemetry_request \<Rightarrow> body_slice \<Rightarrow> ('f, 'g, 'j) cache_middleware \<Rightarrow> app_error option \<times> ('f, 'g, 'j) cache_middleware" where
  "mw_UpdateTelemetry getProviderIP copy now1 now2 mem telemetry rawBody c =
     (case service_UpdateTelemetry getProviderIP telemetry (read_body mem rawBody) of
        Some err \<Rightarrow> (Some err, c)
      | None \<Rightarrow>
         (let telemetryCopy = (case copy telemetry of Some t \<Rightarrow> t | None \<Rightarrow> telemetry);
              key = ToLower (telemetry_pubkey telemetry);
              c = c\<lparr>mw_telemetryBuffer := cache_Set now1 key telemetryCopy (mw_telemetryBuffer c)\<rparr>;
              c = c\<lparr>mw_latestTelemetryBuffer := cache_Set now2 key rawBody (mw_latestTelemetryBuffer c)\<rparr>
          in (None, c)))"

definition mw_UpdateBenchmarks ::
  "(string \<Rightarrow> go_error + string) \<Rightarrow> (('f, 'g) benchmarks_request \<Rightarrow> ('f, 'g) benchmarks_request option) \<Rightarrow> time \<Rightarrow>
   ('f, 'g) benchmarks_request \<Rightarrow> ('f, 'g, 'j) cache_middleware \<Rightarrow> app_error option \<times> ('f, 'g, 'j) cache_middleware" where
  "mw_UpdateBenchmarks getProviderIP copy now benchmark c =
     (case service_UpdateBenchmarks getProviderIP benchmark of
        Some err \<Rightarrow> (Some err, c)
      | None \<Rightarrow>
         (let benchmarkCopy = (case copy benchmark of Some b \<Rightarrow> b | None \<Rightarrow> benchmark)
          in (None, c\<lparr>mw_benchmarksBuffer := cache_Set now (ToLower (bq_PubKey benchmark)) benchmarkCopy (mw_benchmarksBuffer c)\<rparr>)))"

definition mw_GetLatestTelemetry ::
  "order \<Rightarrow> order \<Rightarrow> time \<Rightarrow> (string \<Rightarrow> go_error + 'j) \<Rightarrow> body_memory \<Rightarrow> ('f, 'g, 'j) cache_middleware \<Rightarrow> 'j list" where
  "mw_GetLatestTelemetry ord ord2 now unmarshal mem c =
     (let data = cache_GetAll ord now (mw_latestTelemetryBuffer c)
      in List.map_filter
           (\<lambda>k. case map_of data k of
                  None \<Rightarrow> None
                | Some telemetry \<Rightarrow> (case unmarshal (read_body mem telemetry) of Inl _ \<Rightarrow> None | Inr v \<Rightarrow> Some v))
           (range_keys ord2 data))"

definition filtersRangeKey :: string where "filtersRangeKey = ''filtersRange''"

definition actualFiltersRange ::
  "go_error + ('f, 'g) filters_range_resp \<Rightarrow> time \<Rightarrow> ('f, 'g, 'j) cache_middleware \<Rightarrow>
   (go_error + ('f, 'g) filters_range_resp) \<times> ('f, 'g, 'j) cache_middleware" where
  "actualFiltersRange answer now c =
     (case answer of
        Inl err \<Rightarrow> (Inl err, c)
      | Inr r \<Rightarrow> (Inr r, c\<lparr>mw_cache := cache_Set now filtersRangeKey r (mw_cache c)\<rparr>))"

text \<open>\<open>answer\<close> is what the service would return.\<close>

definition mw_GetFiltersRange ::
  "go_error + ('f, 'g) filters_range_resp \<Rightarrow> time \<Rightarrow> time \<Rightarrow> ('f, 'g, 'j) cache_middleware \<Rightarrow>
   (go_error + ('f, 'g) filters_range_resp) \<times> ('f, 'g, 'j) cache_middleware" where
  "mw_GetFiltersRange answer now1 now2 c =
     (case cache_Get now1 filtersRangeKey (mw_cache c) of
        (Some r, sc) \<Rightarrow> (Inr r, c\<lparr>mw_cache := sc\<rparr>)
      | (None, sc) \<Rightarrow> actualFiltersRange answer now2 (c\<lparr>mw_cache := sc\<rparr>))"

section \<open>The worker\<close>

text \<open>\<open>marshal\<close> is \<^verbatim>\<open>json.Marshal\<close> at the type of the pings.\<close>

definition telemetry_row ::
  "('g go_map \<Rightarrow> go_error + string) \<Rightarrow> ('f, 'g, 'j) telemetry_request \<Rightarrow> ('f, 'g, 'j) telemetry_update" where
  "telemetry_row marshal t =
     (let storageGitHash = (case tr_GitHashes t of None \<Rightarrow> [] | Some m \<Rightarrow> go_get [] m ''ton-storage'');
          providerGitHash = (case tr_GitHashes t of None \<Rightarrow> [] | Some m \<Rightarrow> go_get [] m ''ton-storage-provider'');
          pings = (case tr_Pings t of
                     None \<Rightarrow> ''{}''
                   | Some p \<Rightarrow> (case marshal p of Inl _ \<Rightarrow> ''{}'' | Inr s \<Rightarrow> s))
      in \<lparr>tu_PublicKey = ToLower (pin_PubKey (sti_Provider (tr_Storage t))), tu_StorageGitHash = storageGitHash,
         tu_ProviderGitHash = providerGitHash, tu_CPUName = cpu_CPUName (tr_CPUInfo t),
         tu_Pings = pings, tu_CPUProductName = cpu_ProductName (tr_CPUInfo t),
         tu_USysname = un_Sysname (tr_Uname t), tu_URelease = un_Release (tr_Uname t),
         tu_UVersion = un_Version (tr_Uname t), tu_UMachine = un_Machine (tr_Uname t),
         tu_DiskName = sti_DiskName (tr_Storage t), tu_CPULoad = cpu_CPULoad (tr_CPUInfo t),
         tu_TotalDiskSpace = sti_TotalDiskSpace (tr_Storage t), tu_FreeDiskSpace = sti_FreeDiskSpace (tr_Storage t),
         tu_UsedDiskSpace = sti_UsedDiskSpace (tr_Storage t), tu_UsedProviderSpace = pin_UsedProviderSpace (sti_Provider (tr_Storage t)),
         tu_TotalProviderSpace = pin_TotalProviderSpace (sti_Provider (tr_Storage t)), tu_SwapTotal = mem_Total (tr_Swap t),
         tu_SwapUsage = mem_Usage (tr_Swap t), tu_SwapUsagePercent = mem_UsagePercent (tr_Swap t),
         tu_RAMUsage = mem_Usage (tr_Memory t), tu_RAMTotal = mem_Total (tr_Memory t),
         tu_RAMUsagePercent = mem_UsagePercent (tr_Memory t), tu_MaxBagSizeBytes = pin_MaxBagSizeBytes (sti_Provider (tr_Storage t)),
         tu_CPUNumber = cpu_Number (tr_CPUInfo t), tu_CPUIsVirtual = cpu_IsVirtual (tr_CPUInfo t),
         tu_TelemetryIP = tr_XRealIP t, tu_NetLoad = tr_NetLoad t,
         tu_NetReceived = tr_NetReceived t, tu_NetSent = tr_NetSent t,
         tu_DisksLoad = tr_DisksLoad t, tu_DisksLoadPercent = tr_DisksLoadPercent t,
         tu_IOPS = tr_IOPS t, tu_PPS = tr_PPS t\<rparr>)"

text \<open>The keys are read from the database; \<open>now i\<close> is the clock at the \<^verbatim>\<open>Release\<close> of key \<open>i\<close>.\<close>

fun release_all :: "(nat \<Rightarrow> time) \<Rightarrow> nat \<Rightarrow> string list \<Rightarrow> 'v SimpleCache \<Rightarrow> 'v list \<times> 'v SimpleCache" where
  "release_all now i [] c = ([], c)"
| "release_all now i (k # ks) c =
     (case cache_Release (now i) k c of
        (found, c) \<Rightarrow>
          (case release_all now (Suc i) ks c of
             (items, c) \<Rightarrow> ((case found of None \<Rightarrow> items | Some v \<Rightarrow> v # items), c)))"

definition worker_UpdateTelemetry ::
  "go_error + string list \<Rightarrow> ('g go_map \<Rightarrow> go_error + string) \<Rightarrow> (('f, 'g, 'j) telemetry_update list \<Rightarrow> 's \<Rightarrow> go_error option \<times> 's) \<Rightarrow>
   (nat \<Rightarrow> time) \<Rightarrow> ('f, 'g, 'j) telemetry_request SimpleCache \<Rightarrow> 's \<Rightarrow>
     step_result \<times> ('f, 'g, 'j) telemetry_request SimpleCache \<times> 's" where
  "worker_UpdateTelemetry pubkeys marshal update now buffer db =
     (case pubkeys of
        Inl err \<Rightarrow> ((seconds 5, Some err), buffer, db)
      | Inr ks \<Rightarrow>
         (case release_all now 0 ks buffer of
            (released, buffer) \<Rightarrow>
              (let items = map (telemetry_row marshal) released
               in if items = [] then ((minutes 1, None), buffer, db)
                  else case update items db of
                         (Some err, db) \<Rightarrow> ((seconds 5, Some err), buffer, db)
                       | (None, db) \<Rightarrow> ((minutes 1, None), buffer, db))))"

definition benchmark_row ::
  "(disk_benchmark go_map option \<Rightarrow> go_error + string) \<Rightarrow> (('f, 'g) network_benchmark \<Rightarrow> go_error + string) \<Rightarrow> (64 word \<Rightarrow> string) \<Rightarrow>
   ('f, 'g) benchmarks_request \<Rightarrow> ('f, 'g) benchmark_update" where
  "benchmark_row marshalDisk marshalNetwork rfc3339 b =
     (let disk = (case marshalDisk (bq_Disk b) of Inl _ \<Rightarrow> ''{}'' | Inr d \<Rightarrow> d);
          qd64 = map_of (case bq_Disk b of None \<Rightarrow> [] | Some m \<Rightarrow> m) ''qd64'';
          network = (case marshalNetwork (bq_Network b) of Inl _ \<Rightarrow> ''{}'' | Inr ns \<Rightarrow> ns);
          country = cli_Country (nb_Client (bq_Network b));
          country = (if length country > 2 then [] else country)
      in \<lparr>bu_PublicKey = bq_PubKey b, bu_Disk = disk, bu_Network = network,
          bu_DiskReadSpeed = (case qd64 of None \<Rightarrow> [] | Some v \<Rightarrow> dbm_Read v),
          bu_DiskWriteSpeed = (case qd64 of None \<Rightarrow> [] | Some v \<Rightarrow> dbm_Write v),
          bu_BenchmarkTimestamp = rfc3339 (bq_Timestamp b), bu_SpeedtestDownload = nb_Download (bq_Network b),
          bu_SpeedtestUpload = nb_Upload (bq_Network b), bu_SpeedtestPing = nb_Ping (bq_Network b),
          bu_Country = country, bu_ISP = cli_ISP (nb_Client (bq_Network b))\<rparr>)"

definition worker_UpdateBenchmarks ::
  "go_error + string list \<Rightarrow> (('f, 'g) benchmarks_request \<Rightarrow> ('f, 'g) benchmark_update) \<Rightarrow>
   (('f, 'g) benchmark_update list \<Rightarrow> 's \<Rightarrow> go_error option \<times> 's) \<Rightarrow> (nat \<Rightarrow> time) \<Rightarrow> ('f, 'g) benchmarks_request SimpleCache \<Rightarrow> 's \<Rightarrow>
     step_result \<times> ('f, 'g) benchmarks_request SimpleCache \<times> 's" where
  "worker_UpdateBenchmarks pubkeys row update now buffer db =
     (case pubkeys of
        Inl err \<Rightarrow> ((seconds 5, Some err), buffer, db)
      | Inr ks \<Rightarrow>
         (case release_all now 0 (map ToLower ks) buffer of
            (released, buffer) \<Rightarrow>
              (let items = map row released
               in if items = [] then ((minutes 1, None), buffer, db)
                  else case update items db of
                         (Some err, db) \<Rightarrow> ((seconds 5, Some err), buffer, db)
                       | (None, db) \<Rightarrow> ((minutes 1, None), buffer, db))))"

section \<open>From a report to the database\<close>

lemma release_all_keeps: "cache_live later (snd (release_all now i ks c)) k = (if k \<in> set ks then None else cache_live later c k)"
proof (induction ks arbitrary: i c)
  case (Cons key ks)
  obtain found c' where r: "cache_Release (now i) key c = (found, c')" by fastforce
  then have "cache_live later c' k = (if k = key then None else cache_live later c k)"
    using cache_Release_live(2) [of later "now i" key c k] by simp
  then show ?case using Cons [of "Suc i" c'] r by (auto simp: case_prod_beta)
qed simp

lemma map_filter_map: "List.map_filter f (map g xs) = List.map_filter (\<lambda>x. f (g x)) xs"
  by (induction xs) (simp_all add: List.map_filter_simps split: option.split)

lemma map_filter_cong_set: "(\<And>x. x \<in> set xs \<Longrightarrow> f x = g x) \<Longrightarrow> List.map_filter f xs = List.map_filter g xs"
  by (induction xs) (simp_all add: List.map_filter_simps split: option.split)

lemma release_all_rows:
  assumes "distinct ks"
  shows "fst (release_all now i ks c) = List.map_filter (\<lambda>j. cache_live (now (i + j)) c (ks ! j)) [0..<length ks]"
  using assms
proof (induction ks arbitrary: i c)
  case (Cons key ks)
  obtain found c' where r: "cache_Release (now i) key c = (found, c')" by fastforce
  then have live: "found = cache_live (now i) c key"
    "cache_live t c' k = (if k = key then None else cache_live t c k)" for t k
    using cache_Release_live(1) [of "now i" key c] cache_Release_live(2) [of t "now i" key c k] by simp_all
  have "fst (release_all now (Suc i) ks c') = List.map_filter (\<lambda>j. cache_live (now (Suc i + j)) c' (ks ! j)) [0..<length ks]"
    using Cons by simp
  also have "\<dots> = List.map_filter (\<lambda>j. cache_live (now (Suc i + j)) c (ks ! j)) [0..<length ks]"
    using Cons.prems live(2) by (intro map_filter_cong_set) auto
  finally have rest: "fst (release_all now (Suc i) ks c') = List.map_filter (\<lambda>j. cache_live (now (Suc i + j)) c (ks ! j)) [0..<length ks]" .
  have "[0..<length (key # ks)] = 0 # map Suc [0..<length ks]" by (simp only: length_Cons upt_conv_Cons zero_less_Suc map_Suc_upt)
  then have "List.map_filter (\<lambda>j. cache_live (now (i + j)) c ((key # ks) ! j)) [0..<length (key # ks)] =
      (case cache_live (now i) c key of None \<Rightarrow> [] | Some v \<Rightarrow> [v]) @ fst (release_all now (Suc i) ks c')"
    unfolding rest by (simp add: List.map_filter_simps map_filter_map split: option.split)
  then show ?case using r live(1) by (simp add: case_prod_beta split: option.split)
qed (simp add: List.map_filter_simps)

lemma accepted_telemetry:
  assumes "mw_UpdateTelemetry getProviderIP copy now1 now2 mem t rawBody c = (None, c')"
  shows "\<exists>ip. getProviderIP (telemetry_pubkey t) = Inr ip \<and> SameIP (tr_XRealIP t) ip"
    and "mw_telemetryBuffer c' = cache_Set now1 (ToLower (telemetry_pubkey t)) (case copy t of Some u \<Rightarrow> u | None \<Rightarrow> t) (mw_telemetryBuffer c)"
    and "mw_latestTelemetryBuffer c' = cache_Set now2 (ToLower (telemetry_pubkey t)) rawBody (mw_latestTelemetryBuffer c)"
    and "telemetry_pubkey t \<noteq> []" "mw_benchmarksBuffer c' = mw_benchmarksBuffer c"
  using assms by (auto simp: mw_UpdateTelemetry_def service_UpdateTelemetry_def verifyProviderSourceIP_def Let_def
      split: option.splits if_splits sum.splits)

text \<open>A post of telemetry, with the answer of the repository, the two readings of the clock, the framework's buffers, the report and its body.\<close>

type_synonym ('f, 'g, 'j) telemetry_post =
  "(string \<Rightarrow> go_error + string) \<times> time \<times> time \<times> body_memory \<times> ('f, 'g, 'j) telemetry_request \<times> body_slice"

definition post_accepted :: "('f, 'g, 'j) telemetry_post \<Rightarrow> bool" where
  "post_accepted p = (case p of (getProviderIP, _, _, mem, t, rawBody) \<Rightarrow> service_UpdateTelemetry getProviderIP t (read_body mem rawBody) = None)"

definition post_key :: "('f, 'g, 'j) telemetry_post \<Rightarrow> string" where
  "post_key p = (case p of (_, _, _, _, t, _) \<Rightarrow> ToLower (telemetry_pubkey t))"

definition after_posts ::
  "(('f, 'g, 'j) telemetry_request \<Rightarrow> ('f, 'g, 'j) telemetry_request option) \<Rightarrow> ('f, 'g, 'j) telemetry_post list \<Rightarrow>
   ('f, 'g, 'j) cache_middleware \<Rightarrow> ('f, 'g, 'j) cache_middleware" where
  "after_posts copy posts c =
     fold (\<lambda>(getProviderIP, now1, now2, mem, t, rawBody) c. snd (mw_UpdateTelemetry getProviderIP copy now1 now2 mem t rawBody c)) posts c"

lemma after_posts_other:
  assumes "\<forall>p \<in> set posts. post_key p = key \<longrightarrow> \<not> post_accepted p"
  shows "cache_live later (mw_telemetryBuffer (after_posts copy posts c)) key = cache_live later (mw_telemetryBuffer c) key"
  using assms
proof (induction posts arbitrary: c)
  case (Cons p posts)
  obtain gp n1 n2 mem t raw where p: "p = (gp, n1, n2, mem, t, raw)" by (metis surj_pair)
  let ?c = "snd (mw_UpdateTelemetry gp copy n1 n2 mem t raw c)"
  have "cache_live later (mw_telemetryBuffer ?c) key = cache_live later (mw_telemetryBuffer c) key"
  proof (cases "service_UpdateTelemetry gp t (read_body mem raw)")
    case None
    then have "ToLower (telemetry_pubkey t) \<noteq> key" using Cons.prems by (simp add: p post_key_def post_accepted_def)
    then show ?thesis using None by (auto simp: mw_UpdateTelemetry_def Let_def cache_Set_live)
  qed (simp add: mw_UpdateTelemetry_def)
  then show ?case using Cons by (simp add: after_posts_def p)
qed (simp add: after_posts_def)

lemma worker_UpdateTelemetry_rows:
  "worker_UpdateTelemetry (Inr ks) marshal update now buffer db =
     (let rows = map (telemetry_row marshal) (fst (release_all now 0 ks buffer)); rest = snd (release_all now 0 ks buffer)
      in if rows = [] then ((minutes 1, None), rest, db)
         else case update rows db of
                (Some err, db) \<Rightarrow> ((seconds 5, Some err), rest, db)
              | (None, db) \<Rightarrow> ((minutes 1, None), rest, db))"
  by (simp add: worker_UpdateTelemetry_def Let_def case_prod_beta)

text \<open>
  C19.  A telemetry report is accepted only from the address the repository has for its provider.  Let posts follow it, for any
  provider, of which none for the same provider is accepted, and then a run of the worker that reads the provider's key among
  different keys and comes to it within the time to live.  The run hands the database one call whose rows are the live reports of these keys in
  their order, the accepted report in the place of its key and only there; and whether the write succeeds or fails, the report is out of the buffer, so that no later run
  writes it again: a write that fails loses it.
\<close>

theorem telemetry_delivered_once:
  assumes "mw_UpdateTelemetry getProviderIP copy now1 now2 mem t rawBody c = (None, c1)"
    and "\<forall>p \<in> set posts. post_key p = ToLower (telemetry_pubkey t) \<longrightarrow> \<not> post_accepted p"
    and "mw_telemetryBuffer (after_posts copy posts c1) = buffer"
    and "distinct ks" "j < length ks" "ks ! j = ToLower (telemetry_pubkey t)" "now j \<le> now1 + sc_ttl (mw_telemetryBuffer c)"
  shows "(\<exists>ip. getProviderIP (telemetry_pubkey t) = Inr ip \<and> SameIP (tr_XRealIP t) ip) \<and>
    (\<exists>rows rest.
       rows = map (telemetry_row marshal)
         (List.map_filter (\<lambda>i. cache_live (now i) buffer (ks ! i)) [0..<j] @
          [case copy t of Some u \<Rightarrow> u | None \<Rightarrow> t] @
          List.map_filter (\<lambda>i. cache_live (now i) buffer (ks ! i)) [Suc j..<length ks]) \<and>
       worker_UpdateTelemetry (Inr ks) marshal update now buffer db =
         (case update rows db of
            (Some err, db') \<Rightarrow> ((seconds 5, Some err), rest, db')
          | (None, db') \<Rightarrow> ((minutes 1, None), rest, db')) \<and>
       (\<forall>later. cache_live later rest (ToLower (telemetry_pubkey t)) = None))"
proof -
  let ?key = "ToLower (telemetry_pubkey t)" and ?v = "case copy t of Some u \<Rightarrow> u | None \<Rightarrow> t"
  let ?live = "\<lambda>i. cache_live (now i) buffer (ks ! i)"
  let ?rows = "map (telemetry_row marshal) (fst (release_all now 0 ks buffer))"
  have "cache_live (now j) buffer ?key = cache_live (now j) (mw_telemetryBuffer c1) ?key"
    unfolding assms(3) [symmetric] by (rule after_posts_other [OF assms(2)])
  also have "\<dots> = Some ?v" using accepted_telemetry(2) [OF assms(1)] assms(7) by (simp add: cache_Set_live)
  finally have live: "?live j = Some ?v" using assms(6) by simp
  have "[0..<length ks] = [0..<j] @ j # [Suc j..<length ks]" using upt_add_eq_append [of 0 j "length ks - j"] assms(5) by (simp add: upt_conv_Cons)
  then have rows: "fst (release_all now 0 ks buffer) =
      List.map_filter ?live [0..<j] @ [?v] @ List.map_filter ?live [Suc j..<length ks]"
    using release_all_rows [OF assms(4), of now 0 buffer] live by (simp add: List.map_filter_def)
  have gone: "cache_live later (snd (release_all now 0 ks buffer)) ?key = None" for later
    using assms(5,6) nth_mem [of j ks] by (simp add: release_all_keeps)
  show ?thesis
    using accepted_telemetry(1) [OF assms(1)] rows gone
    by (intro conjI exI [of _ ?rows] exI [of _ "snd (release_all now 0 ks buffer)"]) (simp_all add: worker_UpdateTelemetry_rows Let_def)
qed

text \<open>The buffer is emptied before the database is asked: a failed write loses the reports it was given.\<close>

lemma failed_write_drops_reports:
  assumes "worker_UpdateTelemetry (Inr ks) marshal update now buf db = ((seconds 5, Some err), buf', db')" "k \<in> set ks"
  shows "cache_live later buf' k = None"
  using assms release_all_keeps [of later now 0 ks buf k]
  by (auto simp: worker_UpdateTelemetry_def Let_def case_prod_beta split: if_splits option.splits prod.splits)

text \<open>
  \<^verbatim>\<open>DeepCopy\<close> goes through JSON, which leaves out the source address, so that the row of a copied report has none.
\<close>

lemma copied_report_has_no_ip:
  assumes "\<And>x y. unmarshal x = Inr y \<Longrightarrow> tr_XRealIP y = []" "MustDeepCopy toJson unmarshal t = Some u"
  shows "tu_TelemetryIP (telemetry_row marshal (case MustDeepCopy toJson unmarshal t of Some u \<Rightarrow> u | None \<Rightarrow> t)) = []"
  using assms by (auto simp: telemetry_row_def Let_def MustDeepCopy_def DeepCopy_def split: sum.splits)

definition sample_report :: "(nat, nat, nat) telemetry_request" where
  "sample_report = \<lparr>tr_Storage = \<lparr>sti_PubKey = [], sti_DiskName = ''sda'', sti_TotalDiskSpace = 9, sti_UsedDiskSpace = 1, sti_FreeDiskSpace = 8,
       sti_Provider = \<lparr>pin_PubKey = ''ab'', pin_UsedProviderSpace = 1, pin_TotalProviderSpace = 5, pin_MaxBagSizeBytes = 100\<rparr>\<rparr>,
     tr_GitHashes = None, tr_NetLoad = [], tr_NetReceived = [], tr_NetSent = [], tr_DisksLoad = 0, tr_DisksLoadPercent = 0, tr_IOPS = 0,
     tr_PPS = [], tr_Memory = \<lparr>mem_Total = 4, mem_Usage = 1, mem_UsagePercent = 25\<rparr>, tr_Swap = \<lparr>mem_Total = 0, mem_Usage = 0, mem_UsagePercent = 0\<rparr>,
     tr_Uname = \<lparr>un_Sysname = ''Linux'', un_Release = ''6'', un_Version = ''1'', un_Machine = ''x''\<rparr>,
     tr_CPUInfo = \<lparr>cpu_CPULoad = [], cpu_Number = 2, cpu_CPUName = ''c'', cpu_ProductName = ''p'', cpu_IsVirtual = False\<rparr>,
     tr_Pings = None, tr_Benchmark = 0, tr_XRealIP = ''10.0.0.1'', tr_Timestamp = 0\<rparr>"

definition sample_middleware :: "(nat, nat, nat) cache_middleware" where
  "sample_middleware = NewCacheMiddleware (NewSimpleCache (minutes 10)) (NewSimpleCache (minutes 10))"

definition sample_memory :: body_memory where
  "sample_memory = (\<lambda>_. ''{}'')"

definition sample_slice :: body_slice where
  "sample_slice = \<lparr>bs_Buffer = 0, bs_Length = 2\<rparr>"

lemma sample_report_accepted:
  "\<exists>c. mw_UpdateTelemetry (\<lambda>_. Inr ''10.0.0.1'') (\<lambda>t. Some (t\<lparr>tr_XRealIP := []\<rparr>)) 0 0 sample_memory sample_report sample_slice sample_middleware = (None, c) \<and>
     sc_ttl (mw_telemetryBuffer sample_middleware) = minutes 10"
proof -
  have "ipv4_text (10, 0, 0, 1) = ''10.0.0.1''" by (simp add: ipv4_text_def nat_Itoa.simps dot_def)
  then have "parseIP ''10.0.0.1'' \<noteq> None" using parseIP_ipv4 [of "(10, 0, 0, 1)" None] by (simp add: octets_def port_text_def)
  then have "SameIP ''10.0.0.1'' ''10.0.0.1''" by (auto simp: SameIP_def)
  moreover have "RuneCount (byte_codes ''{}'') = 2" by (simp add: byte_codes_def RuneCount.simps rune_size_def)
  moreover have "read_body sample_memory sample_slice = ''{}''" by (simp add: read_body_def sample_memory_def sample_slice_def)
  ultimately show ?thesis
    by (simp add: mw_UpdateTelemetry_def service_UpdateTelemetry_def verifyProviderSourceIP_def telemetry_pubkey_def sample_report_def
        telemetryBodyLimit_def sample_middleware_def NewCacheMiddleware_def NewSimpleCache_def Let_def)
qed

theorem telemetry_delivered_once_witness:
  "\<exists>c buffer rows. mw_UpdateTelemetry (\<lambda>_. Inr ''10.0.0.1'') (\<lambda>t. Some (t\<lparr>tr_XRealIP := []\<rparr>)) 0 0 sample_memory sample_report sample_slice sample_middleware = (None, c) \<and>
     worker_UpdateTelemetry (Inr [''ab'']) (\<lambda>_. Inr ''{}'') (\<lambda>rows db. (None, rows)) (\<lambda>_. 5) (mw_telemetryBuffer c) [] =
       ((minutes 1, None), buffer, rows) \<and>
     rows = [telemetry_row (\<lambda>_. Inr ''{}'') (sample_report\<lparr>tr_XRealIP := []\<rparr>)]"
proof -
  let ?copy = "\<lambda>t :: (nat, nat, nat) telemetry_request. Some (t\<lparr>tr_XRealIP := []\<rparr>)"
  obtain c where c: "mw_UpdateTelemetry (\<lambda>_. Inr ''10.0.0.1'') ?copy 0 0 sample_memory sample_report sample_slice sample_middleware = (None, c)"
    "sc_ttl (mw_telemetryBuffer sample_middleware) = minutes 10" using sample_report_accepted by blast
  have key: "ToLower (telemetry_pubkey sample_report) = ''ab''"
    by (simp add: telemetry_pubkey_def sample_report_def ToLower_def lower_char_def)
  have none: "mw_telemetryBuffer (after_posts ?copy [] c) = mw_telemetryBuffer c" by (simp add: after_posts_def)
  have at0: "0 < length [''ab'']" "[''ab''] ! 0 = ToLower (telemetry_pubkey sample_report)" "(5 :: time) \<le> 0 + sc_ttl (mw_telemetryBuffer sample_middleware)"
    using key c(2) by (simp_all add: minutes_def)
  have "distinct [''ab'']" "\<forall>p \<in> set ([] :: (nat, nat, nat) telemetry_post list). post_key p = ToLower (telemetry_pubkey sample_report) \<longrightarrow> \<not> post_accepted p"
    by simp_all
  from telemetry_delivered_once [where now = "\<lambda>_. 5" and marshal = "\<lambda>_. Inr ''{}''" and update = "\<lambda>rows db. (None, rows)" and db = "[]",
      OF c(1) this(2) none this(1) at0]
  show ?thesis using c(1) by (auto simp: List.map_filter_simps)
qed

text \<open>
  The report that the other buffer shows is what the framework's buffer holds when it is read.  When the buffer holds another body of at
  least this length, the report is the beginning of that body.
\<close>

lemma rewritten_report:
  "read_body mem b' = body \<Longrightarrow> bs_Buffer b = bs_Buffer b' \<Longrightarrow> bs_Length b \<le> bs_Length b' \<Longrightarrow> read_body mem b = take (bs_Length b) body"
  by (auto simp: read_body_def min_def)

end
