(* ===== verification/Http.thy ===== *)
theory Http
  imports Telemetry
begin

text \<open>
  \<^verbatim>\<open>coordinator/internal/httpServer\<close>: token check (\<^verbatim>\<open>handler.go\<close>, \<^verbatim>\<open>middlewares.go\<close>), error answers (\<^verbatim>\<open>helpers.go\<close>), the handlers
  (\<^verbatim>\<open>methods.go\<close>) and the routes (\<^verbatim>\<open>router.go\<close>).  The fiber framework, MD5 and JSON decoding are parameters; a request is its
  method, path, headers and body, an answer a status and a body.  CORS, rate limiting and metrics are in \<open>Server\<close>.

  The framework puts the body of a request into one of its buffers before any handler runs (\<open>hq_Buffer\<close>; a body it had to unpack or
  to enlarge a buffer for is in a buffer of its own), and \<^verbatim>\<open>c.Body()\<close> is a slice of that buffer.  The handlers run with the
  buffers as they are then, \<open>mem\<close>, and do not write to them.
\<close>

section \<open>Requests and answers\<close>

record http_request =
  hq_Method :: string
  hq_Path :: string
  hq_Authorization :: string
  hq_XRealIP :: string
  hq_PeerIP :: string
  hq_Body :: string
  hq_Buffer :: nat

definition c_Body :: "http_request \<Rightarrow> body_slice" where
  "c_Body r = \<lparr>bs_Buffer = hq_Buffer r, bs_Length = length (hq_Body r)\<rparr>"

datatype ('f, 'g, 'j) http_body =
    BodyStatusOk
  | BodyNull
  | BodyError string
  | BodyProviders "'g api_provider list"
  | BodyFiltersRange "('f, 'g) filters_range_resp"
  | BodyLatest "'j list"
  | BodyContracts "api_contract_check list"
  | BodyBags "api_contract_bag list" int
  | BodyMetrics

record ('f, 'g, 'j) http_response =
  hr_Status :: int
  hr_Body :: "('f, 'g, 'j) http_body"

text \<open>The errors that \<^verbatim>\<open>errorHandler\<close> tells apart.\<close>

datatype http_error = FiberError int string | HttpAppError app_error | OtherError go_error

definition errorHandler :: "http_error \<Rightarrow> ('f, 'g, 'j) http_response" where
  "errorHandler err =
     (case err of
        FiberError code message \<Rightarrow> \<lparr>hr_Status = code, hr_Body = BodyError message\<rparr>
      | HttpAppError appErr \<Rightarrow>
          (let msg = (if ae_Code appErr > 500 then ''internal server error'' else ae_Message appErr)
           in \<lparr>hr_Status = ae_Code appErr, hr_Body = BodyError msg\<rparr>)
      | OtherError e \<Rightarrow> \<lparr>hr_Status = 500, hr_Body = BodyError (err_Error e)\<rparr>)"

text \<open>\<^verbatim>\<open>c.JSON(v)\<close> writes the body and returns nil, so \<^verbatim>\<open>c.JSON(okHandler(c))\<close> writes twice, the second time nil.\<close>

definition c_JSON :: "('f, 'g, 'j) http_body \<Rightarrow> ('f, 'g, 'j) http_response \<Rightarrow> ('f, 'g, 'j) http_response" where
  "c_JSON v resp = resp\<lparr>hr_Body := v\<rparr>"

definition ok_response :: "('f, 'g, 'j) http_response" where
  "ok_response = \<lparr>hr_Status = 200, hr_Body = BodyNull\<rparr>"

definition okHandler :: "('f, 'g, 'j) http_response \<Rightarrow> ('f, 'g, 'j) http_response" where
  "okHandler resp = c_JSON BodyStatusOk resp"

definition requestSourceIP :: "http_request \<Rightarrow> string" where
  "requestSourceIP r = (if hq_XRealIP r \<noteq> [] then hq_XRealIP r else hq_PeerIP r)"

section \<open>Authorization\<close>

definition token_hash :: "(string \<Rightarrow> bytes) \<Rightarrow> string \<Rightarrow> string" where
  "token_hash md5 token = hex_Encode (md5 token)"

definition accessTokensMap :: "(string \<Rightarrow> bytes) \<Rightarrow> string list \<Rightarrow> unit go_map" where
  "accessTokensMap md5 accessTokens =
     fold (\<lambda>token m. if TrimSpace token = [] then m else AList.update (token_hash md5 (TrimSpace token)) () m) accessTokens []"

definition bearer_token :: "string \<Rightarrow> string" where
  "bearer_token accessToken = (if prefix ''bearer '' (ToLower accessToken) then drop 7 accessToken else accessToken)"

text \<open>\<open>None\<close> stands for \<^verbatim>\<open>c.Next()\<close>.\<close>

definition authorizationMiddleware :: "(string \<Rightarrow> bytes) \<Rightarrow> unit go_map \<Rightarrow> http_request \<Rightarrow> ('f, 'g, 'j) http_response option" where
  "authorizationMiddleware md5 tokens r =
     (if hq_Authorization r = [] then Some (errorHandler (FiberError 401 ''unauthorized''))
      else if map_of tokens (token_hash md5 (bearer_token (hq_Authorization r))) = None
      then Some (errorHandler (FiberError 403 ''forbidden''))
      else None)"

section \<open>Handlers\<close>

record ('f, 'g, 'j) http_env =
  he_md5 :: "string \<Rightarrow> bytes"
  he_accessTokens :: "unit go_map"
  he_unmarshalSearch :: "string \<Rightarrow> go_error + ('f, 'g) search_request"
  he_unmarshalTelemetry :: "string \<Rightarrow> go_error + ('f, 'g, 'j) telemetry_request"
  he_unmarshalBenchmarks :: "string \<Rightarrow> go_error + ('f, 'g) benchmarks_request"
  he_unmarshalContracts :: "string \<Rightarrow> go_error + string list"
  he_unmarshalBags :: "string \<Rightarrow> go_error + contract_bags_request"
  he_unmarshalAny :: "string \<Rightarrow> go_error + 'j"
  he_SearchProviders :: "('f, 'g) search_request \<Rightarrow> app_error + 'g api_provider list"
  he_FiltersRange :: "go_error + ('f, 'g) filters_range_resp"
  he_ContractsChecks :: "string list \<Rightarrow> app_error + api_contract_check list"
  he_ContractBags :: "contract_bags_request \<Rightarrow> app_error + api_contract_bag list \<times> int"
  he_getProviderIP :: "string \<Rightarrow> go_error + string"
  he_copyTelemetry :: "('f, 'g, 'j) telemetry_request \<Rightarrow> ('f, 'g, 'j) telemetry_request option"
  he_copyBenchmarks :: "('f, 'g) benchmarks_request \<Rightarrow> ('f, 'g) benchmarks_request option"
  he_now1 :: time
  he_now2 :: time
  he_ord1 :: order
  he_ord2 :: order
  he_notFound :: "http_request \<Rightarrow> ('f, 'g, 'j) http_response"

definition invalid_body :: "('f, 'g, 'j) http_response" where
  "invalid_body = errorHandler (FiberError 400 ''invalid request body'')"

definition h_searchProviders :: "('f, 'g, 'j) http_env \<Rightarrow> http_request \<Rightarrow> ('f, 'g, 'j) http_response" where
  "h_searchProviders env r =
     (case he_unmarshalSearch env (hq_Body r) of
        Inl _ \<Rightarrow> invalid_body
      | Inr req \<Rightarrow>
         (case he_SearchProviders env req of
            Inl err \<Rightarrow> errorHandler (HttpAppError err)
          | Inr providers \<Rightarrow> c_JSON (BodyProviders providers) ok_response))"

definition h_filtersRange ::
  "('f, 'g, 'j) http_env \<Rightarrow> ('f, 'g, 'j) cache_middleware \<Rightarrow> ('f, 'g, 'j) http_response \<times> ('f, 'g, 'j) cache_middleware" where
  "h_filtersRange env c =
     (case mw_GetFiltersRange (he_FiltersRange env) (he_now1 env) (he_now2 env) c of
        (Inl err, c) \<Rightarrow> (errorHandler (OtherError err), c)
      | (Inr filters, c) \<Rightarrow> (c_JSON (BodyFiltersRange filters) ok_response, c))"

definition h_updateTelemetry ::
  "('f, 'g, 'j) http_env \<Rightarrow> body_memory \<Rightarrow> http_request \<Rightarrow> ('f, 'g, 'j) cache_middleware \<Rightarrow> ('f, 'g, 'j) http_response \<times> ('f, 'g, 'j) cache_middleware" where
  "h_updateTelemetry env mem r c =
     (if \<not> prefix ''{'' (hq_Body r) then (errorHandler (FiberError 400 ''invalid gzip body''), c)
      else
       (case he_unmarshalTelemetry env (hq_Body r) of
          Inl _ \<Rightarrow> (invalid_body, c)
        | Inr req \<Rightarrow>
           (case mw_UpdateTelemetry (he_getProviderIP env) (he_copyTelemetry env) (he_now1 env) (he_now2 env) mem
                   (req\<lparr>tr_XRealIP := requestSourceIP r\<rparr>) (c_Body r) c of
              (Some err, c) \<Rightarrow> (errorHandler (HttpAppError err), c)
            | (None, c) \<Rightarrow> (c_JSON BodyNull (okHandler ok_response), c))))"

definition h_updateBenchmarks ::
  "('f, 'g, 'j) http_env \<Rightarrow> http_request \<Rightarrow> ('f, 'g, 'j) cache_middleware \<Rightarrow> ('f, 'g, 'j) http_response \<times> ('f, 'g, 'j) cache_middleware" where
  "h_updateBenchmarks env r c =
     (if \<not> prefix ''{'' (hq_Body r) then (errorHandler (FiberError 400 ''invalid gzip body''), c)
      else
       (case he_unmarshalBenchmarks env (hq_Body r) of
          Inl _ \<Rightarrow> (invalid_body, c)
        | Inr req \<Rightarrow>
           (case mw_UpdateBenchmarks (he_getProviderIP env) (he_copyBenchmarks env) (he_now1 env)
                   (req\<lparr>bq_XRealIP := requestSourceIP r\<rparr>) c of
              (Some err, c) \<Rightarrow> (errorHandler (HttpAppError err), c)
            | (None, c) \<Rightarrow> (c_JSON BodyNull (okHandler ok_response), c))))"

definition h_getLatestTelemetry :: "('f, 'g, 'j) http_env \<Rightarrow> body_memory \<Rightarrow> ('f, 'g, 'j) cache_middleware \<Rightarrow> ('f, 'g, 'j) http_response" where
  "h_getLatestTelemetry env mem c =
     c_JSON (BodyLatest (mw_GetLatestTelemetry (he_ord1 env) (he_ord2 env) (he_now1 env) (he_unmarshalAny env) mem c)) ok_response"

definition h_getStorageContractsStatuses :: "('f, 'g, 'j) http_env \<Rightarrow> http_request \<Rightarrow> ('f, 'g, 'j) http_response" where
  "h_getStorageContractsStatuses env r =
     (case he_unmarshalContracts env (hq_Body r) of
        Inl _ \<Rightarrow> invalid_body
      | Inr contracts \<Rightarrow>
         (case he_ContractsChecks env contracts of
            Inl err \<Rightarrow> errorHandler (HttpAppError err)
          | Inr reasons \<Rightarrow> c_JSON (BodyContracts reasons) ok_response))"

definition h_getContractBags :: "('f, 'g, 'j) http_env \<Rightarrow> http_request \<Rightarrow> ('f, 'g, 'j) http_response" where
  "h_getContractBags env r =
     (case he_unmarshalBags env (hq_Body r) of
        Inl _ \<Rightarrow> invalid_body
      | Inr req \<Rightarrow>
         (case he_ContractBags env req of
            Inl err \<Rightarrow> errorHandler (HttpAppError err)
          | Inr (contracts, n) \<Rightarrow> c_JSON (BodyBags contracts n) ok_response))"

section \<open>Routes\<close>

datatype endpoint_name =
    EpHealth | EpMetrics | EpSearch | EpFilters | EpUpdateTelemetry | EpLatestTelemetry | EpStatuses | EpBags | EpBenchmarks

text \<open>The framework's \<^verbatim>\<open>Get\<close> registers a route for \<^verbatim>\<open>HEAD\<close> too; it sends the answer to such a request without its body.\<close>

definition routes :: "((string \<times> string) \<times> endpoint_name \<times> bool) list" where
  "routes =
     [((''HEAD'', ''/health''), EpHealth, False),
      ((''GET'', ''/health''), EpHealth, False),
      ((''HEAD'', ''/metrics''), EpMetrics, True),
      ((''GET'', ''/metrics''), EpMetrics, True),
      ((''POST'', ''/api/v1/providers/search''), EpSearch, False),
      ((''HEAD'', ''/api/v1/providers/filters''), EpFilters, False),
      ((''GET'', ''/api/v1/providers/filters''), EpFilters, False),
      ((''POST'', ''/api/v1/providers''), EpUpdateTelemetry, False),
      ((''HEAD'', ''/api/v1/providers''), EpLatestTelemetry, True),
      ((''GET'', ''/api/v1/providers''), EpLatestTelemetry, True),
      ((''POST'', ''/api/v1/contracts/statuses''), EpStatuses, False),
      ((''POST'', ''/api/v1/contracts/bags''), EpBags, True),
      ((''POST'', ''/api/v1/benchmarks''), EpBenchmarks, False)]"

definition run_endpoint ::
  "('f, 'g, 'j) http_env \<Rightarrow> body_memory \<Rightarrow> endpoint_name \<Rightarrow> http_request \<Rightarrow> ('f, 'g, 'j) cache_middleware \<Rightarrow>
   ('f, 'g, 'j) http_response \<times> ('f, 'g, 'j) cache_middleware" where
  "run_endpoint env mem ep r c =
     (case ep of
        EpHealth \<Rightarrow> (okHandler ok_response, c)
      | EpMetrics \<Rightarrow> (c_JSON BodyMetrics ok_response, c)
      | EpSearch \<Rightarrow> (h_searchProviders env r, c)
      | EpFilters \<Rightarrow> h_filtersRange env c
      | EpUpdateTelemetry \<Rightarrow> h_updateTelemetry env mem r c
      | EpLatestTelemetry \<Rightarrow> (h_getLatestTelemetry env mem c, c)
      | EpStatuses \<Rightarrow> (h_getStorageContractsStatuses env r, c)
      | EpBags \<Rightarrow> (h_getContractBags env r, c)
      | EpBenchmarks \<Rightarrow> h_updateBenchmarks env r c)"

text \<open>
  The framework matches paths and answers a path that no route has; \<open>hq_Path\<close> is the path as it matched it.
\<close>

definition serve_request ::
  "('f, 'g, 'j) http_env \<Rightarrow> body_memory \<Rightarrow> http_request \<Rightarrow> ('f, 'g, 'j) cache_middleware \<Rightarrow> ('f, 'g, 'j) http_response \<times> ('f, 'g, 'j) cache_middleware" where
  "serve_request env mem r c =
     (case map_of routes (hq_Method r, hq_Path r) of
        None \<Rightarrow> (he_notFound env r, c)
      | Some (ep, auth) \<Rightarrow>
         (case (if auth then authorizationMiddleware (he_md5 env) (he_accessTokens env) r else None) of
            Some resp \<Rightarrow> (resp, c)
          | None \<Rightarrow> run_endpoint env mem ep r c))"

section \<open>Who reaches a handler\<close>

lemma hex_Encode_inject [simp]: "hex_Encode a = hex_Encode b \<longleftrightarrow> a = b"
  by (metis hex_roundtrip sum.inject(2))

lemma accessTokensMap_lookup:
  "map_of (fold (\<lambda>token m. if TrimSpace token = [] then m else AList.update (token_hash md5 (TrimSpace token)) () m) tokens m) h = None \<longleftrightarrow>
     map_of m h = None \<and> \<not> (\<exists>t \<in> set tokens. TrimSpace t \<noteq> [] \<and> token_hash md5 (TrimSpace t) = h)"
  by (induction tokens arbitrary: m) auto

text \<open>The caller shows a configured token, as far as MD5 can tell.\<close>

definition authorized :: "(string \<Rightarrow> bytes) \<Rightarrow> string list \<Rightarrow> string \<Rightarrow> bool" where
  "authorized md5 tokens header \<longleftrightarrow>
     header \<noteq> [] \<and> (\<exists>t \<in> set tokens. TrimSpace t \<noteq> [] \<and> md5 (TrimSpace t) = md5 (bearer_token header))"

lemma authorizationMiddleware_iff:
  "authorizationMiddleware md5 (accessTokensMap md5 tokens) r =
     (if authorized md5 tokens (hq_Authorization r) then None
      else if hq_Authorization r = [] then Some (errorHandler (FiberError 401 ''unauthorized''))
      else Some (errorHandler (FiberError 403 ''forbidden'')))"
proof -
  have "map_of (accessTokensMap md5 tokens) (token_hash md5 x) = None \<longleftrightarrow> \<not> (\<exists>t \<in> set tokens. TrimSpace t \<noteq> [] \<and> md5 (TrimSpace t) = md5 x)" for x
    using accessTokensMap_lookup [of md5 tokens "[]" "token_hash md5 x"] by (simp add: token_hash_def accessTokensMap_def)
  then show ?thesis by (simp add: authorizationMiddleware_def authorized_def)
qed

lemma serve_route:
  "map_of routes (hq_Method r, hq_Path r) = Some (ep, auth) \<Longrightarrow>
   serve_request env mem r c =
     (case (if auth then authorizationMiddleware (he_md5 env) (he_accessTokens env) r else None) of
        Some resp \<Rightarrow> (resp, c) | None \<Rightarrow> run_endpoint env mem ep r c)"
  by (simp add: serve_request_def)

lemma routes_listed:
  "(m, path, ep) \<in> set
      [(''GET'', ''/metrics'', EpMetrics), (''HEAD'', ''/metrics'', EpMetrics),
        (''GET'', ''/api/v1/providers'', EpLatestTelemetry), (''HEAD'', ''/api/v1/providers'', EpLatestTelemetry),
        (''POST'', ''/api/v1/contracts/bags'', EpBags)] \<Longrightarrow>
   map_of routes (m, path) = Some (ep, True)"
  "(m, path, ep) \<in> set
      [(''GET'', ''/health'', EpHealth), (''HEAD'', ''/health'', EpHealth),
        (''GET'', ''/api/v1/providers/filters'', EpFilters), (''HEAD'', ''/api/v1/providers/filters'', EpFilters),
        (''POST'', ''/api/v1/providers/search'', EpSearch), (''POST'', ''/api/v1/providers'', EpUpdateTelemetry),
        (''POST'', ''/api/v1/contracts/statuses'', EpStatuses), (''POST'', ''/api/v1/benchmarks'', EpBenchmarks)] \<Longrightarrow>
   map_of routes (m, path) = Some (ep, False)"
proof -
  have "list_all (\<lambda>(m, path, ep). map_of routes (m, path) = Some (ep, True))
      [(''GET'', ''/metrics'', EpMetrics), (''HEAD'', ''/metrics'', EpMetrics),
        (''GET'', ''/api/v1/providers'', EpLatestTelemetry), (''HEAD'', ''/api/v1/providers'', EpLatestTelemetry),
        (''POST'', ''/api/v1/contracts/bags'', EpBags)]" by code_simp
  then show "(m, path, ep) \<in> set
      [(''GET'', ''/metrics'', EpMetrics), (''HEAD'', ''/metrics'', EpMetrics),
        (''GET'', ''/api/v1/providers'', EpLatestTelemetry), (''HEAD'', ''/api/v1/providers'', EpLatestTelemetry),
        (''POST'', ''/api/v1/contracts/bags'', EpBags)] \<Longrightarrow>
   map_of routes (m, path) = Some (ep, True)" unfolding list_all_iff by blast
  have "list_all (\<lambda>(m, path, ep). map_of routes (m, path) = Some (ep, False))
      [(''GET'', ''/health'', EpHealth), (''HEAD'', ''/health'', EpHealth),
        (''GET'', ''/api/v1/providers/filters'', EpFilters), (''HEAD'', ''/api/v1/providers/filters'', EpFilters),
        (''POST'', ''/api/v1/providers/search'', EpSearch), (''POST'', ''/api/v1/providers'', EpUpdateTelemetry),
        (''POST'', ''/api/v1/contracts/statuses'', EpStatuses), (''POST'', ''/api/v1/benchmarks'', EpBenchmarks)]" by code_simp
  then show "(m, path, ep) \<in> set
      [(''GET'', ''/health'', EpHealth), (''HEAD'', ''/health'', EpHealth),
        (''GET'', ''/api/v1/providers/filters'', EpFilters), (''HEAD'', ''/api/v1/providers/filters'', EpFilters),
        (''POST'', ''/api/v1/providers/search'', EpSearch), (''POST'', ''/api/v1/providers'', EpUpdateTelemetry),
        (''POST'', ''/api/v1/contracts/statuses'', EpStatuses), (''POST'', ''/api/v1/benchmarks'', EpBenchmarks)] \<Longrightarrow>
   map_of routes (m, path) = Some (ep, False)" unfolding list_all_iff by blast
qed

text \<open>
  C20.  Reading the metrics, the latest telemetry and the bags of contracts, also with \<^verbatim>\<open>HEAD\<close>, needs a configured token: a caller
  without one is answered with 401 or 403, and nothing runs or changes; a caller with one is served.  All other routes serve every caller.  A
  configuration without tokens lets nobody in.
\<close>

theorem protected_routes:
  assumes "he_accessTokens env = accessTokensMap (he_md5 env) tokens"
  shows "((hq_Method r, hq_Path r, ep) \<in>
       {(''GET'', ''/metrics'', EpMetrics), (''HEAD'', ''/metrics'', EpMetrics),
        (''GET'', ''/api/v1/providers'', EpLatestTelemetry), (''HEAD'', ''/api/v1/providers'', EpLatestTelemetry),
        (''POST'', ''/api/v1/contracts/bags'', EpBags)} \<longrightarrow>
      serve_request env mem r c =
        (if authorized (he_md5 env) tokens (hq_Authorization r) then run_endpoint env mem ep r c
         else (\<lparr>hr_Status = (if hq_Authorization r = [] then 401 else 403),
                hr_Body = BodyError (if hq_Authorization r = [] then ''unauthorized'' else ''forbidden'')\<rparr>, c))) \<and>
    ((hq_Method r, hq_Path r, ep) \<in>
       {(''GET'', ''/health'', EpHealth), (''HEAD'', ''/health'', EpHealth),
        (''GET'', ''/api/v1/providers/filters'', EpFilters), (''HEAD'', ''/api/v1/providers/filters'', EpFilters),
        (''POST'', ''/api/v1/providers/search'', EpSearch), (''POST'', ''/api/v1/providers'', EpUpdateTelemetry),
        (''POST'', ''/api/v1/contracts/statuses'', EpStatuses), (''POST'', ''/api/v1/benchmarks'', EpBenchmarks)} \<longrightarrow>
      serve_request env mem r c = run_endpoint env mem ep r c) \<and>
    (tokens = [] \<longrightarrow> \<not> authorized (he_md5 env) tokens (hq_Authorization r))"
proof (intro conjI impI)
  assume "(hq_Method r, hq_Path r, ep) \<in>
       {(''GET'', ''/metrics'', EpMetrics), (''HEAD'', ''/metrics'', EpMetrics),
        (''GET'', ''/api/v1/providers'', EpLatestTelemetry), (''HEAD'', ''/api/v1/providers'', EpLatestTelemetry),
        (''POST'', ''/api/v1/contracts/bags'', EpBags)}"
  then have "map_of routes (hq_Method r, hq_Path r) = Some (ep, True)" by - (rule routes_listed(1), simp only: list.set)
  from serve_route [OF this, of env mem c] show "serve_request env mem r c =
        (if authorized (he_md5 env) tokens (hq_Authorization r) then run_endpoint env mem ep r c
         else (\<lparr>hr_Status = (if hq_Authorization r = [] then 401 else 403),
                hr_Body = BodyError (if hq_Authorization r = [] then ''unauthorized'' else ''forbidden'')\<rparr>, c))"
    by (simp add: assms authorizationMiddleware_iff errorHandler_def)
next
  assume "(hq_Method r, hq_Path r, ep) \<in>
       {(''GET'', ''/health'', EpHealth), (''HEAD'', ''/health'', EpHealth),
        (''GET'', ''/api/v1/providers/filters'', EpFilters), (''HEAD'', ''/api/v1/providers/filters'', EpFilters),
        (''POST'', ''/api/v1/providers/search'', EpSearch), (''POST'', ''/api/v1/providers'', EpUpdateTelemetry),
        (''POST'', ''/api/v1/contracts/statuses'', EpStatuses), (''POST'', ''/api/v1/benchmarks'', EpBenchmarks)}"
  then have "map_of routes (hq_Method r, hq_Path r) = Some (ep, False)" by - (rule routes_listed(2), simp only: list.set)
  from serve_route [OF this, of env mem c] show "serve_request env mem r c = run_endpoint env mem ep r c" by simp
qed (simp add: authorized_def)

text \<open>What the handlers other than the two posts do to the buffers of reports.\<close>

definition report_buffers ::
  "('f, 'g, 'j) cache_middleware \<Rightarrow> ('f, 'g, 'j) telemetry_request SimpleCache \<times> body_slice SimpleCache \<times> ('f, 'g) benchmarks_request SimpleCache" where
  "report_buffers c = (mw_telemetryBuffer c, mw_latestTelemetryBuffer c, mw_benchmarksBuffer c)"

lemma other_endpoints_keep:
  "ep \<noteq> EpUpdateTelemetry \<Longrightarrow> ep \<noteq> EpBenchmarks \<Longrightarrow> report_buffers (snd (run_endpoint env mem ep r c)) = report_buffers c"
proof -
  have "report_buffers (snd (mw_GetFiltersRange a n1 n2 c)) = report_buffers c" for a n1 n2
    by (auto simp: mw_GetFiltersRange_def actualFiltersRange_def report_buffers_def split: prod.splits option.splits sum.splits)
  then have "report_buffers (snd (h_filtersRange env c)) = report_buffers c"
    by (simp add: h_filtersRange_def case_prod_beta split: sum.splits)
  then show "ep \<noteq> EpUpdateTelemetry \<Longrightarrow> ep \<noteq> EpBenchmarks \<Longrightarrow> report_buffers (snd (run_endpoint env mem ep r c)) = report_buffers c"
    by (cases ep) (simp_all add: run_endpoint_def)
qed

text \<open>A post from the address that the repository has for the provider.\<close>

definition from_provider :: "('f, 'g, 'j) http_env \<Rightarrow> http_request \<Rightarrow> string \<Rightarrow> bool" where
  "from_provider env r pk \<longleftrightarrow> pk \<noteq> [] \<and> (\<exists>ip. he_getProviderIP env pk = Inr ip \<and> SameIP (requestSourceIP r) ip)"

definition telemetry_stored :: "('f, 'g, 'j) http_env \<Rightarrow> http_request \<Rightarrow> ('f, 'g, 'j) cache_middleware \<Rightarrow> ('f, 'g, 'j) cache_middleware \<Rightarrow> bool" where
  "telemetry_stored env r c c' \<longleftrightarrow>
     (\<exists>req. he_unmarshalTelemetry env (hq_Body r) = Inr req \<and> from_provider env r (telemetry_pubkey req) \<and>
        report_buffers c' =
          (cache_Set (he_now1 env) (ToLower (telemetry_pubkey req))
             (case he_copyTelemetry env (req\<lparr>tr_XRealIP := requestSourceIP r\<rparr>) of Some u \<Rightarrow> u | None \<Rightarrow> req\<lparr>tr_XRealIP := requestSourceIP r\<rparr>)
             (mw_telemetryBuffer c),
           cache_Set (he_now2 env) (ToLower (telemetry_pubkey req)) (c_Body r) (mw_latestTelemetryBuffer c), mw_benchmarksBuffer c))"

definition benchmarks_stored :: "('f, 'g, 'j) http_env \<Rightarrow> http_request \<Rightarrow> ('f, 'g, 'j) cache_middleware \<Rightarrow> ('f, 'g, 'j) cache_middleware \<Rightarrow> bool" where
  "benchmarks_stored env r c c' \<longleftrightarrow>
     (\<exists>req. he_unmarshalBenchmarks env (hq_Body r) = Inr req \<and> from_provider env r (bq_PubKey req) \<and>
        report_buffers c' =
          (mw_telemetryBuffer c, mw_latestTelemetryBuffer c,
           cache_Set (he_now1 env) (ToLower (bq_PubKey req))
             (case he_copyBenchmarks env (req\<lparr>bq_XRealIP := requestSourceIP r\<rparr>) of Some u \<Rightarrow> u | None \<Rightarrow> req\<lparr>bq_XRealIP := requestSourceIP r\<rparr>)
             (mw_benchmarksBuffer c)))"

lemma updateTelemetry_cases:
  assumes "h_updateTelemetry env mem r c = (resp, c')"
  shows "c' = c \<or> hr_Status resp = 200 \<and> telemetry_stored env r c c'"
proof (cases "he_unmarshalTelemetry env (hq_Body r)")
  case (Inl err)
  then show ?thesis using assms by (auto simp: h_updateTelemetry_def split: if_splits)
next
  case (Inr req)
  let ?req = "req\<lparr>tr_XRealIP := requestSourceIP r\<rparr>"
  obtain err c1 where run: "mw_UpdateTelemetry (he_getProviderIP env) (he_copyTelemetry env) (he_now1 env) (he_now2 env) mem ?req (c_Body r) c = (err, c1)"
    by fastforce
  show ?thesis
  proof (cases err)
    case (Some e)
    then have "c1 = c" using run by (auto simp: mw_UpdateTelemetry_def Let_def split: option.splits)
    then show ?thesis using assms Inr run Some by (auto simp: h_updateTelemetry_def split: if_splits)
  next
    case None
    note acc = accepted_telemetry [OF run [unfolded None]]
    have "telemetry_pubkey ?req = telemetry_pubkey req" by (simp add: telemetry_pubkey_def)
    then have "telemetry_stored env r c c1" using acc Inr by (auto simp: telemetry_stored_def from_provider_def report_buffers_def)
    then show ?thesis using assms Inr run None by (auto simp: h_updateTelemetry_def c_JSON_def okHandler_def ok_response_def split: if_splits)
  qed
qed

lemma updateBenchmarks_cases:
  assumes "h_updateBenchmarks env r c = (resp, c')"
  shows "c' = c \<or> hr_Status resp = 200 \<and> benchmarks_stored env r c c'"
proof (cases "he_unmarshalBenchmarks env (hq_Body r)")
  case (Inl err)
  then show ?thesis using assms by (auto simp: h_updateBenchmarks_def split: if_splits)
next
  case (Inr req)
  let ?req = "req\<lparr>bq_XRealIP := requestSourceIP r\<rparr>"
  obtain err c1 where run: "mw_UpdateBenchmarks (he_getProviderIP env) (he_copyBenchmarks env) (he_now1 env) ?req c = (err, c1)"
    by fastforce
  show ?thesis
  proof (cases err)
    case (Some e)
    then have "c1 = c" using run by (auto simp: mw_UpdateBenchmarks_def Let_def split: option.splits)
    then show ?thesis using assms Inr run Some by (auto simp: h_updateBenchmarks_def split: if_splits)
  next
    case None
    then have "benchmarks_stored env r c c1" using run Inr
      by (auto simp: benchmarks_stored_def from_provider_def report_buffers_def mw_UpdateBenchmarks_def service_UpdateBenchmarks_def
          verifyProviderSourceIP_def Let_def split: option.splits if_splits sum.splits)
    then show ?thesis using assms Inr run None by (auto simp: h_updateBenchmarks_def c_JSON_def okHandler_def ok_response_def split: if_splits)
  qed
qed

text \<open>
  C21.  Over HTTP the three buffers of reports change in two ways only: a post of telemetry, or one of benchmarks, that is answered with 200,
  whose body decodes to a report with a key and which comes from the address that the repository has for that key.  The first stores the report and its body
  under that key in the two telemetry buffers, the second the report in the buffer of benchmarks.  Every other request, rejected or served,
  leaves all three as they were.
\<close>

theorem telemetry_buffer_guarded:
  assumes "serve_request env mem r c = (resp, c')"
  shows "report_buffers c' = report_buffers c \<or>
    hq_Method r = ''POST'' \<and> hq_Path r = ''/api/v1/providers'' \<and> hr_Status resp = 200 \<and> telemetry_stored env r c c' \<or>
    hq_Method r = ''POST'' \<and> hq_Path r = ''/api/v1/benchmarks'' \<and> hr_Status resp = 200 \<and> benchmarks_stored env r c c'"
proof (cases "c' = c")
  case False
  then obtain ep auth where route: "map_of routes (hq_Method r, hq_Path r) = Some (ep, auth)" "run_endpoint env mem ep r c = (resp, c')"
    using assms by (auto simp: serve_request_def split: option.splits if_splits)
  consider "ep = EpUpdateTelemetry" | "ep = EpBenchmarks" | "ep \<noteq> EpUpdateTelemetry" "ep \<noteq> EpBenchmarks" by blast
  then show ?thesis
  proof cases
    case 1
    then have "hq_Method r = ''POST'' \<and> hq_Path r = ''/api/v1/providers''" using route(1) by (auto simp: routes_def split: if_splits)
    then show ?thesis using 1 route(2) updateTelemetry_cases [of env mem r c resp c'] False by (simp add: run_endpoint_def)
  next
    case 2
    then have "hq_Method r = ''POST'' \<and> hq_Path r = ''/api/v1/benchmarks''" using route(1) by (auto simp: routes_def split: if_splits)
    then show ?thesis using 2 route(2) updateBenchmarks_cases [of env r c resp c'] False by (simp add: run_endpoint_def)
  next
    case 3
    then show ?thesis using other_endpoints_keep [of ep env mem r c] route(2) by simp
  qed
qed simp

text \<open>A telemetry post that is accepted is answered with the body \<^verbatim>\<open>null\<close>, since the second write wins.\<close>

lemma accepted_post_body_null:
  assumes "prefix ''{'' (hq_Body r)" "he_unmarshalTelemetry env (hq_Body r) = Inr req"
    "service_UpdateTelemetry (he_getProviderIP env) (req\<lparr>tr_XRealIP := requestSourceIP r\<rparr>) (hq_Body r) = None"
    "read_body mem (c_Body r) = hq_Body r"
  shows "fst (h_updateTelemetry env mem r c) = \<lparr>hr_Status = 200, hr_Body = BodyNull\<rparr>"
  using assms by (simp add: h_updateTelemetry_def mw_UpdateTelemetry_def c_JSON_def okHandler_def ok_response_def Let_def)

definition sample_http :: "(nat, nat, nat) http_env" where
  "sample_http = \<lparr>he_md5 = map (\<lambda>c. word_of_nat (of_char c)), he_accessTokens = accessTokensMap (map (\<lambda>c. word_of_nat (of_char c))) [''s''],
     he_unmarshalSearch = \<lambda>_. Inl ErrCanceled, he_unmarshalTelemetry = \<lambda>_. Inr sample_report, he_unmarshalBenchmarks = \<lambda>_. Inl ErrCanceled,
     he_unmarshalContracts = \<lambda>_. Inl ErrCanceled, he_unmarshalBags = \<lambda>_. Inl ErrCanceled, he_unmarshalAny = \<lambda>_. Inl ErrCanceled,
     he_SearchProviders = \<lambda>_. Inr [], he_FiltersRange = Inl ErrCanceled, he_ContractsChecks = \<lambda>_. Inr [], he_ContractBags = \<lambda>_. Inr ([], 0),
     he_getProviderIP = \<lambda>_. Inr ''10.0.0.1'', he_copyTelemetry = \<lambda>t. Some (t\<lparr>tr_XRealIP := []\<rparr>), he_copyBenchmarks = \<lambda>b. None,
     he_now1 = 0, he_now2 = 0, he_ord1 = \<lambda>ks. ks, he_ord2 = \<lambda>ks. ks, he_notFound = \<lambda>_. \<lparr>hr_Status = 404, hr_Body = BodyNull\<rparr>\<rparr>"

definition sample_get :: "string \<Rightarrow> http_request" where
  "sample_get auth = \<lparr>hq_Method = ''HEAD'', hq_Path = ''/metrics'', hq_Authorization = auth, hq_XRealIP = [], hq_PeerIP = ''10.0.0.9'', hq_Body = [],
     hq_Buffer = 1\<rparr>"

theorem protected_routes_witness:
  "fst (serve_request sample_http sample_memory (sample_get []) sample_middleware) = \<lparr>hr_Status = 401, hr_Body = BodyError ''unauthorized''\<rparr>"
proof -
  have "he_accessTokens sample_http = accessTokensMap (he_md5 sample_http) [''s'']" by (simp add: sample_http_def)
  from protected_routes [OF this, of "sample_get []" EpMetrics sample_memory sample_middleware] show ?thesis
    by (simp add: sample_get_def authorized_def)
qed

definition sample_post :: http_request where
  "sample_post = \<lparr>hq_Method = ''POST'', hq_Path = ''/api/v1/providers'', hq_Authorization = [], hq_XRealIP = ''10.0.0.1'',
     hq_PeerIP = ''10.0.0.9'', hq_Body = ''{}'', hq_Buffer = 0\<rparr>"

theorem telemetry_buffer_guarded_witness:
  "\<exists>resp c. serve_request sample_http sample_memory sample_post sample_middleware = (resp, c) \<and>
     hr_Status resp = 200 \<and> telemetry_stored sample_http sample_post sample_middleware c"
proof -
  obtain c where c: "mw_UpdateTelemetry (\<lambda>_. Inr ''10.0.0.1'') (\<lambda>t. Some (t\<lparr>tr_XRealIP := []\<rparr>)) 0 0 sample_memory sample_report sample_slice sample_middleware = (None, c)"
    using sample_report_accepted by blast
  have same: "sample_report\<lparr>tr_XRealIP := ''10.0.0.1''\<rparr> = sample_report" "c_Body sample_post = sample_slice"
    by (simp_all add: sample_report_def c_Body_def sample_post_def sample_slice_def)
  obtain resp where r: "serve_request sample_http sample_memory sample_post sample_middleware = (resp, c)"
    using c same by (simp add: serve_request_def routes_def sample_post_def run_endpoint_def h_updateTelemetry_def sample_http_def requestSourceIP_def)
  have "mw_telemetryBuffer c \<noteq> mw_telemetryBuffer sample_middleware"
    using accepted_telemetry(2) [OF c] by (simp add: cache_Set_def sample_middleware_def NewCacheMiddleware_def NewSimpleCache_def)
  then have "report_buffers c \<noteq> report_buffers sample_middleware" by (simp add: report_buffers_def)
  then have "hr_Status resp = 200" "telemetry_stored sample_http sample_post sample_middleware c"
    using telemetry_buffer_guarded [OF r] by (auto simp: sample_post_def)
  then show ?thesis using r by blast
qed

end
