(* ===== verification/AgentConfig.thy ===== *)
theory AgentConfig
  imports Checker Strconv
begin

text \<open>
  \<^verbatim>\<open>agent/internal/config/config.go\<close>: the configuration of an agent from its environment, and how \<^verbatim>\<open>grpcserver.New\<close> hands it to
  the checker.  The environment is a function; \<open>keygen\<close> is \<^verbatim>\<open>ed25519.GenerateKey\<close>, \<open>fromSeed\<close> is \<^verbatim>\<open>ed25519.NewKeyFromSeed\<close>.  Both
  integers and durations are 64 bits wide, so the product that makes a duration wraps.
\<close>

record agent_config =
  cfg_ListenAddr :: string
  cfg_AgentID :: string
  cfg_Location :: string
  cfg_AuthToken :: string
  cfg_TLSCertFile :: string
  cfg_TLSKeyFile :: string
  cfg_MaxConcurrentProviders :: int
  cfg_MaxConcurrentBags :: int
  cfg_PieceMinBPS :: "64 word"
  cfg_PieceTimeoutCap :: "64 word"
  cfg_TonConfigURL :: string
  cfg_AdnlPort :: string
  cfg_AdnlPrivateKey :: bytes
  cfg_MaxConcurrentRates :: int
  cfg_MetricsListenAddr :: string
  cfg_LokiURL :: string

definition TrimRight :: "string \<Rightarrow> string \<Rightarrow> string" where
  "TrimRight s cutset = rev (dropWhile (\<lambda>c. c \<in> set cutset) (rev s))"

definition envOrDefault :: "(string \<Rightarrow> string) \<Rightarrow> string \<Rightarrow> string \<Rightarrow> string" where
  "envOrDefault getenv key fallback = (let v = getenv key in if v = [] then fallback else v)"

text \<open>An optional positive number; \<open>old\<close> is the value when the variable is unset.\<close>

definition positive_env :: "(string \<Rightarrow> string) \<Rightarrow> string \<Rightarrow> int \<Rightarrow> go_error + int" where
  "positive_env getenv key old =
     (let s = getenv key
      in if s = [] then Inr old
         else (case Atoi s of
                 (v, err) \<Rightarrow> if err \<noteq> None \<or> v \<le> 0 then Inl (ErrText (''invalid '' @ key @ '': '' @ quote_text s)) else Inr v))"

definition bps_env :: "(string \<Rightarrow> string) \<Rightarrow> go_error + 64 word" where
  "bps_env getenv =
     (let s = getenv ''AGENT_PIECE_MIN_BPS''
      in if s = [] then Inr 312500
         else (case ParseUint s of
                 UInt v \<Rightarrow> if v = 0 then Inl (ErrText (''invalid AGENT_PIECE_MIN_BPS: '' @ quote_text s)) else Inr (word_of_nat v)
               | _ \<Rightarrow> Inl (ErrText (''invalid AGENT_PIECE_MIN_BPS: '' @ quote_text s))))"

definition cap_env :: "(string \<Rightarrow> string) \<Rightarrow> go_error + 64 word" where
  "cap_env getenv =
     (let key = ''AGENT_PIECE_TIMEOUT_CAP_MS''
      in if getenv key = [] then Inr 15000000000
         else (case positive_env getenv key 0 of Inl err \<Rightarrow> Inl err | Inr v \<Rightarrow> Inr (word_of_int v * 1000000)))"

definition adnl_key :: "(string \<Rightarrow> string) \<Rightarrow> (bytes \<Rightarrow> bytes) \<Rightarrow> go_error + bytes \<Rightarrow> go_error + bytes" where
  "adnl_key getenv fromSeed keygen =
     (let seedHex = TrimSpace (getenv ''AGENT_ADNL_KEY'')
      in if seedHex \<noteq> []
         then (case hex_DecodeString seedHex of
                 Inl err \<Rightarrow> Inl (ErrWrap ''decode AGENT_ADNL_KEY'' err)
               | Inr raw \<Rightarrow>
                  if length raw \<noteq> 32 then Inl (ErrText ''AGENT_ADNL_KEY must be 64 hex chars (Ed25519 seed)'')
                  else Inr (fromSeed raw))
         else (case keygen of Inl err \<Rightarrow> Inl (ErrWrap ''generate ADNL key'' err) | Inr priv \<Rightarrow> Inr priv))"

definition Load :: "(string \<Rightarrow> string) \<Rightarrow> (bytes \<Rightarrow> bytes) \<Rightarrow> go_error + bytes \<Rightarrow> go_error + agent_config" where
  "Load getenv fromSeed keygen =
     (case positive_env getenv ''AGENT_MAX_CONCURRENT_PROVIDERS'' 40 of
        Inl err \<Rightarrow> Inl err
      | Inr provs \<Rightarrow>
     (case positive_env getenv ''AGENT_MAX_CONCURRENT_RATES'' 0 of
        Inl err \<Rightarrow> Inl err
      | Inr rates \<Rightarrow>
     (case positive_env getenv ''AGENT_MAX_CONCURRENT_BAGS'' 4 of
        Inl err \<Rightarrow> Inl err
      | Inr bags \<Rightarrow>
     (case bps_env getenv of
        Inl err \<Rightarrow> Inl err
      | Inr bps \<Rightarrow>
     (case cap_env getenv of
        Inl err \<Rightarrow> Inl err
      | Inr cap \<Rightarrow>
         if getenv ''AGENT_AUTH_TOKEN'' = [] then Inl (ErrText ''AGENT_AUTH_TOKEN is required'')
         else if getenv ''AGENT_TLS_CERT_FILE'' = [] then Inl (ErrText ''AGENT_TLS_CERT_FILE is required'')
         else if getenv ''AGENT_TLS_KEY_FILE'' = [] then Inl (ErrText ''AGENT_TLS_KEY_FILE is required'')
         else
          (case adnl_key getenv fromSeed keygen of
             Inl err \<Rightarrow> Inl err
           | Inr key \<Rightarrow>
              Inr \<lparr>cfg_ListenAddr = envOrDefault getenv ''AGENT_LISTEN_ADDR'' '':8443'', cfg_AgentID = envOrDefault getenv ''AGENT_ID'' ''agent'',
                   cfg_Location = envOrDefault getenv ''AGENT_LOCATION'' ''unknown'', cfg_AuthToken = getenv ''AGENT_AUTH_TOKEN'',
                   cfg_TLSCertFile = getenv ''AGENT_TLS_CERT_FILE'', cfg_TLSKeyFile = getenv ''AGENT_TLS_KEY_FILE'',
                   cfg_MaxConcurrentProviders = provs, cfg_MaxConcurrentBags = bags, cfg_PieceMinBPS = bps, cfg_PieceTimeoutCap = cap,
                   cfg_TonConfigURL = envOrDefault getenv ''AGENT_TON_CONFIG_URL'' ''https://ton-blockchain.github.io/global.config.json'',
                   cfg_AdnlPort = envOrDefault getenv ''AGENT_ADNL_PORT'' ''16167'', cfg_AdnlPrivateKey = key, cfg_MaxConcurrentRates = rates,
                   cfg_MetricsListenAddr = TrimSpace (getenv ''AGENT_METRICS_LISTEN_ADDR''),
                   cfg_LokiURL = TrimSpace (TrimRight (getenv ''AGENT_LOKI_URL'') ''/'')\<rparr>))))))"

definition checker_options :: "agent_config \<Rightarrow> options" where
  "checker_options cfg = \<lparr>op_MaxConcurrentProviders = cfg_MaxConcurrentProviders cfg, op_MaxConcurrentBags = cfg_MaxConcurrentBags cfg,
     op_PieceMinBPS = cfg_PieceMinBPS cfg, op_PieceTimeoutCap = cfg_PieceTimeoutCap cfg\<rparr>"

section \<open>A loaded configuration is well formed\<close>

text \<open>
  What may be relied on: the texts that are needed are there, the limits are positive and fit an \<^verbatim>\<open>int\<close>, the throughput floor is not
  zero.  The upper bound of a piece's time and the key are related to the variables by \<open>cap_from\<close> and \<open>key_from\<close>.
\<close>

definition config_ok :: "agent_config \<Rightarrow> bool" where
  "config_ok cfg \<longleftrightarrow>
     cfg_ListenAddr cfg \<noteq> [] \<and> cfg_AgentID cfg \<noteq> [] \<and> cfg_Location cfg \<noteq> [] \<and> cfg_TonConfigURL cfg \<noteq> [] \<and> cfg_AdnlPort cfg \<noteq> [] \<and>
     cfg_AuthToken cfg \<noteq> [] \<and> cfg_TLSCertFile cfg \<noteq> [] \<and> cfg_TLSKeyFile cfg \<noteq> [] \<and>
     0 < cfg_MaxConcurrentProviders cfg \<and> cfg_MaxConcurrentProviders cfg < 2 ^ 63 \<and>
     0 < cfg_MaxConcurrentBags cfg \<and> cfg_MaxConcurrentBags cfg < 2 ^ 63 \<and>
     0 \<le> cfg_MaxConcurrentRates cfg \<and> cfg_MaxConcurrentRates cfg < 2 ^ 63 \<and> cfg_PieceMinBPS cfg \<noteq> 0"

definition cap_from :: "string \<Rightarrow> 64 word \<Rightarrow> bool" where
  "cap_from text cap \<longleftrightarrow>
     (if text = [] then sint cap = 15 * 10 ^ 9
      else \<exists>v. Atoi text = (v, None) \<and> 0 < v \<and> (if v * 10 ^ 6 < 2 ^ 63 then sint cap = v * 10 ^ 6 else cap = word_of_int (v * 10 ^ 6)))"

definition key_from :: "(bytes \<Rightarrow> bytes) \<Rightarrow> go_error + bytes \<Rightarrow> string \<Rightarrow> bytes \<Rightarrow> bool" where
  "key_from fromSeed keygen text key \<longleftrightarrow>
     (if TrimSpace text = [] then keygen = Inr key
      else \<exists>raw. hex_DecodeString (TrimSpace text) = Inr raw \<and> length raw = 32 \<and> key = fromSeed raw)"

lemma positive_env_range: "positive_env getenv key old = Inr v \<Longrightarrow> v = old \<or> 0 < v \<and> v < 2 ^ 63"
  using ParseInt_range [of "''Atoi''" "getenv key"]
  by (auto simp: positive_env_def Atoi_def Let_def split: if_splits prod.splits)

lemma bps_env_nonzero:
  assumes "bps_env getenv = Inr bps"
  shows "bps \<noteq> 0"
proof (cases "getenv ''AGENT_PIECE_MIN_BPS'' = []")
  case True
  then show ?thesis using assms by (auto simp: bps_env_def Let_def)
next
  case False
  then obtain v where v: "ParseUint (getenv ''AGENT_PIECE_MIN_BPS'') = UInt v" "v \<noteq> 0" "bps = word_of_nat v"
    using assms by (auto simp: bps_env_def Let_def split: parsed_uint.splits if_splits)
  have "parse_uint n s = UInt v \<Longrightarrow> n < 2 ^ 64 \<Longrightarrow> v < 2 ^ 64" for n s
    by (induction n s rule: parse_uint.induct) (auto split: option.splits if_splits)
  then have "v < 2 ^ 64" using v(1) by (auto simp: ParseUint_def split: if_splits)
  then have "unat (word_of_nat v :: 64 word) = v" by (simp add: unsigned_of_nat take_bit_nat_eq_self)
  then show ?thesis using v(2,3) by auto
qed

lemma cap_env_from:
  assumes "cap_env getenv = Inr cap"
  shows "cap_from (getenv ''AGENT_PIECE_TIMEOUT_CAP_MS'') cap"
proof (cases "getenv ''AGENT_PIECE_TIMEOUT_CAP_MS'' = []")
  case False
  then obtain v where v: "positive_env getenv ''AGENT_PIECE_TIMEOUT_CAP_MS'' 0 = Inr v" "cap = word_of_int v * 1000000"
    using assms by (auto simp: cap_env_def Let_def split: sum.splits)
  then have "Atoi (getenv ''AGENT_PIECE_TIMEOUT_CAP_MS'') = (v, None)" "0 < v"
    using False by (auto simp: positive_env_def Let_def split: prod.splits if_splits)
  moreover have "cap = word_of_int (v * 10 ^ 6)" using v(2) by simp
  moreover from this have "sint cap = v * 10 ^ 6" if "v * 10 ^ 6 < 2 ^ 63"
    unfolding \<open>cap = word_of_int (v * 10 ^ 6)\<close> using that \<open>0 < v\<close> by (intro sint64_of_small) simp_all
  ultimately show ?thesis using False by (auto simp: cap_from_def)
qed (use assms in \<open>auto simp: cap_env_def cap_from_def\<close>)

lemma adnl_key_from: "adnl_key getenv fromSeed keygen = Inr key \<Longrightarrow> key_from fromSeed keygen (getenv ''AGENT_ADNL_KEY'') key"
  by (auto simp: adnl_key_def key_from_def Let_def split: sum.splits if_splits)

lemma checker_New_ceiling:
  assumes "0 < op_MaxConcurrentProviders opts" "0 < op_MaxConcurrentBags opts"
    "op_MaxConcurrentProviders opts * op_MaxConcurrentBags opts < 2 ^ 63"
  shows "\<exists>ck. checker_New None opts = Inr ck \<and> pl_max (ck_pieces ck) = op_MaxConcurrentProviders opts * op_MaxConcurrentBags opts"
proof -
  let ?p = "op_MaxConcurrentProviders opts" and ?b = "op_MaxConcurrentBags opts"
  have "0 < ?p * ?b" using assms(1,2) by simp
  then have "sint (word_of_int (?p * ?b) :: 64 word) = ?p * ?b" using assms(3) by (intro sint64_of_small) simp_all
  then have "sint (word_of_int ?p * word_of_int ?b :: 64 word) = ?p * ?b" by (simp only: of_int_mult)
  moreover have "1 \<le> ?p * ?b" using \<open>0 < ?p * ?b\<close> by simp
  ultimately show ?thesis using assms(1,2) by (simp add: checker_New_def newPieceLimit_def aimdMinLimit_def Let_def)
qed

text \<open>
  C37.  Whatever the environment holds, loading either fails or gives a configuration in range: every required text is there, the
  limits are positive and fit an \<^verbatim>\<open>int\<close>, the throughput floor is not zero.  The upper bound of a piece's time is 15 seconds or the
  positive number of milliseconds that the variable gives, exact as long as it fits 2^63 nanoseconds and wrapped beyond; the ADNL
  key is generated, or made from the seed of exactly 32 bytes the variable gives.  The checker that is built from it works with exactly these
  limits, none of its own defaults, and its piece limit may grow to the product of providers and bags when that fits an \<^verbatim>\<open>int\<close>.
\<close>

theorem Load_well_formed:
  assumes "Load getenv fromSeed keygen = Inr cfg"
  shows "config_ok cfg \<and> cap_from (getenv ''AGENT_PIECE_TIMEOUT_CAP_MS'') (cfg_PieceTimeoutCap cfg) \<and>
    key_from fromSeed keygen (getenv ''AGENT_ADNL_KEY'') (cfg_AdnlPrivateKey cfg) \<and>
    (\<exists>ck. checker_New None (checker_options cfg) = Inr ck \<and> ck_maxConcurrentProviders ck = cfg_MaxConcurrentProviders cfg \<and>
       ck_maxConcurrentBags ck = cfg_MaxConcurrentBags cfg \<and> ck_pieceMinBPS ck = cfg_PieceMinBPS cfg \<and>
       ck_pieceTimeoutCap ck = cfg_PieceTimeoutCap cfg \<and>
       (cfg_MaxConcurrentProviders cfg * cfg_MaxConcurrentBags cfg < 2 ^ 63 \<longrightarrow>
          pl_max (ck_pieces ck) = cfg_MaxConcurrentProviders cfg * cfg_MaxConcurrentBags cfg))"
proof -
  obtain provs rates bags bps where p: "positive_env getenv ''AGENT_MAX_CONCURRENT_PROVIDERS'' 40 = Inr provs"
    "positive_env getenv ''AGENT_MAX_CONCURRENT_RATES'' 0 = Inr rates" "positive_env getenv ''AGENT_MAX_CONCURRENT_BAGS'' 4 = Inr bags"
    "bps_env getenv = Inr bps"
    and given: "cap_env getenv = Inr (cfg_PieceTimeoutCap cfg)" "adnl_key getenv fromSeed keygen = Inr (cfg_AdnlPrivateKey cfg)"
    and cfg: "cfg_MaxConcurrentProviders cfg = provs" "cfg_MaxConcurrentRates cfg = rates" "cfg_MaxConcurrentBags cfg = bags" "cfg_PieceMinBPS cfg = bps"
    and req: "cfg_AuthToken cfg \<noteq> []" "cfg_TLSCertFile cfg \<noteq> []" "cfg_TLSKeyFile cfg \<noteq> []"
    and texts: "cfg_ListenAddr cfg \<noteq> []" "cfg_AgentID cfg \<noteq> []" "cfg_Location cfg \<noteq> []" "cfg_TonConfigURL cfg \<noteq> []" "cfg_AdnlPort cfg \<noteq> []"
    using assms by (auto simp: Load_def envOrDefault_def Let_def split: sum.splits if_splits)
  have lims: "0 < provs" "provs < 2 ^ 63" "0 < bags" "bags < 2 ^ 63" "0 \<le> rates" "rates < 2 ^ 63"
    using positive_env_range [OF p(1)] positive_env_range [OF p(2)] positive_env_range [OF p(3)] by auto
  then have "config_ok cfg" using cfg req texts bps_env_nonzero [OF p(4)] by (simp add: config_ok_def)
  moreover obtain ck where ck: "checker_New None (checker_options cfg) = Inr ck" "ck_maxConcurrentProviders ck = cfg_MaxConcurrentProviders cfg"
    "ck_maxConcurrentBags ck = cfg_MaxConcurrentBags cfg" "ck_pieceMinBPS ck = cfg_PieceMinBPS cfg" "ck_pieceTimeoutCap ck = cfg_PieceTimeoutCap cfg"
    using lims cfg by (simp add: checker_New_def checker_options_def Let_def)
  moreover have "pl_max (ck_pieces ck) = provs * bags" if "provs * bags < 2 ^ 63"
    using checker_New_ceiling [of "checker_options cfg"] lims cfg that ck(1) by (auto simp: checker_options_def)
  ultimately show ?thesis using cap_env_from [OF given(1)] adnl_key_from [OF given(2)] cfg by blast
qed

text \<open>A product that wraps to 0 is accepted too: the limit then stays at one piece at a time, whatever the configured concurrency.\<close>

lemma ceiling_wraps:
  assumes "op_MaxConcurrentProviders opts = 2 ^ 62" "op_MaxConcurrentBags opts = 4"
  shows "\<exists>ck. checker_New None opts = Inr ck \<and> pl_limit (ck_pieces ck) = 1 \<and> pl_max (ck_pieces ck) = 1"
  using assms by (simp add: checker_New_def Let_def aimdMinLimit_def newPieceLimit_def)

definition sample_environ :: "string \<Rightarrow> string" where
  "sample_environ k = (if k \<in> {''AGENT_AUTH_TOKEN'', ''AGENT_TLS_CERT_FILE'', ''AGENT_TLS_KEY_FILE''} then ''x''
     else if k = ''AGENT_MAX_CONCURRENT_BAGS'' then ''9'' else [])"

lemma sample_env_loads: "\<exists>cfg. Load sample_environ id (Inr [1]) = Inr cfg"
  by (simp add: Load_def sample_environ_def positive_env_def Atoi_def ParseInt_def ParseUint_def bps_env_def cap_env_def adnl_key_def
      digit_value_def Let_def)

theorem Load_well_formed_witness: "\<exists>cfg. Load sample_environ id (Inr [1]) = Inr cfg \<and> config_ok cfg"
  using sample_env_loads Load_well_formed by blast

text \<open>A cap of more than 2^63 nanoseconds wraps: this one is accepted and negative.\<close>

lemma cap_wraps: "positive_env getenv ''AGENT_PIECE_TIMEOUT_CAP_MS'' 0 = Inr 9223372036855 \<Longrightarrow>
    getenv ''AGENT_PIECE_TIMEOUT_CAP_MS'' \<noteq> [] \<Longrightarrow> \<exists>cap. cap_env getenv = Inr cap \<and> sint cap < 0"
  by (simp add: cap_env_def)

end
