(* ===== verification/Memory.thy ===== *)
theory Memory
  imports Collect
begin

text \<open>
  \<^verbatim>\<open>coordinator/internal/repositories/providers/inmemory\<close> and \<^verbatim>\<open>repositories/system/inmemory\<close>: the repositories
  that \<^verbatim>\<open>dump-runchecks\<close> uses in place of Postgres.  Their maps are association lists; every operation holds the
  mutex for its whole body, so an interleaving is a sequence of operations.  The state of the two together is the
  pair \<open>mem_db\<close>, which provides the interfaces the collecting workers of \<open>Collect\<close> rely on.
\<close>

section \<open>Providers\<close>

record provider_row =
  prow_publicKey :: string
  prow_address :: string
  prow_lastLT :: "64 word"

type_synonym storage_key = "string \<times> string"

record storage_row =
  srow_address :: string
  srow_providerAddress :: string
  srow_bagID :: string
  srow_ownerAddr :: string
  srow_size :: "64 word"
  srow_chunkSize :: "64 word"
  srow_lastLT :: "64 word"

record mem_repo =
  mr_providers :: "provider_row go_map"
  mr_storage :: "(storage_key \<times> storage_row) list"

definition mem_NewRepository :: mem_repo where
  "mem_NewRepository = \<lparr>mr_providers = [], mr_storage = []\<rparr>"

definition normPub :: "string \<Rightarrow> string" where
  "normPub s = ToLower (TrimSpace s)"

definition mem_GetAllProvidersPubkeys :: "order \<Rightarrow> mem_repo \<Rightarrow> string list" where
  "mem_GetAllProvidersPubkeys ord r =
     map prow_publicKey (List.map_filter (map_of (mr_providers r)) (range_keys ord (mr_providers r)))"

definition mem_GetAllProvidersWallets :: "order \<Rightarrow> mem_repo \<Rightarrow> provider_wallet list" where
  "mem_GetAllProvidersWallets ord r =
     map (\<lambda>row. \<lparr>pw_PubKey = prow_publicKey row, pw_Address = prow_address row, pw_LT = prow_lastLT row\<rparr>)
       (List.map_filter (map_of (mr_providers r)) (range_keys ord (mr_providers r)))"

definition set_lt :: "provider_wallet_lt \<Rightarrow> provider_row go_map \<Rightarrow> provider_row go_map" where
  "set_lt u m =
     (let pk = normPub (pwl_PubKey u)
      in case map_of m pk of None \<Rightarrow> m | Some row \<Rightarrow> AList.update pk (row\<lparr>prow_lastLT := pwl_LT u\<rparr>) m)"

definition mem_UpdateProvidersLT :: "provider_wallet_lt list \<Rightarrow> mem_repo \<Rightarrow> mem_repo" where
  "mem_UpdateProvidersLT updates r = r\<lparr>mr_providers := fold set_lt updates (mr_providers r)\<rparr>"

definition add_provider :: "provider_create \<Rightarrow> provider_row go_map \<Rightarrow> provider_row go_map" where
  "add_provider p m =
     (let pk = normPub (pc_Pubkey p)
      in if pk = [] then m
         else if map_of m pk \<noteq> None then m
         else AList.update pk \<lparr>prow_publicKey = pk, prow_address = TrimSpace (pc_Address p), prow_lastLT = 0\<rparr> m)"

definition mem_AddProviders :: "provider_create list \<Rightarrow> mem_repo \<Rightarrow> mem_repo" where
  "mem_AddProviders providers r = r\<lparr>mr_providers := fold add_provider providers (mr_providers r)\<rparr>"

section \<open>Storage contracts\<close>

definition add_relation ::
  "storage_contract \<Rightarrow> string \<Rightarrow> (storage_key \<times> storage_row) list \<Rightarrow> (storage_key \<times> storage_row) list" where
  "add_relation c provAddr m =
     (let provAddr = TrimSpace provAddr
      in if provAddr = [] then m
         else AList.update (TrimSpace (sc_Address c), provAddr)
                \<lparr>srow_address = TrimSpace (sc_Address c), srow_providerAddress = provAddr, srow_bagID = TrimSpace (sc_BagID c),
                 srow_ownerAddr = TrimSpace (sc_OwnerAddr c), srow_size = sc_Size c, srow_chunkSize = sc_ChunkSize c,
                 srow_lastLT = sc_LastLT c\<rparr> m)"

definition mem_AddStorageContracts :: "order \<Rightarrow> storage_contract list \<Rightarrow> mem_repo \<Rightarrow> mem_repo" where
  "mem_AddStorageContracts ord contracts r =
     r\<lparr>mr_storage := fold (\<lambda>c. fold (add_relation c) (range_keys ord (sc_ProvidersAddresses c))) contracts (mr_storage r)\<rparr>"

text \<open>The search for the provider with a wallet stops at the first one in the order of the map.\<close>

definition wallet_owner :: "order \<Rightarrow> mem_repo \<Rightarrow> string \<Rightarrow> string" where
  "wallet_owner ord r addr =
     (case find (\<lambda>pk. map_option prow_address (map_of (mr_providers r) pk) = Some addr) (range_keys ord (mr_providers r)) of
        None \<Rightarrow> [] | Some pk \<Rightarrow> pk)"

definition stored_relation :: "order \<Rightarrow> mem_repo \<Rightarrow> storage_row \<Rightarrow> contract_relation option" where
  "stored_relation ord r row =
     (let pub = wallet_owner ord r (srow_providerAddress row)
      in if pub = [] then None
         else Some \<lparr>rel_ProviderPublicKey = pub, rel_ProviderAddress = srow_providerAddress row, rel_Address = srow_address row,
                     rel_BagID = srow_bagID row, rel_Size = srow_size row, rel_Reason = None\<rparr>)"

definition mem_GetStorageContracts ::
  "order \<Rightarrow> (storage_key list \<Rightarrow> storage_key list) \<Rightarrow> mem_repo \<Rightarrow> contract_relation list" where
  "mem_GetStorageContracts ord sord r =
     List.map_filter (stored_relation ord r) (List.map_filter (map_of (mr_storage r)) (sord (map fst (mr_storage r))))"

definition mem_UpdateRejectedStorageContracts :: "contract_relation list \<Rightarrow> mem_repo \<Rightarrow> mem_repo" where
  "mem_UpdateRejectedStorageContracts rels r =
     r\<lparr>mr_storage := fold (\<lambda>rel. AList.delete (TrimSpace (rel_Address rel), TrimSpace (rel_ProviderAddress rel))) rels (mr_storage r)\<rparr>"

section \<open>System parameters\<close>

definition mem_SetParam :: "string \<Rightarrow> string \<Rightarrow> string go_map \<Rightarrow> string go_map" where
  "mem_SetParam key val data = AList.update key val data"

definition mem_GetParam :: "string \<Rightarrow> string go_map \<Rightarrow> string" where
  "mem_GetParam key data = go_get [] data key"

section \<open>White space and lower case\<close>

lemma lower_byte: "b \<notin> {65..90} \<Longrightarrow> b \<notin> {97..122} \<Longrightarrow> (of_char (lower_char c) = (b::nat)) = (of_char c = b)"
  by (auto simp: lower_char_def of_char_of)

lemma prefix_bytes_lower:
  assumes "\<forall>b \<in> set r. b \<notin> {65..90} \<and> b \<notin> {97..122}"
  shows "prefix r (map (\<lambda>c. of_char (lower_char c)) s) \<longleftrightarrow> prefix r (map of_char s :: nat list)"
  using assms
proof (induction r arbitrary: s)
  case (Cons b r)
  have "b = of_char (lower_char c) \<longleftrightarrow> b = of_char c" for c using lower_byte [of b c] Cons.prems by (metis list.set_intros(1))
  moreover have "prefix r (map (\<lambda>c. of_char (lower_char c)) t) \<longleftrightarrow> prefix r (map of_char t :: nat list)" for t
    using Cons by simp
  ultimately show ?case by (cases s) (simp_all only: list.map prefix_code)
qed simp

definition letter_free :: "nat list list \<Rightarrow> bool" where
  "letter_free rs \<longleftrightarrow> list_all (list_all (\<lambda>b. b < 65 \<or> 122 < b)) rs"

lemma letter_free_runes [simp]: "letter_free space_runes" "letter_free (map rev space_runes)"
  by (simp_all add: letter_free_def space_runes_def)

lemma lead_space_lower: "letter_free rs \<Longrightarrow> lead_space rs (map lower_char s) = lead_space rs s"
proof -
  assume "letter_free rs"
  then have "r \<in> set rs \<Longrightarrow> prefix r (byte_codes (take 3 (map lower_char s))) \<longleftrightarrow> prefix r (byte_codes (take 3 s))" for r
    using prefix_bytes_lower [of r "take 3 s"]
    by (force simp: byte_codes_def letter_free_def list_all_iff take_map comp_def)
  then have "find (\<lambda>r. prefix r (byte_codes (take 3 (map lower_char s)))) rs = find (\<lambda>r. prefix r (byte_codes (take 3 s))) rs"
    by (intro find_cong) auto
  then show ?thesis by (simp add: lead_space_def)
qed

lemma trim_lead_lower:
  assumes "letter_free rs"
  shows "trim_lead rs (map lower_char s) = map lower_char (trim_lead rs s)"
  using assms
proof (induction rs s rule: trim_lead.induct)
  case (1 rs s)
  show ?case
  proof (cases "s = [] \<or> lead_space rs s = 0")
    case True
    then show ?thesis using lead_space_lower [OF 1(2), of s] by (auto simp: trim_lead.simps)
  next
    case False
    then have "trim_lead rs (drop (lead_space rs s) (map lower_char s)) = map lower_char (trim_lead rs (drop (lead_space rs s) s))"
      using 1 by (simp add: drop_map)
    then show ?thesis using False lead_space_lower [OF 1(2), of s] by (subst (1 2) trim_lead.simps) simp
  qed
qed

lemma TrimSpace_ToLower [go_str]: "TrimSpace (ToLower s) = ToLower (TrimSpace s)"
  by (simp add: TrimSpace_def ToLower_def trim_lead_lower rev_map)

lemma normPub_idem [simp]: "normPub (normPub s) = normPub s"
  by (simp add: normPub_def TrimSpace_ToLower)

section \<open>The invariant\<close>

text \<open>
  Keys are normal and agree with their rows; what the steps below do to the repository is what any client can do.
\<close>

definition providers_ok :: "provider_row go_map \<Rightarrow> bool" where
  "providers_ok m \<longleftrightarrow> go_wf m \<and>
     (\<forall>(pk, row) \<in> set m. prow_publicKey row = pk \<and> normPub pk = pk \<and> pk \<noteq> [] \<and> TrimSpace (prow_address row) = prow_address row)"

definition storage_ok :: "(storage_key \<times> storage_row) list \<Rightarrow> bool" where
  "storage_ok m \<longleftrightarrow> distinct (map fst m) \<and>
     (\<forall>(k, row) \<in> set m. k = (srow_address row, srow_providerAddress row) \<and> TrimSpace (srow_address row) = srow_address row \<and>
        TrimSpace (srow_providerAddress row) = srow_providerAddress row \<and> srow_providerAddress row \<noteq> [])"

definition mem_ok :: "mem_repo \<Rightarrow> bool" where
  "mem_ok r \<longleftrightarrow> providers_ok (mr_providers r) \<and> storage_ok (mr_storage r)"

inductive mem_step :: "mem_repo \<Rightarrow> mem_repo \<Rightarrow> bool" where
  step_AddProviders: "mem_step r (mem_AddProviders ps r)"
| step_UpdateProvidersLT: "mem_step r (mem_UpdateProvidersLT us r)"
| step_AddStorageContracts: "mem_step r (mem_AddStorageContracts ord cs r)"
| step_UpdateRejected: "mem_step r (mem_UpdateRejectedStorageContracts rels r)"

inductive_cases mem_stepE: "mem_step r r'"

lemma set_update_subset: "set (AList.update k v m) \<subseteq> insert (k, v) (set m)"
  by (induction m) auto

lemma providers_ok_update:
  assumes "providers_ok m" "prow_publicKey row = pk" "normPub pk = pk" "pk \<noteq> []" "TrimSpace (prow_address row) = prow_address row"
  shows "providers_ok (AList.update pk row m)"
  using assms set_update_subset [of pk row m] by (fastforce simp: providers_ok_def)

lemma fold_keeps: "(\<And>x s. P s \<Longrightarrow> P (f x s)) \<Longrightarrow> P s \<Longrightarrow> P (fold f xs s)"
  by (induction xs arbitrary: s) auto

lemma add_provider_ok: "providers_ok m \<Longrightarrow> providers_ok (add_provider p m)"
  by (auto simp: add_provider_def Let_def intro!: providers_ok_update)

lemma set_lt_ok: "providers_ok m \<Longrightarrow> providers_ok (set_lt u m)"
proof (cases "map_of m (normPub (pwl_PubKey u))")
  case (Some row)
  assume ok: "providers_ok m"
  from map_of_SomeD [OF Some] ok
  have "prow_publicKey row = normPub (pwl_PubKey u)" "normPub (pwl_PubKey u) \<noteq> []" "TrimSpace (prow_address row) = prow_address row"
    by (auto simp: providers_ok_def)
  then show ?thesis using providers_ok_update [OF ok, of "row\<lparr>prow_lastLT := pwl_LT u\<rparr>"] by (simp add: set_lt_def Let_def Some)
qed (simp add: set_lt_def)

lemma storage_ok_update:
  assumes "storage_ok m" "k = (srow_address row, srow_providerAddress row)" "TrimSpace (srow_address row) = srow_address row"
    "TrimSpace (srow_providerAddress row) = srow_providerAddress row" "srow_providerAddress row \<noteq> []"
  shows "storage_ok (AList.update k row m)"
proof -
  have "distinct (map fst (AList.update k row m))" using assms(1) by (simp add: storage_ok_def distinct_update)
  then show ?thesis using assms set_update_subset [of k row m] by (fastforce simp: storage_ok_def)
qed

lemma add_relation_ok: "storage_ok m \<Longrightarrow> storage_ok (add_relation c p m)"
  by (auto simp: add_relation_def Let_def intro!: storage_ok_update)

lemma storage_ok_delete: "storage_ok m \<Longrightarrow> storage_ok (AList.delete k m)"
  by (auto simp: storage_ok_def AList.delete_eq distinct_map_filter)

lemma mem_step_ok: "mem_step r r' \<Longrightarrow> mem_ok r \<Longrightarrow> mem_ok r'"
  by (erule mem_stepE)
    (auto simp: mem_ok_def mem_AddProviders_def mem_UpdateProvidersLT_def mem_AddStorageContracts_def
       mem_UpdateRejectedStorageContracts_def intro!: fold_keeps [where P = providers_ok] fold_keeps [where P = storage_ok]
       add_provider_ok set_lt_ok add_relation_ok storage_ok_delete)

lemma mem_reachable_ok: "mem_step\<^sup>*\<^sup>* mem_NewRepository r \<Longrightarrow> mem_ok r"
proof (induction rule: rtranclp_induct)
  case base
  then show ?case by (simp add: mem_ok_def mem_NewRepository_def providers_ok_def storage_ok_def)
next
  case (step r r')
  then show ?case using mem_step_ok by blast
qed

section \<open>The registry the collecting worker relies on\<close>

text \<open>
  The contract between \<^verbatim>\<open>CollectNewProviders\<close> and the repositories: a stored parameter is read back, added keys are
  known afterwards and nothing else is, and neither operation disturbs the other.
\<close>

definition plain_key :: "string \<Rightarrow> bool" where
  "plain_key pk \<longleftrightarrow> normPub pk = pk \<and> pk \<noteq> []"

definition chain_source :: "(string \<Rightarrow> 64 word \<Rightarrow> go_error + Transaction list) \<Rightarrow> string \<Rightarrow> Transaction list \<Rightarrow> bool" where
  "chain_source getTx addr chain \<longleftrightarrow>
     (\<forall>l. \<exists>txs. getTx addr l = Inr txs \<and> {tx \<in> set txs. l < tx_LT tx} = {tx \<in> set chain. l < tx_LT tx})"

definition registered :: "64 word \<Rightarrow> Transaction list \<Rightarrow> string set" where
  "registered l chain = {pk. \<exists>tx \<in> set chain. l < tx_LT tx \<and> message_pubkey (tx_Message tx) = Some pk \<and> (\<exists>b. hex_DecodeString pk = Inr b)}"

lemma hex_ascii: "hex_DecodeString s = Inr b \<Longrightarrow> ascii_word s"
proof -
  have "hex_value c = Some n \<Longrightarrow> 32 < (of_char c :: nat) \<and> (of_char c :: nat) < 128" for c n
    by (auto simp: hex_value_def Let_def split: if_splits)
  then show "hex_DecodeString s = Inr b \<Longrightarrow> ascii_word s"
    by (induction s arbitrary: b rule: hex_DecodeString.induct) (fastforce simp: ascii_word_def split: option.splits sum.splits)+
qed

lemma TrimSpace_ascii_word: "ascii_word w \<Longrightarrow> TrimSpace w = w"
proof (cases w)
  case (Cons c v)
  assume a: "ascii_word w"
  then have "lead_space space_runes w = 0" using Cons lead_space_ascii [of c v] by (simp add: ascii_word_def)
  moreover have "lead_space (map rev space_runes) (rev w) = 0" using lead_space_rev_ascii [OF a] Cons by simp
  ultimately show ?thesis by (simp add: TrimSpace_def trim_lead_fixed)
qed (simp add: TrimSpace_def trim_lead.simps)

lemma message_pubkey_plain:
  assumes "message_pubkey m = Some pk" "hex_DecodeString pk = Inr b"
  shows "plain_key pk"
proof -
  have "ToLower pk = pk" using assms(1) by (auto simp: message_pubkey_def Let_def split: option.splits if_splits)
  moreover have "pk \<noteq> []" using message_pubkey_length [OF assms(1)] by auto
  ultimately show ?thesis using TrimSpace_ascii_word [OF hex_ascii [OF assms(2)]] by (simp add: plain_key_def normPub_def)
qed

locale provider_registry =
  fixes repo :: "'s collect_repo"
    and inv :: "'s \<Rightarrow> bool"
    and known :: "'s \<Rightarrow> string set"
  assumes GetParam: "inv db \<Longrightarrow> \<exists>v. cr_GetParam repo k db = Inr v"
    and SetParam: "inv db \<Longrightarrow> \<exists>db'. cr_SetParam repo k v db = (None, db') \<and> inv db' \<and> known db' = known db \<and> cr_GetParam repo k db' = Inr v"
    and GetAll: "inv db \<Longrightarrow> \<exists>p. cr_GetAllProvidersPubkeys repo db = Inr p \<and> set p = known db"
    and known_lower: "inv db \<Longrightarrow> pk \<in> known db \<Longrightarrow> ToLower pk = pk"
    and AddProviders: "inv db \<Longrightarrow> \<forall>row \<in> set rows. plain_key (pc_Pubkey row) \<Longrightarrow>
      \<exists>db'. cr_AddProviders repo rows db = (None, db') \<and> inv db' \<and> known db' = known db \<union> pc_Pubkey ` set rows \<and>
        cr_GetParam repo k db' = cr_GetParam repo k db"
begin

lemma registers_known:
  assumes "inv db" "cr_GetAllProvidersPubkeys repo db = Inr p" "{tx \<in> set txs. l < tx_LT tx} = {tx \<in> set chain. l < tx_LT tx}"
  shows "{pk. \<exists>tx \<in> set txs. registers l p tx pk} = registered l chain - known db"
proof -
  have "set p = known db" using GetAll [OF assms(1)] assms(2) by auto
  then have "ToLower ` set p = known db" using known_lower [OF assms(1)] by (auto simp: image_iff)
  then have "(\<exists>tx \<in> set txs. registers l p tx pk) \<longleftrightarrow>
      (\<exists>tx \<in> {tx \<in> set txs. l < tx_LT tx}. message_pubkey (tx_Message tx) = Some pk \<and> pk \<notin> known db \<and> (\<exists>b. hex_DecodeString pk = Inr b))" for pk
    by (auto simp: registers_def)
  then show ?thesis unfolding assms(3) by (auto simp: registered_def)
qed

lemma collect_adds:
  assumes "inv db" "order_ok ord" "chain_source getTx addr chain" "cr_GetParam repo lastLTKey db = Inr lv"
  defines "l \<equiv> word_of_int (fst (ParseInt64 lv))"
  shows "\<exists>db'. CollectNewProviders repo getTx addr ord db = ((minutes 1, None), db') \<and> inv db' \<and>
    known db' = known db \<union> registered l chain \<and>
    (db' = db \<or> (\<exists>lt. cr_GetParam repo lastLTKey db' = Inr (FormatUint lt) \<and> l < lt \<and> lt \<in> tx_LT ` set chain \<and>
       (\<forall>tx \<in> set chain. tx_LT tx \<le> lt)))"
proof -
  obtain txs where txs: "getTx addr l = Inr txs" "{tx \<in> set txs. l < tx_LT tx} = {tx \<in> set chain. l < tx_LT tx}"
    using assms(3) by (auto simp: chain_source_def)
  obtain p where p: "cr_GetAllProvidersPubkeys repo db = Inr p" using GetAll [OF assms(1)] by blast
  note reg = registers_known [OF assms(1) p txs(2)]
  obtain rows lt where rows: "pc_Pubkey ` set rows = registered l chain - known db" "l \<le> lt" "\<forall>tx \<in> set txs. tx_LT tx \<le> lt"
      "lt = l \<or> lt \<in> tx_LT ` set txs"
    and run: "CollectNewProviders repo getTx addr ord db =
      (if rows = [] then ((minutes 1, None), db)
       else case cr_AddProviders repo rows (snd (cr_SetParam repo lastLTKey (FormatUint lt) db)) of
              (err, db') \<Rightarrow> ((if err = None then minutes 1 else seconds 5, err), db'))"
    using CollectNewProviders_run [OF assms(4) p assms(2), of getTx addr txs, folded l_def, OF txs(1)] unfolding reg by blast
  show ?thesis
  proof (cases "rows = []")
    case True
    then show ?thesis using run rows(1) assms(1) by auto
  next
    case False
    obtain db1 where db1: "cr_SetParam repo lastLTKey (FormatUint lt) db = (None, db1)" "inv db1" "known db1 = known db"
      "cr_GetParam repo lastLTKey db1 = Inr (FormatUint lt)" using SetParam [OF assms(1)] by blast
    have "plain_key (pc_Pubkey row)" if "row \<in> set rows" for row
      using that rows(1) message_pubkey_plain by (fastforce simp: registered_def)
    then obtain db2 where db2: "cr_AddProviders repo rows db1 = (None, db2)" "inv db2" "known db2 = known db1 \<union> pc_Pubkey ` set rows"
      "cr_GetParam repo lastLTKey db2 = cr_GetParam repo lastLTKey db1" using AddProviders [OF db1(2)] by blast
    have "pc_Pubkey (hd rows) \<in> registered l chain" using False rows(1) by (metis DiffE hd_in_set imageI)
    then obtain tx where "tx \<in> set chain" "l < tx_LT tx" by (auto simp: registered_def)
    then have lt: "l < lt" using txs(2) rows(3) by (auto intro: less_le_trans)
    moreover have "tx_LT t \<le> lt" if "t \<in> set chain" for t
    proof (cases "l < tx_LT t")
      case True
      then have "t \<in> set txs" using that txs(2) by blast
      then show ?thesis using rows(3) by blast
    qed (use lt in auto)
    moreover have "lt \<in> tx_LT ` set chain" using rows(4) lt txs(2) by blast
    ultimately show ?thesis using run False db1 db2 rows(1) by auto
  qed
qed

lemma collect_settles:
  assumes "inv db" "order_ok ord" "chain_source getTx addr chain" "cr_GetParam repo lastLTKey db = Inr lv"
    and "\<forall>tx \<in> set chain. unat (tx_LT tx) < 2 ^ 63"
  shows "\<exists>db'. CollectNewProviders repo getTx addr ord db = ((minutes 1, None), db') \<and> inv db' \<and>
    known db' = known db \<union> registered (word_of_int (fst (ParseInt64 lv))) chain \<and>
    CollectNewProviders repo getTx addr ord db' = ((minutes 1, None), db')"
proof -
  obtain db' where db': "CollectNewProviders repo getTx addr ord db = ((minutes 1, None), db')" "inv db'"
      "known db' = known db \<union> registered (word_of_int (fst (ParseInt64 lv))) chain"
    and lt: "db' = db \<or> (\<exists>lt. cr_GetParam repo lastLTKey db' = Inr (FormatUint lt) \<and> lt \<in> tx_LT ` set chain \<and> (\<forall>tx \<in> set chain. tx_LT tx \<le> lt))"
    using collect_adds [OF assms(1-4)] by blast
  from lt have "CollectNewProviders repo getTx addr ord db' = ((minutes 1, None), db')"
  proof
    assume "\<exists>lt. cr_GetParam repo lastLTKey db' = Inr (FormatUint lt) \<and> lt \<in> tx_LT ` set chain \<and> (\<forall>tx \<in> set chain. tx_LT tx \<le> lt)"
    then obtain lt where get: "cr_GetParam repo lastLTKey db' = Inr (FormatUint lt)" and max: "\<forall>tx \<in> set chain. tx_LT tx \<le> lt"
      and "lt \<in> tx_LT ` set chain" by blast
    then have "unat lt < 2 ^ 63" using assms(5) by blast
    then have l: "word_of_int (fst (ParseInt64 (FormatUint lt))) = lt" by (simp add: ParseInt64_FormatUint)
    have "\<not> lt < tx_LT tx" if "tx \<in> set chain" for tx using max that by (simp add: not_less)
    then have "registered lt chain = {}" by (auto simp: registered_def)
    moreover obtain txs where txs: "getTx addr lt = Inr txs" "{tx \<in> set txs. lt < tx_LT tx} = {tx \<in> set chain. lt < tx_LT tx}"
      using assms(3) by (auto simp: chain_source_def)
    moreover obtain p where p: "cr_GetAllProvidersPubkeys repo db' = Inr p" using GetAll [OF db'(2)] by blast
    ultimately have "{pk. \<exists>tx \<in> set txs. registers lt p tx pk} = {}" using registers_known [OF db'(2)] by simp
    then show ?thesis using CollectNewProviders_run [OF get p assms(2), of getTx addr txs, unfolded l, OF txs(1)] by auto
  qed (use db' in simp)
  then show ?thesis using db' by blast
qed

end

section \<open>The in-memory repositories are such a registry\<close>

type_synonym mem_db = "mem_repo \<times> string go_map"

definition mem_collect_repo :: "order \<Rightarrow> mem_db collect_repo" where
  "mem_collect_repo ord =
     \<lparr>cr_GetParam = \<lambda>k db. Inr (mem_GetParam k (snd db)),
      cr_SetParam = \<lambda>k v db. (None, (fst db, mem_SetParam k v (snd db))),
      cr_GetAllProvidersPubkeys = \<lambda>db. Inr (mem_GetAllProvidersPubkeys ord (fst db)),
      cr_AddProviders = \<lambda>ps db. (None, (mem_AddProviders ps (fst db), snd db))\<rparr>"

definition mem_wallet_repo :: "order \<Rightarrow> order \<Rightarrow> mem_db wallet_repo" where
  "mem_wallet_repo ord cord =
     \<lparr>wr_GetAllProvidersWallets = \<lambda>db. Inr (mem_GetAllProvidersWallets ord (fst db)),
      wr_UpdateProvidersLT = \<lambda>us db. (None, (mem_UpdateProvidersLT us (fst db), snd db)),
      wr_AddStorageContracts = \<lambda>cs db. (None, (mem_AddStorageContracts cord cs (fst db), snd db))\<rparr>"

definition mem_known :: "mem_db \<Rightarrow> string set" where
  "mem_known db = dom (map_of (mr_providers (fst db)))"

lemma add_providers_dom:
  "\<forall>row \<in> set rows. plain_key (pc_Pubkey row) \<Longrightarrow>
     dom (map_of (fold add_provider rows m)) = dom (map_of m) \<union> pc_Pubkey ` set rows"
  by (induction rows arbitrary: m) (auto simp: add_provider_def Let_def plain_key_def)

lemma mem_pubkeys:
  assumes "order_ok ord" "mem_ok r"
  shows "set (mem_GetAllProvidersPubkeys ord r) = dom (map_of (mr_providers r))"
proof -
  have "prow_publicKey row = pk" if "map_of (mr_providers r) pk = Some row" for pk row
    using map_of_SomeD [OF that] assms(2) by (auto simp: mem_ok_def providers_ok_def)
  moreover have "go_wf (mr_providers r)" using assms(2) by (simp add: mem_ok_def providers_ok_def)
  ultimately show ?thesis
    using map_filter_keys(2) [OF assms(1), of "mr_providers r" prow_publicKey] set_range_keys [OF assms(1), of "mr_providers r"]
    by (simp add: mem_GetAllProvidersPubkeys_def)
qed

lemma mem_registry: "order_ok ord \<Longrightarrow> provider_registry (mem_collect_repo ord) (\<lambda>db. mem_ok (fst db)) mem_known"
proof
  fix db :: mem_db and k v pk and rows
  assume ord: "order_ok ord" and ok: "mem_ok (fst db)"
  show "\<exists>v. cr_GetParam (mem_collect_repo ord) k db = Inr v" by (simp add: mem_collect_repo_def)
  show "\<exists>db'. cr_SetParam (mem_collect_repo ord) k v db = (None, db') \<and> mem_ok (fst db') \<and> mem_known db' = mem_known db \<and>
      cr_GetParam (mem_collect_repo ord) k db' = Inr v"
    using ok by (simp add: mem_collect_repo_def mem_known_def mem_GetParam_def mem_SetParam_def)
  show "\<exists>p. cr_GetAllProvidersPubkeys (mem_collect_repo ord) db = Inr p \<and> set p = mem_known db"
    using mem_pubkeys [OF ord ok] by (simp add: mem_collect_repo_def mem_known_def)
  show "ToLower pk = pk" if pk: "pk \<in> mem_known db"
  proof -
    obtain row where "map_of (mr_providers (fst db)) pk = Some row" using pk by (auto simp: mem_known_def)
    then have "normPub pk = pk" using map_of_SomeD ok by (fastforce simp: mem_ok_def providers_ok_def)
    then show ?thesis using ToLower_idem [of "TrimSpace pk"] by (simp add: normPub_def)
  qed
  show "\<exists>db'. cr_AddProviders (mem_collect_repo ord) rows db = (None, db') \<and> mem_ok (fst db') \<and>
      mem_known db' = mem_known db \<union> pc_Pubkey ` set rows \<and>
      cr_GetParam (mem_collect_repo ord) k db' = cr_GetParam (mem_collect_repo ord) k db"
    if "\<forall>row \<in> set rows. plain_key (pc_Pubkey row)"
    using mem_step_ok [OF step_AddProviders ok, of rows] add_providers_dom [OF that, of "mr_providers (fst db)"]
    by (simp add: mem_collect_repo_def mem_known_def mem_AddProviders_def)
qed

interpretation mem_reg: provider_registry "mem_collect_repo (\<lambda>ks. ks)" "\<lambda>db. mem_ok (fst db)" mem_known
  by (rule mem_registry) simp

lemma GetTransactions_source:
  assumes "api_ParseAddr api addr = Inr (Some a)" "api_GetMasterchainInfo api = Inr block"
    and "api_GetAccount api block a = Inr (tlb_LT (hd hist), h)"
    and "linked hist" "hist \<noteq> []" "\<forall>n lt h. api_ListTransactions api a n lt h = serve e hist lt"
    and "list_all (\<lambda>t. tlb_In t \<noteq> None) hist"
    and "\<forall>l r. GetTransactions api addr l = Some (Returns r) \<longrightarrow> getTx addr l = r"
  shows "chain_source getTx addr (List.map_filter parsed hist)"
proof -
  have "\<exists>txs. getTx addr l = Inr txs \<and> {tx \<in> set txs. l < tx_LT tx} = {tx \<in> set (List.map_filter parsed hist). l < tx_LT tx}" for l
  proof -
    obtain txs where txs: "GetTransactions api addr l = Some (Returns (Inr txs))" "mset txs = mset (List.map_filter parsed (unprocessed l hist))"
      using GetTransactions_run [OF assms(1-7)] by blast
    have "set txs = {tx. \<exists>t \<in> set (unprocessed l hist). parsed t = Some tx}" using mset_eq_setD [OF txs(2)] by (simp add: set_map_filter)
    moreover have "t \<in> set (unprocessed l hist) \<longleftrightarrow> t \<in> set hist" if "parsed t = Some tx" "l < tx_LT tx" for t tx
      using unprocessed_newer [OF assms(4), of t l] parsed_LT [OF that(1)] that(2) by simp
    ultimately have "{tx \<in> set txs. l < tx_LT tx} = {tx \<in> set (List.map_filter parsed hist). l < tx_LT tx}"
      by (auto simp: set_map_filter)
    then show ?thesis using txs(1) assms(8) by blast
  qed
  then show ?thesis by (auto simp: chain_source_def)
qed

text \<open>
  C25.  The registry settles: on any reachable in-memory repository and a lite server that serves a linked history of
  logical times below 2^63, one run of the collecting worker makes exactly the keys registered after the stored logical time known
  beside those that were, keeps the repository well formed, and a second run on the same chain changes nothing.
\<close>

theorem registry_settles:
  fixes params :: "string go_map"
  assumes "mem_step\<^sup>*\<^sup>* mem_NewRepository r" "order_ok ord" "order_ok ord'"
    and "api_ParseAddr api masterAddr = Inr (Some a)" "api_GetMasterchainInfo api = Inr block"
    and "api_GetAccount api block a = Inr (tlb_LT (hd hist), h)"
    and "linked hist" "hist \<noteq> []" "\<forall>n lt h. api_ListTransactions api a n lt h = serve e hist lt"
    and "list_all (\<lambda>t. tlb_In t \<noteq> None \<and> unat (tlb_LT t) < 2 ^ 63) hist"
    and "\<forall>l res. GetTransactions api masterAddr l = Some (Returns res) \<longrightarrow> getTx masterAddr l = res"
  defines "collect \<equiv> CollectNewProviders (mem_collect_repo ord) getTx masterAddr ord'"
    and "l \<equiv> word_of_int (fst (ParseInt64 (mem_GetParam lastLTKey params)))"
  shows "\<exists>db. collect (r, params) = ((minutes 1, None), db) \<and> mem_ok (fst db) \<and>
    set (mem_GetAllProvidersPubkeys ord (fst db)) =
      set (mem_GetAllProvidersPubkeys ord r) \<union> registered l (List.map_filter parsed hist) \<and>
    collect db = ((minutes 1, None), db)"
proof -
  have ok: "mem_ok (fst (r, params))" using mem_reachable_ok [OF assms(1)] by simp
  have "list_all (\<lambda>t. tlb_In t \<noteq> None) hist" using assms(10) by (simp add: list_all_iff)
  then have src: "chain_source getTx masterAddr (List.map_filter parsed hist)" by (rule GetTransactions_source [where getTx = getTx, OF assms(4-9) _ assms(11)])
  have "\<forall>tx \<in> set (List.map_filter parsed hist). unat (tx_LT tx) < 2 ^ 63"
    using assms(10) parsed_LT by (fastforce simp: set_map_filter list_all_iff)
  moreover have "cr_GetParam (mem_collect_repo ord) lastLTKey (r, params) = Inr (mem_GetParam lastLTKey params)"
    by (simp add: mem_collect_repo_def)
  ultimately show ?thesis
    using provider_registry.collect_settles [OF mem_registry [OF assms(2)] ok assms(3) src, folded collect_def] mem_pubkeys [OF assms(2)] ok
    by (fastforce simp: l_def mem_known_def)
qed

theorem registry_settles_witness:
  "\<exists>db. CollectNewProviders (mem_collect_repo rev) sample_getTx ''EQm'' rev (mem_NewRepository, []) = ((minutes 1, None), db) \<and>
     set (mem_GetAllProvidersPubkeys rev (fst db)) = {sample_key} \<and>
     CollectNewProviders (mem_collect_repo rev) sample_getTx ''EQm'' rev db = ((minutes 1, None), db)"
proof -
  have l: "word_of_int (fst (ParseInt64 (mem_GetParam lastLTKey []))) = (0 :: 64 word)"
    by (simp add: mem_GetParam_def ParseInt64_def ParseInt_def ParseUint_def)
  have p: "List.map_filter parsed [sample_registration] =
      [\<lparr>tx_Hash = [], tx_LT = 9, tx_Op = 0, tx_From = ''EQw'', tx_To = ''EQm'', tx_Message = ''tsp-'' @ sample_key, tx_CreatedAt = 7000000000\<rparr>]"
    by (simp add: List.map_filter_simps parsed_def parseTx_def sample_registration_def)
  have keys: "registered 0 (List.map_filter parsed [sample_registration]) = {sample_key}"
    unfolding p using sample_key_ok by (auto simp: registered_def)
  have none: "mem_GetAllProvidersPubkeys rev mem_NewRepository = []"
    by (simp add: mem_GetAllProvidersPubkeys_def mem_NewRepository_def range_keys_def go_keys_def List.map_filter_simps)
  have "api_ParseAddr sample_chain ''EQm'' = Inr (Some ())" "api_GetMasterchainInfo sample_chain = Inr ()"
    "api_GetAccount sample_chain () () = Inr (tlb_LT (hd [sample_registration]), [])" "linked [sample_registration]"
    "[sample_registration] \<noteq> []"
    "\<forall>n lt h. api_ListTransactions sample_chain () n lt h = serve (ErrText ''none'') [sample_registration] lt"
    "list_all (\<lambda>t. tlb_In t \<noteq> None \<and> unat (tlb_LT t) < 2 ^ 63) [sample_registration]"
    "\<forall>l res. GetTransactions sample_chain ''EQm'' l = Some (Returns res) \<longrightarrow> sample_getTx ''EQm'' l = res"
    by (simp_all add: sample_chain_def sample_registration_def sample_getTx_def)
  from registry_settles [where getTx = sample_getTx, OF rtranclp.rtrancl_refl order_ok_rev order_ok_rev this, of "[]", unfolded l keys none]
  show ?thesis by auto
qed

section \<open>Contract relations\<close>

definition perm_ok :: "('k list \<Rightarrow> 'k list) \<Rightarrow> bool" where
  "perm_ok f \<longleftrightarrow> (\<forall>ks. mset (f ks) = mset ks)"

lemma perm_keys: "perm_ok f \<Longrightarrow> set (f (map fst m)) = dom (map_of m)"
  by (metis perm_ok_def mset_eq_setD dom_map_of_conv_image_fst set_map)

definition rel_key :: "contract_relation \<Rightarrow> storage_key" where
  "rel_key rel = (rel_Address rel, rel_ProviderAddress rel)"

definition owned :: "mem_repo \<Rightarrow> storage_key \<Rightarrow> bool" where
  "owned r k \<longleftrightarrow> (\<exists>row \<in> ran (map_of (mr_providers r)). prow_address row = snd k)"

lemma wallet_owner_cases:
  assumes "mem_ok r" "order_ok ord"
  shows "wallet_owner ord r a \<noteq> [] \<longleftrightarrow> (\<exists>row \<in> ran (map_of (mr_providers r)). prow_address row = a)"
    and "wallet_owner ord r a \<noteq> [] \<Longrightarrow> map_option prow_address (map_of (mr_providers r) (wallet_owner ord r a)) = Some a"
proof -
  let ?P = "\<lambda>pk. map_option prow_address (map_of (mr_providers r) pk) = Some a"
  have ne: "pk \<noteq> []" if "?P pk" for pk
    using that assms(1) by (auto simp: mem_ok_def providers_ok_def dest!: map_of_SomeD)
  have ks: "set (range_keys ord (mr_providers r)) = dom (map_of (mr_providers r))" by (rule set_range_keys [OF assms(2)])
  have owner: "(wallet_owner ord r a = [] \<and> (\<forall>pk \<in> dom (map_of (mr_providers r)). \<not> ?P pk)) \<or>
      (wallet_owner ord r a \<noteq> [] \<and> ?P (wallet_owner ord r a) \<and> wallet_owner ord r a \<in> dom (map_of (mr_providers r)))"
  proof (cases "find ?P (range_keys ord (mr_providers r))")
    case None
    then have "wallet_owner ord r a = []" by (simp only: wallet_owner_def option.case)
    then show ?thesis using None ks unfolding find_None_iff by blast
  next
    case (Some pk)
    then have "?P pk" unfolding find_Some_iff by blast
    moreover have "wallet_owner ord r a = pk" using Some by (simp only: wallet_owner_def option.case)
    ultimately show ?thesis using ne [of pk] by auto
  qed
  then show "map_option prow_address (map_of (mr_providers r) (wallet_owner ord r a)) = Some a" if "wallet_owner ord r a \<noteq> []"
    using that by blast
  from owner show "wallet_owner ord r a \<noteq> [] \<longleftrightarrow> (\<exists>row \<in> ran (map_of (mr_providers r)). prow_address row = a)"
    by (auto simp: ran_def dom_def)
qed

lemma relations_keys:
  assumes "storage_ok (mr_storage r)" "set ks \<subseteq> dom (map_of (mr_storage r))"
  shows "map rel_key (List.map_filter (stored_relation ord r) (List.map_filter (map_of (mr_storage r)) ks)) =
    filter (\<lambda>k. wallet_owner ord r (snd k) \<noteq> []) ks"
  using assms(2)
proof (induction ks)
  case (Cons k ks)
  then obtain row where row: "map_of (mr_storage r) k = Some row" by auto
  then have "k = (srow_address row, srow_providerAddress row)"
    using map_of_SomeD [OF row] assms(1) by (auto simp: storage_ok_def)
  then show ?case using Cons row by (simp add: List.map_filter_simps stored_relation_def rel_key_def Let_def)
qed (simp add: List.map_filter_simps)

lemma read_keys:
  assumes "mem_ok r" "order_ok ord" "perm_ok sord"
  shows "map rel_key (mem_GetStorageContracts ord sord r) = filter (owned r) (sord (map fst (mr_storage r)))"
proof -
  show ?thesis
    using relations_keys [of r "sord (map fst (mr_storage r))" ord] perm_keys [OF assms(3), of "mr_storage r"] wallet_owner_cases(1) [OF assms(1,2)] assms(1)
    by (simp add: mem_GetStorageContracts_def mem_ok_def owned_def [abs_def])
qed

lemma fold_delete_keys: "fst ` set (fold (\<lambda>x. AList.delete (f x)) xs m) = fst ` set m - f ` set xs"
  by (induction xs arbitrary: m) (auto simp: AList.delete_eq)

text \<open>
  The relations of the in-memory repository: on every reachable state, in every iteration order, reading returns one relation
  for each stored pair of contract and wallet whose wallet belongs to a registered provider, under the key of such a
  provider; and closing what was read leaves nothing to read, while nothing else is deleted.
\<close>

theorem relations_closed:
  assumes "mem_step\<^sup>*\<^sup>* mem_NewRepository r" "order_ok ord" "perm_ok sord" "order_ok ord'" "perm_ok sord'"
  defines "rels \<equiv> mem_GetStorageContracts ord sord r"
  shows "distinct (map rel_key rels) \<and> rel_key ` set rels = {k \<in> dom (map_of (mr_storage r)). owned r k} \<and>
    list_all (\<lambda>rel. map_option prow_address (map_of (mr_providers r) (rel_ProviderPublicKey rel)) = Some (rel_ProviderAddress rel)) rels \<and>
    mem_GetStorageContracts ord' sord' (mem_UpdateRejectedStorageContracts rels r) = [] \<and>
    dom (map_of (mr_storage (mem_UpdateRejectedStorageContracts rels r))) = {k \<in> dom (map_of (mr_storage r)). \<not> owned r k}"
proof -
  have ok: "mem_ok r" by (rule mem_reachable_ok [OF assms(1)])
  let ?r = "mem_UpdateRejectedStorageContracts rels r"
  have keys: "map rel_key rels = filter (owned r) (sord (map fst (mr_storage r)))" unfolding rels_def by (rule read_keys [OF ok assms(2,3)])
  have "distinct (sord (map fst (mr_storage r)))"
    using assms(3) ok mset_eq_imp_distinct_iff unfolding mem_ok_def storage_ok_def perm_ok_def by blast
  then have d: "distinct (map rel_key rels)" by (simp add: keys)
  have image: "rel_key ` set rels = {k \<in> dom (map_of (mr_storage r)). owned r k}"
    using arg_cong [OF keys, of set] perm_keys [OF assms(3), of "mr_storage r"] by auto
  have "TrimSpace (fst k) = fst k \<and> TrimSpace (snd k) = snd k" if "k \<in> dom (map_of (mr_storage r))" for k
    using that ok by (auto simp: mem_ok_def storage_ok_def dest!: map_of_SomeD)
  then have "(\<lambda>rel. (TrimSpace (rel_Address rel), TrimSpace (rel_ProviderAddress rel))) ` set rels = rel_key ` set rels"
    using image by (intro image_cong refl) (metis (no_types, lifting) fst_conv snd_conv imageI mem_Collect_eq rel_key_def)
  then have left: "dom (map_of (mr_storage ?r)) = {k \<in> dom (map_of (mr_storage r)). \<not> owned r k}"
    using image fold_delete_keys [of "\<lambda>rel. (TrimSpace (rel_Address rel), TrimSpace (rel_ProviderAddress rel))" rels "mr_storage r"]
    by (auto simp: mem_UpdateRejectedStorageContracts_def dom_map_of_conv_image_fst)
  have own: "owned ?r = owned r" by (auto simp: owned_def mem_UpdateRejectedStorageContracts_def)
  have "mem_ok ?r" by (rule mem_step_ok [OF step_UpdateRejected ok])
  then have "map rel_key (mem_GetStorageContracts ord' sord' ?r) = filter (owned r) (sord' (map fst (mr_storage ?r)))"
    using read_keys [of ?r ord' sord'] assms(4,5) own by simp
  then have "map rel_key (mem_GetStorageContracts ord' sord' ?r) = []"
    using left perm_keys [OF assms(5), of "mr_storage ?r"] by (simp add: filter_empty_conv)
  then have "mem_GetStorageContracts ord' sord' ?r = []" by simp
  moreover have "map_option prow_address (map_of (mr_providers r) (rel_ProviderPublicKey rel)) = Some (rel_ProviderAddress rel)"
    if "rel \<in> set rels" for rel
    using that wallet_owner_cases(2) [OF ok assms(2)]
    by (auto simp: rels_def mem_GetStorageContracts_def set_map_filter stored_relation_def Let_def split: if_splits)
  ultimately show ?thesis using d image left by (auto simp: list_all_iff)
qed

theorem relations_closed_witness:
  "\<exists>r rels. mem_step\<^sup>*\<^sup>* mem_NewRepository r \<and> mem_GetStorageContracts rev rev r = rels \<and> rel_key ` set rels = {(''EQc'', ''EQw'')} \<and>
     mem_GetStorageContracts id id (mem_UpdateRejectedStorageContracts rels r) = []"
proof -
  let ?c = "\<lparr>sc_ProvidersAddresses = [(''EQw'', ())], sc_Address = ''EQc'', sc_BagID = ''00'', sc_OwnerAddr = ''EQo'', sc_Size = 1, sc_ChunkSize = 1, sc_LastLT = 9\<rparr>"
  let ?p = "\<lparr>pc_Pubkey = ''ab'', pc_Address = ''EQw'', pc_RegisteredAt = 7\<rparr>"
  let ?r = "mem_AddStorageContracts rev [?c] (mem_AddProviders [?p] mem_NewRepository)"
  have t: "TrimSpace ''EQw'' = ''EQw''" "TrimSpace ''EQc'' = ''EQc''" "normPub ''ab'' = ''ab''"
    using TrimSpace_ascii_word [of "''EQw''"] TrimSpace_ascii_word [of "''EQc''"] TrimSpace_ascii_word [of "''ab''"]
    by (simp_all add: ascii_word_def normPub_def ToLower_def lower_char_def)
  have run: "mem_step\<^sup>*\<^sup>* mem_NewRepository ?r"
    by (meson step_AddProviders step_AddStorageContracts rtranclp.rtrancl_refl rtranclp.rtrancl_into_rtrancl)
  have k: "{k \<in> dom (map_of (mr_storage ?r)). owned ?r k} = {(''EQc'', ''EQw'')}"
    by (auto simp: mem_AddStorageContracts_def mem_AddProviders_def mem_NewRepository_def add_provider_def add_relation_def Let_def t
        owned_def range_keys_def go_keys_def)
  have "perm_ok (rev :: storage_key list \<Rightarrow> _)" "perm_ok (id :: storage_key list \<Rightarrow> _)" "order_ok id"
    by (simp_all add: perm_ok_def order_ok_def)
  from relations_closed [OF run order_ok_rev this(1) this(3) this(2), unfolded k] show ?thesis using run by blast
qed

end
