(* ===== verification/Dump.thy ===== *)
theory Dump
  imports Memory Commit EndpointRefresh
begin

text \<open>
  \<^verbatim>\<open>coordinator/internal/workers/providersMaster/runchecks_dump.go\<close> and \<^verbatim>\<open>coordinator/cmd/dump-runchecks\<close>: the tool
  that writes a request for the agents to a file, from Postgres or from the chain through the in-memory repositories of
  \<open>Memory\<close>.  JSON encoding, files, the clock and the geo lookup are parameters; a call that may answer
  differently each time takes its number.
\<close>

section \<open>The payload\<close>

record endpoint_payload =
  epl_IP :: string
  epl_Port :: int
  epl_ADNLPubkey :: bytes

record contract_ref_payload =
  crp_ContractAddress :: string
  crp_BagID :: string

record provider_batch_payload =
  pbp_ProviderPubkey :: string
  pbp_ProviderAddress :: string
  pbp_StorageEndpoint :: endpoint_payload
  pbp_Contracts :: "contract_ref_payload list"

record check_timeouts_payload =
  ctp_PingMs :: "32 word"
  ctp_RldpMs :: "32 word"
  ctp_TotalMs :: "32 word"

record run_checks_payload =
  rcp_JobID :: string
  rcp_Providers :: "provider_batch_payload list"
  rcp_Timeouts :: check_timeouts_payload

text \<open>The three errors that \<^verbatim>\<open>errors.Is\<close> recognises, and any other.\<close>

datatype dump_error =
    ErrNoStorageContracts
  | ErrNoResolvedProviderEndpoints
  | ErrNoValidProvidersForRunChecks
  | DumpError go_error

section \<open>Endpoints without persistence\<close>

definition np_resolve :: "'addr resolve_lib \<Rightarrow> contract_relation \<Rightarrow> provider_ip go_map \<times> string list \<Rightarrow> provider_ip go_map \<times> string list" where
  "np_resolve lib contract st =
     (case st of
        (available, notFound) \<Rightarrow>
          (let pk = rel_ProviderPublicKey contract;
               (ips, pErr) = findProviderIPs lib contract
           in (AList.update pk ips available, if pErr \<noteq> None then notFound @ [pk] else notFound)))"

definition np_overlay ::
  "'addr resolve_lib \<Rightarrow> (contract_relation list \<Rightarrow> contract_relation list) \<Rightarrow> contract_relation list \<Rightarrow> string \<Rightarrow>
     provider_ip go_map \<Rightarrow> provider_ip go_map" where
  "np_overlay lib shuffle storageContracts pk available =
     (let ip = go_get zero_provider_ip available pk;
          providerContracts = filter (\<lambda>sc. rel_ProviderPublicKey sc = pk) storageContracts
      in if ip_IP (pip_Provider ip) = [] then AList.delete pk available
         else if providerContracts = [] then AList.delete pk available
         else case findStorageIPOverlay lib shuffle (ip_IP (pip_Provider ip)) providerContracts of
                Inl _ \<Rightarrow> AList.delete pk available
              | Inr storageIP \<Rightarrow> AList.update pk (ip\<lparr>pip_Storage := storageIP\<rparr>) available)"

text \<open>The goroutines take the mutex in the order \<open>perm\<close>.\<close>

definition resolveProvidersIPsNoPersist ::
  "'addr resolve_lib \<Rightarrow> (contract_relation list \<Rightarrow> contract_relation list) \<Rightarrow> order \<Rightarrow> (contract_relation list \<Rightarrow> contract_relation list) \<Rightarrow>
     contract_relation list \<Rightarrow> provider_ip go_map" where
  "resolveProvidersIPsNoPersist lib shuffle ord perm storageContracts =
     (let uniq = unique_providers storageContracts;
          (available, notFound) = fold (np_resolve lib) (perm (List.map_filter (map_of uniq) (range_keys ord uniq))) ([], [])
      in fold (np_overlay lib shuffle storageContracts) notFound available)"

section \<open>The request\<close>

definition payload_batch :: "provider_ip go_map \<Rightarrow> string \<Rightarrow> contract_relation list \<Rightarrow> provider_batch_payload" where
  "payload_batch ips pk contracts =
     (let ip = go_get zero_provider_ip ips pk
      in \<lparr>pbp_ProviderPubkey = pk, pbp_ProviderAddress = rel_ProviderAddress (contracts ! 0),
          pbp_StorageEndpoint = \<lparr>epl_IP = ip_IP (pip_Storage ip), epl_Port = ip_Port (pip_Storage ip), epl_ADNLPubkey = ip_PublicKey (pip_Storage ip)\<rparr>,
          pbp_Contracts = map (\<lambda>c. \<lparr>crp_ContractAddress = rel_Address c, crp_BagID = rel_BagID c\<rparr>) contracts\<rparr>)"

definition payload_provider :: "provider_ip go_map \<Rightarrow> (contract_relation list) go_map \<Rightarrow> string \<Rightarrow> provider_batch_payload option" where
  "payload_provider ips groups pk =
     (let ip = go_get zero_provider_ip ips pk;
          contracts = go_get [] groups pk
      in if TrimSpace (ip_IP (pip_Storage ip)) = [] \<or> ip_Port (pip_Storage ip) \<le> 0 \<or> length (ip_PublicKey (pip_Storage ip)) \<noteq> 32 then None
         else if contracts = [] then None
         else Some (payload_batch ips pk contracts))"

definition dump_timeouts :: "check_timeouts_payload \<Rightarrow> check_timeouts_payload" where
  "dump_timeouts t = (if ctp_TotalMs t = 0 then \<lparr>ctp_PingMs = 7000, ctp_RldpMs = 10000, ctp_TotalMs = 30000\<rparr> else t)"

definition limit_keys :: "int \<Rightarrow> string list \<Rightarrow> string list" where
  "limit_keys providerLimit pubkeys =
     (if 0 < providerLimit \<and> providerLimit < int (length pubkeys) then take (nat providerLimit) pubkeys else pubkeys)"

definition with_endpoint :: "provider_ip go_map \<Rightarrow> contract_relation list \<Rightarrow> contract_relation list" where
  "with_endpoint ips scs = filter (\<lambda>sc. map_of ips (rel_ProviderPublicKey sc) \<noteq> None) scs"

definition BuildRunChecksRequest ::
  "'addr resolve_lib \<Rightarrow> (contract_relation list \<Rightarrow> contract_relation list) \<Rightarrow> order \<Rightarrow> (contract_relation list \<Rightarrow> contract_relation list) \<Rightarrow>
   order \<Rightarrow> int \<Rightarrow> go_error + contract_relation list \<Rightarrow> string \<Rightarrow> int \<Rightarrow> check_timeouts_payload \<Rightarrow> dump_error + run_checks_payload" where
  "BuildRunChecksRequest lib shuffle ord perm gord nowUnix getContracts jobID providerLimit timeouts =
     (if providerLimit < 0 then Inl (DumpError (ErrText ''providerLimit must be >= 0''))
      else case getContracts of
        Inl err \<Rightarrow> Inl (DumpError (ErrWrap ''get storage contracts'' err))
      | Inr storageContracts \<Rightarrow>
         if storageContracts = [] then Inl ErrNoStorageContracts
         else
          (let ips = resolveProvidersIPsNoPersist lib shuffle ord perm storageContracts
           in if ips = [] then Inl ErrNoResolvedProviderEndpoints
              else
               (let groups = group_contracts (with_endpoint ips storageContracts);
                    pubkeys = limit_keys providerLimit (sort (range_keys gord groups));
                    jobID = (if jobID = [] then ''dump-'' @ Itoa nowUnix else jobID);
                    providers = List.map_filter (payload_provider ips groups) pubkeys
                in if providers = [] then Inl ErrNoValidProvidersForRunChecks
                   else Inr \<lparr>rcp_JobID = jobID, rcp_Providers = providers, rcp_Timeouts = dump_timeouts timeouts\<rparr>)))"

section \<open>Writing the dump\<close>

text \<open>\<^verbatim>\<open>filepath.Ext\<close>: from the last dot of the last path element.\<close>

definition path_Ext :: "string \<Rightarrow> string" where
  "path_Ext path =
     (let tail = rev (takeWhile (\<lambda>c. c \<noteq> CHR ''/'') (rev path))
      in if CHR ''.'' \<in> set tail then CHR ''.'' # rev (takeWhile (\<lambda>c. c \<noteq> CHR ''.'') (rev tail)) else [])"

definition path_base :: "string \<Rightarrow> string" where
  "path_base path = take (length path - length (path_Ext path)) path"

definition metaPathForDump :: "string \<Rightarrow> string" where
  "metaPathForDump outPath = path_base outPath @ ''-meta.json''"

definition storageRatesDefaultOutPath :: "string \<Rightarrow> string" where
  "storageRatesDefaultOutPath runChecksOut =
     (if path_Ext runChecksOut = [] then runChecksOut @ ''-storage-rates.json''
      else path_base runChecksOut @ ''-storage-rates'' @ path_Ext runChecksOut)"

record geo_info =
  gi_Country :: string
  gi_CountryISO :: string
  gi_City :: string

record geo_lookup =
  gl_Country :: string
  gl_CountryISO :: string
  gl_City :: string
  gl_Error :: string

record geo_meta_row =
  gm_ProviderPubkey :: string
  gm_ProviderAddress :: string
  gm_StorageIP :: string
  gm_Lookup :: geo_lookup

definition no_lookup :: geo_lookup where
  "no_lookup = \<lparr>gl_Country = [], gl_CountryISO = [], gl_City = [], gl_Error = []\<rparr>"

definition lookup_of :: "go_error + geo_info option \<Rightarrow> geo_lookup" where
  "lookup_of answer =
     (case answer of
        Inl err \<Rightarrow> no_lookup\<lparr>gl_Error := err_Error err\<rparr>
      | Inr None \<Rightarrow> no_lookup
      | Inr (Some info) \<Rightarrow> \<lparr>gl_Country = gi_Country info, gl_CountryISO = gi_CountryISO info, gl_City = gi_City info, gl_Error = []\<rparr>)"

definition geo_row :: "provider_batch_payload \<Rightarrow> geo_lookup \<Rightarrow> geo_meta_row" where
  "geo_row p l = \<lparr>gm_ProviderPubkey = pbp_ProviderPubkey p, gm_ProviderAddress = pbp_ProviderAddress p,
     gm_StorageIP = epl_IP (pbp_StorageEndpoint p), gm_Lookup = l\<rparr>"

text \<open>
  The loop over the providers: \<open>pause n\<close> is the error of a context that ends during the delay before lookup number
  \<open>n\<close>, \<open>getInfo n\<close> that lookup.
\<close>

fun geo_rows ::
  "(nat \<Rightarrow> go_error option) \<Rightarrow> (nat \<Rightarrow> string \<Rightarrow> go_error + geo_info option) \<Rightarrow> provider_batch_payload list \<Rightarrow>
     geo_lookup go_map \<Rightarrow> nat \<Rightarrow> go_error + geo_meta_row list" where
  "geo_rows pause getInfo [] cache n = Inr []"
| "geo_rows pause getInfo (p # ps) cache n =
     (let ip = TrimSpace (epl_IP (pbp_StorageEndpoint p))
      in if ip = []
         then map_sum id (\<lambda>rows. geo_row p (no_lookup\<lparr>gl_Error := ''empty storage IP''\<rparr>) # rows) (geo_rows pause getInfo ps cache n)
         else case map_of cache ip of
                Some l \<Rightarrow> map_sum id (\<lambda>rows. geo_row p l # rows) (geo_rows pause getInfo ps cache n)
              | None \<Rightarrow>
                 (case (if n > 0 then pause n else None) of
                    Some err \<Rightarrow> Inl err
                  | None \<Rightarrow>
                     (let l = lookup_of (getInfo n ip)
                      in map_sum id (\<lambda>rows. geo_row p l # rows) (geo_rows pause getInfo ps (AList.update ip l cache) (Suc n)))))"

text \<open>
  A written file is a path with its content; the state of the file system is the list of what was written.  \<open>io_mkdir\<close> is
  the outcome of creating the directory of a path.
\<close>

datatype dump_file =
    RequestFile run_checks_payload
  | EnvelopeFile string run_checks_payload
  | MetaFile "geo_meta_row list"
  | RatesFile string "string list" "64 word" "32 word" "32 word"

record rates_dump_config =
  rdc_ExplicitOutPath :: string
  rdc_JobIDOverride :: string
  rdc_QueryTimeoutMs :: "32 word"
  rdc_TotalMs :: "32 word"
  rdc_QuerySize :: "64 word"

type_synonym dump_writes = "(string \<times> dump_file) list"

record dump_io =
  io_marshal :: "dump_file \<Rightarrow> go_error option"
  io_mkdir :: "string \<Rightarrow> go_error option"
  io_write :: "string \<Rightarrow> dump_file \<Rightarrow> go_error option"
  io_stdout :: "dump_file \<Rightarrow> go_error option"
  io_pause :: "nat \<Rightarrow> go_error option"
  io_ipinfo :: "(nat \<Rightarrow> string \<Rightarrow> go_error + geo_info option) option"

definition write_file :: "dump_io \<Rightarrow> string \<Rightarrow> dump_file \<Rightarrow> dump_writes \<Rightarrow> go_error option \<times> dump_writes" where
  "write_file io path content fs =
     (case io_write io path content of Some err \<Rightarrow> (Some err, fs) | None \<Rightarrow> (None, fs @ [(path, content)]))"

definition writeProviderGeoMeta :: "dump_io \<Rightarrow> (nat \<Rightarrow> string \<Rightarrow> go_error + geo_info option) \<Rightarrow> run_checks_payload \<Rightarrow> string \<Rightarrow> dump_writes \<Rightarrow>
     go_error option \<times> dump_writes" where
  "writeProviderGeoMeta io getInfo req metaPath fs =
     (if rcp_Providers req = [] then (None, fs)
      else case geo_rows (io_pause io) getInfo (rcp_Providers req) [] 0 of
             Inl err \<Rightarrow> (Some err, fs)
           | Inr rows \<Rightarrow>
              case io_marshal io (MetaFile rows) of Some err \<Rightarrow> (Some (ErrWrap ''marshal meta json'' err), fs)
            | None \<Rightarrow>
              (case write_file io metaPath (MetaFile rows) fs of
                 (Some err, fs) \<Rightarrow> (Some (ErrWrap ''write meta file'' err), fs)
               | (None, fs) \<Rightarrow> (None, fs)))"

definition collectProviderPubkeysForRates :: "run_checks_payload \<Rightarrow> string list" where
  "collectProviderPubkeysForRates req = filter (\<lambda>pk. pk \<noteq> []) (map (\<lambda>p. TrimSpace (pbp_ProviderPubkey p)) (rcp_Providers req))"

definition rates_file :: "run_checks_payload \<Rightarrow> rates_dump_config \<Rightarrow> string list \<Rightarrow> dump_file" where
  "rates_file req cfg pubkeys =
     RatesFile (if TrimSpace (rdc_JobIDOverride cfg) = [] then rcp_JobID req @ ''-storage-rates'' else TrimSpace (rdc_JobIDOverride cfg))
       pubkeys (if rdc_QuerySize cfg = 0 then 1 else rdc_QuerySize cfg) (rdc_QueryTimeoutMs cfg) (rdc_TotalMs cfg)"

definition writeRunStorageRatesDump :: "dump_io \<Rightarrow> run_checks_payload \<Rightarrow> string \<Rightarrow> rates_dump_config \<Rightarrow> dump_writes \<Rightarrow> go_error option \<times> dump_writes" where
  "writeRunStorageRatesDump io req runChecksOut cfg fs =
     (let pubkeys = collectProviderPubkeysForRates req
      in if pubkeys = [] then (None, fs)
         else
          (let outPath = (if TrimSpace (rdc_ExplicitOutPath cfg) = [] then storageRatesDefaultOutPath runChecksOut
                          else TrimSpace (rdc_ExplicitOutPath cfg));
               payload = rates_file req cfg pubkeys
           in case io_marshal io payload of Some err \<Rightarrow> (Some (ErrWrap ''marshal storage rates request json'' err), fs)
            | None \<Rightarrow>
              case io_mkdir io outPath of Some err \<Rightarrow> (Some (ErrWrap ''create storage rates output directory'' err), fs)
            | None \<Rightarrow>
              case write_file io outPath payload fs of
                (Some err, fs) \<Rightarrow> (Some (ErrWrap ''write storage rates output file'' err), fs)
              | (None, fs) \<Rightarrow> (None, fs)))"

definition writeRunChecksDump ::
  "dump_io \<Rightarrow> dump_error + run_checks_payload \<Rightarrow> string \<Rightarrow> bool \<Rightarrow> string \<Rightarrow> rates_dump_config option \<Rightarrow> dump_writes \<Rightarrow>
     dump_error option \<times> dump_writes" where
  "writeRunChecksDump io built outPath envelope storage ratesDump fs =
     (case built of
        Inl err \<Rightarrow> (Some err, fs)
      | Inr req \<Rightarrow>
         (let payload = (if envelope then EnvelopeFile storage req else RequestFile req)
          in case io_marshal io payload of Some err \<Rightarrow> (Some (DumpError (ErrWrap ''marshal request json'' err)), fs)
           | None \<Rightarrow>
             if outPath = [] then (map_option DumpError (io_stdout io payload), fs)
             else case io_mkdir io outPath of Some err \<Rightarrow> (Some (DumpError (ErrWrap ''create output directory'' err)), fs)
           | None \<Rightarrow>
              (case write_file io outPath payload fs of
                 (Some err, fs) \<Rightarrow> (Some (DumpError (ErrWrap ''write output file'' err)), fs)
               | (None, fs) \<Rightarrow>
                  (let fs = (case io_ipinfo io of None \<Rightarrow> fs
                             | Some getInfo \<Rightarrow> snd (writeProviderGeoMeta io getInfo req (metaPathForDump outPath) fs))
                   in case ratesDump of
                        None \<Rightarrow> (None, fs)
                      | Some cfg \<Rightarrow> (case writeRunStorageRatesDump io req outPath cfg fs of (err, fs) \<Rightarrow> (map_option DumpError err, fs))))))"

definition shouldRetryMemoryDump :: "dump_error \<Rightarrow> bool" where
  "shouldRetryMemoryDump err \<longleftrightarrow> err = ErrNoStorageContracts \<or> err = ErrNoResolvedProviderEndpoints \<or> err = ErrNoValidProvidersForRunChecks"

section \<open>The attempts in memory mode\<close>

text \<open>Everything outside may answer differently in each attempt, so it is indexed by the number of the attempt.\<close>

record 'addr dump_env =
  de_lib :: "nat \<Rightarrow> 'addr resolve_lib"
  de_shuffle :: "contract_relation list \<Rightarrow> contract_relation list"
  de_perm :: "contract_relation list \<Rightarrow> contract_relation list"
  de_ord :: order
  de_sord :: "storage_key list \<Rightarrow> storage_key list"
  de_finished :: "provider_wallet list \<Rightarrow> provider_wallet list"
  de_updated :: "provider_wallet list \<Rightarrow> provider_wallet list"
  de_getTx :: "nat \<Rightarrow> string \<Rightarrow> 64 word \<Rightarrow> go_error + Transaction list"
  de_getInfo :: "nat \<Rightarrow> string list \<Rightarrow> go_error + StorageContract list"
  de_nowUnix :: "nat \<Rightarrow> int"
  de_wait :: "nat \<Rightarrow> go_error option"
  de_io :: "nat \<Rightarrow> dump_io"
  de_masterAddr :: string
  de_outPath :: string
  de_jobID :: string
  de_providerLimit :: int
  de_envelope :: bool
  de_timeouts :: check_timeouts_payload
  de_ratesDump :: "rates_dump_config option"

definition memoryDumpMaxAttempts :: nat where "memoryDumpMaxAttempts = 3"

text \<open>
  One attempt on fresh repositories.  An error of a collecting step ends \<^verbatim>\<open>run\<close> at once; here it is the error of the
  attempt, which \<open>shouldRetryMemoryDump\<close> never accepts.  Generating the keys of worker and builder, which neither uses
  here, is taken to succeed.
\<close>

definition memory_contracts :: "'addr dump_env \<Rightarrow> nat \<Rightarrow> go_error + contract_relation list" where
  "memory_contracts env i =
     (let ord = de_ord env
      in case CollectNewProviders (mem_collect_repo ord) (de_getTx env i) (de_masterAddr env) ord (mem_NewRepository, []) of
           ((_, Some err), _) \<Rightarrow> Inl (ErrWrap ''CollectNewProviders'' err)
         | ((_, None), db) \<Rightarrow>
            (case CollectProvidersNewStorageContracts (mem_wallet_repo ord ord) (de_getTx env i) (de_getInfo env i) ord
                    (de_finished env) (de_updated env) db of
               ((_, Some err), _) \<Rightarrow> Inl (ErrWrap ''CollectProvidersNewStorageContracts'' err)
             | ((_, None), db) \<Rightarrow> Inr (mem_GetStorageContracts ord (de_sord env) (fst db))))"

definition memory_attempt :: "'addr dump_env \<Rightarrow> nat \<Rightarrow> dump_writes \<Rightarrow> dump_error option \<times> dump_writes" where
  "memory_attempt env i fs =
     (case memory_contracts env i of
        Inl err \<Rightarrow> (Some (DumpError err), fs)
      | Inr scs \<Rightarrow>
         writeRunChecksDump (de_io env i)
           (BuildRunChecksRequest (de_lib env i) (de_shuffle env) (de_ord env) (de_perm env) (de_ord env) (de_nowUnix env i) (Inr scs)
              (de_jobID env) (de_providerLimit env) (de_timeouts env))
           (de_outPath env) (de_envelope env) ''memory'' (de_ratesDump env) fs)"

text \<open>\<open>n\<close> attempts are left, \<open>i\<close> is the number of the next one.\<close>

fun memory_loop :: "'addr dump_env \<Rightarrow> nat \<Rightarrow> nat \<Rightarrow> dump_error option \<Rightarrow> dump_writes \<Rightarrow> dump_error option \<times> dump_writes" where
  "memory_loop env 0 i lastErr fs = (lastErr, fs)"
| "memory_loop env (Suc n) i lastErr fs =
     (case memory_attempt env i fs of
        (None, fs) \<Rightarrow> (None, fs)
      | (Some err, fs) \<Rightarrow>
         if n = 0 \<or> \<not> shouldRetryMemoryDump err then (Some err, fs)
         else case de_wait env i of
                Some e \<Rightarrow> (Some (DumpError e), fs)
              | None \<Rightarrow> memory_loop env n (Suc i) (Some err) fs)"

definition dump_memory :: "'addr dump_env \<Rightarrow> dump_error option \<times> dump_writes" where
  "dump_memory env = memory_loop env memoryDumpMaxAttempts 1 None []"

section \<open>The dumped request is the one the coordinator would send\<close>

definition wire_batch :: "provider_batch_payload \<Rightarrow> provider_batch" where
  "wire_batch p = \<lparr>pb_ProviderPubkey = pbp_ProviderPubkey p, pb_ProviderAddress = pbp_ProviderAddress p,
     pb_StorageEndpoint = Some \<lparr>ep_Ip = epl_IP (pbp_StorageEndpoint p), ep_Port = epl_Port (pbp_StorageEndpoint p),
        ep_AdnlPubkey = epl_ADNLPubkey (pbp_StorageEndpoint p)\<rparr>,
     pb_Contracts = map (\<lambda>c. Some \<lparr>cr_ContractAddress = crp_ContractAddress c, cr_BagId = crp_BagID c\<rparr>) (pbp_Contracts p)\<rparr>"

definition wire_request :: "run_checks_payload \<Rightarrow> run_checks_request" where
  "wire_request req = \<lparr>rq_JobId = rcp_JobID req, rq_Providers = map (\<lambda>p. Some (wire_batch p)) (rcp_Providers req),
     rq_Timeouts = Some \<lparr>ct_PingMs = ctp_PingMs (rcp_Timeouts req), ct_RldpMs = ctp_RldpMs (rcp_Timeouts req),
        ct_TotalMs = ctp_TotalMs (rcp_Timeouts req)\<rparr>\<rparr>"

definition dump_keys :: "provider_ip go_map \<Rightarrow> contract_relation list \<Rightarrow> string list" where
  "dump_keys ips scs = sort (filter (\<lambda>pk. map_of ips pk \<noteq> None) (remdups (map rel_ProviderPublicKey scs)))"

lemma endpoint_usable_Some: "endpoint_usable ips pk \<Longrightarrow> map_of ips pk \<noteq> None"
  by (auto simp: endpoint_usable_def split: option.splits)

lemma payload_provider_wire:
  assumes "pk \<in> rel_ProviderPublicKey ` set scs" "map_of ips pk \<noteq> None"
  shows "map_option wire_batch (payload_provider ips (group_contracts (with_endpoint ips scs)) pk) =
    (if endpoint_usable ips pk then Some (batch_for ips scs pk) else None)"
proof -
  obtain ip where ip: "map_of ips pk = Some ip" using assms(2) by auto
  let ?cs = "filter (\<lambda>sc. rel_ProviderPublicKey sc = pk) scs"
  have g: "go_get [] (group_contracts (with_endpoint ips scs)) pk = ?cs"
    unfolding group_contracts_get with_endpoint_def filter_filter using ip by (intro filter_cong) auto
  have z: "go_get zero_provider_ip ips pk = ip" by (simp add: go_get_def ip)
  have "?cs \<noteq> []" using assms(1) by (auto simp: filter_empty_conv)
  then show ?thesis
    by (simp add: payload_provider_def g z ip endpoint_usable_def batch_for_def provider_request_def payload_batch_def
        wire_batch_def Let_def comp_def not_le)
qed

lemma map_filter_option: "map f (List.map_filter g xs) = List.map_filter (\<lambda>x. map_option f (g x)) xs"
  by (induction xs) (auto simp: List.map_filter_simps split: option.splits)

lemma map_filter_if: "List.map_filter (\<lambda>x. if P x then Some (f x) else None) xs = map f (filter P xs)"
  by (induction xs) (auto simp: List.map_filter_simps)

lemma map_filter_cong: "(\<And>x. x \<in> set xs \<Longrightarrow> f x = g x) \<Longrightarrow> List.map_filter f xs = List.map_filter g xs"
  by (induction xs) (auto simp: List.map_filter_simps split: option.split)

lemma sorted_keys:
  assumes "order_ok gord"
  shows "sort (range_keys gord (group_contracts (with_endpoint ips scs))) = dump_keys ips scs"
proof (rule sorted_distinct_set_unique)
  let ?g = "group_contracts (with_endpoint ips scs)"
  show "distinct (sort (range_keys gord ?g))" using distinct_range_keys [OF assms group_contracts_get(3)] by simp
  show "set (sort (range_keys gord ?g)) = set (dump_keys ips scs)"
    using set_range_keys [OF assms, of ?g] by (auto simp: group_contracts_get dump_keys_def with_endpoint_def)
qed (simp_all add: dump_keys_def)

lemma set_limit_keys: "set (limit_keys n ks) \<subseteq> set ks"
  by (auto simp: limit_keys_def dest: in_set_takeD)

lemma dump_providers:
  assumes "order_ok gord"
  shows "map wire_batch (List.map_filter (payload_provider ips (group_contracts (with_endpoint ips scs)))
      (limit_keys n (sort (range_keys gord (group_contracts (with_endpoint ips scs)))))) =
    map (batch_for ips scs) (filter (endpoint_usable ips) (limit_keys n (dump_keys ips scs)))"
proof -
  have "pk \<in> rel_ProviderPublicKey ` set scs \<and> map_of ips pk \<noteq> None" if "pk \<in> set (limit_keys n (dump_keys ips scs))" for pk
    using that set_limit_keys [of n "dump_keys ips scs"] by (auto simp: dump_keys_def)
  then show ?thesis
    unfolding sorted_keys [OF assms] map_filter_option map_filter_if [symmetric]
    by (intro map_filter_cong) (simp add: payload_provider_wire)
qed

lemma rpc_keys:
  "filter (endpoint_usable ips) (range_keys sort (group_contracts scs)) = filter (endpoint_usable ips) (dump_keys ips scs)"
proof (rule sorted_distinct_set_unique)
  show "distinct (filter (endpoint_usable ips) (range_keys sort (group_contracts scs)))"
    using group_contracts_get(3) by (simp add: range_keys_def go_wf_def)
  show "set (filter (endpoint_usable ips) (range_keys sort (group_contracts scs))) = set (filter (endpoint_usable ips) (dump_keys ips scs))"
    using endpoint_usable_Some by (auto simp: range_keys_def set_go_keys group_contracts_get dump_keys_def)
qed (simp_all add: range_keys_def dump_keys_def sorted_wrt_filter)

text \<open>
  C24.  The dumped request is the one the coordinator would send: built from filled relations it holds, in the order of the keys and up
  to the limit, the batch of every provider with a usable endpoint, it passes the validation of an agent, and without a limit
  its providers are those of the request of a storage-proof pass.  No request is built exactly when there is no such
  provider, and then the error is one after which the tool tries again.
\<close>

theorem dump_request:
  fixes lib :: "'addr resolve_lib" and shuffle perm :: "contract_relation list \<Rightarrow> contract_relation list" and ord :: order
  assumes "order_ok gord" "0 \<le> limit" "scs \<noteq> []" "\<forall>sc \<in> set scs. relation_filled sc" "jobID = [] \<or> TrimSpace jobID \<noteq> []"
  defines "ips \<equiv> resolveProvidersIPsNoPersist lib shuffle ord perm scs"
  defines "usable \<equiv> filter (endpoint_usable ips) (limit_keys limit (dump_keys ips scs))"
  shows "case BuildRunChecksRequest lib shuffle ord perm gord now (Inr scs) jobID limit timeouts of
      Inl err \<Rightarrow> shouldRetryMemoryDump err \<and> usable = []
    | Inr req \<Rightarrow> validateRequest (Some (wire_request req)) = None \<and> usable \<noteq> [] \<and>
        rq_Providers (wire_request req) = map (\<lambda>pk. Some (batch_for ips scs pk)) usable \<and>
        (limit = 0 \<longrightarrow> rq_Providers (wire_request req) = rq_Providers (fst (buildRunChecksRPCRequest tmo sort now' jobID' scs ips)))"
proof -
  let ?g = "group_contracts (with_endpoint ips scs)"
  let ?ps = "List.map_filter (payload_provider ips ?g) (limit_keys limit (sort (range_keys gord ?g)))"
  let ?job = "if jobID = [] then ''dump-'' @ Itoa now else jobID"
  define req where "req = \<lparr>rcp_JobID = ?job, rcp_Providers = ?ps, rcp_Timeouts = dump_timeouts timeouts\<rparr>"
  have ps: "map wire_batch ?ps = map (batch_for ips scs) usable" unfolding usable_def by (rule dump_providers [OF assms(1)])
  then have empty: "?ps = [] \<longleftrightarrow> usable = []" by (metis map_is_Nil_conv)
  have none: "ips = [] \<Longrightarrow> usable = []" by (simp add: usable_def endpoint_usable_def)
  have run: "BuildRunChecksRequest lib shuffle ord perm gord now (Inr scs) jobID limit timeouts =
      (if ips = [] then Inl ErrNoResolvedProviderEndpoints else if ?ps = [] then Inl ErrNoValidProvidersForRunChecks else Inr req)"
    using assms(2,3) by (simp add: BuildRunChecksRequest_def ips_def [symmetric] Let_def req_def)
  have wire: "rq_Providers (wire_request req) = map (\<lambda>pk. Some (batch_for ips scs pk)) usable"
    using arg_cong [OF ps, of "map Some"] by (simp add: wire_request_def comp_def req_def)
  have "batch_ok (Some (batch_for ips scs pk))" if "pk \<in> set usable" for pk
    using that batch_for_ok [OF _ assms(4), of ips pk] set_limit_keys [of limit "dump_keys ips scs"]
    by (auto simp: usable_def dump_keys_def)
  moreover have "TrimSpace ?job \<noteq> []" using assms(5) TrimSpace_ascii_start [of "CHR ''d''"] by auto
  ultimately have valid: "validateRequest (Some (wire_request req)) = None" if "usable \<noteq> []"
    using that wire by (auto simp: validateRequest_None request_ok_def wire_request_def req_def)
  have "rq_Providers (fst (buildRunChecksRPCRequest tmo sort now' jobID' scs ips)) = map (\<lambda>pk. Some (batch_for ips scs pk)) usable"
    if "limit = 0"
    using that by (simp add: built_providers rpc_keys usable_def limit_keys_def)
  moreover consider "ips = []" | "ips \<noteq> []" "?ps = []" | "ips \<noteq> []" "?ps \<noteq> []" by blast
  ultimately show ?thesis
    by cases (use empty none wire valid in \<open>simp_all add: run shouldRetryMemoryDump_def\<close>)
qed

definition dump_lib :: "unit resolve_lib" where
  "dump_lib = \<lparr>rl_ParseAddr = \<lambda>_. Inr (), rl_hashKey = Inr, rl_FindValue = Inr, rl_ParseRecord = \<lambda>_. Inr [1],
     rl_FindAddresses = \<lambda>_. Inr (Some [(Some ''10.0.0.1'', 3333)], replicate 32 0), rl_VerifyStorageADNLProof = \<lambda>_ _ _. Inr [1],
     rl_FindOverlayNodes = \<lambda>_. Inr None\<rparr>"

definition dump_relation :: contract_relation where
  "dump_relation = \<lparr>rel_ProviderPublicKey = ''ab'', rel_ProviderAddress = ''EQp'', rel_Address = ''EQc'', rel_BagID = ''00'', rel_Size = 1, rel_Reason = None\<rparr>"

theorem dump_request_witness:
  "\<exists>req. BuildRunChecksRequest dump_lib id id id id 7 (Inr [dump_relation]) [] 0 \<lparr>ctp_PingMs = 1, ctp_RldpMs = 1, ctp_TotalMs = 0\<rparr> = Inr req \<and>
     validateRequest (Some (wire_request req)) = None"
proof -
  let ?ip = "\<lparr>ip_PublicKey = replicate 32 0, ip_IP = ''10.0.0.1'', ip_Port = 3333\<rparr>"
  let ?ips = "[(''ab'', \<lparr>pip_PublicKey = ''ab'', pip_Storage = ?ip, pip_Provider = ?ip\<rparr>)]"
  have "findProviderIPs dump_lib dump_relation = (snd (hd ?ips), None)"
    by (simp add: findProviderIPs_def findProviderIP_def findStorageIP_def dump_lib_def dump_relation_def TryNTimes_def
        verifyStorageRetries_def eval_nat_numeral hex_value_def)
  then have ips: "resolveProvidersIPsNoPersist dump_lib id id id [dump_relation] = ?ips"
    by (simp add: resolveProvidersIPsNoPersist_def np_resolve_def unique_providers_def range_keys_def go_keys_def
        List.map_filter_simps dump_relation_def)
  have "TrimSpace ''10.0.0.1'' \<noteq> []" by (rule TrimSpace_ascii_start) simp_all
  then have usable: "filter (endpoint_usable ?ips) (limit_keys 0 (dump_keys ?ips [dump_relation])) = [''ab'']"
    by (simp add: limit_keys_def dump_keys_def dump_relation_def endpoint_usable_def)
  have "relation_filled dump_relation"
    using TrimSpace_ascii_start [of "CHR ''a''" "''b''"] TrimSpace_ascii_start [of "CHR ''E''"] TrimSpace_ascii_start [of "CHR ''0''" "''0''"]
    by (simp add: relation_filled_def dump_relation_def)
  then show ?thesis
    using dump_request [where gord = id and limit = 0 and scs = "[dump_relation]" and jobID = "[]" and lib = dump_lib and shuffle = id and
        ord = id and perm = id and now = 7 and timeouts = "\<lparr>ctp_PingMs = 1, ctp_RldpMs = 1, ctp_TotalMs = 0\<rparr>", unfolded ips usable]
    by (cases "BuildRunChecksRequest dump_lib id id id id 7 (Inr [dump_relation]) [] 0 \<lparr>ctp_PingMs = 1, ctp_RldpMs = 1, ctp_TotalMs = 0\<rparr>")
      (simp_all add: order_ok_def)
qed

section \<open>Retries and geography\<close>

text \<open>
  The tool ends after at most three attempts: with success at the first attempt that succeeds, or with the first
  error that is not worth a retry, the error of the last attempt, or the end of its context.
\<close>

lemma memory_loop_result:
  assumes "memory_loop env n i (Some e) fs = (err, fs')" "n > 0"
  shows "\<exists>k < n. (\<exists>fs0. memory_attempt env (i + k) fs0 = (err, fs') \<and> (err = None \<or> k = n - 1 \<or> (\<exists>x. err = Some x \<and> \<not> shouldRetryMemoryDump x))) \<or>
    (\<exists>w. de_wait env (i + k) = Some w \<and> err = Some (DumpError w))"
  using assms
proof (induction n arbitrary: i e fs)
  case (Suc n)
  obtain r fs1 where a: "memory_attempt env i fs = (r, fs1)" by fastforce
  show ?case
  proof (cases "r = None \<or> n = 0 \<or> (\<exists>x. r = Some x \<and> \<not> shouldRetryMemoryDump x)")
    case True
    then have "err = r \<and> fs' = fs1" using Suc.prems(1) a by (auto split: option.splits)
    then show ?thesis using True a by (intro exI [of _ 0]) auto
  next
    case False
    then obtain x where x: "r = Some x" "shouldRetryMemoryDump x" "n > 0" by auto
    show ?thesis
    proof (cases "de_wait env i")
      case None
      then have "memory_loop env n (Suc i) (Some x) fs1 = (err, fs')" using Suc.prems(1) a x by simp
      from Suc.IH [OF this x(3)] obtain k where "k < n" and
        k: "(\<exists>fs0. memory_attempt env (Suc i + k) fs0 = (err, fs') \<and> (err = None \<or> k = n - 1 \<or> (\<exists>x. err = Some x \<and> \<not> shouldRetryMemoryDump x))) \<or>
          (\<exists>w. de_wait env (Suc i + k) = Some w \<and> err = Some (DumpError w))" by blast
      then show ?thesis using x(3) by (intro exI [of _ "Suc k"]) auto
    next
      case (Some w)
      then have "err = Some (DumpError w)" using Suc.prems(1) a x by simp
      then show ?thesis using Some by (intro exI [of _ 0]) auto
    qed
  qed
qed simp

lemma map_sum_Inr: "map_sum id f x = Inr y \<longleftrightarrow> (\<exists>z. x = Inr z \<and> y = f z)"
  by (cases x) auto

lemma geo_rows_complete:
  assumes "geo_rows pause getInfo ps cache n = Inr rows"
  shows "map gm_ProviderPubkey rows = map pbp_ProviderPubkey ps \<and>
    (\<exists>cache'. map_of cache \<subseteq>\<^sub>m map_of cache' \<and>
      list_all (\<lambda>row. TrimSpace (gm_StorageIP row) = [] \<or> map_of cache' (TrimSpace (gm_StorageIP row)) = Some (gm_Lookup row)) rows)"
  using assms
proof (induction pause getInfo ps cache n arbitrary: rows rule: geo_rows.induct)
  case (2 pause getInfo p ps cache n)
  let ?ip = "TrimSpace (epl_IP (pbp_StorageEndpoint p))"
  show ?case
  proof (cases "?ip = []")
    case True
    then obtain rest where "geo_rows pause getInfo ps cache n = Inr rest" "rows = geo_row p (no_lookup\<lparr>gl_Error := ''empty storage IP''\<rparr>) # rest"
      using 2(4) by (auto simp: map_sum_Inr)
    then show ?thesis using 2(1) [OF refl True] True by (auto simp: geo_row_def)
  next
    case False
    show ?thesis
    proof (cases "map_of cache ?ip")
      case (Some l)
      then obtain rest where rest: "geo_rows pause getInfo ps cache n = Inr rest" "rows = geo_row p l # rest"
        using 2(4) False by (auto simp: map_sum_Inr)
      then obtain cache' where "map gm_ProviderPubkey rest = map pbp_ProviderPubkey ps" "map_of cache \<subseteq>\<^sub>m map_of cache'"
        "list_all (\<lambda>row. TrimSpace (gm_StorageIP row) = [] \<or> map_of cache' (TrimSpace (gm_StorageIP row)) = Some (gm_Lookup row)) rest"
        using 2(3) [OF refl False Some] by blast
      moreover from this(2) have "map_of cache' ?ip = Some l" using Some unfolding map_le_def by (metis domI)
      ultimately show ?thesis using rest(2) by (auto simp: geo_row_def)
    next
      case None
      let ?l = "lookup_of (getInfo n ?ip)"
      have pause: "(if n > 0 then pause n else None) = None" using 2(4) False None by (auto simp: Let_def split: option.splits)
      then obtain rest where rest: "geo_rows pause getInfo ps (AList.update ?ip ?l cache) (Suc n) = Inr rest" "rows = geo_row p ?l # rest"
        using 2(4) False None by (auto simp: Let_def map_sum_Inr)
      then obtain cache' where "map gm_ProviderPubkey rest = map pbp_ProviderPubkey ps" "map_of (AList.update ?ip ?l cache) \<subseteq>\<^sub>m map_of cache'"
        "list_all (\<lambda>row. TrimSpace (gm_StorageIP row) = [] \<or> map_of cache' (TrimSpace (gm_StorageIP row)) = Some (gm_Lookup row)) rest"
        using 2(2) [OF refl False None pause refl] by blast
      moreover from this(2) have "map_of cache' ?ip = Some ?l" "map_of cache \<subseteq>\<^sub>m map_of cache'"
        using None by (auto simp: map_le_def dom_def split: if_splits)
      ultimately show ?thesis using rest(2) by (auto simp: geo_row_def)
    qed
  qed
qed (auto intro: map_le_refl)

end
