(* ===== verification/Workers.thy ===== *)
theory Workers
  imports StoreProof Collect
begin

text \<open>
  \<^verbatim>\<open>coordinator/internal/workers/workers.go\<close>, \<^verbatim>\<open>workers/cleaner/worker.go\<close> and \<^verbatim>\<open>NewWorker\<close> of
  \<^verbatim>\<open>workers/providersMaster/worker.go\<close>: the loop that runs every worker, the worker that removes old rows, and the
  defaults a worker starts with.
\<close>

section \<open>The start of the master worker\<close>

definition defaultEndpointStaleTTL :: duration where "defaultEndpointStaleTTL = 43200000000000"
definition defaultEndpointFullRefreshInterval :: duration where "defaultEndpointFullRefreshInterval = 21600000000000"
definition defaultEndpointFullRefreshFailInterval :: duration where "defaultEndpointFullRefreshFailInterval = 30000000000"

definition or_default :: "duration \<Rightarrow> duration \<Rightarrow> duration" where
  "or_default dflt d = (if d \<le> 0 then dflt else d)"

text \<open>\<^verbatim>\<open>NewWorker\<close> returns nil when no key can be generated; \<open>keygen\<close> is that outcome.\<close>

definition NewWorker ::
  "go_error option \<Rightarrow> endpoint_cfg \<Rightarrow> store_proof_config \<Rightarrow> (endpoint_cfg \<times> store_proof_config \<times> master_state) option" where
  "NewWorker keygen endpointCfg storeProofCfg =
     (case keygen of
        Some _ \<Rightarrow> None
      | None \<Rightarrow>
         Some (\<lparr>ecf_StaleTTL = or_default defaultEndpointStaleTTL (ecf_StaleTTL endpointCfg),
                ecf_FullRefreshInterval = or_default defaultEndpointFullRefreshInterval (ecf_FullRefreshInterval endpointCfg),
                ecf_FailInterval = or_default defaultEndpointFullRefreshFailInterval (ecf_FailInterval endpointCfg)\<rparr>,
               storeProofCfg\<lparr>spc_Interval := or_default defaultStoreProofInterval (spc_Interval storeProofCfg)\<rparr>,
               \<lparr>ms_lastKnownIPs = [], ms_providerAgentSuccess = []\<rparr>))"

section \<open>The cleaner\<close>

record 's cleaner_repo =
  cl_CleanOldProvidersHistory :: "int \<Rightarrow> 's \<Rightarrow> (go_error + int) \<times> 's"
  cl_CleanOldStatusesHistory :: "int \<Rightarrow> 's \<Rightarrow> (go_error + int) \<times> 's"
  cl_CleanOldBenchmarksHistory :: "int \<Rightarrow> 's \<Rightarrow> (go_error + int) \<times> 's"
  cl_CleanOldTelemetryHistory :: "int \<Rightarrow> 's \<Rightarrow> (go_error + int) \<times> 's"
  cl_CleanOldProviderPipelineEvents :: "int \<Rightarrow> 's \<Rightarrow> (go_error + int) \<times> 's"
  cl_CleanOldBagPipelineEvents :: "int \<Rightarrow> 's \<Rightarrow> (go_error + int) \<times> 's"

definition clean_call :: "('s \<Rightarrow> (go_error + int) \<times> 's) \<Rightarrow> duration \<times> 's \<Rightarrow> duration \<times> 's" where
  "clean_call call st =
     (case st of (interval, db) \<Rightarrow>
        (case call db of
           (Inl _, db) \<Rightarrow> (seconds 5, db)
         | (Inr _, db) \<Rightarrow> (interval, db)))"

definition clean_calls :: "'s cleaner_repo \<Rightarrow> int \<Rightarrow> ('s \<Rightarrow> (go_error + int) \<times> 's) list" where
  "clean_calls repo days =
     [cl_CleanOldProvidersHistory repo days, cl_CleanOldStatusesHistory repo days, cl_CleanOldBenchmarksHistory repo days,
      cl_CleanOldTelemetryHistory repo days, cl_CleanOldProviderPipelineEvents repo days, cl_CleanOldBagPipelineEvents repo days]"

text \<open>The error of a call is shadowed in its \<^verbatim>\<open>if\<close>, so the worker itself never returns one.\<close>

definition CleanupOldData :: "'s cleaner_repo \<Rightarrow> int \<Rightarrow> 's \<Rightarrow> step_result \<times> 's" where
  "CleanupOldData repo days db =
     (case fold clean_call (clean_calls repo days) (minutes 60, db) of (interval, db) \<Rightarrow> ((interval, None), db))"

section \<open>The loop\<close>

definition run_interval :: "duration \<Rightarrow> duration" where
  "run_interval interval = (if interval \<le> 0 then seconds 1 else interval)"

text \<open>
  A run of the loop with the delays it waits: the context ends before a call, during the wait after one, or the timer fires and
  the loop goes on.  \<open>f i\<close> is call number \<open>i\<close> of the worker.
\<close>

inductive worker_run :: "(nat \<Rightarrow> 's \<Rightarrow> step_result \<times> 's) \<Rightarrow> nat \<Rightarrow> 's \<Rightarrow> duration list \<Rightarrow> 's \<Rightarrow> bool"
  for f :: "nat \<Rightarrow> 's \<Rightarrow> step_result \<times> 's" where
  done_before: "worker_run f i s [] s"
| done_waiting: "f i s = ((d, err), s') \<Longrightarrow> worker_run f i s [run_interval d] s'"
| again: "f i s = ((d, err), s') \<Longrightarrow> worker_run f (Suc i) s' ds s'' \<Longrightarrow> worker_run f i s (run_interval d # ds) s''"

inductive_cases worker_runE: "worker_run f i s ds s'"

section \<open>What the loop guarantees\<close>

lemma run_interval_pos: "0 < run_interval d"
  by (simp add: run_interval_def seconds_def)

text \<open>A worker whose every interval is at least \<open>m\<close> is called at most once in \<open>m\<close>, whatever its calls return.\<close>

lemma worker_paced:
  assumes "worker_run f i s ds s'" "\<And>i s. m \<le> run_interval (fst (fst (f i s)))"
  shows "int (length ds) * m \<le> sum_list ds \<and> (\<forall>d \<in> set ds. 0 < d)"
  using assms(1)
proof induction
  case (done_waiting i s d err s')
  then show ?case using assms(2) [of i s] run_interval_pos by simp
next
  case (again i s d err s' ds s'')
  then show ?case using assms(2) [of i s] run_interval_pos by (simp add: algebra_simps)
qed simp

lemma clean_call_fold:
  "fold clean_call calls (interval, db) =
     (if \<exists>k < length calls. isl (fst ((calls ! k) (fold (\<lambda>c db. snd (c db)) (take k calls) db))) then seconds 5 else interval,
      fold (\<lambda>c db. snd (c db)) calls db)"
proof (induction calls arbitrary: interval db)
  case (Cons c calls)
  have ex: "(\<exists>k < Suc n. P k) \<longleftrightarrow> P 0 \<or> (\<exists>k < n. P (Suc k))" for n P
    by (metis Suc_less_eq gr0_implies_Suc neq0_conv zero_less_Suc)
  obtain r db' where r: "c db = (r, db')" by fastforce
  have "clean_call c (interval, db) = (if isl r then seconds 5 else interval, db')"
    by (cases r) (simp_all add: clean_call_def r)
  then show ?case by (auto simp add: r Cons.IH ex)
qed simp

text \<open>A cleanup makes all six calls, also after a failed one, and is repeated soon exactly when one failed.\<close>

lemma cleanup_makes_all_calls:
  "snd (CleanupOldData repo days db) = fold (\<lambda>c db. snd (c db)) (clean_calls repo days) db"
  "fst (CleanupOldData repo days db) = (minutes 60, None) \<or> fst (CleanupOldData repo days db) = (seconds 5, None)"
  by (auto simp: CleanupOldData_def clean_call_fold)

lemma cleanup_paced: "worker_run (\<lambda>_. CleanupOldData repo days) 0 db ds db' \<Longrightarrow> int (length ds) * seconds 5 \<le> sum_list ds"
proof -
  assume run: "worker_run (\<lambda>_. CleanupOldData repo days) 0 db ds db'"
  have "seconds 5 \<le> run_interval (fst (fst (CleanupOldData repo days s)))" for s
    using cleanup_makes_all_calls(2) [of repo days s] by (auto simp: run_interval_def seconds_def minutes_def)
  then show ?thesis using worker_paced [OF run] by blast
qed

text \<open>The refresh worker that starts with these defaults never waits less than its positive intervals.\<close>

lemma NewWorker_positive:
  "NewWorker keygen ecfg scfg = Some (ecfg', scfg', ms) \<Longrightarrow>
     0 < ecf_StaleTTL ecfg' \<and> 0 < ecf_FullRefreshInterval ecfg' \<and> 0 < ecf_FailInterval ecfg' \<and> 0 < spc_Interval scfg'"
  by (auto simp: NewWorker_def or_default_def defaultEndpointStaleTTL_def defaultEndpointFullRefreshInterval_def
      defaultEndpointFullRefreshFailInterval_def defaultStoreProofInterval_def split: option.splits)

end
