(* ===== verification/SqlJson.thy ===== *)
theory SqlJson
  imports Strconv DbTypes
begin

text \<open>
  How rows travel to Postgres: the repository passes a slice of structs as one \<^verbatim>\<open>jsonb\<close> argument, which the driver encodes
  with the \<^verbatim>\<open>json\<close> tags of \<^verbatim>\<open>coordinator/internal/models/db/types.go\<close>, and the statements take fields out by
  name.  This theory has JSON values, the encoders of the row types, and the operators and casts of SQL the
  statements use.  Texts hold no NUL character.
\<close>

section \<open>JSON\<close>

text \<open>A number is its literal.  An object lists its members in the order of the fields; no struct here has two with one name.\<close>

datatype json = JNull | JBool bool | JNum string | JStr string | JArr "json list" | JObj "(string \<times> json) list"

definition json_int :: "int \<Rightarrow> json" where
  "json_int n = JNum (Itoa n)"

definition json_uint :: "'a::len word \<Rightarrow> json" where
  "json_uint w = json_int (uint w)"

text \<open>\<^verbatim>\<open>omitempty\<close> on a pointer: the member is left out when the pointer is nil.\<close>

definition omit_nil :: "string \<Rightarrow> ('a \<Rightarrow> json) \<Rightarrow> 'a option \<Rightarrow> (string \<times> json) list" where
  "omit_nil k enc v = (case v of None \<Rightarrow> [] | Some x \<Rightarrow> [(k, enc x)])"

definition status_text :: "pipeline_status \<Rightarrow> string" where
  "status_text st = (case st of PipelineEventError \<Rightarrow> ''error'' | PipelineEventOK \<Rightarrow> ''ok'')"

definition json_ProviderUpdate :: "provider_update \<Rightarrow> json" where
  "json_ProviderUpdate p = JObj
     [(''public_key'', JStr (pu_Pubkey p)), (''rate_per_mb_per_day'', json_int (pu_RatePerMBDay p)),
      (''min_bounty'', json_int (pu_MinBounty p)), (''min_span'', json_uint (pu_MinSpan p)), (''max_span'', json_uint (pu_MaxSpan p))]"

text \<open>\<open>ft\<close> is the RFC 3339 text of a time.\<close>

definition json_ProviderCreate :: "(time \<Rightarrow> string) \<Rightarrow> provider_create \<Rightarrow> json" where
  "json_ProviderCreate ft p = JObj
     [(''public_key'', JStr (pc_Pubkey p)), (''address'', JStr (pc_Address p)), (''registered_at'', JStr (ft (pc_RegisteredAt p)))]"

definition json_ProviderStatusUpdate :: "provider_status_update \<Rightarrow> json" where
  "json_ProviderStatusUpdate p = JObj [(''public_key'', JStr (psu_Pubkey p)), (''is_online'', JBool (psu_IsOnline p))]"

text \<open>\<^verbatim>\<open>ProviderWalletLT\<close> has \<^verbatim>\<open>db\<close> tags only, so its members carry the names of the Go fields.\<close>

definition json_ProviderWalletLT :: "provider_wallet_lt \<Rightarrow> json" where
  "json_ProviderWalletLT p = JObj [(''PubKey'', JStr (pwl_PubKey p)), (''LT'', json_uint (pwl_LT p))]"

definition json_ContractToProviderRelation :: "contract_relation \<Rightarrow> json" where
  "json_ContractToProviderRelation c = JObj
     ([(''provider_public_key'', JStr (rel_ProviderPublicKey c)), (''provider_address'', JStr (rel_ProviderAddress c)),
       (''address'', JStr (rel_Address c)), (''bag_id'', JStr (rel_BagID c)), (''size'', json_uint (rel_Size c))] @
      omit_nil ''reason'' json_int (rel_Reason c))"

definition json_ProviderPipelineEvent :: "provider_pipeline_event \<Rightarrow> json" where
  "json_ProviderPipelineEvent e = JObj
     ([(''provider_pubkey'', JStr (ppe_ProviderPubkey e)), (''status'', JStr (status_text (ppe_Status e))), (''stage'', JStr (ppe_Stage e))] @
      omit_nil ''reason_code'' json_int (ppe_ReasonCode e) @ omit_nil ''error_message'' JStr (ppe_ErrorMessage e) @
      [(''run_id'', JStr (ppe_RunID e)), (''worker'', JStr (ppe_Worker e))])"

definition json_BagPipelineEvent :: "bag_pipeline_event \<Rightarrow> json" where
  "json_BagPipelineEvent e = JObj
     ([(''provider_pubkey'', JStr (bpe_ProviderPubkey e)), (''contract_address'', JStr (bpe_ContractAddress e)), (''bag_id'', JStr (bpe_BagID e)),
       (''status'', JStr (status_text (bpe_Status e))), (''stage'', JStr (bpe_Stage e))] @
      omit_nil ''reason_code'' json_int (bpe_ReasonCode e) @ omit_nil ''error_message'' JStr (bpe_ErrorMessage e) @
      [(''run_id'', JStr (bpe_RunID e)), (''worker'', JStr (bpe_Worker e))])"

text \<open>A Go map is encoded with its keys in order.\<close>

definition json_StorageContract :: "storage_contract \<Rightarrow> json" where
  "json_StorageContract c = JObj
     [(''providers_addresses'', JObj (map (\<lambda>k. (k, JObj [])) (sort (go_keys (sc_ProvidersAddresses c))))),
      (''address'', JStr (sc_Address c)), (''bag_id'', JStr (sc_BagID c)), (''owner_address'', JStr (sc_OwnerAddr c)),
      (''size'', json_uint (sc_Size c)), (''chunk_size'', json_uint (sc_ChunkSize c)), (''last_tx_lt'', json_uint (sc_LastLT c))]"

text \<open>\<open>b64\<close> is the base64 text of a byte slice.\<close>

definition json_IPInfo :: "(bytes \<Rightarrow> string) \<Rightarrow> ip_info \<Rightarrow> json" where
  "json_IPInfo b64 i = JObj [(''pk'', JStr (b64 (ip_PublicKey i))), (''ip'', JStr (ip_IP i)), (''port'', json_int (ip_Port i))]"

definition json_ProviderIP :: "(bytes \<Rightarrow> string) \<Rightarrow> provider_ip \<Rightarrow> json" where
  "json_ProviderIP b64 p = JObj
     [(''public_key'', JStr (pip_PublicKey p)), (''storage'', json_IPInfo b64 (pip_Storage p)), (''provider'', json_IPInfo b64 (pip_Provider p))]"

definition json_ContractProofsCheck :: "contract_proofs_check \<Rightarrow> json" where
  "json_ContractProofsCheck c = JObj
     [(''contract_address'', JStr (cpc_ContractAddress c)), (''provider_address'', JStr (cpc_ProviderAddress c)),
      (''reason'', json_uint (cpc_Reason c))]"

section \<open>Operators and casts\<close>

text \<open>
  \<open>j_get\<close> is \<^verbatim>\<open>->\<close> and \<open>j_text\<close> is \<^verbatim>\<open>->>\<close>; a missing member and JSON null are SQL's NULL.  No statement takes the text of an array
  or object, for which \<open>j_text\<close> has no value here.
\<close>

definition j_get :: "json \<Rightarrow> string \<Rightarrow> json option" where
  "j_get j k = (case j of JObj ms \<Rightarrow> map_of ms k | _ \<Rightarrow> None)"

definition scalar_text :: "json \<Rightarrow> string option" where
  "scalar_text j = (case j of JStr s \<Rightarrow> Some s | JNum t \<Rightarrow> Some t | JBool b \<Rightarrow> Some (if b then ''true'' else ''false'') | _ \<Rightarrow> None)"

definition j_text :: "json \<Rightarrow> string \<Rightarrow> string option" where
  "j_text j k = Option.bind (j_get j k) scalar_text"

definition j_keys :: "json option \<Rightarrow> string list" where
  "j_keys j = (case j of Some (JObj ms) \<Rightarrow> map fst ms | _ \<Rightarrow> [])"

text \<open>\<^verbatim>\<open>::bigint\<close> and \<^verbatim>\<open>::int\<close> of a text; NULL stays NULL.\<close>

definition cast_int :: "int \<Rightarrow> string \<Rightarrow> string option \<Rightarrow> go_error + int option" where
  "cast_int bound type_name t =
     (case t of
        None \<Rightarrow> Inr None
      | Some s \<Rightarrow>
         (case ParseInt64 s of
            (n, None) \<Rightarrow>
              if - bound \<le> n \<and> n < bound then Inr (Some n)
              else Inl (ErrText (''value is out of range for type '' @ type_name))
          | (n, Some _) \<Rightarrow> Inl (ErrText (''invalid value for type '' @ type_name))))"

definition cast_bigint :: "string option \<Rightarrow> go_error + int option" where
  "cast_bigint = cast_int (2 ^ 63) ''bigint''"

definition cast_int4 :: "string option \<Rightarrow> go_error + int option" where
  "cast_int4 = cast_int (2 ^ 31) ''integer''"

definition cast_bool :: "string option \<Rightarrow> go_error + bool option" where
  "cast_bool t =
     (case t of
        None \<Rightarrow> Inr None
      | Some s \<Rightarrow> if s = ''true'' then Inr (Some True) else if s = ''false'' then Inr (Some False)
                 else Inl (ErrText ''invalid input syntax for type boolean''))"

text \<open>
  Storing a text in a \<^verbatim>\<open>varchar(n)\<close> column: the length counts characters, so continuation bytes of UTF-8 do not count.  What
  is over the limit may only be blanks, which are cut.
\<close>

definition char_start :: "char \<Rightarrow> bool" where
  "char_start c \<longleftrightarrow> (of_char c :: nat) < 128 \<or> 192 \<le> (of_char c :: nat)"

fun take_chars :: "nat \<Rightarrow> string \<Rightarrow> string \<times> string" where
  "take_chars n [] = ([], [])"
| "take_chars n (c # s) =
     (if char_start c then (case n of 0 \<Rightarrow> ([], c # s) | Suc m \<Rightarrow> (case take_chars m s of (a, b) \<Rightarrow> (c # a, b)))
      else (case take_chars n s of (a, b) \<Rightarrow> (c # a, b)))"

definition varchar :: "nat \<Rightarrow> string \<Rightarrow> go_error + string" where
  "varchar n s =
     (case take_chars n s of
        (a, b) \<Rightarrow> if list_all (\<lambda>c. c = CHR '' '') b then Inr a
                 else Inl (ErrText (''value too long for type character varying('' @ nat_Itoa n @ '')'')))"

definition not_null :: "'a option \<Rightarrow> go_error + 'a" where
  "not_null v = (case v of None \<Rightarrow> Inl (ErrText ''null value violates not-null constraint'') | Some x \<Rightarrow> Inr x)"

definition COALESCE :: "'a option \<Rightarrow> 'a \<Rightarrow> 'a" where
  "COALESCE v d = (case v of None \<Rightarrow> d | Some x \<Rightarrow> x)"

definition NULLIF :: "'a option \<Rightarrow> 'a \<Rightarrow> 'a option" where
  "NULLIF v x = (if v = Some x then None else v)"

text \<open>A statement that fails on a row fails as a whole.\<close>

fun traverse :: "('a \<Rightarrow> go_error + 'b) \<Rightarrow> 'a list \<Rightarrow> go_error + 'b list" where
  "traverse f [] = Inr []"
| "traverse f (x # xs) =
     (case f x of
        Inl e \<Rightarrow> Inl e
      | Inr y \<Rightarrow> (case traverse f xs of Inl e \<Rightarrow> Inl e | Inr ys \<Rightarrow> Inr (y # ys)))"

definition bind_sum :: "go_error + 'a \<Rightarrow> ('a \<Rightarrow> go_error + 'b) \<Rightarrow> go_error + 'b" where
  "bind_sum x f = (case x of Inl e \<Rightarrow> Inl e | Inr v \<Rightarrow> f v)"

section \<open>Laws\<close>

named_theorems sql "evaluation of JSON members, casts and statements"

lemma bind_sum_simps [simp]: "bind_sum (Inl e) f = Inl e" "bind_sum (Inr v) f = f v"
  by (simp_all add: bind_sum_def)

lemma bind_sum_Inr: "bind_sum x f = Inr y \<longleftrightarrow> (\<exists>v. x = Inr v \<and> f v = Inr y)"
  by (cases x) auto

lemma not_null_simps [simp]: "not_null (Some x) = Inr x" "not_null None = Inl (ErrText ''null value violates not-null constraint'')"
  by (simp_all add: not_null_def)

lemma traverse_Inr: "traverse f xs = Inr ys \<longleftrightarrow> list_all2 (\<lambda>x y. f x = Inr y) xs ys"
proof (induction xs arbitrary: ys)
  case (Cons x xs)
  show ?case
    by (cases "f x"; cases "traverse f xs") (auto simp: list_all2_Cons1 Cons.IH [symmetric])
qed auto

lemma traverse_total: "(\<And>x. x \<in> set xs \<Longrightarrow> f x = Inr (g x)) \<Longrightarrow> traverse f xs = Inr (map g xs)"
  by (induction xs) auto

lemma traverse_map: "traverse f (map h xs) = traverse (\<lambda>x. f (h x)) xs"
  by (induction xs) (auto split: sum.splits)

lemma traverse_error: "(\<exists>x \<in> set xs. \<exists>e. f x = Inl e) \<longleftrightarrow> (\<exists>e. traverse f xs = Inl e)"
  by (induction xs) (auto split: sum.splits)

lemma ParseInt64_Itoa: "- (2 ^ 63) \<le> n \<Longrightarrow> n < 2 ^ 63 \<Longrightarrow> ParseInt64 (Itoa n) = (n, None)"
proof (cases "n < 0")
  case False
  assume "n < 2 ^ 63"
  then have "unat (word_of_int n :: 64 word) = nat n" using False by (simp add: unat_eq_nat_uint uint_word_of_int)
  then show ?thesis using ParseInt64_FormatUint [of "word_of_int n"] False \<open>n < 2 ^ 63\<close> by (simp add: FormatUint_def Itoa_def)
next
  case True
  assume "- (2 ^ 63) \<le> n"
  then have "nat (- n) \<le> 2 ^ 63" by simp
  then have p: "parse_uint 0 (nat_Itoa (nat (- n))) = UInt (nat (- n))" by (intro parse_uint_Itoa) simp
  obtain d s where "nat_Itoa (nat (- n)) = dec_digit d # s" using nat_Itoa_start by blast
  then show ?thesis using True p \<open>nat (- n) \<le> 2 ^ 63\<close>
    by (simp add: ParseInt64_def ParseInt_def Itoa_def ParseUint_def Let_def)
qed

lemma ParseInt64_big: "2 ^ 63 \<le> n \<Longrightarrow> n < 2 ^ 64 \<Longrightarrow> \<exists>e. ParseInt64 (Itoa n) = (2 ^ 63 - 1, Some e)"
proof -
  assume n: "2 ^ 63 \<le> n" "n < 2 ^ 64"
  then have p: "parse_uint 0 (nat_Itoa (nat n)) = UInt (nat n)" by (intro parse_uint_Itoa) (simp add: nat_less_iff)
  obtain d s where d: "d < 10" "nat_Itoa (nat n) = dec_digit d # s" using nat_Itoa_start by blast
  then show ?thesis using n p dec_digit_sign [OF d(1)]
    by (simp add: ParseInt64_def ParseInt_def Itoa_def ParseUint_def Let_def)
qed

text \<open>A number that was encoded comes out of the cast exactly when it is in range, and any other fails the statement.\<close>

lemma cast_int_Itoa:
  assumes "0 < bound" "bound \<le> 2 ^ 63" "- (2 ^ 63) \<le> n" "n < 2 ^ 64"
  shows "(cast_int bound ty (Some (Itoa n)) = Inr (Some n) \<longleftrightarrow> - bound \<le> n \<and> n < bound) \<and>
    (\<not> (- bound \<le> n \<and> n < bound) \<longrightarrow> (\<exists>e. cast_int bound ty (Some (Itoa n)) = Inl e))"
proof (cases "n < 2 ^ 63")
  case True
  then show ?thesis using assms by (simp add: cast_int_def ParseInt64_Itoa)
next
  case False
  then obtain e where "ParseInt64 (Itoa n) = (2 ^ 63 - 1, Some e)" using ParseInt64_big [of n] assms by auto
  then show ?thesis using False assms by (simp add: cast_int_def)
qed

lemma cast_bigint_uint:
  "cast_bigint (Some (Itoa (uint (w :: 64 word)))) = Inr (Some (uint w)) \<longleftrightarrow> uint w < 2 ^ 63"
  "2 ^ 63 \<le> uint w \<Longrightarrow> \<exists>e. cast_bigint (Some (Itoa (uint (w :: 64 word)))) = Inl e"
  using cast_int_Itoa [of "2 ^ 63" "uint w" "''bigint''"] uint_lt2p [of w] uint_ge_0 [of w] by (auto simp: cast_bigint_def simp del: uint_ge_0)

lemma cast_int4_uint:
  "cast_int4 (Some (Itoa (uint (w :: 32 word)))) = Inr (Some (uint w)) \<longleftrightarrow> uint w < 2 ^ 31"
  "2 ^ 31 \<le> uint w \<Longrightarrow> \<exists>e. cast_int4 (Some (Itoa (uint (w :: 32 word)))) = Inl e"
  using cast_int_Itoa [of "2 ^ 31" "uint w" "''integer''"] uint_lt2p [of w] uint_ge_0 [of w] by (auto simp: cast_int4_def simp del: uint_ge_0)

lemma cast_int_None [simp]: "cast_bigint None = Inr None" "cast_int4 None = Inr None" "cast_bool None = Inr None"
  by (simp_all add: cast_bigint_def cast_int4_def cast_int_def cast_bool_def)

lemma cast_bool_text [simp]: "cast_bool (Some (if b then ''true'' else ''false'')) = Inr (Some b)"
  by (simp add: cast_bool_def)

lemma take_chars_append: "take_chars n s = (a, b) \<Longrightarrow> a @ b = s"
  by (induction n s arbitrary: a b rule: take_chars.induct) (auto split: if_splits nat.splits prod.splits)

lemma varchar_prefix: "varchar n s = Inr a \<Longrightarrow> prefix a s"
  using take_chars_append [of n s] by (auto simp: varchar_def prefix_def split: prod.splits if_splits)

lemma varchar_short: "length s \<le> n \<Longrightarrow> varchar n s = Inr s"
proof -
  have "length s \<le> n \<Longrightarrow> take_chars n s = (s, [])" for n
    by (induction n s rule: take_chars.induct) (auto split: nat.splits)
  then show "length s \<le> n \<Longrightarrow> varchar n s = Inr s" by (simp add: varchar_def)
qed

lemma j_text_simps [sql]:
  "j_text (JObj ((k', v) # ms)) k = (if k' = k then scalar_text v else j_text (JObj ms) k)" "j_text (JObj []) k = None"
  by (simp_all add: j_text_def j_get_def)

lemma j_get_simps [sql]:
  "j_get (JObj ((k', v) # ms)) k = (if k' = k then Some v else j_get (JObj ms) k)" "j_get (JObj []) k = None"
  by (simp_all add: j_get_def)

lemma scalar_text_simps [sql]:
  "scalar_text (JStr s) = Some s" "scalar_text (json_int n) = Some (Itoa n)" "scalar_text (json_uint w) = Some (Itoa (uint w))"
  "scalar_text (JBool b) = Some (if b then ''true'' else ''false'')"
  by (simp_all add: scalar_text_def json_int_def json_uint_def)

lemma COALESCE_simps [simp]: "COALESCE None d = d" "COALESCE (Some x) d = x"
  by (simp_all add: COALESCE_def)

end
