(* ===== verification/SqlTables.thy ===== *)
theory SqlTables
  imports SqlJson ApiTypes
begin

text \<open>
  The tables of \<^verbatim>\<open>coordinator/db/init.sql\<close> that the repositories work on, and the forms of statement they use, with
  Postgres' meaning: a statement is atomic, a constraint that fails on one row fails it as a whole, triggers run per row.

  A table with a primary key is an association list, a history or log a list in order of insertion.  SQL fixes
  no order of rows without \<^verbatim>\<open>ORDER BY\<close>, no choice between several matches of \<^verbatim>\<open>UPDATE ... FROM\<close>, and not whether an expression
  of a row that joins with nothing is evaluated; these are fields of \<open>sql_env\<close>, with floating-point arithmetic (\<open>'f\<close> for \<^verbatim>\<open>float8\<close>,
  \<open>'g\<close> for \<^verbatim>\<open>float4\<close>) and the formats of times, base64 and JSON texts.
\<close>

section \<open>Tables\<close>

record ('f, 'g) provider_cols =
  pv_address :: string
  pv_registered_at :: time
  pv_rating :: "'f option"
  pv_updated_at :: "time option"
  pv_min_bounty :: "int option"
  pv_rate_per_mb_per_day :: "int option"
  pv_min_span :: "int option"
  pv_max_span :: "int option"
  pv_is_initialized :: bool
  pv_uptime :: 'f
  pv_max_bag_size_bytes :: int
  pv_last_tx_lt :: int
  pv_ip :: "string option"
  pv_port :: "int option"
  pv_status :: "int option"
  pv_status_ratio :: 'g
  pv_ip_info :: "json option"
  pv_storage_ip :: "string option"
  pv_storage_port :: "int option"
  pv_statuses_reason_stats :: "(int \<times> int) list"

record contract_cols =
  cn_bag_id :: string
  cn_owner_address :: string
  cn_size :: int
  cn_chunk_size :: int
  cn_last_tx_lt :: int
  cn_reason :: "int option"
  cn_reason_timestamp :: "time option"

record ('f, 'g) telemetry_cols =
  tc_storage_git_hash :: string
  tc_provider_git_hash :: string
  tc_cpu_name :: string
  tc_pings :: "string option"
  tc_cpu_product_name :: "string option"
  tc_uname_sysname :: "string option"
  tc_uname_release :: "string option"
  tc_uname_version :: "string option"
  tc_uname_machine :: "string option"
  tc_disk_name :: "string option"
  tc_cpu_load :: "'f option list"
  tc_total_space :: 'f
  tc_free_space :: 'f
  tc_used_space :: 'f
  tc_used_provider_space :: "'f option"
  tc_total_provider_space :: "'f option"
  tc_total_swap :: "'g option"
  tc_usage_swap :: "'g option"
  tc_swap_usage_percent :: "'g option"
  tc_usage_ram :: "'g option"
  tc_total_ram :: "'g option"
  tc_ram_usage_percent :: "'g option"
  tc_cpu_number :: int
  tc_cpu_is_virtual :: bool
  tc_updated_at :: "time option"
  tc_x_real_ip :: "string option"
  tc_disks_load :: json
  tc_disks_load_percent :: json
  tc_iops :: json
  tc_net_load :: "'f option list"
  tc_net_recv :: "'f option list"
  tc_net_sent :: "'f option list"
  tc_pps :: "'f option list"

record 'f benchmark_cols =
  bc_disk :: "json option"
  bc_network :: "json option"
  bc_qd64_disk_read_speed :: "string option"
  bc_qd64_disk_write_speed :: "string option"
  bc_benchmark_timestamp :: "time option"
  bc_speedtest_download :: "'f option"
  bc_speedtest_upload :: "'f option"
  bc_speedtest_ping :: "'f option"
  bc_country :: "string option"
  bc_isp :: "string option"

record provider_event_row =
  per_pubkey :: string
  per_status :: string
  per_stage :: string
  per_reason_code :: "int option"
  per_error_message :: "string option"
  per_run_id :: string
  per_worker :: string
  per_created_at :: time

record bag_event_row =
  ber_pubkey :: string
  ber_contract_address :: string
  ber_bag_id :: string
  ber_status :: string
  ber_stage :: string
  ber_reason_code :: "int option"
  ber_error_message :: "string option"
  ber_run_id :: string
  ber_worker :: string
  ber_created_at :: time

text \<open>
  A history row is the time it was archived, the key, and the old row; the history tables leave some of its columns out.
\<close>

record ('f, 'g) database =
  db_providers :: "(string \<times> ('f, 'g) provider_cols) list"
  db_providers_history :: "(time \<times> string \<times> ('f, 'g) provider_cols) list"
  db_statuses :: "(string \<times> time \<times> bool) list"
  db_statuses_history :: "(string \<times> time \<times> bool) list"
  db_last_online :: "(string \<times> time) list"
  db_storage_contracts :: "((string \<times> string) \<times> contract_cols) list"
  db_storage_contracts_history :: "(time \<times> (string \<times> string) \<times> contract_cols) list"
  db_telemetry :: "(string \<times> ('f, 'g) telemetry_cols) list"
  db_telemetry_history :: "(time \<times> string \<times> ('f, 'g) telemetry_cols) list"
  db_benchmarks :: "(string \<times> 'f benchmark_cols) list"
  db_benchmarks_history :: "(time \<times> string \<times> 'f benchmark_cols) list"
  db_provider_pipeline_events :: "provider_event_row list"
  db_bag_pipeline_events :: "bag_event_row list"
  db_params :: "(string \<times> string option) list"

definition empty_database :: "('f, 'g) database" where
  "empty_database =
     \<lparr>db_providers = [], db_providers_history = [], db_statuses = [], db_statuses_history = [], db_last_online = [],
      db_storage_contracts = [], db_storage_contracts_history = [], db_telemetry = [], db_telemetry_history = [],
      db_benchmarks = [], db_benchmarks_history = [], db_provider_pipeline_events = [], db_bag_pipeline_events = [], db_params = []\<rparr>"

text \<open>
  \<open>se_pick n\<close> chooses one of \<open>n\<close> rows; \<open>se_text64\<close>, \<open>se_text32\<close> are the texts of floats in a \<^verbatim>\<open>jsonb\<close> value, \<open>se_float8\<close>,
  \<open>se_float4\<close> the casts of texts; \<open>se_uptime\<close> is the quotient of two counts, \<open>se_ratio\<close> the same rounded to four digits; the last fields
  are the rounded values the triggers compare.
\<close>

record ('f, 'g) sql_env =
  se_pick :: "nat \<Rightarrow> nat"
  se_eager :: bool
  se_shuffle :: "(int \<times> int) list \<Rightarrow> (int \<times> int) list"
  se_zero8 :: 'f
  se_zero4 :: 'g
  se_text64 :: "'f \<Rightarrow> string"
  se_text32 :: "'g \<Rightarrow> string"
  se_float8 :: "string \<Rightarrow> 'f option"
  se_float4 :: "string \<Rightarrow> 'g option"
  se_formatTime :: "time \<Rightarrow> string"
  se_parseTime :: "string \<Rightarrow> time option"
  se_base64 :: "bytes \<Rightarrow> string"
  se_parseJson :: "string \<Rightarrow> json option"
  se_uptime :: "nat \<Rightarrow> nat \<Rightarrow> 'f"
  se_ratio :: "nat \<Rightarrow> nat \<Rightarrow> 'g"
  se_whole :: "'f \<Rightarrow> int"
  se_percent :: "'f \<Rightarrow> int"
  se_tenths8 :: "'f \<Rightarrow> int"
  se_tenths4 :: "'g \<Rightarrow> int"
  se_millions :: "'f \<Rightarrow> int"

text \<open>What is assumed of the environment: a choice is one of the rows, an unspecified order keeps them.\<close>

definition env_ok :: "('f, 'g) sql_env \<Rightarrow> bool" where
  "env_ok env \<longleftrightarrow> (\<forall>n > 0. se_pick env n < n) \<and> (\<forall>xs. mset (se_shuffle env xs) = mset xs)"

section \<open>Statements\<close>

text \<open>A call of \<^verbatim>\<open>Exec\<close>: \<open>fault\<close> is an error from outside, such as a lost connection, after which nothing has changed.\<close>

definition exec_sql :: "go_error option \<Rightarrow> ('d \<Rightarrow> go_error + 'd) \<Rightarrow> 'd \<Rightarrow> go_error option \<times> 'd" where
  "exec_sql fault statement db =
     (case fault of
        Some e \<Rightarrow> (Some e, db)
      | None \<Rightarrow> (case statement db of Inl e \<Rightarrow> (Some e, db) | Inr db' \<Rightarrow> (None, db')))"

text \<open>
  \<^verbatim>\<open>INSERT ... ON CONFLICT (key) DO UPDATE\<close> of rows with their keys: \<open>merge old new\<close> is the row after the update.  Postgres refuses to
  touch one row twice.
\<close>

definition upsert :: "('r \<Rightarrow> 'r \<Rightarrow> 'r) \<Rightarrow> ('k \<times> 'r) list \<Rightarrow> ('k \<times> 'r) list \<Rightarrow> go_error + ('k \<times> 'r) list" where
  "upsert merge rows table =
     (if distinct (map fst rows)
      then Inr (fold (\<lambda>(k, r). AList.update k (case map_of table k of None \<Rightarrow> r | Some old \<Rightarrow> merge old r)) rows table)
      else Inl (ErrText ''ON CONFLICT DO UPDATE command cannot affect row a second time''))"

text \<open>\<^verbatim>\<open>UPDATE ... FROM js\<close>: the row with key \<open>k\<close> is updated with one of the source rows that have that key, if there is any.\<close>

definition matching :: "('j \<Rightarrow> 'k option) \<Rightarrow> 'j list \<Rightarrow> 'k \<Rightarrow> 'j list" where
  "matching key js k = filter (\<lambda>j. key j = Some k) js"

definition picked :: "(nat \<Rightarrow> nat) \<Rightarrow> ('j \<Rightarrow> 'k option) \<Rightarrow> 'j list \<Rightarrow> 'k \<Rightarrow> 'j option" where
  "picked pick key js k =
     (let ms = matching key js k in if ms = [] then None else Some (ms ! pick (length ms)))"

definition update_from :: "('k \<Rightarrow> 'j option) \<Rightarrow> ('j \<Rightarrow> 'r \<Rightarrow> 'r) \<Rightarrow> ('k \<times> 'r) list \<Rightarrow> ('k \<times> 'r) list" where
  "update_from source set_row table = map (\<lambda>(k, r). (k, case source k of None \<Rightarrow> r | Some j \<Rightarrow> set_row j r)) table"

text \<open>
  Its source is a subquery over the elements of a JSON array: \<open>parse\<close> evaluates its expressions, for all elements or only for those that
  join with a row of the table, and \<open>assign\<close> converts the values to the types of the columns, which happens only for joined rows.
\<close>

definition joined :: "'k list \<Rightarrow> ('j \<Rightarrow> 'k option) \<Rightarrow> 'j list \<Rightarrow> 'j list" where
  "joined keys key js = filter (\<lambda>j. \<exists>k \<in> set keys. key j = Some k) js"

definition update_source ::
  "('f, 'g) sql_env \<Rightarrow> 'k list \<Rightarrow> (json \<Rightarrow> 'k option) \<Rightarrow> (json \<Rightarrow> go_error + 'u) \<Rightarrow> ('u \<Rightarrow> go_error + 'v) \<Rightarrow> json list \<Rightarrow>
     go_error + ('k \<Rightarrow> 'v option)" where
  "update_source env keys key parse assign js =
     bind_sum (traverse parse (if se_eager env then js else joined keys key js))
       (\<lambda>_. bind_sum (traverse (\<lambda>j. bind_sum (parse j) (\<lambda>u. bind_sum (assign u) (\<lambda>v. Inr (key j, v)))) (joined keys key js))
         (\<lambda>rows. Inr (\<lambda>k. map_option snd (picked (se_pick env) fst rows k))))"

text \<open>
  The trigger \<^verbatim>\<open>log_provider_update\<close>, before each update of a provider: the old row goes to the history when one of the columns it
  watches changes; \<^verbatim>\<open>uptime\<close> and \<^verbatim>\<open>rating\<close> count from a certain step on.
\<close>

definition provider_changed :: "('f, 'g) sql_env \<Rightarrow> ('f, 'g) provider_cols \<Rightarrow> ('f, 'g) provider_cols \<Rightarrow> bool" where
  "provider_changed env old new \<longleftrightarrow>
     pv_min_bounty old \<noteq> pv_min_bounty new \<or> pv_rate_per_mb_per_day old \<noteq> pv_rate_per_mb_per_day new \<or>
     pv_min_span old \<noteq> pv_min_span new \<or> pv_max_span old \<noteq> pv_max_span new \<or>
     se_percent env (pv_uptime old) \<noteq> se_percent env (pv_uptime new) \<or>
     map_option (se_whole env) (pv_rating old) \<noteq> map_option (se_whole env) (pv_rating new)"

definition update_providers ::
  "('f, 'g) sql_env \<Rightarrow> time \<Rightarrow> (string \<Rightarrow> 'j option) \<Rightarrow> ('j \<Rightarrow> ('f, 'g) provider_cols \<Rightarrow> ('f, 'g) provider_cols) \<Rightarrow>
     ('f, 'g) database \<Rightarrow> ('f, 'g) database" where
  "update_providers env now source set_row db =
     db\<lparr>db_providers := update_from source set_row (db_providers db),
        db_providers_history := db_providers_history db @
          List.map_filter (\<lambda>(k, r). case source k of None \<Rightarrow> None
             | Some j \<Rightarrow> if provider_changed env r (set_row j r) then Some (now, k, r) else None) (db_providers db)\<rparr>"

text \<open>The triggers on \<^verbatim>\<open>statuses\<close>: every row written goes to the history, and an online one to \<^verbatim>\<open>last_online\<close>.\<close>

definition status_written :: "string \<times> time \<times> bool \<Rightarrow> ('f, 'g) database \<Rightarrow> ('f, 'g) database" where
  "status_written row db =
     (case row of (k, t, online) \<Rightarrow>
        db\<lparr>db_statuses_history := db_statuses_history db @ [(k, t, online)],
           db_last_online := (if online then AList.update k t (db_last_online db) else db_last_online db)\<rparr>)"

text \<open>The trigger before a delete of a contract; the history has the key (address, provider address, time).\<close>

definition delete_contracts ::
  "time \<Rightarrow> (string \<times> string \<Rightarrow> bool) \<Rightarrow> ('f, 'g) database \<Rightarrow> go_error + ('f, 'g) database" where
  "delete_contracts now doomed db =
     (let gone = filter (\<lambda>(k, _). doomed k) (db_storage_contracts db);
          entries = map (\<lambda>(k, r). (now, k, r)) gone
      in if \<exists>(t, k, _) \<in> set (db_storage_contracts_history db). t = now \<and> k \<in> fst ` set gone
         then Inl (ErrText ''duplicate key value violates unique constraint storage_contracts_history_pkey'')
         else Inr (db\<lparr>db_storage_contracts := filter (\<lambda>(k, _). \<not> doomed k) (db_storage_contracts db),
                      db_storage_contracts_history := db_storage_contracts_history db @ entries\<rparr>))"

section \<open>Laws of the statements\<close>

lemma exec_sql_cases:
  "exec_sql fault st db = (err, db') \<Longrightarrow> (err \<noteq> None \<longrightarrow> db' = db) \<and> (err = None \<longrightarrow> st db = Inr db')"
  by (auto simp: exec_sql_def split: option.splits sum.splits)

lemma exec_sql_None [sql]: "exec_sql None st db = (case st db of Inl e \<Rightarrow> (Some e, db) | Inr db' \<Rightarrow> (None, db'))"
  by (simp add: exec_sql_def)

lemma fold_upsert_lookup:
  assumes "distinct (map fst rows)"
  shows "map_of (fold (\<lambda>(k, r). AList.update k (f k r)) rows t) k =
    (case map_of rows k of None \<Rightarrow> map_of t k | Some r \<Rightarrow> Some (f k r))"
  using assms
proof (induction rows arbitrary: t)
  case (Cons kr rows)
  obtain k' r where kr: "kr = (k', r)" by fastforce
  have "k' \<notin> fst ` set rows" using Cons.prems kr by simp
  then have "map_of rows k' = None" by (simp add: map_of_eq_None_iff)
  then show ?case using Cons kr by (auto simp: AList.update_conv' split: option.splits)
qed simp

lemma fold_upsert_keys: "distinct (map fst t) \<Longrightarrow> distinct (map fst (fold (\<lambda>(k, r). AList.update k (f k r)) rows t))"
  by (induction rows arbitrary: t) (auto simp: AList.distinct_update split: prod.splits)

lemma upsert_lookup:
  assumes "upsert merge rows t = Inr t'"
  shows "map_of t' k = (case map_of rows k of None \<Rightarrow> map_of t k
      | Some r \<Rightarrow> Some (case map_of t k of None \<Rightarrow> r | Some old \<Rightarrow> merge old r))"
    and "distinct (map fst t) \<Longrightarrow> distinct (map fst t')" "distinct (map fst rows)"
proof -
  have d: "distinct (map fst rows)" and t': "t' = fold (\<lambda>(k, r). AList.update k ((\<lambda>k r. case map_of t k of None \<Rightarrow> r | Some old \<Rightarrow> merge old r) k r)) rows t"
    using assms by (auto simp: upsert_def split: if_splits)
  show "distinct (map fst rows)" by (rule d)
  show "distinct (map fst t) \<Longrightarrow> distinct (map fst t')" unfolding t' by (rule fold_upsert_keys)
  show "map_of t' k = (case map_of rows k of None \<Rightarrow> map_of t k
      | Some r \<Rightarrow> Some (case map_of t k of None \<Rightarrow> r | Some old \<Rightarrow> merge old r))"
    unfolding t' by (rule fold_upsert_lookup [OF d])
qed

lemma upsert_total: "distinct (map fst rows) \<Longrightarrow> \<exists>t'. upsert merge rows t = Inr t'"
  by (simp add: upsert_def)

lemma update_from_lookup:
  "map_of (update_from source set_row t) k = map_option (\<lambda>r. case source k of None \<Rightarrow> r | Some j \<Rightarrow> set_row j r) (map_of t k)"
  by (induction t) (auto simp: update_from_def split: option.splits)

lemma update_from_keys [simp]: "map fst (update_from source set_row t) = map fst t"
  by (induction t) (auto simp: update_from_def)

lemma picked_cases:
  assumes "\<And>n. 0 < n \<Longrightarrow> pick n < n"
  shows "picked pick key js k = None \<longleftrightarrow> (\<forall>j \<in> set js. key j \<noteq> Some k)"
    and "picked pick key js k = Some j \<Longrightarrow> j \<in> set js \<and> key j = Some k"
proof -
  show "picked pick key js k = None \<longleftrightarrow> (\<forall>j \<in> set js. key j \<noteq> Some k)"
    by (auto simp: picked_def Let_def matching_def filter_empty_conv)
  show "picked pick key js k = Some j \<Longrightarrow> j \<in> set js \<and> key j = Some k"
  proof -
    assume "picked pick key js k = Some j"
    then have "matching key js k \<noteq> []" "j = matching key js k ! pick (length (matching key js k))"
      by (auto simp: picked_def Let_def split: if_splits)
    then have "j \<in> set (matching key js k)" using assms by (metis length_greater_0_conv nth_mem)
    then show ?thesis by (simp add: matching_def)
  qed
qed

text \<open>When the keys of the source rows are distinct there is no choice.\<close>

lemma picked_unique:
  assumes "\<And>n. 0 < n \<Longrightarrow> pick n < n" "j \<in> set js" "key j = Some k" "inj_on key (set js)"
  shows "picked pick key js k = Some j"
proof -
  have "picked pick key js k \<noteq> None" using picked_cases(1) [OF assms(1), of key js k] assms(2,3) by auto
  then obtain i where i: "picked pick key js k = Some i" by auto
  then have "i \<in> set js" "key i = key j" using picked_cases(2) [OF assms(1) i] assms(3) by auto
  then show ?thesis using i assms(2,4) by (auto dest: inj_onD)
qed

lemma traverse_ok: "(\<exists>ys. traverse f xs = Inr ys) \<longleftrightarrow> (\<forall>x \<in> set xs. \<exists>y. f x = Inr y)"
proof -
  have "(\<exists>ys. traverse f xs = Inr ys) \<longleftrightarrow> \<not> (\<exists>e. traverse f xs = Inl e)" by (cases "traverse f xs") auto
  also have "\<dots> \<longleftrightarrow> (\<forall>x \<in> set xs. \<exists>y. f x = Inr y)" unfolding traverse_error [symmetric] by (metis sum.exhaust sum.disc)
  finally show ?thesis .
qed

lemma bind_sum_ok: "(\<exists>y. bind_sum x f = Inr y) \<longleftrightarrow> (\<exists>v y. x = Inr v \<and> f v = Inr y)"
  by (auto simp: bind_sum_Inr)

lemma update_source_ok:
  "(\<exists>src. update_source env keys key parse assign js = Inr src) \<longleftrightarrow>
     (\<forall>j \<in> set (if se_eager env then js else joined keys key js). \<exists>u. parse j = Inr u) \<and>
     (\<forall>j \<in> set (joined keys key js). \<exists>u v. parse j = Inr u \<and> assign u = Inr v)"
proof -
  have "(\<exists>src. update_source env keys key parse assign js = Inr src) \<longleftrightarrow>
      (\<exists>us. traverse parse (if se_eager env then js else joined keys key js) = Inr us) \<and>
      (\<exists>rows. traverse (\<lambda>j. bind_sum (parse j) (\<lambda>u. bind_sum (assign u) (\<lambda>v. Inr (key j, v)))) (joined keys key js) = Inr rows)"
    by (auto simp: update_source_def bind_sum_Inr)
  then show ?thesis unfolding traverse_ok by (auto simp: bind_sum_Inr)
qed

lemma list_all2_sets:
  assumes "list_all2 P xs ys"
  shows "x \<in> set xs \<Longrightarrow> \<exists>y \<in> set ys. P x y" "y \<in> set ys \<Longrightarrow> \<exists>x \<in> set xs. P x y"
  using assms by (induction rule: list_all2_induct) auto

lemma update_source_rows:
  assumes "env_ok env" "update_source env keys key parse assign js = Inr src" "k \<in> set keys"
  shows "src k = None \<longleftrightarrow> (\<forall>j \<in> set js. key j \<noteq> Some k)"
    and "src k = Some v \<Longrightarrow> \<exists>j \<in> set js. \<exists>u. key j = Some k \<and> parse j = Inr u \<and> assign u = Inr v"
proof -
  let ?row = "\<lambda>j. bind_sum (parse j) (\<lambda>u. bind_sum (assign u) (\<lambda>v. Inr (key j, v)))"
  have pick: "\<And>n. 0 < n \<Longrightarrow> se_pick env n < n" using assms(1) by (simp add: env_ok_def)
  obtain rows where rows: "list_all2 (\<lambda>j r. ?row j = Inr r) (joined keys key js) rows"
    and src: "src = (\<lambda>k. map_option snd (picked (se_pick env) fst rows k))"
    using assms(2) by (auto simp: update_source_def bind_sum_Inr traverse_Inr)
  have row_of: "r \<in> set rows \<Longrightarrow> \<exists>j \<in> set (joined keys key js). ?row j = Inr r" for r
    using list_all2_sets(2) [OF rows] by simp
  have forth: "j \<in> set (joined keys key js) \<Longrightarrow> \<exists>r \<in> set rows. ?row j = Inr r" for j
    using list_all2_sets(1) [OF rows] by simp
  have "(\<exists>r \<in> set rows. fst r = Some k) \<longleftrightarrow> (\<exists>j \<in> set js. key j = Some k)"
  proof
    assume "\<exists>r \<in> set rows. fst r = Some k"
    then show "\<exists>j \<in> set js. key j = Some k" using row_of by (fastforce simp: bind_sum_Inr joined_def)
  next
    assume "\<exists>j \<in> set js. key j = Some k"
    then obtain j where "j \<in> set (joined keys key js)" "key j = Some k" using assms(3) by (auto simp: joined_def)
    then show "\<exists>r \<in> set rows. fst r = Some k" using forth [of j] by (auto simp: bind_sum_Inr) (metis fst_conv)
  qed
  then show "src k = None \<longleftrightarrow> (\<forall>j \<in> set js. key j \<noteq> Some k)"
    using picked_cases(1) [OF pick, of fst rows k] by (auto simp: src)
  show "\<exists>j \<in> set js. \<exists>u. key j = Some k \<and> parse j = Inr u \<and> assign u = Inr v" if v: "src k = Some v"
  proof -
    obtain r where r: "picked (se_pick env) fst rows k = Some r" "snd r = v" using v by (auto simp: src)
    then have "r \<in> set rows" "fst r = Some k" using picked_cases(2) [OF pick r(1)] by simp_all
    then show ?thesis using row_of [of r] r(2) by (auto simp: bind_sum_Inr joined_def)
  qed
qed

lemma update_source_error:
  assumes "j \<in> set js" "key j = Some k" "k \<in> set keys" "\<And>u. parse j = Inr u \<Longrightarrow> \<exists>e. assign u = Inl e"
  shows "\<exists>e. update_source env keys key parse assign js = Inl e"
proof -
  have "j \<in> set (joined keys key js)" using assms(1-3) by (auto simp: joined_def)
  then have "\<not> (\<exists>src. update_source env keys key parse assign js = Inr src)"
    unfolding update_source_ok using assms(4) by (metis sum.distinct(1))
  then show ?thesis by (metis sum.exhaust)
qed

end
