(* ===== verification/SqlRepo.thy ===== *)
theory SqlRepo
  imports SqlTables Memory
begin

text \<open>
  \<^verbatim>\<open>coordinator/internal/repositories/providers/repository.go\<close> and \<^verbatim>\<open>repositories/system/repository.go\<close>: the statements on
  providers, contracts, statuses, pipeline events and parameters.  A write takes the environment, the \<open>fault\<close> of its \<^verbatim>\<open>Exec\<close>, the
  time \<^verbatim>\<open>NOW()\<close> of its transaction and the rows; a read takes \<open>fault\<close>, an error of the query or of reading rows, and \<open>sord\<close>, the
  order in which the rows come.  The rows a read has seen before an error are not returned here; no caller uses them.
  The search queries are in \<open>Query\<close>, telemetry, benchmarks and rating in \<open>SqlTelemetry\<close>.
\<close>

section \<open>Providers\<close>

definition new_provider :: "('f, 'g) sql_env \<Rightarrow> string \<Rightarrow> time \<Rightarrow> ('f, 'g) provider_cols" where
  "new_provider env address t =
     \<lparr>pv_address = address, pv_registered_at = t, pv_rating = None, pv_updated_at = None, pv_min_bounty = None,
      pv_rate_per_mb_per_day = None, pv_min_span = None, pv_max_span = None, pv_is_initialized = False, pv_uptime = se_zero8 env,
      pv_max_bag_size_bytes = 0, pv_last_tx_lt = 0, pv_ip = None, pv_port = Some 0, pv_status = None, pv_status_ratio = se_zero4 env,
      pv_ip_info = Some (JObj []), pv_storage_ip = None, pv_storage_port = None, pv_statuses_reason_stats = []\<rparr>"

text \<open>\<^verbatim>\<open>ON CONFLICT DO NOTHING\<close>: a row is skipped when its key or its address is already there.\<close>

definition insert_provider ::
  "string \<times> ('f, 'g) provider_cols \<Rightarrow> (string \<times> ('f, 'g) provider_cols) list \<Rightarrow> (string \<times> ('f, 'g) provider_cols) list" where
  "insert_provider row table =
     (if fst row \<in> fst ` set table \<or> pv_address (snd row) \<in> (\<lambda>r. pv_address (snd r)) ` set table then table else table @ [row])"

definition cast_timestamptz :: "('f, 'g) sql_env \<Rightarrow> string option \<Rightarrow> go_error + time option" where
  "cast_timestamptz env t =
     (case t of
        None \<Rightarrow> Inr None
      | Some s \<Rightarrow> (case se_parseTime env s of
                    None \<Rightarrow> Inl (ErrText ''invalid input syntax for type timestamp with time zone'')
                  | Some x \<Rightarrow> Inr (Some x)))"

definition created_row :: "('f, 'g) sql_env \<Rightarrow> json \<Rightarrow> go_error + string \<times> ('f, 'g) provider_cols" where
  "created_row env p =
     bind_sum (not_null (map_option ToLower (j_text p ''public_key''))) (\<lambda>pk. bind_sum (varchar 64 pk) (\<lambda>pk.
     bind_sum (not_null (j_text p ''address'')) (\<lambda>address. bind_sum (varchar 64 address) (\<lambda>address.
     bind_sum (cast_timestamptz env (j_text p ''registered_at'')) (\<lambda>t. bind_sum (not_null t) (\<lambda>t.
       Inr (pk, new_provider env address t)))))))"

definition sql_AddProviders ::
  "('f, 'g) sql_env \<Rightarrow> go_error option \<Rightarrow> provider_create list \<Rightarrow> ('f, 'g) database \<Rightarrow> go_error option \<times> ('f, 'g) database" where
  "sql_AddProviders env fault providers db =
     (if providers = [] then (None, db)
      else exec_sql fault
        (\<lambda>db. bind_sum (traverse (created_row env) (map (json_ProviderCreate (se_formatTime env)) providers))
           (\<lambda>rows. Inr (db\<lparr>db_providers := fold insert_provider rows (db_providers db)\<rparr>))) db)"

record provider_rates =
  pr_rate_per_mb_per_day :: "int option"
  pr_min_bounty :: "int option"
  pr_min_span :: "int option"
  pr_max_span :: "int option"

definition parse_rates :: "json \<Rightarrow> go_error + provider_rates" where
  "parse_rates p =
     bind_sum (cast_bigint (j_text p ''rate_per_mb_per_day'')) (\<lambda>rate.
     bind_sum (cast_bigint (j_text p ''min_bounty'')) (\<lambda>bounty.
     bind_sum (cast_int4 (j_text p ''min_span'')) (\<lambda>minSpan.
     bind_sum (cast_int4 (j_text p ''max_span'')) (\<lambda>maxSpan.
       Inr \<lparr>pr_rate_per_mb_per_day = rate, pr_min_bounty = bounty, pr_min_span = minSpan, pr_max_span = maxSpan\<rparr>))))"

definition set_rates :: "time \<Rightarrow> provider_rates \<Rightarrow> ('f, 'g) provider_cols \<Rightarrow> ('f, 'g) provider_cols" where
  "set_rates now p r =
     r\<lparr>pv_rate_per_mb_per_day := pr_rate_per_mb_per_day p, pv_min_bounty := pr_min_bounty p, pv_min_span := pr_min_span p,
       pv_max_span := pr_max_span p, pv_is_initialized := True, pv_updated_at := Some now\<rparr>"

definition sql_UpdateProviders ::
  "('f, 'g) sql_env \<Rightarrow> go_error option \<Rightarrow> time \<Rightarrow> provider_update list \<Rightarrow> ('f, 'g) database \<Rightarrow> go_error option \<times> ('f, 'g) database" where
  "sql_UpdateProviders env fault now providers db =
     (if providers = [] then (None, db)
      else exec_sql fault
        (\<lambda>db. bind_sum (update_source env (map fst (db_providers db)) (\<lambda>p. j_text p ''public_key'') parse_rates Inr
                          (map json_ProviderUpdate providers))
           (\<lambda>source. Inr (update_providers env now source (set_rates now) db))) db)"

definition set_lt_col :: "int option \<Rightarrow> ('f, 'g) provider_cols \<Rightarrow> ('f, 'g) provider_cols" where
  "set_lt_col lt r = (case lt of None \<Rightarrow> r | Some n \<Rightarrow> r\<lparr>pv_last_tx_lt := n\<rparr>)"

text \<open>The column does not take NULL.\<close>

definition sql_UpdateProvidersLT ::
  "('f, 'g) sql_env \<Rightarrow> go_error option \<Rightarrow> time \<Rightarrow> provider_wallet_lt list \<Rightarrow> ('f, 'g) database \<Rightarrow> go_error option \<times> ('f, 'g) database" where
  "sql_UpdateProvidersLT env fault now providers db =
     (if providers = [] then (None, db)
      else exec_sql fault
        (\<lambda>db. bind_sum (update_source env (map fst (db_providers db)) (\<lambda>p. map_option ToLower (j_text p ''public_key''))
                          (\<lambda>p. cast_bigint (j_text p ''last_tx_lt'')) (\<lambda>lt. map_sum id Some (not_null lt))
                          (map json_ProviderWalletLT providers))
           (\<lambda>source. Inr (update_providers env now source set_lt_col db))) db)"

record endpoint_cols =
  ec_provider_ip :: "string option"
  ec_provider_port :: "int option"
  ec_storage_ip :: "string option"
  ec_storage_port :: "int option"

definition j_sub :: "json \<Rightarrow> string \<Rightarrow> string \<Rightarrow> string option" where
  "j_sub s k k' = Option.bind (j_get s k) (\<lambda>j. j_text j k')"

definition parse_endpoint :: "json \<Rightarrow> go_error + endpoint_cols" where
  "parse_endpoint s =
     bind_sum (cast_int4 (j_sub s ''provider'' ''port'')) (\<lambda>providerPort.
     bind_sum (cast_int4 (j_sub s ''storage'' ''port'')) (\<lambda>storagePort.
       Inr \<lparr>ec_provider_ip = j_sub s ''provider'' ''ip'', ec_provider_port = providerPort,
            ec_storage_ip = j_sub s ''storage'' ''ip'', ec_storage_port = storagePort\<rparr>))"

text \<open>\<^verbatim>\<open>NULLIF\<close> with the empty value, and the conversion to the column type; the old value of the row fits it already.\<close>

definition assign_varchar :: "nat \<Rightarrow> string option \<Rightarrow> go_error + string option" where
  "assign_varchar n v = (case v of None \<Rightarrow> Inr None | Some s \<Rightarrow> bind_sum (varchar n s) (\<lambda>s. Inr (Some s)))"

definition assign_endpoint :: "endpoint_cols \<Rightarrow> go_error + endpoint_cols" where
  "assign_endpoint j =
     bind_sum (assign_varchar 16 (NULLIF (ec_provider_ip j) [])) (\<lambda>ip.
     bind_sum (assign_varchar 16 (NULLIF (ec_storage_ip j) [])) (\<lambda>storage.
       Inr \<lparr>ec_provider_ip = ip, ec_provider_port = NULLIF (ec_provider_port j) 0,
            ec_storage_ip = storage, ec_storage_port = NULLIF (ec_storage_port j) 0\<rparr>))"

definition or_old :: "'a option \<Rightarrow> 'a option \<Rightarrow> 'a option" where
  "or_old v old = (case v of None \<Rightarrow> old | Some x \<Rightarrow> Some x)"

definition set_endpoint :: "time \<Rightarrow> endpoint_cols \<Rightarrow> ('f, 'g) provider_cols \<Rightarrow> ('f, 'g) provider_cols" where
  "set_endpoint now j r =
     r\<lparr>pv_ip := or_old (ec_provider_ip j) (pv_ip r), pv_port := or_old (ec_provider_port j) (pv_port r),
       pv_storage_ip := or_old (ec_storage_ip j) (pv_storage_ip r), pv_storage_port := or_old (ec_storage_port j) (pv_storage_port r),
       pv_updated_at := Some now\<rparr>"

definition sql_UpdateProvidersIPs ::
  "('f, 'g) sql_env \<Rightarrow> go_error option \<Rightarrow> time \<Rightarrow> provider_ip list \<Rightarrow> ('f, 'g) database \<Rightarrow> go_error option \<times> ('f, 'g) database" where
  "sql_UpdateProvidersIPs env fault now ips db =
     (if ips = [] then (None, db)
      else case exec_sql fault
             (\<lambda>db. bind_sum (update_source env (map fst (db_providers db)) (\<lambda>s. map_option ToLower (j_text s ''public_key''))
                               parse_endpoint assign_endpoint (map (json_ProviderIP (se_base64 env)) ips))
                (\<lambda>source. Inr (update_providers env now source (set_endpoint now) db))) db of
             (err, db) \<Rightarrow> (map_option (ErrWrap ''failed to update providers IPs: '') err, db))"

definition json_ProviderIPInfo :: "provider_ip_info \<Rightarrow> json" where
  "json_ProviderIPInfo p = JObj [(''public_key'', JStr (pii_PublicKey p)), (''ip_info'', JStr (pii_IPInfo p))]"

definition cast_jsonb :: "('f, 'g) sql_env \<Rightarrow> string option \<Rightarrow> go_error + json option" where
  "cast_jsonb env t =
     (case t of
        None \<Rightarrow> Inr None
      | Some s \<Rightarrow> (case se_parseJson env s of None \<Rightarrow> Inl (ErrText ''invalid input syntax for type json'') | Some j \<Rightarrow> Inr (Some j)))"

definition sql_UpdateProvidersIPInfo ::
  "('f, 'g) sql_env \<Rightarrow> go_error option \<Rightarrow> time \<Rightarrow> provider_ip_info list \<Rightarrow> ('f, 'g) database \<Rightarrow> go_error option \<times> ('f, 'g) database" where
  "sql_UpdateProvidersIPInfo env fault now ips db =
     (if ips = [] then (None, db)
      else case exec_sql fault
             (\<lambda>db. bind_sum (update_source env (map fst (db_providers db)) (\<lambda>p. j_text p ''public_key'')
                               (\<lambda>p. cast_jsonb env (j_text p ''ip_info'')) Inr (map json_ProviderIPInfo ips))
                (\<lambda>source. Inr (update_providers env now source (\<lambda>info r. r\<lparr>pv_ip_info := info\<rparr>) db))) db of
             (err, db) \<Rightarrow> (map_option (ErrWrap ''failed to update providers IP info: '') err, db))"

text \<open>\<^verbatim>\<open>Scan\<close> of a \<^verbatim>\<open>bigint\<close> or \<^verbatim>\<open>integer\<close> into an unsigned Go variable fails for a negative number.\<close>

definition scan_uint :: "int \<Rightarrow> go_error + 'a::len word" where
  "scan_uint n =
     (if 0 \<le> n \<and> n < 2 ^ LENGTH('a) then Inr (word_of_int n) else Inl (ErrText ''cannot scan: number out of range''))"

definition scan_uint_null :: "int option \<Rightarrow> go_error + 'a::len word option" where
  "scan_uint_null v = (case v of None \<Rightarrow> Inr None | Some n \<Rightarrow> bind_sum (scan_uint n) (\<lambda>w. Inr (Some w)))"

type_synonym ('f, 'g) provider_perm = "(string \<times> ('f, 'g) provider_cols) list \<Rightarrow> (string \<times> ('f, 'g) provider_cols) list"

definition query_sql :: "go_error option \<Rightarrow> ('r \<Rightarrow> go_error + 'a) \<Rightarrow> 'r list \<Rightarrow> go_error + 'a list" where
  "query_sql fault scan rows = (case fault of Some e \<Rightarrow> Inl e | None \<Rightarrow> traverse scan rows)"

definition sql_GetAllProvidersPubkeys :: "go_error option \<Rightarrow> ('f, 'g) provider_perm \<Rightarrow> ('f, 'g) database \<Rightarrow> go_error + string list" where
  "sql_GetAllProvidersPubkeys fault sord db = query_sql fault (\<lambda>(pk, r). Inr pk) (sord (db_providers db))"

definition sql_GetAllProvidersWallets :: "go_error option \<Rightarrow> ('f, 'g) provider_perm \<Rightarrow> ('f, 'g) database \<Rightarrow> go_error + provider_wallet list" where
  "sql_GetAllProvidersWallets fault sord db =
     query_sql fault (\<lambda>(pk, r). bind_sum (scan_uint (pv_last_tx_lt r)) (\<lambda>lt. Inr \<lparr>pw_PubKey = pk, pw_Address = pv_address r, pw_LT = lt\<rparr>))
       (sord (db_providers db))"

text \<open>At most one row has the key, since keys are stored in lower case; without one the answer is the empty string.\<close>

definition sql_GetProviderIP :: "go_error option \<Rightarrow> ('f, 'g) provider_perm \<Rightarrow> string \<Rightarrow> ('f, 'g) database \<Rightarrow> go_error + string" where
  "sql_GetProviderIP fault sord pubkey db =
     (case fault of
        Some e \<Rightarrow> Inl e
      | None \<Rightarrow> (case find (\<lambda>(pk, r). ToLower pk = ToLower pubkey) (sord (db_providers db)) of
                   None \<Rightarrow> Inr []
                 | Some (pk, r) \<Rightarrow> Inr (COALESCE (pv_ip r) [])))"

text \<open>Comparisons with NULL do not hold.\<close>

definition wants_ip_info :: "('f, 'g) provider_cols \<Rightarrow> bool" where
  "wants_ip_info r =
     (case pv_ip r of
        None \<Rightarrow> False
      | Some ip \<Rightarrow> ip \<noteq> [] \<and> (case pv_ip_info r of None \<Rightarrow> False
                    | Some info \<Rightarrow> info = JObj [] \<or> (case j_text info ''ip'' of None \<Rightarrow> False | Some old \<Rightarrow> old \<noteq> ip)))"

definition sql_GetProvidersIPs :: "go_error option \<Rightarrow> ('f, 'g) provider_perm \<Rightarrow> ('f, 'g) database \<Rightarrow> go_error + provider_ip list" where
  "sql_GetProvidersIPs fault sord db =
     query_sql fault
       (\<lambda>(pk, r). Inr \<lparr>pip_PublicKey = pk, pip_Storage = \<lparr>ip_PublicKey = [], ip_IP = [], ip_Port = 0\<rparr>,
                       pip_Provider = \<lparr>ip_PublicKey = [], ip_IP = COALESCE (pv_ip r) [], ip_Port = 0\<rparr>\<rparr>)
       (filter (\<lambda>(pk, r). wants_ip_info r)
         (sord (db_providers db)))"

definition sql_GetProvidersEndpointState ::
  "go_error option \<Rightarrow> ('f, 'g) provider_perm \<Rightarrow> string list \<Rightarrow> ('f, 'g) database \<Rightarrow> go_error + provider_endpoint_state list" where
  "sql_GetProvidersEndpointState fault sord pubkeys db =
     (if pubkeys = [] then Inr []
      else query_sql fault
        (\<lambda>(pk, r). Inr \<lparr>pes_PublicKey = pk, pes_Address = pv_address r, pes_UpdatedAt = pv_updated_at r, pes_ProviderIP = COALESCE (pv_ip r) [],
                        pes_ProviderPort = COALESCE (pv_port r) 0, pes_StorageIP = COALESCE (pv_storage_ip r) [],
                        pes_StoragePort = COALESCE (pv_storage_port r) 0\<rparr>)
        (filter (\<lambda>(pk, r). ToLower pk \<in> ToLower ` set pubkeys)
          (sord (db_providers db))))"

section \<open>Statuses and uptime\<close>

definition status_row :: "time \<Rightarrow> json \<Rightarrow> go_error + string \<times> time \<times> bool" where
  "status_row now p =
     bind_sum (not_null (map_option ToLower (j_text p ''public_key''))) (\<lambda>pk. bind_sum (varchar 64 pk) (\<lambda>pk.
     bind_sum (cast_bool (j_text p ''is_online'')) (\<lambda>b. bind_sum (not_null b) (\<lambda>b. Inr (pk, now, b)))))"

definition sql_AddStatuses ::
  "go_error option \<Rightarrow> time \<Rightarrow> provider_status_update list \<Rightarrow> ('f, 'g) database \<Rightarrow> go_error option \<times> ('f, 'g) database" where
  "sql_AddStatuses fault now providers db =
     (if providers = [] then (None, db)
      else exec_sql fault
        (\<lambda>db. bind_sum (traverse (status_row now) (map json_ProviderStatusUpdate providers))
           (\<lambda>rows. bind_sum (upsert (\<lambda>old new. new) rows (db_statuses db))
             (\<lambda>statuses. Inr (fold status_written rows (db\<lparr>db_statuses := statuses\<rparr>))))) db)"

definition uptime_counts :: "('f, 'g) database \<Rightarrow> string \<Rightarrow> (nat \<times> nat) option" where
  "uptime_counts db pk =
     (let checks = filter (\<lambda>(k, _). k = pk) (db_statuses_history db)
      in if checks = [] then None else Some (length (filter (\<lambda>(_, _, online). online) checks), length checks))"

definition sql_UpdateUptime ::
  "('f, 'g) sql_env \<Rightarrow> go_error option \<Rightarrow> time \<Rightarrow> ('f, 'g) database \<Rightarrow> go_error option \<times> ('f, 'g) database" where
  "sql_UpdateUptime env fault now db =
     exec_sql fault
       (\<lambda>db. Inr (update_providers env now (uptime_counts db) (\<lambda>(online, total) r. r\<lparr>pv_uptime := se_uptime env online total\<rparr>) db)) db"

text \<open>
  The reasons of a provider's checks in the last day, with their counts; the reason that is first by count is chosen among the
  most frequent ones.
\<close>

definition recent_reasons :: "time \<Rightarrow> ('f, 'g) database \<Rightarrow> string \<Rightarrow> int list" where
  "recent_reasons now db address =
     List.map_filter
       (\<lambda>((_, provider), c). if provider = address \<and> (case cn_reason_timestamp c of None \<Rightarrow> False | Some t \<Rightarrow> now - minutes 1440 < t)
                            then cn_reason c else None)
       (db_storage_contracts db)"

definition reason_counts :: "int list \<Rightarrow> (int \<times> int) list" where
  "reason_counts reasons = map (\<lambda>r. (r, int (count_list reasons r))) (remdups reasons)"

definition selected_reason :: "('f, 'g) sql_env \<Rightarrow> int list \<Rightarrow> (int \<times> nat) option" where
  "selected_reason env reasons =
     (let top = filter (\<lambda>r. \<forall>r' \<in> set reasons. count_list reasons r' \<le> count_list reasons r) (remdups reasons)
      in if top = [] then None else (let r = top ! se_pick env (length top) in Some (r, count_list reasons r)))"

definition sql_UpdateStatuses ::
  "('f, 'g) sql_env \<Rightarrow> go_error option \<Rightarrow> time \<Rightarrow> ('f, 'g) database \<Rightarrow> go_error option \<times> ('f, 'g) database" where
  "sql_UpdateStatuses env fault now db =
     exec_sql fault
       (\<lambda>db. Inr (update_providers env now
          (\<lambda>pk. case map_of (db_providers db) pk of None \<Rightarrow> None
              | Some r \<Rightarrow> (let reasons = recent_reasons now db (pv_address r)
                          in map_option (\<lambda>sel. (sel, reasons)) (selected_reason env reasons)))
          (\<lambda>((reason, cnt), reasons) r. r\<lparr>pv_status := Some reason, pv_status_ratio := se_ratio env cnt (length reasons),
              pv_statuses_reason_stats := se_shuffle env (reason_counts reasons)\<rparr>) db)) db"

section \<open>Storage contracts\<close>

record contract_json =
  cj_address :: "string option"
  cj_providers :: "string list"
  cj_cols :: "string option \<times> string option \<times> int option \<times> int option \<times> int option"

definition parse_contract :: "json \<Rightarrow> go_error + contract_json" where
  "parse_contract c =
     bind_sum (cast_bigint (j_text c ''size'')) (\<lambda>size.
     bind_sum (cast_bigint (j_text c ''chunk_size'')) (\<lambda>chunk.
     bind_sum (cast_bigint (j_text c ''last_tx_lt'')) (\<lambda>lt.
       Inr \<lparr>cj_address = j_text c ''address'', cj_providers = j_keys (j_get c ''providers_addresses''),
            cj_cols = (j_text c ''bag_id'', j_text c ''owner_address'', size, chunk, lt)\<rparr>)))"

definition contract_insert :: "contract_json \<Rightarrow> string \<Rightarrow> go_error + (string \<times> string) \<times> contract_cols" where
  "contract_insert c provider =
     (case cj_cols c of (bag, owner, sz, chunk, lt) \<Rightarrow>
        bind_sum (not_null (cj_address c)) (\<lambda>address. bind_sum (varchar 64 address) (\<lambda>address.
        bind_sum (varchar 64 provider) (\<lambda>provider.
        bind_sum (not_null bag) (\<lambda>bag. bind_sum (varchar 64 bag) (\<lambda>bag.
        bind_sum (not_null owner) (\<lambda>owner. bind_sum (varchar 64 owner) (\<lambda>owner.
        bind_sum (not_null sz) (\<lambda>sz. bind_sum (not_null chunk) (\<lambda>chunk. bind_sum (not_null lt) (\<lambda>lt.
          Inr ((address, provider),
               \<lparr>cn_bag_id = bag, cn_owner_address = owner, cn_size = sz, cn_chunk_size = chunk, cn_last_tx_lt = lt, cn_reason = None,
                cn_reason_timestamp = None\<rparr>))))))))))))"

text \<open>\<^verbatim>\<open>unnest\<close> gives a row per provider, none for a contract without providers.\<close>

definition sql_AddStorageContracts ::
  "go_error option \<Rightarrow> storage_contract list \<Rightarrow> ('f, 'g) database \<Rightarrow> go_error option \<times> ('f, 'g) database" where
  "sql_AddStorageContracts fault contracts db =
     (if contracts = [] then (None, db)
      else exec_sql fault
        (\<lambda>db. bind_sum (traverse parse_contract (map json_StorageContract contracts))
           (\<lambda>parsed. bind_sum (traverse (\<lambda>(c, p). contract_insert c p) (concat (map (\<lambda>c. map (Pair c) (cj_providers c)) parsed)))
             (\<lambda>rows. bind_sum (upsert (\<lambda>old new. old\<lparr>cn_last_tx_lt := cn_last_tx_lt new\<rparr>) rows (db_storage_contracts db))
               (\<lambda>table. Inr (db\<lparr>db_storage_contracts := table\<rparr>))))) db)"

text \<open>The join of contracts with the providers that have the wallet.\<close>

type_synonym contract_join = "string \<times> (string \<times> string) \<times> contract_cols"

definition contract_providers_join :: "('f, 'g) database \<Rightarrow> contract_join list" where
  "contract_providers_join db =
     concat (map (\<lambda>((address, provider), c).
                    map (\<lambda>(pk, r). (pk, (address, provider), c)) (filter (\<lambda>(pk, r). pv_address r = provider) (db_providers db)))
                 (db_storage_contracts db))"

definition sql_GetStorageContracts ::
  "go_error option \<Rightarrow> (contract_join list \<Rightarrow> contract_join list) \<Rightarrow> ('f, 'g) database \<Rightarrow> go_error + contract_relation list" where
  "sql_GetStorageContracts fault sord db =
     query_sql fault
       (\<lambda>(pk, (address, provider), c). bind_sum (scan_uint (cn_size c)) (\<lambda>size.
          Inr \<lparr>rel_ProviderPublicKey = pk, rel_ProviderAddress = provider, rel_Address = address, rel_BagID = cn_bag_id c,
               rel_Size = size, rel_Reason = cn_reason c\<rparr>))
       (sord (contract_providers_join db))"

definition sql_GetStorageContractsChecks ::
  "go_error option \<Rightarrow> (contract_join list \<Rightarrow> contract_join list) \<Rightarrow> string list \<Rightarrow> ('f, 'g) database \<Rightarrow> go_error + contract_check list" where
  "sql_GetStorageContractsChecks fault sord contracts db =
     query_sql fault
       (\<lambda>(pk, (address, provider), c). bind_sum (scan_uint_null (cn_reason c)) (\<lambda>reason.
          Inr \<lparr>cc_Address = address, cc_ProviderPublicKey = pk, cc_ReasonTimestamp = cn_reason_timestamp c, cc_Reason = reason\<rparr>))
       (sord (filter (\<lambda>(pk, (address, provider), c). address \<in> set contracts) (contract_providers_join db)))"

text \<open>
  Here \<open>sord\<close> sorts by \<^verbatim>\<open>bag_id\<close> in the collation of the database and orders rows of one bag in any way.  The total is a column of the
  rows of the page.
\<close>

definition sql_GetContractBags ::
  "go_error option \<Rightarrow> (contract_join list \<Rightarrow> contract_join list) \<Rightarrow> string \<Rightarrow> int \<Rightarrow> int \<Rightarrow> ('f, 'g) database \<Rightarrow>
     go_error + contract_bag list \<times> int" where
  "sql_GetContractBags fault sord pubkey limit offset db =
     (let found = filter (\<lambda>(pk, _). pubkey = [] \<or> ToLower pk = ToLower pubkey) (contract_providers_join db)
      in if limit < 0 \<or> offset < 0 then Inl (ErrText ''LIMIT and OFFSET must not be negative'')
         else bind_sum
           (query_sql fault
              (\<lambda>(pk, (address, provider), c). bind_sum (scan_uint (cn_size c)) (\<lambda>size. bind_sum (scan_uint_null (cn_reason c)) (\<lambda>reason.
                 Inr \<lparr>cb_Address = address, cb_ProviderPublicKey = pk, cb_BagID = cn_bag_id c, cb_OwnerAddress = cn_owner_address c,
                      cb_Size = size, cb_Reason = reason, cb_ReasonTimestamp = cn_reason_timestamp c\<rparr>)))
              (take (nat limit) (drop (nat offset) (sord found))))
           (\<lambda>bags. Inr (bags, if bags = [] then 0 else int (length found))))"

definition check_key :: "json \<Rightarrow> (string \<times> string) option" where
  "check_key c =
     (case (j_text c ''contract_address'', j_text c ''provider_address'') of
        (Some a, Some p) \<Rightarrow> Some (a, p) | _ \<Rightarrow> None)"

definition set_reason :: "time \<Rightarrow> int option \<Rightarrow> contract_cols \<Rightarrow> contract_cols" where
  "set_reason now reason c = c\<lparr>cn_reason := reason, cn_reason_timestamp := Some now\<rparr>"

definition sql_UpdateContractProofsChecks ::
  "('f, 'g) sql_env \<Rightarrow> go_error option \<Rightarrow> time \<Rightarrow> contract_proofs_check list \<Rightarrow> ('f, 'g) database \<Rightarrow>
     go_error option \<times> ('f, 'g) database" where
  "sql_UpdateContractProofsChecks env fault now contractsProofs db =
     exec_sql fault
       (\<lambda>db. bind_sum (update_source env (map fst (db_storage_contracts db)) check_key (\<lambda>c. cast_int4 (j_text c ''reason'')) Inr
                         (map json_ContractProofsCheck contractsProofs))
          (\<lambda>source. Inr (db\<lparr>db_storage_contracts := update_from source (set_reason now) (db_storage_contracts db)\<rparr>))) db"

definition sql_UpdateRejectedStorageContracts ::
  "go_error option \<Rightarrow> time \<Rightarrow> contract_relation list \<Rightarrow> ('f, 'g) database \<Rightarrow> go_error option \<times> ('f, 'g) database" where
  "sql_UpdateRejectedStorageContracts fault now storageContracts db =
     (if storageContracts = [] then (None, db)
      else exec_sql fault
        (delete_contracts now (\<lambda>k. Some k \<in> (\<lambda>c. case (j_text c ''address'', j_text c ''provider_address'') of
             (Some a, Some p) \<Rightarrow> Some (a, p) | _ \<Rightarrow> None) ` json_ContractToProviderRelation ` set storageContracts)) db)"

section \<open>Pipeline events\<close>

definition text_col :: "nat \<Rightarrow> json \<Rightarrow> string \<Rightarrow> go_error + string" where
  "text_col n e k = bind_sum (not_null (j_text e k)) (varchar n)"

definition event_status :: "json \<Rightarrow> go_error + string" where
  "event_status e =
     bind_sum (text_col 8 e ''status'') (\<lambda>st.
       if st = ''error'' \<or> st = ''ok'' then Inr st else Inl (ErrText ''new row violates check constraint''))"

definition provider_event :: "time \<Rightarrow> json \<Rightarrow> go_error + provider_event_row" where
  "provider_event now e =
     bind_sum (cast_int4 (NULLIF (j_text e ''reason_code'') [])) (\<lambda>reason.
     bind_sum (text_col 64 e ''provider_pubkey'') (\<lambda>pk. bind_sum (event_status e) (\<lambda>st. bind_sum (text_col 64 e ''stage'') (\<lambda>stage.
     bind_sum (text_col 128 e ''run_id'') (\<lambda>run. bind_sum (text_col 64 e ''worker'') (\<lambda>worker.
       Inr \<lparr>per_pubkey = pk, per_status = st, per_stage = stage, per_reason_code = reason,
            per_error_message = NULLIF (j_text e ''error_message'') [], per_run_id = run, per_worker = worker, per_created_at = now\<rparr>))))))"

definition bag_event :: "time \<Rightarrow> json \<Rightarrow> go_error + bag_event_row" where
  "bag_event now e =
     bind_sum (cast_int4 (NULLIF (j_text e ''reason_code'') [])) (\<lambda>reason.
     bind_sum (text_col 64 e ''provider_pubkey'') (\<lambda>pk. bind_sum (text_col 64 e ''contract_address'') (\<lambda>address.
     bind_sum (text_col 64 e ''bag_id'') (\<lambda>bag. bind_sum (event_status e) (\<lambda>st. bind_sum (text_col 64 e ''stage'') (\<lambda>stage.
     bind_sum (text_col 128 e ''run_id'') (\<lambda>run. bind_sum (text_col 64 e ''worker'') (\<lambda>worker.
       Inr \<lparr>ber_pubkey = pk, ber_contract_address = address, ber_bag_id = bag, ber_status = st, ber_stage = stage,
            ber_reason_code = reason, ber_error_message = NULLIF (j_text e ''error_message'') [], ber_run_id = run,
            ber_worker = worker, ber_created_at = now\<rparr>))))))))"

definition sql_InsertProviderPipelineEvents ::
  "go_error option \<Rightarrow> time \<Rightarrow> provider_pipeline_event list \<Rightarrow> ('f, 'g) database \<Rightarrow> go_error option \<times> ('f, 'g) database" where
  "sql_InsertProviderPipelineEvents fault now events db =
     (if events = [] then (None, db)
      else case exec_sql fault
             (\<lambda>db. bind_sum (traverse (provider_event now) (map json_ProviderPipelineEvent events))
                (\<lambda>rows. Inr (db\<lparr>db_provider_pipeline_events := db_provider_pipeline_events db @ rows\<rparr>))) db of
             (err, db) \<Rightarrow> (map_option (ErrWrap ''failed to insert provider pipeline events: '') err, db))"

definition sql_InsertBagPipelineEvents ::
  "go_error option \<Rightarrow> time \<Rightarrow> bag_pipeline_event list \<Rightarrow> ('f, 'g) database \<Rightarrow> go_error option \<times> ('f, 'g) database" where
  "sql_InsertBagPipelineEvents fault now events db =
     (if events = [] then (None, db)
      else case exec_sql fault
             (\<lambda>db. bind_sum (traverse (bag_event now) (map json_BagPipelineEvent events))
                (\<lambda>rows. Inr (db\<lparr>db_bag_pipeline_events := db_bag_pipeline_events db @ rows\<rparr>))) db of
             (err, db) \<Rightarrow> (map_option (ErrWrap ''failed to insert bag pipeline events: '') err, db))"

text \<open>
  \<^verbatim>\<open>DISTINCT ON\<close>: of the newest events of a provider one is chosen.  The conversion to \<^verbatim>\<open>PipelineEventStatus\<close> keeps the text; the table
  holds no other texts than the two of the type.
\<close>

definition last_event :: "('f, 'g) sql_env \<Rightarrow> ('f, 'g) database \<Rightarrow> string \<Rightarrow> provider_event_row option" where
  "last_event env db pk =
     (let own = filter (\<lambda>e. per_pubkey e = pk) (db_provider_pipeline_events db);
          newest = filter (\<lambda>e. \<forall>e' \<in> set own. per_created_at e' \<le> per_created_at e) own
      in if newest = [] then None else Some (newest ! se_pick env (length newest)))"

definition text_status :: "string \<Rightarrow> pipeline_status" where
  "text_status s = (if s = ''ok'' then PipelineEventOK else PipelineEventError)"

definition sql_GetLastProviderPipelineEventStatus ::
  "('f, 'g) sql_env \<Rightarrow> go_error option \<Rightarrow> order \<Rightarrow> string list \<Rightarrow> ('f, 'g) database \<Rightarrow> go_error + pipeline_status go_map" where
  "sql_GetLastProviderPipelineEventStatus env fault sord pubkeys db =
     (if pubkeys = [] then Inr []
      else case fault of
             Some e \<Rightarrow> Inl (ErrWrap ''failed to get last provider pipeline event status: '' e)
           | None \<Rightarrow>
              Inr (List.map_filter (\<lambda>pk. if pk \<in> set pubkeys then map_option (\<lambda>e. (pk, text_status (per_status e))) (last_event env db pk) else None)
                     (sord (remdups (map per_pubkey (db_provider_pipeline_events db))))))"

section \<open>Clean-up\<close>

text \<open>\<^verbatim>\<open>INTERVAL '1 day'\<close> has 24 hours, as in a session in UTC.\<close>

definition horizon :: "time \<Rightarrow> int \<Rightarrow> time" where "horizon now days = now - minutes 1440 * days"

definition clean_sql ::
  "string \<Rightarrow> go_error option \<Rightarrow> ('d \<Rightarrow> 'r list) \<Rightarrow> ('r list \<Rightarrow> 'd \<Rightarrow> 'd) \<Rightarrow> ('r \<Rightarrow> time) \<Rightarrow> time \<Rightarrow> int \<Rightarrow> 'd \<Rightarrow> (go_error + int) \<times> 'd" where
  "clean_sql msg fault get put stamp now days db =
     (case fault of
        Some e \<Rightarrow> (Inl (ErrWrap msg e), db)
      | None \<Rightarrow> (Inr (int (length (filter (\<lambda>r. stamp r < horizon now days) (get db)))),
                 put (filter (\<lambda>r. \<not> stamp r < horizon now days) (get db)) db))"

definition sql_CleanOldProvidersHistory ::
  "go_error option \<Rightarrow> time \<Rightarrow> int \<Rightarrow> ('f, 'g) database \<Rightarrow> (go_error + int) \<times> ('f, 'g) database" where
  "sql_CleanOldProvidersHistory fault now days db =
     clean_sql ''failed to clean old providers history: '' fault db_providers_history (\<lambda>t db. db\<lparr>db_providers_history := t\<rparr>) fst now days db"

definition sql_CleanOldStatusesHistory ::
  "go_error option \<Rightarrow> time \<Rightarrow> int \<Rightarrow> ('f, 'g) database \<Rightarrow> (go_error + int) \<times> ('f, 'g) database" where
  "sql_CleanOldStatusesHistory fault now days db =
     clean_sql ''failed to clean old statuses history: '' fault db_statuses_history (\<lambda>t db. db\<lparr>db_statuses_history := t\<rparr>)
       (\<lambda>(_, t, _). t) now days db"

definition sql_CleanOldBenchmarksHistory ::
  "go_error option \<Rightarrow> time \<Rightarrow> int \<Rightarrow> ('f, 'g) database \<Rightarrow> (go_error + int) \<times> ('f, 'g) database" where
  "sql_CleanOldBenchmarksHistory fault now days db =
     clean_sql ''failed to clean old benchmarks history: '' fault db_benchmarks_history (\<lambda>t db. db\<lparr>db_benchmarks_history := t\<rparr>) fst now days db"

definition sql_CleanOldTelemetryHistory ::
  "go_error option \<Rightarrow> time \<Rightarrow> int \<Rightarrow> ('f, 'g) database \<Rightarrow> (go_error + int) \<times> ('f, 'g) database" where
  "sql_CleanOldTelemetryHistory fault now days db =
     clean_sql ''failed to clean old telemetry history: '' fault db_telemetry_history (\<lambda>t db. db\<lparr>db_telemetry_history := t\<rparr>) fst now days db"

definition sql_CleanOldProviderPipelineEvents ::
  "go_error option \<Rightarrow> time \<Rightarrow> int \<Rightarrow> ('f, 'g) database \<Rightarrow> (go_error + int) \<times> ('f, 'g) database" where
  "sql_CleanOldProviderPipelineEvents fault now days db =
     clean_sql ''failed to clean old provider pipeline events: '' fault db_provider_pipeline_events
       (\<lambda>t db. db\<lparr>db_provider_pipeline_events := t\<rparr>) per_created_at now days db"

definition sql_CleanOldBagPipelineEvents ::
  "go_error option \<Rightarrow> time \<Rightarrow> int \<Rightarrow> ('f, 'g) database \<Rightarrow> (go_error + int) \<times> ('f, 'g) database" where
  "sql_CleanOldBagPipelineEvents fault now days db =
     clean_sql ''failed to clean old bag pipeline events: '' fault db_bag_pipeline_events
       (\<lambda>t db. db\<lparr>db_bag_pipeline_events := t\<rparr>) ber_created_at now days db"

section \<open>System parameters\<close>

text \<open>The parameters are columns of type \<^verbatim>\<open>varchar\<close>; the times of a parameter are left out.\<close>

definition sql_SetParam ::
  "go_error option \<Rightarrow> string \<Rightarrow> string \<Rightarrow> ('f, 'g) database \<Rightarrow> go_error option \<times> ('f, 'g) database" where
  "sql_SetParam fault key val db =
     exec_sql fault
       (\<lambda>db. bind_sum (varchar 256 key) (\<lambda>key. bind_sum (varchar 1024 val) (\<lambda>val.
          bind_sum (upsert (\<lambda>old new. new) [(key, Some val)] (db_params db)) (\<lambda>table. Inr (db\<lparr>db_params := table\<rparr>))))) db"

definition sql_GetParam :: "go_error option \<Rightarrow> string \<Rightarrow> ('f, 'g) database \<Rightarrow> go_error + string" where
  "sql_GetParam fault key db =
     (case fault of
        Some e \<Rightarrow> Inl e
      | None \<Rightarrow> (case map_of (db_params db) key of
                   None \<Rightarrow> Inr []
                 | Some None \<Rightarrow> Inl (ErrText ''cannot scan NULL into *string'')
                 | Some (Some v) \<Rightarrow> Inr v))"

end
