(* ===== verification/SqlTelemetry.thy ===== *)
theory SqlTelemetry
  imports SqlRepo Telemetry
begin

text \<open>
  The statements of \<^verbatim>\<open>repositories/providers/repository.go\<close> on telemetry and benchmarks, the rating, the ranges of the search
  filters, and the function \<^verbatim>\<open>parse_speed_to_int\<close> and the archive triggers of \<^verbatim>\<open>coordinator/db/init.sql\<close> they use.

  A value of type \<^verbatim>\<open>interface{}\<close> is the JSON value it was decoded from.  \<^verbatim>\<open>numeric\<close> is \<^typ>\<open>rat\<close>, whose sums and products are exact in
  Postgres too; the operations of \<^verbatim>\<open>float8\<close>, which fail on overflow, are fields of \<open>float_ops\<close>.
\<close>

section \<open>Speeds as text\<close>

text \<open>\<^verbatim>\<open>::numeric\<close> of a text of digits and dots: the digits, and how many of them are after the dot.\<close>

definition digits_value :: "string \<Rightarrow> nat" where
  "digits_value s = foldl (\<lambda>n c. 10 * n + (of_char c - 48)) 0 s"

definition decimal :: "string \<Rightarrow> (nat \<times> nat) option" where
  "decimal s =
     (let a = takeWhile (\<lambda>c. c \<noteq> CHR ''.'') s
      in case dropWhile (\<lambda>c. c \<noteq> CHR ''.'') s of
           [] \<Rightarrow> if a = [] then None else Some (digits_value a, 0)
         | _ # b \<Rightarrow> if CHR ''.'' \<in> set b \<or> a = [] \<and> b = [] then None else Some (digits_value (a @ b), length b))"

definition speed_multiplier :: "string \<Rightarrow> nat" where
  "speed_multiplier u =
     (if u \<in> {''KiBps'', ''KiB/s'', ''KiB''} then 1024
      else if u \<in> {''MiBps'', ''MiB/s'', ''MiB''} then 1024 * 1024
      else if u \<in> {''GiBps'', ''GiB/s'', ''GiB''} then 1024 * 1024 * 1024
      else if u \<in> {''KBps'', ''KB/s'', ''KB''} then 1000
      else if u \<in> {''MBps'', ''MB/s'', ''MB''} then 1000 * 1000
      else if u \<in> {''GBps'', ''GB/s'', ''GB''} then 1000 * 1000 * 1000
      else 1)"

text \<open>The cast of a \<^verbatim>\<open>numeric\<close> to \<^verbatim>\<open>integer\<close> rounds half up.\<close>

definition parse_speed_to_int :: "string option \<Rightarrow> go_error + int option" where
  "parse_speed_to_int speed_text =
     (case speed_text of
        None \<Rightarrow> Inr None
      | Some s \<Rightarrow>
         (let numeral_char = (\<lambda>c. is_digit c \<or> c = CHR ''.'')
          in case decimal (filter numeral_char s) of
               None \<Rightarrow> Inl (ErrText ''invalid input syntax for type numeric'')
             | Some (n, k) \<Rightarrow>
                (let m = speed_multiplier (filter (\<lambda>c. \<not> numeral_char c) s);
                     v = int ((2 * n * m + 10 ^ k) div (2 * 10 ^ k))
                 in if v < 2 ^ 31 then Inr (Some v) else Inl (ErrText ''integer out of range''))))"

section \<open>Telemetry\<close>

text \<open>A nil slice is encoded as null, which the statement treats like an empty array.\<close>

definition json_TelemetryUpdate :: "('f, 'g) sql_env \<Rightarrow> ('f, 'g, json) telemetry_update \<Rightarrow> json" where
  "json_TelemetryUpdate env t =
     (let f64 = (\<lambda>x. JNum (se_text64 env x)); f32 = (\<lambda>x. JNum (se_text32 env x)); arr = (\<lambda>xs. JArr (map f32 xs))
      in JObj
       [(''public_key'', JStr (tu_PublicKey t)), (''storage_git_hash'', JStr (tu_StorageGitHash t)),
        (''provider_git_hash'', JStr (tu_ProviderGitHash t)), (''cpu_name'', JStr (tu_CPUName t)), (''pings'', JStr (tu_Pings t)),
        (''cpu_product_name'', JStr (tu_CPUProductName t)), (''uname_sysname'', JStr (tu_USysname t)),
        (''uname_release'', JStr (tu_URelease t)), (''uname_version'', JStr (tu_UVersion t)), (''uname_machine'', JStr (tu_UMachine t)),
        (''disk_name'', JStr (tu_DiskName t)), (''cpu_load'', arr (tu_CPULoad t)), (''total_space'', f64 (tu_TotalDiskSpace t)),
        (''free_space'', f64 (tu_FreeDiskSpace t)), (''used_space'', f64 (tu_UsedDiskSpace t)),
        (''used_provider_space'', f64 (tu_UsedProviderSpace t)), (''total_provider_space'', f64 (tu_TotalProviderSpace t)),
        (''total_swap'', f32 (tu_SwapTotal t)), (''usage_swap'', f32 (tu_SwapUsage t)),
        (''swap_usage_percent'', f32 (tu_SwapUsagePercent t)), (''usage_ram'', f32 (tu_RAMUsage t)), (''total_ram'', f32 (tu_RAMTotal t)),
        (''ram_usage_percent'', f32 (tu_RAMUsagePercent t)), (''max_bag_size_bytes'', json_uint (tu_MaxBagSizeBytes t)),
        (''cpu_number'', json_int (sint (tu_CPUNumber t))), (''cpu_is_virtual'', JBool (tu_CPUIsVirtual t)),
        (''x_real_ip'', JStr (tu_TelemetryIP t)), (''net_load'', arr (tu_NetLoad t)), (''net_recv'', arr (tu_NetReceived t)),
        (''net_sent'', arr (tu_NetSent t)), (''disks_load'', tu_DisksLoad t), (''disks_load_percent'', tu_DisksLoadPercent t),
        (''iops'', tu_IOPS t), (''pps'', arr (tu_PPS t))])"

definition cast_float :: "(string \<Rightarrow> 'x option) \<Rightarrow> string option \<Rightarrow> go_error + 'x option" where
  "cast_float parse t =
     (case t of
        None \<Rightarrow> Inr None
      | Some s \<Rightarrow> (case parse s of None \<Rightarrow> Inl (ErrText ''invalid floating-point value'') | Some x \<Rightarrow> Inr (Some x)))"

definition float_array :: "('f, 'g) sql_env \<Rightarrow> json \<Rightarrow> string \<Rightarrow> go_error + 'f option list" where
  "float_array env t k =
     (case j_get t k of Some (JArr xs) \<Rightarrow> traverse (\<lambda>x. cast_float (se_float8 env) (scalar_text x)) xs | _ \<Rightarrow> Inr [])"

definition object_col :: "json \<Rightarrow> string \<Rightarrow> json" where
  "object_col t k = (case j_get t k of Some (JObj ms) \<Rightarrow> JObj ms | _ \<Rightarrow> JObj [])"

definition text_null :: "nat \<Rightarrow> json \<Rightarrow> string \<Rightarrow> go_error + string option" where
  "text_null n t k = assign_varchar n (j_text t k)"

definition telemetry_insert :: "('f, 'g) sql_env \<Rightarrow> time \<Rightarrow> json \<Rightarrow> go_error + string \<times> ('f, 'g) telemetry_cols" where
  "telemetry_insert env now t =
     (let f8 = (\<lambda>k. cast_float (se_float8 env) (j_text t k)); f4 = (\<lambda>k. cast_float (se_float4 env) (j_text t k))
      in
     bind_sum (not_null (map_option ToLower (j_text t ''public_key''))) (\<lambda>pk. bind_sum (varchar 64 pk) (\<lambda>pk.
     bind_sum (text_col 40 t ''storage_git_hash'') (\<lambda>storageHash. bind_sum (text_col 40 t ''provider_git_hash'') (\<lambda>providerHash.
     bind_sum (text_col 255 t ''cpu_name'') (\<lambda>cpuName. bind_sum (text_null 255 t ''cpu_product_name'') (\<lambda>product.
     bind_sum (text_null 64 t ''uname_sysname'') (\<lambda>sysname. bind_sum (text_null 64 t ''uname_release'') (\<lambda>release.
     bind_sum (text_null 128 t ''uname_version'') (\<lambda>version. bind_sum (text_null 64 t ''uname_machine'') (\<lambda>machine.
     bind_sum (text_null 255 t ''disk_name'') (\<lambda>disk. bind_sum (float_array env t ''cpu_load'') (\<lambda>load.
     bind_sum (f8 ''total_space'') (\<lambda>tspace. bind_sum (not_null tspace) (\<lambda>tspace.
     bind_sum (f8 ''used_space'') (\<lambda>uspace. bind_sum (not_null uspace) (\<lambda>uspace.
     bind_sum (f8 ''free_space'') (\<lambda>fspace. bind_sum (not_null fspace) (\<lambda>fspace.
     bind_sum (f8 ''used_provider_space'') (\<lambda>usedProvider. bind_sum (f8 ''total_provider_space'') (\<lambda>totalProvider.
     bind_sum (f4 ''total_swap'') (\<lambda>tswap. bind_sum (f4 ''usage_swap'') (\<lambda>uswap. bind_sum (f4 ''swap_usage_percent'') (\<lambda>pswap.
     bind_sum (f4 ''usage_ram'') (\<lambda>uram. bind_sum (f4 ''total_ram'') (\<lambda>tram. bind_sum (f4 ''ram_usage_percent'') (\<lambda>pram.
     bind_sum (cast_int4 (j_text t ''cpu_number'')) (\<lambda>cpus. bind_sum (not_null cpus) (\<lambda>cpus.
     bind_sum (cast_bool (j_text t ''cpu_is_virtual'')) (\<lambda>virt. bind_sum (not_null virt) (\<lambda>virt.
     bind_sum (text_null 16 t ''x_real_ip'') (\<lambda>realIP. bind_sum (float_array env t ''net_load'') (\<lambda>netLoad.
     bind_sum (float_array env t ''net_recv'') (\<lambda>netRecv. bind_sum (float_array env t ''net_sent'') (\<lambda>netSent.
     bind_sum (float_array env t ''pps'') (\<lambda>pps.
       Inr (pk, \<lparr>tc_storage_git_hash = storageHash, tc_provider_git_hash = providerHash, tc_cpu_name = cpuName, tc_pings = j_text t ''pings'',
                 tc_cpu_product_name = product, tc_uname_sysname = sysname, tc_uname_release = release, tc_uname_version = version,
                 tc_uname_machine = machine, tc_disk_name = disk, tc_cpu_load = load, tc_total_space = tspace, tc_free_space = fspace,
                 tc_used_space = uspace, tc_used_provider_space = usedProvider, tc_total_provider_space = totalProvider,
                 tc_total_swap = tswap, tc_usage_swap = uswap, tc_swap_usage_percent = pswap, tc_usage_ram = uram, tc_total_ram = tram,
                 tc_ram_usage_percent = pram, tc_cpu_number = cpus, tc_cpu_is_virtual = virt, tc_updated_at = Some now,
                 tc_x_real_ip = realIP, tc_disks_load = object_col t ''disks_load'', tc_disks_load_percent = object_col t ''disks_load_percent'',
                 tc_iops = object_col t ''iops'', tc_net_load = netLoad, tc_net_recv = netRecv, tc_net_sent = netSent,
                 tc_pps = pps\<rparr>)))))))))))))))))))))))))))))))))))))"

text \<open>The trigger \<^verbatim>\<open>archive_telemetry\<close>, before an update.\<close>

definition telemetry_changed :: "('f, 'g) sql_env \<Rightarrow> ('f, 'g) telemetry_cols \<Rightarrow> ('f, 'g) telemetry_cols \<Rightarrow> bool" where
  "telemetry_changed env old new \<longleftrightarrow>
     tc_storage_git_hash old \<noteq> tc_storage_git_hash new \<or> tc_provider_git_hash old \<noteq> tc_provider_git_hash new \<or>
     tc_cpu_name old \<noteq> tc_cpu_name new \<or> tc_cpu_product_name old \<noteq> tc_cpu_product_name new \<or>
     tc_uname_sysname old \<noteq> tc_uname_sysname new \<or> tc_uname_release old \<noteq> tc_uname_release new \<or>
     tc_uname_version old \<noteq> tc_uname_version new \<or> tc_uname_machine old \<noteq> tc_uname_machine new \<or> tc_disk_name old \<noteq> tc_disk_name new \<or>
     (\<exists>col \<in> {tc_total_space, tc_free_space, tc_used_space}. se_tenths8 env (col old) \<noteq> se_tenths8 env (col new)) \<or>
     (\<exists>col \<in> {tc_used_provider_space, tc_total_provider_space}.
        map_option (se_tenths8 env) (col old) \<noteq> map_option (se_tenths8 env) (col new)) \<or>
     (\<exists>col \<in> {tc_total_swap, tc_usage_swap, tc_swap_usage_percent, tc_usage_ram, tc_total_ram, tc_ram_usage_percent}.
        map_option (se_tenths4 env) (col old) \<noteq> map_option (se_tenths4 env) (col new)) \<or>
     tc_cpu_number old \<noteq> tc_cpu_number new \<or> tc_cpu_is_virtual old \<noteq> tc_cpu_is_virtual new \<or> tc_x_real_ip old \<noteq> tc_x_real_ip new \<or>
     tc_iops old \<noteq> tc_iops new \<or> tc_pps old \<noteq> tc_pps new \<or> tc_net_sent old \<noteq> tc_net_sent new \<or> tc_net_load old \<noteq> tc_net_load new \<or>
     tc_net_recv old \<noteq> tc_net_recv new \<or> tc_cpu_load old \<noteq> tc_cpu_load new \<or> tc_disks_load old \<noteq> tc_disks_load new \<or>
     tc_disks_load_percent old \<noteq> tc_disks_load_percent new"

text \<open>The rows that an upsert replaces and a trigger archives.\<close>

definition archived :: "('r \<Rightarrow> 'r \<Rightarrow> bool) \<Rightarrow> time \<Rightarrow> ('k \<times> 'r) list \<Rightarrow> ('k \<times> 'r) list \<Rightarrow> (time \<times> 'k \<times> 'r) list" where
  "archived changed now rows table =
     List.map_filter (\<lambda>(k, new). case map_of table k of None \<Rightarrow> None | Some old \<Rightarrow> if changed old new then Some (now, k, old) else None) rows"

definition sql_UpdateTelemetry ::
  "('f, 'g) sql_env \<Rightarrow> go_error option \<Rightarrow> time \<Rightarrow> ('f, 'g, json) telemetry_update list \<Rightarrow> ('f, 'g) database \<Rightarrow>
     go_error option \<times> ('f, 'g) database" where
  "sql_UpdateTelemetry env fault now telemetry db =
     (if telemetry = [] then (None, db)
      else exec_sql fault
        (\<lambda>db. bind_sum (update_source env (map fst (db_providers db)) (\<lambda>t. j_text t ''public_key'')
                          (\<lambda>t. cast_bigint (j_text t ''max_bag_size_bytes'')) not_null (map (json_TelemetryUpdate env) telemetry))
           (\<lambda>source. bind_sum (traverse (telemetry_insert env now) (map (json_TelemetryUpdate env) telemetry))
             (\<lambda>rows. bind_sum (upsert (\<lambda>old new. new) rows (db_telemetry db))
               (\<lambda>table. Inr ((update_providers env now source (\<lambda>size r. r\<lparr>pv_max_bag_size_bytes := size\<rparr>) db)
                  \<lparr>db_telemetry := table,
                   db_telemetry_history := db_telemetry_history db @ archived (telemetry_changed env) now rows (db_telemetry db)\<rparr>))))) db)"

section \<open>Benchmarks\<close>

definition json_BenchmarkUpdate :: "('f, 'g) sql_env \<Rightarrow> ('f, 'g) benchmark_update \<Rightarrow> json" where
  "json_BenchmarkUpdate env b = JObj
     [(''public_key'', JStr (bu_PublicKey b)), (''disk'', JStr (bu_Disk b)), (''network'', JStr (bu_Network b)),
      (''qd64_disk_read_speed'', JStr (bu_DiskReadSpeed b)), (''qd64_disk_write_speed'', JStr (bu_DiskWriteSpeed b)),
      (''benchmark_timestamp'', JStr (bu_BenchmarkTimestamp b)), (''speedtest_download'', JNum (se_text64 env (bu_SpeedtestDownload b))),
      (''speedtest_upload'', JNum (se_text64 env (bu_SpeedtestUpload b))), (''speedtest_ping'', JNum (se_text32 env (bu_SpeedtestPing b))),
      (''country'', JStr (bu_Country b)), (''isp'', JStr (bu_ISP b))]"

definition benchmark_insert :: "('f, 'g) sql_env \<Rightarrow> json \<Rightarrow> go_error + string \<times> 'f benchmark_cols" where
  "benchmark_insert env b =
     (let f8 = (\<lambda>k. cast_float (se_float8 env) (j_text b k))
      in
     bind_sum (not_null (map_option ToLower (j_text b ''public_key''))) (\<lambda>pk.
     bind_sum (cast_jsonb env (j_text b ''disk'')) (\<lambda>disk. bind_sum (cast_jsonb env (j_text b ''network'')) (\<lambda>network.
     bind_sum (cast_timestamptz env (j_text b ''benchmark_timestamp'')) (\<lambda>t.
     bind_sum (f8 ''speedtest_download'') (\<lambda>download. bind_sum (f8 ''speedtest_upload'') (\<lambda>upload. bind_sum (f8 ''speedtest_ping'') (\<lambda>ping.
     bind_sum (text_null 128 b ''country'') (\<lambda>country. bind_sum (text_null 128 b ''isp'') (\<lambda>isp.
       Inr (pk, \<lparr>bc_disk = disk, bc_network = network, bc_qd64_disk_read_speed = j_text b ''qd64_disk_read_speed'',
                 bc_qd64_disk_write_speed = j_text b ''qd64_disk_write_speed'', bc_benchmark_timestamp = t, bc_speedtest_download = download,
                 bc_speedtest_upload = upload, bc_speedtest_ping = ping, bc_country = country, bc_isp = isp\<rparr>)))))))))))"

definition benchmark_changed :: "('f, 'g) sql_env \<Rightarrow> 'f benchmark_cols \<Rightarrow> 'f benchmark_cols \<Rightarrow> bool" where
  "benchmark_changed env old new \<longleftrightarrow>
     bc_disk old \<noteq> bc_disk new \<or> bc_network old \<noteq> bc_network new \<or> bc_qd64_disk_read_speed old \<noteq> bc_qd64_disk_read_speed new \<or>
     bc_qd64_disk_write_speed old \<noteq> bc_qd64_disk_write_speed new \<or> bc_benchmark_timestamp old \<noteq> bc_benchmark_timestamp new \<or>
     map_option (se_millions env) (bc_speedtest_download old) \<noteq> map_option (se_millions env) (bc_speedtest_download new) \<or>
     map_option (se_millions env) (bc_speedtest_upload old) \<noteq> map_option (se_millions env) (bc_speedtest_upload new) \<or>
     map_option (se_tenths8 env) (bc_speedtest_ping old) \<noteq> map_option (se_tenths8 env) (bc_speedtest_ping new) \<or>
     bc_country old \<noteq> bc_country new \<or> bc_isp old \<noteq> bc_isp new"

definition sql_UpdateBenchmarks ::
  "('f, 'g) sql_env \<Rightarrow> go_error option \<Rightarrow> time \<Rightarrow> ('f, 'g) benchmark_update list \<Rightarrow> ('f, 'g) database \<Rightarrow>
     go_error option \<times> ('f, 'g) database" where
  "sql_UpdateBenchmarks env fault now benchmarks db =
     (if benchmarks = [] then (None, db)
      else exec_sql fault
        (\<lambda>db. bind_sum (traverse (benchmark_insert env) (map (json_BenchmarkUpdate env) benchmarks))
           (\<lambda>rows. bind_sum (upsert (\<lambda>old new. new) rows (db_benchmarks db))
             (\<lambda>table. Inr (db\<lparr>db_benchmarks := table,
                db_benchmarks_history := db_benchmarks_history db @ archived (benchmark_changed env) now rows (db_benchmarks db)\<rparr>)))) db)"

section \<open>Rating\<close>

text \<open>
  \<open>fo_of_rat\<close> converts \<^verbatim>\<open>numeric\<close> to \<^verbatim>\<open>float8\<close>, \<open>fo_widen\<close> and \<open>fo_narrow\<close> convert between the two widths, \<open>fo_numdiv\<close> is the rounded
  division of \<^verbatim>\<open>numeric\<close>, \<open>fo_round\<close> rounds to an integer.
\<close>

record ('f, 'g) float_ops =
  fo_of_rat :: "rat \<Rightarrow> 'f"
  fo_widen :: "'g \<Rightarrow> 'f"
  fo_narrow :: "'f \<Rightarrow> go_error + 'g"
  fo_add :: "'f \<Rightarrow> 'f \<Rightarrow> go_error + 'f"
  fo_sub :: "'f \<Rightarrow> 'f \<Rightarrow> go_error + 'f"
  fo_mul :: "'f \<Rightarrow> 'f \<Rightarrow> go_error + 'f"
  fo_div :: "'f \<Rightarrow> 'f \<Rightarrow> go_error + 'f"
  fo_pow :: "'f \<Rightarrow> 'f \<Rightarrow> go_error + 'f"
  fo_log10 :: "'f \<Rightarrow> go_error + 'f"
  fo_le :: "'f \<Rightarrow> 'f \<Rightarrow> bool"
  fo_le4 :: "'g \<Rightarrow> 'g \<Rightarrow> bool"
  fo_numdiv :: "rat \<Rightarrow> rat \<Rightarrow> rat"
  fo_round :: "'f \<Rightarrow> int"

text \<open>Timestamps have microseconds.  Integer division drops the fraction.\<close>

definition epoch :: "time \<Rightarrow> rat" where "epoch t = of_int (t div 1000) / 1000000"

definition int_div :: "int \<Rightarrow> int \<Rightarrow> int" where "int_div a b = sgn a * sgn b * (\<bar>a\<bar> div \<bar>b\<bar>)"

definition rate_divisor :: "('f, 'g) float_ops \<Rightarrow> int option \<Rightarrow> go_error + 'f" where
  "rate_divisor ops rate =
     bind_sum (fo_log10 ops (fo_of_rat ops (of_int (COALESCE (NULLIF (map_option (\<lambda>r. int_div r 100) rate) 0) 1)))) (\<lambda>l.
       Inr (if fo_le ops l (fo_of_rat ops 1) then fo_of_rat ops 1 else l))"

definition rating_sum ::
  "('f, 'g) float_ops \<Rightarrow> time \<Rightarrow> ('f, 'g) provider_cols \<Rightarrow> ('f, 'g) telemetry_cols option \<Rightarrow> 'f benchmark_cols option \<Rightarrow> go_error + 'f" where
  "rating_sum ops now r t b =
     (let num = fo_of_rat ops;
          plus = (\<lambda>x y. bind_sum x (\<lambda>x. bind_sum y (\<lambda>y. fo_add ops x y)));
          scaled = (\<lambda>c v. fo_mul ops (num c) (COALESCE v (num 0)));
          exact = 1 / 10000 * (2 * epoch now - epoch (pv_registered_at r)) +
                  2 / 100000 * of_int (COALESCE (pv_max_span r) 0 - COALESCE (pv_min_span r) 0);
          ping = COALESCE (Option.bind b bc_speedtest_ping) (num 0)
      in bind_sum (parse_speed_to_int (Option.bind b bc_qd64_disk_write_speed)) (\<lambda>write.
         bind_sum (parse_speed_to_int (Option.bind b bc_qd64_disk_read_speed)) (\<lambda>read.
           plus (plus (plus (plus (plus (plus (plus (plus (Inr (num exact))
             (scaled (4 / 1000000000) (Option.bind t tc_total_provider_space)))
             (Inr (num (19 / 10 * of_int (min (COALESCE (map_option tc_cpu_number t) 0) 128)))))
             (scaled (6 / 10000000) (map_option (fo_widen ops) (Option.bind t tc_total_ram))))
             (Inr (num (8 / 100000 * of_int (COALESCE write 0)))))
             (Inr (num (8 / 100000 * of_int (COALESCE read 0)))))
             (scaled (1 / 100000) (Option.bind b bc_speedtest_download)))
             (scaled (4 / 100000) (Option.bind b bc_speedtest_upload)))
             (if \<not> fo_le ops ping (num 0) then fo_div ops (num 400) ping else Inr (num 1)))))"

definition rating_of ::
  "('f, 'g) float_ops \<Rightarrow> time \<Rightarrow> ('f, 'g) provider_cols \<Rightarrow> ('f, 'g) telemetry_cols option \<Rightarrow> 'f benchmark_cols option \<Rightarrow> go_error + 'f" where
  "rating_of ops now r t b =
     bind_sum (rating_sum ops now r t b) (\<lambda>s.
     bind_sum (fo_pow ops (pv_uptime r)
        (fo_of_rat ops (2 + min (fo_numdiv ops (epoch now - epoch (pv_registered_at r)) (86400 * 90)) 6))) (\<lambda>p.
     bind_sum (fo_mul ops s p) (\<lambda>n. bind_sum (rate_divisor ops (pv_rate_per_mb_per_day r)) (\<lambda>d.
     bind_sum (fo_div ops n d) (\<lambda>q. fo_div ops q (fo_of_rat ops 10000))))))"

definition sql_UpdateRating ::
  "('f, 'g) sql_env \<Rightarrow> ('f, 'g) float_ops \<Rightarrow> go_error option \<Rightarrow> time \<Rightarrow> ('f, 'g) database \<Rightarrow> go_error option \<times> ('f, 'g) database" where
  "sql_UpdateRating env ops fault now db =
     exec_sql fault
       (\<lambda>db. bind_sum
          (traverse (\<lambda>(pk, r). bind_sum (rating_of ops now r (map_of (db_telemetry db) pk) (map_of (db_benchmarks db) pk)) (\<lambda>x. Inr (pk, x)))
             (filter (\<lambda>(pk, r). pv_is_initialized r) (db_providers db)))
          (\<lambda>rows. Inr (update_providers env now (map_of rows) (\<lambda>x r. r\<lparr>pv_rating := Some x\<rparr>) db))) db"

section \<open>Ranges of the filters\<close>

text \<open>\<^verbatim>\<open>MIN\<close> and \<^verbatim>\<open>MAX\<close> skip NULL and are NULL without a value.\<close>

definition agg :: "('a \<Rightarrow> 'a \<Rightarrow> bool) \<Rightarrow> 'a option list \<Rightarrow> 'a option" where
  "agg better xs =
     (case List.map_filter id xs of [] \<Rightarrow> None | y # ys \<Rightarrow> Some (foldl (\<lambda>a b. if better b a then b else a) y ys))"

definition agg_max :: "('a \<Rightarrow> 'a \<Rightarrow> bool) \<Rightarrow> 'a option list \<Rightarrow> 'a option" where "agg_max le = agg (\<lambda>x y. \<not> le x y)"
definition agg_min :: "('a \<Rightarrow> 'a \<Rightarrow> bool) \<Rightarrow> 'a option list \<Rightarrow> 'a option" where "agg_min le = agg (\<lambda>x y. \<not> le y x)"

definition round_to :: "('f, 'g) float_ops \<Rightarrow> int \<Rightarrow> 'f \<Rightarrow> go_error + int" where
  "round_to ops bound x =
     (let n = fo_round ops x in if - bound \<le> n \<and> n < bound then Inr n else Inl (ErrText ''value out of range''))"

definition price_of :: "int option \<Rightarrow> go_error + int option" where
  "price_of rate =
     (case rate of
        None \<Rightarrow> Inr None
      | Some r \<Rightarrow> (let p = r * 1024 * 200 * 30
                  in if - (2 ^ 63) \<le> p \<and> p < 2 ^ 63 then Inr (Some p) else Inl (ErrText ''bigint out of range'')))"

definition provider_country :: "('f, 'g) provider_cols \<Rightarrow> string option" where
  "provider_country r =
     (case pv_ip_info r of
        None \<Rightarrow> None
      | Some info \<Rightarrow>
         if info = JObj [] then None
         else case j_text info ''country'' of
                None \<Rightarrow> None
              | Some c \<Rightarrow> if c = [] then None else Some (c @ '' ('' @ COALESCE (j_text info ''country_iso'') [] @ '')''))"

definition scan_not_null :: "'a option \<Rightarrow> go_error + 'a" where
  "scan_not_null v = (case v of None \<Rightarrow> Inl (ErrText ''cannot scan NULL'') | Some x \<Rightarrow> Inr x)"

text \<open>A column of a table on the right of a \<^verbatim>\<open>LEFT JOIN\<close>.\<close>

definition joined_col :: "('r \<Rightarrow> 'a option) \<Rightarrow> 'r option list \<Rightarrow> 'a option list" where
  "joined_col col rows = map (\<lambda>r. Option.bind r col) rows"

definition sql_GetFiltersRange ::
  "('f, 'g) float_ops \<Rightarrow> go_error option \<Rightarrow> order \<Rightarrow> time \<Rightarrow> ('f, 'g) database \<Rightarrow> go_error + ('f, 'g) filters_range" where
  "sql_GetFiltersRange ops fault sord now db =
     (let rows = filter (\<lambda>(pk, r). pv_is_initialized r \<and> pv_rating r \<noteq> None) (db_providers db);
          ps = map snd rows;
          ts = map (\<lambda>(pk, r). map_of (db_telemetry db) pk) rows;
          bs = map (\<lambda>(pk, r). map_of (db_benchmarks db) pk) rows;
          num = fo_of_rat ops;
          least = agg_min (\<le>); most = agg_max (\<le>);
          least8 = agg_min (fo_le ops); most8 = agg_max (fo_le ops);
          whole = (\<lambda>bound v. round_to ops bound (COALESCE v (num 0)));
          days = map (\<lambda>p. Some (int_div (now - pv_registered_at p) (minutes 1440))) ps;
          megabytes = map (\<lambda>p. Some (int_div (int_div (pv_max_bag_size_bytes p) 1024) 1024)) ps
      in if fault \<noteq> None then Inl (the fault) else
         bind_sum (fo_add ops (COALESCE (most8 (map pv_rating ps)) (num 5)) (num (1 / 10))) (\<lambda>ratingMax.
         bind_sum (traverse price_of (map pv_rate_per_mb_per_day ps)) (\<lambda>prices.
         bind_sum (traverse parse_speed_to_int (joined_col bc_qd64_disk_read_speed bs)) (\<lambda>reads.
         bind_sum (traverse parse_speed_to_int (joined_col bc_qd64_disk_write_speed bs)) (\<lambda>writes.
         bind_sum (whole (2 ^ 31) (least8 (joined_col tc_total_provider_space ts))) (\<lambda>spaceMin.
         bind_sum (bind_sum (fo_add ops (COALESCE (most8 (joined_col tc_total_provider_space ts)) (num 1)) (num 1)) (round_to ops (2 ^ 31))) (\<lambda>spaceMax.
         bind_sum (bind_sum (fo_add ops (COALESCE (most8 (joined_col tc_used_provider_space ts)) (num 1)) (num 1)) (round_to ops (2 ^ 31))) (\<lambda>usedMax.
         bind_sum (bind_sum (fo_sub ops (COALESCE (map_option (fo_widen ops) (agg_min (fo_le4 ops) (joined_col tc_total_ram ts))) (num (1 / 10)))
                     (num (1 / 10))) (fo_narrow ops)) (\<lambda>ramMin.
         bind_sum (bind_sum (fo_add ops (COALESCE (map_option (fo_widen ops) (agg_max (fo_le4 ops) (joined_col tc_total_ram ts))) (num 1))
                     (num (1 / 10))) (fo_narrow ops)) (\<lambda>ramMax.
         bind_sum (whole (2 ^ 63) (least8 (joined_col bc_speedtest_download bs))) (\<lambda>downMin.
         bind_sum (whole (2 ^ 63) (most8 (joined_col bc_speedtest_download bs))) (\<lambda>downMax.
         bind_sum (whole (2 ^ 63) (least8 (joined_col bc_speedtest_upload bs))) (\<lambda>upMin.
         bind_sum (whole (2 ^ 63) (most8 (joined_col bc_speedtest_upload bs))) (\<lambda>upMax.
         bind_sum (whole (2 ^ 31) (least8 (joined_col bc_speedtest_ping bs))) (\<lambda>pingMin.
         bind_sum (whole (2 ^ 31) (most8 (joined_col bc_speedtest_ping bs))) (\<lambda>pingMax.
         bind_sum (scan_not_null (most days)) (\<lambda>daysMax.
         bind_sum (scan_not_null (least megabytes)) (\<lambda>mbMin. bind_sum (scan_not_null (most megabytes)) (\<lambda>mbMax.
           Inr \<lparr>fr_Locations = sord (remdups (List.map_filter (\<lambda>(pk, r). provider_country r) (db_providers db))),
                fr_RegTimeDaysMax = word_of_int daysMax,
                fr_MinSpanMin = word_of_int (COALESCE (least (map pv_min_span ps)) 0), fr_MinSpanMax = word_of_int (COALESCE (most (map pv_min_span ps)) 0),
                fr_MaxSpanMin = word_of_int (COALESCE (least (map pv_max_span ps)) 0), fr_MaxSpanMax = word_of_int (COALESCE (most (map pv_max_span ps)) 0),
                fr_MaxBagSizeMbMin = word_of_int mbMin, fr_MaxBagSizeMbMax = word_of_int mbMax,
                fr_BenchmarkDiskReadSpeedMin = word_of_int (COALESCE (least reads) 0), fr_BenchmarkDiskReadSpeedMax = word_of_int (COALESCE (most reads) 0),
                fr_BenchmarkDiskWriteSpeedMin = word_of_int (COALESCE (least writes) 0), fr_BenchmarkDiskWriteSpeedMax = word_of_int (COALESCE (most writes) 0),
                fr_SpeedtestDownloadSpeedMin = word_of_int downMin, fr_SpeedtestDownloadSpeedMax = word_of_int downMax,
                fr_SpeedtestUploadSpeedMin = word_of_int upMin, fr_SpeedtestUploadSpeedMax = word_of_int upMax,
                fr_TotalProviderSpaceMin = word_of_int spaceMin, fr_TotalProviderSpaceMax = word_of_int spaceMax,
                fr_UsedProviderSpaceMax = word_of_int usedMax, fr_RatingMax = ratingMax,
                fr_PriceMax = num (of_int (COALESCE (most prices) 0) + 1 / 10),
                fr_CPUNumberMax = word_of_int (COALESCE (most (map (map_option tc_cpu_number) ts)) 1),
                fr_SpeedtestPingMin = word_of_int pingMin, fr_SpeedtestPingMax = word_of_int pingMax,
                fr_TotalRAMMin = ramMin, fr_TotalRAMMax = ramMax\<rparr>)))))))))))))))))))"

end
