(* ===== verification/SqlInvariant.thy ===== *)
theory SqlInvariant
  imports SqlTelemetry
begin

text \<open>
  The invariant of the database: what the constraints of the schema, the casts of the statements and the types of the rows
  together guarantee in every state that the statements of the repositories can produce, in any order and with any faults.
\<close>

section \<open>What casts return\<close>

lemma cast_int_range: "cast_int bound ty (Some s) = Inr v \<Longrightarrow> \<exists>n. v = Some n \<and> - bound \<le> n \<and> n < bound"
  by (auto simp: cast_int_def split: prod.splits option.splits if_splits)

lemma cast_uint_value:
  "cast_bigint (Some (Itoa (uint (w :: 64 word)))) = Inr v \<Longrightarrow> v = Some (uint w) \<and> uint w < 2 ^ 63"
  "cast_int4 (Some (Itoa (uint (u :: 32 word)))) = Inr v \<Longrightarrow> v = Some (uint u) \<and> uint u < 2 ^ 31"
  using cast_bigint_uint [of w] cast_int4_uint [of u] by (metis Inr_not_Inl not_less sum.inject(2))+

lemma varchar_lower:
  assumes "varchar n (ToLower s) = Inr t"
  shows "ToLower t = t"
proof -
  obtain u where "t @ u = ToLower s" using varchar_prefix [OF assms] by (auto simp: prefix_def)
  then have "map lower_char (t @ u) = t @ u" using ToLower_idem [of s] by (simp add: ToLower_def)
  then show ?thesis by (simp add: ToLower_def)
qed

section \<open>The invariant\<close>

definition in_range :: "int \<Rightarrow> int option \<Rightarrow> bool" where
  "in_range bound v \<longleftrightarrow> (case v of None \<Rightarrow> True | Some n \<Rightarrow> 0 \<le> n \<and> n < bound)"

definition provider_row_ok :: "('f, 'g) provider_cols \<Rightarrow> bool" where
  "provider_row_ok r \<longleftrightarrow>
     pv_last_tx_lt r = 0 \<and> in_range (2 ^ 63) (Some (pv_max_bag_size_bytes r)) \<and> in_range (2 ^ 31) (pv_min_span r) \<and>
     in_range (2 ^ 31) (pv_max_span r) \<and>
     (pv_is_initialized r \<longrightarrow> pv_min_span r \<noteq> None \<and> pv_max_span r \<noteq> None \<and> pv_rate_per_mb_per_day r \<noteq> None \<and> pv_min_bounty r \<noteq> None)"

definition providers_table_ok :: "(string \<times> ('f, 'g) provider_cols) list \<Rightarrow> bool" where
  "providers_table_ok t \<longleftrightarrow>
     distinct (map fst t) \<and> distinct (map (\<lambda>(k, r). pv_address r) t) \<and> (\<forall>(k, r) \<in> set t. ToLower k = k \<and> provider_row_ok r)"

definition contracts_table_ok :: "((string \<times> string) \<times> contract_cols) list \<Rightarrow> bool" where
  "contracts_table_ok t \<longleftrightarrow>
     distinct (map fst t) \<and>
     (\<forall>(k, c) \<in> set t. in_range (2 ^ 63) (Some (cn_size c)) \<and> in_range (2 ^ 63) (Some (cn_chunk_size c)) \<and>
        in_range (2 ^ 63) (Some (cn_last_tx_lt c)) \<and> in_range (2 ^ 31) (cn_reason c) \<and> (cn_reason c = None \<longleftrightarrow> cn_reason_timestamp c = None))"

text \<open>A provider that is online was last online at its last check.\<close>

definition statuses_ok :: "(string \<times> time \<times> bool) list \<Rightarrow> (string \<times> time) list \<Rightarrow> bool" where
  "statuses_ok st online \<longleftrightarrow>
     distinct (map fst st) \<and> distinct (map fst online) \<and>
     (\<forall>k t. map_of st k = Some (t, True) \<longrightarrow> map_of online k = Some t) \<and> dom (map_of online) \<subseteq> dom (map_of st)"

definition keyed_lower :: "(string \<times> 'r) list \<Rightarrow> bool" where
  "keyed_lower t \<longleftrightarrow> distinct (map fst t) \<and> (\<forall>k \<in> fst ` set t. ToLower k = k)"

definition db_ok :: "('f, 'g) database \<Rightarrow> bool" where
  "db_ok db \<longleftrightarrow>
     providers_table_ok (db_providers db) \<and> contracts_table_ok (db_storage_contracts db) \<and>
     statuses_ok (db_statuses db) (db_last_online db) \<and> keyed_lower (db_statuses db) \<and> keyed_lower (db_telemetry db) \<and>
     keyed_lower (db_benchmarks db) \<and>
     distinct (map fst (db_params db)) \<and> (\<forall>(k, v) \<in> set (db_params db). v \<noteq> None) \<and>
     (\<forall>e \<in> set (db_provider_pipeline_events db). per_status e \<in> {''error'', ''ok''})"

text \<open>What a statement may do: leave the tables as they are or go on keeping the invariant.\<close>

lemma exec_sql_ok:
  assumes "db_ok db" "\<And>db'. st db = Inr db' \<Longrightarrow> db_ok db'"
  shows "db_ok (snd (exec_sql fault st db))"
  using assms by (auto simp: exec_sql_def split: option.splits sum.splits)

lemma empty_database_ok: "db_ok empty_database"
  by (simp add: db_ok_def empty_database_def providers_table_ok_def contracts_table_ok_def statuses_ok_def keyed_lower_def)

subsection \<open>Providers\<close>

lemma update_providers_fields [simp]:
  "db_providers (update_providers env now src f db) = update_from src f (db_providers db)"
  "db_statuses (update_providers env now src f db) = db_statuses db"
  "db_statuses_history (update_providers env now src f db) = db_statuses_history db"
  "db_last_online (update_providers env now src f db) = db_last_online db"
  "db_storage_contracts (update_providers env now src f db) = db_storage_contracts db"
  "db_storage_contracts_history (update_providers env now src f db) = db_storage_contracts_history db"
  "db_telemetry (update_providers env now src f db) = db_telemetry db"
  "db_telemetry_history (update_providers env now src f db) = db_telemetry_history db"
  "db_benchmarks (update_providers env now src f db) = db_benchmarks db"
  "db_benchmarks_history (update_providers env now src f db) = db_benchmarks_history db"
  "db_provider_pipeline_events (update_providers env now src f db) = db_provider_pipeline_events db"
  "db_bag_pipeline_events (update_providers env now src f db) = db_bag_pipeline_events db"
  "db_params (update_providers env now src f db) = db_params db"
  by (simp_all add: update_providers_def)

lemma update_from_table_ok:
  assumes "providers_table_ok t"
    and "\<And>k r j. (k, r) \<in> set t \<Longrightarrow> src k = Some j \<Longrightarrow> provider_row_ok r \<Longrightarrow> provider_row_ok (f j r) \<and> pv_address (f j r) = pv_address r"
  shows "providers_table_ok (update_from src f t)"
proof -
  let ?g = "\<lambda>k r. case src k of None \<Rightarrow> r | Some j \<Rightarrow> f j r"
  have upd: "update_from src f t = map (\<lambda>(k, r). (k, ?g k r)) t" by (simp add: update_from_def)
  have row: "provider_row_ok (?g k r)" "pv_address (?g k r) = pv_address r" "ToLower k = k" if "(k, r) \<in> set t" for k r
    using that assms by (auto simp: providers_table_ok_def split: option.split)
  have "map (\<lambda>(k, r). pv_address r) (update_from src f t) = map (\<lambda>(k, r). pv_address r) t"
    using row(2) by (auto simp: upd)
  moreover have "\<forall>(k, r) \<in> set (update_from src f t). ToLower k = k \<and> provider_row_ok r"
    using row(1,3) by (auto simp: upd)
  ultimately show ?thesis using assms(1) by (simp add: providers_table_ok_def)
qed

lemma update_providers_db_ok:
  assumes "db_ok db"
    and "\<And>k r j. (k, r) \<in> set (db_providers db) \<Longrightarrow> src k = Some j \<Longrightarrow> provider_row_ok r \<Longrightarrow>
      provider_row_ok (f j r) \<and> pv_address (f j r) = pv_address r"
  shows "db_ok (update_providers env now src f db)"
  using assms update_from_table_ok [of "db_providers db" src f] by (simp add: db_ok_def)

lemma insert_provider_ok:
  assumes "providers_table_ok t" "ToLower (fst row) = fst row" "provider_row_ok (snd row)"
  shows "providers_table_ok (insert_provider row t)"
  using assms by (cases row) (auto simp: providers_table_ok_def insert_provider_def image_iff)

lemma created_row_ok:
  assumes "created_row env p = Inr row"
  shows "ToLower (fst row) = fst row" "provider_row_ok (snd row)"
  using assms varchar_lower
  by (auto simp: created_row_def bind_sum_Inr provider_row_ok_def new_provider_def in_range_def not_null_def split: option.splits)

lemma AddProviders_ok: "db_ok db \<Longrightarrow> db_ok (snd (sql_AddProviders env fault ps db))"
proof -
  assume ok: "db_ok db"
  have fold: "providers_table_ok (fold insert_provider rows t)"
    if "providers_table_ok t" "\<And>row. row \<in> set rows \<Longrightarrow> ToLower (fst row) = fst row \<and> provider_row_ok (snd row)"
    for rows and t :: "(string \<times> ('a, 'b) provider_cols) list"
    using that by (induction rows arbitrary: t) (simp_all add: insert_provider_ok)
  have "db_ok (db\<lparr>db_providers := fold insert_provider rows (db_providers db)\<rparr>)"
    if "traverse (created_row env) js = Inr rows" for rows js
  proof -
    have "row \<in> set rows \<Longrightarrow> ToLower (fst row) = fst row \<and> provider_row_ok (snd row)" for row
      using list_all2_sets(2) [OF that [unfolded traverse_Inr], of row] created_row_ok [of env _ row] by blast
    then show ?thesis using ok fold [of "db_providers db" rows] by (simp add: db_ok_def)
  qed
  then show ?thesis using ok
    by (auto simp: sql_AddProviders_def bind_sum_Inr intro!: exec_sql_ok)
qed

lemma parse_rates_value:
  "parse_rates (json_ProviderUpdate p) = Inr u \<Longrightarrow>
     pr_min_span u = Some (uint (pu_MinSpan p)) \<and> uint (pu_MinSpan p) < 2 ^ 31 \<and>
     pr_max_span u = Some (uint (pu_MaxSpan p)) \<and> uint (pu_MaxSpan p) < 2 ^ 31 \<and>
     cast_bigint (Some (Itoa (pu_RatePerMBDay p))) = Inr (pr_rate_per_mb_per_day u) \<and>
     cast_bigint (Some (Itoa (pu_MinBounty p))) = Inr (pr_min_bounty u)"
  by (auto simp: parse_rates_def json_ProviderUpdate_def sql bind_sum_Inr dest!: cast_uint_value)

lemma update_source_encoded:
  assumes "env_ok env" "update_source env keys key parse assign (map enc xs) = Inr src" "k \<in> set keys" "src k = Some v"
  shows "\<exists>x \<in> set xs. \<exists>u. key (enc x) = Some k \<and> parse (enc x) = Inr u \<and> assign u = Inr v"
  using update_source_rows(2) [OF assms] by auto

lemma UpdateProviders_ok:
  assumes "env_ok env" "db_ok db"
  shows "db_ok (snd (sql_UpdateProviders env fault now ps db))"
proof -
  have "db_ok (update_providers env now src (set_rates now) db)"
    if src: "update_source env (map fst (db_providers db)) (\<lambda>p. j_text p ''public_key'') parse_rates Inr (map json_ProviderUpdate ps) = Inr src" for src
  proof (rule update_providers_db_ok [OF assms(2)])
    fix k j and r :: "('a, 'b) provider_cols"
    assume "(k, r) \<in> set (db_providers db)" "src k = Some j" "provider_row_ok r"
    then obtain p where "parse_rates (json_ProviderUpdate p) = Inr j"
      using update_source_encoded [OF assms(1) src, of k j] by (force simp: image_iff)
    then show "provider_row_ok (set_rates now j r) \<and> pv_address (set_rates now j r) = pv_address r"
      using parse_rates_value [of p j] \<open>provider_row_ok r\<close> cast_int_range unfolding cast_bigint_def
      by (force simp: provider_row_ok_def set_rates_def in_range_def)
  qed
  then show ?thesis using assms(2) by (auto simp: sql_UpdateProviders_def bind_sum_Inr intro!: exec_sql_ok)
qed

text \<open>
  The rows of \<^verbatim>\<open>UpdateProvidersLT\<close> have no member \<^verbatim>\<open>public_key\<close>, so they join with nothing.
\<close>

lemma update_source_none:
  assumes "\<And>j. j \<in> set js \<Longrightarrow> key j = None" "\<And>j. j \<in> set js \<Longrightarrow> \<exists>u. parse j = Inr u"
  shows "update_source env keys key parse assign js = Inr (\<lambda>k. None)"
proof -
  have no: "joined keys key js = []" using assms(1) by (auto simp: joined_def filter_empty_conv)
  moreover have "\<exists>us. traverse parse js = Inr us" using assms(2) by (auto simp: traverse_ok)
  ultimately show ?thesis by (auto simp: update_source_def picked_def matching_def Let_def)
qed

lemma update_providers_none: "update_providers env now (\<lambda>k. None) f db = db"
  by (simp add: update_providers_def update_from_def List.map_filter_def case_prod_beta cong: option.case_cong)

lemma UpdateProvidersLT_noop: "sql_UpdateProvidersLT env fault now ps db = (if ps = [] then None else fault, db)"
proof -
  have "update_source env (map fst (db_providers db)) (\<lambda>p. map_option ToLower (j_text p ''public_key''))
      (\<lambda>p. cast_bigint (j_text p ''last_tx_lt'')) (\<lambda>lt. map_sum id Some (not_null lt)) (map json_ProviderWalletLT ps) = Inr (\<lambda>k. None)"
    by (rule update_source_none) (auto simp: json_ProviderWalletLT_def sql)
  then show ?thesis by (simp add: sql_UpdateProvidersLT_def exec_sql_def update_providers_none split: option.split)
qed

lemma UpdateProvidersIPs_ok: "db_ok db \<Longrightarrow> db_ok (snd (sql_UpdateProvidersIPs env fault now ips db))"
proof -
  assume ok: "db_ok db"
  then have "db_ok (update_providers env now src (set_endpoint now) db)" for src
    by (rule update_providers_db_ok) (auto simp: set_endpoint_def provider_row_ok_def)
  then show ?thesis using ok by (auto simp: sql_UpdateProvidersIPs_def bind_sum_Inr case_prod_beta intro!: exec_sql_ok)
qed

lemma UpdateProvidersIPInfo_ok: "db_ok db \<Longrightarrow> db_ok (snd (sql_UpdateProvidersIPInfo env fault now ips db))"
proof -
  assume ok: "db_ok db"
  then have "db_ok (update_providers env now src (\<lambda>info r. r\<lparr>pv_ip_info := info\<rparr>) db)" for src
    by (rule update_providers_db_ok) (auto simp: provider_row_ok_def)
  then show ?thesis using ok by (auto simp: sql_UpdateProvidersIPInfo_def bind_sum_Inr case_prod_beta intro!: exec_sql_ok)
qed

lemma UpdateUptime_ok: "db_ok db \<Longrightarrow> db_ok (snd (sql_UpdateUptime env fault now db))"
  unfolding sql_UpdateUptime_def by (rule exec_sql_ok) (auto simp: provider_row_ok_def intro!: update_providers_db_ok)

lemma UpdateStatuses_ok: "db_ok db \<Longrightarrow> db_ok (snd (sql_UpdateStatuses env fault now db))"
  unfolding sql_UpdateStatuses_def by (rule exec_sql_ok) (auto simp: provider_row_ok_def intro!: update_providers_db_ok)

lemma UpdateRating_ok: "db_ok db \<Longrightarrow> db_ok (snd (sql_UpdateRating env ops fault now db))"
  unfolding sql_UpdateRating_def by (rule exec_sql_ok) (auto simp: bind_sum_Inr provider_row_ok_def intro!: update_providers_db_ok)

subsection \<open>Statuses\<close>

lemma fold_status_written:
  "fold status_written rows db =
     db\<lparr>db_statuses_history := db_statuses_history db @ rows,
        db_last_online := fold (\<lambda>(k, t, online) m. if online then AList.update k t m else m) rows (db_last_online db)\<rparr>"
  by (induction rows arbitrary: db) (auto simp: status_written_def)

lemma fold_last_online:
  assumes "distinct (map fst rows)"
  shows "map_of (fold (\<lambda>(k, t, online) m. if online then AList.update k t m else m) rows m) k =
    (case map_of rows k of Some (t, True) \<Rightarrow> Some t | _ \<Rightarrow> map_of m k)"
  using assms
proof (induction rows arbitrary: m)
  case (Cons row rows)
  obtain k' t b where row: "row = (k', t, b)" by (cases row) auto
  have "map_of rows k' = None" using Cons.prems row by (auto simp: map_of_eq_None_iff)
  then show ?case using Cons row by (auto simp: AList.update_conv' split: option.splits bool.splits)
qed simp

lemma fold_last_online_keys: "distinct (map fst m) \<Longrightarrow>
    distinct (map fst (fold (\<lambda>(k, t, online) m. if online then AList.update k t m else m) rows m))"
  by (induction rows arbitrary: m) (auto simp: AList.distinct_update)

lemma upsert_keyed_lower:
  assumes "upsert merge rows t = Inr t'" "keyed_lower t" "\<And>k. k \<in> fst ` set rows \<Longrightarrow> ToLower k = k"
  shows "keyed_lower t'"
proof -
  have "k \<in> fst ` set rows \<union> fst ` set t" if "k \<in> fst ` set t'" for k
    using that upsert_lookup(1) [OF assms(1), of k] by (auto simp: dom_map_of_conv_image_fst [symmetric] split: option.splits)
  then have "ToLower k = k" if "k \<in> fst ` set t'" for k
    using that assms(2,3) unfolding keyed_lower_def by blast
  then show ?thesis using assms(2) upsert_lookup(2) [OF assms(1)] by (simp add: keyed_lower_def)
qed

lemma statuses_written_ok:
  assumes "statuses_ok st on" "upsert (\<lambda>old new. new) rows st = Inr st'"
  shows "statuses_ok st' (fold (\<lambda>(k, t, online) m. if online then AList.update k t m else m) rows on)" (is "statuses_ok st' ?on")
proof -
  have st': "map_of st' k = (case map_of rows k of None \<Rightarrow> map_of st k | Some r \<Rightarrow> Some r)" for k
    using upsert_lookup(1) [OF assms(2), of k] by (auto split: option.splits)
  note on' = fold_last_online [OF upsert_lookup(3) [OF assms(2)], of on]
  have "map_of ?on k = Some t" if "map_of st' k = Some (t, True)" for k t
    using that assms(1) unfolding st' on' statuses_ok_def by (cases "map_of rows k") simp_all
  moreover have "map_of st' k \<noteq> None" if "map_of ?on k \<noteq> None" for k
  proof (cases "map_of rows k")
    case None
    then show ?thesis using that assms(1) unfolding st' on' statuses_ok_def by (simp only: option.case) blast
  qed (simp add: st')
  ultimately show ?thesis
    using assms(1) upsert_lookup(2) [OF assms(2)] fold_last_online_keys [of on rows] unfolding statuses_ok_def by blast
qed

lemma status_row_lower: "status_row now p = Inr (k, t, b) \<Longrightarrow> ToLower k = k \<and> t = now"
  using varchar_lower by (auto simp: status_row_def bind_sum_Inr not_null_def split: option.splits)

lemma AddStatuses_ok: "db_ok db \<Longrightarrow> db_ok (snd (sql_AddStatuses fault now ps db))"
proof -
  assume ok: "db_ok db"
  have "db_ok (fold status_written rows (db\<lparr>db_statuses := st\<rparr>))"
    if rows: "traverse (status_row now) js = Inr rows" and st: "upsert (\<lambda>old new. new) rows (db_statuses db) = Inr st" for js rows st
  proof -
    have lower: "k \<in> fst ` set rows \<Longrightarrow> ToLower k = k" for k
      using list_all2_sets(2) [OF rows [unfolded traverse_Inr]] status_row_lower by fastforce
    show ?thesis using ok upsert_keyed_lower [OF st _ lower] statuses_written_ok [OF _ st] by (simp add: fold_status_written db_ok_def)
  qed
  then show ?thesis using ok by (auto simp: sql_AddStatuses_def bind_sum_Inr intro!: exec_sql_ok)
qed

subsection \<open>Contracts\<close>

definition contract_row_ok :: "contract_cols \<Rightarrow> bool" where
  "contract_row_ok c \<longleftrightarrow>
     in_range (2 ^ 63) (Some (cn_size c)) \<and> in_range (2 ^ 63) (Some (cn_chunk_size c)) \<and> in_range (2 ^ 63) (Some (cn_last_tx_lt c)) \<and>
     in_range (2 ^ 31) (cn_reason c) \<and> (cn_reason c = None \<longleftrightarrow> cn_reason_timestamp c = None)"

lemma contracts_table_iff:
  "contracts_table_ok t \<longleftrightarrow> distinct (map fst t) \<and> (\<forall>k c. map_of t k = Some c \<longrightarrow> contract_row_ok c)"
  by (auto simp: contracts_table_ok_def contract_row_ok_def)

lemma upsert_contracts_ok:
  assumes "upsert (\<lambda>old new. old\<lparr>cn_last_tx_lt := cn_last_tx_lt new\<rparr>) rows t = Inr t'" "contracts_table_ok t"
    and "\<And>row. row \<in> set rows \<Longrightarrow> contract_row_ok (snd row)"
  shows "contracts_table_ok t'"
proof -
  have "contract_row_ok c" if c: "map_of t' k = Some c" for k c
  proof -
    have new: "map_of rows k = Some r \<Longrightarrow> contract_row_ok r" for r using assms(3) [of "(k, r)"] by (auto dest: map_of_SomeD)
    have old: "map_of t k = Some r \<Longrightarrow> contract_row_ok r" for r using assms(2) unfolding contracts_table_iff by blast
    show ?thesis using c old new unfolding upsert_lookup(1) [OF assms(1)] by (auto simp: contract_row_ok_def split: option.splits)
  qed
  then show ?thesis using assms(2) upsert_lookup(2) [OF assms(1)] by (simp add: contracts_table_iff)
qed

lemma parse_contract_value:
  "parse_contract (json_StorageContract c) = Inr p \<Longrightarrow>
     p = \<lparr>cj_address = Some (sc_Address c), cj_providers = sort (go_keys (sc_ProvidersAddresses c)),
          cj_cols = (Some (sc_BagID c), Some (sc_OwnerAddr c), Some (uint (sc_Size c)), Some (uint (sc_ChunkSize c)), Some (uint (sc_LastLT c)))\<rparr> \<and>
     uint (sc_Size c) < 2 ^ 63 \<and> uint (sc_ChunkSize c) < 2 ^ 63 \<and> uint (sc_LastLT c) < 2 ^ 63"
  by (auto simp: parse_contract_def json_StorageContract_def sql bind_sum_Inr j_keys_def comp_def dest!: cast_uint_value)

lemma contract_insert_value:
  "contract_insert p provider = Inr (k, c) \<Longrightarrow>
     (\<exists>a pa. k = (a, pa) \<and> varchar 64 (the (cj_address p)) = Inr a \<and> varchar 64 provider = Inr pa) \<and>
     (case cj_cols p of (bag, owner, sz, chunk, lt) \<Rightarrow> Some (cn_size c) = sz \<and> Some (cn_chunk_size c) = chunk \<and> Some (cn_last_tx_lt c) = lt) \<and>
     cn_reason c = None \<and> cn_reason_timestamp c = None"
  by (auto simp: contract_insert_def bind_sum_Inr not_null_def split: option.splits prod.splits)

lemma AddStorageContracts_ok: "db_ok db \<Longrightarrow> db_ok (snd (sql_AddStorageContracts fault cs db))"
proof -
  assume ok: "db_ok db"
  have "db_ok (db\<lparr>db_storage_contracts := t\<rparr>)"
    if parsed: "traverse parse_contract (map json_StorageContract cs) = Inr ps"
      and rows: "traverse (\<lambda>(c, p). contract_insert c p) (concat (map (\<lambda>c. map (Pair c) (cj_providers c)) ps)) = Inr rows"
      and t: "upsert (\<lambda>old new. old\<lparr>cn_last_tx_lt := cn_last_tx_lt new\<rparr>) rows (db_storage_contracts db) = Inr t" for ps rows t
  proof -
    have "contract_row_ok (snd row)" if row: "row \<in> set rows" for row
    proof -
      obtain p pa where p: "contract_insert p pa = Inr (fst row, snd row)" "p \<in> set ps"
        using list_all2_sets(2) [OF rows [unfolded traverse_Inr] row] by auto
      then obtain sc where "parse_contract (json_StorageContract sc) = Inr p"
        using list_all2_sets(2) [OF parsed [unfolded traverse_Inr] p(2)] by auto
      then show ?thesis using contract_insert_value [OF p(1)] parse_contract_value [of sc p] by (auto simp: contract_row_ok_def in_range_def)
    qed
    then show ?thesis using ok upsert_contracts_ok [OF t] by (simp add: db_ok_def)
  qed
  then show ?thesis using ok by (auto simp: sql_AddStorageContracts_def bind_sum_Inr intro!: exec_sql_ok)
qed

lemma UpdateContractProofsChecks_ok:
  assumes "env_ok env" "db_ok db"
  shows "db_ok (snd (sql_UpdateContractProofsChecks env fault now rows db))"
proof -
  have "contracts_table_ok (update_from src (set_reason now) (db_storage_contracts db))"
    if src: "update_source env (map fst (db_storage_contracts db)) check_key (\<lambda>c. cast_int4 (j_text c ''reason'')) Inr
        (map json_ContractProofsCheck rows) = Inr src" for src
  proof -
    have old: "contracts_table_ok (db_storage_contracts db)" using assms(2) by (simp add: db_ok_def)
    have new: "contract_row_ok (set_reason now v c)" if c: "map_of (db_storage_contracts db) k = Some c" and v: "src k = Some v" for k c v
    proof -
      have k: "k \<in> set (map fst (db_storage_contracts db))" using map_of_SomeD [OF c] by force
      obtain x where "cast_int4 (j_text (json_ContractProofsCheck x) ''reason'') = Inr v"
        using update_source_encoded [OF assms(1) src k v] by auto
      then have "v = Some (uint (cpc_Reason x)) \<and> uint (cpc_Reason x) < 2 ^ 31"
        by (auto simp: json_ContractProofsCheck_def sql dest!: cast_uint_value)
      moreover have "contract_row_ok c" using old c unfolding contracts_table_iff by blast
      ultimately show ?thesis by (auto simp: contract_row_ok_def set_reason_def in_range_def)
    qed
    have "contract_row_ok c" if upd: "map_of (update_from src (set_reason now) (db_storage_contracts db)) k = Some c" for k c
    proof -
      obtain c0 where c0: "map_of (db_storage_contracts db) k = Some c0" "c = (case src k of None \<Rightarrow> c0 | Some v \<Rightarrow> set_reason now v c0)"
        using upd by (auto simp: update_from_lookup)
      moreover have "contract_row_ok c0" using c0(1) old unfolding contracts_table_iff by blast
      ultimately show ?thesis using new [OF c0(1)] by (cases "src k") simp_all
    qed
    then show ?thesis using old by (simp add: contracts_table_iff)
  qed
  then show ?thesis using assms(2) unfolding sql_UpdateContractProofsChecks_def
    by (intro exec_sql_ok) (auto simp: bind_sum_Inr db_ok_def)
qed

lemma UpdateRejected_ok: "db_ok db \<Longrightarrow> db_ok (snd (sql_UpdateRejectedStorageContracts fault now cs db))"
proof -
  assume ok: "db_ok db"
  have "db_ok db'" if "delete_contracts now doomed db = Inr db'" for doomed db'
    using ok that by (auto simp: delete_contracts_def Let_def db_ok_def contracts_table_ok_def distinct_map_filter split: if_splits)
  then show ?thesis using ok by (auto simp: sql_UpdateRejectedStorageContracts_def intro!: exec_sql_ok)
qed

subsection \<open>Telemetry, benchmarks, events, parameters\<close>

lemma telemetry_insert_lower: "telemetry_insert env now t = Inr (k, r) \<Longrightarrow> ToLower k = k"
  by (auto simp: telemetry_insert_def Let_def bind_sum_Inr not_null_def varchar_lower split: option.splits)

lemma benchmark_insert_lower: "benchmark_insert env b = Inr (k, r) \<Longrightarrow> ToLower k = k"
  by (auto simp: benchmark_insert_def Let_def bind_sum_Inr not_null_def split: option.splits)

lemma inserted_lower:
  assumes "traverse ins js = Inr rows" "\<And>j k r. ins j = Inr (k, r) \<Longrightarrow> ToLower k = k" "k \<in> fst ` set rows"
  shows "ToLower k = k"
  using assms(3) list_all2_sets(2) [OF assms(1) [unfolded traverse_Inr]] assms(2) by fastforce

lemma UpdateTelemetry_ok:
  assumes "env_ok env" "db_ok db"
  shows "db_ok (snd (sql_UpdateTelemetry env fault now ts db))"
proof -
  have "db_ok ((update_providers env now src (\<lambda>size r. r\<lparr>pv_max_bag_size_bytes := size\<rparr>) db)\<lparr>db_telemetry := t, db_telemetry_history := h\<rparr>)"
    if src: "update_source env (map fst (db_providers db)) (\<lambda>t. j_text t ''public_key'') (\<lambda>t. cast_bigint (j_text t ''max_bag_size_bytes''))
          not_null (map (json_TelemetryUpdate env) ts) = Inr src"
      and rows: "traverse (telemetry_insert env now) (map (json_TelemetryUpdate env) ts) = Inr rows"
      and t: "upsert (\<lambda>old new. new) rows (db_telemetry db) = Inr t" for src rows t h
  proof -
    have "db_ok (update_providers env now src (\<lambda>size r. r\<lparr>pv_max_bag_size_bytes := size\<rparr>) db)"
    proof (rule update_providers_db_ok [OF assms(2)])
      fix k j and r :: "('a, 'b) provider_cols"
      assume "(k, r) \<in> set (db_providers db)" "src k = Some j" and r: "provider_row_ok r"
      then obtain x u where "cast_bigint (j_text (json_TelemetryUpdate env x) ''max_bag_size_bytes'') = Inr u" "not_null u = Inr j"
        using update_source_encoded [OF assms(1) src, of k j] by (force simp: image_iff)
      then have "j = uint (tu_MaxBagSizeBytes x) \<and> uint (tu_MaxBagSizeBytes x) < 2 ^ 63"
        by (auto simp: json_TelemetryUpdate_def Let_def sql dest!: cast_uint_value)
      then show "provider_row_ok (r\<lparr>pv_max_bag_size_bytes := j\<rparr>) \<and> pv_address (r\<lparr>pv_max_bag_size_bytes := j\<rparr>) = pv_address r"
        using r by (auto simp: provider_row_ok_def in_range_def)
    qed
    moreover have "keyed_lower t"
    proof (rule upsert_keyed_lower [OF t])
      show "ToLower k = k" if "k \<in> fst ` set rows" for k by (rule inserted_lower [OF rows _ that]) (rule telemetry_insert_lower)
    qed (use assms(2) in \<open>simp add: db_ok_def\<close>)
    ultimately show ?thesis by (simp add: db_ok_def)
  qed
  then show ?thesis using assms(2) by (auto simp: sql_UpdateTelemetry_def bind_sum_Inr intro!: exec_sql_ok)
qed

lemma UpdateBenchmarks_ok: "db_ok db \<Longrightarrow> db_ok (snd (sql_UpdateBenchmarks env fault now bs db))"
proof -
  assume ok: "db_ok db"
  have "keyed_lower t"
    if rows: "traverse (benchmark_insert env) js = Inr rows" and t: "upsert (\<lambda>old new. new) rows (db_benchmarks db) = Inr t" for js rows t
  proof (rule upsert_keyed_lower [OF t])
    show "ToLower k = k" if "k \<in> fst ` set rows" for k by (rule inserted_lower [OF rows _ that]) (rule benchmark_insert_lower)
  qed (use ok in \<open>simp add: db_ok_def\<close>)
  then have "db_ok (db\<lparr>db_benchmarks := t, db_benchmarks_history := h\<rparr>)"
    if "traverse (benchmark_insert env) js = Inr rows" "upsert (\<lambda>old new. new) rows (db_benchmarks db) = Inr t" for js rows t h
    using ok that by (simp add: db_ok_def)
  then show ?thesis using ok by (auto simp: sql_UpdateBenchmarks_def bind_sum_Inr intro!: exec_sql_ok)
qed

lemma provider_event_status: "provider_event now e = Inr row \<Longrightarrow> per_status row \<in> {''error'', ''ok''}"
  by (auto simp: provider_event_def event_status_def bind_sum_Inr split: if_splits)

lemma InsertProviderPipelineEvents_ok: "db_ok db \<Longrightarrow> db_ok (snd (sql_InsertProviderPipelineEvents fault now es db))"
proof -
  assume ok: "db_ok db"
  have "per_status e \<in> {''error'', ''ok''}" if "traverse (provider_event now) js = Inr rows" "e \<in> set rows" for js rows e
    using list_all2_sets(2) [OF that(1) [unfolded traverse_Inr] that(2)] provider_event_status by blast
  then have "db_ok (db\<lparr>db_provider_pipeline_events := db_provider_pipeline_events db @ rows\<rparr>)"
    if "traverse (provider_event now) js = Inr rows" for js rows
    using ok that unfolding db_ok_def by simp blast
  then show ?thesis using ok by (auto simp: sql_InsertProviderPipelineEvents_def case_prod_beta bind_sum_Inr intro!: exec_sql_ok)
qed

lemma InsertBagPipelineEvents_ok: "db_ok db \<Longrightarrow> db_ok (snd (sql_InsertBagPipelineEvents fault now es db))"
proof -
  assume ok: "db_ok db"
  then have "db_ok (db\<lparr>db_bag_pipeline_events := x\<rparr>)" for x by (simp add: db_ok_def)
  then show ?thesis using ok by (auto simp: sql_InsertBagPipelineEvents_def case_prod_beta bind_sum_Inr intro!: exec_sql_ok)
qed

lemma SetParam_ok: "db_ok db \<Longrightarrow> db_ok (snd (sql_SetParam fault k v db))"
proof -
  assume ok: "db_ok db"
  have "distinct (map fst t) \<and> (\<forall>(k, v) \<in> set t. v \<noteq> None)" if t: "upsert (\<lambda>old new. new) [(k, Some v)] (db_params db) = Inr t" for k v t
  proof -
    have d: "distinct (map fst t)" using upsert_lookup(2) [OF t] ok by (simp add: db_ok_def)
    have "x \<noteq> None" if "(k', x) \<in> set t" for k' x
      using map_of_is_SomeI [OF d that] ok upsert_lookup(1) [OF t, of k'] by (auto simp: db_ok_def dest: map_of_SomeD split: if_splits option.splits)
    then show ?thesis using d by auto
  qed
  then have "db_ok (db\<lparr>db_params := t\<rparr>)" if "upsert (\<lambda>old new. new) [(k, Some v)] (db_params db) = Inr t" for k v t
    using ok that unfolding db_ok_def by simp
  then show ?thesis using ok by (auto simp: sql_SetParam_def bind_sum_Inr intro!: exec_sql_ok)
qed

lemma clean_sql_ok:
  assumes "db_ok db" "\<And>t. set t \<subseteq> set (get db) \<Longrightarrow> db_ok (put t db)"
  shows "db_ok (snd (clean_sql msg fault get put stamp now days db))"
  using assms by (auto simp: clean_sql_def split: option.split)

lemma Clean_ok:
  assumes "db_ok db"
  shows "db_ok (snd (sql_CleanOldProvidersHistory fault now days db))" "db_ok (snd (sql_CleanOldStatusesHistory fault now days db))"
    "db_ok (snd (sql_CleanOldBenchmarksHistory fault now days db))" "db_ok (snd (sql_CleanOldTelemetryHistory fault now days db))"
    "db_ok (snd (sql_CleanOldProviderPipelineEvents fault now days db))" "db_ok (snd (sql_CleanOldBagPipelineEvents fault now days db))"
proof -
  have put: "db_ok (db\<lparr>db_providers_history := h\<rparr>)" "db_ok (db\<lparr>db_statuses_history := sh\<rparr>)" "db_ok (db\<lparr>db_benchmarks_history := bh\<rparr>)"
    "db_ok (db\<lparr>db_telemetry_history := th\<rparr>)" "db_ok (db\<lparr>db_bag_pipeline_events := be\<rparr>)" for h sh bh th be
    using assms by (simp_all add: db_ok_def)
  have events: "db_ok (db\<lparr>db_provider_pipeline_events := t\<rparr>)" if "set t \<subseteq> set (db_provider_pipeline_events db)" for t
    using assms that by (auto simp: db_ok_def)
  note clean = clean_sql_ok [OF assms]
  show "db_ok (snd (sql_CleanOldProvidersHistory fault now days db))" unfolding sql_CleanOldProvidersHistory_def by (rule clean) (rule put)
  show "db_ok (snd (sql_CleanOldStatusesHistory fault now days db))" unfolding sql_CleanOldStatusesHistory_def by (rule clean) (rule put)
  show "db_ok (snd (sql_CleanOldBenchmarksHistory fault now days db))" unfolding sql_CleanOldBenchmarksHistory_def by (rule clean) (rule put)
  show "db_ok (snd (sql_CleanOldTelemetryHistory fault now days db))" unfolding sql_CleanOldTelemetryHistory_def by (rule clean) (rule put)
  show "db_ok (snd (sql_CleanOldProviderPipelineEvents fault now days db))" unfolding sql_CleanOldProviderPipelineEvents_def
    by (rule clean) (rule events)
  show "db_ok (snd (sql_CleanOldBagPipelineEvents fault now days db))" unfolding sql_CleanOldBagPipelineEvents_def by (rule clean) (rule put)
qed

section \<open>Reachable databases\<close>

text \<open>
  One call of a writing method of the repositories.  Calls from several workers are transactions of one statement each, so
  every interleaving of them is a sequence of these steps.
\<close>

inductive db_step :: "('f, 'g) sql_env \<Rightarrow> ('f, 'g) database \<Rightarrow> ('f, 'g) database \<Rightarrow> bool" for env :: "('f, 'g) sql_env" where
  AddProviders: "db_step env db (snd (sql_AddProviders env fault ps db))"
| UpdateProviders: "db_step env db (snd (sql_UpdateProviders env fault now us db))"
| UpdateProvidersLT: "db_step env db (snd (sql_UpdateProvidersLT env fault now lts db))"
| UpdateProvidersIPs: "db_step env db (snd (sql_UpdateProvidersIPs env fault now ips db))"
| UpdateProvidersIPInfo: "db_step env db (snd (sql_UpdateProvidersIPInfo env fault now infos db))"
| UpdateUptime: "db_step env db (snd (sql_UpdateUptime env fault now db))"
| UpdateStatuses: "db_step env db (snd (sql_UpdateStatuses env fault now db))"
| UpdateRating: "db_step env db (snd (sql_UpdateRating env ops fault now db))"
| AddStatuses: "db_step env db (snd (sql_AddStatuses fault now sts db))"
| AddStorageContracts: "db_step env db (snd (sql_AddStorageContracts fault cs db))"
| UpdateContractProofsChecks: "db_step env db (snd (sql_UpdateContractProofsChecks env fault now checks db))"
| UpdateRejected: "db_step env db (snd (sql_UpdateRejectedStorageContracts fault now rels db))"
| UpdateTelemetry: "db_step env db (snd (sql_UpdateTelemetry env fault now tels db))"
| UpdateBenchmarks: "db_step env db (snd (sql_UpdateBenchmarks env fault now bs db))"
| InsertProviderPipelineEvents: "db_step env db (snd (sql_InsertProviderPipelineEvents fault now es db))"
| InsertBagPipelineEvents: "db_step env db (snd (sql_InsertBagPipelineEvents fault now bes db))"
| CleanOldProvidersHistory: "db_step env db (snd (sql_CleanOldProvidersHistory fault now days db))"
| CleanOldStatusesHistory: "db_step env db (snd (sql_CleanOldStatusesHistory fault now days db))"
| CleanOldBenchmarksHistory: "db_step env db (snd (sql_CleanOldBenchmarksHistory fault now days db))"
| CleanOldTelemetryHistory: "db_step env db (snd (sql_CleanOldTelemetryHistory fault now days db))"
| CleanOldProviderPipelineEvents: "db_step env db (snd (sql_CleanOldProviderPipelineEvents fault now days db))"
| CleanOldBagPipelineEvents: "db_step env db (snd (sql_CleanOldBagPipelineEvents fault now days db))"
| SetParam: "db_step env db (snd (sql_SetParam fault key val db))"

lemmas write_ok = AddProviders_ok UpdateProviders_ok UpdateProvidersIPs_ok UpdateProvidersIPInfo_ok UpdateUptime_ok UpdateStatuses_ok
  UpdateRating_ok AddStatuses_ok AddStorageContracts_ok UpdateContractProofsChecks_ok UpdateRejected_ok UpdateTelemetry_ok
  UpdateBenchmarks_ok InsertProviderPipelineEvents_ok InsertBagPipelineEvents_ok Clean_ok SetParam_ok

lemma db_step_ok: "db_step env db db' \<Longrightarrow> env_ok env \<Longrightarrow> db_ok db \<Longrightarrow> db_ok db'"
  by (induction rule: db_step.induct) (simp_all add: write_ok UpdateProvidersLT_noop)

lemma reachable_ok: "(db_step env)\<^sup>*\<^sup>* empty_database db \<Longrightarrow> env_ok env \<Longrightarrow> db_ok db"
  by (induction rule: rtranclp_induct) (simp_all add: empty_database_ok db_step_ok)

section \<open>Reading a consistent database\<close>

lemma scan_uint_ok: "0 \<le> n \<Longrightarrow> n < 2 ^ LENGTH('a) \<Longrightarrow> scan_uint n = Inr (word_of_int n :: 'a::len word)"
  by (simp add: scan_uint_def)

lemma query_sql_total: "(\<And>r. r \<in> set rows \<Longrightarrow> scan r = Inr (g r)) \<Longrightarrow> query_sql None scan rows = Inr (map g rows)"
  by (simp add: query_sql_def traverse_total)

lemma perm_set: "perm_ok f \<Longrightarrow> set (f xs) = set xs"
  by (metis perm_ok_def mset_eq_setD)

lemma GetAllProvidersWallets_reads:
  assumes "db_ok db" "perm_ok sord"
  shows "sql_GetAllProvidersWallets None sord db =
    Inr (map (\<lambda>(pk, r). \<lparr>pw_PubKey = pk, pw_Address = pv_address r, pw_LT = 0\<rparr>) (sord (db_providers db)))"
  unfolding sql_GetAllProvidersWallets_def
  using assms by (intro query_sql_total) (auto simp: perm_set db_ok_def providers_table_ok_def provider_row_ok_def scan_uint_def)

text \<open>The join has a row for every contract of a registered wallet, and exactly one.\<close>

lemma join_set:
  "(pk, (a, pa), c) \<in> set (contract_providers_join db) \<longleftrightarrow>
     ((a, pa), c) \<in> set (db_storage_contracts db) \<and> (\<exists>r. (pk, r) \<in> set (db_providers db) \<and> pv_address r = pa)"
  by (force simp: contract_providers_join_def)

lemma join_distinct:
  assumes "db_ok db"
  shows "distinct (map (\<lambda>(pk, k, c). k) (contract_providers_join db))"
proof -
  let ?own = "\<lambda>pa. filter (\<lambda>(pk, r). pv_address r = pa) (db_providers db)"
  have single: "length (?own pa) \<le> 1" for pa
  proof -
    have "distinct (map (\<lambda>(k, r). pv_address r) (?own pa))"
      using assms by (simp add: db_ok_def providers_table_ok_def distinct_map_filter)
    moreover have "set (map (\<lambda>(k, r). pv_address r) (?own pa)) \<subseteq> {pa}" by auto
    ultimately show ?thesis by (metis card_mono distinct_card finite.emptyI finite.insertI card.empty card_insert_if empty_iff length_map One_nat_def)
  qed
  have keys: "map (\<lambda>(pk, k, c). k) (concat (map (\<lambda>((a, pa), c). map (\<lambda>(pk, r). (pk, (a, pa), c)) (?own pa)) t)) =
      filter (\<lambda>(a, pa). ?own pa \<noteq> []) (map fst t)" for t :: "((string \<times> string) \<times> contract_cols) list"
  proof (induction t)
    case (Cons x t)
    obtain a pa c where x: "x = ((a, pa), c)" by (metis surj_pair)
    have "?own pa = [] \<or> (\<exists>y. ?own pa = [y])" using single [of pa] by (cases "?own pa") auto
    then show ?case using Cons x by auto
  qed simp
  show ?thesis using assms unfolding contract_providers_join_def keys by (simp add: db_ok_def contracts_table_ok_def)
qed

definition read_relation :: "contract_join \<Rightarrow> contract_relation" where
  "read_relation row =
     (case row of (pk, (address, provider), c) \<Rightarrow>
        \<lparr>rel_ProviderPublicKey = pk, rel_ProviderAddress = provider, rel_Address = address, rel_BagID = cn_bag_id c,
         rel_Size = word_of_int (cn_size c), rel_Reason = cn_reason c\<rparr>)"

lemma GetStorageContracts_reads:
  assumes "db_ok db" "perm_ok sord"
  shows "sql_GetStorageContracts None sord db = Inr (map read_relation (sord (contract_providers_join db)))"
proof -
  have "scan_uint (cn_size c) = Inr (word_of_int (cn_size c) :: 64 word)" if "(pk, k, c) \<in> set (contract_providers_join db)" for pk k c
    using that assms(1) by (cases k) (auto simp: join_set db_ok_def contracts_table_ok_def in_range_def intro!: scan_uint_ok)
  then show ?thesis unfolding sql_GetStorageContracts_def
    by (intro query_sql_total) (auto simp: perm_set [OF assms(2)] read_relation_def)
qed

end
