(* ===== verification/SqlStore.thy ===== *)
theory SqlStore
  imports SqlInvariant
begin

text \<open>
  What the statements of the repositories do on a consistent database: batches succeed or fail as a whole, the results of
  storage-proof checks become visible to readers and decide the status of a provider, events of a run are found again by the next.
\<close>

section \<open>Batches with distinct keys\<close>

lemma map_of_distinct: "distinct (map kf xs) \<Longrightarrow> x \<in> set xs \<Longrightarrow> map_of (map (\<lambda>x. (kf x, g x)) xs) (kf x) = Some (g x)"
  by (rule map_of_is_SomeI) (auto simp: comp_def)

lemma update_source_unique:
  assumes "env_ok env" "distinct (map kf xs)"
    and "\<And>x. x \<in> set xs \<Longrightarrow> key (enc x) = Some (kf x) \<and> (\<exists>u. parse (enc x) = Inr u \<and> assign u = Inr (g x))"
  shows "\<exists>src. update_source env keys key parse assign (map enc xs) = Inr src \<and>
    (\<forall>k \<in> set keys. src k = map_of (map (\<lambda>x. (kf x, g x)) xs) k)"
proof -
  have "\<exists>src. update_source env keys key parse assign (map enc xs) = Inr src"
    unfolding update_source_ok using assms(3) by (auto simp: joined_def) blast+
  then obtain src where src: "update_source env keys key parse assign (map enc xs) = Inr src" by blast
  have "src k = map_of (map (\<lambda>x. (kf x, g x)) xs) k" if k: "k \<in> set keys" for k
  proof (cases "src k")
    case None
    then have "\<forall>x \<in> set xs. kf x \<noteq> k" using update_source_rows(1) [OF assms(1) src k] assms(3) by auto
    then have "map_of (map (\<lambda>x. (kf x, g x)) xs) k = None" by (auto simp: map_of_eq_None_iff)
    then show ?thesis using None by simp
  next
    case (Some v)
    then obtain x u where x: "x \<in> set xs" "key (enc x) = Some k" "parse (enc x) = Inr u" "assign u = Inr v"
      using update_source_encoded [OF assms(1) src k] by blast
    then have "kf x = k" "g x = v" using assms(3) [OF x(1)] by auto
    then show ?thesis using map_of_distinct [OF assms(2) x(1), of g] Some by simp
  qed
  then show ?thesis using src by blast
qed

lemma update_from_cong: "(\<And>k. k \<in> set (map fst t) \<Longrightarrow> src k = src' k) \<Longrightarrow> update_from src f t = update_from src' f t"
  by (induction t) (auto simp: update_from_def)

section \<open>Prices and spans of providers\<close>

definition int64_ok :: "int \<Rightarrow> bool" where "int64_ok n \<longleftrightarrow> - (2 ^ 63) \<le> n \<and> n < 2 ^ 63"

definition rates_ok :: "provider_update \<Rightarrow> bool" where
  "rates_ok p \<longleftrightarrow> int64_ok (pu_RatePerMBDay p) \<and> int64_ok (pu_MinBounty p) \<and> uint (pu_MinSpan p) < 2 ^ 31 \<and> uint (pu_MaxSpan p) < 2 ^ 31"

definition rates_of :: "provider_update \<Rightarrow> provider_rates" where
  "rates_of p = \<lparr>pr_rate_per_mb_per_day = Some (pu_RatePerMBDay p), pr_min_bounty = Some (pu_MinBounty p),
                 pr_min_span = Some (uint (pu_MinSpan p)), pr_max_span = Some (uint (pu_MaxSpan p))\<rparr>"

lemma cast_bigint_int64: "int64_ok n \<Longrightarrow> cast_bigint (Some (Itoa n)) = Inr (Some n)"
  using cast_int_Itoa [of "2 ^ 63" n "''bigint''"] by (auto simp: int64_ok_def cast_bigint_def)

lemma cast_int4_ok: "uint (w :: 32 word) < 2 ^ 31 \<Longrightarrow> cast_int4 (Some (Itoa (uint w))) = Inr (Some (uint w))"
  by (rule iffD2 [OF cast_int4_uint(1)])

lemma parse_rates_ok: "rates_ok p \<Longrightarrow> parse_rates (json_ProviderUpdate p) = Inr (rates_of p)"
  by (simp add: rates_ok_def parse_rates_def json_ProviderUpdate_def sql cast_bigint_int64 cast_int4_ok rates_of_def)

lemma ProviderUpdate_key [simp]: "j_text (json_ProviderUpdate p) ''public_key'' = Some (pu_Pubkey p)"
  by (simp add: json_ProviderUpdate_def sql)

text \<open>
  C28. \<^verbatim>\<open>UpdateProviders\<close> is all or nothing.  When every row of a batch with distinct keys is in range, each provider of the batch that is
  registered gets its rates, becomes initialised, and no other provider changes.  One registered provider with a span of
  \<open>2 ^ 31\<close> or more makes the statement fail for the whole batch, and the database keeps its state.
\<close>

theorem UpdateProviders_all_or_nothing:
  assumes "env_ok env" "distinct (map pu_Pubkey ps)" "ps \<noteq> []"
  shows "(list_all rates_ok ps \<longrightarrow>
      (\<exists>db'. sql_UpdateProviders env None now ps db = (None, db') \<and>
        (\<forall>k. map_of (db_providers db') k =
           (case map_of (db_providers db) k of None \<Rightarrow> None
            | Some r \<Rightarrow> Some (case map_of (map (\<lambda>p. (pu_Pubkey p, rates_of p)) ps) k of None \<Rightarrow> r | Some u \<Rightarrow> set_rates now u r))))) \<and>
    ((\<exists>p \<in> set ps. map_of (db_providers db) (pu_Pubkey p) \<noteq> None \<and> (2 ^ 31 \<le> uint (pu_MinSpan p) \<or> 2 ^ 31 \<le> uint (pu_MaxSpan p))) \<longrightarrow>
      (\<exists>e. sql_UpdateProviders env None now ps db = (Some e, db)))"
proof (intro conjI impI)
  let ?keys = "map fst (db_providers db)" and ?key = "\<lambda>p. j_text p ''public_key''"
  assume "list_all rates_ok ps"
  then have "p \<in> set ps \<Longrightarrow> parse_rates (json_ProviderUpdate p) = Inr (rates_of p)" for p
    using parse_rates_ok by (auto simp: list_all_iff)
  then obtain src where src: "update_source env ?keys ?key parse_rates Inr (map json_ProviderUpdate ps) = Inr src"
    and eq: "\<forall>k \<in> set ?keys. src k = map_of (map (\<lambda>p. (pu_Pubkey p, rates_of p)) ps) k"
    using update_source_unique [OF assms(1,2), of ?key json_ProviderUpdate parse_rates Inr rates_of ?keys] by auto
  have run: "sql_UpdateProviders env None now ps db = (None, update_providers env now src (set_rates now) db)"
    using assms(3) by (simp add: sql_UpdateProviders_def exec_sql_def src)
  show "\<exists>db'. sql_UpdateProviders env None now ps db = (None, db') \<and>
        (\<forall>k. map_of (db_providers db') k =
           (case map_of (db_providers db) k of None \<Rightarrow> None
            | Some r \<Rightarrow> Some (case map_of (map (\<lambda>p. (pu_Pubkey p, rates_of p)) ps) k of None \<Rightarrow> r | Some u \<Rightarrow> set_rates now u r)))"
    unfolding run using update_from_cong [of "db_providers db", OF eq [rule_format]] by (simp add: update_from_lookup split: option.split)
next
  assume "\<exists>p \<in> set ps. map_of (db_providers db) (pu_Pubkey p) \<noteq> None \<and> (2 ^ 31 \<le> uint (pu_MinSpan p) \<or> 2 ^ 31 \<le> uint (pu_MaxSpan p))"
  then obtain p where p: "p \<in> set ps" "pu_Pubkey p \<in> set (map fst (db_providers db))" "2 ^ 31 \<le> uint (pu_MinSpan p) \<or> 2 ^ 31 \<le> uint (pu_MaxSpan p)"
    by (auto simp: map_of_eq_None_iff)
  then have "\<not> (\<exists>u. parse_rates (json_ProviderUpdate p) = Inr u)" using parse_rates_value [of p] by fastforce
  then obtain e where "update_source env (map fst (db_providers db)) (\<lambda>p. j_text p ''public_key'') parse_rates Inr (map json_ProviderUpdate ps) = Inl e"
    using update_source_error [of "json_ProviderUpdate p" "map json_ProviderUpdate ps" "\<lambda>p. j_text p ''public_key''" "pu_Pubkey p"
      "map fst (db_providers db)" parse_rates Inr env] p(1,2) by auto
  then show "\<exists>e. sql_UpdateProviders env None now ps db = (Some e, db)"
    using assms(3) by (simp add: sql_UpdateProviders_def exec_sql_def)
qed

text \<open>A small environment for examples, in which floats are integers.\<close>

definition sample_env :: "(int, int) sql_env" where
  "sample_env =
     \<lparr>se_pick = \<lambda>n. 0, se_eager = True, se_shuffle = \<lambda>xs. xs, se_zero8 = 0, se_zero4 = 0, se_text64 = Itoa, se_text32 = Itoa,
      se_float8 = \<lambda>s. Some (fst (ParseInt64 s)), se_float4 = \<lambda>s. Some (fst (ParseInt64 s)), se_formatTime = Itoa,
      se_parseTime = \<lambda>s. Some (fst (ParseInt64 s)), se_base64 = \<lambda>b. [], se_parseJson = \<lambda>s. if s = ''{}'' then Some (JObj []) else None,
      se_uptime = \<lambda>a b. int (100 * a div b), se_ratio = \<lambda>a b. int (100 * a div b), se_whole = \<lambda>x. x, se_percent = \<lambda>x. x,
      se_tenths8 = \<lambda>x. x, se_tenths4 = \<lambda>x. x, se_millions = \<lambda>x. x\<rparr>"

lemma sample_env_ok: "env_ok sample_env"
  by (simp add: env_ok_def sample_env_def)

definition sample_db :: "(int, int) database" where
  "sample_db = empty_database\<lparr>db_providers := [(''aa'', new_provider sample_env ''W1'' 0), (''bb'', new_provider sample_env ''W2'' 0)],
     db_storage_contracts := [((''C1'', ''W1''), \<lparr>cn_bag_id = ''b1'', cn_owner_address = ''o'', cn_size = 7, cn_chunk_size = 1, cn_last_tx_lt = 0,
        cn_reason = None, cn_reason_timestamp = None\<rparr>)]\<rparr>"

definition sample_update :: "string \<Rightarrow> 32 word \<Rightarrow> provider_update" where
  "sample_update pk maxSpan = \<lparr>pu_Pubkey = pk, pu_RatePerMBDay = 5, pu_MinBounty = 6, pu_MinSpan = 7, pu_MaxSpan = maxSpan\<rparr>"

theorem UpdateProviders_all_or_nothing_witness:
  "fst (sql_UpdateProviders sample_env None 9 [sample_update ''aa'' 8] sample_db) = None \<and>
   map_option pv_max_span (map_of (db_providers (snd (sql_UpdateProviders sample_env None 9 [sample_update ''aa'' 8] sample_db))) ''aa'') = Some (Some 8) \<and>
   (\<exists>e. sql_UpdateProviders sample_env None 9 [sample_update ''aa'' 8, sample_update ''bb'' (2 ^ 31)] sample_db = (Some e, sample_db))"
  using UpdateProviders_all_or_nothing [OF sample_env_ok, of "[sample_update ''aa'' 8]" 9 sample_db]
    UpdateProviders_all_or_nothing [OF sample_env_ok, of "[sample_update ''aa'' 8, sample_update ''bb'' (2 ^ 31)]" 9 sample_db]
  by (auto simp: sample_update_def rates_ok_def int64_ok_def sample_db_def rates_of_def set_rates_def)

section \<open>Every reachable database\<close>

lemma sorted_map_distinct: "perm_ok sord \<Longrightarrow> distinct (map f xs) \<Longrightarrow> distinct (map f (sord xs))"
  by (metis perm_ok_def mset_eq_imp_distinct_iff mset_map)

lemma join_keys:
  "(\<lambda>(pk, k, c). k) ` set (contract_providers_join db) =
     {k \<in> fst ` set (db_storage_contracts db). snd k \<in> (\<lambda>(pk, r). pv_address r) ` set (db_providers db)}"
proof (rule set_eqI)
  fix k
  have "k \<in> (\<lambda>(pk, k, c). k) ` set (contract_providers_join db) \<longleftrightarrow> (\<exists>pk c. (pk, k, c) \<in> set (contract_providers_join db))"
    by force
  also have "\<dots> \<longleftrightarrow> (\<exists>c. (k, c) \<in> set (db_storage_contracts db)) \<and> (\<exists>pk r. (pk, r) \<in> set (db_providers db) \<and> pv_address r = snd k)"
    by (cases k) (auto simp: join_set)
  also have "(\<exists>c. (k, c) \<in> set (db_storage_contracts db)) \<longleftrightarrow> k \<in> fst ` set (db_storage_contracts db)" by force
  also have "(\<exists>pk r. (pk, r) \<in> set (db_providers db) \<and> pv_address r = snd k) \<longleftrightarrow>
      snd k \<in> (\<lambda>(pk, r). pv_address r) ` set (db_providers db)" by force
  finally show "k \<in> (\<lambda>(pk, k, c). k) ` set (contract_providers_join db) \<longleftrightarrow>
      k \<in> {k \<in> fst ` set (db_storage_contracts db). snd k \<in> (\<lambda>(pk, r). pv_address r) ` set (db_providers db)}" by simp
qed

text \<open>
  C26. Whatever methods of the repositories are called, in whatever order, with whatever rows and faults: the database stays
  consistent, and the reads that scan into unsigned numbers never fail on its rows.  Wallet addresses are those of one provider
  each, so \<^verbatim>\<open>GetStorageContracts\<close> returns every contract of a registered wallet exactly once, with the key of its owner.
\<close>

theorem reachable_database_consistent:
  assumes "(db_step env)\<^sup>*\<^sup>* empty_database db" "env_ok env" "perm_ok sord" "perm_ok jord"
  shows "db_ok db \<and>
    (\<exists>ws. sql_GetAllProvidersWallets None sord db = Inr ws \<and> distinct (map pw_PubKey ws) \<and> distinct (map pw_Address ws) \<and>
       pw_PubKey ` set ws = dom (map_of (db_providers db))) \<and>
    (\<exists>rels. sql_GetStorageContracts None jord db = Inr rels \<and> distinct (map rel_key rels) \<and>
       rel_key ` set rels = {k \<in> dom (map_of (db_storage_contracts db)). snd k \<in> pv_address ` ran (map_of (db_providers db))} \<and>
       list_all (\<lambda>rel. map_option pv_address (map_of (db_providers db) (rel_ProviderPublicKey rel)) = Some (rel_ProviderAddress rel)) rels)"
proof (intro conjI)
  show ok: "db_ok db" by (rule reachable_ok [OF assms(1,2)])
  have d: "distinct (map fst (db_providers db))" "distinct (map (\<lambda>(k, r). pv_address r) (db_providers db))"
    using ok by (simp_all add: db_ok_def providers_table_ok_def)
  let ?ws = "map (\<lambda>(pk, r). \<lparr>pw_PubKey = pk, pw_Address = pv_address r, pw_LT = 0\<rparr>) (sord (db_providers db))"
  have "distinct (map fst (sord (db_providers db)))" "distinct (map (\<lambda>(k, r). pv_address r) (sord (db_providers db)))"
    using d sorted_map_distinct [OF assms(3)] by blast+
  moreover have "map pw_PubKey ?ws = map fst (sord (db_providers db))" "map pw_Address ?ws = map (\<lambda>(k, r). pv_address r) (sord (db_providers db))"
    by auto
  moreover have "pw_PubKey ` set ?ws = dom (map_of (db_providers db))"
    by (force simp: perm_set [OF assms(3)] dom_map_of_conv_image_fst image_iff)
  ultimately show "\<exists>ws. sql_GetAllProvidersWallets None sord db = Inr ws \<and> distinct (map pw_PubKey ws) \<and> distinct (map pw_Address ws) \<and>
      pw_PubKey ` set ws = dom (map_of (db_providers db))"
    using GetAllProvidersWallets_reads [OF ok assms(3)] by metis
  let ?join = "contract_providers_join db"
  have key: "rel_key (read_relation row) = (\<lambda>(pk, k, c). k) row" for row
    by (cases row) (auto simp: read_relation_def rel_key_def)
  have ran: "(\<lambda>(pk, r). pv_address r) ` set (db_providers db) = pv_address ` ran (map_of (db_providers db))"
    using d(1) by (force simp: ran_def image_iff)
  have "distinct (map rel_key (map read_relation (jord ?join)))"
    using sorted_map_distinct [OF assms(4) join_distinct [OF ok]] by (simp add: key comp_def)
  moreover have "rel_key ` set (map read_relation (jord ?join)) =
      {k \<in> dom (map_of (db_storage_contracts db)). snd k \<in> pv_address ` ran (map_of (db_providers db))}"
    using join_keys [of db] by (simp add: perm_set [OF assms(4)] image_image key dom_map_of_conv_image_fst ran)
  moreover have "list_all (\<lambda>rel. map_option pv_address (map_of (db_providers db) (rel_ProviderPublicKey rel)) = Some (rel_ProviderAddress rel))
      (map read_relation (jord ?join))"
    using d(1) by (auto simp: list_all_iff perm_set [OF assms(4)] read_relation_def join_set)
  ultimately show "\<exists>rels. sql_GetStorageContracts None jord db = Inr rels \<and> distinct (map rel_key rels) \<and>
       rel_key ` set rels = {k \<in> dom (map_of (db_storage_contracts db)). snd k \<in> pv_address ` ran (map_of (db_providers db))} \<and>
       list_all (\<lambda>rel. map_option pv_address (map_of (db_providers db) (rel_ProviderPublicKey rel)) = Some (rel_ProviderAddress rel)) rels"
    using GetStorageContracts_reads [OF ok assms(4)] by blast
qed

definition sample_create :: "string \<Rightarrow> string \<Rightarrow> provider_create" where
  "sample_create pk addr = \<lparr>pc_Pubkey = pk, pc_Address = addr, pc_RegisteredAt = 3\<rparr>"

lemma sample_add:
  "snd (sql_AddProviders sample_env None [sample_create ''AA'' ''W1'', sample_create ''bb'' ''W1''] empty_database) =
     empty_database\<lparr>db_providers := [(''aa'', new_provider sample_env ''W1'' 3)]\<rparr>"
  by (simp add: sql_AddProviders_def sample_env_def sample_create_def exec_sql_def created_row_def json_ProviderCreate_def sql
      varchar_short cast_timestamptz_def ToLower_def lower_char_def insert_provider_def new_provider_def empty_database_def
      ParseInt64_Itoa char_of_def bit_iff_odd_drop_bit)

theorem reachable_database_consistent_witness:
  "\<exists>db. db = empty_database\<lparr>db_providers := [(''aa'', new_provider sample_env ''W1'' 3)]\<rparr> \<and> db_ok db \<and>
     (\<exists>ws. sql_GetAllProvidersWallets None rev db = Inr ws \<and> pw_PubKey ` set ws = {''aa''})"
proof -
  let ?db = "snd (sql_AddProviders sample_env None [sample_create ''AA'' ''W1'', sample_create ''bb'' ''W1''] empty_database)"
  have "(db_step sample_env)\<^sup>*\<^sup>* empty_database ?db" by (intro r_into_rtranclp AddProviders)
  moreover have "perm_ok (rev :: (string \<times> (int, int) provider_cols) list \<Rightarrow> _)" "perm_ok (rev :: contract_join list \<Rightarrow> _)"
    by (simp_all add: perm_ok_def)
  ultimately show ?thesis using reachable_database_consistent [OF _ sample_env_ok, of ?db rev rev] unfolding sample_add by auto
qed

text \<open>
  C30. The wallets' logical times never move in the database: \<^verbatim>\<open>ProviderWalletLT\<close> carries no \<^verbatim>\<open>json\<close> tags, so the rows of
  \<^verbatim>\<open>UpdateProvidersLT\<close> have no member \<^verbatim>\<open>public_key\<close> and match no provider.  The statement reports success and changes nothing, and
  \<^verbatim>\<open>GetAllProvidersWallets\<close> answers logical time 0 for every provider for ever.
\<close>

theorem UpdateProvidersLT_has_no_effect:
  assumes "(db_step env)\<^sup>*\<^sup>* empty_database db" "env_ok env" "perm_ok sord"
  shows "sql_UpdateProvidersLT env None now lts db = (None, db) \<and>
    (\<exists>ws. sql_GetAllProvidersWallets None sord db = Inr ws \<and> length ws = length (db_providers db) \<and> list_all (\<lambda>w. pw_LT w = 0) ws)"
proof -
  have ok: "db_ok db" by (rule reachable_ok [OF assms(1,2)])
  have "length (sord (db_providers db)) = length (db_providers db)" using assms(3) by (metis perm_ok_def size_mset)
  then show ?thesis using GetAllProvidersWallets_reads [OF ok assms(3)] by (auto simp: UpdateProvidersLT_noop list_all_iff)
qed

theorem UpdateProvidersLT_has_no_effect_witness:
  "\<exists>db. db = empty_database\<lparr>db_providers := [(''aa'', new_provider sample_env ''W1'' 3)]\<rparr> \<and>
     sql_UpdateProvidersLT sample_env None 5 [\<lparr>pwl_PubKey = ''aa'', pwl_LT = 77\<rparr>] db = (None, db)"
proof -
  let ?db = "snd (sql_AddProviders sample_env None [sample_create ''AA'' ''W1'', sample_create ''bb'' ''W1''] empty_database)"
  have "(db_step sample_env)\<^sup>*\<^sup>* empty_database ?db" by (intro r_into_rtranclp AddProviders)
  moreover have "perm_ok (rev :: (string \<times> (int, int) provider_cols) list \<Rightarrow> _)" by (simp add: perm_ok_def)
  ultimately show ?thesis using UpdateProvidersLT_has_no_effect [OF _ sample_env_ok, of ?db rev] unfolding sample_add by auto
qed

section \<open>Results of checks\<close>

definition check_row_key :: "contract_proofs_check \<Rightarrow> string \<times> string" where
  "check_row_key r = (cpc_ContractAddress r, cpc_ProviderAddress r)"

definition check_rows_ok :: "contract_proofs_check list \<Rightarrow> bool" where
  "check_rows_ok rows \<longleftrightarrow> distinct (map check_row_key rows) \<and> list_all (\<lambda>r. uint (cpc_Reason r) < 2 ^ 31) rows"

definition reasons_of :: "contract_proofs_check list \<Rightarrow> string \<times> string \<Rightarrow> int option" where
  "reasons_of rows = map_of (map (\<lambda>r. (check_row_key r, uint (cpc_Reason r))) rows)"

text \<open>A batch of results with distinct keys and small codes is stored, each on its contract.\<close>

lemma checks_stored:
  assumes "env_ok env" "check_rows_ok rows"
  shows "sql_UpdateContractProofsChecks env None now rows db =
    (None, db\<lparr>db_storage_contracts := update_from (reasons_of rows) (\<lambda>n. set_reason now (Some n)) (db_storage_contracts db)\<rparr>)"
proof -
  let ?keys = "map fst (db_storage_contracts db)" and ?g = "\<lambda>r. Some (uint (cpc_Reason r))"
  have key: "check_key (json_ContractProofsCheck r) = Some (check_row_key r)" for r
    by (simp add: check_key_def json_ContractProofsCheck_def sql check_row_key_def)
  have parse: "cast_int4 (j_text (json_ContractProofsCheck r) ''reason'') = Inr (?g r)" if "r \<in> set rows" for r
    using that assms(2) by (simp add: json_ContractProofsCheck_def sql cast_int4_ok check_rows_ok_def list_all_iff)
  obtain src where src: "update_source env ?keys check_key (\<lambda>c. cast_int4 (j_text c ''reason'')) Inr (map json_ContractProofsCheck rows) = Inr src"
    and eq: "\<forall>k \<in> set ?keys. src k = map_of (map (\<lambda>r. (check_row_key r, ?g r)) rows) k"
    using update_source_unique [OF assms(1), of check_row_key rows check_key json_ContractProofsCheck
        "\<lambda>c. cast_int4 (j_text c ''reason'')" Inr ?g ?keys] assms(2) key parse by (auto simp: check_rows_ok_def)
  have g: "map_of (map (\<lambda>r. (check_row_key r, ?g r)) rows) k = map_option Some (reasons_of rows k)" for k
    unfolding reasons_of_def by (induction rows) auto
  have "update_from src (set_reason now) (db_storage_contracts db) =
      update_from (\<lambda>k. map_option Some (reasons_of rows k)) (set_reason now) (db_storage_contracts db)"
    by (rule update_from_cong) (use eq g in auto)
  also have "\<dots> = update_from (reasons_of rows) (\<lambda>n. set_reason now (Some n)) (db_storage_contracts db)"
    by (auto simp: update_from_def split: option.split)
  finally show ?thesis by (simp add: sql_UpdateContractProofsChecks_def exec_sql_def src)
qed

lemma join_updated:
  "contract_providers_join (db\<lparr>db_storage_contracts := update_from src f (db_storage_contracts db)\<rparr>) =
     map (\<lambda>(pk, k, c). (pk, k, case src k of None \<Rightarrow> c | Some n \<Rightarrow> f n c)) (contract_providers_join db)"
proof -
  have "concat (map (\<lambda>((a, pa), c). map (\<lambda>(pk, r). (pk, (a, pa), c)) (own pa)) (update_from src f t)) =
      map (\<lambda>(pk, k, c). (pk, k, case src k of None \<Rightarrow> c | Some n \<Rightarrow> f n c)) (concat (map (\<lambda>((a, pa), c). map (\<lambda>(pk, r). (pk, (a, pa), c)) (own pa)) t))"
    for own :: "string \<Rightarrow> (string \<times> ('a, 'b) provider_cols) list" and t
    by (induction t) (auto simp: update_from_def)
  then show ?thesis by (simp add: contract_providers_join_def)
qed

text \<open>
  The results of a storage-proof pass are what the next reader sees: after \<^verbatim>\<open>UpdateContractProofsChecks\<close> with rows for distinct
  contracts, \<^verbatim>\<open>GetStorageContracts\<close> returns the same relations as before, with the new reason where there is a row for the contract and
  provider and the old one everywhere else.  Rows for contracts that are no longer stored are ignored.
\<close>

theorem checks_become_visible:
  assumes "db_ok db" "env_ok env" "check_rows_ok rows" "perm_ok jord"
  shows "\<exists>db' rels rels'. sql_UpdateContractProofsChecks env None now rows db = (None, db') \<and>
    sql_GetStorageContracts None jord db = Inr rels \<and> sql_GetStorageContracts None jord db' = Inr rels' \<and>
    mset rels' = image_mset (\<lambda>rel. case reasons_of rows (rel_key rel) of None \<Rightarrow> rel | Some n \<Rightarrow> rel\<lparr>rel_Reason := Some n\<rparr>) (mset rels)"
proof -
  let ?db' = "db\<lparr>db_storage_contracts := update_from (reasons_of rows) (\<lambda>n. set_reason now (Some n)) (db_storage_contracts db)\<rparr>"
  note run = checks_stored [OF assms(2,3), of now db]
  have ok': "db_ok ?db'" using UpdateContractProofsChecks_ok [OF assms(2,1), of None now rows] by (simp add: run)
  have p: "mset (jord xs) = mset xs" for xs using assms(4) by (simp add: perm_ok_def)
  have "read_relation (case row of (pk, k, c) \<Rightarrow> (pk, k, case reasons_of rows k of None \<Rightarrow> c | Some n \<Rightarrow> set_reason now (Some n) c)) =
      (case reasons_of rows (rel_key (read_relation row)) of None \<Rightarrow> read_relation row | Some n \<Rightarrow> (read_relation row)\<lparr>rel_Reason := Some n\<rparr>)" for row
    by (cases row) (auto simp: read_relation_def rel_key_def set_reason_def split: option.split)
  then have "mset (map read_relation (jord (contract_providers_join ?db'))) =
      image_mset (\<lambda>rel. case reasons_of rows (rel_key rel) of None \<Rightarrow> rel | Some n \<Rightarrow> rel\<lparr>rel_Reason := Some n\<rparr>)
        (mset (map read_relation (jord (contract_providers_join db))))"
    by (simp add: p join_updated multiset.map_comp comp_def)
  then show ?thesis using run GetStorageContracts_reads [OF assms(1,4)] GetStorageContracts_reads [OF ok' assms(4)] by blast
qed

definition sample_proofs_check :: "string \<Rightarrow> string \<Rightarrow> contract_proofs_check" where
  "sample_proofs_check c p = \<lparr>cpc_ContractAddress = c, cpc_ProviderAddress = p, cpc_Reason = 403\<rparr>"

lemma sample_db_ok: "db_ok sample_db"
  by (simp add: sample_db_def empty_database_def db_ok_def providers_table_ok_def contracts_table_ok_def statuses_ok_def keyed_lower_def
      provider_row_ok_def new_provider_def in_range_def ToLower_def lower_char_def)

lemma sample_checks_ok: "check_rows_ok [sample_proofs_check ''C1'' ''W1'', sample_proofs_check ''C9'' ''W1'']"
  by (simp add: check_rows_ok_def sample_proofs_check_def check_row_key_def)

theorem checks_become_visible_witness:
  "\<exists>db' rels'. sql_UpdateContractProofsChecks sample_env None 50 [sample_proofs_check ''C1'' ''W1'', sample_proofs_check ''C9'' ''W1''] sample_db = (None, db') \<and>
     sql_GetStorageContracts None rev db' = Inr rels' \<and>
     rels' = [\<lparr>rel_ProviderPublicKey = ''aa'', rel_ProviderAddress = ''W1'', rel_Address = ''C1'', rel_BagID = ''b1'', rel_Size = 7, rel_Reason = Some 403\<rparr>]"
proof -
  have "perm_ok (rev :: contract_join list \<Rightarrow> _)" by (simp add: perm_ok_def)
  moreover have "sql_GetStorageContracts None rev sample_db = Inr
      [\<lparr>rel_ProviderPublicKey = ''aa'', rel_ProviderAddress = ''W1'', rel_Address = ''C1'', rel_BagID = ''b1'', rel_Size = 7, rel_Reason = None\<rparr>]"
    by (simp add: sql_GetStorageContracts_def contract_providers_join_def sample_db_def query_sql_def scan_uint_def new_provider_def)
  ultimately show ?thesis using checks_become_visible [OF sample_db_ok sample_env_ok sample_checks_ok, of rev 50]
    by (auto simp: reasons_of_def check_row_key_def sample_proofs_check_def rel_key_def)
qed

section \<open>The status of a provider\<close>

lemma selected_reason_top:
  assumes "env_ok env" "selected_reason env reasons = Some (q, n)"
  shows "q \<in> set reasons" "n = count_list reasons q" "\<And>q'. q' \<in> set reasons \<Longrightarrow> count_list reasons q' \<le> n"
proof -
  let ?top = "filter (\<lambda>r. \<forall>r' \<in> set reasons. count_list reasons r' \<le> count_list reasons r) (remdups reasons)"
  have "?top \<noteq> []" and q: "q = ?top ! se_pick env (length ?top)" "n = count_list reasons q"
    using assms(2) by (auto simp: selected_reason_def Let_def split: if_splits)
  then have "se_pick env (length ?top) < length ?top" using assms(1) unfolding env_ok_def by blast
  then have "q \<in> set ?top" unfolding q(1) by (rule nth_mem)
  then show "q \<in> set reasons" "n = count_list reasons q" "\<And>q'. q' \<in> set reasons \<Longrightarrow> count_list reasons q' \<le> n"
    using q(2) by auto
qed

lemma selected_reason_None: "selected_reason env reasons = None \<longleftrightarrow> reasons = []"
proof
  assume none: "selected_reason env reasons = None"
  show "reasons = []"
  proof (rule ccontr)
    assume "reasons \<noteq> []"
    then have "Max (count_list reasons ` set reasons) \<in> count_list reasons ` set reasons" by (intro Max_in) simp_all
    then obtain q where q: "q \<in> set reasons" "Max (count_list reasons ` set reasons) = count_list reasons q" by (rule imageE)
    have "count_list reasons q' \<le> count_list reasons q" if "q' \<in> set reasons" for q'
      using that q(2) Max_ge [of "count_list reasons ` set reasons"] by auto
    then have "q \<in> set (filter (\<lambda>r. \<forall>r' \<in> set reasons. count_list reasons r' \<le> count_list reasons r) (remdups reasons))" using q(1) by simp
    then have "filter (\<lambda>r. \<forall>r' \<in> set reasons. count_list reasons r' \<le> count_list reasons r) (remdups reasons) \<noteq> []" by force
    then show False using none unfolding selected_reason_def Let_def by simp
  qed
qed (simp add: selected_reason_def)

lemma reason_counts_total: "sum_list (map snd (reason_counts reasons)) = int (length reasons)"
proof -
  have "sum_list (map (\<lambda>r. int (count_list reasons r)) (remdups reasons)) = (\<Sum>r \<in> set reasons. int (count_list reasons r))"
    by (simp add: sum_list_distinct_conv_sum_set)
  also have "\<dots> = int (length reasons)" by (metis of_nat_sum sum_count_set order_refl List.finite_set)
  finally show ?thesis by (simp add: reason_counts_def comp_def)
qed

lemma status_of_provider:
  fixes env :: "('f, 'g) sql_env" and db :: "('f, 'g) database" and pk :: string and r :: "('f, 'g) provider_cols" and now :: time
  assumes "env_ok env" "map_of (db_providers db) pk = Some r"
  defines "reasons \<equiv> recent_reasons now db (pv_address r)"
  shows "\<exists>db'. sql_UpdateStatuses env None now db = (None, db') \<and>
    (if reasons = [] then map_of (db_providers db') pk = Some r
     else \<exists>q stats. q \<in> set reasons \<and> (\<forall>q' \<in> set reasons. count_list reasons q' \<le> count_list reasons q) \<and>
       sum_list (map snd stats) = int (length reasons) \<and>
       map_of (db_providers db') pk = Some (r\<lparr>pv_status := Some q, pv_status_ratio := se_ratio env (count_list reasons q) (length reasons),
         pv_statuses_reason_stats := stats\<rparr>))"
proof (cases "selected_reason env reasons")
  case None
  then show ?thesis using assms(2) selected_reason_None [of env reasons]
    by (simp add: sql_UpdateStatuses_def exec_sql_def update_from_lookup reasons_def Let_def)
next
  case (Some sel)
  obtain q n where sel: "sel = (q, n)" by fastforce
  note top = selected_reason_top [OF assms(1) Some [unfolded sel]]
  have ne: "reasons \<noteq> []" using Some selected_reason_None [of env reasons] by auto
  have "mset (map snd (se_shuffle env (reason_counts reasons))) = mset (map snd (reason_counts reasons))"
    using assms(1) by (simp add: env_ok_def)
  then have "sum_list (map snd (se_shuffle env (reason_counts reasons))) = int (length reasons)"
    using reason_counts_total by (metis sum_mset_sum_list)
  moreover have "map_of (db_providers (snd (sql_UpdateStatuses env None now db))) pk =
      Some (r\<lparr>pv_status := Some q, pv_status_ratio := se_ratio env (count_list reasons q) (length reasons),
         pv_statuses_reason_stats := se_shuffle env (reason_counts reasons)\<rparr>)"
    using Some sel top(2) assms(2) by (simp add: sql_UpdateStatuses_def exec_sql_def update_from_lookup reasons_def Let_def)
  moreover have "fst (sql_UpdateStatuses env None now db) = None" by (simp add: sql_UpdateStatuses_def exec_sql_def)
  ultimately show ?thesis using ne top by (metis prod.collapse)
qed

text \<open>
  \<^verbatim>\<open>UpdateStatuses\<close> gives a provider whose contracts were checked in the last day a reason that no other reason of these checks
  outnumbers, the share of the checks with that reason, and the counts of all reasons, which add up to the number of checks.  A provider
  without such a check keeps its row, and no other column of any provider changes.
\<close>

theorem status_is_most_frequent_reason:
  fixes env :: "('f, 'g) sql_env" and db :: "('f, 'g) database" and pk :: string and r :: "('f, 'g) provider_cols" and now :: time
  assumes "env_ok env" "map_of (db_providers db) pk = Some r"
  defines "reasons \<equiv> recent_reasons now db (pv_address r)"
  shows "\<exists>db'. sql_UpdateStatuses env None now db = (None, db') \<and>
    (if reasons = [] then map_of (db_providers db') pk = Some r
     else \<exists>q stats. q \<in> set reasons \<and> (\<forall>q' \<in> set reasons. count_list reasons q' \<le> count_list reasons q) \<and>
       sum_list (map snd stats) = int (length reasons) \<and>
       map_of (db_providers db') pk = Some (r\<lparr>pv_status := Some q, pv_status_ratio := se_ratio env (count_list reasons q) (length reasons),
         pv_statuses_reason_stats := stats\<rparr>))"
  unfolding reasons_def by (rule status_of_provider [OF assms(1,2)])

lemma recent_reasons_checked:
  assumes "\<And>k c. (k, c) \<in> set (db_storage_contracts db) \<Longrightarrow> snd k = address \<Longrightarrow> cn_reason c = Some q \<and> (\<exists>t. cn_reason_timestamp c = Some t \<and> now - minutes 1440 < t)"
  shows "recent_reasons now db address = replicate (length (filter (\<lambda>k. snd k = address) (map fst (db_storage_contracts db)))) q"
proof -
  have "List.map_filter (\<lambda>((_, provider), c). if provider = address \<and> (case cn_reason_timestamp c of None \<Rightarrow> False | Some t \<Rightarrow> now - minutes 1440 < t)
        then cn_reason c else None) t = replicate (length (filter (\<lambda>k. snd k = address) (map fst t))) q"
    if "set t \<subseteq> set (db_storage_contracts db)" for t
    using that
  proof (induction t)
    case (Cons x t)
    obtain a pa c where x: "x = ((a, pa), c)" by (metis surj_pair)
    then show ?case using Cons assms [of "(a, pa)" c] by (auto simp: List.map_filter_simps)
  qed (simp add: List.map_filter_simps)
  then show ?thesis by (simp add: recent_reasons_def)
qed

text \<open>
  C27. A pass that checked every contract of a provider with one outcome decides its status: when the rows of the commit have the same
  reason for all stored contracts of the provider's wallet, and the statuses are updated within a day, the provider's status is that reason
  with the full share of its contracts.
\<close>

theorem uniform_pass_sets_status:
  assumes "env_ok env" "check_rows_ok rows" "map_of (db_providers db) pk = Some r"
    and "\<forall>k \<in> dom (map_of (db_storage_contracts db)). snd k = pv_address r \<longrightarrow> reasons_of rows k = Some q"
    and "\<exists>k \<in> dom (map_of (db_storage_contracts db)). snd k = pv_address r"
    and "now2 < now1 + minutes 1440"
  shows "\<exists>db1 db2 n. sql_UpdateContractProofsChecks env None now1 rows db = (None, db1) \<and> sql_UpdateStatuses env None now2 db1 = (None, db2) \<and>
    0 < n \<and> map_option (\<lambda>r. (pv_status r, pv_status_ratio r)) (map_of (db_providers db2) pk) = Some (Some q, se_ratio env n n)"
proof -
  let ?db1 = "db\<lparr>db_storage_contracts := update_from (reasons_of rows) (\<lambda>n. set_reason now1 (Some n)) (db_storage_contracts db)\<rparr>"
  let ?n = "length (filter (\<lambda>k. snd k = pv_address r) (map fst (db_storage_contracts ?db1)))"
  have "cn_reason c = Some q \<and> (\<exists>t. cn_reason_timestamp c = Some t \<and> now2 - minutes 1440 < t)"
    if "(k, c) \<in> set (db_storage_contracts ?db1)" "snd k = pv_address r" for k c
  proof -
    have "k \<in> set (map fst (db_storage_contracts ?db1))"
      using imageI [OF that(1), of fst] by (simp only: set_map fst_conv)
    then have "k \<in> dom (map_of (db_storage_contracts db))" by (simp add: dom_map_of_conv_image_fst)
    then have "reasons_of rows k = Some q" using assms(4) that(2) by blast
    then show ?thesis using that(1) assms(6) by (auto simp: update_from_def set_reason_def split: option.splits)
  qed
  then have recent: "recent_reasons now2 ?db1 (pv_address r) = replicate ?n q" by (rule recent_reasons_checked)
  have pos: "0 < ?n" using assms(5) by (auto simp: filter_empty_conv dom_map_of_conv_image_fst)
  have r1: "map_of (db_providers ?db1) pk = Some r" using assms(3) by simp
  obtain db2 where db2: "sql_UpdateStatuses env None now2 ?db1 = (None, db2)"
    and out: "if replicate ?n q = [] then map_of (db_providers db2) pk = Some r
     else \<exists>q' stats. q' \<in> set (replicate ?n q) \<and> (\<forall>q'' \<in> set (replicate ?n q). count_list (replicate ?n q) q'' \<le> count_list (replicate ?n q) q') \<and>
       sum_list (map snd stats) = int (length (replicate ?n q)) \<and>
       map_of (db_providers db2) pk = Some (r\<lparr>pv_status := Some q', pv_status_ratio := se_ratio env (count_list (replicate ?n q) q') (length (replicate ?n q)),
         pv_statuses_reason_stats := stats\<rparr>)"
    using status_of_provider [OF assms(1) r1, of now2] unfolding recent by blast
  have "count_list (replicate m q) q = m" for m by (induction m) auto
  then have "map_option (\<lambda>r. (pv_status r, pv_status_ratio r)) (map_of (db_providers db2) pk) = Some (Some q, se_ratio env ?n ?n)"
    using out pos by auto
  then show ?thesis using checks_stored [OF assms(1,2)] db2 pos by blast
qed

theorem status_is_most_frequent_reason_witness:
  "\<exists>db'. sql_UpdateStatuses sample_env None 5 sample_db = (None, db') \<and>
     map_of (db_providers db') ''aa'' = Some (new_provider sample_env ''W1'' 0)"
proof -
  have "recent_reasons 5 sample_db ''W1'' = []" by (simp add: recent_reasons_def sample_db_def List.map_filter_simps)
  then show ?thesis
    using status_is_most_frequent_reason [OF sample_env_ok, of sample_db "''aa''" "new_provider sample_env ''W1'' 0" 5]
    by (auto simp: sample_db_def new_provider_def)
qed

theorem uniform_pass_sets_status_witness:
  "\<exists>db1 db2. sql_UpdateContractProofsChecks sample_env None 50 [sample_proofs_check ''C1'' ''W1'', sample_proofs_check ''C9'' ''W1''] sample_db = (None, db1) \<and>
     sql_UpdateStatuses sample_env None 60 db1 = (None, db2) \<and>
     map_option (\<lambda>r. (pv_status r, pv_status_ratio r)) (map_of (db_providers db2) ''aa'') = Some (Some 403, 100)"
proof -
  have dom: "dom (map_of (db_storage_contracts sample_db)) = {(''C1'', ''W1'')}" by (simp add: sample_db_def)
  have "map_of (db_providers sample_db) ''aa'' = Some (new_provider sample_env ''W1'' 0)" by (simp add: sample_db_def)
  then show ?thesis
    using uniform_pass_sets_status [OF sample_env_ok sample_checks_ok, of sample_db "''aa''" "new_provider sample_env ''W1'' 0" 403 60 50]
    by (auto simp: dom new_provider_def reasons_of_def check_row_key_def sample_proofs_check_def minutes_def) (auto simp: sample_env_def)
qed

end
