(* ===== verification/SqlReports.thy ===== *)
theory SqlReports
  imports SqlStore
begin

text \<open>
  What the reports of providers and workers do in the database: benchmarks and the rating, statuses and the uptime, new providers, and the
  pipeline events of a run.
\<close>

lemma not_Inr: "\<nexists>y. x = Inr y \<Longrightarrow> \<exists>e. x = Inl e"
  by (cases x) auto

lemma exec_sql_success: "exec_sql fault st db = (None, db') \<longleftrightarrow> fault = None \<and> st db = Inr db'"
  by (auto simp: exec_sql_def split: option.splits sum.splits)

section \<open>Benchmarks and rating\<close>

lemma joined_col_Some: "Some b \<in> set bs \<Longrightarrow> col b \<in> set (joined_col col bs)"
  by (force simp: joined_col_def)

lemma parse_speed_empty: "parse_speed_to_int (Some []) = Inl (ErrText ''invalid input syntax for type numeric'')"
  by (simp add: parse_speed_to_int_def decimal_def)

text \<open>One provider's speed that does not parse is in the way of every statement that reads all speeds.\<close>

lemma rating_sum_bad_speed:
  assumes "parse_speed_to_int (bc_qd64_disk_read_speed b) = Inl e \<or> parse_speed_to_int (bc_qd64_disk_write_speed b) = Inl e"
  shows "\<nexists>x. rating_of ops now r t (Some b) = Inr x"
proof -
  have "\<nexists>x. rating_sum ops now r t (Some b) = Inr x"
    using assms unfolding rating_sum_def Let_def by (auto simp: bind_sum_Inr)
  then show ?thesis by (auto simp: rating_of_def bind_sum_Inr)
qed

lemma bad_speed_stops_rating:
  assumes "(k, r) \<in> set (db_providers db)" "pv_is_initialized r" "map_of (db_benchmarks db) k = Some b"
    and "parse_speed_to_int (bc_qd64_disk_read_speed b) = Inl e"
  shows "\<exists>e. sql_UpdateRating env ops None now db = (Some e, db)"
proof -
  let ?row = "\<lambda>(pk, r). bind_sum (rating_of ops now r (map_of (db_telemetry db) pk) (map_of (db_benchmarks db) pk)) (\<lambda>x. Inr (pk, x))"
  have "\<nexists>x. ?row (k, r) = Inr x"
    using rating_sum_bad_speed [OF disjI1 [OF assms(4)], of ops now r] assms(3) by (auto simp: bind_sum_Inr)
  then have "\<nexists>xs. traverse ?row (filter (\<lambda>(pk, r). pv_is_initialized r) (db_providers db)) = Inr xs"
    unfolding traverse_ok using assms(1,2) by fastforce
  then obtain e where "traverse ?row (filter (\<lambda>(pk, r). pv_is_initialized r) (db_providers db)) = Inl e" using not_Inr by blast
  then show ?thesis by (simp add: sql_UpdateRating_def exec_sql_def)
qed

lemma bad_speed_stops_filters:
  assumes "(k, r) \<in> set (db_providers db)" "pv_is_initialized r" "pv_rating r \<noteq> None" "map_of (db_benchmarks db) k = Some b"
    and "parse_speed_to_int (bc_qd64_disk_read_speed b) = Inl e"
  shows "\<exists>e. sql_GetFiltersRange ops None sord now db = Inl e"
proof -
  let ?bs = "map (\<lambda>(pk, r). map_of (db_benchmarks db) pk) (filter (\<lambda>(pk, r). pv_is_initialized r \<and> pv_rating r \<noteq> None) (db_providers db))"
  have "Some b \<in> set ?bs" using assms(1-4) by (force simp: image_iff)
  then have "bc_qd64_disk_read_speed b \<in> set (joined_col bc_qd64_disk_read_speed ?bs)" by (rule joined_col_Some)
  then have "\<nexists>xs. traverse parse_speed_to_int (joined_col bc_qd64_disk_read_speed ?bs) = Inr xs"
    unfolding traverse_ok using assms(5) by force
  then have "\<nexists>x. sql_GetFiltersRange ops None sord now db = Inr x"
    unfolding sql_GetFiltersRange_def Let_def by (auto simp: bind_sum_Inr)
  then show ?thesis by (rule not_Inr)
qed

lemma benchmark_insert_value:
  "benchmark_insert env (json_BenchmarkUpdate env u) = Inr (k, cols) \<Longrightarrow>
     k = ToLower (bu_PublicKey u) \<and> bc_qd64_disk_read_speed cols = Some (bu_DiskReadSpeed u) \<and> bc_qd64_disk_write_speed cols = Some (bu_DiskWriteSpeed u)"
  by (auto simp: benchmark_insert_def json_BenchmarkUpdate_def Let_def sql bind_sum_Inr)

lemma UpdateBenchmarks_stored:
  assumes "sql_UpdateBenchmarks env None now us db = (None, db')" "u \<in> set us"
  shows "db_providers db' = db_providers db"
    and "\<exists>cols. map_of (db_benchmarks db') (ToLower (bu_PublicKey u)) = Some cols \<and> bc_qd64_disk_read_speed cols = Some (bu_DiskReadSpeed u)"
proof -
  have "us \<noteq> []" using assms(2) by auto
  then obtain rows t where rows: "traverse (benchmark_insert env) (map (json_BenchmarkUpdate env) us) = Inr rows"
    and t: "upsert (\<lambda>old new. new) rows (db_benchmarks db) = Inr t"
    and db': "db' = db\<lparr>db_benchmarks := t, db_benchmarks_history := db_benchmarks_history db @ archived (benchmark_changed env) now rows (db_benchmarks db)\<rparr>"
    using assms(1) unfolding sql_UpdateBenchmarks_def by (auto simp: exec_sql_success bind_sum_Inr)
  show "db_providers db' = db_providers db" by (simp add: db')
  obtain k cols where kc: "(k, cols) \<in> set rows" "benchmark_insert env (json_BenchmarkUpdate env u) = Inr (k, cols)"
    using list_all2_sets(1) [OF rows [unfolded traverse_Inr], of "json_BenchmarkUpdate env u"] assms(2) by auto
  have "map_of rows k = Some cols" using kc(1) upsert_lookup(3) [OF t] by simp
  then have "map_of t k = Some cols" using upsert_lookup(1) [OF t, of k] by (simp split: option.splits)
  then show "\<exists>cols. map_of (db_benchmarks db') (ToLower (bu_PublicKey u)) = Some cols \<and> bc_qd64_disk_read_speed cols = Some (bu_DiskReadSpeed u)"
    using benchmark_insert_value [OF kc(2)] by (auto simp: db')
qed

text \<open>
  C31. A benchmark report without the entry \<^verbatim>\<open>qd64\<close> stops the rating of all providers.  The worker stores an empty speed for it;
  \<^verbatim>\<open>parse_speed_to_int\<close> fails on the empty text, so from then on \<^verbatim>\<open>UpdateRating\<close> fails and rates nobody, and once the reporting provider has
  a rating \<^verbatim>\<open>GetFiltersRange\<close> fails too.
\<close>

theorem benchmark_without_qd64_stops_rating:
  assumes "sql_UpdateBenchmarks env None now (map (benchmark_row marshalDisk marshalNetwork rfc3339) bs) db = (None, db')"
    and "b \<in> set bs" "map_of (case bq_Disk b of None \<Rightarrow> [] | Some m \<Rightarrow> m) ''qd64'' = None"
    and "map_of (db_providers db) (ToLower (bq_PubKey b)) = Some r" "pv_is_initialized r"
  shows "(\<exists>e. sql_UpdateRating env ops None now2 db' = (Some e, db')) \<and>
    (pv_rating r \<noteq> None \<longrightarrow> (\<exists>e. sql_GetFiltersRange ops None sord now2 db' = Inl e))"
proof -
  let ?u = "benchmark_row marshalDisk marshalNetwork rfc3339 b"
  have u: "bu_PublicKey ?u = bq_PubKey b" "bu_DiskReadSpeed ?u = []" using assms(3) by (simp_all add: benchmark_row_def Let_def)
  obtain cols where cols: "map_of (db_benchmarks db') (ToLower (bq_PubKey b)) = Some cols" "bc_qd64_disk_read_speed cols = Some []"
    using UpdateBenchmarks_stored(2) [OF assms(1), of ?u] assms(2) u by auto
  have r: "(ToLower (bq_PubKey b), r) \<in> set (db_providers db')"
    using map_of_SomeD [OF assms(4)] UpdateBenchmarks_stored(1) [OF assms(1), of ?u] assms(2) by simp
  note bad = parse_speed_empty [folded cols(2)]
  show ?thesis using bad_speed_stops_rating [OF r assms(5) cols(1) bad] bad_speed_stops_filters [OF r assms(5) _ cols(1) bad] by blast
qed

text \<open>
  \<^verbatim>\<open>GetFiltersRange\<close> has no answer while no provider is both initialised and rated: the ranges of the registration time and of the
  bag sizes have no default, and NULL cannot be scanned into their fields.
\<close>

theorem filters_range_needs_rated_provider:
  assumes "\<forall>(pk, r) \<in> set (db_providers db). pv_is_initialized r \<longrightarrow> pv_rating r = None"
  shows "\<exists>e. sql_GetFiltersRange ops fault sord now db = Inl e"
proof -
  have none: "filter (\<lambda>(pk, r). pv_is_initialized r \<and> pv_rating r \<noteq> None) (db_providers db) = []"
    using assms by (auto simp: filter_empty_conv)
  have "scan_not_null (agg_max (\<le>) ([] :: int option list)) = Inl (ErrText ''cannot scan NULL'')"
    by (simp add: agg_max_def agg_def scan_not_null_def List.map_filter_simps)
  then have "\<nexists>x. sql_GetFiltersRange ops fault sord now db = Inr x"
    unfolding sql_GetFiltersRange_def Let_def none by (auto simp: bind_sum_Inr)
  then show ?thesis by (rule not_Inr)
qed

definition sample_ops :: "(int, int) float_ops" where
  "sample_ops =
     \<lparr>fo_of_rat = floor, fo_widen = \<lambda>x. x, fo_narrow = Inr, fo_add = \<lambda>x y. Inr (x + y), fo_sub = \<lambda>x y. Inr (x - y), fo_mul = \<lambda>x y. Inr (x * y),
      fo_div = \<lambda>x y. Inr (x div y), fo_pow = \<lambda>x y. Inr (x ^ nat y), fo_log10 = Inr, fo_le = (\<le>), fo_le4 = (\<le>), fo_numdiv = (/), fo_round = \<lambda>x. x\<rparr>"

definition sample_server :: "(int, int) server_info" where
  "sample_server = \<lparr>srv_CC = [], srv_Country = [], srv_D = 0, srv_Host = [], srv_ID = [], srv_Lat = [], srv_Lon = [], srv_Name = [],
     srv_Sponsor = [], srv_URL = [], srv_Latency = 0\<rparr>"

definition sample_client :: client_info where
  "sample_client = \<lparr>cli_Country = ''DE'', cli_IP = [], cli_ISP = ''isp'', cli_ISPDownloadAvg = [], cli_ISPUploadAvg = [], cli_ISPRating = [],
     cli_Lat = [], cli_Lon = [], cli_LoggedIn = [], cli_Rating = []\<rparr>"

definition sample_benchmark :: "(int, int) benchmarks_request" where
  "sample_benchmark = \<lparr>bq_PubKey = ''aa'', bq_Disk = Some [],
     bq_Network = \<lparr>nb_Server = sample_server, nb_Client = sample_client, nb_Share = [], nb_Timestamp = [], nb_BytesReceived = 0, nb_BytesSent = 0,
       nb_Download = 10, nb_Upload = 20, nb_Ping = 3\<rparr>,
     bq_Timestamp = 5, bq_XRealIP = ''1.2.3.4''\<rparr>"

definition rated_db :: "(int, int) database" where
  "rated_db = empty_database\<lparr>db_providers := [(''aa'', (new_provider sample_env ''W1'' 0)\<lparr>pv_is_initialized := True, pv_rating := Some 4\<rparr>)]\<rparr>"

lemma sample_benchmark_stored:
  "\<exists>db'. sql_UpdateBenchmarks sample_env None 7 (map (benchmark_row (\<lambda>_. Inr ''{}'') (\<lambda>_. Inr ''{}'') (\<lambda>t. Itoa (uint t))) [sample_benchmark]) rated_db = (None, db')"
  by (simp add: sql_UpdateBenchmarks_def exec_sql_def benchmark_row_def sample_benchmark_def sample_client_def json_BenchmarkUpdate_def
      benchmark_insert_def Let_def sql cast_jsonb_def cast_timestamptz_def cast_float_def text_null_def assign_varchar_def varchar_short
      ParseInt64_Itoa sample_env_def upsert_def scalar_text_def)

theorem benchmark_without_qd64_stops_rating_witness:
  "\<exists>db'. sql_UpdateBenchmarks sample_env None 7 (map (benchmark_row (\<lambda>_. Inr ''{}'') (\<lambda>_. Inr ''{}'') (\<lambda>t. Itoa (uint t))) [sample_benchmark]) rated_db = (None, db') \<and>
     (\<exists>e. sql_UpdateRating sample_env sample_ops None 9 db' = (Some e, db')) \<and> (\<exists>e. sql_GetFiltersRange sample_ops None rev 9 db' = Inl e)"
proof -
  obtain db' where db': "sql_UpdateBenchmarks sample_env None 7
      (map (benchmark_row (\<lambda>_. Inr ''{}'') (\<lambda>_. Inr ''{}'') (\<lambda>t. Itoa (uint t))) [sample_benchmark]) rated_db = (None, db')"
    using sample_benchmark_stored by blast
  have "map_of (db_providers rated_db) (ToLower (bq_PubKey sample_benchmark)) =
      Some ((new_provider sample_env ''W1'' 0)\<lparr>pv_is_initialized := True, pv_rating := Some 4\<rparr>)"
    by (simp add: rated_db_def sample_benchmark_def ToLower_def lower_char_def)
  then show ?thesis
    using benchmark_without_qd64_stops_rating [OF db', of sample_benchmark] db' by (auto simp: sample_benchmark_def)
qed

theorem filters_range_needs_rated_provider_witness: "\<exists>e. sql_GetFiltersRange sample_ops None rev 9 sample_db = Inl e"
  by (rule filters_range_needs_rated_provider) (simp add: sample_db_def new_provider_def)

section \<open>Statuses and uptime\<close>

definition status_key :: "provider_status_update \<Rightarrow> string" where "status_key p = ToLower (psu_Pubkey p)"

lemma status_row_value:
  "length (psu_Pubkey p) \<le> 64 \<Longrightarrow> status_row now (json_ProviderStatusUpdate p) = Inr (status_key p, now, psu_IsOnline p)"
  by (simp add: status_row_def json_ProviderStatusUpdate_def sql varchar_short status_key_def ToLower_def)

text \<open>The counts after one more check.\<close>

definition counted :: "bool \<Rightarrow> (nat \<times> nat) option \<Rightarrow> nat \<times> nat" where
  "counted online c = (case c of None \<Rightarrow> (of_bool online, 1) | Some (m, n) \<Rightarrow> (m + of_bool online, n + 1))"

lemma uptime_counts_more:
  assumes "filter (\<lambda>(k, _). k = pk) rows = [(pk, t, online)]"
  shows "uptime_counts (db\<lparr>db_statuses_history := db_statuses_history db @ rows\<rparr>) pk = Some (counted online (uptime_counts db pk))"
  using assms by (simp add: uptime_counts_def counted_def Let_def del: filter_filter)

text \<open>
  One round of pings.  A batch of statuses with distinct keys of at most 64 characters is stored: every provider of it has the new
  status and time, its counts of all and of online checks grow by one where it was online, and \<^verbatim>\<open>last_online\<close> is the time of the round for
  those that were online and unchanged for all others.  A batch that names a provider twice, in whatever case of letters, is refused as a whole.
\<close>

theorem AddStatuses_round:
  assumes "\<forall>p \<in> set ps. length (psu_Pubkey p) \<le> 64" "ps \<noteq> []"
  shows "(\<not> distinct (map status_key ps) \<longrightarrow> (\<exists>e. sql_AddStatuses None now ps db = (Some e, db))) \<and>
    (distinct (map status_key ps) \<longrightarrow> (\<exists>db'. sql_AddStatuses None now ps db = (None, db') \<and>
       (\<forall>p \<in> set ps. map_of (db_statuses db') (status_key p) = Some (now, psu_IsOnline p) \<and>
          uptime_counts db' (status_key p) = Some (counted (psu_IsOnline p) (uptime_counts db (status_key p))) \<and>
          map_of (db_last_online db') (status_key p) = (if psu_IsOnline p then Some now else map_of (db_last_online db) (status_key p)))))"
proof -
  let ?rows = "map (\<lambda>p. (status_key p, now, psu_IsOnline p)) ps"
  have rows: "traverse (status_row now) (map json_ProviderStatusUpdate ps) = Inr ?rows"
    using assms(1) by (simp add: traverse_map traverse_total status_row_value)
  have keys: "map fst ?rows = map status_key ps" by simp
  have run: "sql_AddStatuses None now ps db =
      (case upsert (\<lambda>old new. new) ?rows (db_statuses db) of Inl e \<Rightarrow> (Some e, db) | Inr st \<Rightarrow> (None, fold status_written ?rows (db\<lparr>db_statuses := st\<rparr>)))"
    using assms(2) by (simp add: sql_AddStatuses_def exec_sql_def rows split: sum.split)
  show ?thesis
  proof (intro conjI impI)
    assume "\<not> distinct (map status_key ps)"
    then show "\<exists>e. sql_AddStatuses None now ps db = (Some e, db)" unfolding run upsert_def keys by simp
  next
    assume d: "distinct (map status_key ps)"
    obtain st where st: "upsert (\<lambda>old new. new) ?rows (db_statuses db) = Inr st" using upsert_total [of ?rows] d by (auto simp: comp_def)
    have "map_of (db_statuses db') (status_key p) = Some (now, psu_IsOnline p) \<and>
          uptime_counts db' (status_key p) = Some (counted (psu_IsOnline p) (uptime_counts db (status_key p))) \<and>
          map_of (db_last_online db') (status_key p) = (if psu_IsOnline p then Some now else map_of (db_last_online db) (status_key p))"
      if p: "p \<in> set ps" and db': "db' = fold status_written ?rows (db\<lparr>db_statuses := st\<rparr>)" for p db'
    proof -
      have look: "map_of ?rows (status_key p) = Some (now, psu_IsOnline p)" using map_of_distinct [OF d p, of "\<lambda>p. (now, psu_IsOnline p)"] by simp
      have one: "filter (\<lambda>(k, _). k = status_key p) ?rows = [(status_key p, now, psu_IsOnline p)]"
        using d p by (induction ps) (auto simp: filter_empty_conv image_iff)
      have "uptime_counts db' (status_key p) = uptime_counts (db\<lparr>db_statuses_history := db_statuses_history db @ ?rows\<rparr>) (status_key p)"
        by (simp add: db' fold_status_written uptime_counts_def)
      then have "uptime_counts db' (status_key p) = Some (counted (psu_IsOnline p) (uptime_counts db (status_key p)))"
        by (simp only: uptime_counts_more [OF one])
      moreover have "map_of (db_statuses db') (status_key p) = Some (now, psu_IsOnline p)"
        using upsert_lookup(1) [OF st, of "status_key p"] look by (simp add: db' fold_status_written split: option.splits)
      moreover have "map_of (db_last_online db') (status_key p) = (if psu_IsOnline p then Some now else map_of (db_last_online db) (status_key p))"
        using fold_last_online [of ?rows "db_last_online db" "status_key p"] d look by (simp add: db' fold_status_written comp_def)
      ultimately show ?thesis by blast
    qed
    then show "\<exists>db'. sql_AddStatuses None now ps db = (None, db') \<and>
       (\<forall>p \<in> set ps. map_of (db_statuses db') (status_key p) = Some (now, psu_IsOnline p) \<and>
          uptime_counts db' (status_key p) = Some (counted (psu_IsOnline p) (uptime_counts db (status_key p))) \<and>
          map_of (db_last_online db') (status_key p) = (if psu_IsOnline p then Some now else map_of (db_last_online db) (status_key p)))"
      unfolding run st by simp
  qed
qed

definition sample_status :: "string \<Rightarrow> bool \<Rightarrow> provider_status_update" where
  "sample_status pk online = \<lparr>psu_Pubkey = pk, psu_IsOnline = online\<rparr>"

theorem AddStatuses_round_witness:
  "\<exists>db'. sql_AddStatuses None 9 [sample_status ''aa'' True, sample_status ''bb'' False] sample_db = (None, db') \<and>
     uptime_counts db' ''aa'' = Some (1, 1) \<and> map_of (db_last_online db') ''aa'' = Some 9 \<and> uptime_counts db' ''bb'' = Some (0, 1)"
proof -
  have keys: "status_key (sample_status ''aa'' True) = ''aa''" "status_key (sample_status ''bb'' False) = ''bb''"
    by (simp_all add: status_key_def sample_status_def ToLower_def lower_char_def)
  have "uptime_counts sample_db k = None" for k by (simp add: uptime_counts_def sample_db_def empty_database_def)
  then show ?thesis
    using AddStatuses_round [of "[sample_status ''aa'' True, sample_status ''bb'' False]" 9 sample_db]
    by (auto simp: keys counted_def) (auto simp: sample_status_def)
qed

section \<open>New providers\<close>

definition creatable :: "('f, 'g) sql_env \<Rightarrow> provider_create \<Rightarrow> bool" where
  "creatable env p \<longleftrightarrow> length (pc_Pubkey p) \<le> 64 \<and> length (pc_Address p) \<le> 64 \<and> se_parseTime env (se_formatTime env (pc_RegisteredAt p)) = Some (pc_RegisteredAt p)"

definition created :: "('f, 'g) sql_env \<Rightarrow> provider_create \<Rightarrow> string \<times> ('f, 'g) provider_cols" where
  "created env p = (ToLower (pc_Pubkey p), new_provider env (pc_Address p) (pc_RegisteredAt p))"

lemma created_row_value: "creatable env p \<Longrightarrow> created_row env (json_ProviderCreate (se_formatTime env) p) = Inr (created env p)"
  by (simp add: created_row_def json_ProviderCreate_def sql varchar_short creatable_def cast_timestamptz_def created_def ToLower_def)

text \<open>Two rows that the unique constraints of the table do not let stand together.\<close>

definition clash :: "string \<times> ('f, 'g) provider_cols \<Rightarrow> string \<times> ('f, 'g) provider_cols \<Rightarrow> bool" where
  "clash r s \<longleftrightarrow> fst r = fst s \<or> pv_address (snd r) = pv_address (snd s)"

lemma insert_provider_clash: "insert_provider row t = (if \<exists>s \<in> set t. clash row s then t else t @ [row])"
  by (auto simp: insert_provider_def clash_def image_iff)

lemma nths_agree: "(\<And>i. i < length xs \<Longrightarrow> i \<in> A \<longleftrightarrow> i \<in> B) \<Longrightarrow> nths xs A = nths xs B"
  by (induction xs rule: rev_induct) (simp_all add: nths_append)

lemma fold_insert_provider:
  "\<exists>I \<subseteq> {..<length rows}. fold insert_provider rows t = t @ nths rows I \<and>
     (\<forall>i < length rows. i \<in> I \<longleftrightarrow> (\<forall>s \<in> set t. \<not> clash (rows ! i) s) \<and> (\<forall>j \<in> I. j < i \<longrightarrow> \<not> clash (rows ! i) (rows ! j)))"
proof (induction rows rule: rev_induct)
  case (snoc r rows)
  let ?n = "length rows"
  obtain I where I: "I \<subseteq> {..<?n}" "fold insert_provider rows t = t @ nths rows I"
    "\<forall>i < ?n. i \<in> I \<longleftrightarrow> (\<forall>s \<in> set t. \<not> clash (rows ! i) s) \<and> (\<forall>j \<in> I. j < i \<longrightarrow> \<not> clash (rows ! i) (rows ! j))"
    using snoc by blast
  have kept: "set (nths rows I) = (\<lambda>j. rows ! j) ` I" using I(1) by (auto simp: set_nths)
  have fold: "fold insert_provider (rows @ [r]) t = (if \<exists>s \<in> set (t @ nths rows I). clash r s then t @ nths rows I else (t @ nths rows I) @ [r])"
    by (simp only: fold_append fold_simps comp_apply I(2) insert_provider_clash id_apply)
  have nths: "nths (rows @ [r]) J = nths rows J @ (if ?n \<in> J then [r] else [])" for J by (simp add: nths_append)
  have same: "nths rows (insert ?n I) = nths rows I" by (rule nths_agree) auto
  have old: "i < ?n \<Longrightarrow> (rows @ [r]) ! i = rows ! i" for i by (simp add: nth_append)
  show ?case
  proof (cases "\<exists>s \<in> set (t @ nths rows I). clash r s")
    case True
    then show ?thesis using I fold old kept
      by (intro exI [of _ I]) (auto simp: nths less_Suc_eq subset_iff)
  next
    case False
    then show ?thesis using I fold old kept same
      by (intro exI [of _ "insert ?n I"]) (auto simp: nths less_Suc_eq subset_iff)
  qed
qed simp

lemma AddProviders_run:
  "list_all (creatable env) ps \<Longrightarrow>
     sql_AddProviders env None ps db = (None, db\<lparr>db_providers := fold insert_provider (map (created env) ps) (db_providers db)\<rparr>)"
  by (simp add: sql_AddProviders_def exec_sql_def traverse_map traverse_total [where g = "created env"] created_row_value list_all_iff)

lemma clash_created:
  "clash (created env p) (created env q) \<longleftrightarrow> ToLower (pc_Pubkey p) = ToLower (pc_Pubkey q) \<or> pc_Address p = pc_Address q"
  "clash (created env p) s \<longleftrightarrow> ToLower (pc_Pubkey p) = fst s \<or> pc_Address p = pv_address (snd s)"
  by (simp_all add: clash_def created_def new_provider_def)

text \<open>
  C29. Registering providers appends to the table, in their order, exactly those rows of the batch whose key (in lower case) and
  wallet address are neither in the table nor in an appended row before them.  The other rows are dropped although the statement
  reports success, and nothing else changes.
\<close>

theorem AddProviders_registers:
  assumes "list_all (creatable env) ps"
  shows "\<exists>I \<subseteq> {..<length ps}.
    sql_AddProviders env None ps db = (None, db\<lparr>db_providers := db_providers db @ nths (map (created env) ps) I\<rparr>) \<and>
    (\<forall>i < length ps. i \<in> I \<longleftrightarrow>
       (\<forall>(k, r) \<in> set (db_providers db). k \<noteq> ToLower (pc_Pubkey (ps ! i)) \<and> pv_address r \<noteq> pc_Address (ps ! i)) \<and>
       (\<forall>j \<in> I. j < i \<longrightarrow> ToLower (pc_Pubkey (ps ! j)) \<noteq> ToLower (pc_Pubkey (ps ! i)) \<and> pc_Address (ps ! j) \<noteq> pc_Address (ps ! i)))"
proof -
  let ?t = "db_providers db"
  obtain I where I: "I \<subseteq> {..<length ps}" "fold insert_provider (map (created env) ps) ?t = ?t @ nths (map (created env) ps) I"
    "\<forall>i < length ps. i \<in> I \<longleftrightarrow> (\<forall>s \<in> set ?t. \<not> clash (map (created env) ps ! i) s) \<and>
       (\<forall>j \<in> I. j < i \<longrightarrow> \<not> clash (map (created env) ps ! i) (map (created env) ps ! j))"
    using fold_insert_provider [of "map (created env) ps" ?t] unfolding length_map by blast
  have "i \<in> I \<longleftrightarrow>
       (\<forall>(k, r) \<in> set ?t. k \<noteq> ToLower (pc_Pubkey (ps ! i)) \<and> pv_address r \<noteq> pc_Address (ps ! i)) \<and>
       (\<forall>j \<in> I. j < i \<longrightarrow> ToLower (pc_Pubkey (ps ! j)) \<noteq> ToLower (pc_Pubkey (ps ! i)) \<and> pc_Address (ps ! j) \<noteq> pc_Address (ps ! i))"
    if i: "i < length ps" for i
  proof -
    have "map (created env) ps ! j = created env (ps ! j)" if "j \<in> I" for j using that I(1) by auto
    then have "(\<forall>j \<in> I. j < i \<longrightarrow> \<not> clash (created env (ps ! i)) (map (created env) ps ! j)) \<longleftrightarrow>
        (\<forall>j \<in> I. j < i \<longrightarrow> ToLower (pc_Pubkey (ps ! j)) \<noteq> ToLower (pc_Pubkey (ps ! i)) \<and> pc_Address (ps ! j) \<noteq> pc_Address (ps ! i))"
      by (auto simp: clash_created(1))
    moreover have "(\<forall>s \<in> set ?t. \<not> clash (created env (ps ! i)) s) \<longleftrightarrow>
        (\<forall>(k, r) \<in> set ?t. k \<noteq> ToLower (pc_Pubkey (ps ! i)) \<and> pv_address r \<noteq> pc_Address (ps ! i))"
      by (auto simp: clash_created(2))
    moreover have "map (created env) ps ! i = created env (ps ! i)" using i by simp
    ultimately show ?thesis using I(3) i by simp
  qed
  then show ?thesis using AddProviders_run [OF assms, of db] I(1,2) by (intro exI [of _ I]) simp
qed

theorem AddProviders_registers_witness:
  "snd (sql_AddProviders sample_env None [sample_create ''cc'' ''W3'', sample_create ''dd'' ''W1'', sample_create ''CC'' ''W4''] sample_db) =
     sample_db\<lparr>db_providers := db_providers sample_db @ [created sample_env (sample_create ''cc'' ''W3'')]\<rparr>"
proof -
  let ?ps = "[sample_create ''cc'' ''W3'', sample_create ''dd'' ''W1'', sample_create ''CC'' ''W4'']"
  have "list_all (creatable sample_env) ?ps"
    by (simp add: creatable_def sample_create_def sample_env_def ParseInt64_Itoa)
  from AddProviders_registers [OF this, of sample_db]
  obtain I where I: "I \<subseteq> {..<length ?ps}"
    and run: "sql_AddProviders sample_env None ?ps sample_db =
      (None, sample_db\<lparr>db_providers := db_providers sample_db @ nths (map (created sample_env) ?ps) I\<rparr>)"
    and kept: "\<forall>i < length ?ps. i \<in> I \<longleftrightarrow>
       (\<forall>(k, r) \<in> set (db_providers sample_db). k \<noteq> ToLower (pc_Pubkey (?ps ! i)) \<and> pv_address r \<noteq> pc_Address (?ps ! i)) \<and>
       (\<forall>j \<in> I. j < i \<longrightarrow> ToLower (pc_Pubkey (?ps ! j)) \<noteq> ToLower (pc_Pubkey (?ps ! i)) \<and> pc_Address (?ps ! j) \<noteq> pc_Address (?ps ! i))"
    by (elim exE conjE) (rule that)
  have low: "ToLower ''cc'' = ''cc''" "ToLower ''CC'' = ''cc''" by code_simp+
  have stored: "set (db_providers sample_db) = {(''aa'', new_provider sample_env ''W1'' 0), (''bb'', new_provider sample_env ''W2'' 0)}"
    by (simp add: sample_db_def)
  have w: "pv_address (new_provider sample_env a 0) = a" for a by (simp add: new_provider_def)
  have c: "pc_Pubkey (sample_create k a) = k" "pc_Address (sample_create k a) = a" for k a by (simp_all add: sample_create_def)
  have "0 \<in> I" using spec [OF kept, of 0] by (simp add: stored w c low)
  moreover have "1 \<notin> I" using spec [OF kept, of 1] by (simp add: stored w c)
  moreover have "2 \<notin> I" using spec [OF kept, of 2] \<open>0 \<in> I\<close> by (auto simp: c low)
  ultimately have "nths (map (created sample_env) ?ps) I = [created sample_env (sample_create ''cc'' ''W3'')]"
    by (simp add: nths_Cons numeral_2_eq_2)
  then show ?thesis using run by (simp only: snd_conv)
qed

section \<open>Pipeline events\<close>

definition event_fits :: "provider_pipeline_event \<Rightarrow> bool" where
  "event_fits e \<longleftrightarrow>
     length (ppe_ProviderPubkey e) \<le> 64 \<and> length (ppe_Stage e) \<le> 64 \<and> length (ppe_RunID e) \<le> 128 \<and> length (ppe_Worker e) \<le> 64 \<and>
     (case ppe_ReasonCode e of None \<Rightarrow> True | Some n \<Rightarrow> - (2 ^ 31) \<le> n \<and> n < 2 ^ 31)"

definition event_row :: "time \<Rightarrow> provider_pipeline_event \<Rightarrow> provider_event_row" where
  "event_row now e =
     \<lparr>per_pubkey = ppe_ProviderPubkey e, per_status = status_text (ppe_Status e), per_stage = ppe_Stage e, per_reason_code = ppe_ReasonCode e,
      per_error_message = NULLIF (ppe_ErrorMessage e) [], per_run_id = ppe_RunID e, per_worker = ppe_Worker e, per_created_at = now\<rparr>"

lemma Itoa_nonempty: "Itoa n \<noteq> []"
proof -
  have "nat_Itoa m \<noteq> []" for m using nat_Itoa_start [of m] by auto
  then show ?thesis by (simp add: Itoa_def)
qed

lemma provider_event_value: "event_fits e \<Longrightarrow> provider_event now (json_ProviderPipelineEvent e) = Inr (event_row now e)"
proof -
  assume fits: "event_fits e"
  let ?j = "json_ProviderPipelineEvent e"
  have texts: "j_text ?j ''provider_pubkey'' = Some (ppe_ProviderPubkey e)" "j_text ?j ''stage'' = Some (ppe_Stage e)"
    "j_text ?j ''run_id'' = Some (ppe_RunID e)" "j_text ?j ''worker'' = Some (ppe_Worker e)" "j_text ?j ''status'' = Some (status_text (ppe_Status e))"
    "j_text ?j ''error_message'' = ppe_ErrorMessage e" "j_text ?j ''reason_code'' = map_option Itoa (ppe_ReasonCode e)"
    by (cases "ppe_ReasonCode e"; cases "ppe_ErrorMessage e"; simp add: json_ProviderPipelineEvent_def omit_nil_def sql)+
  have fit: "varchar 64 (ppe_ProviderPubkey e) = Inr (ppe_ProviderPubkey e)" "varchar 64 (ppe_Stage e) = Inr (ppe_Stage e)"
    "varchar 128 (ppe_RunID e) = Inr (ppe_RunID e)" "varchar 64 (ppe_Worker e) = Inr (ppe_Worker e)"
    using fits by (auto simp: event_fits_def intro!: varchar_short)
  have st: "event_status ?j = Inr (status_text (ppe_Status e))"
    by (cases "ppe_Status e") (simp_all add: event_status_def text_col_def texts status_text_def varchar_short)
  have code: "cast_int4 (NULLIF (map_option Itoa (ppe_ReasonCode e)) []) = Inr (ppe_ReasonCode e)"
  proof (cases "ppe_ReasonCode e")
    case (Some n)
    then have "- (2 ^ 31) \<le> n" "n < 2 ^ 31" using fits by (auto simp: event_fits_def)
    then show ?thesis using Some Itoa_nonempty [of n] cast_int_Itoa [of "2 ^ 31" n "''integer''"] by (auto simp: NULLIF_def cast_int4_def)
  qed (simp add: NULLIF_def)
  show ?thesis by (simp add: provider_event_def text_col_def texts fit st code event_row_def)
qed

lemma InsertProviderPipelineEvents_run:
  "list_all event_fits es \<Longrightarrow> sql_InsertProviderPipelineEvents None now es db =
     (None, db\<lparr>db_provider_pipeline_events := db_provider_pipeline_events db @ map (event_row now) es\<rparr>)"
  by (simp add: sql_InsertProviderPipelineEvents_def exec_sql_def traverse_map traverse_total [where g = "event_row now"] provider_event_value list_all_iff)

lemma text_status_text [simp]: "text_status (status_text st) = st"
  by (cases st) (simp_all add: text_status_def status_text_def)

lemma last_event_newest:
  assumes "env_ok env" "last_event env db pk = Some e"
  shows "e \<in> set (db_provider_pipeline_events db)" "per_pubkey e = pk"
    "\<And>e'. e' \<in> set (db_provider_pipeline_events db) \<Longrightarrow> per_pubkey e' = pk \<Longrightarrow> per_created_at e' \<le> per_created_at e"
proof -
  let ?own = "filter (\<lambda>e. per_pubkey e = pk) (db_provider_pipeline_events db)"
  let ?new = "filter (\<lambda>e. \<forall>e' \<in> set ?own. per_created_at e' \<le> per_created_at e) ?own"
  have "?new \<noteq> []" and e: "e = ?new ! se_pick env (length ?new)"
    using assms(2) unfolding last_event_def Let_def by (simp_all split: if_splits)
  then have "se_pick env (length ?new) < length ?new" using assms(1) unfolding env_ok_def by blast
  then have "e \<in> set ?new" unfolding e by (rule nth_mem)
  then show "e \<in> set (db_provider_pipeline_events db)" "per_pubkey e = pk"
    "\<And>e'. e' \<in> set (db_provider_pipeline_events db) \<Longrightarrow> per_pubkey e' = pk \<Longrightarrow> per_created_at e' \<le> per_created_at e"
    by auto
qed

lemma last_event_none: "last_event env db pk = None \<longleftrightarrow> pk \<notin> per_pubkey ` set (db_provider_pipeline_events db)"
proof
  let ?own = "filter (\<lambda>e. per_pubkey e = pk) (db_provider_pipeline_events db)"
  assume none: "last_event env db pk = None"
  show "pk \<notin> per_pubkey ` set (db_provider_pipeline_events db)"
  proof
    assume "pk \<in> per_pubkey ` set (db_provider_pipeline_events db)"
    then have "per_created_at ` set ?own \<noteq> {}" by auto
    then have "Max (per_created_at ` set ?own) \<in> per_created_at ` set ?own" by (intro Max_in) simp_all
    then obtain e where e: "e \<in> set ?own" "Max (per_created_at ` set ?own) = per_created_at e" by auto
    have "per_created_at e' \<le> per_created_at e" if "e' \<in> set ?own" for e' using that e(2) by (metis Max_ge finite_imageI imageI List.finite_set)
    then have "e \<in> set (filter (\<lambda>e. \<forall>e' \<in> set ?own. per_created_at e' \<le> per_created_at e) ?own)" using e(1) by simp
    then have "filter (\<lambda>e. \<forall>e' \<in> set ?own. per_created_at e' \<le> per_created_at e) ?own \<noteq> []" by (metis empty_iff list.set(1))
    then show False using none unfolding last_event_def Let_def by simp
  qed
next
  assume "pk \<notin> per_pubkey ` set (db_provider_pipeline_events db)"
  then have "filter (\<lambda>e. per_pubkey e = pk) (db_provider_pipeline_events db) = []" by (auto simp: filter_empty_conv)
  then show "last_event env db pk = None" by (simp add: last_event_def)
qed

lemma map_of_map_filter:
  "map_of (List.map_filter (\<lambda>pk. if P pk then map_option (\<lambda>e. (pk, g e)) (f pk) else None) ks) k =
     (if k \<in> set ks \<and> P k then map_option g (f k) else None)"
  by (induction ks) (auto simp: List.map_filter_simps split: option.splits)

lemma GetLast_lookup:
  assumes "order_ok sord" "sql_GetLastProviderPipelineEventStatus env None sord pubkeys db = Inr m" "pk \<in> set pubkeys"
  shows "map_of m pk = map_option (\<lambda>e. text_status (per_status e)) (last_event env db pk)"
proof -
  have "set (sord (remdups (map per_pubkey (db_provider_pipeline_events db)))) = per_pubkey ` set (db_provider_pipeline_events db)"
    using assms(1) by (metis order_ok_def mset_eq_setD set_map set_remdups)
  moreover have "m = List.map_filter (\<lambda>pk. if pk \<in> set pubkeys then map_option (\<lambda>e. (pk, text_status (per_status e))) (last_event env db pk) else None)
      (sord (remdups (map per_pubkey (db_provider_pipeline_events db))))"
    using assms(2,3) by (cases "pubkeys = []") (simp_all add: sql_GetLastProviderPipelineEventStatus_def)
  ultimately show ?thesis using assms(3) last_event_none [of env db pk] by (auto simp: map_of_map_filter)
qed

lemma inserted_events_seen:
  assumes "env_ok env" "order_ok sord" "list_all event_fits es" "\<forall>e \<in> set (db_provider_pipeline_events db). per_created_at e < now"
  shows "\<exists>db' old new. sql_InsertProviderPipelineEvents None now es db = (None, db') \<and>
    sql_GetLastProviderPipelineEventStatus env None sord pubkeys db = Inr old \<and>
    sql_GetLastProviderPipelineEventStatus env None sord pubkeys db' = Inr new \<and>
    (\<forall>pk \<in> set pubkeys. if pk \<in> ppe_ProviderPubkey ` set es
       then \<exists>e \<in> set es. ppe_ProviderPubkey e = pk \<and> map_of new pk = Some (ppe_Status e)
       else map_of new pk = map_of old pk)"
proof -
  let ?db = "db\<lparr>db_provider_pipeline_events := db_provider_pipeline_events db @ map (event_row now) es\<rparr>"
  obtain old new where get: "sql_GetLastProviderPipelineEventStatus env None sord pubkeys db = Inr old"
      "sql_GetLastProviderPipelineEventStatus env None sord pubkeys ?db = Inr new"
    by (cases "pubkeys = []") (simp_all add: sql_GetLastProviderPipelineEventStatus_def)
  have "if pk \<in> ppe_ProviderPubkey ` set es then \<exists>e \<in> set es. ppe_ProviderPubkey e = pk \<and> map_of new pk = Some (ppe_Status e)
       else map_of new pk = map_of old pk" if pk: "pk \<in> set pubkeys" for pk
  proof (cases "pk \<in> ppe_ProviderPubkey ` set es")
    case True
    then obtain e0 where e0: "e0 \<in> set es" "ppe_ProviderPubkey e0 = pk" by blast
    have in_new: "event_row now e0 \<in> set (db_provider_pipeline_events ?db)" "per_pubkey (event_row now e0) = pk"
      using e0 by (auto simp: event_row_def)
    then have "last_event env ?db pk \<noteq> None" unfolding last_event_none by force
    then obtain x where x: "last_event env ?db pk = Some x" by blast
    note newest = last_event_newest [OF assms(1) x]
    have "now \<le> per_created_at x" using newest(3) [OF in_new] by (simp add: event_row_def)
    then have "x \<notin> set (db_provider_pipeline_events db)" using assms(4) by force
    then obtain e where e: "e \<in> set es" "x = event_row now e" using newest(1) by auto
    then have "ppe_ProviderPubkey e = pk" using newest(2) by (simp add: event_row_def)
    moreover have "map_of new pk = Some (ppe_Status e)" using GetLast_lookup [OF assms(2) get(2) pk] x e(2) by (simp add: event_row_def)
    ultimately show ?thesis using True e(1) by auto
  next
    case False
    then have "filter (\<lambda>e. per_pubkey e = pk) (map (event_row now) es) = []" by (force simp: filter_empty_conv event_row_def)
    then have "last_event env ?db pk = last_event env db pk" by (simp add: last_event_def)
    then show ?thesis using False GetLast_lookup [OF assms(2) get(1) pk] GetLast_lookup [OF assms(2) get(2) pk] by simp
  qed
  then show ?thesis using InsertProviderPipelineEvents_run [OF assms(3)] get by blast
qed

text \<open>
  The events a run records are what the next run loads.  When all stored events are older than the insert, then after
  \<^verbatim>\<open>InsertProviderPipelineEvents\<close> the answer of \<^verbatim>\<open>GetLastProviderPipelineEventStatus\<close> for a provider with events in the batch is the status of one
  of them, so their common status when they agree; for every other provider it is what it was before.
\<close>

theorem events_found_by_next_run:
  assumes "env_ok env" "order_ok sord" "list_all event_fits es" "\<forall>e \<in> set (db_provider_pipeline_events db). per_created_at e < now"
  shows "\<exists>db' old new. sql_InsertProviderPipelineEvents None now es db = (None, db') \<and>
    sql_GetLastProviderPipelineEventStatus env None sord pubkeys db = Inr old \<and>
    sql_GetLastProviderPipelineEventStatus env None sord pubkeys db' = Inr new \<and>
    (\<forall>pk \<in> set pubkeys. if pk \<in> ppe_ProviderPubkey ` set es
       then \<exists>e \<in> set es. ppe_ProviderPubkey e = pk \<and> map_of new pk = Some (ppe_Status e)
       else map_of new pk = map_of old pk)"
  using assms by (rule inserted_events_seen)

definition sample_event :: "string \<Rightarrow> pipeline_status \<Rightarrow> provider_pipeline_event" where
  "sample_event pk st = \<lparr>ppe_ProviderPubkey = pk, ppe_Status = st, ppe_Stage = ''endpoint_resolve'', ppe_ReasonCode = Some 101,
     ppe_ErrorMessage = None, ppe_RunID = ''run'', ppe_Worker = ''StoreProof''\<rparr>"

theorem events_found_by_next_run_witness:
  "\<exists>db' new. sql_InsertProviderPipelineEvents None 5 [sample_event ''aa'' PipelineEventError] sample_db = (None, db') \<and>
     sql_GetLastProviderPipelineEventStatus sample_env None rev [''aa'', ''bb''] db' = Inr new \<and> map_of new ''aa'' = Some PipelineEventError"
proof -
  have fits: "list_all event_fits [sample_event ''aa'' PipelineEventError]" by (simp add: event_fits_def sample_event_def)
  have ord: "order_ok rev" by (simp add: order_ok_def)
  have old: "\<forall>e \<in> set (db_provider_pipeline_events sample_db). per_created_at e < 5" by (simp add: sample_db_def empty_database_def)
  show ?thesis
    using events_found_by_next_run [OF sample_env_ok ord fits old, of "[''aa'', ''bb'']"] by (auto simp: sample_event_def)
qed

end
