(* ===== verification/CycleStore.thy ===== *)
theory CycleStore
  imports StoreProof SqlStore
begin

text \<open>
  The storage-proof cycle on the database: the worker of \<open>StoreProof\<close> with the repository of \<open>SqlRepo\<close> as \<^verbatim>\<open>cmd/main.go\<close> connects
  them.  The state of the cycle is the database, the number of statements made so far and, as a record for the statements of this theory,
  the results that successful \<^verbatim>\<open>UpdateContractProofsChecks\<close> calls were given, latest batch first.  Every statement has its own
  time \<^verbatim>\<open>NOW()\<close> and may fail from outside on its own; so may every read.  The cycle is alone on the database here; what
  statements of other workers in between keep is the invariant (\<open>db_step\<close>).
\<close>

section \<open>The environment of a cycle\<close>

record ('f, 'g) refresh_calls =
  rfc_stateFault :: "go_error option"
  rfc_stateOrder :: "('f, 'g) provider_perm"
  rfc_lastFault :: "go_error option"
  rfc_lastOrder :: order

record ('f, 'g) cycle_calls =
  cyc_stale :: "('f, 'g) refresh_calls"
  cyc_full :: "('f, 'g) refresh_calls"
  cyc_forced :: "('f, 'g) refresh_calls"
  cyc_contractsFault :: "go_error option"
  cyc_contractsOrder :: "contract_join list \<Rightarrow> contract_join list"
  cyc_fault :: "nat \<Rightarrow> go_error option"
  cyc_now :: "nat \<Rightarrow> time"

type_synonym ('f, 'g) session = "('f, 'g) database \<times> nat \<times> contract_proofs_check list"

definition on_session ::
  "('f, 'g) cycle_calls \<Rightarrow> (go_error option \<Rightarrow> time \<Rightarrow> ('f, 'g) database \<Rightarrow> go_error option \<times> ('f, 'g) database) \<Rightarrow>
     ('f, 'g) session \<Rightarrow> go_error option \<times> ('f, 'g) session" where
  "on_session calls statement s =
     (case s of
        (db, n, commits) \<Rightarrow>
          (case statement (cyc_fault calls n) (cyc_now calls n) db of (err, db) \<Rightarrow> (err, (db, Suc n, commits))))"

definition note_commit ::
  "contract_proofs_check list \<Rightarrow> go_error option \<times> ('f, 'g) session \<Rightarrow> go_error option \<times> ('f, 'g) session" where
  "note_commit rows r =
     (case r of (None, (db, n, commits)) \<Rightarrow> (None, (db, n, rows @ commits)) | (Some err, s) \<Rightarrow> (Some err, s))"

definition sql_refresh_env ::
  "('f, 'g) sql_env \<Rightarrow> ('f, 'g) cycle_calls \<Rightarrow> ('f, 'g) refresh_calls \<Rightarrow> ('addr, ('f, 'g) session) refresh_env \<Rightarrow>
     ('addr, ('f, 'g) session) refresh_env" where
  "sql_refresh_env senv calls rcs renv =
     renv\<lparr>re_getState := \<lambda>pks s. sql_GetProvidersEndpointState (rfc_stateFault rcs) (rfc_stateOrder rcs) pks (fst s),
          re_getLast := \<lambda>pks s. sql_GetLastProviderPipelineEventStatus senv (rfc_lastFault rcs) (rfc_lastOrder rcs) pks (fst s),
          re_updateIPs := \<lambda>ips. on_session calls (\<lambda>fault now. sql_UpdateProvidersIPs senv fault now ips)\<rparr>"

definition sql_cycle_env ::
  "('f, 'g) sql_env \<Rightarrow> ('f, 'g) cycle_calls \<Rightarrow> ('addr, ('f, 'g) session) sp_env \<Rightarrow> ('addr, ('f, 'g) session) sp_env" where
  "sql_cycle_env senv calls env =
     env\<lparr>sp_stale := sql_refresh_env senv calls (cyc_stale calls) (sp_stale env),
         sp_full := sql_refresh_env senv calls (cyc_full calls) (sp_full env),
         sp_forced := sql_refresh_env senv calls (cyc_forced calls) (sp_forced env),
         sp_GetStorageContracts := \<lambda>s. sql_GetStorageContracts (cyc_contractsFault calls) (cyc_contractsOrder calls) (fst s),
         sp_UpdateRejected := \<lambda>rels. on_session calls (\<lambda>fault now. sql_UpdateRejectedStorageContracts fault now rels),
         sp_UpdateContractProofsChecks := \<lambda>rows s. note_commit rows (on_session calls (\<lambda>fault now. sql_UpdateContractProofsChecks senv fault now rows) s),
         sp_UpdateStatuses := on_session calls (sql_UpdateStatuses senv),
         sp_InsertProviderEvents := \<lambda>es. on_session calls (\<lambda>fault now. sql_InsertProviderPipelineEvents fault now es),
         sp_InsertBagEvents := \<lambda>es. on_session calls (\<lambda>fault now. sql_InsertBagPipelineEvents fault now es)\<rparr>"

lemma on_session_snd [simp]:
  "fst (snd (on_session calls st s)) = snd (st (cyc_fault calls (fst (snd s))) (cyc_now calls (fst (snd s))) (fst s))"
  "snd (snd (snd (on_session calls st s))) = snd (snd s)"
  by (simp_all add: on_session_def case_prod_beta)

lemma on_session_ok:
  "on_session calls st s = (None, s') \<Longrightarrow>
     st (cyc_fault calls (fst (snd s))) (cyc_now calls (fst (snd s))) (fst s) = (None, fst s') \<and> snd (snd s') = snd (snd s)"
  by (auto simp: on_session_def split: prod.splits)

lemma note_commit_fst [simp]: "fst (snd (note_commit rows r)) = fst (snd r)" "fst (note_commit rows r) = fst r"
  by (auto simp: note_commit_def split: prod.split option.split)

lemma note_commit_ok: "note_commit rows r = (None, s') \<Longrightarrow> \<exists>s. r = (None, s) \<and> fst s' = fst s \<and> snd (snd s') = rows @ snd (snd s)"
  by (auto simp: note_commit_def split: prod.splits option.splits)

section \<open>The database is a store of results\<close>

text \<open>What the table of contracts holds of the checks, and what a batch of results does to it.\<close>

definition contract_reasons :: "('f, 'g) database \<Rightarrow> (string \<times> string) \<Rightarrow> int option option" where
  "contract_reasons db k = map_option cn_reason (map_of (db_storage_contracts db) k)"

definition put_reasons :: "contract_proofs_check list \<Rightarrow> (string \<times> string \<Rightarrow> int option option) \<Rightarrow> string \<times> string \<Rightarrow> int option option" where
  "put_reasons rows m k = (case m k of None \<Rightarrow> None | Some r \<Rightarrow> Some (case reasons_of rows k of None \<Rightarrow> r | Some n \<Rightarrow> Some n))"

lemma reasons_of_key: "r \<in> set rows \<Longrightarrow> distinct (map row_pair rows) \<Longrightarrow> reasons_of rows (check_row_key r) = Some (uint (cpc_Reason r))"
proof -
  assume "r \<in> set rows" "distinct (map row_pair rows)"
  moreover have "distinct (map check_row_key rows) \<longleftrightarrow> distinct (map row_pair rows)"
    by (induction rows) (auto simp: check_row_key_def row_pair_def)
  ultimately show ?thesis unfolding reasons_of_def using map_of_distinct [of check_row_key rows r] by simp
qed

lemma reasons_of_None: "reasons_of rows k = None \<longleftrightarrow> k \<notin> check_row_key ` set rows"
  by (auto simp: reasons_of_def map_of_eq_None_iff image_iff)

text \<open>A batch that succeeds has stored each row on its contract, whatever the codes are.\<close>

lemma checks_committed:
  assumes "env_ok env" "distinct (map row_pair rows)" "sql_UpdateContractProofsChecks env fault now rows db = (None, db')"
  shows "contract_reasons db' = put_reasons rows (contract_reasons db)"
proof
  fix k
  let ?keys = "map fst (db_storage_contracts db)" and ?parse = "\<lambda>c. cast_int4 (j_text c ''reason'')"
  have key: "check_key (json_ContractProofsCheck r) = Some (check_row_key r)" for r
    by (simp add: check_key_def json_ContractProofsCheck_def sql check_row_key_def)
  obtain src where src: "update_source env ?keys check_key ?parse Inr (map json_ContractProofsCheck rows) = Inr src"
    and db': "db' = db\<lparr>db_storage_contracts := update_from src (set_reason now) (db_storage_contracts db)\<rparr>"
    using assms(3) by (auto simp: sql_UpdateContractProofsChecks_def bind_sum_Inr dest!: exec_sql_cases)
  have eq: "src k = map_option Some (reasons_of rows k)" if k: "k \<in> set ?keys"
  proof (cases "src k")
    case None
    then have "\<forall>r \<in> set rows. check_row_key r \<noteq> k" using update_source_rows(1) [OF assms(1) src k] key by auto
    then show ?thesis using None reasons_of_None [of rows k] by auto
  next
    case (Some v)
    then obtain r where r: "r \<in> set rows" "check_key (json_ContractProofsCheck r) = Some k" "?parse (json_ContractProofsCheck r) = Inr v"
      using update_source_encoded [OF assms(1) src k] by auto
    then have "v = Some (uint (cpc_Reason r))" by (auto simp: json_ContractProofsCheck_def sql dest!: cast_uint_value)
    then show ?thesis using Some reasons_of_key [OF r(1) assms(2)] r(2) key by simp
  qed
  show "contract_reasons db' k = put_reasons rows (contract_reasons db) k"
  proof (cases "map_of (db_storage_contracts db) k")
    case (Some c)
    then have "src k = map_option Some (reasons_of rows k)" by (intro eq) (force dest: map_of_SomeD)
    then show ?thesis using Some
      by (auto simp: contract_reasons_def put_reasons_def db' update_from_lookup set_reason_def split: option.split)
  qed (simp add: contract_reasons_def put_reasons_def db' update_from_lookup)
qed

lemma exec_sql_contracts:
  "(\<And>db'. st db = Inr db' \<Longrightarrow> db_storage_contracts db' = db_storage_contracts db) \<Longrightarrow>
   db_storage_contracts (snd (exec_sql fault st db)) = db_storage_contracts db"
  by (auto simp: exec_sql_def split: option.split sum.split)

lemma contracts_untouched [simp]:
  "db_storage_contracts (snd (sql_UpdateStatuses env fault now db)) = db_storage_contracts db"
  "db_storage_contracts (snd (sql_UpdateProvidersIPs env fault now ips db)) = db_storage_contracts db"
  "db_storage_contracts (snd (sql_InsertProviderPipelineEvents fault now es db)) = db_storage_contracts db"
  "db_storage_contracts (snd (sql_InsertBagPipelineEvents fault now bes db)) = db_storage_contracts db"
  by (auto simp: sql_UpdateStatuses_def sql_UpdateProvidersIPs_def sql_InsertProviderPipelineEvents_def sql_InsertBagPipelineEvents_def
      case_prod_beta bind_sum_Inr intro!: exec_sql_contracts)

definition session_ok :: "('f, 'g) sql_env \<Rightarrow> ('f, 'g) database \<Rightarrow> ('f, 'g) session \<Rightarrow> bool" where
  "session_ok senv start s \<longleftrightarrow> env_ok senv \<and> (db_step senv)\<^sup>*\<^sup>* start (fst s)"

lemma session_statement:
  "session_ok senv start s \<Longrightarrow> (\<And>fault now. db_step senv (fst s) (snd (st fault now (fst s)))) \<Longrightarrow>
   session_ok senv start (snd (on_session calls st s))"
  by (auto simp: session_ok_def intro: rtranclp.rtrancl_into_rtrancl)

text \<open>What a session shows of the checks: the reasons in the table, and the results that were stored.\<close>

definition session_view :: "('f, 'g) session \<Rightarrow> (string \<times> string \<Rightarrow> int option option) \<times> contract_proofs_check list" where
  "session_view s = (contract_reasons (fst s), snd (snd s))"

definition put_session ::
  "contract_proofs_check list \<Rightarrow> (string \<times> string \<Rightarrow> int option option) \<times> contract_proofs_check list \<Rightarrow>
     (string \<times> string \<Rightarrow> int option option) \<times> contract_proofs_check list" where
  "put_session rows v = (put_reasons rows (fst v), rows @ snd v)"

lemma session_view_kept:
  "fst s = db \<Longrightarrow> (\<And>fault now. db_storage_contracts (snd (st fault now db)) = db_storage_contracts db) \<Longrightarrow>
   session_view (snd (on_session calls st s)) = session_view s"
  by (simp add: session_view_def contract_reasons_def [abs_def])

lemma session_noted: "session_ok senv start (snd r) \<Longrightarrow> session_ok senv start (snd (note_commit rows r))"
  by (simp add: session_ok_def)

lemma session_commit:
  "session_ok senv start s \<Longrightarrow> distinct (map row_pair rows) \<Longrightarrow>
   sp_UpdateContractProofsChecks (sql_cycle_env senv calls env) rows s = (None, s') \<Longrightarrow>
   session_view s' = put_session rows (session_view s)"
  by (auto simp: sql_cycle_env_def session_ok_def session_view_def put_session_def dest!: note_commit_ok on_session_ok intro: checks_committed)

lemma put_session_Nil: "put_session [] v = v"
  by (simp add: put_session_def put_reasons_def [abs_def] reasons_of_def fun_eq_iff prod_eq_iff split: option.split)

interpretation sql_store: proof_store "sql_cycle_env senv calls env" "session_ok senv start" session_view put_session
  by (unfold_locales, rule put_session_Nil, erule (2) session_commit)
    (auto simp: sql_cycle_env_def sql_refresh_env_def simp del: on_session_snd
      intro!: session_noted session_statement session_view_kept intro: db_step.intros)

section \<open>What a cycle does to the table of contracts\<close>

lemma delete_contracts_contracts:
  "delete_contracts now doomed db = Inr db' \<Longrightarrow> db_storage_contracts db' = filter (\<lambda>(k, _). \<not> doomed k) (db_storage_contracts db)"
  unfolding delete_contracts_def Let_def by (simp only: split: if_splits) auto

lemma rejected_contracts:
  assumes "sql_UpdateRejectedStorageContracts fault now rels db = (None, db')"
  shows "contract_reasons db' k = (if k \<in> rel_key ` set rels then None else contract_reasons db k)"
proof -
  have gone: "(case (j_text (json_ContractToProviderRelation c) ''address'', j_text (json_ContractToProviderRelation c) ''provider_address'') of
      (Some a, Some p) \<Rightarrow> Some (a, p) | _ \<Rightarrow> None) = Some (rel_key c)" for c
    by (simp add: json_ContractToProviderRelation_def sql rel_key_def)
  show ?thesis
  proof (cases "rels = []")
    case False
    have eq: "Some k \<in> (\<lambda>c. Some (rel_key c)) ` set rels \<longleftrightarrow> k \<in> rel_key ` set rels" for k by auto
    have run: "exec_sql fault (delete_contracts now (\<lambda>k. k \<in> rel_key ` set rels)) db = (None, db')"
      using assms False unfolding sql_UpdateRejectedStorageContracts_def image_image gone eq by simp
    have "delete_contracts now (\<lambda>k. k \<in> rel_key ` set rels) db = Inr db'" using exec_sql_cases [OF run] by simp
    then have "db_storage_contracts db' = filter (\<lambda>(k, _). k \<notin> rel_key ` set rels) (db_storage_contracts db)"
      by (rule delete_contracts_contracts)
    moreover have "map_of (filter (\<lambda>(k, _). k \<notin> X) t) k = (if k \<in> X then None else map_of t k)" for X and t :: "((string \<times> string) \<times> contract_cols) list"
      by (induction t) auto
    ultimately show ?thesis by (simp add: contract_reasons_def)
  qed (use assms in \<open>simp add: sql_UpdateRejectedStorageContracts_def\<close>)
qed

lemma rejected_split:
  assumes "updateRejectedContracts ord now info upd scs db = (Inr active, db')"
  shows "\<exists>keep. active = filter keep scs \<and> (scs = [] \<and> db' = db \<or> upd (filter (\<lambda>sc. \<not> keep sc) scs) db = (None, db'))"
  using assms by (auto simp: updateRejectedContracts_def Let_def split_contracts_eq split: prod.splits option.splits sum.splits if_splits)

lemma put_reasons_append: "put_reasons xs (put_reasons ys m) = put_reasons (xs @ ys) m"
  by (rule ext) (auto simp: put_reasons_def reasons_of_def map_add_def split: option.split)

lemma listed_contracts:
  assumes "db_ok db" "perm_ok jord" "sql_GetStorageContracts fault jord db = Inr scs"
  shows "distinct (map rel_key scs)" "sc \<in> set scs \<Longrightarrow> contract_reasons db (rel_key sc) \<noteq> None"
proof -
  have "fault = None" using assms(3) by (cases fault) (simp_all add: sql_GetStorageContracts_def query_sql_def)
  then have scs: "scs = map read_relation (jord (contract_providers_join db))" using GetStorageContracts_reads [OF assms(1,2)] assms(3) by simp
  have key: "rel_key (read_relation row) = (case row of (pk, k, c) \<Rightarrow> k)" for row
    by (cases row) (auto simp: read_relation_def rel_key_def)
  show "distinct (map rel_key scs)"
    using sorted_map_distinct [OF assms(2) join_distinct [OF assms(1)]] by (simp add: scs comp_def key)
  show "contract_reasons db (rel_key sc) \<noteq> None" if "sc \<in> set scs"
  proof -
    have "sc \<in> read_relation ` set (contract_providers_join db)" using that by (simp add: scs perm_set [OF assms(2)])
    then obtain row where "row \<in> set (contract_providers_join db)" "sc = read_relation row" by blast
    moreover obtain pk a pa c where "row = (pk, (a, pa), c)" by (metis surj_pair)
    ultimately have "(pk, (a, pa), c) \<in> set (contract_providers_join db)" "rel_key sc = (a, pa)"
      using key [of row] by auto
    then have "rel_key sc \<in> fst ` set (db_storage_contracts db)" using join_set by force
    then show ?thesis by (simp add: contract_reasons_def map_of_eq_None_iff)
  qed
qed

lemma listed_bar_free:
  assumes "db_ok db" "perm_ok jord" "sql_GetStorageContracts fault jord db = Inr scs"
    and "\<forall>(k, c) \<in> set (db_storage_contracts db). CHR ''|'' \<notin> set (snd k)"
  shows "bar_free scs"
proof -
  have "CHR ''|'' \<notin> set (snd k)" if "contract_reasons db k \<noteq> None" for k
    using that assms(4) by (force simp: contract_reasons_def dest: map_of_SomeD)
  then show ?thesis using listed_contracts(2) [OF assms(1-3)] by (fastforce simp: bar_free_def rel_key_def)
qed

text \<open>The worker's pairs and the keys of the table differ in the order of their components only.\<close>

lemma row_keys:
  "distinct (map row_pair rows) \<longleftrightarrow> distinct (map check_row_key rows)"
  "row_pair ` set rows = rel_pair ` set scs \<longleftrightarrow> check_row_key ` set rows = rel_key ` set scs"
proof -
  have s: "check_row_key = prod.swap \<circ> row_pair" "rel_key = prod.swap \<circ> rel_pair"
    by (simp_all add: fun_eq_iff check_row_key_def row_pair_def rel_key_def rel_pair_def)
  show "distinct (map row_pair rows) \<longleftrightarrow> distinct (map check_row_key rows)"
    by (induction rows) (auto simp: check_row_key_def row_pair_def)
  show "row_pair ` set rows = rel_pair ` set scs \<longleftrightarrow> check_row_key ` set rows = rel_key ` set scs"
    unfolding s image_comp [symmetric] by (simp add: inj_image_eq_iff)
qed

lemma rejected_in_table:
  assumes "updateRejectedContracts ord now info (sp_UpdateRejected (sql_cycle_env senv calls env)) scs s = (Inr active, s')"
  obtains keep where "active = filter keep scs"
    "\<And>k. contract_reasons (fst s') k = (if k \<in> rel_key ` set (filter (\<lambda>sc. \<not> keep sc) scs) then None else contract_reasons (fst s) k)"
    "snd (snd s') = snd (snd s)"
proof -
  obtain keep where k: "active = filter keep scs"
    "scs = [] \<and> s' = s \<or> sp_UpdateRejected (sql_cycle_env senv calls env) (filter (\<lambda>sc. \<not> keep sc) scs) s = (None, s')"
    using rejected_split [OF assms] by blast
  from k(2) have "contract_reasons (fst s') x = (if x \<in> rel_key ` set (filter (\<lambda>sc. \<not> keep sc) scs) then None else contract_reasons (fst s) x)" for x
  proof
    assume "sp_UpdateRejected (sql_cycle_env senv calls env) (filter (\<lambda>sc. \<not> keep sc) scs) s = (None, s')"
    then have "sql_UpdateRejectedStorageContracts (cyc_fault calls (fst (snd s))) (cyc_now calls (fst (snd s)))
        (filter (\<lambda>sc. \<not> keep sc) scs) (fst s) = (None, fst s')"
      by (auto simp: sql_cycle_env_def dest: on_session_ok)
    then show ?thesis by (rule rejected_contracts)
  qed simp
  moreover have "snd (snd s') = snd (snd s)" using k(2) on_session_ok by (fastforce simp: sql_cycle_env_def)
  ultimately show ?thesis using that k(1) by blast
qed

lemma steps_ok: "(db_step env)\<^sup>*\<^sup>* db db' \<Longrightarrow> env_ok env \<Longrightarrow> db_ok db \<Longrightarrow> db_ok db'"
  by (induction rule: rtranclp_induct) (simp_all add: db_step_ok)

lemma cycle_without_error:
  assumes "env_ok senv" "db_ok db" "perm_ok (cyc_contractsOrder calls)" "order_ok (sp_mainOrder env)" "order_ok (sp_finalOrder env)"
    and "\<forall>(k, c) \<in> set (db_storage_contracts db). CHR ''|'' \<notin> set (snd k)"
    and "StoreProof (sql_cycle_env senv calls env) ms (db, 0, []) = ((interval, None), ms', (db', n, rows))"
  shows "\<exists>scs active. sql_GetStorageContracts None (cyc_contractsOrder calls) db = Inr scs \<and>
    (\<exists>s s'. updateRejectedContracts (sp_rejectOrder env) (sp_rejectedAt env) (sp_GetProvidersInfo env)
      (sp_UpdateRejected (sql_cycle_env senv calls env)) scs s = (Inr active, s')) \<and>
    distinct (map check_row_key rows) \<and> check_row_key ` set rows = rel_key ` set active \<and>
    (\<forall>k. contract_reasons db' k =
       (if k \<in> rel_key ` set active then Some (reasons_of rows k) else if k \<in> rel_key ` set scs then None else contract_reasons db k))"
proof -
  let ?env = "sql_cycle_env senv calls env" and ?s0 = "(db, 0, []) :: ('a, 'b) session" and ?s' = "(db', n, rows) :: ('a, 'b) session"
  have fields [simp]: "sp_mainOrder ?env = sp_mainOrder env" "sp_finalOrder ?env = sp_finalOrder env" "sp_rejectOrder ?env = sp_rejectOrder env"
    "sp_rejectedAt ?env = sp_rejectedAt env" "sp_GetProvidersInfo ?env = sp_GetProvidersInfo env" by (simp_all add: sql_cycle_env_def)
  obtain scs where scs: "sp_GetStorageContracts ?env ?s0 = Inr scs"
    using assms(7) unfolding StoreProof_def by (cases "sp_GetStorageContracts ?env ?s0") auto
  then have listed: "sql_GetStorageContracts (cyc_contractsFault calls) (cyc_contractsOrder calls) db = Inr scs" by (simp add: sql_cycle_env_def)
  have start: "session_ok senv db ?s0" using assms(1) by (simp add: session_ok_def)
  obtain s1 s2 active main now pend retry where sel: "selectMainProofsCommit (sp_mainOrder env) main = (now, pend)"
    and s1: "session_ok senv db s1" "session_view s1 = session_view ?s0"
    and rej: "updateRejectedContracts (sp_rejectOrder env) (sp_rejectedAt env) (sp_GetProvidersInfo env) (sp_UpdateRejected ?env) scs s1 = (Inr active, s2)"
    and x: "results_of active main" "case retry of None \<Rightarrow> True | Some results \<Rightarrow> results_of (pendingContracts active pend) results"
    and w: "session_view ?s' = put_session (selectFinalProofsCommit (sp_finalOrder env) main pend retry) (put_session now (session_view s2))"
    using sql_store.cycle_view [OF start, of calls env scs ms interval ms' ?s'] assms(4,5,7) scs by auto
  have s1v: "contract_reasons (fst s1) = contract_reasons db" "snd (snd s1) = []" using s1(2) by (simp_all add: session_view_def)
  obtain keep where keep: "active = filter keep scs"
    "\<And>k. contract_reasons (fst s2) k = (if k \<in> rel_key ` set (filter (\<lambda>sc. \<not> keep sc) scs) then None else contract_reasons (fst s1) k)"
    and log2: "snd (snd s2) = snd (snd s1)"
    by (rule rejected_in_table [OF rej]) (rule that)
  have stored: "rows = selectFinalProofsCommit (sp_finalOrder env) main pend retry @ now"
    and val: "contract_reasons db' = put_reasons rows (contract_reasons (fst s2))"
    using w log2 s1v(2) by (simp_all add: session_view_def put_session_def put_reasons_append)
  have rows: "mset rows = mset (map (committed_row main retry) (go_keys main))"
    using main_final_commit [OF _ assms(4,5), of main retry] sel x(1) by (simp add: stored results_of_def add.commute)
  note listed_keys = listed_contracts [OF assms(2,3) listed]
  have bar: "bar_free active" using listed_bar_free [OF assms(2,3) listed assms(6)] keep(1) by (auto simp: bar_free_def)
  note pairs = committed_pairs [OF x bar]
  have m: "mset (map row_pair rows) = mset (map row_pair (map (committed_row main retry) (go_keys main)))"
    using arg_cong [OF rows, of "image_mset row_pair"] by (simp only: mset_map)
  have "distinct (map row_pair rows)" "row_pair ` set rows = rel_pair ` set active"
    using pairs mset_eq_imp_distinct_iff [OF m] mset_eq_setD [OF m] by (simp_all only: set_map)
  then have keys: "distinct (map check_row_key rows)" "check_row_key ` set rows = rel_key ` set active"
    using row_keys(1) [of rows] row_keys(2) [of rows active] by simp_all
  have "contract_reasons db' k =
      (if k \<in> rel_key ` set active then Some (reasons_of rows k) else if k \<in> rel_key ` set scs then None else contract_reasons db k)" for k
  proof -
    have "rel_key sc \<noteq> rel_key sc'" if "sc \<in> set scs" "sc' \<in> set scs" "keep sc" "\<not> keep sc'" for sc sc'
      using that listed_keys(1) by (auto simp: distinct_map dest: inj_onD)
    then have apart: "k \<in> rel_key ` set active \<Longrightarrow> k \<notin> rel_key ` set (filter (\<lambda>sc. \<not> keep sc) scs)" by (force simp: keep(1))
    have none: "reasons_of rows k = None \<longleftrightarrow> k \<notin> rel_key ` set active" unfolding reasons_of_None keys(2) ..
    note val = val [THEN fun_cong, of k, unfolded put_reasons_def keep(2) s1v(1)]
    show ?thesis
    proof (cases "k \<in> rel_key ` set active")
      case True
      then have "contract_reasons db k \<noteq> None" using listed_keys(2) keep(1) by auto
      then show ?thesis using val apart [OF True] none True by (auto split: option.splits simp del: image_iff)
    next
      case False
      then have "k \<in> rel_key ` set scs \<longleftrightarrow> k \<in> rel_key ` set (filter (\<lambda>sc. \<not> keep sc) scs)" by (auto simp: keep(1))
      then show ?thesis using val none False by (cases "contract_reasons db k") (simp_all split: if_splits)
    qed
  qed
  moreover have "sql_GetStorageContracts None (cyc_contractsOrder calls) db = Inr scs"
    using listed by (cases "cyc_contractsFault calls") (simp_all add: sql_GetStorageContracts_def query_sql_def)
  ultimately show ?thesis using rej keys by blast
qed

lemma cycle_steps:
  assumes "env_ok senv" "StoreProof (sql_cycle_env senv calls env) ms (db, 0, []) = (r, ms', (db', rest))"
  shows "(db_step senv)\<^sup>*\<^sup>* db db'"
  using sql_store.cycle_inv [of senv db "(db, 0, [])" calls env ms] assms by (simp add: session_ok_def)

text \<open>
  C2.  A storage-proof cycle on the database.  Whatever happens, errors of any statement included, it moves the database by
  statements of the repositories only and keeps it consistent.  After a cycle without error, of the contracts that were listed when it
  started those that the chain no longer confirms are gone; the results that its successful calls of \<^verbatim>\<open>UpdateContractProofsChecks\<close> were
  given are one row for each of the others, and in the table each of these has the reason of its row; every contract that was not listed
  is as before, whatever agents and endpoint lookups answered.
\<close>

theorem cycle_recorded_in_database:
  assumes "env_ok senv" "db_ok db" "perm_ok (cyc_contractsOrder calls)" "order_ok (sp_mainOrder env)" "order_ok (sp_finalOrder env)"
    and "\<forall>(k, c) \<in> set (db_storage_contracts db). CHR ''|'' \<notin> set (snd k)"
    and "StoreProof (sql_cycle_env senv calls env) ms (db, 0, []) = ((interval, err), ms', (db', n, rows))"
  shows "(db_step senv)\<^sup>*\<^sup>* db db' \<and> db_ok db' \<and>
    (err = None \<longrightarrow> (\<exists>scs active. sql_GetStorageContracts None (cyc_contractsOrder calls) db = Inr scs \<and>
      (\<exists>s s'. updateRejectedContracts (sp_rejectOrder env) (sp_rejectedAt env) (sp_GetProvidersInfo env)
        (sp_UpdateRejected (sql_cycle_env senv calls env)) scs s = (Inr active, s')) \<and>
      distinct (map check_row_key rows) \<and> check_row_key ` set rows = rel_key ` set active \<and>
      (\<forall>row \<in> set rows. contract_reasons db' (check_row_key row) = Some (Some (uint (cpc_Reason row)))) \<and>
      (\<forall>k. k \<notin> rel_key ` set active \<longrightarrow>
         contract_reasons db' k = (if k \<in> rel_key ` set scs then None else contract_reasons db k))))"
proof (intro conjI impI)
  show steps: "(db_step senv)\<^sup>*\<^sup>* db db'" by (rule cycle_steps [OF assms(1,7)])
  show "db_ok db'" by (rule steps_ok [OF steps assms(1,2)])
  assume "err = None"
  then obtain scs active where r: "sql_GetStorageContracts None (cyc_contractsOrder calls) db = Inr scs"
    "\<exists>s s'. updateRejectedContracts (sp_rejectOrder env) (sp_rejectedAt env) (sp_GetProvidersInfo env)
        (sp_UpdateRejected (sql_cycle_env senv calls env)) scs s = (Inr active, s')"
    "distinct (map check_row_key rows)" "check_row_key ` set rows = rel_key ` set active"
    "\<forall>k. contract_reasons db' k =
       (if k \<in> rel_key ` set active then Some (reasons_of rows k) else if k \<in> rel_key ` set scs then None else contract_reasons db k)"
    using cycle_without_error [OF assms(1-6)] assms(7) by blast
  have "contract_reasons db' (check_row_key row) = Some (Some (uint (cpc_Reason row)))" if "row \<in> set rows" for row
    using reasons_of_key [OF that] r(3) r(5) [THEN spec, of "check_row_key row"] r(4) that row_keys(1) [of rows] by auto
  then show "\<exists>scs active. sql_GetStorageContracts None (cyc_contractsOrder calls) db = Inr scs \<and>
      (\<exists>s s'. updateRejectedContracts (sp_rejectOrder env) (sp_rejectedAt env) (sp_GetProvidersInfo env)
        (sp_UpdateRejected (sql_cycle_env senv calls env)) scs s = (Inr active, s')) \<and>
      distinct (map check_row_key rows) \<and> check_row_key ` set rows = rel_key ` set active \<and>
      (\<forall>row \<in> set rows. contract_reasons db' (check_row_key row) = Some (Some (uint (cpc_Reason row)))) \<and>
      (\<forall>k. k \<notin> rel_key ` set active \<longrightarrow>
         contract_reasons db' k = (if k \<in> rel_key ` set scs then None else contract_reasons db k))"
    using r(1-4) by (intro exI [of _ scs] exI [of _ active] conjI ballI allI impI) (assumption | simp add: r(5))+
qed

text \<open>
  A cycle over three contracts: the agent finds \<open>aa\<close> valid, the chain no longer has \<open>EQd\<close>, and
  the wallet of \<open>EQe\<close> belongs to no provider; there is no retry.
\<close>

definition sample_contract :: "int option \<Rightarrow> contract_cols" where
  "sample_contract reason = \<lparr>cn_bag_id = ''00'', cn_owner_address = ''o'', cn_size = 10, cn_chunk_size = 1, cn_last_tx_lt = 0,
     cn_reason = reason, cn_reason_timestamp = map_option (\<lambda>_. 0) reason\<rparr>"

definition cycle_db :: "(int, int) database" where
  "cycle_db = empty_database\<lparr>db_providers := [(''aa'', new_provider sample_env ''EQp'' 0), (''bb'', new_provider sample_env ''EQq'' 0)],
     db_storage_contracts := [((''EQc'', ''EQp''), sample_contract None),
       ((''EQd'', ''EQq''), sample_contract (Some 0)), ((''EQe'', ''EQr''), sample_contract (Some 5))]\<rparr>"

definition no_refresh_faults :: "(int, int) refresh_calls" where
  "no_refresh_faults = \<lparr>rfc_stateFault = None, rfc_stateOrder = rev, rfc_lastFault = None, rfc_lastOrder = (\<lambda>ks. ks)\<rparr>"

definition cycle_db_calls :: "(int, int) cycle_calls" where
  "cycle_db_calls = \<lparr>cyc_stale = no_refresh_faults, cyc_full = no_refresh_faults, cyc_forced = no_refresh_faults,
     cyc_contractsFault = None, cyc_contractsOrder = rev, cyc_fault = (\<lambda>_. None), cyc_now = int\<rparr>"

definition cycle_db_refresh :: "(unit, (int, int) session) refresh_env" where
  "cycle_db_refresh = \<lparr>re_lib = dht_sample, re_cfg = re_cfg cycle_refresh, re_now = 0,
     re_pubkeyOrder = (\<lambda>ks. ks), re_targetOrder = (\<lambda>ks. ks), re_cacheOrder = rev, re_persistOrder = (\<lambda>ks. ks), re_perm = rev,
     re_shuffle = rev, re_getState = (\<lambda>_ _. Inr []), re_getLast = (\<lambda>_ _. Inr []), re_updateIPs = (\<lambda>rows s. (None, s))\<rparr>"

definition cycle_db_env :: "(unit, (int, int) session) sp_env" where
  "cycle_db_env = \<lparr>sp_cfg = \<lparr>spc_Interval = 0, spc_RetryDelay = 0\<rparr>, sp_timeouts = zero_timeouts, sp_client = sp_client cycle_env,
     sp_stale = cycle_db_refresh, sp_full = cycle_db_refresh, sp_forced = cycle_db_refresh, sp_main = cycle_pass, sp_retry = cycle_pass,
     sp_rejectOrder = (\<lambda>ks. ks), sp_mainOrder = rev, sp_finalOrder = rev, sp_refreshedOrder = rev,
     sp_GetStorageContracts = (\<lambda>_. Inr []), sp_GetProvidersInfo = sp_GetProvidersInfo cycle_env,
     sp_UpdateRejected = (\<lambda>_ s. (None, s)), sp_UpdateContractProofsChecks = (\<lambda>rows s. (None, s)),
     sp_UpdateStatuses = (\<lambda>s. (None, s)), sp_InsertProviderEvents = (\<lambda>_ s. (None, s)), sp_InsertBagEvents = (\<lambda>_ s. (None, s)),
     sp_started = 0, sp_rejectedAt = 0, sp_decideAt = 1, sp_sleepAt = 1, sp_waitAt = 1, sp_wokenAt = 2, sp_endAt = 3, sp_ctxErr = None\<rparr>"

lemma cycle_db_run:
  "(case StoreProof (sql_cycle_env sample_env cycle_db_calls cycle_db_env) cycle_start (cycle_db, 0, []) of
      ((_, err), _, (db, _, rows)) \<Rightarrow>
        (err, map (contract_reasons db) (map fst (db_storage_contracts cycle_db)), map (\<lambda>r. (check_row_key r, cpc_Reason r)) rows)) =
   (None, [Some (Some 0), None, Some (Some 5)], [((''EQc'', ''EQp''), ValidStorageProof)])"
  by code_simp

theorem cycle_recorded_in_database_witness:
  "\<exists>interval ms' db' n rows. StoreProof (sql_cycle_env sample_env cycle_db_calls cycle_db_env) cycle_start (cycle_db, 0, []) =
     ((interval, None), ms', (db', n, rows)) \<and> db_ok db' \<and>
     map (\<lambda>r. (check_row_key r, cpc_Reason r)) rows = [((''EQc'', ''EQp''), ValidStorageProof)] \<and>
     contract_reasons db' (''EQc'', ''EQp'') = Some (Some 0) \<and> contract_reasons db' (''EQe'', ''EQr'') = Some (Some 5)"
proof -
  obtain interval ms' db' n rows where run: "StoreProof (sql_cycle_env sample_env cycle_db_calls cycle_db_env) cycle_start (cycle_db, 0, []) =
      ((interval, None), ms', (db', n, rows))"
    and stored: "map (\<lambda>r. (check_row_key r, cpc_Reason r)) rows = [((''EQc'', ''EQp''), ValidStorageProof)]"
    using cycle_db_run by (auto split: prod.splits)
  have ok: "db_ok cycle_db"
    by (simp add: cycle_db_def empty_database_def db_ok_def providers_table_ok_def contracts_table_ok_def statuses_ok_def keyed_lower_def
        provider_row_ok_def new_provider_def in_range_def ToLower_def lower_char_def sample_contract_def)
  have ords: "perm_ok (cyc_contractsOrder cycle_db_calls)" "order_ok (sp_mainOrder cycle_db_env)" "order_ok (sp_finalOrder cycle_db_env)"
    by (simp_all add: cycle_db_calls_def cycle_db_env_def perm_ok_def)
  have bar: "\<forall>(k, c) \<in> set (db_storage_contracts cycle_db). CHR ''|'' \<notin> set (snd k)" by (simp add: cycle_db_def)
  have keys: "rel_key ` set scs = {(''EQc'', ''EQp''), (''EQd'', ''EQq'')}" if "sql_GetStorageContracts None (cyc_contractsOrder cycle_db_calls) cycle_db = Inr scs" for scs
    using that by (auto simp: cycle_db_calls_def sql_GetStorageContracts_def contract_providers_join_def cycle_db_def query_sql_def scan_uint_def new_provider_def
        sample_contract_def rel_key_def bind_sum_def)
  obtain r where r: "rows = [r]" "check_row_key r = (''EQc'', ''EQp'')" "cpc_Reason r = ValidStorageProof" using stored by auto
  note result = cycle_recorded_in_database [OF sample_env_ok ok ords bar run]
  from result [THEN conjunct2, THEN conjunct2, THEN mp, OF refl] obtain scs active where
    listed: "sql_GetStorageContracts None (cyc_contractsOrder cycle_db_calls) cycle_db = Inr scs"
    and part: "\<exists>s s'. updateRejectedContracts (sp_rejectOrder cycle_db_env) (sp_rejectedAt cycle_db_env) (sp_GetProvidersInfo cycle_db_env)
        (sp_UpdateRejected (sql_cycle_env sample_env cycle_db_calls cycle_db_env)) scs s = (Inr active, s')"
    and kept: "\<forall>row \<in> set rows. contract_reasons db' (check_row_key row) = Some (Some (uint (cpc_Reason row)))"
    and rest: "\<forall>k. k \<notin> rel_key ` set active \<longrightarrow>
         contract_reasons db' k = (if k \<in> rel_key ` set scs then None else contract_reasons cycle_db k)" by blast
  have "(''EQe'', ''EQr'') \<notin> rel_key ` set scs" by (simp add: keys [OF listed])
  moreover have "set active \<subseteq> set scs" using part by (elim exE) (rule rejected_sub)
  then have "rel_key ` set active \<subseteq> rel_key ` set scs" by (rule image_mono)
  ultimately have "contract_reasons db' (''EQe'', ''EQr'') = contract_reasons cycle_db (''EQe'', ''EQr'')" using rest by (metis subsetD)
  moreover have "contract_reasons db' (''EQc'', ''EQp'') = Some (Some 0)" using kept r by (simp add: ValidStorageProof_def)
  ultimately have table: "contract_reasons db' (''EQc'', ''EQp'') = Some (Some 0)" "contract_reasons db' (''EQe'', ''EQr'') = contract_reasons cycle_db (''EQe'', ''EQr'')"
    by blast+
  have "contract_reasons cycle_db (''EQe'', ''EQr'') = Some (Some 5)" by (simp add: contract_reasons_def cycle_db_def sample_contract_def)
  then show ?thesis using run result [THEN conjunct2, THEN conjunct1] stored table by (intro exI conjI) (assumption | simp)+
qed

end
