(* ===== verification/EventStore.thy ===== *)
theory EventStore
  imports SqlReports CycleStore
begin

text \<open>
  The provider events of a storage-proof cycle.  One recorder (\<open>Recorder\<close>) serves the two endpoint refreshes of a cycle
  (\<open>EndpointRefresh\<close>) and is flushed after the main pass (\<open>StoreProof\<close>); each refresh loads the last statuses from the database first.
  What the recorder relies on is that the repository finds later what it was given: the interface \<open>event_store\<close>, with the repository of
  \<open>SqlRepo\<close> as an instance.
\<close>

section \<open>The events of one refresh\<close>

text \<open>The statuses of a provider's events, and what one outcome adds to them.\<close>

definition statuses_for :: "string \<Rightarrow> provider_pipeline_event list \<Rightarrow> pipeline_status list" where
  "statuses_for pk es = map ppe_Status (filter (\<lambda>e. ppe_ProviderPubkey e = pk) es)"

definition outcome_statuses :: "pipeline_status option \<Rightarrow> bool \<Rightarrow> pipeline_status list" where
  "outcome_statuses prev resolved =
     (if resolved then (if prev = Some PipelineEventError then [PipelineEventOK] else []) else [PipelineEventError])"

lemma RecordProviderResolve_statuses:
  "\<exists>r'. RecordProviderResolve k stage resolved err (Some r) = Some r' \<and> rc_repo r' = rc_repo r \<and> rc_bagEvents r' = rc_bagEvents r \<and>
     (k \<noteq> pk \<longrightarrow> map_of (rc_lastProviderStatus r') pk = map_of (rc_lastProviderStatus r) pk \<and>
        statuses_for pk (rc_providerEvents r') = statuses_for pk (rc_providerEvents r)) \<and>
     (k = pk \<and> pk \<noteq> [] \<longrightarrow> statuses_for pk (rc_providerEvents r') =
        statuses_for pk (rc_providerEvents r) @ outcome_statuses (map_of (rc_lastProviderStatus r) pk) resolved)"
  by (auto simp: RecordProviderResolve_def appendProviderEvent_def statuses_for_def outcome_statuses_def Let_def AList.update_conv')

lemma zero_endpoint [simp]: "\<not> hasValidResolvedStorageEndpoint zero_provider_ip"
  by (rule zero_ip_invalid(1)) (simp add: zero_provider_ip_def)

text \<open>Every provider of the targets is recorded once, with its cached endpoint as the outcome.\<close>

lemma record_targets_statuses:
  assumes "pk \<noteq> []"
  shows "\<exists>r'. record_targets st ov ts seen (Some r) = Some r' \<and> rc_repo r' = rc_repo r \<and>
    statuses_for pk (rc_providerEvents r') = statuses_for pk (rc_providerEvents r) @
      (if pk \<in> rel_ProviderPublicKey ` set ts - set seen
       then outcome_statuses (map_of (rc_lastProviderStatus r) pk) (hasValidResolvedStorageEndpoint (go_get zero_provider_ip (rf_available st) pk)) else [])"
proof (induction ts arbitrary: seen r)
  case (Cons sc ts)
  let ?k = "rel_ProviderPublicKey sc" and ?ok = "\<lambda>k. hasValidResolvedStorageEndpoint (go_get zero_provider_ip (rf_available st) k)"
  show ?case
  proof (cases "?k \<in> set seen")
    case True
    then show ?thesis using Cons.IH [of seen r] by (auto simp: Let_def)
  next
    case False
    then obtain stage err where rec: "record_targets st ov (sc # ts) seen (Some r) =
        record_targets st ov ts (?k # seen) (RecordProviderResolve ?k stage (?ok ?k) err (Some r))"
    proof (cases "?ok ?k")
      case True
      then show ?thesis using False that [of StageEndpointResolve None] by (simp add: Let_def)
    next
      case bad: False
      obtain stage e where "(case map_of ov ?k of
                Some e \<Rightarrow> (StageOverlayStorageFallback, e)
              | None \<Rightarrow>
                 (case map_of (rf_errors st) ?k of
                    Some e \<Rightarrow> (resolveStageFromErr (Some e), e)
                  | None \<Rightarrow> (StageEndpointResolve, ErrText ''storage endpoint not resolved''))) = (stage, e)" by fastforce
      then show ?thesis using False bad that [of stage "Some e"] by (simp add: Let_def)
    qed
    obtain r1 where r1: "RecordProviderResolve ?k stage (?ok ?k) err (Some r) = Some r1" "rc_repo r1 = rc_repo r"
      and other: "?k \<noteq> pk \<longrightarrow> map_of (rc_lastProviderStatus r1) pk = map_of (rc_lastProviderStatus r) pk \<and>
          statuses_for pk (rc_providerEvents r1) = statuses_for pk (rc_providerEvents r)"
      and own: "?k = pk \<longrightarrow> statuses_for pk (rc_providerEvents r1) =
          statuses_for pk (rc_providerEvents r) @ outcome_statuses (map_of (rc_lastProviderStatus r) pk) (?ok ?k)"
      using RecordProviderResolve_statuses [of ?k stage "?ok ?k" err r pk] assms by blast
    obtain r2 where r2: "record_targets st ov ts (?k # seen) (Some r1) = Some r2" "rc_repo r2 = rc_repo r1"
      "statuses_for pk (rc_providerEvents r2) = statuses_for pk (rc_providerEvents r1) @
        (if pk \<in> rel_ProviderPublicKey ` set ts - set (?k # seen) then outcome_statuses (map_of (rc_lastProviderStatus r1) pk) (?ok pk) else [])"
      using Cons.IH [of "?k # seen" r1] by blast
    show ?thesis using rec r1 r2 other own False by (cases "?k = pk") auto
  qed
qed simp

lemma refresh_targets_keys:
  assumes "order_ok (re_targetOrder env)"
  shows "rel_ProviderPublicKey ` set (refresh_targets env states scs staleOnly) =
    {pk \<in> rel_ProviderPublicKey ` set scs. staleOnly \<longrightarrow> is_stale env states pk}"
proof -
  have "rel_ProviderPublicKey (the (map_of (unique_providers scs) pk)) = pk" if "pk \<in> dom (map_of (unique_providers scs))" for pk
    using that unique_providers_Some [of scs pk] by auto
  then show ?thesis
    unfolding refresh_targets_def Let_def set_map image_image set_filter set_range_keys [OF assms]
    by (auto simp: unique_providers_dom image_iff)
qed

text \<open>The endpoints a refresh knows of, by provider.\<close>

definition known_states :: "('addr, 's) refresh_env \<Rightarrow> contract_relation list \<Rightarrow> 's \<Rightarrow> provider_endpoint_state go_map option" where
  "known_states env scs db =
     (case re_getState env (range_keys (re_pubkeyOrder env) (unique_providers scs)) db of
        Inl _ \<Rightarrow> None
      | Inr rows \<Rightarrow> Some (build_map pes_PublicKey (\<lambda>r. r) rows []))"

definition refresh_looks_at :: "('addr, 's) refresh_env \<Rightarrow> contract_relation list \<Rightarrow> bool \<Rightarrow> 's \<Rightarrow> string \<Rightarrow> bool" where
  "refresh_looks_at env scs staleOnly db pk \<longleftrightarrow> pk \<in> rel_ProviderPublicKey ` set scs \<and>
     (case known_states env scs db of None \<Rightarrow> False | Some states \<Rightarrow> staleOnly \<longrightarrow> is_stale env states pk)"

lemma refresh_events:
  assumes "refresh_env_ok env" "rc_repo r" "pk \<noteq> []"
    and "\<And>pks. \<exists>m. re_getLast env pks db = Inr m \<and> (\<forall>k \<in> set pks. map_of m k = prev k)"
    and "refreshProvidersEndpoints env scs staleOnly (Some r) lastKnown db = (res, rec', lastKnown', db')"
  shows "\<exists>r' found. rec' = Some r' \<and> rc_repo r' \<and>
    statuses_for pk (rc_providerEvents r') = statuses_for pk (rc_providerEvents r) @
      (if refresh_looks_at env scs staleOnly db pk then outcome_statuses (prev pk) found else []) \<and>
    (\<forall>avail. res = Inr avail \<longrightarrow> found = (map_of avail pk \<noteq> None))"
proof (cases "scs = [] \<or> known_states env scs db = None")
  case True
  then have "rec' = Some r"
  proof (cases "scs = []")
    case False
    then obtain err where "re_getState env (range_keys (re_pubkeyOrder env) (unique_providers scs)) db = Inl err"
      using True by (cases "re_getState env (range_keys (re_pubkeyOrder env) (unique_providers scs)) db") (auto simp: known_states_def)
    then show ?thesis using assms(5) False by (simp add: refreshProvidersEndpoints_def Let_def)
  qed (use assms(5) in \<open>simp add: refreshProvidersEndpoints_def\<close>)
  moreover have "\<not> refresh_looks_at env scs staleOnly db pk" using True by (auto simp: refresh_looks_at_def)
  moreover have "\<exists>found. \<forall>avail. res = Inr avail \<longrightarrow> found = (map_of avail pk \<noteq> None)" by (cases res) auto
  ultimately show ?thesis using assms(2) by simp
next
  case False
  let ?get = "re_getState env (range_keys (re_pubkeyOrder env) (unique_providers scs)) db"
  obtain rows where rows: "?get = Inr rows" using False by (cases ?get) (auto simp: known_states_def)
  let ?states = "build_map pes_PublicKey (\<lambda>r. r) rows []"
  let ?ts = "refresh_targets env ?states scs staleOnly" and ?pks = "\<lambda>ts. rev (remdups (rev (map rel_ProviderPublicKey ts)))"
  have looks: "refresh_looks_at env scs staleOnly db pk \<longleftrightarrow> pk \<in> rel_ProviderPublicKey ` set ?ts"
    using assms(1) by (simp add: refresh_looks_at_def known_states_def rows refresh_targets_keys refresh_env_ok_def)
  show ?thesis
  proof (cases "staleOnly \<and> ?ts = []")
    case True
    then have "rec' = Some r \<and> res = Inr []" using False assms(5) rows by (auto simp: refreshProvidersEndpoints_def Let_def)
    moreover have "\<not> refresh_looks_at env scs staleOnly db pk" unfolding looks conjunct2 [OF True] by (simp only: list.set image_empty empty_iff not_False_eq_True)
    ultimately show ?thesis using assms(2) by (intro exI [of _ r] exI [of _ False]) simp
  next
    case run: False
    have ne: "?ts \<noteq> []"
    proof
      assume empty: "?ts = []"
      then have "rel_ProviderPublicKey ` set scs = {}" using run refresh_targets_keys [of env ?states scs staleOnly] assms(1)
        by (auto simp: refresh_env_ok_def)
      then show False using False by simp
    qed
    obtain m where m: "re_getLast env (?pks ?ts) db = Inr m" "\<forall>k \<in> set (?pks ?ts). map_of m k = prev k" using assms(4) by blast
    let ?r = "r\<lparr>rc_lastProviderStatus := m\<rparr>"
    have load: "snd (LoadProviderStatuses (\<lambda>pks. re_getLast env pks db) (?pks ?ts) r) = ?r"
      using m(1) ne assms(2) by (simp add: LoadProviderStatuses_def)
    obtain st ov where fin: "refresh_end env scs ?ts lastKnown = (st, ov)" by fastforce
    have inv: "refresh_inv (rel_ProviderPublicKey ` set scs) st" using refresh_end_inv [OF assms(1)] fin by (metis fst_conv)
    have out: "rec' = record_targets st ov ?ts [] (Some ?r)" "\<And>avail. res = Inr avail \<Longrightarrow> avail = rf_available st"
      using assms(5) False run fin load ne rows
      by (auto simp: refreshProvidersEndpoints_def refresh_end_def refresh_start_def Let_def split: prod.splits option.splits)
    have ok: "hasValidResolvedStorageEndpoint (go_get zero_provider_ip (rf_available st) pk) \<longleftrightarrow> map_of (rf_available st) pk \<noteq> None"
      using refresh_invD(1) [OF inv, of pk]
      by (cases "map_of (rf_available st) pk") (auto simp: go_get_def valid_only_Some split: if_splits dest: sym)
    obtain r' where r': "record_targets st ov ?ts [] (Some ?r) = Some r'" "rc_repo r' = rc_repo ?r"
      "statuses_for pk (rc_providerEvents r') = statuses_for pk (rc_providerEvents ?r) @
        (if pk \<in> rel_ProviderPublicKey ` set ?ts - set [] then outcome_statuses (map_of (rc_lastProviderStatus ?r) pk) (map_of (rf_available st) pk \<noteq> None) else [])"
      using record_targets_statuses [OF assms(3), of st ov ?ts "[]" ?r] unfolding ok by blast
    have "map_of m pk = prev pk" if "pk \<in> rel_ProviderPublicKey ` set ?ts" using that m(2) by auto
    then show ?thesis using r' out assms(2) looks
      by (intro exI [of _ r'] exI [of _ "map_of (rf_available st) pk \<noteq> None"]) auto
  qed
qed

section \<open>The interface\<close>

text \<open>
  \<open>inv\<close> is what the store keeps, \<open>fits\<close> what it requires of an event.  After an insert the last status of a provider is that of one of its
  new events, or what it was when there is none.
\<close>

locale event_store =
  fixes ins :: "provider_pipeline_event list \<Rightarrow> 's \<Rightarrow> go_error option \<times> 's"
    and getLast :: "string list \<Rightarrow> 's \<Rightarrow> go_error + pipeline_status go_map"
    and inv :: "'s \<Rightarrow> bool"
    and fits :: "provider_pipeline_event \<Rightarrow> bool"
  assumes insert_seen: "inv s \<Longrightarrow> list_all fits es \<Longrightarrow>
      \<exists>s' old new. ins es s = (None, s') \<and> inv s' \<and> getLast pks s = Inr old \<and> getLast pks s' = Inr new \<and>
        (\<forall>pk \<in> set pks. if pk \<in> ppe_ProviderPubkey ` set es
           then \<exists>e \<in> set es. ppe_ProviderPubkey e = pk \<and> map_of new pk = Some (ppe_Status e) else map_of new pk = map_of old pk)"
begin

lemma getLast_answers: "inv s \<Longrightarrow> \<exists>m. getLast pks s = Inr m"
  using insert_seen [of s "[]"] by auto

text \<open>What the next load finds after a flush: one of the statuses that were flushed, or the status before if there was none.\<close>

lemma flush_seen:
  assumes "inv s" "rc_repo r" "list_all fits (rc_providerEvents r)" "Flush ins (\<lambda>es s. (None, s)) (Some r) s = (rec', s')"
  shows "inv s' \<and> (\<exists>old new. getLast pks s = Inr old \<and> getLast pks s' = Inr new \<and>
    (\<forall>pk \<in> set pks. if statuses_for pk (rc_providerEvents r) = [] then map_of new pk = map_of old pk
       else \<exists>st \<in> set (statuses_for pk (rc_providerEvents r)). map_of new pk = Some st))"
proof (cases "rc_providerEvents r = []")
  case True
  then have "s' = s" using assms(2,4) by (auto simp: Flush_def Let_def split: if_splits)
  then show ?thesis using True assms(1) getLast_answers [OF assms(1), of pks] by (auto simp: statuses_for_def)
next
  case False
  obtain s1 old new where ins: "ins (rc_providerEvents r) s = (None, s1)" "inv s1" "getLast pks s = Inr old" "getLast pks s1 = Inr new"
    and seen: "\<forall>pk \<in> set pks. if pk \<in> ppe_ProviderPubkey ` set (rc_providerEvents r)
        then \<exists>e \<in> set (rc_providerEvents r). ppe_ProviderPubkey e = pk \<and> map_of new pk = Some (ppe_Status e) else map_of new pk = map_of old pk"
    using insert_seen [OF assms(1,3), of pks] by blast
  have "s' = s1" using assms(2,4) False ins(1) by (auto simp: Flush_def Let_def split: if_splits)
  moreover have "if statuses_for pk (rc_providerEvents r) = [] then map_of new pk = map_of old pk
       else \<exists>st \<in> set (statuses_for pk (rc_providerEvents r)). map_of new pk = Some st" if pk: "pk \<in> set pks" for pk
  proof (cases "pk \<in> ppe_ProviderPubkey ` set (rc_providerEvents r)")
    case True
    then obtain e where "e \<in> set (rc_providerEvents r)" "ppe_ProviderPubkey e = pk" "map_of new pk = Some (ppe_Status e)"
      using bspec [OF seen pk] by auto
    then show ?thesis by (auto simp: statuses_for_def filter_empty_conv)
  next
    case False
    then show ?thesis using bspec [OF seen pk] by (auto simp: statuses_for_def filter_empty_conv)
  qed
  ultimately show ?thesis using ins by blast
qed

end

section \<open>The repository is such a store\<close>

text \<open>The state is the database with the time of the next transaction; every insert takes a later time than the ones before.\<close>

definition sql_event_insert ::
  "provider_pipeline_event list \<Rightarrow> ('f, 'g) database \<times> time \<Rightarrow> go_error option \<times> ('f, 'g) database \<times> time" where
  "sql_event_insert es s =
     (case s of (db, t) \<Rightarrow> (case sql_InsertProviderPipelineEvents None t es db of (err, db') \<Rightarrow> (err, (db', t + 1))))"

definition sql_event_last ::
  "('f, 'g) sql_env \<Rightarrow> order \<Rightarrow> string list \<Rightarrow> ('f, 'g) database \<times> time \<Rightarrow> go_error + pipeline_status go_map" where
  "sql_event_last env sord pks s = sql_GetLastProviderPipelineEventStatus env None sord pks (fst s)"

definition events_before :: "('f, 'g) database \<times> time \<Rightarrow> bool" where
  "events_before s \<longleftrightarrow> (\<forall>e \<in> set (db_provider_pipeline_events (fst s)). per_created_at e < snd s)"

lemma sql_event_store:
  assumes "env_ok env" "order_ok sord"
  shows "event_store sql_event_insert (sql_event_last env sord) events_before event_fits"
proof
  fix s :: "('a, 'b) database \<times> time" and es pks
  assume inv: "events_before s" and fits: "list_all event_fits es"
  obtain db t where s: "s = (db, t)" by fastforce
  let ?db = "db\<lparr>db_provider_pipeline_events := db_provider_pipeline_events db @ map (event_row t) es\<rparr>"
  note run = InsertProviderPipelineEvents_run [OF fits, of t db]
  have "events_before (?db, t + 1)" using inv by (auto simp: events_before_def s event_row_def)
  then show "\<exists>s' old new. sql_event_insert es s = (None, s') \<and> events_before s' \<and> sql_event_last env sord pks s = Inr old \<and>
      sql_event_last env sord pks s' = Inr new \<and>
        (\<forall>pk \<in> set pks. if pk \<in> ppe_ProviderPubkey ` set es
           then \<exists>e \<in> set es. ppe_ProviderPubkey e = pk \<and> map_of new pk = Some (ppe_Status e) else map_of new pk = map_of old pk)"
    using inserted_events_seen [OF assms fits, of db t pks] inv run
    by (intro exI [of _ "(?db, t + 1)"]) (auto simp: s sql_event_insert_def sql_event_last_def events_before_def)
qed

interpretation sql_events: event_store sql_event_insert "sql_event_last sample_env (\<lambda>ks. ks)" events_before event_fits
  by (rule sql_event_store [OF sample_env_ok]) (simp add: order_ok_def)

text \<open>
  The next load finds the one status that was flushed for a provider.  With two of them, which share their time, it finds
  either.
\<close>

lemma flushed_status_seen:
  assumes "env_ok env" "order_ok sord" "events_before s" "rc_repo r" "list_all event_fits (rc_providerEvents r)"
    and "Flush sql_event_insert (\<lambda>es s. (None, s)) (Some r) s = (rec', s')" "statuses_for pk (rc_providerEvents r) = [st]"
  shows "\<exists>new. sql_event_last env sord [pk] s' = Inr new \<and> map_of new pk = Some st"
  using event_store.flush_seen [OF sql_event_store [OF assms(1,2)] assms(3-6), of "[pk]"] assms(7) by auto

lemma exec_sql_events:
  "(\<And>db'. st db = Inr db' \<Longrightarrow> db_provider_pipeline_events db' = db_provider_pipeline_events db) \<Longrightarrow>
   db_provider_pipeline_events (snd (exec_sql fault st db)) = db_provider_pipeline_events db"
  by (auto simp: exec_sql_def split: option.split sum.split)

lemma delete_contracts_events: "delete_contracts now doomed db = Inr db' \<Longrightarrow> db_provider_pipeline_events db' = db_provider_pipeline_events db"
  unfolding delete_contracts_def Let_def by (auto simp: update_providers_def split: if_splits)

lemma events_untouched:
  "db_provider_pipeline_events (snd (sql_UpdateProvidersIPs env fault now ips db)) = db_provider_pipeline_events db"
  "db_provider_pipeline_events (snd (sql_UpdateRejectedStorageContracts fault now rels db)) = db_provider_pipeline_events db"
  by (auto simp: sql_UpdateProvidersIPs_def sql_UpdateRejectedStorageContracts_def update_providers_def case_prod_beta bind_sum_Inr
      intro!: exec_sql_events dest: delete_contracts_events)

lemma last_event_events: "db_provider_pipeline_events db' = db_provider_pipeline_events db \<Longrightarrow> last_event env db' pk = last_event env db pk"
  by (simp add: last_event_def)

section \<open>The events of a cycle\<close>

lemma refresh_database:
  "refreshProvidersEndpoints env scs staleOnly rec lastKnown db = (res, rec', lastKnown', db') \<Longrightarrow>
     db' = db \<or> (\<exists>ips. db' = snd (re_updateIPs env ips db))"
  by (auto simp: refreshProvidersEndpoints_def persist_endpoints_def Let_def split: sum.splits if_splits prod.splits option.splits)
    (metis snd_conv)+

lemma refresh_known:
  "refreshProvidersEndpoints env scs staleOnly rec lastKnown db = (Inr avail, rec', lastKnown', db') \<Longrightarrow> scs \<noteq> [] \<Longrightarrow> known_states env scs db \<noteq> None"
  by (auto simp: refreshProvidersEndpoints_def known_states_def Let_def split: sum.splits)

text \<open>The checks of a pass record bag events only.\<close>

lemma record_bags_providers:
  "map_option rc_providerEvents (record_unresolved checked scs rec) = map_option rc_providerEvents rec"
  "map_option rc_providerEvents (record_results results scs rec) = map_option rc_providerEvents rec"
proof -
  have bag: "map_option rc_providerEvents (RecordBagTransition sc code stage details rec) = map_option rc_providerEvents rec" for sc code stage details rec
    by (cases rec) (auto simp: RecordBagTransition_def appendBagEvent_def Let_def)
  show "map_option rc_providerEvents (record_unresolved checked scs rec) = map_option rc_providerEvents rec"
    by (induction scs arbitrary: rec) (simp_all add: record_unresolved_def RecordBagEndpointUnresolved_def bag)
  show "map_option rc_providerEvents (record_results results scs rec) = map_option rc_providerEvents rec"
    by (induction scs arbitrary: rec) (simp_all add: record_results_def bag split: option.split)
qed

lemma pass_keeps_provider_events:
  "runStoreProofChecks tmo cl penv job scs ips rec exclude success = (res, rec', success') \<Longrightarrow>
   map_option rc_providerEvents rec' = map_option rc_providerEvents rec"
  by (auto simp: runStoreProofChecks_def Let_def record_bags_providers split: if_splits prod.splits option.splits)

text \<open>The status of a provider's last event.\<close>

definition last_status :: "('f, 'g) sql_env \<Rightarrow> ('f, 'g) database \<Rightarrow> string \<Rightarrow> pipeline_status option" where
  "last_status senv db pk = map_option (\<lambda>e. text_status (per_status e)) (last_event senv db pk)"

lemma sql_last_answers:
  assumes "rfc_lastFault rcs = None" "order_ok (rfc_lastOrder rcs)"
  shows "\<exists>m. re_getLast (sql_refresh_env senv calls rcs renv) pks s = Inr m \<and> (\<forall>k \<in> set pks. map_of m k = last_status senv (fst s) k)"
proof -
  obtain m where m: "sql_GetLastProviderPipelineEventStatus senv None (rfc_lastOrder rcs) pks (fst s) = Inr m"
    by (cases "pks = []") (simp_all add: sql_GetLastProviderPipelineEventStatus_def)
  then show ?thesis using assms GetLast_lookup [OF assms(2) m] by (simp add: sql_refresh_env_def last_status_def)
qed

text \<open>
  C32. The events of a cycle.  The stale refresh and the full refresh of a cycle write to the same recorder, whose provider events are flushed
  after the main pass.  Each of the two refreshes leaves for a provider it looks at one \<^verbatim>\<open>error\<close> event when it has no endpoint
  afterwards, and otherwise one \<^verbatim>\<open>ok\<close> event exactly when the last event stored before the cycle is an \<^verbatim>\<open>error\<close>; nothing else is recorded.
  So a provider that stays reachable leaves no trace, but one that both refreshes look at may leave its failure or its recovery twice.
\<close>

theorem cycle_provider_events:
  assumes "refresh_env_ok (sp_stale env)" "rfc_lastFault (cyc_stale calls) = None" "order_ok (rfc_lastOrder (cyc_stale calls))"
    and "refresh_env_ok (sp_full env)" "rfc_lastFault (cyc_full calls) = None" "order_ok (rfc_lastOrder (cyc_full calls))"
    and "sp_GetStorageContracts (sql_cycle_env senv calls env) s = Inr scs"
    and "refreshProvidersEndpoints (sp_stale (sql_cycle_env senv calls env)) scs True (Some (sp_recorder (sql_cycle_env senv calls env)))
      (ms_lastKnownIPs ms) s = (res, rec1, lk1, s1)"
    and "updateRejectedContracts (sp_rejectOrder env) (sp_rejectedAt env) (sp_GetProvidersInfo env)
      (sp_UpdateRejected (sql_cycle_env senv calls env)) scs s1 = (Inr active, s2)"
    and "updateProvidersIPs (sp_full (sql_cycle_env senv calls env)) active rec1 lk1 s2 = (Inr available, rec2, lk2, s3)"
    and "pk \<noteq> []"
  shows "\<exists>r found. rec2 = Some r \<and>
    StoreProof (sql_cycle_env senv calls env) ms s =
      main_pass (sql_cycle_env senv calls env) active available (Some r) (ms\<lparr>ms_lastKnownIPs := lk2\<rparr>) s3 \<and>
    statuses_for pk (rc_providerEvents r) =
      (if refresh_looks_at (sp_stale (sql_cycle_env senv calls env)) scs True s pk
       then outcome_statuses (last_status senv (fst s) pk) found else []) @
      (if pk \<in> rel_ProviderPublicKey ` set active
       then outcome_statuses (last_status senv (fst s) pk) (map_of available pk \<noteq> None) else []) \<and>
    (\<forall>early. res = Inr early \<longrightarrow> found = (map_of early pk \<noteq> None))"
proof -
  let ?env = "sql_cycle_env senv calls env"
  have envs: "sp_stale ?env = sql_refresh_env senv calls (cyc_stale calls) (sp_stale env)" "sp_full ?env = sql_refresh_env senv calls (cyc_full calls) (sp_full env)"
    "sp_rejectOrder ?env = sp_rejectOrder env" "sp_rejectedAt ?env = sp_rejectedAt env" "sp_GetProvidersInfo ?env = sp_GetProvidersInfo env"
    by (simp_all add: sql_cycle_env_def)
  have ok: "refresh_env_ok (sp_stale ?env)" "refresh_env_ok (sp_full ?env)"
    using assms(1,4) by (simp_all add: envs refresh_env_ok_def sql_refresh_env_def)
  have new: "rc_repo (sp_recorder ?env)" "statuses_for pk (rc_providerEvents (sp_recorder ?env)) = []"
    by (simp_all add: sp_recorder_def NewRecorder_def statuses_for_def)
  obtain r1 found where r1: "rec1 = Some r1" "rc_repo r1"
    and early: "statuses_for pk (rc_providerEvents r1) =
      (if refresh_looks_at (sp_stale ?env) scs True s pk then outcome_statuses (last_status senv (fst s) pk) found else [])"
      "\<forall>early. res = Inr early \<longrightarrow> found = (map_of early pk \<noteq> None)"
    using refresh_events [OF ok(1) new(1) assms(11) _ assms(8), of "last_status senv (fst s)", unfolded envs, OF sql_last_answers [OF assms(2,3)]]
    unfolding envs new(2) by auto
  have "db_provider_pipeline_events (fst s1) = db_provider_pipeline_events (fst s)"
    using refresh_database [OF assms(8)] by (auto simp: envs sql_refresh_env_def events_untouched)
  moreover have "db_provider_pipeline_events (fst s2) = db_provider_pipeline_events (fst s1)"
  proof -
    obtain rels where "s2 = s1 \<or> sp_UpdateRejected ?env rels s1 = (None, s2)" using rejected_split [OF assms(9)] by blast
    then show ?thesis
    proof
      assume "sp_UpdateRejected ?env rels s1 = (None, s2)"
      then have "s2 = snd (on_session calls (\<lambda>fault now. sql_UpdateRejectedStorageContracts fault now rels) s1)" by (simp add: sql_cycle_env_def)
      then show ?thesis by (simp add: events_untouched)
    qed simp
  qed
  ultimately have same: "last_status senv (fst s2) = last_status senv (fst s)"
    using last_event_events [of "fst s2" "fst s" senv] by (simp add: last_status_def [abs_def])
  have full: "refreshProvidersEndpoints (sp_full ?env) active False (Some r1) lk1 s2 = (Inr available, rec2, lk2, s3)"
    using assms(10) r1(1) by (simp add: updateProvidersIPs_def)
  obtain r2 where r2: "rec2 = Some r2"
    and late: "statuses_for pk (rc_providerEvents r2) = statuses_for pk (rc_providerEvents r1) @
      (if refresh_looks_at (sp_full ?env) active False s2 pk then outcome_statuses (last_status senv (fst s2) pk) (map_of available pk \<noteq> None) else [])"
    using refresh_events [OF ok(2) r1(2) assms(11) _ full, of "last_status senv (fst s2)", unfolded envs, OF sql_last_answers [OF assms(5,6)]]
    unfolding envs by blast
  have looks: "refresh_looks_at (sp_full ?env) active False s2 pk \<longleftrightarrow> pk \<in> rel_ProviderPublicKey ` set active"
    using refresh_known [OF full] by (cases "active = []") (auto simp: refresh_looks_at_def)
  have "StoreProof ?env ms s = main_pass ?env active available (Some r2) (ms\<lparr>ms_lastKnownIPs := lk2\<rparr>) s3"
    using assms(7-10) r2 by (simp add: StoreProof_def envs)
  then show ?thesis using r2 early late unfolding same looks by auto
qed

text \<open>A cycle that finds provider \<open>aa\<close>, whose last event is an error and whose endpoint is not stored, in both refreshes.\<close>

definition troubled_db :: "(int, int) database" where
  "troubled_db = cycle_db\<lparr>db_provider_pipeline_events := [\<lparr>per_pubkey = ''aa'', per_status = ''error'', per_stage = StageEndpointResolve,
     per_reason_code = None, per_error_message = None, per_run_id = ''r'', per_worker = ''StoreProof'', per_created_at = 0\<rparr>]\<rparr>"

definition troubled_refreshes :: "bool" where
  "troubled_refreshes =
     (case sp_GetStorageContracts (sql_cycle_env sample_env cycle_db_calls cycle_db_env) (troubled_db, 0, []) of
        Inl _ \<Rightarrow> False
      | Inr scs \<Rightarrow>
         refresh_looks_at (sp_stale (sql_cycle_env sample_env cycle_db_calls cycle_db_env)) scs True (troubled_db, 0, []) ''aa'' \<and>
         (case refreshProvidersEndpoints (sp_stale (sql_cycle_env sample_env cycle_db_calls cycle_db_env)) scs True
             (Some (sp_recorder (sql_cycle_env sample_env cycle_db_calls cycle_db_env))) (ms_lastKnownIPs cycle_start) (troubled_db, 0, []) of
            (Inl _, _) \<Rightarrow> False
          | (Inr early, rec1, lk1, s1) \<Rightarrow>
             map_of early ''aa'' \<noteq> None \<and>
             (case updateRejectedContracts (sp_rejectOrder cycle_db_env) (sp_rejectedAt cycle_db_env) (sp_GetProvidersInfo cycle_db_env)
                 (sp_UpdateRejected (sql_cycle_env sample_env cycle_db_calls cycle_db_env)) scs s1 of
                (Inl _, _) \<Rightarrow> False
              | (Inr active, s2) \<Rightarrow>
                 ''aa'' \<in> set (map rel_ProviderPublicKey active) \<and>
                 (case updateProvidersIPs (sp_full (sql_cycle_env sample_env cycle_db_calls cycle_db_env)) active rec1 lk1 s2 of
                    (Inl _, _) \<Rightarrow> False
                  | (Inr available, _) \<Rightarrow> map_of available ''aa'' \<noteq> None))))"

lemma troubled_refreshes_succeed: "troubled_refreshes" "last_status sample_env troubled_db ''aa'' = Some PipelineEventError"
  by code_simp+

theorem cycle_provider_events_witness:
  "\<exists>active available r lk s. StoreProof (sql_cycle_env sample_env cycle_db_calls cycle_db_env) cycle_start (troubled_db, 0, []) =
      main_pass (sql_cycle_env sample_env cycle_db_calls cycle_db_env) active available (Some r) (cycle_start\<lparr>ms_lastKnownIPs := lk\<rparr>) s \<and>
    statuses_for ''aa'' (rc_providerEvents r) = [PipelineEventOK, PipelineEventOK]"
proof -
  let ?env = "sql_cycle_env sample_env cycle_db_calls cycle_db_env" and ?s = "(troubled_db, 0, []) :: (int, int) session"
  note t = troubled_refreshes_succeed(1) [unfolded troubled_refreshes_def set_map]
  obtain scs where scs: "sp_GetStorageContracts ?env ?s = Inr scs" using t by (cases "sp_GetStorageContracts ?env ?s") auto
  note t = t [unfolded scs sum.case]
  obtain res rec1 lk1 s1 where run1:
    "refreshProvidersEndpoints (sp_stale ?env) scs True (Some (sp_recorder ?env)) (ms_lastKnownIPs cycle_start) ?s = (res, rec1, lk1, s1)"
    by (rule prod_cases4)
  note t = t [unfolded run1 prod.case]
  obtain early where res: "res = Inr early" using t by (cases res) auto
  note stale = run1 [unfolded res]
  note t = t [unfolded res sum.case]
  obtain out2 s2 where run2: "updateRejectedContracts (sp_rejectOrder cycle_db_env) (sp_rejectedAt cycle_db_env) (sp_GetProvidersInfo cycle_db_env)
      (sp_UpdateRejected ?env) scs s1 = (out2, s2)" by (rule prod.exhaust)
  note t = t [unfolded run2 prod.case]
  obtain active where out2: "out2 = Inr active" using t by (cases out2) auto
  note rej = run2 [unfolded out2]
  note t = t [unfolded out2 sum.case]
  obtain out3 rec2 lk2 s3 where run3: "updateProvidersIPs (sp_full ?env) active rec1 lk1 s2 = (out3, rec2, lk2, s3)" by (rule prod_cases4)
  note t = t [unfolded run3 prod.case]
  obtain available where out3: "out3 = Inr available" using t by (cases out3) auto
  note full = run3 [unfolded out3]
  note t = t [unfolded out3 sum.case]
  have looks: "refresh_looks_at (sp_stale ?env) scs True ?s ''aa''" and hits: "map_of early ''aa'' \<noteq> None"
    "''aa'' \<in> rel_ProviderPublicKey ` set active" "map_of available ''aa'' \<noteq> None" using t by blast+
  have orders: "refresh_env_ok (sp_stale cycle_db_env)" "rfc_lastFault (cyc_stale cycle_db_calls) = None" "order_ok (rfc_lastOrder (cyc_stale cycle_db_calls))"
    "refresh_env_ok (sp_full cycle_db_env)" "rfc_lastFault (cyc_full cycle_db_calls) = None" "order_ok (rfc_lastOrder (cyc_full cycle_db_calls))"
    by (simp_all add: cycle_db_env_def cycle_db_refresh_def cycle_db_calls_def no_refresh_faults_def refresh_env_ok_def order_ok_def)
  have "''aa'' \<noteq> []" by simp
  from cycle_provider_events [OF orders scs stale rej full this] obtain r found where
    run: "StoreProof ?env cycle_start ?s = main_pass ?env active available (Some r) (cycle_start\<lparr>ms_lastKnownIPs := lk2\<rparr>) s3"
    and events: "statuses_for ''aa'' (rc_providerEvents r) =
      (if refresh_looks_at (sp_stale ?env) scs True ?s ''aa'' then outcome_statuses (last_status sample_env (fst ?s) ''aa'') found else []) @
      (if ''aa'' \<in> rel_ProviderPublicKey ` set active
       then outcome_statuses (last_status sample_env (fst ?s) ''aa'') (map_of available ''aa'' \<noteq> None) else [])"
    and found: "\<forall>e. (Inr early :: go_error + provider_ip go_map) = Inr e \<longrightarrow> found = (map_of e ''aa'' \<noteq> None)" by blast
  have "found" using found hits(1) by simp
  then have "statuses_for ''aa'' (rc_providerEvents r) = [PipelineEventOK, PipelineEventOK]"
    using events looks hits(2,3) troubled_refreshes_succeed(2) by (simp add: outcome_statuses_def)
  then show ?thesis using run by blast
qed

end
