(* ===== verification/RepoMetrics.thy ===== *)
theory RepoMetrics
  imports Telemetry Workers
begin

text \<open>
  The metrics middlewares: \<^verbatim>\<open>repositories/providers/metrics.go\<close>, \<^verbatim>\<open>repositories/system/metrics.go\<close> and \<^verbatim>\<open>metrics.go\<close> of the
  workers.  Each implements the interface it wraps; every method counts its call and the time it took under the labels method name and whether
  it failed, and returns what the wrapped one returns.

  An interface is a record of its methods, which act on a state; the state of a middleware is that of what it wraps together with the
  counters.  \<open>elapsed\<close> is the time measured for the call made when the counters are in a given state.
\<close>

record call_metrics =
  cm_reqCount :: "((string \<times> string) \<times> nat) list"
  cm_reqDuration :: "((string \<times> string) \<times> duration list) list"

definition count_of :: "call_metrics \<Rightarrow> string \<times> string \<Rightarrow> nat" where
  "count_of m l = (case map_of (cm_reqCount m) l of None \<Rightarrow> 0 | Some n \<Rightarrow> n)"

definition observe_call :: "string \<Rightarrow> bool \<Rightarrow> duration \<Rightarrow> call_metrics \<Rightarrow> call_metrics" where
  "observe_call name failed d m =
     (let labels = (name, if failed then ''true'' else ''false'')
      in m\<lparr>cm_reqCount := AList.update labels (count_of m labels + 1) (cm_reqCount m),
           cm_reqDuration := AList.update labels ((case map_of (cm_reqDuration m) labels of None \<Rightarrow> [] | Some ds \<Rightarrow> ds) @ [d]) (cm_reqDuration m)\<rparr>)"

definition observed ::
  "(call_metrics \<Rightarrow> duration) \<Rightarrow> string \<Rightarrow> ('r \<Rightarrow> bool) \<Rightarrow> ('s \<Rightarrow> 'r \<times> 's) \<Rightarrow> 's \<times> call_metrics \<Rightarrow> 'r \<times> 's \<times> call_metrics" where
  "observed elapsed name failed call st =
     (case st of (s, m) \<Rightarrow> (case call s of (r, s') \<Rightarrow> (r, s', observe_call name (failed r) (elapsed m) m)))"

definition is_err :: "go_error option \<Rightarrow> bool" where "is_err e \<longleftrightarrow> e \<noteq> None"

definition step_err :: "step_result \<Rightarrow> bool" where "step_err r \<longleftrightarrow> snd r \<noteq> None"

section \<open>The provider repository\<close>

record ('s, 'f, 'g, 'j) provider_repository =
  rp_GetProvidersByPubkeys :: "string list \<Rightarrow> 's \<Rightarrow> (go_error + 'g provider_db list) \<times> 's"
  rp_GetFilteredProviders :: "('f, 'g) provider_filters \<Rightarrow> provider_sort \<Rightarrow> int \<Rightarrow> int \<Rightarrow> 's \<Rightarrow> (go_error + 'g provider_db list) \<times> 's"
  rp_GetFiltersRange :: "'s \<Rightarrow> (go_error + ('f, 'g) filters_range) \<times> 's"
  rp_UpdateTelemetry :: "('f, 'g, 'j) telemetry_update list \<Rightarrow> 's \<Rightarrow> go_error option \<times> 's"
  rp_UpdateBenchmarks :: "('f, 'g) benchmark_update list \<Rightarrow> 's \<Rightarrow> go_error option \<times> 's"
  rp_AddStatuses :: "provider_status_update list \<Rightarrow> 's \<Rightarrow> go_error option \<times> 's"
  rp_GetStorageContractsChecks :: "string list \<Rightarrow> 's \<Rightarrow> (go_error + contract_check list) \<times> 's"
  rp_GetContractBags :: "string \<Rightarrow> int \<Rightarrow> int \<Rightarrow> 's \<Rightarrow> (go_error + contract_bag list \<times> int) \<times> 's"
  rp_UpdateContractProofsChecks :: "contract_proofs_check list \<Rightarrow> 's \<Rightarrow> go_error option \<times> 's"
  rp_UpdateProvidersIPs :: "provider_ip list \<Rightarrow> 's \<Rightarrow> go_error option \<times> 's"
  rp_UpdateUptime :: "'s \<Rightarrow> go_error option \<times> 's"
  rp_UpdateRating :: "'s \<Rightarrow> go_error option \<times> 's"
  rp_GetAllProvidersPubkeys :: "'s \<Rightarrow> (go_error + string list) \<times> 's"
  rp_GetAllProvidersWallets :: "'s \<Rightarrow> (go_error + provider_wallet list) \<times> 's"
  rp_UpdateProvidersLT :: "provider_wallet_lt list \<Rightarrow> 's \<Rightarrow> go_error option \<times> 's"
  rp_AddStorageContracts :: "storage_contract list \<Rightarrow> 's \<Rightarrow> go_error option \<times> 's"
  rp_UpdateStatuses :: "'s \<Rightarrow> go_error option \<times> 's"
  rp_GetStorageContracts :: "'s \<Rightarrow> (go_error + contract_relation list) \<times> 's"
  rp_UpdateRejectedStorageContracts :: "contract_relation list \<Rightarrow> 's \<Rightarrow> go_error option \<times> 's"
  rp_UpdateProviders :: "provider_update list \<Rightarrow> 's \<Rightarrow> go_error option \<times> 's"
  rp_AddProviders :: "provider_create list \<Rightarrow> 's \<Rightarrow> go_error option \<times> 's"
  rp_GetProviderIP :: "string \<Rightarrow> 's \<Rightarrow> (go_error + string) \<times> 's"
  rp_GetProvidersIPs :: "'s \<Rightarrow> (go_error + provider_ip list) \<times> 's"
  rp_GetProvidersEndpointState :: "string list \<Rightarrow> 's \<Rightarrow> (go_error + provider_endpoint_state list) \<times> 's"
  rp_UpdateProvidersIPInfo :: "provider_ip_info list \<Rightarrow> 's \<Rightarrow> go_error option \<times> 's"
  rp_CleanOldProvidersHistory :: "int \<Rightarrow> 's \<Rightarrow> (go_error + int) \<times> 's"
  rp_CleanOldStatusesHistory :: "int \<Rightarrow> 's \<Rightarrow> (go_error + int) \<times> 's"
  rp_CleanOldBenchmarksHistory :: "int \<Rightarrow> 's \<Rightarrow> (go_error + int) \<times> 's"
  rp_CleanOldTelemetryHistory :: "int \<Rightarrow> 's \<Rightarrow> (go_error + int) \<times> 's"
  rp_CleanOldProviderPipelineEvents :: "int \<Rightarrow> 's \<Rightarrow> (go_error + int) \<times> 's"
  rp_CleanOldBagPipelineEvents :: "int \<Rightarrow> 's \<Rightarrow> (go_error + int) \<times> 's"
  rp_InsertProviderPipelineEvents :: "provider_pipeline_event list \<Rightarrow> 's \<Rightarrow> go_error option \<times> 's"
  rp_InsertBagPipelineEvents :: "bag_pipeline_event list \<Rightarrow> 's \<Rightarrow> go_error option \<times> 's"
  rp_GetLastProviderPipelineEventStatus :: "string list \<Rightarrow> 's \<Rightarrow> (go_error + pipeline_status go_map) \<times> 's"

definition metrics_GetProvidersByPubkeys ::
  "(call_metrics \<Rightarrow> duration) \<Rightarrow> ('s, 'f, 'g, 'j) provider_repository \<Rightarrow> string list \<Rightarrow> 's \<times> call_metrics \<Rightarrow> (go_error + 'g provider_db list) \<times> 's \<times> call_metrics" where
  "metrics_GetProvidersByPubkeys elapsed repo a = observed elapsed ''GetProvidersByPubkeys'' isl (rp_GetProvidersByPubkeys repo a)"

definition metrics_GetFilteredProviders ::
  "(call_metrics \<Rightarrow> duration) \<Rightarrow> ('s, 'f, 'g, 'j) provider_repository \<Rightarrow> ('f, 'g) provider_filters \<Rightarrow> provider_sort \<Rightarrow> int \<Rightarrow> int \<Rightarrow> 's \<times> call_metrics \<Rightarrow> (go_error + 'g provider_db list) \<times> 's \<times> call_metrics" where
  "metrics_GetFilteredProviders elapsed repo a b c d = observed elapsed ''GetFilteredProviders'' isl (rp_GetFilteredProviders repo a b c d)"

definition metrics_GetFiltersRange ::
  "(call_metrics \<Rightarrow> duration) \<Rightarrow> ('s, 'f, 'g, 'j) provider_repository \<Rightarrow> 's \<times> call_metrics \<Rightarrow> (go_error + ('f, 'g) filters_range) \<times> 's \<times> call_metrics" where
  "metrics_GetFiltersRange elapsed repo = observed elapsed ''GetFiltersRange'' isl (rp_GetFiltersRange repo)"

definition metrics_UpdateTelemetry ::
  "(call_metrics \<Rightarrow> duration) \<Rightarrow> ('s, 'f, 'g, 'j) provider_repository \<Rightarrow> ('f, 'g, 'j) telemetry_update list \<Rightarrow> 's \<times> call_metrics \<Rightarrow> go_error option \<times> 's \<times> call_metrics" where
  "metrics_UpdateTelemetry elapsed repo a = observed elapsed ''UpdateTelemetry'' is_err (rp_UpdateTelemetry repo a)"

definition metrics_UpdateBenchmarks ::
  "(call_metrics \<Rightarrow> duration) \<Rightarrow> ('s, 'f, 'g, 'j) provider_repository \<Rightarrow> ('f, 'g) benchmark_update list \<Rightarrow> 's \<times> call_metrics \<Rightarrow> go_error option \<times> 's \<times> call_metrics" where
  "metrics_UpdateBenchmarks elapsed repo a = observed elapsed ''UpdateBenchmarks'' is_err (rp_UpdateBenchmarks repo a)"

definition metrics_AddStatuses ::
  "(call_metrics \<Rightarrow> duration) \<Rightarrow> ('s, 'f, 'g, 'j) provider_repository \<Rightarrow> provider_status_update list \<Rightarrow> 's \<times> call_metrics \<Rightarrow> go_error option \<times> 's \<times> call_metrics" where
  "metrics_AddStatuses elapsed repo a = observed elapsed ''AddStatuses'' is_err (rp_AddStatuses repo a)"

definition metrics_GetStorageContractsChecks ::
  "(call_metrics \<Rightarrow> duration) \<Rightarrow> ('s, 'f, 'g, 'j) provider_repository \<Rightarrow> string list \<Rightarrow> 's \<times> call_metrics \<Rightarrow> (go_error + contract_check list) \<times> 's \<times> call_metrics" where
  "metrics_GetStorageContractsChecks elapsed repo a = observed elapsed ''GetStorageContractsChecks'' isl (rp_GetStorageContractsChecks repo a)"

definition metrics_GetContractBags ::
  "(call_metrics \<Rightarrow> duration) \<Rightarrow> ('s, 'f, 'g, 'j) provider_repository \<Rightarrow> string \<Rightarrow> int \<Rightarrow> int \<Rightarrow> 's \<times> call_metrics \<Rightarrow> (go_error + contract_bag list \<times> int) \<times> 's \<times> call_metrics" where
  "metrics_GetContractBags elapsed repo a b c = observed elapsed ''GetContractBags'' isl (rp_GetContractBags repo a b c)"

definition metrics_UpdateContractProofsChecks ::
  "(call_metrics \<Rightarrow> duration) \<Rightarrow> ('s, 'f, 'g, 'j) provider_repository \<Rightarrow> contract_proofs_check list \<Rightarrow> 's \<times> call_metrics \<Rightarrow> go_error option \<times> 's \<times> call_metrics" where
  "metrics_UpdateContractProofsChecks elapsed repo a = observed elapsed ''UpdateContractProofsChecks'' is_err (rp_UpdateContractProofsChecks repo a)"

definition metrics_UpdateProvidersIPs ::
  "(call_metrics \<Rightarrow> duration) \<Rightarrow> ('s, 'f, 'g, 'j) provider_repository \<Rightarrow> provider_ip list \<Rightarrow> 's \<times> call_metrics \<Rightarrow> go_error option \<times> 's \<times> call_metrics" where
  "metrics_UpdateProvidersIPs elapsed repo a = observed elapsed ''UpdateProvidersIPs'' is_err (rp_UpdateProvidersIPs repo a)"

definition metrics_UpdateUptime ::
  "(call_metrics \<Rightarrow> duration) \<Rightarrow> ('s, 'f, 'g, 'j) provider_repository \<Rightarrow> 's \<times> call_metrics \<Rightarrow> go_error option \<times> 's \<times> call_metrics" where
  "metrics_UpdateUptime elapsed repo = observed elapsed ''UpdateUptime'' is_err (rp_UpdateUptime repo)"

definition metrics_UpdateRating ::
  "(call_metrics \<Rightarrow> duration) \<Rightarrow> ('s, 'f, 'g, 'j) provider_repository \<Rightarrow> 's \<times> call_metrics \<Rightarrow> go_error option \<times> 's \<times> call_metrics" where
  "metrics_UpdateRating elapsed repo = observed elapsed ''UpdateRating'' is_err (rp_UpdateRating repo)"

definition metrics_GetAllProvidersPubkeys ::
  "(call_metrics \<Rightarrow> duration) \<Rightarrow> ('s, 'f, 'g, 'j) provider_repository \<Rightarrow> 's \<times> call_metrics \<Rightarrow> (go_error + string list) \<times> 's \<times> call_metrics" where
  "metrics_GetAllProvidersPubkeys elapsed repo = observed elapsed ''GetAllProvidersPubkeys'' isl (rp_GetAllProvidersPubkeys repo)"

definition metrics_GetAllProvidersWallets ::
  "(call_metrics \<Rightarrow> duration) \<Rightarrow> ('s, 'f, 'g, 'j) provider_repository \<Rightarrow> 's \<times> call_metrics \<Rightarrow> (go_error + provider_wallet list) \<times> 's \<times> call_metrics" where
  "metrics_GetAllProvidersWallets elapsed repo = observed elapsed ''GetAllProvidersWallets'' isl (rp_GetAllProvidersWallets repo)"

definition metrics_UpdateProvidersLT ::
  "(call_metrics \<Rightarrow> duration) \<Rightarrow> ('s, 'f, 'g, 'j) provider_repository \<Rightarrow> provider_wallet_lt list \<Rightarrow> 's \<times> call_metrics \<Rightarrow> go_error option \<times> 's \<times> call_metrics" where
  "metrics_UpdateProvidersLT elapsed repo a = observed elapsed ''UpdateProvidersLT'' is_err (rp_UpdateProvidersLT repo a)"

definition metrics_AddStorageContracts ::
  "(call_metrics \<Rightarrow> duration) \<Rightarrow> ('s, 'f, 'g, 'j) provider_repository \<Rightarrow> storage_contract list \<Rightarrow> 's \<times> call_metrics \<Rightarrow> go_error option \<times> 's \<times> call_metrics" where
  "metrics_AddStorageContracts elapsed repo a = observed elapsed ''AddStorageContracts'' is_err (rp_AddStorageContracts repo a)"

definition metrics_UpdateStatuses ::
  "(call_metrics \<Rightarrow> duration) \<Rightarrow> ('s, 'f, 'g, 'j) provider_repository \<Rightarrow> 's \<times> call_metrics \<Rightarrow> go_error option \<times> 's \<times> call_metrics" where
  "metrics_UpdateStatuses elapsed repo = observed elapsed ''UpdateStatuses'' is_err (rp_UpdateStatuses repo)"

definition metrics_GetStorageContracts ::
  "(call_metrics \<Rightarrow> duration) \<Rightarrow> ('s, 'f, 'g, 'j) provider_repository \<Rightarrow> 's \<times> call_metrics \<Rightarrow> (go_error + contract_relation list) \<times> 's \<times> call_metrics" where
  "metrics_GetStorageContracts elapsed repo = observed elapsed ''GetStorageContracts'' isl (rp_GetStorageContracts repo)"

definition metrics_UpdateRejectedStorageContracts ::
  "(call_metrics \<Rightarrow> duration) \<Rightarrow> ('s, 'f, 'g, 'j) provider_repository \<Rightarrow> contract_relation list \<Rightarrow> 's \<times> call_metrics \<Rightarrow> go_error option \<times> 's \<times> call_metrics" where
  "metrics_UpdateRejectedStorageContracts elapsed repo a = observed elapsed ''UpdateRejectedStorageContracts'' is_err (rp_UpdateRejectedStorageContracts repo a)"

definition metrics_UpdateProviders ::
  "(call_metrics \<Rightarrow> duration) \<Rightarrow> ('s, 'f, 'g, 'j) provider_repository \<Rightarrow> provider_update list \<Rightarrow> 's \<times> call_metrics \<Rightarrow> go_error option \<times> 's \<times> call_metrics" where
  "metrics_UpdateProviders elapsed repo a = observed elapsed ''UpdateProviders'' is_err (rp_UpdateProviders repo a)"

definition metrics_AddProviders ::
  "(call_metrics \<Rightarrow> duration) \<Rightarrow> ('s, 'f, 'g, 'j) provider_repository \<Rightarrow> provider_create list \<Rightarrow> 's \<times> call_metrics \<Rightarrow> go_error option \<times> 's \<times> call_metrics" where
  "metrics_AddProviders elapsed repo a = observed elapsed ''AddProviders'' is_err (rp_AddProviders repo a)"

definition metrics_GetProviderIP ::
  "(call_metrics \<Rightarrow> duration) \<Rightarrow> ('s, 'f, 'g, 'j) provider_repository \<Rightarrow> string \<Rightarrow> 's \<times> call_metrics \<Rightarrow> (go_error + string) \<times> 's \<times> call_metrics" where
  "metrics_GetProviderIP elapsed repo a = observed elapsed ''GetProviderIP'' isl (rp_GetProviderIP repo a)"

definition metrics_GetProvidersIPs ::
  "(call_metrics \<Rightarrow> duration) \<Rightarrow> ('s, 'f, 'g, 'j) provider_repository \<Rightarrow> 's \<times> call_metrics \<Rightarrow> (go_error + provider_ip list) \<times> 's \<times> call_metrics" where
  "metrics_GetProvidersIPs elapsed repo = observed elapsed ''GetProvidersIPs'' isl (rp_GetProvidersIPs repo)"

definition metrics_GetProvidersEndpointState ::
  "(call_metrics \<Rightarrow> duration) \<Rightarrow> ('s, 'f, 'g, 'j) provider_repository \<Rightarrow> string list \<Rightarrow> 's \<times> call_metrics \<Rightarrow> (go_error + provider_endpoint_state list) \<times> 's \<times> call_metrics" where
  "metrics_GetProvidersEndpointState elapsed repo a = observed elapsed ''GetProvidersEndpointState'' isl (rp_GetProvidersEndpointState repo a)"

definition metrics_UpdateProvidersIPInfo ::
  "(call_metrics \<Rightarrow> duration) \<Rightarrow> ('s, 'f, 'g, 'j) provider_repository \<Rightarrow> provider_ip_info list \<Rightarrow> 's \<times> call_metrics \<Rightarrow> go_error option \<times> 's \<times> call_metrics" where
  "metrics_UpdateProvidersIPInfo elapsed repo a = observed elapsed ''UpdateProvidersIPInfo'' is_err (rp_UpdateProvidersIPInfo repo a)"

definition metrics_CleanOldProvidersHistory ::
  "(call_metrics \<Rightarrow> duration) \<Rightarrow> ('s, 'f, 'g, 'j) provider_repository \<Rightarrow> int \<Rightarrow> 's \<times> call_metrics \<Rightarrow> (go_error + int) \<times> 's \<times> call_metrics" where
  "metrics_CleanOldProvidersHistory elapsed repo a = observed elapsed ''CleanOldProvidersHistory'' isl (rp_CleanOldProvidersHistory repo a)"

definition metrics_CleanOldStatusesHistory ::
  "(call_metrics \<Rightarrow> duration) \<Rightarrow> ('s, 'f, 'g, 'j) provider_repository \<Rightarrow> int \<Rightarrow> 's \<times> call_metrics \<Rightarrow> (go_error + int) \<times> 's \<times> call_metrics" where
  "metrics_CleanOldStatusesHistory elapsed repo a = observed elapsed ''CleanOldStatusesHistory'' isl (rp_CleanOldStatusesHistory repo a)"

definition metrics_CleanOldBenchmarksHistory ::
  "(call_metrics \<Rightarrow> duration) \<Rightarrow> ('s, 'f, 'g, 'j) provider_repository \<Rightarrow> int \<Rightarrow> 's \<times> call_metrics \<Rightarrow> (go_error + int) \<times> 's \<times> call_metrics" where
  "metrics_CleanOldBenchmarksHistory elapsed repo a = observed elapsed ''CleanOldBenchmarksHistory'' isl (rp_CleanOldBenchmarksHistory repo a)"

definition metrics_CleanOldTelemetryHistory ::
  "(call_metrics \<Rightarrow> duration) \<Rightarrow> ('s, 'f, 'g, 'j) provider_repository \<Rightarrow> int \<Rightarrow> 's \<times> call_metrics \<Rightarrow> (go_error + int) \<times> 's \<times> call_metrics" where
  "metrics_CleanOldTelemetryHistory elapsed repo a = observed elapsed ''CleanOldTelemetryHistory'' isl (rp_CleanOldTelemetryHistory repo a)"

definition metrics_CleanOldProviderPipelineEvents ::
  "(call_metrics \<Rightarrow> duration) \<Rightarrow> ('s, 'f, 'g, 'j) provider_repository \<Rightarrow> int \<Rightarrow> 's \<times> call_metrics \<Rightarrow> (go_error + int) \<times> 's \<times> call_metrics" where
  "metrics_CleanOldProviderPipelineEvents elapsed repo a = observed elapsed ''CleanOldProviderPipelineEvents'' isl (rp_CleanOldProviderPipelineEvents repo a)"

definition metrics_CleanOldBagPipelineEvents ::
  "(call_metrics \<Rightarrow> duration) \<Rightarrow> ('s, 'f, 'g, 'j) provider_repository \<Rightarrow> int \<Rightarrow> 's \<times> call_metrics \<Rightarrow> (go_error + int) \<times> 's \<times> call_metrics" where
  "metrics_CleanOldBagPipelineEvents elapsed repo a = observed elapsed ''CleanOldBagPipelineEvents'' isl (rp_CleanOldBagPipelineEvents repo a)"

definition metrics_InsertProviderPipelineEvents ::
  "(call_metrics \<Rightarrow> duration) \<Rightarrow> ('s, 'f, 'g, 'j) provider_repository \<Rightarrow> provider_pipeline_event list \<Rightarrow> 's \<times> call_metrics \<Rightarrow> go_error option \<times> 's \<times> call_metrics" where
  "metrics_InsertProviderPipelineEvents elapsed repo a = observed elapsed ''InsertProviderPipelineEvents'' is_err (rp_InsertProviderPipelineEvents repo a)"

definition metrics_InsertBagPipelineEvents ::
  "(call_metrics \<Rightarrow> duration) \<Rightarrow> ('s, 'f, 'g, 'j) provider_repository \<Rightarrow> bag_pipeline_event list \<Rightarrow> 's \<times> call_metrics \<Rightarrow> go_error option \<times> 's \<times> call_metrics" where
  "metrics_InsertBagPipelineEvents elapsed repo a = observed elapsed ''InsertBagPipelineEvents'' is_err (rp_InsertBagPipelineEvents repo a)"

definition metrics_GetLastProviderPipelineEventStatus ::
  "(call_metrics \<Rightarrow> duration) \<Rightarrow> ('s, 'f, 'g, 'j) provider_repository \<Rightarrow> string list \<Rightarrow> 's \<times> call_metrics \<Rightarrow> (go_error + pipeline_status go_map) \<times> 's \<times> call_metrics" where
  "metrics_GetLastProviderPipelineEventStatus elapsed repo a = observed elapsed ''GetLastProviderPipelineEventStatus'' isl (rp_GetLastProviderPipelineEventStatus repo a)"

definition NewMetrics ::
  "(call_metrics \<Rightarrow> duration) \<Rightarrow> ('s, 'f, 'g, 'j) provider_repository \<Rightarrow> ('s \<times> call_metrics, 'f, 'g, 'j) provider_repository" where
  "NewMetrics elapsed repo =
     \<lparr>rp_GetProvidersByPubkeys = metrics_GetProvidersByPubkeys elapsed repo,
      rp_GetFilteredProviders = metrics_GetFilteredProviders elapsed repo,
      rp_GetFiltersRange = metrics_GetFiltersRange elapsed repo, rp_UpdateTelemetry = metrics_UpdateTelemetry elapsed repo,
      rp_UpdateBenchmarks = metrics_UpdateBenchmarks elapsed repo, rp_AddStatuses = metrics_AddStatuses elapsed repo,
      rp_GetStorageContractsChecks = metrics_GetStorageContractsChecks elapsed repo,
      rp_GetContractBags = metrics_GetContractBags elapsed repo,
      rp_UpdateContractProofsChecks = metrics_UpdateContractProofsChecks elapsed repo,
      rp_UpdateProvidersIPs = metrics_UpdateProvidersIPs elapsed repo, rp_UpdateUptime = metrics_UpdateUptime elapsed repo,
      rp_UpdateRating = metrics_UpdateRating elapsed repo,
      rp_GetAllProvidersPubkeys = metrics_GetAllProvidersPubkeys elapsed repo,
      rp_GetAllProvidersWallets = metrics_GetAllProvidersWallets elapsed repo,
      rp_UpdateProvidersLT = metrics_UpdateProvidersLT elapsed repo,
      rp_AddStorageContracts = metrics_AddStorageContracts elapsed repo,
      rp_UpdateStatuses = metrics_UpdateStatuses elapsed repo,
      rp_GetStorageContracts = metrics_GetStorageContracts elapsed repo,
      rp_UpdateRejectedStorageContracts = metrics_UpdateRejectedStorageContracts elapsed repo,
      rp_UpdateProviders = metrics_UpdateProviders elapsed repo, rp_AddProviders = metrics_AddProviders elapsed repo,
      rp_GetProviderIP = metrics_GetProviderIP elapsed repo, rp_GetProvidersIPs = metrics_GetProvidersIPs elapsed repo,
      rp_GetProvidersEndpointState = metrics_GetProvidersEndpointState elapsed repo,
      rp_UpdateProvidersIPInfo = metrics_UpdateProvidersIPInfo elapsed repo,
      rp_CleanOldProvidersHistory = metrics_CleanOldProvidersHistory elapsed repo,
      rp_CleanOldStatusesHistory = metrics_CleanOldStatusesHistory elapsed repo,
      rp_CleanOldBenchmarksHistory = metrics_CleanOldBenchmarksHistory elapsed repo,
      rp_CleanOldTelemetryHistory = metrics_CleanOldTelemetryHistory elapsed repo,
      rp_CleanOldProviderPipelineEvents = metrics_CleanOldProviderPipelineEvents elapsed repo,
      rp_CleanOldBagPipelineEvents = metrics_CleanOldBagPipelineEvents elapsed repo,
      rp_InsertProviderPipelineEvents = metrics_InsertProviderPipelineEvents elapsed repo,
      rp_InsertBagPipelineEvents = metrics_InsertBagPipelineEvents elapsed repo,
      rp_GetLastProviderPipelineEventStatus = metrics_GetLastProviderPipelineEventStatus elapsed repo\<rparr>"

section \<open>System parameters and workers\<close>

record 's system_repository =
  sr_SetParam :: "string \<Rightarrow> string \<Rightarrow> 's \<Rightarrow> go_error option \<times> 's"
  sr_GetParam :: "string \<Rightarrow> 's \<Rightarrow> (go_error + string) \<times> 's"

definition NewSystemMetrics :: "(call_metrics \<Rightarrow> duration) \<Rightarrow> 's system_repository \<Rightarrow> ('s \<times> call_metrics) system_repository" where
  "NewSystemMetrics elapsed repo =
     \<lparr>sr_SetParam = \<lambda>key val. observed elapsed ''SetParam'' is_err (sr_SetParam repo key val),
      sr_GetParam = \<lambda>key. observed elapsed ''GetParam'' isl (sr_GetParam repo key)\<rparr>"

record 's master_worker =
  mwk_CollectNewProviders :: "'s \<Rightarrow> step_result \<times> 's"
  mwk_UpdateKnownProviders :: "'s \<Rightarrow> step_result \<times> 's"
  mwk_CollectProvidersNewStorageContracts :: "'s \<Rightarrow> step_result \<times> 's"
  mwk_StoreProof :: "'s \<Rightarrow> step_result \<times> 's"
  mwk_UpdateUptime :: "'s \<Rightarrow> step_result \<times> 's"
  mwk_UpdateRating :: "'s \<Rightarrow> step_result \<times> 's"
  mwk_UpdateIPInfo :: "'s \<Rightarrow> step_result \<times> 's"
  mwk_RefreshEndpointsFull :: "'s \<Rightarrow> step_result \<times> 's"

definition NewMasterMetrics :: "(call_metrics \<Rightarrow> duration) \<Rightarrow> 's master_worker \<Rightarrow> ('s \<times> call_metrics) master_worker" where
  "NewMasterMetrics elapsed w =
     \<lparr>mwk_CollectNewProviders = observed elapsed ''CollectNewProviders'' step_err (mwk_CollectNewProviders w),
      mwk_UpdateKnownProviders = observed elapsed ''UpdateKnownProviders'' step_err (mwk_UpdateKnownProviders w),
      mwk_CollectProvidersNewStorageContracts =
        observed elapsed ''CollectProvidersNewStorageContracts'' step_err (mwk_CollectProvidersNewStorageContracts w),
      mwk_StoreProof = observed elapsed ''StoreProof'' step_err (mwk_StoreProof w),
      mwk_UpdateUptime = observed elapsed ''UpdateUptime'' step_err (mwk_UpdateUptime w),
      mwk_UpdateRating = observed elapsed ''UpdateRating'' step_err (mwk_UpdateRating w),
      mwk_UpdateIPInfo = observed elapsed ''UpdateIPInfo'' step_err (mwk_UpdateIPInfo w),
      mwk_RefreshEndpointsFull = observed elapsed ''RefreshEndpointsFull'' step_err (mwk_RefreshEndpointsFull w)\<rparr>"

record 's telemetry_worker =
  twk_UpdateTelemetry :: "'s \<Rightarrow> step_result \<times> 's"
  twk_UpdateBenchmarks :: "'s \<Rightarrow> step_result \<times> 's"

definition NewTelemetryMetrics :: "(call_metrics \<Rightarrow> duration) \<Rightarrow> 's telemetry_worker \<Rightarrow> ('s \<times> call_metrics) telemetry_worker" where
  "NewTelemetryMetrics elapsed w =
     \<lparr>twk_UpdateTelemetry = observed elapsed ''UpdateTelemetry'' step_err (twk_UpdateTelemetry w),
      twk_UpdateBenchmarks = observed elapsed ''UpdateBenchmarks'' step_err (twk_UpdateBenchmarks w)\<rparr>"

definition NewCleanerMetrics :: "(call_metrics \<Rightarrow> duration) \<Rightarrow> ('s \<Rightarrow> step_result \<times> 's) \<Rightarrow> 's \<times> call_metrics \<Rightarrow> step_result \<times> 's \<times> call_metrics" where
  "NewCleanerMetrics elapsed cleanup = observed elapsed ''CleanupOldData'' step_err cleanup"

section \<open>The middleware changes nothing\<close>

text \<open>\<open>g\<close> is \<open>f\<close> with one more call counted under \<open>name\<close>.\<close>

definition counts_calls :: "string \<Rightarrow> ('r \<Rightarrow> bool) \<Rightarrow> ('s \<Rightarrow> 'r \<times> 's) \<Rightarrow> ('s \<times> call_metrics \<Rightarrow> 'r \<times> 's \<times> call_metrics) \<Rightarrow> bool" where
  "counts_calls name failed f g \<longleftrightarrow>
     (\<forall>s m. \<exists>m'. g (s, m) = (fst (f s), snd (f s), m') \<and>
        (\<forall>l. count_of m' l = count_of m l + of_bool (l = (name, if failed (fst (f s)) then ''true'' else ''false''))))"

lemma observed_counts: "counts_calls name failed f (observed elapsed name failed f)"
  by (auto simp: counts_calls_def observed_def observe_call_def count_of_def Let_def AList.update_conv' split: prod.splits)

definition repository_observed ::
  "('s, 'f, 'g, 'j) provider_repository \<Rightarrow> ('s \<times> call_metrics, 'f, 'g, 'j) provider_repository \<Rightarrow> bool" where
  "repository_observed repo repo' \<longleftrightarrow>
     (\<forall>a. counts_calls ''GetProvidersByPubkeys'' isl (rp_GetProvidersByPubkeys repo a) (rp_GetProvidersByPubkeys repo' a)) \<and>
     (\<forall>a b c d. counts_calls ''GetFilteredProviders'' isl (rp_GetFilteredProviders repo a b c d) (rp_GetFilteredProviders repo' a b c d)) \<and>
     (counts_calls ''GetFiltersRange'' isl (rp_GetFiltersRange repo) (rp_GetFiltersRange repo')) \<and>
     (\<forall>a. counts_calls ''UpdateTelemetry'' is_err (rp_UpdateTelemetry repo a) (rp_UpdateTelemetry repo' a)) \<and>
     (\<forall>a. counts_calls ''UpdateBenchmarks'' is_err (rp_UpdateBenchmarks repo a) (rp_UpdateBenchmarks repo' a)) \<and>
     (\<forall>a. counts_calls ''AddStatuses'' is_err (rp_AddStatuses repo a) (rp_AddStatuses repo' a)) \<and>
     (\<forall>a. counts_calls ''GetStorageContractsChecks'' isl (rp_GetStorageContractsChecks repo a) (rp_GetStorageContractsChecks repo' a)) \<and>
     (\<forall>a b c. counts_calls ''GetContractBags'' isl (rp_GetContractBags repo a b c) (rp_GetContractBags repo' a b c)) \<and>
     (\<forall>a. counts_calls ''UpdateContractProofsChecks'' is_err (rp_UpdateContractProofsChecks repo a) (rp_UpdateContractProofsChecks repo' a)) \<and>
     (\<forall>a. counts_calls ''UpdateProvidersIPs'' is_err (rp_UpdateProvidersIPs repo a) (rp_UpdateProvidersIPs repo' a)) \<and>
     (counts_calls ''UpdateUptime'' is_err (rp_UpdateUptime repo) (rp_UpdateUptime repo')) \<and>
     (counts_calls ''UpdateRating'' is_err (rp_UpdateRating repo) (rp_UpdateRating repo')) \<and>
     (counts_calls ''GetAllProvidersPubkeys'' isl (rp_GetAllProvidersPubkeys repo) (rp_GetAllProvidersPubkeys repo')) \<and>
     (counts_calls ''GetAllProvidersWallets'' isl (rp_GetAllProvidersWallets repo) (rp_GetAllProvidersWallets repo')) \<and>
     (\<forall>a. counts_calls ''UpdateProvidersLT'' is_err (rp_UpdateProvidersLT repo a) (rp_UpdateProvidersLT repo' a)) \<and>
     (\<forall>a. counts_calls ''AddStorageContracts'' is_err (rp_AddStorageContracts repo a) (rp_AddStorageContracts repo' a)) \<and>
     (counts_calls ''UpdateStatuses'' is_err (rp_UpdateStatuses repo) (rp_UpdateStatuses repo')) \<and>
     (counts_calls ''GetStorageContracts'' isl (rp_GetStorageContracts repo) (rp_GetStorageContracts repo')) \<and>
     (\<forall>a. counts_calls ''UpdateRejectedStorageContracts'' is_err (rp_UpdateRejectedStorageContracts repo a) (rp_UpdateRejectedStorageContracts repo' a)) \<and>
     (\<forall>a. counts_calls ''UpdateProviders'' is_err (rp_UpdateProviders repo a) (rp_UpdateProviders repo' a)) \<and>
     (\<forall>a. counts_calls ''AddProviders'' is_err (rp_AddProviders repo a) (rp_AddProviders repo' a)) \<and>
     (\<forall>a. counts_calls ''GetProviderIP'' isl (rp_GetProviderIP repo a) (rp_GetProviderIP repo' a)) \<and>
     (counts_calls ''GetProvidersIPs'' isl (rp_GetProvidersIPs repo) (rp_GetProvidersIPs repo')) \<and>
     (\<forall>a. counts_calls ''GetProvidersEndpointState'' isl (rp_GetProvidersEndpointState repo a) (rp_GetProvidersEndpointState repo' a)) \<and>
     (\<forall>a. counts_calls ''UpdateProvidersIPInfo'' is_err (rp_UpdateProvidersIPInfo repo a) (rp_UpdateProvidersIPInfo repo' a)) \<and>
     (\<forall>a. counts_calls ''CleanOldProvidersHistory'' isl (rp_CleanOldProvidersHistory repo a) (rp_CleanOldProvidersHistory repo' a)) \<and>
     (\<forall>a. counts_calls ''CleanOldStatusesHistory'' isl (rp_CleanOldStatusesHistory repo a) (rp_CleanOldStatusesHistory repo' a)) \<and>
     (\<forall>a. counts_calls ''CleanOldBenchmarksHistory'' isl (rp_CleanOldBenchmarksHistory repo a) (rp_CleanOldBenchmarksHistory repo' a)) \<and>
     (\<forall>a. counts_calls ''CleanOldTelemetryHistory'' isl (rp_CleanOldTelemetryHistory repo a) (rp_CleanOldTelemetryHistory repo' a)) \<and>
     (\<forall>a. counts_calls ''CleanOldProviderPipelineEvents'' isl (rp_CleanOldProviderPipelineEvents repo a) (rp_CleanOldProviderPipelineEvents repo' a)) \<and>
     (\<forall>a. counts_calls ''CleanOldBagPipelineEvents'' isl (rp_CleanOldBagPipelineEvents repo a) (rp_CleanOldBagPipelineEvents repo' a)) \<and>
     (\<forall>a. counts_calls ''InsertProviderPipelineEvents'' is_err (rp_InsertProviderPipelineEvents repo a) (rp_InsertProviderPipelineEvents repo' a)) \<and>
     (\<forall>a. counts_calls ''InsertBagPipelineEvents'' is_err (rp_InsertBagPipelineEvents repo a) (rp_InsertBagPipelineEvents repo' a)) \<and>
     (\<forall>a. counts_calls ''GetLastProviderPipelineEventStatus'' isl (rp_GetLastProviderPipelineEventStatus repo a) (rp_GetLastProviderPipelineEventStatus repo' a))"

definition worker_observed :: "'s master_worker \<Rightarrow> ('s \<times> call_metrics) master_worker \<Rightarrow> bool" where
  "worker_observed w w' \<longleftrightarrow>
     counts_calls ''CollectNewProviders'' step_err (mwk_CollectNewProviders w) (mwk_CollectNewProviders w') \<and>
     counts_calls ''UpdateKnownProviders'' step_err (mwk_UpdateKnownProviders w) (mwk_UpdateKnownProviders w') \<and>
     counts_calls ''CollectProvidersNewStorageContracts'' step_err (mwk_CollectProvidersNewStorageContracts w) (mwk_CollectProvidersNewStorageContracts w') \<and>
     counts_calls ''StoreProof'' step_err (mwk_StoreProof w) (mwk_StoreProof w') \<and>
     counts_calls ''UpdateUptime'' step_err (mwk_UpdateUptime w) (mwk_UpdateUptime w') \<and>
     counts_calls ''UpdateRating'' step_err (mwk_UpdateRating w) (mwk_UpdateRating w') \<and>
     counts_calls ''UpdateIPInfo'' step_err (mwk_UpdateIPInfo w) (mwk_UpdateIPInfo w') \<and>
     counts_calls ''RefreshEndpointsFull'' step_err (mwk_RefreshEndpointsFull w) (mwk_RefreshEndpointsFull w')"

lemmas metrics_methods =
  metrics_GetProvidersByPubkeys_def metrics_GetFilteredProviders_def metrics_GetFiltersRange_def metrics_UpdateTelemetry_def
  metrics_UpdateBenchmarks_def metrics_AddStatuses_def metrics_GetStorageContractsChecks_def metrics_GetContractBags_def
  metrics_UpdateContractProofsChecks_def metrics_UpdateProvidersIPs_def metrics_UpdateUptime_def metrics_UpdateRating_def
  metrics_GetAllProvidersPubkeys_def metrics_GetAllProvidersWallets_def metrics_UpdateProvidersLT_def metrics_AddStorageContracts_def
  metrics_UpdateStatuses_def metrics_GetStorageContracts_def metrics_UpdateRejectedStorageContracts_def metrics_UpdateProviders_def
  metrics_AddProviders_def metrics_GetProviderIP_def metrics_GetProvidersIPs_def metrics_GetProvidersEndpointState_def
  metrics_UpdateProvidersIPInfo_def metrics_CleanOldProvidersHistory_def metrics_CleanOldStatusesHistory_def metrics_CleanOldBenchmarksHistory_def
  metrics_CleanOldTelemetryHistory_def metrics_CleanOldProviderPipelineEvents_def metrics_CleanOldBagPipelineEvents_def
  metrics_InsertProviderPipelineEvents_def metrics_InsertBagPipelineEvents_def metrics_GetLastProviderPipelineEventStatus_def

text \<open>
  C33. The metrics middlewares are transparent: every method of the wrapped repositories and workers returns what the method of
  the same name of the inner one returns and leaves the inner state as that does, and the one change of the call counts is one more call under
  the name of the method and the outcome.
\<close>

theorem metrics_transparent:
  "repository_observed repo (NewMetrics elapsed repo) \<and>
   (\<forall>key val. counts_calls ''SetParam'' is_err (sr_SetParam sys key val) (sr_SetParam (NewSystemMetrics elapsed sys) key val)) \<and>
   (\<forall>key. counts_calls ''GetParam'' isl (sr_GetParam sys key) (sr_GetParam (NewSystemMetrics elapsed sys) key)) \<and>
   worker_observed master (NewMasterMetrics elapsed master) \<and>
   counts_calls ''UpdateTelemetry'' step_err (twk_UpdateTelemetry tel) (twk_UpdateTelemetry (NewTelemetryMetrics elapsed tel)) \<and>
   counts_calls ''UpdateBenchmarks'' step_err (twk_UpdateBenchmarks tel) (twk_UpdateBenchmarks (NewTelemetryMetrics elapsed tel)) \<and>
   counts_calls ''CleanupOldData'' step_err cleanup (NewCleanerMetrics elapsed cleanup)"
  by (simp add: repository_observed_def worker_observed_def NewMetrics_def metrics_methods NewSystemMetrics_def NewMasterMetrics_def
      NewTelemetryMetrics_def NewCleanerMetrics_def observed_counts)

end
