(* ===== verification/JobProgress.thy ===== *)
theory JobProgress
  imports CheckerRun
begin

text \<open>
  The progress of a request in \<^verbatim>\<open>agent/internal/checker/checker.go\<close> (\<^verbatim>\<open>jobProgress\<close>): the goroutines of all providers add the contracts they
  have finished to one atomic counter, and whoever passes the next threshold prints a line.  There is no lock: the threshold is
  read, and moved by compare-and-swap in a loop.  A call of \<^verbatim>\<open>advance\<close> is therefore a small state machine whose steps are the atomic
  operations, and a run interleaves the steps of all calls in any order.
\<close>

section \<open>The counters and the steps of a call\<close>

record job_progress =
  jp_total :: nat
  jp_step :: nat
  jp_processed :: nat
  jp_nextLogAt :: nat

definition newJobProgress :: "nat \<Rightarrow> nat \<Rightarrow> job_progress" where
  "newJobProgress tot step =
     (let step = (if step = 0 then 100 else step)
      in \<lparr>jp_total = tot, jp_step = step, jp_processed = 0,
          jp_nextLogAt = (if tot > 0 then (if step > tot then tot else step) else 0)\<rparr>)"

text \<open>
  Where a call is: before the atomic addition, before reading the threshold, before the compare-and-swap with the value read, before
  printing, or at its end.
\<close>

datatype call = Adding nat | Loading nat | Swapping nat nat | Printing nat | Ended

record job_run =
  jr_progress :: job_progress
  jr_calls :: "call list"
  jr_lines :: "(nat \<times> nat) list"

definition next_threshold :: "job_progress \<Rightarrow> nat \<Rightarrow> nat" where
  "next_threshold p n =
     (let newNext = (n + jp_step p) mod 2 ^ 64;
          newNext = (if newNext > jp_total p then jp_total p else newNext)
      in if n \<ge> jp_total p then 0 else newNext)"

definition progress_line :: "job_progress \<Rightarrow> nat \<Rightarrow> nat \<times> nat" where
  "progress_line p current =
     (let scanned = (if current > jp_total p then jp_total p else current) in (scanned, jp_total p - scanned))"

text \<open>One atomic operation of a call: its next place, the counters, and the line printed.\<close>

fun call_step :: "job_progress \<Rightarrow> call \<Rightarrow> (call \<times> job_progress \<times> (nat \<times> nat) list) option" where
  "call_step p (Adding n) =
     (if jp_total p = 0 \<or> n = 0 then Some (Ended, p, [])
      else (let current = (jp_processed p + n) mod 2 ^ 64 in Some (Loading current, p\<lparr>jp_processed := current\<rparr>, [])))"
| "call_step p (Loading current) =
     (let n = jp_nextLogAt p
      in if n = 0 \<or> current < n \<and> current < jp_total p then Some (Ended, p, []) else Some (Swapping current n, p, []))"
| "call_step p (Swapping current n) =
     (if jp_nextLogAt p = n then Some (Printing current, p\<lparr>jp_nextLogAt := next_threshold p n\<rparr>, [])
      else Some (Loading current, p, []))"
| "call_step p (Printing current) = Some (Ended, p, [progress_line p current])"
| "call_step p Ended = None"

inductive progress_step :: "job_run \<Rightarrow> job_run \<Rightarrow> bool" where
  step: "i < length (jr_calls s) \<Longrightarrow> call_step (jr_progress s) (jr_calls s ! i) = Some (c, p, ls) \<Longrightarrow>
    progress_step s \<lparr>jr_progress = p, jr_calls = (jr_calls s)[i := c], jr_lines = jr_lines s @ ls\<rparr>"

definition progress_start :: "nat \<Rightarrow> nat list \<Rightarrow> job_run" where
  "progress_start step ns = \<lparr>jr_progress = newJobProgress (sum_list ns) step, jr_calls = map Adding ns, jr_lines = []\<rparr>"

section \<open>The invariant\<close>

text \<open>Thresholds still to be passed.\<close>

definition thresholds_left :: "job_progress \<Rightarrow> nat" where
  "thresholds_left p = (if jp_nextLogAt p = 0 then 0 else (jp_total p - jp_nextLogAt p + jp_step p - 1) div jp_step p + 1)"

definition counters_ok :: "job_progress \<Rightarrow> bool" where
  "counters_ok p \<longleftrightarrow> 0 < jp_step p \<and> 0 < jp_total p \<and> jp_total p + jp_step p < 2 ^ 64 \<and> jp_nextLogAt p \<le> jp_total p \<and> jp_processed p \<le> jp_total p"

primrec call_ok :: "job_progress \<Rightarrow> call \<Rightarrow> bool" where
  "call_ok p (Adding n) \<longleftrightarrow> 0 < n"
| "call_ok p (Loading current) \<longleftrightarrow> 0 < current \<and> current \<le> jp_processed p"
| "call_ok p (Swapping current n) \<longleftrightarrow> 0 < current \<and> current \<le> jp_processed p \<and> 0 < n \<and> n \<le> jp_total p \<and> n \<le> current"
| "call_ok p (Printing current) \<longleftrightarrow> 0 < current \<and> current \<le> jp_processed p"
| "call_ok p Ended \<longleftrightarrow> True"

text \<open>The contracts a call has still to add; whether it carries the last contract, before and after its swap; whether it is printing.\<close>

definition pending :: "call \<Rightarrow> nat" where
  "pending c = (case c of Adding n \<Rightarrow> n | _ \<Rightarrow> 0)"

definition chasing :: "nat \<Rightarrow> call \<Rightarrow> nat" where
  "chasing tot c = (case c of Loading n \<Rightarrow> of_bool (n = tot) | Swapping n _ \<Rightarrow> of_bool (n = tot) | _ \<Rightarrow> 0)"

definition printing :: "call \<Rightarrow> nat" where
  "printing c = (case c of Printing _ \<Rightarrow> 1 | _ \<Rightarrow> 0)"

definition carries_last :: "nat \<Rightarrow> call \<Rightarrow> nat" where
  "carries_last tot c = chasing tot c + (case c of Printing n \<Rightarrow> of_bool (n = tot) | _ \<Rightarrow> 0)"

definition sum_calls :: "(call \<Rightarrow> nat) \<Rightarrow> call list \<Rightarrow> nat" where
  "sum_calls f cs = sum_list (map f cs)"

definition last_lines :: "(nat \<times> nat) list \<Rightarrow> nat" where
  "last_lines ls = length (filter (\<lambda>(scanned, remaining). remaining = 0) ls)"

definition run_ok :: "nat \<Rightarrow> job_run \<Rightarrow> bool" where
  "run_ok lines s \<longleftrightarrow>
     (let p = jr_progress s; tot = jp_total p; cs = jr_calls s
      in counters_ok p \<and> list_all (call_ok p) cs \<and> jp_processed p + sum_calls pending cs = tot \<and>
         sum_calls (carries_last tot) cs + last_lines (jr_lines s) = of_bool (jp_processed p = tot) \<and>
         (jp_nextLogAt p = 0 \<longrightarrow> jp_processed p = tot \<and> sum_calls (chasing tot) cs = 0) \<and>
         length (jr_lines s) + sum_calls printing cs + thresholds_left p = lines \<and>
         list_all (\<lambda>(scanned, remaining). 0 < scanned \<and> scanned + remaining = tot) (jr_lines s))"

lemma sum_calls_update:
  "i < length cs \<Longrightarrow> sum_calls f (cs[i := c]) + f (cs ! i) = sum_calls f cs + f c"
  unfolding sum_calls_def
proof (induction cs arbitrary: i)
  case (Cons x cs)
  then show ?case by (cases i) (auto simp: algebra_simps)
qed simp

lemma sum_calls_mono: "(\<And>c. c \<in> set cs \<Longrightarrow> f c \<le> g c) \<Longrightarrow> sum_calls f cs \<le> sum_calls g cs"
  unfolding sum_calls_def by (rule sum_list_mono)

lemma sum_calls_ge: "i < length cs \<Longrightarrow> f (cs ! i) \<le> sum_calls f cs"
  unfolding sum_calls_def by (metis length_map nth_map elem_le_sum_list)

lemma threshold_passed:
  assumes "counters_ok p" "jp_nextLogAt p = n" "0 < n"
  shows "thresholds_left (p\<lparr>jp_nextLogAt := next_threshold p n\<rparr>) + 1 = thresholds_left p"
proof (cases "n < jp_total p")
  case True
  let ?d = "jp_total p - n" and ?s = "jp_step p"
  have s: "0 < ?s" "n + ?s < 2 ^ 64" using assms(1) True by (auto simp: counters_ok_def)
  have left: "thresholds_left p = (?d + ?s - 1) div ?s + 1" using assms(2,3) by (simp add: thresholds_left_def)
  show ?thesis
  proof (cases "n + ?s > jp_total p")
    case True
    then have "(?d + ?s - 1) div ?s = 1" using \<open>n < jp_total p\<close> by (intro div_nat_eqI) auto
    then show ?thesis using True s left \<open>n < jp_total p\<close> by (simp add: next_threshold_def thresholds_left_def Let_def)
  next
    case False
    then have e: "?d + ?s - 1 = (jp_total p - (n + ?s) + ?s - 1) + ?s" using s(1) by simp
    have "(?d + ?s - 1) div ?s = (jp_total p - (n + ?s) + ?s - 1) div ?s + 1"
      unfolding e using s(1) by (simp only: div_add_self2)
    then show ?thesis using False s left \<open>n < jp_total p\<close> assms(3) by (simp add: next_threshold_def thresholds_left_def Let_def)
  qed
next
  case False
  then show ?thesis using assms by (simp add: next_threshold_def thresholds_left_def counters_ok_def Let_def)
qed

lemmas call_measures = pending_def chasing_def printing_def carries_last_def last_lines_def

lemma next_threshold_le: "next_threshold p n \<le> jp_total p"
  by (simp add: next_threshold_def Let_def)

lemma next_threshold_0:
  assumes "counters_ok p" "0 < n" "next_threshold p n = 0"
  shows "jp_total p \<le> n"
proof (rule ccontr)
  assume "\<not> jp_total p \<le> n"
  moreover from this have "(n + jp_step p) mod 2 ^ 64 = n + jp_step p" using assms(1) by (simp add: counters_ok_def)
  ultimately show False using assms by (auto simp: next_threshold_def Let_def split: if_splits)
qed

text \<open>The five kinds of steps.\<close>

lemma call_step_cases:
  assumes "counters_ok p" "call_ok p c" "jp_processed p + pending c \<le> jp_total p" "call_step p c = Some (c', p', ls)"
  obtains (add) n where "c = Adding n" "0 < n" "c' = Loading (jp_processed p + n)" "p' = p\<lparr>jp_processed := jp_processed p + n\<rparr>" "ls = []"
      "jp_processed p + n \<le> jp_total p"
  | (leave) n where "c = Loading n" "c' = Ended" "p' = p" "ls = []" "jp_nextLogAt p = 0 \<or> n < jp_total p"
  | (load) n where "c = Loading n" "c' = Swapping n (jp_nextLogAt p)" "p' = p" "ls = []" "0 < jp_nextLogAt p" "jp_nextLogAt p \<le> n"
  | (swap) n where "c = Swapping n (jp_nextLogAt p)" "c' = Printing n" "p' = p\<lparr>jp_nextLogAt := next_threshold p (jp_nextLogAt p)\<rparr>" "ls = []"
  | (retry) n m where "c = Swapping n m" "jp_nextLogAt p \<noteq> m" "c' = Loading n" "p' = p" "ls = []"
  | (line) n where "c = Printing n" "c' = Ended" "p' = p" "ls = [(n, jp_total p - n)]"
proof (cases c)
  case (Adding n)
  then have "0 < n" "(jp_processed p + n) mod 2 ^ 64 = jp_processed p + n" "jp_total p \<noteq> 0"
    using assms(1-3) by (auto simp: pending_def counters_ok_def)
  then show ?thesis using add [of n] assms(3,4) Adding by (simp add: pending_def Let_def)
next
  case (Loading n)
  show ?thesis
  proof (cases "jp_nextLogAt p = 0 \<or> n < jp_nextLogAt p \<and> n < jp_total p")
    case True
    then show ?thesis using leave [of n] assms(4) Loading by (auto simp: Let_def)
  next
    case False
    then have n: "jp_nextLogAt p \<le> n" "0 < jp_nextLogAt p" using assms(1) by (auto simp: counters_ok_def)
    have "call_step p c = Some (Swapping n (jp_nextLogAt p), p, [])" unfolding Loading call_step.simps Let_def using False by presburger
    then show ?thesis by (intro load [OF Loading]) (use assms(4) n in simp_all)
  qed
next
  case (Swapping n m)
  then show ?thesis using swap [of n] retry [of n m] assms(4) by (cases "jp_nextLogAt p = m") auto
next
  case (Printing n)
  then have "\<not> jp_total p < n" using assms(1,2) by (auto simp: counters_ok_def)
  then show ?thesis using line [of n] assms(4) Printing by (auto simp: progress_line_def)
next
  case Ended
  then show ?thesis using assms(4) by simp
qed

lemma call_step_ok:
  assumes "counters_ok p" "call_ok p c" "jp_processed p + pending c \<le> jp_total p" "call_step p c = Some (c', p', ls)"
  shows "counters_ok p' \<and> call_ok p' c' \<and> jp_total p' = jp_total p \<and> jp_step p' = jp_step p \<and> jp_processed p \<le> jp_processed p' \<and>
    jp_processed p' + pending c' = jp_processed p + pending c \<and>
    list_all (\<lambda>(scanned, remaining). 0 < scanned \<and> scanned + remaining = jp_total p) ls \<and>
    length ls + printing c' + thresholds_left p' = printing c + thresholds_left p"
  using assms
proof (cases rule: call_step_cases)
  case (swap n)
  then show ?thesis using assms(1,2) next_threshold_le [of p] threshold_passed [OF assms(1) refl]
    by (auto simp: call_measures counters_ok_def)
qed (use assms in \<open>auto simp: call_measures counters_ok_def thresholds_left_def\<close>)

lemma call_step_last:
  assumes "counters_ok p" "call_ok p c" "jp_processed p + pending c \<le> jp_total p" "call_step p c = Some (c', p', ls)"
    and "jp_nextLogAt p = 0 \<longrightarrow> jp_processed p = jp_total p \<and> chasing (jp_total p) c = 0"
  shows "carries_last (jp_total p) c' + last_lines ls + of_bool (jp_processed p = jp_total p) =
      carries_last (jp_total p) c + of_bool (jp_processed p' = jp_total p) \<and>
    (jp_nextLogAt p' = 0 \<longrightarrow> jp_processed p' = jp_total p \<and> chasing (jp_total p) c' = 0 \<and>
      (jp_nextLogAt p \<noteq> 0 \<longrightarrow> carries_last (jp_total p) c = 1))"
  using assms(1-4)
proof (cases rule: call_step_cases)
  case (swap n)
  then have "next_threshold p (jp_nextLogAt p) = 0 \<Longrightarrow> n = jp_total p \<and> jp_processed p = jp_total p"
    using assms(1,2) next_threshold_0 [OF assms(1), of "jp_nextLogAt p"] by (auto simp: counters_ok_def)
  then show ?thesis using swap assms(2) by (cases "next_threshold p (jp_nextLogAt p) = 0") (auto simp: call_measures)
qed (use assms in \<open>auto simp: call_measures counters_ok_def\<close>)

lemma sum_calls_0: "sum_calls f cs = 0 \<longleftrightarrow> (\<forall>c \<in> set cs. f c = 0)"
  by (auto simp: sum_calls_def)

lemma call_ok_mono: "jp_total p' = jp_total p \<Longrightarrow> jp_processed p \<le> jp_processed p' \<Longrightarrow> call_ok p c \<Longrightarrow> call_ok p' c"
  by (cases c) auto

lemma progress_step_ok:
  assumes "run_ok k s" "progress_step s s'"
  shows "run_ok k s'"
  using assms(2)
proof cases
  case (step i c p' ls)
  let ?p = "jr_progress s" and ?cs = "jr_calls s"
  let ?tot = "jp_total ?p" and ?c = "jr_calls s ! i"
  have inv: "counters_ok ?p" "list_all (call_ok ?p) ?cs" "jp_processed ?p + sum_calls pending ?cs = ?tot"
      "sum_calls (carries_last ?tot) ?cs + last_lines (jr_lines s) = of_bool (jp_processed ?p = ?tot)"
      "jp_nextLogAt ?p = 0 \<Longrightarrow> jp_processed ?p = ?tot \<and> sum_calls (chasing ?tot) ?cs = 0"
      "length (jr_lines s) + sum_calls printing ?cs + thresholds_left ?p = k"
      "list_all (\<lambda>(scanned, remaining). 0 < scanned \<and> scanned + remaining = ?tot) (jr_lines s)"
    using assms(1) by (simp_all add: run_ok_def Let_def)
  note upd = sum_calls_update [OF step(2), where c = c] and ge = sum_calls_ge [OF step(2)]
  have c: "call_ok ?p ?c" using inv(2) step(2) by (simp add: list_all_length)
  have pend: "jp_processed ?p + pending ?c \<le> ?tot" using ge [of pending] inv(3) by linarith
  have chase: "jp_nextLogAt ?p = 0 \<longrightarrow> jp_processed ?p = ?tot \<and> chasing ?tot ?c = 0" using inv(5) ge [of "chasing ?tot"] by fastforce
  note ok = call_step_ok [OF inv(1) c pend step(3)] and fin = call_step_last [OF inv(1) c pend step(3) chase]
  have calls: "list_all (call_ok p') (?cs[i := c])"
    using inv(2) ok call_ok_mono [of p' ?p] by (auto simp: list_all_iff dest!: subsetD [OF set_update_subset_insert])
  have carried: "sum_calls (carries_last ?tot) (?cs[i := c]) + last_lines (jr_lines s @ ls) = of_bool (jp_processed p' = ?tot)"
    using upd [of "carries_last ?tot"] inv(4) fin by (simp add: last_lines_def)
  have chased: "sum_calls (chasing ?tot) (?cs[i := c]) = 0" if z: "jp_nextLogAt p' = 0"
  proof (cases "jp_nextLogAt ?p = 0")
    case True
    then show ?thesis using z inv(5) fin upd [of "chasing ?tot"] ge [of "chasing ?tot"] by linarith
  next
    case False
    have "sum_calls (carries_last ?tot) ?cs \<le> 1" using inv(4) by (cases "jp_processed ?p = ?tot") simp_all
    moreover have "sum_calls (chasing ?tot) (?cs[i := Ended]) \<le> sum_calls (carries_last ?tot) (?cs[i := Ended])"
      by (rule sum_calls_mono) (simp add: carries_last_def)
    moreover have "carries_last ?tot Ended = 0" "chasing ?tot Ended = 0" by (simp_all add: call_measures)
    ultimately show ?thesis
      using z False fin upd [of "chasing ?tot"] sum_calls_update [OF step(2), where c = Ended, of "carries_last ?tot"]
        sum_calls_update [OF step(2), where c = Ended, of "chasing ?tot"] by simp
  qed
  show ?thesis
    unfolding step(1) run_ok_def Let_def
    using ok fin calls carried chased inv(3,6,7) upd [of pending] upd [of printing] by simp
qed

section \<open>Every run ends, with one last line\<close>

definition call_rank :: "job_progress \<Rightarrow> call \<Rightarrow> nat" where
  "call_rank p c = (case c of Adding _ \<Rightarrow> 5 | Loading _ \<Rightarrow> 3 | Swapping _ n \<Rightarrow> (if n = jp_nextLogAt p then 2 else 4) | Printing _ \<Rightarrow> 1 | Ended \<Rightarrow> 0)"

definition run_rank :: "job_run \<Rightarrow> nat" where
  "run_rank s = thresholds_left (jr_progress s) * (2 * length (jr_calls s) + 1) + sum_calls (call_rank (jr_progress s)) (jr_calls s)"

lemma call_rank_swap: "call_rank (p\<lparr>jp_nextLogAt := n\<rparr>) c \<le> call_rank p c + 2"
  by (cases c) (auto simp: call_rank_def)

lemma sum_calls_shift:
  assumes "\<And>c. f c \<le> g c + 2"
  shows "sum_calls f cs \<le> sum_calls g cs + 2 * length cs"
  unfolding sum_calls_def
proof (induction cs)
  case (Cons c cs)
  then show ?case using assms [of c] by simp
qed simp

lemma progress_step_rank:
  assumes "run_ok k s" "progress_step s s'"
  shows "run_rank s' < run_rank s"
  using assms(2)
proof cases
  case (step i c p' ls)
  let ?p = "jr_progress s" and ?cs = "jr_calls s"
  let ?c = "jr_calls s ! i"
  have inv: "counters_ok ?p" "list_all (call_ok ?p) ?cs" "jp_processed ?p + sum_calls pending ?cs = jp_total ?p"
    using assms(1) by (simp_all add: run_ok_def Let_def)
  have c: "call_ok ?p ?c" using inv(2) step(2) by (simp add: list_all_length)
  have pend: "jp_processed ?p + pending ?c \<le> jp_total ?p" using sum_calls_ge [OF step(2), of pending] inv(3) by linarith
  note upd = sum_calls_update [OF step(2), where c = c]
  have rank: "call_rank p' = call_rank ?p \<and> thresholds_left p' = thresholds_left ?p" if "jp_nextLogAt p' = jp_nextLogAt ?p" "jp_total p' = jp_total ?p" "jp_step p' = jp_step ?p"
    using that by (auto simp: call_rank_def thresholds_left_def fun_eq_iff split: call.splits)
  from inv(1) c pend step(3) show ?thesis
  proof (cases rule: call_step_cases)
    case (swap n)
    have "thresholds_left p' + 1 = thresholds_left ?p" using swap c by (intro threshold_passed [OF inv(1) refl, folded swap(3)]) simp
    moreover have "sum_calls (call_rank p') (?cs[i := c]) \<le> sum_calls (call_rank ?p) (?cs[i := c]) + 2 * length ?cs"
      using sum_calls_shift [of "call_rank p'" "call_rank ?p" "?cs[i := c]"] call_rank_swap swap(3) by simp
    moreover have "sum_calls (call_rank ?p) (?cs[i := c]) + 1 = sum_calls (call_rank ?p) ?cs"
      using upd [of "call_rank ?p"] swap by (simp add: call_rank_def)
    ultimately show ?thesis unfolding step(1) run_rank_def by (auto simp: algebra_simps dest!: sym [of _ "thresholds_left ?p"])
  qed (use upd [of "call_rank ?p"] rank in \<open>auto simp: step(1) run_rank_def call_rank_def\<close>)
qed

lemma thresholds_start:
  assumes "0 < tot" "0 < step"
  shows "thresholds_left (newJobProgress tot step) = (tot + step - 1) div step"
proof (cases "step > tot")
  case True
  then have "(tot + step - 1) div step = 1" using assms by (intro div_nat_eqI) auto
  then show ?thesis using True assms by (simp add: newJobProgress_def thresholds_left_def Let_def)
next
  case False
  then have e: "tot + step - 1 = (tot - step + step - 1) + step" using assms by simp
  have "(tot + step - 1) div step = (tot - step + step - 1) div step + 1"
    unfolding e using assms by (simp only: div_add_self2)
  then show ?thesis using False assms by (simp add: newJobProgress_def thresholds_left_def Let_def)
qed

lemma progress_start_ok:
  assumes "ns \<noteq> []" "0 \<notin> set ns" "0 < step" "sum_list ns + step < 2 ^ 64"
  shows "run_ok ((sum_list ns + step - 1) div step) (progress_start step ns)"
proof -
  have tot: "0 < sum_list ns" using assms(1,2) by (cases ns) auto
  have "sum_calls f (map Adding ns) = 0" if "\<And>n. f (Adding n) = 0" for f using that by (auto simp: sum_calls_0)
  then have "sum_calls (carries_last t) (map Adding ns) = 0" "sum_calls (chasing t) (map Adding ns) = 0" "sum_calls printing (map Adding ns) = 0" for t
    by (simp_all add: call_measures)
  moreover have "sum_calls pending (map Adding ns) = sum_list ns" by (simp add: sum_calls_def comp_def pending_def)
  moreover have "list_all (call_ok p) (map Adding ns)" for p using assms(2) by (auto simp: list_all_iff intro: gr0I)
  moreover have "\<exists>n \<in> set ns. 0 < n" using assms(1,2) by (cases ns) auto
  ultimately show ?thesis
    using tot assms(3,4) thresholds_start [OF tot assms(3)]
    by (auto simp: run_ok_def progress_start_def counters_ok_def newJobProgress_def last_lines_def Let_def)
qed

lemma progress_runs:
  assumes "(progress_step ^^ k) s0 s" "run_ok lines s0"
  shows "run_ok lines s \<and> run_rank s + k \<le> run_rank s0 \<and> length (jr_calls s) = length (jr_calls s0) \<and> jp_total (jr_progress s) = jp_total (jr_progress s0)"
  using assms(1)
proof (induction k arbitrary: s)
  case 0
  then show ?case using assms(2) by simp
next
  case (Suc k)
  then obtain r where r: "(progress_step ^^ k) s0 r" "progress_step r s" by auto
  have ok: "run_ok lines r" using Suc.IH [OF r(1)] by simp
  have "length (jr_calls s) = length (jr_calls r)" using r(2) by cases simp
  moreover have "jp_total (jr_progress s) = jp_total (jr_progress r)"
    using r(2)
  proof cases
    case (step i c p' ls)
    then show ?thesis using ok by (cases "jr_calls r ! i") (auto simp: Let_def split: if_splits)
  qed
  ultimately show ?case using Suc.IH [OF r(1)] progress_step_ok [OF ok r(2)] progress_step_rank [OF ok r(2)] by auto
qed

lemma progress_stuck:
  assumes "\<nexists>s'. progress_step s s'"
  shows "\<forall>c \<in> set (jr_calls s). c = Ended"
proof
  fix c assume "c \<in> set (jr_calls s)"
  then obtain i where i: "i < length (jr_calls s)" "jr_calls s ! i = c" by (meson in_set_conv_nth)
  have "call_step (jr_progress s) c \<noteq> None \<or> c = Ended" by (cases c) (auto simp: Let_def)
  then show "c = Ended" using assms progress_step.step [OF i(1)] i(2) by (auto simp del: call_step.simps)
qed

lemma rank_start: "run_rank (progress_start step ns) \<le> thresholds_left (newJobProgress (sum_list ns) step) * (2 * length ns + 1) + 5 * length ns"
proof -
  have "sum_calls (call_rank p) (map Adding ns) = 5 * length ns" for p
    by (induction ns) (auto simp: sum_calls_def call_rank_def)
  then show ?thesis by (simp add: run_rank_def progress_start_def)
qed

text \<open>
  C8. The progress of a request, for every interleaving of the calls of \<^verbatim>\<open>advance\<close> by which goroutines report the contracts they finished:
  the loop around the compare-and-swap ends (a bound on the atomic operations of all calls together); at most one line is printed per
  started block of \<open>step\<close> contracts, each with counts that add up to the total; and when no call can move any more, all have returned and
  exactly one line says that nothing remains.
\<close>

theorem progress_reported:
  assumes "ns \<noteq> []" "0 \<notin> set ns" "0 < step" "sum_list ns + step < 2 ^ 64" "(progress_step ^^ k) (progress_start step ns) s"
  shows "k \<le> (sum_list ns + step - 1) div step * (2 * length ns + 1) + 5 * length ns \<and>
    length (jr_lines s) \<le> (sum_list ns + step - 1) div step \<and>
    list_all (\<lambda>(scanned, remaining). scanned + remaining = sum_list ns) (jr_lines s) \<and>
    ((\<nexists>s'. progress_step s s') \<longrightarrow> (\<forall>c \<in> set (jr_calls s). c = Ended) \<and> last_lines (jr_lines s) = 1)"
proof -
  have tot: "0 < sum_list ns" using assms(1,2) by (cases ns) auto
  note run = progress_runs [OF assms(5) progress_start_ok [OF assms(1-4)]]
  have t: "jp_total (jr_progress s) = sum_list ns" using run by (simp add: progress_start_def newJobProgress_def Let_def)
  have "last_lines (jr_lines s) = 1" if e: "\<forall>c \<in> set (jr_calls s). c = Ended"
  proof -
    have "sum_calls f (jr_calls s) = 0" if "f Ended = 0" for f using e that by (auto simp: sum_calls_0)
    then show ?thesis using run by (auto simp: run_ok_def Let_def call_measures)
  qed
  moreover have "list_all (\<lambda>(scanned, remaining). scanned + remaining = sum_list ns) (jr_lines s)"
    using run t by (auto simp: run_ok_def Let_def list_all_iff)
  ultimately show ?thesis
    using run rank_start [of step ns] thresholds_start [OF tot assms(3)] progress_stuck [of s] by (auto simp: run_ok_def Let_def)
qed

text \<open>One contract, one call: the atomic operations of the call.\<close>

lemma single_call_run:
  "(progress_step ^^ 4) (progress_start 100 [1])
     \<lparr>jr_progress = \<lparr>jp_total = 1, jp_step = 100, jp_processed = 1, jp_nextLogAt = 0\<rparr>, jr_calls = [Ended], jr_lines = [(1, 0)]\<rparr>"
proof -
  have one: "progress_step s s'" if "jr_calls s = [c]" "call_step (jr_progress s) c = Some (c', p', ls)"
      "s' = \<lparr>jr_progress = p', jr_calls = [c'], jr_lines = jr_lines s @ ls\<rparr>" for s s' c c' p' ls
    using progress_step.step [of 0 s c' p' ls] that by simp
  let ?p = "\<lparr>jp_total = 1, jp_step = 100, jp_processed = 1, jp_nextLogAt = 1\<rparr>" and ?q = "\<lparr>jp_total = 1, jp_step = 100, jp_processed = 1, jp_nextLogAt = 0\<rparr>"
  have "progress_step (progress_start 100 [1])
      \<lparr>jr_progress = ?p, jr_calls = [Loading 1], jr_lines = []\<rparr>"
    by (rule one [where c = "Adding 1" and p' = ?p and c' = "Loading 1" and ls = "[]"]) (simp_all add: progress_start_def newJobProgress_def Let_def)
  moreover have "progress_step
      \<lparr>jr_progress = ?p, jr_calls = [Loading 1], jr_lines = []\<rparr>
      \<lparr>jr_progress = ?p, jr_calls = [Swapping 1 1], jr_lines = []\<rparr>"
    by (rule one [where c = "Loading 1" and c' = "Swapping 1 1" and p' = ?p and ls = "[]"]) (simp_all add: Let_def)
  moreover have "progress_step
      \<lparr>jr_progress = ?p, jr_calls = [Swapping 1 1], jr_lines = []\<rparr>
      \<lparr>jr_progress = ?q, jr_calls = [Printing 1], jr_lines = []\<rparr>"
    by (rule one [where c = "Swapping 1 1" and c' = "Printing 1" and p' = ?q and ls = "[]"]) (simp_all add: next_threshold_def)
  moreover have "progress_step
      \<lparr>jr_progress = ?q, jr_calls = [Printing 1], jr_lines = []\<rparr>
      \<lparr>jr_progress = ?q, jr_calls = [Ended], jr_lines = [(1, 0)]\<rparr>"
    by (rule one [where c = "Printing 1" and c' = Ended and p' = ?q and ls = "[(1, 0)]"]) (simp_all add: progress_line_def)
  ultimately show ?thesis by (auto simp: numeral_eq_Suc intro!: relcomppI)
qed

theorem progress_reported_witness:
  "\<exists>s. (progress_step ^^ 4) (progress_start 100 [1]) s \<and> length (jr_lines s) \<le> 1 \<and> last_lines (jr_lines s) = 1"
proof -
  let ?s = "\<lparr>jr_progress = \<lparr>jp_total = 1, jp_step = 100, jp_processed = 1, jp_nextLogAt = 0\<rparr>, jr_calls = [Ended], jr_lines = [(1, 0)]\<rparr>"
  have "\<nexists>s'. progress_step ?s s'" by (auto elim!: progress_step.cases)
  then show ?thesis using progress_reported [OF _ _ _ _ single_call_run] single_call_run by (intro exI [of _ ?s]) simp
qed

end
