(* ===== verification/RunReports.thy ===== *)
theory RunReports
  imports AgentServer SqlJson
begin

text \<open>
  What an agent reports about its work: the Prometheus metrics of \<^verbatim>\<open>agent/internal/metrics/metrics.go\<close> with the interceptor that counts
  requests, the summaries that \<^verbatim>\<open>agent/internal/lokipush/push.go\<close> sends after a request, and the handlers of \<open>AgentServer\<close> with the calls
  that report.  A counter is a map from label values to counts, a histogram the list of its observations.  JSON text and HTTP are
  parameters; the driver of \<^verbatim>\<open>encoding/json\<close> sorts the members of a map, so their order here has no meaning.
\<close>

section \<open>Metrics\<close>

record agent_metrics =
  am_grpcRequests :: "((string \<times> string) \<times> int) list"
  am_grpcDurations :: "((string \<times> string) \<times> duration) list"
  am_runChecksContractResults :: "int go_map"
  am_runStorageRatesRows :: "int go_map"
  am_runChecksJobs :: int
  am_runChecksDurations :: "duration list"
  am_runChecksJobResults :: "int list"
  am_pieceLimit :: int
  am_runStorageRatesJobs :: int
  am_runStorageRatesDurations :: "duration list"
  am_requestStorageInfoRows :: "int go_map"
  am_requestStorageInfoJobs :: int
  am_requestStorageInfoDurations :: "duration list"

text \<open>\<^verbatim>\<open>init\<close> creates the series it knows with count 0; \<open>names\<close> are the names of the gRPC codes it lists, \<open>ok\<close> the name of \<^verbatim>\<open>codes.OK\<close>.\<close>

definition metrics_methods_list :: "string list" where
  "metrics_methods_list =
     [''/grpc.health.v1.Health/Check'', ''/providerchecks.v1.ProviderChecksService/RunChecks'',
      ''/providerchecks.v1.ProviderChecksService/RunStorageRates'', ''/providerchecks.v1.ProviderChecksService/RequestStorageInfo'']"

definition metrics_init :: "string \<Rightarrow> string list \<Rightarrow> agent_metrics" where
  "metrics_init ok names =
     \<lparr>am_grpcRequests = map (\<lambda>l. (l, 0)) (List.product metrics_methods_list names),
      am_grpcDurations = map (\<lambda>m. ((m, ok), 0)) metrics_methods_list,
      am_runChecksContractResults = map (\<lambda>(_, name). (name, 0)) ReasonCode_name,
      am_runStorageRatesRows = [(''true'', 0), (''false'', 0)], am_runChecksJobs = 0, am_runChecksDurations = [], am_runChecksJobResults = [],
      am_pieceLimit = 0, am_runStorageRatesJobs = 0, am_runStorageRatesDurations = [],
      am_requestStorageInfoRows = [(''true'', 0), (''false'', 0)], am_requestStorageInfoJobs = 0, am_requestStorageInfoDurations = []\<rparr>"

definition codeFromErr :: "grpc_status + 'r \<Rightarrow> grpc_code option" where
  "codeFromErr res = (case res of Inr _ \<Rightarrow> None | Inl st \<Rightarrow> Some (gs_Code st))"

text \<open>\<open>codeString\<close> is the library's name of a code, \<open>None\<close> standing for \<^verbatim>\<open>OK\<close>; \<open>d\<close> is the time the handler took.\<close>

definition UnaryServerInterceptor ::
  "(grpc_code option \<Rightarrow> string) \<Rightarrow> duration \<Rightarrow> string \<Rightarrow> (agent_metrics \<Rightarrow> (grpc_status + 'r) \<times> agent_metrics) \<Rightarrow> agent_metrics \<Rightarrow>
     (grpc_status + 'r) \<times> agent_metrics" where
  "UnaryServerInterceptor codeString d fullMethod handler m =
     (case handler m of (res, m) \<Rightarrow>
        (let l = (fullMethod, codeString (codeFromErr res))
         in (res, m\<lparr>am_grpcRequests := map_inc l (am_grpcRequests m), am_grpcDurations := am_grpcDurations m @ [(l, d)]\<rparr>)))"

text \<open>The chain of a call: the metrics are outside the authorization, so refused calls are counted too.\<close>

definition served_unary ::
  "(grpc_code option \<Rightarrow> string) \<Rightarrow> duration \<Rightarrow> string \<Rightarrow> string list option \<Rightarrow> string \<Rightarrow> (agent_metrics \<Rightarrow> (grpc_status + 'r) \<times> agent_metrics) \<Rightarrow>
     agent_metrics \<Rightarrow> (grpc_status + 'r) \<times> agent_metrics" where
  "served_unary codeString d expectedToken md fullMethod handler =
     UnaryServerInterceptor codeString d fullMethod
       (\<lambda>m. case authInterceptor expectedToken md fullMethod (\<lambda>_. Inr ()) of Inl st \<Rightarrow> (Inl st, m) | Inr _ \<Rightarrow> handler m)"

definition SetPieceLimit :: "int \<Rightarrow> agent_metrics \<Rightarrow> agent_metrics" where
  "SetPieceLimit n m = m\<lparr>am_pieceLimit := n\<rparr>"

definition IncRunChecksResult :: "string \<Rightarrow> agent_metrics \<Rightarrow> agent_metrics" where
  "IncRunChecksResult reason m = m\<lparr>am_runChecksContractResults := map_inc reason (am_runChecksContractResults m)\<rparr>"

definition IncRunStorageRatesRow :: "bool \<Rightarrow> agent_metrics \<Rightarrow> agent_metrics" where
  "IncRunStorageRatesRow ok m =
     m\<lparr>am_runStorageRatesRows := map_inc (if ok then ''true'' else ''false'') (am_runStorageRatesRows m)\<rparr>"

definition ObserveRunChecksJob :: "duration \<Rightarrow> int \<Rightarrow> agent_metrics \<Rightarrow> agent_metrics" where
  "ObserveRunChecksJob d contractResults m =
     (let m = m\<lparr>am_runChecksJobs := am_runChecksJobs m + 1, am_runChecksDurations := am_runChecksDurations m @ [d]\<rparr>
      in if contractResults > 0 then m\<lparr>am_runChecksJobResults := am_runChecksJobResults m @ [contractResults]\<rparr> else m)"

definition ObserveRunStorageRatesJob :: "duration \<Rightarrow> agent_metrics \<Rightarrow> agent_metrics" where
  "ObserveRunStorageRatesJob d m =
     m\<lparr>am_runStorageRatesJobs := am_runStorageRatesJobs m + 1, am_runStorageRatesDurations := am_runStorageRatesDurations m @ [d]\<rparr>"

definition IncRequestStorageInfoRow :: "bool \<Rightarrow> agent_metrics \<Rightarrow> agent_metrics" where
  "IncRequestStorageInfoRow ok m =
     m\<lparr>am_requestStorageInfoRows := map_inc (if ok then ''true'' else ''false'') (am_requestStorageInfoRows m)\<rparr>"

definition ObserveRequestStorageInfoJob :: "duration \<Rightarrow> agent_metrics \<Rightarrow> agent_metrics" where
  "ObserveRequestStorageInfoJob d m =
     m\<lparr>am_requestStorageInfoJobs := am_requestStorageInfoJobs m + 1,
       am_requestStorageInfoDurations := am_requestStorageInfoDurations m @ [d]\<rparr>"

section \<open>The summary of a request for Loki\<close>

record stream_entry =
  se_Stream :: "string go_map"
  se_Values :: "string list list"

definition json_stream :: "stream_entry \<Rightarrow> json" where
  "json_stream e =
     JObj [(''stream'', JObj (map (\<lambda>(k, v). (k, JStr v)) (se_Stream e))), (''values'', JArr (map (\<lambda>v. JArr (map JStr v)) (se_Values e)))]"

definition pub_ip :: "provider_batch option \<Rightarrow> string go_map \<Rightarrow> string go_map" where
  "pub_ip p pubToIP =
     (case p of
        None \<Rightarrow> pubToIP
      | Some b \<Rightarrow>
         (case pb_StorageEndpoint b of
            None \<Rightarrow> pubToIP
          | Some e \<Rightarrow> if ep_Ip e = [] then pubToIP else AList.update (pb_ProviderPubkey b) (ep_Ip e) pubToIP))"

record loki_tally =
  lt_reasonTotals :: "int go_map"
  lt_ipReason :: "int go_map go_map"
  lt_validTotal :: int
  lt_total :: int

definition row_ip :: "string go_map \<Rightarrow> contract_check_result \<Rightarrow> string" where
  "row_ip pubToIP r = (let ip = go_get [] pubToIP (ccr_ProviderPubkey r) in if ip = [] then ''unknown'' else ip)"

definition tally_row :: "string go_map \<Rightarrow> contract_check_result option \<Rightarrow> loki_tally \<Rightarrow> loki_tally" where
  "tally_row pubToIP row t =
     (case row of
        None \<Rightarrow> t
      | Some r \<Rightarrow>
         (let rc = proto_String (ccr_ReasonCode r);
              t = t\<lparr>lt_total := lt_total t + 1, lt_reasonTotals := map_inc rc (lt_reasonTotals t)\<rparr>;
              ip = row_ip pubToIP r;
              t = t\<lparr>lt_ipReason := AList.update ip (map_inc rc (go_get [] (lt_ipReason t) ip)) (lt_ipReason t)\<rparr>
          in if ccr_ReasonCode r = 1 then t\<lparr>lt_validTotal := lt_validTotal t + 1\<rparr> else t))"

definition countValidInvalid :: "int go_map \<Rightarrow> int \<times> int" where
  "countValidInvalid byReason =
     fold (\<lambda>(k, n) (valid, invalid). if k = proto_String 1 then (valid + n, invalid) else (valid, invalid + n)) byReason (0, 0)"

definition flat_members :: "string \<Rightarrow> string \<Rightarrow> string \<Rightarrow> int \<Rightarrow> int \<Rightarrow> int \<Rightarrow> int \<Rightarrow> int \<Rightarrow> int go_map \<Rightarrow> (string \<times> json) list" where
  "flat_members jobID agentID location finishedUnix durationMs tot valid invalid byReason =
     [(''job_id'', JStr jobID), (''agent_id'', JStr agentID), (''location'', JStr location), (''finished_unix'', json_int finishedUnix),
      (''duration_ms'', json_int durationMs), (''total'', json_int tot), (''valid'', json_int valid), (''invalid'', json_int invalid)] @
     map (\<lambda>(_, name). (''n_'' @ name, json_int (go_get 0 byReason name))) ReasonCode_name"

definition buildFlatJSON ::
  "(json \<Rightarrow> go_error + string) \<Rightarrow> string \<Rightarrow> string \<Rightarrow> string \<Rightarrow> int \<Rightarrow> int \<Rightarrow> int \<Rightarrow> int \<Rightarrow> int \<Rightarrow> int go_map \<Rightarrow> string" where
  "buildFlatJSON marshal jobID agentID location finishedUnix durationMs tot valid invalid byReason =
     (case marshal (JObj (flat_members jobID agentID location finishedUnix durationMs tot valid invalid byReason)) of
        Inl _ \<Rightarrow> ''{}'' | Inr b \<Rightarrow> b)"

text \<open>The streams of a push; \<open>ts\<close> is the time in nanoseconds, \<open>ord\<close> the order in which the loop visits the addresses.\<close>

definition job_labels :: "string \<Rightarrow> string \<Rightarrow> string go_map" where
  "job_labels jobID agentID = [(''job'', ''runchecks''), (''event'', ''job''), (''job_id'', jobID), (''agent_id'', agentID)]"

definition ip_labels :: "string \<Rightarrow> string \<Rightarrow> string \<Rightarrow> string go_map" where
  "ip_labels jobID agentID ip =
     [(''job'', ''runchecks''), (''event'', ''ip''), (''job_id'', jobID), (''storage_ip'', ip), (''agent_id'', agentID)]"

definition loki_streams ::
  "(json \<Rightarrow> go_error + string) \<Rightarrow> order \<Rightarrow> int \<Rightarrow> string \<Rightarrow> string \<Rightarrow> string \<Rightarrow> int \<Rightarrow> int \<Rightarrow> contract_check_result option list \<Rightarrow>
     provider_batch option list \<Rightarrow> stream_entry list" where
  "loki_streams marshal ord ts jobID agentID location finishedUnix durationMs results providers =
     (let pubToIP = fold pub_ip providers [];
          t = fold (tally_row pubToIP) results \<lparr>lt_reasonTotals = [], lt_ipReason = [], lt_validTotal = 0, lt_total = 0\<rparr>;
          flat = buildFlatJSON marshal jobID agentID location finishedUnix durationMs;
          jobLine = flat (lt_total t) (lt_validTotal t) (lt_total t - lt_validTotal t) (lt_reasonTotals t)
      in \<lparr>se_Stream = job_labels jobID agentID, se_Values = [[Itoa ts, jobLine]]\<rparr> #
         map (\<lambda>ip. let counts = go_get [] (lt_ipReason t) ip
                   in case countValidInvalid counts of (v, iv) \<Rightarrow>
                        \<lparr>se_Stream = ip_labels jobID agentID ip, se_Values = [[Itoa ts, flat (v + iv) v iv counts]]\<rparr>)
             (range_keys ord (lt_ipReason t)))"

text \<open>
  \<open>newRequest\<close> is the error of building the request for a URL, \<open>send\<close> the client's answer to a posted body: status code and body.  The
  second component of the result are the requests that were sent.
\<close>

definition PushRunChecks ::
  "(json \<Rightarrow> go_error + string) \<Rightarrow> (string \<Rightarrow> go_error option) \<Rightarrow> (string \<Rightarrow> string \<Rightarrow> go_error + int \<times> string) \<Rightarrow> order \<Rightarrow> int \<Rightarrow> string \<Rightarrow>
     string \<Rightarrow> string \<Rightarrow> string \<Rightarrow> int \<Rightarrow> int \<Rightarrow> contract_check_result option list \<Rightarrow> provider_batch option list \<Rightarrow>
     go_error option \<times> (string \<times> string) list" where
  "PushRunChecks marshal newRequest send ord ts baseURL jobID agentID location finishedUnix durationMs results providers =
     (if baseURL = [] then (None, [])
      else
       (case marshal (JObj [(''streams'', JArr (map json_stream
               (loki_streams marshal ord ts jobID agentID location finishedUnix durationMs results providers)))]) of
          Inl err \<Rightarrow> (Some (ErrWrap ''marshal loki push'' err), [])
        | Inr body \<Rightarrow>
           (let pushURL = baseURL @ ''/loki/api/v1/push''
            in case newRequest pushURL of
                 Some err \<Rightarrow> (Some (ErrWrap ''loki request'' err), [])
               | None \<Rightarrow>
                  (case send pushURL body of
                     Inl err \<Rightarrow> (Some (ErrWrap ''loki push'' err), [(pushURL, body)])
                   | Inr (code, answer) \<Rightarrow>
                      (if code < 200 \<or> code \<ge> 300
                       then Some (ErrText (''loki push: status '' @ Itoa code @ '': '' @ take 4096 answer)) else None,
                       [(pushURL, body)])))))"

section \<open>The handlers with their reports\<close>

text \<open>The libraries of the push: JSON text, building and sending a request, the order of the loop over addresses, the clock.\<close>

record loki_env =
  lk_marshal :: "json \<Rightarrow> go_error + string"
  lk_newRequest :: "string \<Rightarrow> go_error option"
  lk_send :: "string \<Rightarrow> string \<Rightarrow> go_error + int \<times> string"
  lk_ord :: order
  lk_ts :: int

text \<open>
  The rest of \<^verbatim>\<open>RunChecks\<close> after the response is built: the counters of its rows, the job, and the push, whose error is only logged.  \<open>d\<close>
  is the time the job took.
\<close>

definition report_RunChecks ::
  "loki_env \<Rightarrow> string \<Rightarrow> service \<Rightarrow> duration \<Rightarrow> run_checks_request \<Rightarrow> run_checks_response \<Rightarrow> agent_metrics \<Rightarrow> agent_metrics \<times> (string \<times> string) list" where
  "report_RunChecks lk lokiURL sv d r resp m =
     (let m = fold (\<lambda>row m. case row of None \<Rightarrow> m | Some x \<Rightarrow> IncRunChecksResult (proto_String (ccr_ReasonCode x)) m) (rs_Results resp) m;
          m = ObserveRunChecksJob d (int (length (rs_Results resp))) m
      in (m, if lokiURL \<noteq> []
             then snd (PushRunChecks (lk_marshal lk) (lk_newRequest lk) (lk_send lk) (lk_ord lk) (lk_ts lk) lokiURL (rq_JobId r) (sv_agentID sv)
                    (sv_location sv) (rs_FinishedAtUnix resp) (d div 1000000) (rs_Results resp) (rq_Providers r))
             else []))"

definition served_RunChecks ::
  "'cell cell_lib \<Rightarrow> loki_env \<Rightarrow> string \<Rightarrow> service \<Rightarrow> run_checks_request option \<Rightarrow> session_env list \<Rightarrow>
     ((contract_check_result list) list \<Rightarrow> (contract_check_result list) list) \<Rightarrow> int \<Rightarrow> int \<Rightarrow> go_error option \<Rightarrow> duration \<Rightarrow> agent_metrics \<Rightarrow>
     ((grpc_status + run_checks_response) \<times> agent_metrics \<times> (string \<times> string) list) option" where
  "served_RunChecks lib lk lokiURL sv req envs perm started finished ctxErr d m =
     map_option (\<lambda>res. case res of Inl st \<Rightarrow> (Inl st, m, []) | Inr resp \<Rightarrow> (Inr resp, report_RunChecks lk lokiURL sv d (the req) resp m))
       (RunChecks lib sv req envs perm started finished ctxErr)"

definition served_RunStorageRates ::
  "service \<Rightarrow> storage_rates_request option \<Rightarrow> (nat \<Rightarrow> bytes \<Rightarrow> 64 word \<Rightarrow> duration \<Rightarrow> go_error + storage_rates) \<Rightarrow>
     (nat \<Rightarrow> 32 word) \<Rightarrow> int \<Rightarrow> int \<Rightarrow> go_error option \<Rightarrow> duration \<Rightarrow> agent_metrics \<Rightarrow> (grpc_status + storage_rates_response) \<times> agent_metrics" where
  "served_RunStorageRates sv req getRates latency started finished ctxErr d m =
     (case RunStorageRates sv req getRates latency started finished ctxErr of
        Inl st \<Rightarrow> (Inl st, m)
      | Inr resp \<Rightarrow>
         (let m = fold (\<lambda>row. IncRunStorageRatesRow (case row of None \<Rightarrow> False | Some x \<Rightarrow> sr_Ok x)) (rrs_Results resp) m
          in (Inr resp, ObserveRunStorageRatesJob d m)))"

definition served_RequestStorageInfo ::
  "service \<Rightarrow> storage_info_request option \<Rightarrow> (string \<Rightarrow> go_error + 'addr) \<Rightarrow>
     (nat \<Rightarrow> bytes \<Rightarrow> 'addr \<Rightarrow> 64 word \<Rightarrow> duration \<Rightarrow> go_error + storage_info) \<Rightarrow> (nat \<Rightarrow> 32 word) \<Rightarrow> int \<Rightarrow> int \<Rightarrow> go_error option \<Rightarrow> duration \<Rightarrow>
     agent_metrics \<Rightarrow> (grpc_status + storage_info_response) \<times> agent_metrics" where
  "served_RequestStorageInfo sv req parseAddr requestInfo latency started finished ctxErr d m =
     (case RequestStorageInfo sv req parseAddr requestInfo latency started finished ctxErr of
        Inl st \<Rightarrow> (Inl st, m)
      | Inr resp \<Rightarrow>
         (let m = fold (\<lambda>row. IncRequestStorageInfoRow (case row of None \<Rightarrow> False | Some x \<Rightarrow> sir_Ok x)) (sirs_Results resp) m
          in (Inr resp, ObserveRequestStorageInfoJob d m)))"

section \<open>Counting\<close>

definition rows_named :: "contract_check_result list \<Rightarrow> string \<Rightarrow> int" where
  "rows_named rows name = int (length (filter (\<lambda>r. proto_String (ccr_ReasonCode r) = name) rows))"

text \<open>The line a summary should have, from the rows themselves.\<close>

definition summary_line :: "(json \<Rightarrow> go_error + string) \<Rightarrow> string \<Rightarrow> string \<Rightarrow> string \<Rightarrow> int \<Rightarrow> int \<Rightarrow> contract_check_result list \<Rightarrow> string" where
  "summary_line marshal jobID agentID location finishedUnix durationMs rows =
     (let valid = int (length (filter (\<lambda>r. ccr_ReasonCode r = 1) rows))
      in case marshal (JObj ([(''job_id'', JStr jobID), (''agent_id'', JStr agentID), (''location'', JStr location),
             (''finished_unix'', json_int finishedUnix), (''duration_ms'', json_int durationMs), (''total'', json_int (int (length rows))),
             (''valid'', json_int valid), (''invalid'', json_int (int (length rows) - valid))] @
             map (\<lambda>(_, name). (''n_'' @ name, json_int (rows_named rows name))) ReasonCode_name)) of
           Inl _ \<Rightarrow> ''{}'' | Inr b \<Rightarrow> b)"

lemma go_get_map_inc: "go_get 0 (map_inc k m) k' = go_get 0 m k' + of_bool (k = k')"
  by (simp add: map_inc_def go_get_def split: option.split)

lemma go_wf_map_inc [simp]: "go_wf m \<Longrightarrow> go_wf (map_inc k m)"
  by (simp add: map_inc_def)

lemma rows_named_simps [simp]:
  "rows_named [] name = 0"
  "rows_named (r # rows) name = rows_named rows name + of_bool (proto_String (ccr_ReasonCode r) = name)"
  "rows_named (rows @ rows') name = rows_named rows name + rows_named rows' name"
  by (simp_all add: rows_named_def)

lemma proto_String_valid: "proto_String p = ''VALID_STORAGE_PROOF'' \<longleftrightarrow> p = 1"
proof (cases "map_of ReasonCode_name p")
  case (Some n)
  then show ?thesis by (auto simp: proto_String_def ReasonCode_name_def split: if_splits)
next
  case None
  have "nat_Itoa n \<noteq> CHR ''V'' # s" for n s
  proof -
    obtain d t where "d < 10" "nat_Itoa n = dec_digit d # t" using nat_Itoa_start by blast
    moreover have "of_char (dec_digit d) \<noteq> (of_char CHR ''V'' :: nat)" using \<open>d < 10\<close> by (simp add: dec_digit_def of_char_of)
    ultimately show ?thesis by auto
  qed
  then show ?thesis using None by (auto simp: proto_String_def Itoa_def ReasonCode_name_def)
qed

lemma sum_map_inc: "sum_list (map snd (map_inc k m)) = sum_list (map snd m) + 1"
proof -
  have "sum_list (map snd (AList.update k (case map_of m k of None \<Rightarrow> v | Some n \<Rightarrow> n + v) m)) = sum_list (map snd m) + v" for v :: int
    by (induction m) auto
  moreover have "(case map_of m k of None \<Rightarrow> 0 | Some n \<Rightarrow> n) + 1 = (case map_of m k of None \<Rightarrow> 1 | Some n \<Rightarrow> n + 1)" by (simp split: option.split)
  ultimately show ?thesis unfolding map_inc_def by metis
qed

lemma countValidInvalid_sum:
  assumes "go_wf m"
  shows "countValidInvalid m = (go_get 0 m (proto_String 1), sum_list (map snd m) - go_get 0 m (proto_String 1))"
proof -
  let ?V = "proto_String 1"
  have "fold (\<lambda>(k, n) (valid, invalid). if k = ?V then (valid + n, invalid) else (valid, invalid + n)) m (v, i) =
      (v + go_get 0 m ?V, i + (sum_list (map snd m) - go_get 0 m ?V))" for v i
    using assms
  proof (induction m arbitrary: v i)
    case (Cons a m)
    obtain k n where a: "a = (k, n)" by fastforce
    then have k: "map_of m k = None" "go_wf m" using Cons.prems by (auto simp: go_wf_def go_keys_def map_of_eq_None_iff)
    show ?case using Cons.IH [OF k(2)] k(1) by (auto simp: a go_get_def)
  qed simp
  then show ?thesis by (simp add: countValidInvalid_def)
qed

definition at_ip :: "string go_map \<Rightarrow> string \<Rightarrow> contract_check_result list \<Rightarrow> contract_check_result list" where
  "at_ip pubToIP ip = filter (\<lambda>r. row_ip pubToIP r = ip)"

definition counts_rows :: "contract_check_result list \<Rightarrow> int go_map \<Rightarrow> bool" where
  "counts_rows rows m \<longleftrightarrow> go_wf m \<and> (\<forall>name. go_get 0 m name = rows_named rows name) \<and> sum_list (map snd m) = int (length rows)"

definition tally_ok :: "string go_map \<Rightarrow> contract_check_result list \<Rightarrow> loki_tally \<Rightarrow> bool" where
  "tally_ok pubToIP rows t \<longleftrightarrow>
     lt_total t = int (length rows) \<and> lt_validTotal t = int (length (filter (\<lambda>r. ccr_ReasonCode r = 1) rows)) \<and>
     counts_rows rows (lt_reasonTotals t) \<and> go_wf (lt_ipReason t) \<and> dom (map_of (lt_ipReason t)) = row_ip pubToIP ` set rows \<and>
     (\<forall>ip. counts_rows (at_ip pubToIP ip rows) (go_get [] (lt_ipReason t) ip))"

lemma counts_rows_snoc: "counts_rows rows m \<Longrightarrow> counts_rows (rows @ [r]) (map_inc (proto_String (ccr_ReasonCode r)) m)"
  by (simp add: counts_rows_def go_get_map_inc sum_map_inc)

lemma tally_row_ok:
  assumes "tally_ok pubToIP rows t"
  shows "tally_ok pubToIP (rows @ [r]) (tally_row pubToIP (Some r) t)"
  using assms counts_rows_snoc [of _ _ r]
  by (auto simp: tally_ok_def tally_row_def at_ip_def Let_def)

lemma tally_rows_ok:
  "tally_ok pubToIP rows t \<Longrightarrow> tally_ok pubToIP (rows @ somes results) (fold (tally_row pubToIP) results t)"
proof (induction results arbitrary: rows t)
  case (Cons row results)
  show ?case
  proof (cases row)
    case None
    then show ?thesis using Cons.IH [OF Cons.prems] by (simp add: tally_row_def)
  next
    case (Some r)
    then show ?thesis using Cons.IH [OF tally_row_ok [OF Cons.prems, of r]] by simp
  qed
qed simp

lemma counted_line:
  assumes "counts_rows rows m"
  shows "countValidInvalid m = (int (length (filter (\<lambda>r. ccr_ReasonCode r = 1) rows)), int (length rows) - int (length (filter (\<lambda>r. ccr_ReasonCode r = 1) rows)))"
    "buildFlatJSON marshal jobID agentID location finishedUnix durationMs (int (length rows)) (int (length (filter (\<lambda>r. ccr_ReasonCode r = 1) rows)))
       (int (length rows) - int (length (filter (\<lambda>r. ccr_ReasonCode r = 1) rows))) m = summary_line marshal jobID agentID location finishedUnix durationMs rows"
proof -
  have "proto_String p = proto_String 1 \<longleftrightarrow> p = 1" for p by (metis proto_String_valid)
  then have "rows_named rows (proto_String 1) = int (length (filter (\<lambda>r. ccr_ReasonCode r = 1) rows))" by (simp add: rows_named_def)
  then show "countValidInvalid m = (int (length (filter (\<lambda>r. ccr_ReasonCode r = 1) rows)), int (length rows) - int (length (filter (\<lambda>r. ccr_ReasonCode r = 1) rows)))"
    using assms countValidInvalid_sum [of m] by (simp add: counts_rows_def)
  show "buildFlatJSON marshal jobID agentID location finishedUnix durationMs (int (length rows)) (int (length (filter (\<lambda>r. ccr_ReasonCode r = 1) rows)))
       (int (length rows) - int (length (filter (\<lambda>r. ccr_ReasonCode r = 1) rows))) m = summary_line marshal jobID agentID location finishedUnix durationMs rows"
    using assms by (simp add: counts_rows_def buildFlatJSON_def summary_line_def flat_members_def Let_def)
qed

text \<open>
  The summary pushed to Loki counts every row of the response once.  The maps filled in one pass over the rows give, for the job and for
  each storage address, the line that counting the rows gives: total, valid, invalid, and the number of rows of every reason.  There is one
  stream for each address of a row, rows of a provider without an address are under \<^verbatim>\<open>unknown\<close>, and the streams share out all rows.
\<close>

theorem loki_summary_exact:
  assumes "order_ok ord"
  shows "\<exists>ips. distinct ips \<and> set ips = row_ip (fold pub_ip providers []) ` set (somes results) \<and>
    loki_streams marshal ord ts jobID agentID location finishedUnix durationMs results providers =
      \<lparr>se_Stream = job_labels jobID agentID,
       se_Values = [[Itoa ts, summary_line marshal jobID agentID location finishedUnix durationMs (somes results)]]\<rparr> #
      map (\<lambda>ip. \<lparr>se_Stream = ip_labels jobID agentID ip,
        se_Values = [[Itoa ts, summary_line marshal jobID agentID location finishedUnix durationMs (at_ip (fold pub_ip providers []) ip (somes results))]]\<rparr>) ips \<and>
    mset (concat (map (\<lambda>ip. at_ip (fold pub_ip providers []) ip (somes results)) ips)) = mset (somes results)"
proof -
  let ?p = "fold pub_ip providers []" and ?rows = "somes results"
  let ?t = "fold (tally_row ?p) results \<lparr>lt_reasonTotals = [], lt_ipReason = [], lt_validTotal = 0, lt_total = 0\<rparr>"
  have t: "tally_ok ?p ?rows ?t"
    using tally_rows_ok [of ?p "[]" "\<lparr>lt_reasonTotals = [], lt_ipReason = [], lt_validTotal = 0, lt_total = 0\<rparr>" results]
    by (simp add: tally_ok_def counts_rows_def at_ip_def)
  let ?ips = "range_keys ord (lt_ipReason ?t)"
  have ips: "distinct ?ips" "set ?ips = row_ip ?p ` set ?rows"
    using t assms by (auto simp: tally_ok_def distinct_range_keys set_range_keys)
  have parts: "mset (concat (map (\<lambda>ip. at_ip ?p ip rows) is)) = mset (filter (\<lambda>r. row_ip ?p r \<in> set is) rows)" if "distinct is" for "is" rows
    using that
  proof (induction "is")
    case (Cons i "is")
    have "filter (\<lambda>r. row_ip ?p r = i \<or> row_ip ?p r \<in> set is) rows = filter (\<lambda>r. row_ip ?p r \<in> set (i # is)) rows" by simp
    moreover have "mset (filter (\<lambda>r. row_ip ?p r = i) rows) + mset (filter (\<lambda>r. row_ip ?p r \<in> set is) rows) =
        mset (filter (\<lambda>r. row_ip ?p r = i \<or> row_ip ?p r \<in> set is) rows)"
      using Cons.prems by (induction rows) auto
    ultimately show ?case using Cons by (simp add: at_ip_def)
  qed simp
  have "filter (\<lambda>r. row_ip ?p r \<in> set ?ips) ?rows = ?rows" using ips(2) by (simp add: filter_id_conv)
  then have "mset (concat (map (\<lambda>ip. at_ip ?p ip ?rows) ?ips)) = mset ?rows" using parts [OF ips(1), of ?rows] by simp
  moreover have c: "counts_rows ?rows (lt_reasonTotals ?t)" "counts_rows (at_ip ?p ip ?rows) (go_get [] (lt_ipReason ?t) ip)" for ip
    using t by (simp_all add: tally_ok_def)
  ultimately show ?thesis
    using ips t counted_line(2) [OF c(1)] counted_line [OF c(2)]
    by (intro exI [of _ ?ips]) (simp add: loki_streams_def Let_def tally_ok_def)
qed

theorem loki_summary_exact_witness:
  "\<exists>ips. set ips = {''unknown''} \<and> mset (concat (map (\<lambda>ip. at_ip (fold pub_ip [None] []) ip sample_rows) ips)) = mset sample_rows"
proof -
  let ?p = "fold pub_ip [None] []"
  obtain ips where ips: "set ips = row_ip ?p ` set (somes (map Some sample_rows))"
      "mset (concat (map (\<lambda>ip. at_ip ?p ip (somes (map Some sample_rows))) ips)) = mset (somes (map Some sample_rows))"
    using loki_summary_exact [OF order_ok_id, where providers = "[None]" and results = "map Some sample_rows"] by blast
  have "row_ip ?p ` set sample_rows = {''unknown''}" by (auto simp: pub_ip_def row_ip_def sample_rows_def)
  then show ?thesis using ips by auto
qed

text \<open>A call without the token runs no handler and leaves one count under its method and the code of the refusal.\<close>

lemma refused_call_counted:
  assumes "fullMethod \<noteq> ''/grpc.health.v1.Health/Check''" "\<not> isAuthorized md token"
  shows "\<exists>m' st. served_unary codeString d token md fullMethod handler m = (Inl st, m') \<and> gs_Code st = Unauthenticated \<and>
    am_grpcRequests m' = map_inc (fullMethod, codeString (Some Unauthenticated)) (am_grpcRequests m) \<and>
    am_runChecksContractResults m' = am_runChecksContractResults m"
  using assms by (simp add: served_unary_def UnaryServerInterceptor_def authInterceptor_def codeFromErr_def Let_def)

section \<open>Every contract is counted\<close>

text \<open>Rows of the agent carry codes of the table of names.\<close>

definition row_known :: "contract_check_result \<Rightarrow> bool" where
  "row_known r \<longleftrightarrow> proto_String (ccr_ReasonCode r) \<in> snd ` set ReasonCode_name"

lemma ToProto_known: "proto_String (ToProto code) \<in> snd ` set ReasonCode_name"
  by (simp add: ToProto_def proto_String_def ReasonCode_name_def)

lemma makeResult_known [simp]: "row_known (makeResult provider contract code lat details)"
  by (simp add: row_known_def makeResult_def ToProto_known)

lemma pool_step_known:
  assumes "pool_step lib c provider timeouts a s = Some t" "\<forall>r. Some r \<in> set (po_results s) \<longrightarrow> row_known r"
  shows "\<forall>r. Some r \<in> set (po_results t) \<longrightarrow> row_known r"
proof -
  have "\<forall>r. Some r \<in> set ((po_results s)[i := Some (makeResult provider ct code lat d)]) \<longrightarrow> row_known r" for i ct code lat d
    using assms(2) set_update_subset_insert by fastforce
  then show ?thesis using assms by (cases a) (auto split: if_splits option.splits worker.splits)
qed

lemma pool_reach_known:
  "pool_reach lib c provider timeouts s \<Longrightarrow> \<forall>r. Some r \<in> set (po_results s) \<longrightarrow> row_known r"
  by (induction rule: pool_reach.induct) (auto simp: pool_start_def dest: pool_step_known)

lemma provider_rows_known:
  assumes "checkProviderFiles lib c provider timeouts env = Some (rows, advanced)" "row \<in> set rows"
  shows "row_known row"
proof -
  have "row_known row" if "pool_exec lib c provider timeouts as (pool_start c provider) = Some s" "rows = somes (po_results s)" for as s
    using pool_reach_known [OF pool_exec_reach [OF that(1) pool_reach.start]] that(2) assms(2) by simp
  then show ?thesis
    using assms by (auto simp: checkProviderFiles_def Let_def fillProviderResults_def split: if_splits option.splits)
qed

lemma request_rows_known:
  assumes "checker_Run lib c providers timeouts envs perm = Some rows" "\<And>bs. mset (perm bs) = mset bs" "length envs = length (somes providers)"
  shows "list_all row_known rows"
proof (cases "providers = []")
  case False
  then obtain batches where b: "those (map2 (\<lambda>provider env. checkProviderFiles lib c provider timeouts env) (somes providers) envs) = Some batches"
      "rows = concat (perm (map fst batches))"
    using assms(1) by (auto simp: checker_Run_def)
  have "list_all2 (\<lambda>provider batch. list_all row_known (fst batch)) (somes providers) batches"
    using those_map2 [OF b(1)] assms(3)
    by (auto elim!: list_all2_mono simp: list_all_iff dest!: provider_rows_known)
  then have "list_all (list_all row_known) (map fst batches)" by (auto simp: list_all2_conv_all_nth list_all_length)
  moreover have "set (perm (map fst batches)) = set (map fst batches)" using assms(2) by (metis set_mset_mset)
  ultimately show ?thesis by (auto simp: b(2) list_all_iff)
qed (use assms(1) in \<open>simp add: checker_Run_def\<close>)

lemma sum_of_bool: "distinct xs \<Longrightarrow> (\<Sum>y\<leftarrow>xs. of_bool (x = y)) = (of_bool (x \<in> set xs) :: int)"
  by (induction xs) auto

lemma names_share_rows:
  assumes "list_all row_known rows"
  shows "(\<Sum>name\<leftarrow>map snd ReasonCode_name. rows_named rows name) = int (length rows)"
  using assms
proof (induction rows)
  case (Cons r rows)
  have "distinct (map snd ReasonCode_name)" by (simp add: ReasonCode_name_def)
  then have "(\<Sum>name\<leftarrow>map snd ReasonCode_name. of_bool (proto_String (ccr_ReasonCode r) = name)) = (1 :: int)"
    using Cons.prems sum_of_bool [of "map snd ReasonCode_name"] by (simp add: row_known_def del: map_map)
  then show ?case using Cons by (simp add: sum_list_addf del: map_map)
qed (simp add: ReasonCode_name_def)

lemma results_counted:
  "go_get 0 (am_runChecksContractResults (fold (\<lambda>row m. case row of None \<Rightarrow> m | Some x \<Rightarrow> IncRunChecksResult (proto_String (ccr_ReasonCode x)) m) results m)) name =
     go_get 0 (am_runChecksContractResults m) name + rows_named (somes results) name"
  by (induction results arbitrary: m) (auto simp: IncRunChecksResult_def go_get_map_inc split: option.split)

lemma results_other_metrics:
  "am_runChecksJobs (fold (\<lambda>row m. case row of None \<Rightarrow> m | Some x \<Rightarrow> IncRunChecksResult (proto_String (ccr_ReasonCode x)) m) results m) = am_runChecksJobs m"
  by (induction results arbitrary: m) (auto simp: IncRunChecksResult_def split: option.split)

lemma int_sum_list: "int (sum_list xs) = sum_list (map int xs)"
  by (induction xs) auto

lemma served_RunChecks_Some:
  "served_RunChecks lib lk lokiURL sv req envs perm started finished ctxErr d m = Some (res, m', posts) \<longleftrightarrow>
     RunChecks lib sv req envs perm started finished ctxErr = Some res \<and>
     (m', posts) = (case res of Inl _ \<Rightarrow> (m, []) | Inr resp \<Rightarrow> report_RunChecks lk lokiURL sv d (the req) resp m)"
  unfolding served_RunChecks_def
  by (cases "RunChecks lib sv req envs perm started finished ctxErr"; cases res) (auto split: sum.splits)

text \<open>
  C9. The metrics of an agent account for its work.  A refused request changes no counter of checks and pushes nothing.  An accepted request
  raises the counter of each reason by the rows of the response with that reason; over the reasons of the protocol the rises add up to
  the number of contracts of the request; the jobs rise by one; and at most one request goes to Loki, none without a configured address.
\<close>

theorem RunChecks_counted:
  assumes "served_RunChecks lib lk lokiURL sv req envs perm started finished ctxErr d m = Some (res, m', posts)"
    "1 \<le> ck_maxConcurrentBags (sv_checker sv)" "\<And>bs. mset (perm bs) = mset bs" "\<And>r. req = Some r \<Longrightarrow> length envs = length (somes (rq_Providers r))"
  shows "case res of
      Inl st \<Rightarrow> m' = m \<and> posts = []
    | Inr resp \<Rightarrow>
       (\<forall>name. go_get 0 (am_runChecksContractResults m') name = go_get 0 (am_runChecksContractResults m) name + rows_named (somes (rs_Results resp)) name) \<and>
       (\<Sum>name\<leftarrow>map snd ReasonCode_name. go_get 0 (am_runChecksContractResults m') name - go_get 0 (am_runChecksContractResults m) name) =
         (\<Sum>p\<leftarrow>rq_Providers (the req). int (length (pb_Contracts (the p)))) \<and>
       am_runChecksJobs m' = am_runChecksJobs m + 1 \<and> length posts \<le> of_bool (lokiURL \<noteq> [])"
proof (cases res)
  case (Inl st)
  then show ?thesis using assms(1) by (auto simp: served_RunChecks_Some)
next
  case (Inr resp)
  then have run: "RunChecks lib sv req envs perm started finished ctxErr = Some (Inr resp)"
      "(m', posts) = report_RunChecks lk lokiURL sv d (the req) resp m"
    using assms(1) by (auto simp: served_RunChecks_Some)
  have v: "validateRequest req = None" using run(1) by (auto simp: RunChecks_def split: option.splits)
  then obtain r where r: "req = Some r" "request_ok r" using validateRequest_None by blast
  then obtain rows where rows: "checker_Run lib (sv_checker sv) (rq_Providers r) (rq_Timeouts r) envs perm = Some rows" "rs_Results resp = map Some rows"
    using run(1) v by (auto simp: RunChecks_def Let_def)
  let ?cr = "am_runChecksContractResults"
  have counted: "go_get 0 (?cr m') name = go_get 0 (?cr m) name + rows_named rows name" for name
    using run(2) results_counted [of "rs_Results resp" m name] by (simp add: report_RunChecks_def ObserveRunChecksJob_def Let_def rows(2))
  have "length rows = length (concat (map (\<lambda>p. map (row_key p) (somes (pb_Contracts p))) (somes (rq_Providers r))))"
    using arg_cong [OF request_rows [OF rows(1) assms(2,3)], of size] assms(4) r(1) by simp
  then have "int (length rows) = (\<Sum>p\<leftarrow>rq_Providers r. int (length (pb_Contracts (the p))))"
    using request_ok_somes [OF r(2)] by (simp add: length_concat comp_def int_sum_list cong: map_cong)
  moreover have "am_runChecksJobs m' = am_runChecksJobs m + 1"
    using run(2) results_other_metrics [of "rs_Results resp" m] by (simp add: report_RunChecks_def ObserveRunChecksJob_def Let_def)
  moreover have "length posts \<le> of_bool (lokiURL \<noteq> [])"
    using run(2) by (auto simp: report_RunChecks_def PushRunChecks_def Let_def split: sum.split option.split)
  ultimately show ?thesis
    using Inr counted names_share_rows [OF request_rows_known [OF rows(1) assms(3)]] assms(4) r(1) by (simp add: rows(2))
qed

definition sample_loki :: loki_env where
  "sample_loki = \<lparr>lk_marshal = (\<lambda>j. Inr ''{}''), lk_newRequest = (\<lambda>u. None), lk_send = (\<lambda>u b. Inr (204, [])), lk_ord = (\<lambda>ks. ks), lk_ts = 7\<rparr>"

theorem RunChecks_counted_witness:
  "\<exists>resp m' posts. served_RunChecks sample_lib sample_loki ''http://l'' sample_service (Some good_request) [unreachable_session] rev 100 101 None 5
       (metrics_init ''OK'' [''OK'']) = Some (Inr resp, m', posts) \<and> am_runChecksJobs m' = 1 \<and> length posts \<le> 1 \<and>
     (\<Sum>name\<leftarrow>map snd ReasonCode_name. go_get 0 (am_runChecksContractResults m') name -
        go_get 0 (am_runChecksContractResults (metrics_init ''OK'' [''OK''])) name) = 2"
proof -
  have v: "validateRequest (Some good_request) = None" using good_request_ok validateRequest_None by blast
  obtain rows where "checker_Run sample_lib sample_checker (rq_Providers good_request) None [unreachable_session] rev = Some rows"
    by (simp add: checker_Run_def good_request_def checkProviderFiles_def unreachable_session_def good_provider_def Let_def)
  then obtain resp where "RunChecks sample_lib sample_service (Some good_request) [unreachable_session] rev 100 101 None = Some (Inr resp)"
    using v by (simp add: RunChecks_def sample_service_def good_request_def)
  moreover obtain m' posts where "report_RunChecks sample_loki ''http://l'' sample_service 5 good_request resp (metrics_init ''OK'' [''OK'']) = (m', posts)"
    by fastforce
  ultimately have run: "served_RunChecks sample_lib sample_loki ''http://l'' sample_service (Some good_request) [unreachable_session] rev 100 101 None 5
       (metrics_init ''OK'' [''OK'']) = Some (Inr resp, m', posts)"
    by (simp add: served_RunChecks_def)
  have jobs: "am_runChecksJobs (metrics_init ''OK'' [''OK'']) = 0" by (simp add: metrics_init_def)
  have "somes (rq_Providers good_request) = [good_provider]" "(\<Sum>p\<leftarrow>rq_Providers good_request. int (length (pb_Contracts (the p)))) = 2"
    by (simp_all add: good_request_def good_provider_def)
  then have provs: "\<And>r. Some good_request = Some r \<Longrightarrow> length [unreachable_session] = length (somes (rq_Providers r))"
      and two: "(\<Sum>p\<leftarrow>rq_Providers (the (Some good_request)). int (length (pb_Contracts (the p)))) = 2" by auto
  have bags: "1 \<le> ck_maxConcurrentBags (sv_checker sample_service)" by (simp add: sample_service_def sample_checker_def)
  have "(\<Sum>name\<leftarrow>map snd ReasonCode_name. go_get 0 (am_runChecksContractResults m') name -
        go_get 0 (am_runChecksContractResults (metrics_init ''OK'' [''OK''])) name) = 2 \<and> am_runChecksJobs m' = 1 \<and> length posts \<le> 1"
    using RunChecks_counted [OF run bags mset_rev provs, unfolded sum.case two jobs] by fastforce
  then show ?thesis using run by blast
qed

end
