(* ===== verification/Postgres.thy ===== *)
theory Postgres
  imports Strconv
begin

text \<open>
  How the coordinator (\<^verbatim>\<open>coordinator/cmd/init.go\<close>) and the dump tool (\<^verbatim>\<open>coordinator/cmd/dump-runchecks/bootstrap.go\<close>) reach their database: the
  check of the settings, the connection URL with escaped credentials, the limits of the pool, and the first connection.  The pool
  library reads the URL with \<^verbatim>\<open>net/url\<close>; the part of it that the credentials go through is modelled here, the rest of the library is
  a parameter.
\<close>

section \<open>Package net/url\<close>

definition url_unreserved :: "char \<Rightarrow> bool" where
  "url_unreserved c \<longleftrightarrow>
     (let n = (of_char c :: nat)
      in 97 \<le> n \<and> n \<le> 122 \<or> 65 \<le> n \<and> n \<le> 90 \<or> 48 \<le> n \<and> n \<le> 57 \<or> c \<in> set ''-_.~'')"

definition escape_byte :: "char \<Rightarrow> string" where
  "escape_byte c =
     (if url_unreserved c then [c]
      else if c = CHR '' '' then ''+''
      else [CHR ''%'', upper_hex_digit (of_char c div 16), upper_hex_digit (of_char c mod 16)])"

definition QueryEscape :: "string \<Rightarrow> string" where
  "QueryEscape s = concat (map escape_byte s)"

text \<open>\<^verbatim>\<open>unescape\<close> in the mode for user and password, which unlike the mode for queries leaves a plus sign as it is.\<close>

fun unescape_user :: "string \<Rightarrow> string option" where
  "unescape_user [] = Some []"
| "unescape_user (c # s) =
     (if c = CHR ''%''
      then (case s of
              a # b # s' \<Rightarrow>
               (case (hex_value a, hex_value b) of
                  (Some x, Some y) \<Rightarrow> map_option (\<lambda>t. char_of (16 * x + y) # t) (unescape_user s')
                | _ \<Rightarrow> None)
            | _ \<Rightarrow> None)
      else map_option (\<lambda>t. c # t) (unescape_user s))"

text \<open>
  The user and the password of a URL \<^verbatim>\<open>scheme://authority/...\<close>: the authority ends before the first of \<^verbatim>\<open>/\<close>, \<^verbatim>\<open>?\<close> and \<^verbatim>\<open>#\<close>, the user
  information before its last \<^verbatim>\<open>@\<close>, the user before the first colon.  A character that is not allowed there makes the URL invalid.
\<close>

definition validUserinfo :: "string \<Rightarrow> bool" where
  "validUserinfo s \<longleftrightarrow> list_all (\<lambda>c. url_unreserved c \<or> c \<in> set '':!$&()*+,;=%@'' \<or> c = CHR 0x27) s"

definition before_last :: "char \<Rightarrow> string \<Rightarrow> string option" where
  "before_last c s = (if c \<in> set s then Some (rev (tl (dropWhile (\<lambda>x. x \<noteq> c) (rev s)))) else None)"

definition url_credentials :: "string \<Rightarrow> (string \<times> string) option" where
  "url_credentials url =
     (case str_Index url ''://'' of
        None \<Rightarrow> None
      | Some i \<Rightarrow>
         (let authority = takeWhile (\<lambda>c. c \<notin> set ''/?#'') (drop (i + 3) url)
          in case before_last (CHR ''@'') authority of
               None \<Rightarrow> None
             | Some userinfo \<Rightarrow>
                if \<not> validUserinfo userinfo then None
                else
                (let user = takeWhile (\<lambda>c. c \<noteq> CHR '':'') userinfo;
                     password = tl (dropWhile (\<lambda>c. c \<noteq> CHR '':'') userinfo)
                 in case (unescape_user user, unescape_user password) of
                      (Some u, Some p) \<Rightarrow> Some (u, p)
                    | _ \<Rightarrow> None)))"

section \<open>Settings\<close>

record postgress =
  pg_Host :: string
  pg_Port :: string
  pg_User :: string
  pg_Password :: string
  pg_Name :: string

fun str_Join :: "string list \<Rightarrow> string \<Rightarrow> string" where
  "str_Join [] sep = []"
| "str_Join [s] sep = s"
| "str_Join (s # t # ts) sep = s @ sep @ str_Join (t # ts) sep"

definition missing_settings :: "postgress \<Rightarrow> string list" where
  "missing_settings db =
     (if TrimSpace (pg_Host db) = [] then [''DB_HOST''] else []) @
     (if TrimSpace (pg_Port db) = [] then [''DB_PORT''] else []) @
     (if TrimSpace (pg_User db) = [] then [''DB_USER''] else []) @
     (if TrimSpace (pg_Password db) = [] then [''DB_PASSWORD''] else []) @
     (if TrimSpace (pg_Name db) = [] then [''DB_NAME''] else [])"

definition validateDBConfig :: "postgress \<Rightarrow> go_error option" where
  "validateDBConfig db =
     (let missing = missing_settings db
      in if missing \<noteq> [] then Some (ErrText (''missing or empty: '' @ str_Join missing '', '')) else None)"

section \<open>The pool\<close>

record 'c pool_config =
  plc_parsed :: 'c
  plc_MaxConns :: int
  plc_MinConns :: int
  plc_MaxConnLifetime :: duration
  plc_MaxConnIdleTime :: duration
  plc_HealthCheckPeriod :: duration
  plc_ConnectTimeout :: duration

definition postgres_url :: "postgress \<Rightarrow> string" where
  "postgres_url db =
     ''postgres://'' @ QueryEscape (pg_User db) @ '':'' @ QueryEscape (pg_Password db) @ ''@'' @ pg_Host db @ '':'' @ pg_Port db @ ''/'' @ pg_Name db"

definition newPostgresConfig :: "(string \<Rightarrow> go_error + 'c) \<Rightarrow> postgress \<Rightarrow> go_error + 'c pool_config" where
  "newPostgresConfig parseConfig db =
     (case parseConfig (postgres_url db) of
        Inl err \<Rightarrow> Inl (ErrWrap ''failed to parse Postgres connection string'' err)
      | Inr cfg \<Rightarrow>
         Inr \<lparr>plc_parsed = cfg, plc_MaxConns = 12, plc_MinConns = 3, plc_MaxConnLifetime = 3600000000000, plc_MaxConnIdleTime = 1800000000000,
              plc_HealthCheckPeriod = 60000000000, plc_ConnectTimeout = 5000000000\<rparr>)"

text \<open>The dump tool's own copy.\<close>

definition dump_newPostgresConfig :: "(string \<Rightarrow> go_error + 'c) \<Rightarrow> postgress \<Rightarrow> go_error + 'c pool_config" where
  "dump_newPostgresConfig parseConfig db =
     (case parseConfig (postgres_url db) of
        Inl err \<Rightarrow> Inl (ErrWrap ''failed to parse Postgres connection string'' err)
      | Inr cfg \<Rightarrow>
         Inr \<lparr>plc_parsed = cfg, plc_MaxConns = 12, plc_MinConns = 3, plc_MaxConnLifetime = 3600000000000, plc_MaxConnIdleTime = 1800000000000,
              plc_HealthCheckPeriod = 60000000000, plc_ConnectTimeout = 5000000000\<rparr>)"

text \<open>The pool library: parsing a URL, opening a pool, taking a connection from it, and a ping on that.\<close>

record ('c, 'p) pool_lib =
  pl_ParseConfig :: "string \<Rightarrow> go_error + 'c"
  pl_NewWithConfig :: "'c pool_config \<Rightarrow> go_error + 'p"
  pl_Acquire :: "'p \<Rightarrow> go_error option"
  pl_Ping :: "'p \<Rightarrow> go_error option"

text \<open>The coordinator's copy returns the pool also with an error; \<open>dump_connectPostgres\<close> is the copy of the dump tool.\<close>

definition connectPostgres :: "('c, 'p) pool_lib \<Rightarrow> postgress \<Rightarrow> 'p option \<times> go_error option" where
  "connectPostgres lib db =
     (case newPostgresConfig (pl_ParseConfig lib) db of
        Inl err \<Rightarrow> (None, Some err)
      | Inr cfg \<Rightarrow>
         (case pl_NewWithConfig lib cfg of
            Inl err \<Rightarrow> (None, Some (ErrWrap ''failed to create a new Postgres connection pool'' err))
          | Inr pool \<Rightarrow>
             (case pl_Acquire lib pool of
                Some err \<Rightarrow> (Some pool, Some (ErrWrap ''failed to acquire a connection from the Postgres pool'' err))
              | None \<Rightarrow>
                 (case pl_Ping lib pool of
                    Some err \<Rightarrow> (Some pool, Some (ErrWrap ''failed to ping the Postgres database'' err))
                  | None \<Rightarrow> (Some pool, None)))))"

definition dump_connectPostgres :: "('c, 'p) pool_lib \<Rightarrow> postgress \<Rightarrow> go_error + 'p" where
  "dump_connectPostgres lib db =
     (case dump_newPostgresConfig (pl_ParseConfig lib) db of
        Inl err \<Rightarrow> Inl err
      | Inr cfg \<Rightarrow>
         (case pl_NewWithConfig lib cfg of
            Inl err \<Rightarrow> Inl (ErrWrap ''failed to create a new Postgres connection pool'' err)
          | Inr pool \<Rightarrow>
             (case pl_Acquire lib pool of
                Some err \<Rightarrow> Inl (ErrWrap ''failed to acquire a connection from the Postgres pool'' err)
              | None \<Rightarrow>
                 (case pl_Ping lib pool of
                    Some err \<Rightarrow> Inl (ErrWrap ''failed to ping the Postgres database'' err)
                  | None \<Rightarrow> Inr pool))))"

text \<open>The two copies connect alike.\<close>

lemma connections_agree:
  "dump_connectPostgres lib db = (case connectPostgres lib db of (p, None) \<Rightarrow> Inr (the p) | (p, Some err) \<Rightarrow> Inl err)"
  by (simp add: connectPostgres_def dump_connectPostgres_def newPostgresConfig_def dump_newPostgresConfig_def split: sum.split option.split)

lemma validateDBConfig_ok:
  "validateDBConfig db = None \<longleftrightarrow> (\<forall>s \<in> {pg_Host db, pg_Port db, pg_User db, pg_Password db, pg_Name db}. TrimSpace s \<noteq> [])"
  by (simp add: validateDBConfig_def missing_settings_def)

section \<open>Credentials\<close>

text \<open>What arrives of a text that is escaped for a query and read as a user or password.\<close>

definition blank_to_plus :: "string \<Rightarrow> string" where
  "blank_to_plus = map (\<lambda>c. if c = CHR '' '' then CHR ''+'' else c)"

lemma hex_value_upper: "n < 16 \<Longrightarrow> hex_value (upper_hex_digit n) = Some n"
  by (simp add: hex_value_def upper_hex_digit_def Let_def of_char_of)

lemma reserved_chars: "\<not> url_unreserved (CHR ''%'')" "\<not> url_unreserved (CHR '' '')" "\<not> url_unreserved (CHR '':'')" "\<not> url_unreserved (CHR ''@'')"
    "\<not> url_unreserved (CHR ''/'')" "\<not> url_unreserved (CHR ''?'')" "\<not> url_unreserved (CHR ''#'')"
  by (simp_all add: url_unreserved_def)

lemma unescape_escape_byte:
  "unescape_user (escape_byte c @ s) = map_option (\<lambda>t. (if c = CHR '' '' then CHR ''+'' else c) # t) (unescape_user s)"
proof (cases "url_unreserved c \<or> c = CHR '' ''")
  case True
  then have "c \<noteq> CHR ''%''" using reserved_chars(1) by auto
  then show ?thesis using True reserved_chars(2) by (auto simp: escape_byte_def)
next
  case False
  have "(of_char c :: nat) div 16 < 16" "(of_char c :: nat) mod 16 < 16" using nat_of_char_less_256 [of c] by linarith+
  moreover have "char_of (16 * (of_char c div 16) + of_char c mod 16 :: nat) = c" by (simp only: mult_div_mod_eq char_of_char)
  ultimately show ?thesis using False by (simp add: escape_byte_def hex_value_upper del: mult_div_mod_eq)
qed

lemma unescape_QueryEscape: "unescape_user (QueryEscape s) = Some (blank_to_plus s)"
  by (induction s) (auto simp: QueryEscape_def unescape_escape_byte blank_to_plus_def)

lemma escaped_chars:
  assumes "c \<in> set (QueryEscape s)"
  shows "url_unreserved c \<or> c = CHR ''%'' \<or> c = CHR ''+''"
proof -
  have "url_unreserved (upper_hex_digit n)" if "n < 16" for n
    using that by (auto simp: url_unreserved_def upper_hex_digit_def of_char_of)
  moreover have "(of_char x :: nat) div 16 < 16" for x using nat_of_char_less_256 [of x] by linarith
  ultimately show ?thesis using assms by (auto simp: QueryEscape_def escape_byte_def split: if_splits)
qed

lemma takeWhile_stop: "\<forall>x \<in> set s. P x \<Longrightarrow> \<not> P c \<Longrightarrow> takeWhile P (s @ c # t) = s"
  by (induction s) auto

lemma dropWhile_stop: "\<forall>x \<in> set s. P x \<Longrightarrow> \<not> P c \<Longrightarrow> dropWhile P (s @ c # t) = c # t"
  by (induction s) auto

lemma before_last_append: "c \<notin> set t \<Longrightarrow> before_last c (s @ c # t) = Some s"
  by (subgoal_tac "dropWhile (\<lambda>x. x \<noteq> c) (rev t @ c # rev s) = c # rev s", simp add: before_last_def, rule dropWhile_stop) auto

lemma blank_to_plus_id: "blank_to_plus s = s \<longleftrightarrow> CHR '' '' \<notin> set s"
  by (induction s) (auto simp: blank_to_plus_def)

text \<open>
  C10. The credentials of the connection URL.  For a host and a port without the characters that end an authority, the user and the
  password that a reader of the URL gets are those of the configuration with every blank turned into a plus sign: whatever other characters
  they have survives, and they arrive unchanged exactly when neither has a blank.
\<close>

theorem postgres_credentials:
  assumes "set (pg_Host db) \<inter> set ''/?#@'' = {}" "set (pg_Port db) \<inter> set ''/?#@'' = {}"
  shows "url_credentials (postgres_url db) = Some (blank_to_plus (pg_User db), blank_to_plus (pg_Password db)) \<and>
    (url_credentials (postgres_url db) = Some (pg_User db, pg_Password db) \<longleftrightarrow> CHR '' '' \<notin> set (pg_User db) \<union> set (pg_Password db))"
proof -
  let ?u = "QueryEscape (pg_User db)" and ?p = "QueryEscape (pg_Password db)"
  let ?ui = "?u @ CHR '':'' # ?p" and ?host = "pg_Host db @ '':'' @ pg_Port db"
  have plain: "c \<notin> set '':@/?#''" if "c \<in> set (QueryEscape s)" for c s
    using escaped_chars [OF that] reserved_chars by auto
  have url: "postgres_url db = ''postgres://'' @ (?ui @ CHR ''@'' # ?host) @ CHR ''/'' # pg_Name db" by (simp add: postgres_url_def)
  have start: "str_Index (postgres_url db) ''://'' = Some 8" unfolding url by (simp add: str_Index.simps)
  have rest: "drop (8 + 3) (postgres_url db) = (?ui @ CHR ''@'' # ?host) @ CHR ''/'' # pg_Name db" unfolding url by simp
  have "takeWhile (\<lambda>c. c \<notin> set ''/?#'') (drop (8 + 3) (postgres_url db)) = ?ui @ CHR ''@'' # ?host"
    unfolding rest by (rule takeWhile_stop) (use plain assms in auto)
  moreover have "before_last (CHR ''@'') (?ui @ CHR ''@'' # ?host) = Some ?ui" by (rule before_last_append) (use assms in auto)
  moreover have "validUserinfo ?ui"
    unfolding validUserinfo_def list_all_iff
  proof
    fix c assume "c \<in> set ?ui"
    then have "c \<in> set ?u \<or> c \<in> set ?p \<or> c = CHR '':''" by auto
    then have "url_unreserved c \<or> c = CHR ''%'' \<or> c = CHR ''+'' \<or> c = CHR '':''" using escaped_chars [of c] by blast
    then show "url_unreserved c \<or> c \<in> set '':!$&()*+,;=%@'' \<or> c = CHR 0x27" by (elim disjE) simp_all
  qed
  moreover have "takeWhile (\<lambda>c. c \<noteq> CHR '':'') ?ui = ?u" by (rule takeWhile_stop) (use plain in auto)
  moreover have "tl (dropWhile (\<lambda>c. c \<noteq> CHR '':'') ?ui) = ?p" by (subst dropWhile_stop) (use plain in auto)
  ultimately have "url_credentials (postgres_url db) = Some (blank_to_plus (pg_User db), blank_to_plus (pg_Password db))"
    unfolding url_credentials_def start option.case Let_def by (simp only: option.case unescape_QueryEscape prod.case simp_thms if_False if_True)
  then show ?thesis by (simp add: blank_to_plus_id)
qed

theorem postgres_credentials_witness:
  "url_credentials (postgres_url \<lparr>pg_Host = ''db'', pg_Port = ''5432'', pg_User = ''u'', pg_Password = ''p/: @'', pg_Name = ''n''\<rparr>) = Some (''u'', ''p/:+@'')"
  using postgres_credentials [of "\<lparr>pg_Host = ''db'', pg_Port = ''5432'', pg_User = ''u'', pg_Password = ''p/: @'', pg_Name = ''n''\<rparr>"]
  by (simp add: blank_to_plus_def)

end
