(* ===== verification/Startup.thy ===== *)
theory Startup
  imports Postgres RepoMetrics AgentConfig Dump
begin

text \<open>
  Start and end of the two programs: the configuration of the coordinator (\<^verbatim>\<open>coordinator/cmd/config.go\<close>) and what \<^verbatim>\<open>main.go\<close> makes of it, the
  loops it starts (\<^verbatim>\<open>workers.go\<close>), the clients for the TON network of the coordinator, the dump tool and the agent
  (\<^verbatim>\<open>agent/internal/tontransport\<close>), and the life of an agent process (\<^verbatim>\<open>agent/cmd/agent/main.go\<close>, \<^verbatim>\<open>grpcserver.New\<close>).  The libraries appear through
  the errors they answer.
\<close>

section \<open>Configuration of the coordinator\<close>

record system_cfg =
  sc_Port :: string
  sc_ADNLPort :: string
  sc_AccessTokens :: string
  sc_Key :: "bytes option"
  sc_LogLevel :: "8 word"
  sc_StoreHistoryDays :: "64 word"
  sc_EndpointStaleTTLMinutes :: "64 word"
  sc_EndpointFullRefreshIntervalMinutes :: "64 word"
  sc_EndpointRefreshFailureSeconds :: "64 word"
  sc_StoreProofIntervalMinutes :: "64 word"
  sc_StoreProofRetryDelayMinutes :: "64 word"
  sc_CORSAllowedOrigins :: string

record metrics_cfg =
  mc_Namespace :: string
  mc_ServerSubsystem :: string
  mc_WorkersSubsystem :: string
  mc_DbSubsystem :: string

record ton_cfg =
  tc_MasterAddress :: string
  tc_ConfigURL :: string
  tc_BatchSize :: "32 word"

record agents_cfg =
  ag_Endpoints :: string
  ag_AuthToken :: string
  ag_CACertFile :: string
  ag_RequestTimeoutMs :: "32 word"
  ag_RunChecksPingMs :: "32 word"
  ag_RunChecksRldpMs :: "32 word"
  ag_RunChecksTotalMs :: "32 word"
  ag_StorageRatesQueryMs :: "32 word"

record coordinator_cfg =
  cc_System :: system_cfg
  cc_Metrics :: metrics_cfg
  cc_DB :: postgress
  cc_TON :: ton_cfg
  cc_Agents :: agents_cfg

text \<open>
  The library that fills a struct from the environment, per type of field: the value for a variable with the default of the tag
  \<^verbatim>\<open>envDefault\<close> (\<open>None\<close> without the tag; the tags \<^verbatim>\<open>default\<close> and \<^verbatim>\<open>required\<close> are none of its tags).
\<close>

record env_lib =
  ev_string :: "string \<Rightarrow> string option \<Rightarrow> go_error + string"
  ev_int :: "string \<Rightarrow> string option \<Rightarrow> go_error + 64 word"
  ev_uint8 :: "string \<Rightarrow> string option \<Rightarrow> go_error + 8 word"
  ev_uint32 :: "string \<Rightarrow> string option \<Rightarrow> go_error + 32 word"
  ev_key :: "string \<Rightarrow> string option \<Rightarrow> go_error + bytes option"

definition bind_err :: "go_error + 'a \<Rightarrow> ('a \<Rightarrow> go_error + 'b) \<Rightarrow> go_error + 'b" where
  "bind_err x f = (case x of Inl e \<Rightarrow> Inl e | Inr v \<Rightarrow> f v)"

definition parse_System :: "env_lib \<Rightarrow> go_error + system_cfg" where
  "parse_System ev =
     bind_err (ev_string ev ''SYSTEM_PORT'' (Some ''9090'')) (\<lambda>port.
     bind_err (ev_string ev ''SYSTEM_ADNL_PORT'' (Some ''16167'')) (\<lambda>adnl.
     bind_err (ev_string ev ''SYSTEM_ACCESS_TOKENS'' (Some [])) (\<lambda>tokens.
     bind_err (ev_key ev ''SYSTEM_KEY'' None) (\<lambda>key.
     bind_err (ev_uint8 ev ''SYSTEM_LOG_LEVEL'' (Some ''1'')) (\<lambda>level.
     bind_err (ev_int ev ''SYSTEM_STORE_HISTORY_DAYS'' (Some ''90'')) (\<lambda>days.
     bind_err (ev_int ev ''COORDINATOR_ENDPOINT_STALE_TTL_MINUTES'' (Some ''720'')) (\<lambda>stale.
     bind_err (ev_int ev ''COORDINATOR_ENDPOINT_FULL_REFRESH_INTERVAL_MINUTES'' (Some ''360'')) (\<lambda>full.
     bind_err (ev_int ev ''COORDINATOR_ENDPOINT_REFRESH_FAILURE_INTERVAL_SECONDS'' (Some ''30'')) (\<lambda>fail.
     bind_err (ev_int ev ''COORDINATOR_STOREPROOF_INTERVAL_MINUTES'' (Some ''60'')) (\<lambda>storeproof.
     bind_err (ev_int ev ''COORDINATOR_STOREPROOF_RETRY_DELAY_MINUTES'' (Some ''15'')) (\<lambda>retry.
     bind_err (ev_string ev ''CORS_ALLOWED_ORIGINS'' (Some [])) (\<lambda>cors.
       Inr \<lparr>sc_Port = port, sc_ADNLPort = adnl, sc_AccessTokens = tokens, sc_Key = key, sc_LogLevel = level, sc_StoreHistoryDays = days,
            sc_EndpointStaleTTLMinutes = stale, sc_EndpointFullRefreshIntervalMinutes = full, sc_EndpointRefreshFailureSeconds = fail,
            sc_StoreProofIntervalMinutes = storeproof, sc_StoreProofRetryDelayMinutes = retry, sc_CORSAllowedOrigins = cors\<rparr>))))))))))))"

definition parse_Metrics :: "env_lib \<Rightarrow> go_error + metrics_cfg" where
  "parse_Metrics ev =
     bind_err (ev_string ev ''NAMESPACE'' None) (\<lambda>ns.
     bind_err (ev_string ev ''SERVER_SUBSYSTEM'' None) (\<lambda>server.
     bind_err (ev_string ev ''WORKERS_SUBSYSTEM'' None) (\<lambda>workers.
     bind_err (ev_string ev ''DB_SUBSYSTEM'' None) (\<lambda>db.
       Inr \<lparr>mc_Namespace = ns, mc_ServerSubsystem = server, mc_WorkersSubsystem = workers, mc_DbSubsystem = db\<rparr>))))"

definition parse_DB :: "env_lib \<Rightarrow> go_error + postgress" where
  "parse_DB ev =
     bind_err (ev_string ev ''DB_HOST'' None) (\<lambda>host.
     bind_err (ev_string ev ''DB_PORT'' None) (\<lambda>port.
     bind_err (ev_string ev ''DB_USER'' None) (\<lambda>user.
     bind_err (ev_string ev ''DB_PASSWORD'' None) (\<lambda>password.
     bind_err (ev_string ev ''DB_NAME'' None) (\<lambda>name.
       Inr \<lparr>pg_Host = host, pg_Port = port, pg_User = user, pg_Password = password, pg_Name = name\<rparr>)))))"

definition parse_TON :: "env_lib \<Rightarrow> go_error + ton_cfg" where
  "parse_TON ev =
     bind_err (ev_string ev ''MASTER_ADDRESS'' (Some ''UQB3d3d3d3d3d3d3d3d3d3d3d3d3d3d3d3d3d3d3d3d3d0x0'')) (\<lambda>master.
     bind_err (ev_string ev ''TON_CONFIG_URL'' (Some ''https://ton-blockchain.github.io/global.config.json'')) (\<lambda>url.
     bind_err (ev_uint32 ev ''BATCH_SIZE'' (Some ''100'')) (\<lambda>batch.
       Inr \<lparr>tc_MasterAddress = master, tc_ConfigURL = url, tc_BatchSize = batch\<rparr>)))"

definition parse_Agents :: "env_lib \<Rightarrow> go_error + agents_cfg" where
  "parse_Agents ev =
     bind_err (ev_string ev ''AGENT_ENDPOINTS'' (Some [])) (\<lambda>endpoints.
     bind_err (ev_string ev ''AGENT_AUTH_TOKEN'' (Some [])) (\<lambda>token.
     bind_err (ev_string ev ''AGENT_CA_CERT_FILE'' (Some [])) (\<lambda>ca.
     bind_err (ev_uint32 ev ''AGENT_RPC_TIMEOUT_MS'' (Some ''30000'')) (\<lambda>rpc.
     bind_err (ev_uint32 ev ''COORDINATOR_RUNCHECKS_PING_MS'' (Some ''7000'')) (\<lambda>ping.
     bind_err (ev_uint32 ev ''COORDINATOR_RUNCHECKS_RLDP_MS'' (Some ''2000'')) (\<lambda>rldp.
     bind_err (ev_uint32 ev ''COORDINATOR_RUNCHECKS_TOTAL_MS'' (Some ''1200000'')) (\<lambda>tot.
     bind_err (ev_uint32 ev ''COORDINATOR_STORAGERATES_QUERY_TIMEOUT_MS'' (Some ''14000'')) (\<lambda>rates.
       Inr \<lparr>ag_Endpoints = endpoints, ag_AuthToken = token, ag_CACertFile = ca, ag_RequestTimeoutMs = rpc, ag_RunChecksPingMs = ping,
            ag_RunChecksRldpMs = rldp, ag_RunChecksTotalMs = tot, ag_StorageRatesQueryMs = rates\<rparr>))))))))"

text \<open>\<open>Inl\<close>: the process ends with this message.  \<open>key\<close> is the key made when none is configured.\<close>

definition fatal :: "string \<Rightarrow> go_error + 'a \<Rightarrow> string + 'a" where
  "fatal msg x = (case x of Inl err \<Rightarrow> Inl (msg @ err_Error err) | Inr v \<Rightarrow> Inr v)"

definition loadConfig :: "env_lib \<Rightarrow> bytes \<Rightarrow> string + coordinator_cfg" where
  "loadConfig ev key =
     (case fatal ''Failed to parse system config: '' (parse_System ev) of Inl m \<Rightarrow> Inl m | Inr sys \<Rightarrow>
     (case fatal ''Failed to parse metrics config: '' (parse_Metrics ev) of Inl m \<Rightarrow> Inl m | Inr met \<Rightarrow>
     (case fatal ''Failed to parse db config: '' (parse_DB ev) of Inl m \<Rightarrow> Inl m | Inr db \<Rightarrow>
     (case fatal ''Failed to parse TON config: '' (parse_TON ev) of Inl m \<Rightarrow> Inl m | Inr ton \<Rightarrow>
     (case fatal ''Failed to parse agents config: '' (parse_Agents ev) of Inl m \<Rightarrow> Inl m | Inr agents \<Rightarrow>
        Inr \<lparr>cc_System = (if sc_Key sys = None then sys\<lparr>sc_Key := Some key\<rparr> else sys), cc_Metrics = met, cc_DB = db, cc_TON = ton,
             cc_Agents = agents\<rparr>)))))"

text \<open>The loader of the dump tool reads a part of the variables, and the database only for \<^verbatim>\<open>--storage=postgres\<close>.\<close>

record dump_cfg =
  du_ADNLPort :: string
  du_Key :: "bytes option"
  du_LogLevel :: "8 word"
  du_TON :: ton_cfg
  du_DB :: postgress

definition no_postgress :: postgress where
  "no_postgress = \<lparr>pg_Host = [], pg_Port = [], pg_User = [], pg_Password = [], pg_Name = []\<rparr>"

definition dump_parse_System :: "env_lib \<Rightarrow> go_error + string \<times> bytes option \<times> 8 word" where
  "dump_parse_System ev =
     bind_err (ev_string ev ''SYSTEM_ADNL_PORT'' (Some ''16167'')) (\<lambda>adnl.
     bind_err (ev_key ev ''SYSTEM_KEY'' None) (\<lambda>key.
     bind_err (ev_uint8 ev ''SYSTEM_LOG_LEVEL'' (Some ''1'')) (\<lambda>level. Inr (adnl, key, level))))"

definition dump_loadConfig :: "env_lib \<Rightarrow> bytes \<Rightarrow> bool \<Rightarrow> string + dump_cfg" where
  "dump_loadConfig ev key postgres =
     (case fatal ''Failed to parse system config: '' (dump_parse_System ev) of Inl m \<Rightarrow> Inl m | Inr (adnl, k, level) \<Rightarrow>
     (case fatal ''Failed to parse TON config: '' (parse_TON ev) of Inl m \<Rightarrow> Inl m | Inr ton \<Rightarrow>
     (case (if postgres
            then (case fatal ''Failed to parse db config: '' (parse_DB ev) of Inl m \<Rightarrow> Inl m | Inr db \<Rightarrow>
                    (case validateDBConfig db of None \<Rightarrow> Inr db | Some err \<Rightarrow> Inl (''Database config: '' @ err_Error err)))
            else Inr no_postgress) of Inl m \<Rightarrow> Inl m | Inr db \<Rightarrow>
        Inr \<lparr>du_ADNLPort = adnl, du_Key = (if k = None then Some key else k), du_LogLevel = level, du_TON = ton, du_DB = db\<rparr>)))"

section \<open>What the coordinator runs with\<close>

text \<open>A product that makes a duration is 64 bits wide.\<close>

definition duration_of :: "64 word \<Rightarrow> int \<Rightarrow> duration" where
  "duration_of n unit_ns = sint (n * word_of_int unit_ns)"

definition endpoint_settings :: "coordinator_cfg \<Rightarrow> endpoint_cfg" where
  "endpoint_settings cfg =
     \<lparr>ecf_StaleTTL = duration_of (sc_EndpointStaleTTLMinutes (cc_System cfg)) (minutes 1),
      ecf_FullRefreshInterval = duration_of (sc_EndpointFullRefreshIntervalMinutes (cc_System cfg)) (minutes 1),
      ecf_FailInterval = duration_of (sc_EndpointRefreshFailureSeconds (cc_System cfg)) (seconds 1)\<rparr>"

definition proof_settings :: "coordinator_cfg \<Rightarrow> store_proof_config" where
  "proof_settings cfg =
     \<lparr>spc_Interval = duration_of (sc_StoreProofIntervalMinutes (cc_System cfg)) (minutes 1),
      spc_RetryDelay = duration_of (sc_StoreProofRetryDelayMinutes (cc_System cfg)) (minutes 1)\<rparr>"

definition agent_settings :: "coordinator_cfg \<Rightarrow> agentrpc_config" where
  "agent_settings cfg =
     \<lparr>acf_Endpoints = ParseEndpointsCSV (ag_Endpoints (cc_Agents cfg)), acf_AuthToken = ag_AuthToken (cc_Agents cfg),
      acf_CACertFile = ag_CACertFile (cc_Agents cfg), acf_RequestTimeout = ms_duration (ag_RequestTimeoutMs (cc_Agents cfg))\<rparr>"

definition parseCSV :: "string \<Rightarrow> string list" where
  "parseCSV val = filter (\<lambda>s. s \<noteq> []) (map TrimSpace (str_Split (CHR '','') val))"

text \<open>
  The steps of \<^verbatim>\<open>run\<close> that can end it, in their order: the TON client, the provider client and the pool.  An error of the agents' client
  is only logged; the coordinator then runs without agents.
\<close>

definition run_startup ::
  "go_error option \<Rightarrow> go_error option \<Rightarrow> (string \<Rightarrow> go_error option) \<Rightarrow> (string \<Rightarrow> bool) \<Rightarrow> go_error option \<Rightarrow> coordinator_cfg \<Rightarrow>
     go_error + agent_client option" where
  "run_startup tonErr providerErr tlsErr dial dbErr cfg =
     (case tonErr of Some err \<Rightarrow> Inl err | None \<Rightarrow>
     (case providerErr of Some err \<Rightarrow> Inl err | None \<Rightarrow>
        (let agents = (case agentrpc_New tlsErr dial (agent_settings cfg) of Inl _ \<Rightarrow> None | Inr c \<Rightarrow> Some c)
         in case dbErr of Some err \<Rightarrow> Inl err | None \<Rightarrow> Inr agents)))"

section \<open>The loops\<close>

definition Start :: "'s telemetry_worker \<Rightarrow> 's master_worker \<Rightarrow> ('s \<Rightarrow> step_result \<times> 's) \<Rightarrow> (string \<times> ('s \<Rightarrow> step_result \<times> 's)) list" where
  "Start tel master cleanup =
     [(''UpdateTelemetry'', twk_UpdateTelemetry tel), (''UpdateBenchmarks'', twk_UpdateBenchmarks tel),
      (''CollectNewProviders'', mwk_CollectNewProviders master), (''UpdateKnownProviders'', mwk_UpdateKnownProviders master),
      (''CollectProvidersNewStorageContracts'', mwk_CollectProvidersNewStorageContracts master), (''StoreProof'', mwk_StoreProof master),
      (''RefreshEndpointsFull'', mwk_RefreshEndpointsFull master), (''UpdateUptime'', mwk_UpdateUptime master),
      (''UpdateRating'', mwk_UpdateRating master), (''UpdateIPInfo'', mwk_UpdateIPInfo master), (''CleanupOldData'', cleanup)]"

section \<open>Clients of the TON network\<close>

text \<open>The errors of the library calls that set up the two gateways.\<close>

record gateway_lib =
  gl_GetConfig :: "go_error option"
  gl_GenerateKey :: "go_error option"
  gl_Listener :: "go_error option"
  gl_StartDHT :: "go_error option"
  gl_NewDHT :: "go_error option"
  gl_StartProvider :: "go_error option"

datatype gateway = DhtGateway | ProviderGateway

text \<open>
  The coordinator's \<^verbatim>\<open>newProviderClient\<close>: whether it returns a DHT client and a transport client, its error, and the gateways left open.
  \<open>dump_newProviderClient\<close> is the copy of the dump tool, which returns no client with an error.
\<close>

definition newProviderClient :: "gateway_lib \<Rightarrow> (bool \<times> bool \<times> go_error option) \<times> gateway set" where
  "newProviderClient lib =
     (case gl_GetConfig lib of Some err \<Rightarrow> ((False, False, Some (ErrWrap ''failed to get liteclient config'' err)), {}) | None \<Rightarrow>
     (case gl_GenerateKey lib of Some err \<Rightarrow> ((False, False, Some (ErrWrap ''failed to generate DHT ADNL key'' err)), {}) | None \<Rightarrow>
     (case gl_Listener lib of Some err \<Rightarrow> ((False, False, Some (ErrWrap ''failed to create default listener'' err)), {}) | None \<Rightarrow>
     (case gl_StartDHT lib of Some err \<Rightarrow> ((False, False, Some (ErrWrap ''failed to start DHT gateway'' err)), {}) | None \<Rightarrow>
     (case gl_NewDHT lib of Some err \<Rightarrow> ((False, False, Some (ErrWrap ''failed to create DHT client'' err)), {DhtGateway}) | None \<Rightarrow>
     (case gl_StartProvider lib of
        Some err \<Rightarrow> ((True, False, Some (ErrWrap ''failed to start ADNL gateway for provider'' err)), {DhtGateway})
      | None \<Rightarrow> ((True, True, None), {DhtGateway, ProviderGateway})))))))"

definition dump_newProviderClient :: "gateway_lib \<Rightarrow> (go_error + unit) \<times> gateway set" where
  "dump_newProviderClient lib =
     (case gl_GetConfig lib of Some err \<Rightarrow> (Inl (ErrWrap ''failed to get liteclient config'' err), {}) | None \<Rightarrow>
     (case gl_GenerateKey lib of Some err \<Rightarrow> (Inl (ErrWrap ''failed to generate DHT ADNL key'' err), {}) | None \<Rightarrow>
     (case gl_Listener lib of Some err \<Rightarrow> (Inl (ErrWrap ''failed to create default listener'' err), {}) | None \<Rightarrow>
     (case gl_StartDHT lib of Some err \<Rightarrow> (Inl (ErrWrap ''failed to start DHT gateway'' err), {}) | None \<Rightarrow>
     (case gl_NewDHT lib of Some err \<Rightarrow> (Inl (ErrWrap ''failed to create DHT client'' err), {DhtGateway}) | None \<Rightarrow>
     (case gl_StartProvider lib of
        Some err \<Rightarrow> (Inl (ErrWrap ''failed to start ADNL gateway for provider'' err), {DhtGateway})
      | None \<Rightarrow> (Inr (), {DhtGateway, ProviderGateway})))))))"

text \<open>
  The transport of an agent.  A pointer field is seen through whether it is nil; \<open>pt_startOnce\<close> and \<open>pt_closeOnce\<close> tell whether the two
  \<^verbatim>\<open>sync.Once\<close> have fired, and \<open>pt_open\<close> are the gateways that are open, which is not a field of the program.
\<close>

record provider_transport =
  pt_dhtGateway :: bool
  pt_providerGateway :: bool
  pt_client :: bool
  pt_startOnce :: bool
  pt_closeOnce :: bool
  pt_startErr :: "go_error option"
  pt_open :: "gateway set"

definition NewProviderTransport :: provider_transport where
  "NewProviderTransport =
     \<lparr>pt_dhtGateway = False, pt_providerGateway = False, pt_client = False, pt_startOnce = False, pt_closeOnce = False, pt_startErr = None,
      pt_open = {}\<rparr>"

definition startLocked :: "gateway_lib \<Rightarrow> provider_transport \<Rightarrow> go_error option \<times> provider_transport" where
  "startLocked lib p =
     (case gl_GetConfig lib of Some err \<Rightarrow> (Some (ErrWrap ''get liteclient config'' err), p) | None \<Rightarrow>
     (case gl_GenerateKey lib of Some err \<Rightarrow> (Some (ErrWrap ''generate DHT ADNL key'' err), p) | None \<Rightarrow>
     (case gl_Listener lib of Some err \<Rightarrow> (Some (ErrWrap ''create ADNL listener'' err), p) | None \<Rightarrow>
     (case gl_StartDHT lib of Some err \<Rightarrow> (Some (ErrWrap ''start DHT gateway'' err), p) | None \<Rightarrow>
       (let p = p\<lparr>pt_dhtGateway := True, pt_open := insert DhtGateway (pt_open p)\<rparr>
        in case gl_NewDHT lib of
             Some err \<Rightarrow> (Some (ErrWrap ''create DHT client'' err), p\<lparr>pt_dhtGateway := False, pt_open := pt_open p - {DhtGateway}\<rparr>)
           | None \<Rightarrow>
              (case gl_StartProvider lib of
                 Some err \<Rightarrow> (Some (ErrWrap ''start provider ADNL gateway'' err), p\<lparr>pt_dhtGateway := False, pt_open := pt_open p - {DhtGateway}\<rparr>)
               | None \<Rightarrow>
                  (None, p\<lparr>pt_providerGateway := True, pt_client := True, pt_open := insert ProviderGateway (pt_open p)\<rparr>)))))))"

definition transport_Start :: "gateway_lib \<Rightarrow> provider_transport \<Rightarrow> go_error option \<times> provider_transport" where
  "transport_Start lib p =
     (if pt_startOnce p then (pt_startErr p, p)
      else (case startLocked lib p of (err, p) \<Rightarrow> (err, p\<lparr>pt_startOnce := True, pt_startErr := err\<rparr>)))"

text \<open>\<open>closeErr\<close> are the errors of closing the gateways.\<close>

definition transport_Close :: "(gateway \<Rightarrow> go_error option) \<Rightarrow> provider_transport \<Rightarrow> go_error option \<times> provider_transport" where
  "transport_Close closeErr p =
     (if pt_closeOnce p then (None, p)
      else
       (let e1 = (if pt_providerGateway p then closeErr ProviderGateway else None);
            p = (if pt_providerGateway p then p\<lparr>pt_providerGateway := False, pt_open := pt_open p - {ProviderGateway}\<rparr> else p);
            e2 = (if pt_dhtGateway p \<and> e1 = None then closeErr DhtGateway else e1);
            p = (if pt_dhtGateway p then p\<lparr>pt_dhtGateway := False, pt_open := pt_open p - {DhtGateway}\<rparr> else p)
        in (e2, p\<lparr>pt_client := False, pt_closeOnce := True\<rparr>)))"

inductive transport_step :: "provider_transport \<Rightarrow> provider_transport \<Rightarrow> bool" where
  start: "transport_Start lib p = (err, p') \<Longrightarrow> transport_step p p'"
| close: "transport_Close closeErr p = (err, p') \<Longrightarrow> transport_step p p'"

definition transport_ok :: "provider_transport \<Rightarrow> bool" where
  "transport_ok p \<longleftrightarrow>
     pt_open p = (if pt_dhtGateway p then {DhtGateway} else {}) \<union> (if pt_providerGateway p then {ProviderGateway} else {}) \<and>
     pt_client p = pt_dhtGateway p \<and> pt_providerGateway p = pt_dhtGateway p \<and>
     (pt_dhtGateway p \<longrightarrow> pt_startOnce p \<and> pt_startErr p = None) \<and> (\<not> pt_startOnce p \<longrightarrow> pt_startErr p = None)"

lemma startLocked_result:
  assumes "startLocked lib p = (err, q)" "\<not> pt_dhtGateway p" "\<not> pt_providerGateway p" "\<not> pt_client p" "pt_open p = {}"
  shows "if err = None then pt_dhtGateway q \<and> pt_providerGateway q \<and> pt_client q \<and> pt_open q = {DhtGateway, ProviderGateway}
    else \<not> pt_dhtGateway q \<and> \<not> pt_providerGateway q \<and> \<not> pt_client q \<and> pt_open q = {}"
  using assms by (auto simp: startLocked_def Let_def split: option.split_asm)

lemma transport_Start_ok:
  assumes "transport_ok p"
  shows "transport_ok (snd (transport_Start lib p))"
proof (cases "pt_startOnce p")
  case False
  then have p: "\<not> pt_dhtGateway p" "\<not> pt_providerGateway p" "\<not> pt_client p" "pt_open p = {}" using assms by (auto simp: transport_ok_def)
  obtain err q where q: "startLocked lib p = (err, q)" by fastforce
  show ?thesis using startLocked_result [OF q p] False q by (auto simp: transport_Start_def transport_ok_def split: if_splits)
qed (use assms in \<open>simp add: transport_Start_def\<close>)

lemma transport_Close_ok:
  assumes "transport_ok p"
  shows "transport_ok (snd (transport_Close closeErr p))"
  using assms by (cases "pt_dhtGateway p") (auto simp: transport_Close_def transport_ok_def Let_def)

lemma transport_reachable: "transport_step\<^sup>*\<^sup>* NewProviderTransport p \<Longrightarrow> transport_ok p"
proof (induction rule: rtranclp_induct)
  case (step p p')
  from step(2) show ?case
    by cases (use step(3) transport_Start_ok transport_Close_ok in \<open>metis snd_conv\<close>)+
qed (simp add: NewProviderTransport_def transport_ok_def)

text \<open>
  In every sequence of \<^verbatim>\<open>Start\<close> and \<^verbatim>\<open>Close\<close>: the client can be used exactly while both gateways are open, a failed start leaves nothing
  open and its error is the answer of every later start, and the first close closes everything.
\<close>

lemma transport_lifecycle:
  assumes "transport_step\<^sup>*\<^sup>* NewProviderTransport p"
  shows "(pt_client p \<longleftrightarrow> pt_open p = {DhtGateway, ProviderGateway}) \<and> (\<not> pt_client p \<longrightarrow> pt_open p = {}) \<and>
    (pt_startErr p = Some e \<longrightarrow> pt_open p = {} \<and> transport_Start lib p = (Some e, p)) \<and>
    (\<not> pt_closeOnce p \<longrightarrow> pt_open (snd (transport_Close closeErr p)) = {})"
  using transport_reachable [OF assms]
  by (cases "pt_dhtGateway p") (auto simp: transport_ok_def transport_Start_def transport_Close_def Let_def)

section \<open>An agent process\<close>

definition agent_service :: "checker \<Rightarrow> agent_config \<Rightarrow> service" where
  "agent_service checks cfg =
     \<lparr>sv_checker = checks,
      sv_maxConcurrentRates = (if cfg_MaxConcurrentRates cfg \<le> 0 then cfg_MaxConcurrentProviders cfg else cfg_MaxConcurrentRates cfg),
      sv_agentID = cfg_AgentID cfg, sv_location = cfg_Location cfg\<rparr>"

text \<open>\<^verbatim>\<open>grpcserver.New\<close>: \<open>credsErr\<close> is the error of loading the certificate, \<open>keyErr\<close> that of \<^verbatim>\<open>checker.New\<close>'s key.\<close>

definition agent_New ::
  "go_error option \<Rightarrow> go_error option \<Rightarrow> gateway_lib \<Rightarrow> (gateway \<Rightarrow> go_error option) \<Rightarrow> agent_config \<Rightarrow>
     (go_error + service) \<times> provider_transport" where
  "agent_New credsErr keyErr lib closeErr cfg =
     (case credsErr of
        Some err \<Rightarrow> (Inl (ErrWrap ''create TLS credentials'' err), NewProviderTransport)
      | None \<Rightarrow>
         (case checker_New keyErr (checker_options cfg) of
            Inl err \<Rightarrow> (Inl (ErrWrap ''initialize checker'' err), NewProviderTransport)
          | Inr checks \<Rightarrow>
             (case transport_Start lib NewProviderTransport of
                (Some err, p) \<Rightarrow> (Inl (ErrWrap ''start ton transport'' err), snd (transport_Close closeErr p))
              | (None, p) \<Rightarrow> (Inr (agent_service checks cfg), p))))"

text \<open>The service is healthy until the cleanup that \<^verbatim>\<open>New\<close> returns has run, whatever closing the transport answers.\<close>

datatype serving_status = SERVING | NOT_SERVING

definition agent_cleanup :: "(gateway \<Rightarrow> go_error option) \<Rightarrow> provider_transport \<Rightarrow> serving_status \<times> provider_transport" where
  "agent_cleanup closeErr p = (NOT_SERVING, snd (transport_Close closeErr p))"

datatype agent_event = MetricsServing | GrpcServing | MetricsShutdown | GracefulStop | ForcedStop | CleanedUp

datatype agent_end = Signalled bool | ServeReturned "go_error option"

text \<open>
  \<^verbatim>\<open>main\<close>: the errors of its steps, how serving ended (a signal, and whether the graceful stop was done in time, or the return of
  \<^verbatim>\<open>Serve\<close>); the events in their order and the exit code.  \<^verbatim>\<open>os.Exit\<close> runs no deferred call.
\<close>

definition shutdownMetrics :: "bool \<Rightarrow> agent_event list" where
  "shutdownMetrics srv = (if srv then [MetricsShutdown] else [])"

definition agent_main ::
  "go_error + agent_config \<Rightarrow> go_error option \<Rightarrow> go_error option \<Rightarrow> (agent_config \<Rightarrow> go_error option) \<Rightarrow> agent_end \<Rightarrow> agent_event list \<times> nat" where
  "agent_main load metricsListenErr listenErr newErr ending =
     (case load of
        Inl _ \<Rightarrow> ([], 1)
      | Inr cfg \<Rightarrow>
         (let srv = cfg_MetricsListenAddr cfg \<noteq> []
          in if srv \<and> metricsListenErr \<noteq> None then ([], 1)
             else
              (let ev = (if srv then [MetricsServing] else [])
               in if listenErr \<noteq> None \<or> newErr cfg \<noteq> None then (ev @ shutdownMetrics srv, 1)
                  else
                   (let ev = ev @ [GrpcServing]; deferred = shutdownMetrics srv @ [CleanedUp]
                    in case ending of
                         ServeReturned (Some _) \<Rightarrow> (ev @ shutdownMetrics srv, 1)
                       | ServeReturned None \<Rightarrow> (ev @ deferred, 0)
                       | Signalled graceful \<Rightarrow> (ev @ [GracefulStop] @ (if graceful then [] else [ForcedStop]) @ deferred, 0)))))"

text \<open>The metrics server never outlives the process, and the transport is closed exactly when serving ended without an error.\<close>

lemma agent_main_ends:
  assumes "agent_main load metricsListenErr listenErr newErr ending = (ev, code)"
  shows "(MetricsShutdown \<in> set ev \<longleftrightarrow> MetricsServing \<in> set ev) \<and> (CleanedUp \<in> set ev \<longleftrightarrow> code = 0) \<and> (code = 0 \<longrightarrow> GrpcServing \<in> set ev)"
  using assms by (auto simp: agent_main_def shutdownMetrics_def Let_def split: sum.splits if_splits agent_end.splits option.splits)

lemma agent_New_failed:
  assumes "agent_New credsErr keyErr lib closeErr cfg = (Inl err, p)"
  shows "pt_open p = {}"
proof -
  obtain e q where q: "transport_Start lib NewProviderTransport = (e, q)" by fastforce
  have once: "\<not> pt_closeOnce q"
    using q by (auto simp: transport_Start_def startLocked_def NewProviderTransport_def Let_def split: option.split_asm)
  have "transport_step\<^sup>*\<^sup>* NewProviderTransport q" using q by (intro r_into_rtranclp transport_step.start)
  then have "pt_open (snd (transport_Close closeErr q)) = {}" using transport_lifecycle once by blast
  then show ?thesis using assms q by (auto simp: agent_New_def NewProviderTransport_def split: option.splits sum.splits)
qed

lemma agent_cleaned_up:
  assumes "agent_New credsErr keyErr lib closeErr cfg = (Inr srv, p)"
  shows "pt_open p = {DhtGateway, ProviderGateway}" "pt_open (snd (agent_cleanup closeErr' p)) = {}"
proof -
  have start: "transport_Start lib NewProviderTransport = (None, p)"
    using assms by (auto simp: agent_New_def split: option.splits sum.splits prod.splits)
  then have run: "transport_step\<^sup>*\<^sup>* NewProviderTransport p" by (intro r_into_rtranclp transport_step.start)
  have "pt_client p \<and> \<not> pt_closeOnce p"
    using start by (auto simp: transport_Start_def startLocked_def NewProviderTransport_def Let_def split: option.split_asm)
  then show "pt_open p = {DhtGateway, ProviderGateway}" "pt_open (snd (agent_cleanup closeErr' p)) = {}"
    using transport_lifecycle [OF run] by (simp_all add: agent_cleanup_def)
qed

section \<open>The dump tool\<close>

record dump_flags =
  df_out :: string
  df_storage :: string
  df_alsoDumpStorageRates :: bool
  df_storageRatesOut :: string
  df_ratesJobID :: string
  df_ratesQueryTimeoutMS :: "64 word"
  df_ratesTotalMS :: "64 word"
  df_ratesQuerySize :: "64 word"

definition dump_flag_defaults :: dump_flags where
  "dump_flag_defaults =
     \<lparr>df_out = [], df_storage = ''memory'', df_alsoDumpStorageRates = False, df_storageRatesOut = [], df_ratesJobID = [],
      df_ratesQueryTimeoutMS = 14000, df_ratesTotalMS = 120000, df_ratesQuerySize = 1\<rparr>"

definition rates_settings :: "dump_flags \<Rightarrow> rates_dump_config option" where
  "rates_settings fl =
     (if df_alsoDumpStorageRates fl
      then Some \<lparr>rdc_ExplicitOutPath = TrimSpace (df_storageRatesOut fl), rdc_JobIDOverride = TrimSpace (df_ratesJobID fl),
                 rdc_QueryTimeoutMs = ucast (df_ratesQueryTimeoutMS fl), rdc_TotalMs = ucast (df_ratesTotalMS fl),
                 rdc_QuerySize = df_ratesQuerySize fl\<rparr>
      else None)"

text \<open>
  \<^verbatim>\<open>run\<close>: the outer \<open>Inl\<close> is the end of the process in \<^verbatim>\<open>loadConfig\<close>.  \<open>memory\<close> and \<open>pgDump\<close> are the two ways of dumping, on the loaded
  configuration and the settings of the rates file (\<open>dump_memory\<close> and \<open>writeRunChecksDump\<close> of \<open>Dump\<close>).
\<close>

definition dump_run ::
  "env_lib \<Rightarrow> bytes \<Rightarrow> (string \<Rightarrow> go_error option) \<Rightarrow> go_error option \<Rightarrow> gateway_lib \<Rightarrow> ('c, 'p) pool_lib \<Rightarrow>
     (dump_cfg \<Rightarrow> rates_dump_config option \<Rightarrow> dump_error option \<times> dump_writes) \<Rightarrow>
     ('p \<Rightarrow> dump_cfg \<Rightarrow> rates_dump_config option \<Rightarrow> dump_error option \<times> dump_writes) \<Rightarrow> dump_flags \<Rightarrow>
     string + dump_error option \<times> dump_writes" where
  "dump_run ev key parseAddr tonErr lib pool memory pgDump fl =
     (let failed = (\<lambda>err. Inr (Some (DumpError err), []));
          storage = ToLower (TrimSpace (df_storage fl))
      in if storage \<noteq> ''memory'' \<and> storage \<noteq> ''postgres''
         then failed (ErrText (''--storage must be \"memory\" or \"postgres\", got '' @ quote_text storage))
         else if df_alsoDumpStorageRates fl \<and> TrimSpace (df_out fl) = []
         then failed (ErrText ''--also-dump-storage-rates requires a non-empty --out path (cannot derive sibling next to stdout)'')
         else
          (case dump_loadConfig ev key (storage = ''postgres'') of
             Inl m \<Rightarrow> Inl m
           | Inr cfg \<Rightarrow>
              (let ma = TrimSpace (tc_MasterAddress (du_TON cfg))
               in if storage = ''memory'' \<and> ma = []
                  then failed (ErrText ''MASTER_ADDRESS is required for --storage=memory (coordinator master wallet, user-friendly format)'')
                  else
                   (case (if storage = ''memory'' then parseAddr ma else None) of
                      Some err \<Rightarrow> failed (ErrWrap (''invalid MASTER_ADDRESS '' @ quote_text ma) err)
                    | None \<Rightarrow>
                       (case tonErr of
                          Some err \<Rightarrow> failed (ErrWrap ''create TON client'' err)
                        | None \<Rightarrow>
                           (case fst (dump_newProviderClient lib) of
                              Inl err \<Rightarrow> failed (ErrWrap ''create provider client'' err)
                            | Inr _ \<Rightarrow>
                               if storage = ''memory'' then Inr (memory cfg (rates_settings fl))
                               else (case dump_connectPostgres pool (du_DB cfg) of
                                       Inl err \<Rightarrow> failed (ErrWrap ''connect Postgres'' err)
                                     | Inr conn \<Rightarrow> Inr (pgDump conn cfg (rates_settings fl)))))))))"

text \<open>The tool writes nothing unless the master address, for the memory mode, and the settings of the database, for the other, are usable.\<close>

lemma dump_run_writes:
  assumes "dump_run ev key parseAddr tonErr lib pool memory pgDump fl = Inr (err, w)" "w \<noteq> []"
  shows "\<exists>cfg. if ToLower (TrimSpace (df_storage fl)) = ''memory''
    then dump_loadConfig ev key False = Inr cfg \<and> parseAddr (TrimSpace (tc_MasterAddress (du_TON cfg))) = None \<and> (err, w) = memory cfg (rates_settings fl)
    else dump_loadConfig ev key True = Inr cfg \<and> validateDBConfig (du_DB cfg) = None \<and>
      (\<exists>conn. dump_connectPostgres pool (du_DB cfg) = Inr conn \<and> (err, w) = pgDump conn cfg (rates_settings fl))"
proof (cases "ToLower (TrimSpace (df_storage fl)) = ''memory''")
  case True
  then show ?thesis using assms by (auto simp: dump_run_def Let_def split: if_splits sum.splits option.splits)
next
  case False
  then obtain cfg where cfg: "dump_loadConfig ev key True = Inr cfg"
      "\<exists>conn. dump_connectPostgres pool (du_DB cfg) = Inr conn \<and> (err, w) = pgDump conn cfg (rates_settings fl)"
    using assms by (auto simp: dump_run_def Let_def split: if_splits sum.splits option.splits)
  have "validateDBConfig (du_DB cfg) = None" using cfg(1) by (auto simp: dump_loadConfig_def split: sum.splits option.splits)
  then show ?thesis using False cfg by auto
qed

section \<open>Small clients\<close>

text \<open>
  \<^verbatim>\<open>ifconfig\<close>: \<open>send\<close> answers status code, status text and body, \<open>decode\<close> reads the body.
\<close>

definition GetIPInfo ::
  "(string \<Rightarrow> go_error option) \<Rightarrow> (string \<Rightarrow> go_error + int \<times> string \<times> string) \<Rightarrow> (string \<Rightarrow> go_error + 'i) \<Rightarrow> string \<Rightarrow> go_error + 'i" where
  "GetIPInfo newRequest send decode ip =
     (let url = ''https://ifconfig.co/json?ip='' @ ip
      in case newRequest url of
           Some err \<Rightarrow> Inl err
         | None \<Rightarrow>
            (case send url of
               Inl err \<Rightarrow> Inl err
             | Inr (code, status, body) \<Rightarrow>
                if code \<noteq> 200 then Inl (ErrText (''failed to get IP config: '' @ status)) else decode body))"

section \<open>Metrics of the HTTP server\<close>

record http_metrics =
  hm_totalRequests :: "((string \<times> string \<times> string) \<times> int) list"
  hm_durationSec :: "((string \<times> string \<times> string) \<times> duration) list"
  hm_inflightRequests :: int

definition newHttpMetrics :: http_metrics where
  "newHttpMetrics = \<lparr>hm_totalRequests = [], hm_durationSec = [], hm_inflightRequests = 0\<rparr>"

text \<open>\<open>handle\<close> is the rest of the chain with the metrics it sees; it answers the path of the matched route, the status code and the error.\<close>

definition http_metricsMiddleware ::
  "duration \<Rightarrow> string \<Rightarrow> (http_metrics \<Rightarrow> (string option \<times> int \<times> go_error option) \<times> http_metrics) \<Rightarrow> http_metrics \<Rightarrow> go_error option \<times> http_metrics" where
  "http_metricsMiddleware d httpMethod handle m =
     (case handle (m\<lparr>hm_inflightRequests := hm_inflightRequests m + 1\<rparr>) of ((route, code, err), m) \<Rightarrow>
        (let routeLabel = (case route of None \<Rightarrow> ''<unmatched>'' | Some path \<Rightarrow> if path = [] then ''<unmatched>'' else path);
             labels = (routeLabel, httpMethod, Itoa code)
         in (err, m\<lparr>hm_totalRequests := map_inc labels (hm_totalRequests m), hm_durationSec := hm_durationSec m @ [(labels, d)],
                    hm_inflightRequests := hm_inflightRequests m - 1\<rparr>)))"

lemma http_metrics_balanced:
  assumes "\<And>m. hm_inflightRequests (snd (handle m)) = hm_inflightRequests m"
  shows "hm_inflightRequests (snd (http_metricsMiddleware d httpMethod handle m)) = hm_inflightRequests m"
  using assms [of "m\<lparr>hm_inflightRequests := hm_inflightRequests m + 1\<rparr>"]
  by (auto simp: http_metricsMiddleware_def Let_def split: prod.splits)

section \<open>Defaults\<close>

text \<open>An environment in which the intervals are not set: the library then reads the defaults of the tags.\<close>

definition intervals_unset :: "env_lib \<Rightarrow> bool" where
  "intervals_unset ev \<longleftrightarrow>
     ev_int ev ''COORDINATOR_ENDPOINT_STALE_TTL_MINUTES'' (Some ''720'') = Inr 720 \<and>
     ev_int ev ''COORDINATOR_ENDPOINT_FULL_REFRESH_INTERVAL_MINUTES'' (Some ''360'') = Inr 360 \<and>
     ev_int ev ''COORDINATOR_ENDPOINT_REFRESH_FAILURE_INTERVAL_SECONDS'' (Some ''30'') = Inr 30 \<and>
     ev_int ev ''COORDINATOR_STOREPROOF_INTERVAL_MINUTES'' (Some ''60'') = Inr 60"

lemma loaded_intervals:
  assumes "loadConfig ev key = Inr cfg" "intervals_unset ev"
  shows "sc_EndpointStaleTTLMinutes (cc_System cfg) = 720" "sc_EndpointFullRefreshIntervalMinutes (cc_System cfg) = 360"
    "sc_EndpointRefreshFailureSeconds (cc_System cfg) = 30" "sc_StoreProofIntervalMinutes (cc_System cfg) = 60"
  using assms by (auto simp: loadConfig_def fatal_def parse_System_def bind_err_def intervals_unset_def split: sum.splits)

text \<open>The defaults of the configuration are those the master worker has for settings that are not positive.\<close>

lemma defaults_agree:
  assumes "loadConfig ev key = Inr cfg" "intervals_unset ev"
  shows "NewWorker keygen (endpoint_settings cfg) (proof_settings cfg) =
    NewWorker keygen \<lparr>ecf_StaleTTL = 0, ecf_FullRefreshInterval = 0, ecf_FailInterval = 0\<rparr>
      \<lparr>spc_Interval = 0, spc_RetryDelay = spc_RetryDelay (proof_settings cfg)\<rparr>"
proof -
  have "duration_of 720 (minutes 1) = defaultEndpointStaleTTL" "duration_of 360 (minutes 1) = defaultEndpointFullRefreshInterval"
      "duration_of 30 (seconds 1) = defaultEndpointFullRefreshFailInterval" "duration_of 60 (minutes 1) = defaultStoreProofInterval"
    by (simp_all add: duration_of_def minutes_def seconds_def defaultEndpointStaleTTL_def defaultEndpointFullRefreshInterval_def
        defaultEndpointFullRefreshFailInterval_def defaultStoreProofInterval_def)
  then show ?thesis
    using loaded_intervals [OF assms]
    by (cases keygen) (simp_all add: NewWorker_def endpoint_settings_def proof_settings_def or_default_def defaultEndpointStaleTTL_def
        defaultEndpointFullRefreshInterval_def defaultEndpointFullRefreshFailInterval_def defaultStoreProofInterval_def)
qed

text \<open>A setting is exact up to 153 million minutes; beyond, the product wraps and a negative duration falls back to the default.\<close>

lemma duration_exact:
  assumes "0 \<le> sint n" "sint n * k < 2 ^ 63" "0 < k"
  shows "duration_of n k = sint n * k"
proof -
  have e: "n * word_of_int k = word_of_int (sint n * k)" by simp
  have exact: "sint (word_of_int x :: 64 word) = x" if "0 \<le> x" "x < 2 ^ 63" for x
    using that by (simp add: sint_sbintrunc' signed_take_bit_int_eq_self)
  have "0 \<le> sint n * k" using assms by simp
  then have "sint (word_of_int (sint n * k) :: 64 word) = sint n * k" using assms(2) by (rule exact)
  then show ?thesis unfolding duration_of_def e .
qed

text \<open>Every loop runs, through the metrics, the method of its name, and no two loops have one name.\<close>

lemma loops_observed:
  "list_all2 (\<lambda>(name, f) (name', g). name' = name \<and> counts_calls name step_err f g) (Start tel master cleanup)
     (Start (NewTelemetryMetrics elapsed tel) (NewMasterMetrics elapsed master) (NewCleanerMetrics elapsed cleanup)) \<and>
   distinct (map fst (Start tel master cleanup))"
  by (simp add: Start_def NewTelemetryMetrics_def NewMasterMetrics_def NewCleanerMetrics_def observed_counts)

text \<open>Without usable agents the coordinator starts all the same.\<close>

lemma starts_without_agents:
  assumes "agentrpc_New tlsErr dial (agent_settings cfg) = Inl err"
  shows "run_startup None None tlsErr dial None cfg = Inr None \<and> AgentCount None = 0"
  using assms by (simp add: run_startup_def AgentCount_def nil_or_def)

lemma provider_clients_agree:
  "dump_newProviderClient lib =
     (case newProviderClient lib of ((dc, tc, None), gws) \<Rightarrow> (Inr (), gws) | ((dc, tc, Some err), gws) \<Rightarrow> (Inl err, gws))"
  by (simp add: newProviderClient_def dump_newProviderClient_def split: option.split)

end
