(* ===== verification/LegacyChecks.thy ===== *)
theory LegacyChecks
  imports Checker DbTypes
begin

text \<open>
  The checks the coordinator did itself before there were agents: \<^verbatim>\<open>checkProviderFiles\<close> and \<^verbatim>\<open>checkPiece\<close> of
  \<^verbatim>\<open>coordinator/internal/workers/providersMaster/worker.go\<close> with \<^verbatim>\<open>fillStatuses\<close> and \<^verbatim>\<open>getKey\<close> of \<^verbatim>\<open>helpers.go\<close>.  Nothing calls them any
  more; they are here to compare what the agent's check changed.  The answers of the network are fields of \<open>legacy_env\<close>, the cell
  functions those of \<open>PieceCheck\<close>; the threshold is that of \<open>Checker\<close>.  \<open>None\<close> is a panic.
\<close>

section \<open>One bag\<close>

record legacy_env =
  le_peerCast :: bool
  le_Ping :: "go_error option"
  le_slowBeforeInfo :: bool
  le_getTorrentInfo :: "bytes \<Rightarrow> go_error + bytes"
  le_Int31n :: "32 word \<Rightarrow> 32 word"
  le_slowBeforePiece :: bool
  le_getPiece :: "bytes \<Rightarrow> 32 word \<Rightarrow> go_error + bytes"

text \<open>The piece to ask for; \<^verbatim>\<open>rand.Int31n\<close> panics on a number that is not positive.\<close>

definition legacy_pieceID :: "(32 word \<Rightarrow> 32 word) \<Rightarrow> torrent_info \<Rightarrow> 32 word option" where
  "legacy_pieceID int31n info =
     (let p = (if ti_PieceSize info \<noteq> 0 then ucast (ti_FileSize info div ucast (ti_PieceSize info)) else 0 :: 32 word)
      in if p \<noteq> 0 then (if sint p \<le> 0 then None else Some (int31n p)) else Some 1)"

text \<open>The reason, and how often the peer was re-initialised.\<close>

definition legacy_checkPiece :: "'cell cell_lib \<Rightarrow> legacy_env \<Rightarrow> string \<Rightarrow> (reason_code \<times> nat) option" where
  "legacy_checkPiece lib env bagID =
     (if \<not> le_peerCast env then Some (UnknownPeer, 0)
      else if le_Ping env \<noteq> None then Some (PingFailed, 1)
      else
       (case hex_DecodeString bagID of
          Inl _ \<Rightarrow> Some (InvalidBagID, 1)
        | Inr bag \<Rightarrow>
           (case cl_tlHash lib bag of
              Inl _ \<Rightarrow> Some (InvalidBagID, 1)
            | Inr over \<Rightarrow>
               (let n = (if le_slowBeforeInfo env then 2 else 1)
                in case le_getTorrentInfo env over of
                     Inl _ \<Rightarrow> Some (GetInfoFailed, n)
                   | Inr data \<Rightarrow>
                      (case cl_FromBOC lib data of
                         Inl _ \<Rightarrow> Some (InvalidHeader, n)
                       | Inr c \<Rightarrow>
                          if cl_Hash lib c \<noteq> bag then Some (InvalidHeader, n)
                          else
                           (case cl_ParseInfo lib c of
                              Inl _ \<Rightarrow> Some (InvalidHeader, n)
                            | Inr info \<Rightarrow>
                               (case legacy_pieceID (le_Int31n env) info of
                                  None \<Rightarrow> None
                                | Some pieceID \<Rightarrow>
                                   (let n = (if le_slowBeforePiece env then n + 1 else n)
                                    in case le_getPiece env over pieceID of
                                         Inl _ \<Rightarrow> Some (CantGetPiece, n)
                                       | Inr piece \<Rightarrow>
                                          (case cl_FromBOC lib piece of
                                             Inl _ \<Rightarrow> Some (CantParseBoC, n)
                                           | Inr prf \<Rightarrow>
                                              (case cl_CheckProof lib prf (ti_RootHash info) of
                                                 Some _ \<Rightarrow> Some (ProofCheckFailed, n)
                                               | None \<Rightarrow> Some (ValidStorageProof, n)))))))))))"

section \<open>One provider\<close>

definition legacy_status :: "contract_relation \<Rightarrow> reason_code \<Rightarrow> contract_proofs_check" where
  "legacy_status sc reason =
     \<lparr>cpc_ContractAddress = rel_Address sc, cpc_ProviderAddress = rel_ProviderAddress sc, cpc_Reason = reason\<rparr>"

definition fillStatuses :: "contract_relation list \<Rightarrow> reason_code \<Rightarrow> contract_proofs_check go_map \<Rightarrow> contract_proofs_check go_map" where
  "fillStatuses contracts reason m =
     fold (\<lambda>sc. AList.update (rel_ProviderAddress sc @ rel_BagID sc) (legacy_status sc reason)) contracts m"

definition getKey :: "string \<Rightarrow> string \<Rightarrow> int \<Rightarrow> string" where
  "getKey bagID ip port = ip @ '':'' @ Itoa port @ ''/'' @ bagID"

text \<open>The loop over the contracts; \<open>envs\<close> answers for one contract each.\<close>

fun legacy_loop ::
  "'cell cell_lib \<Rightarrow> ip_info \<Rightarrow> nat \<Rightarrow> (contract_relation \<times> legacy_env) list \<Rightarrow> nat \<Rightarrow> contract_proofs_check go_map \<Rightarrow>
     contract_proofs_check go_map option" where
  "legacy_loop lib storage threshold [] failsInARow m = Some m"
| "legacy_loop lib storage threshold ((sc, env) # rest) failsInARow m =
     (let k = getKey (rel_BagID sc) (ip_IP storage) (ip_Port storage)
      in if failsInARow > threshold
         then legacy_loop lib storage threshold rest failsInARow (AList.update k (legacy_status sc UnavailableProvider) m)
         else
          (case legacy_checkPiece lib env (rel_BagID sc) of
             None \<Rightarrow> None
           | Some (reason, _) \<Rightarrow>
              legacy_loop lib storage threshold rest (if reason = ValidStorageProof then 0 else failsInARow + 1)
                (AList.update k (legacy_status sc reason) m)))"

definition legacy_checkProviderFiles ::
  "'cell cell_lib \<Rightarrow> go_error option \<Rightarrow> go_error option \<Rightarrow> provider_ip \<Rightarrow> (contract_relation \<times> legacy_env) list \<Rightarrow>
     contract_proofs_check go_map \<Rightarrow> contract_proofs_check go_map option" where
  "legacy_checkProviderFiles lib registerErr pingErr ip contracts m =
     (if registerErr \<noteq> None then Some (fillStatuses (map fst contracts) CantCreatePeer m)
      else if pingErr \<noteq> None then Some (fillStatuses (map fst contracts) FailedInitialPing m)
      else legacy_loop lib (pip_Storage ip) (length contracts div 5) contracts 0 m)"

section \<open>Which pieces are asked for\<close>

text \<open>
  The old check asks for a piece below the rounded-down quotient, so never for a last piece that is not full, and for a bag smaller than
  a piece it asks for piece 1, which such a bag does not have: its only piece is piece 0.  The agent draws below the rounded-up
  quotient (\<open>piecesCount\<close>).
\<close>

lemma legacy_small_bag:
  assumes "ti_PieceSize info \<noteq> 0" "ti_FileSize info < ucast (ti_PieceSize info)" "ti_FileSize info \<noteq> 0"
  shows "legacy_pieceID f info = Some 1 \<and> piecesCount info = Inr 1"
proof -
  have "ti_FileSize info div ucast (ti_PieceSize info) = 0" "ti_FileSize info mod ucast (ti_PieceSize info) = ti_FileSize info"
    using assms(2) by (simp_all add: word_less_def word_div_def word_mod_def)
  then show ?thesis using assms by (simp add: legacy_pieceID_def piecesCount_def Let_def)
qed

text \<open>Two contracts of one bag at one endpoint share a key, so the later result replaces the earlier one.\<close>

lemma legacy_same_bag:
  assumes "legacy_checkProviderFiles lib None None ip [(sc1, e1), (sc2, e2)] [] = Some m" "rel_BagID sc1 = rel_BagID sc2"
  shows "length m = 1"
  using assms by (auto simp: legacy_checkProviderFiles_def Let_def split: option.splits if_splits)

end
