(* ===== verification/MemoryCycle.thy ===== *)
theory MemoryCycle
  imports StoreProof Memory
begin

text \<open>
  \<^verbatim>\<open>coordinator/internal/repositories/providers/inmemory\<close> behind the storage-proof cycle: the operations that keep nothing, and with them
  the in-memory repository as another store of \<open>proof_store\<close>.  A cycle on it can only remove contracts that the chain no longer confirms.
\<close>

section \<open>Operations that keep nothing\<close>

definition mem_UpdateProvidersIPs :: "provider_ip list \<Rightarrow> mem_repo \<Rightarrow> go_error option \<times> mem_repo" where
  "mem_UpdateProvidersIPs ips r = (None, r)"

definition mem_UpdateProviders :: "provider_update list \<Rightarrow> mem_repo \<Rightarrow> go_error option \<times> mem_repo" where
  "mem_UpdateProviders us r = (None, r)"

definition mem_AddStatuses :: "provider_status_update list \<Rightarrow> mem_repo \<Rightarrow> go_error option \<times> mem_repo" where
  "mem_AddStatuses us r = (None, r)"

definition mem_UpdateContractProofsChecks :: "contract_proofs_check list \<Rightarrow> mem_repo \<Rightarrow> go_error option \<times> mem_repo" where
  "mem_UpdateContractProofsChecks rows r = (None, r)"

definition mem_UpdateStatuses :: "mem_repo \<Rightarrow> go_error option \<times> mem_repo" where
  "mem_UpdateStatuses r = (None, r)"

definition mem_UpdateUptime :: "mem_repo \<Rightarrow> go_error option \<times> mem_repo" where
  "mem_UpdateUptime r = (None, r)"

definition mem_UpdateRating :: "mem_repo \<Rightarrow> go_error option \<times> mem_repo" where
  "mem_UpdateRating r = (None, r)"

definition mem_GetProvidersIPs :: "mem_repo \<Rightarrow> go_error + provider_ip list" where
  "mem_GetProvidersIPs r = Inr []"

definition mem_GetProviderIP :: "string \<Rightarrow> mem_repo \<Rightarrow> go_error + string" where
  "mem_GetProviderIP pubkey r = Inr []"

definition mem_GetProvidersEndpointState :: "string list \<Rightarrow> mem_repo \<Rightarrow> go_error + provider_endpoint_state list" where
  "mem_GetProvidersEndpointState pubkeys r = Inr []"

definition mem_UpdateProvidersIPInfo :: "provider_ip_info list \<Rightarrow> mem_repo \<Rightarrow> go_error option \<times> mem_repo" where
  "mem_UpdateProvidersIPInfo infos r = (None, r)"

definition mem_CleanOldProviderPipelineEvents :: "int \<Rightarrow> mem_repo \<Rightarrow> (int \<times> go_error option) \<times> mem_repo" where
  "mem_CleanOldProviderPipelineEvents days r = ((0, None), r)"

definition mem_CleanOldBagPipelineEvents :: "int \<Rightarrow> mem_repo \<Rightarrow> (int \<times> go_error option) \<times> mem_repo" where
  "mem_CleanOldBagPipelineEvents days r = ((0, None), r)"

definition mem_InsertProviderPipelineEvents :: "provider_pipeline_event list \<Rightarrow> mem_repo \<Rightarrow> go_error option \<times> mem_repo" where
  "mem_InsertProviderPipelineEvents es r = (None, r)"

definition mem_InsertBagPipelineEvents :: "bag_pipeline_event list \<Rightarrow> mem_repo \<Rightarrow> go_error option \<times> mem_repo" where
  "mem_InsertBagPipelineEvents es r = (None, r)"

definition mem_GetLastProviderPipelineEventStatus :: "string list \<Rightarrow> mem_repo \<Rightarrow> go_error + pipeline_status go_map" where
  "mem_GetLastProviderPipelineEventStatus pubkeys r = Inr []"

lemmas mem_keeps = mem_UpdateProvidersIPs_def mem_UpdateContractProofsChecks_def mem_UpdateStatuses_def mem_InsertProviderPipelineEvents_def
  mem_InsertBagPipelineEvents_def

section \<open>A cycle on the in-memory repository\<close>

definition mem_refresh_env :: "('addr, mem_repo) refresh_env \<Rightarrow> ('addr, mem_repo) refresh_env" where
  "mem_refresh_env renv =
     renv\<lparr>re_getState := mem_GetProvidersEndpointState, re_getLast := mem_GetLastProviderPipelineEventStatus, re_updateIPs := mem_UpdateProvidersIPs\<rparr>"

definition mem_cycle_env :: "order \<Rightarrow> (storage_key list \<Rightarrow> storage_key list) \<Rightarrow> ('addr, mem_repo) sp_env \<Rightarrow> ('addr, mem_repo) sp_env" where
  "mem_cycle_env ord sord env =
     env\<lparr>sp_stale := mem_refresh_env (sp_stale env), sp_full := mem_refresh_env (sp_full env), sp_forced := mem_refresh_env (sp_forced env),
         sp_GetStorageContracts := \<lambda>r. Inr (mem_GetStorageContracts ord sord r),
         sp_UpdateRejected := \<lambda>rels r. (None, mem_UpdateRejectedStorageContracts rels r),
         sp_UpdateContractProofsChecks := mem_UpdateContractProofsChecks, sp_UpdateStatuses := mem_UpdateStatuses,
         sp_InsertProviderEvents := mem_InsertProviderPipelineEvents, sp_InsertBagEvents := mem_InsertBagPipelineEvents\<rparr>"

text \<open>What is left of the repository \<open>start\<close>: its providers, and some of its contracts as they were.\<close>

definition mem_left :: "mem_repo \<Rightarrow> mem_repo \<Rightarrow> bool" where
  "mem_left start r \<longleftrightarrow>
     mem_ok r \<and> mr_providers r = mr_providers start \<and>
     (\<forall>k row. map_of (mr_storage r) k = Some row \<longrightarrow> map_of (mr_storage start) k = Some row)"

lemma deleted_rows: "map_of (fold (\<lambda>x. AList.delete (f x)) xs m) k = (if k \<in> f ` set xs then None else map_of m k)"
  by (induction xs arbitrary: m) (auto simp: delete_conv')

lemma rejected_left: "mem_left start r \<Longrightarrow> mem_left start (mem_UpdateRejectedStorageContracts rels r)"
  using mem_step_ok [OF step_UpdateRejected, of r rels]
  by (simp add: mem_left_def) (simp add: mem_UpdateRejectedStorageContracts_def deleted_rows)

interpretation mem_store: proof_store "mem_cycle_env ord sord env" "mem_left start" "mr_providers" "\<lambda>rows v. v"
  by unfold_locales (auto simp: mem_cycle_env_def mem_refresh_env_def mem_keeps rejected_left)

text \<open>
  Whatever agents, endpoints and the chain answer, a cycle on a consistent in-memory repository keeps it consistent, keeps all
  providers, and changes no contract it does not remove; the results of the checks go nowhere.
\<close>

lemma memory_cycle:
  assumes "mem_ok r" "StoreProof (mem_cycle_env ord sord env) ms r = (result, ms', r')"
  shows "mem_ok r' \<and> mr_providers r' = mr_providers r \<and>
    (\<forall>k row. map_of (mr_storage r') k = Some row \<longrightarrow> map_of (mr_storage r) k = Some row)"
  using mem_store.cycle_inv [of r r ord sord env ms] assms by (simp add: mem_left_def)

end
