(* ===== verification/Server.thy ===== *)
theory Server
  imports Startup Http
begin

text \<open>
  The coordinator as a process: the chain of middlewares in front of the routes (\<^verbatim>\<open>httpServer/router.go\<close>, \<^verbatim>\<open>router_debug.go\<close>), the metrics
  it registers, the end of the agents' connections, and \<^verbatim>\<open>run\<close> of \<^verbatim>\<open>cmd/main.go\<close> from the configuration to the shutdown.  The framework's CORS
  and limiter and the Prometheus registry are parameters.
\<close>

section \<open>Middlewares\<close>

record cors_config =
  cors_AllowOrigins :: string
  cors_AllowMethods :: string
  cors_AllowHeaders :: string

definition corsMiddleware :: "string list \<Rightarrow> cors_config" where
  "corsMiddleware origins =
     \<lparr>cors_AllowOrigins = str_Join origins '','', cors_AllowMethods = ''GET,POST,PUT,DELETE,OPTIONS'', cors_AllowHeaders = ''*''\<rparr>"

text \<open>What \<^verbatim>\<open>loggerMiddleware\<close> writes to the log of the headers; it then calls the next handler.\<close>

definition logged_headers :: "(string \<times> string list) list \<Rightarrow> (string \<times> string list) list" where
  "logged_headers headers =
     (if map_of headers ''Authorization'' \<noteq> None then AList.update ''Authorization'' [''REDACTED''] headers else headers)"

text \<open>\<^verbatim>\<open>limitReached\<close> returns an error that the framework writes after the chain; it logs the headers as they are.\<close>

definition limitReached :: http_error where
  "limitReached = FiberError 429 ''too many requests, please try again later''"

text \<open>
  What is sent: an answer of a handler, the text of an error a handler returned, or a status alone.  The framework's default handler
  gives an error of its own type its code, any other 500.
\<close>

datatype ('f, 'g, 'j) http_reply = Handled "('f, 'g, 'j) http_response" | ErrorText int string | StatusOnly int

definition framework_error :: "http_error \<Rightarrow> ('f, 'g, 'j) http_reply" where
  "framework_error err =
     (case err of
        FiberError code message \<Rightarrow> ErrorText code message
      | HttpAppError appErr \<Rightarrow> ErrorText 500 (ae_Message appErr)
      | OtherError e \<Rightarrow> ErrorText 500 (err_Error e))"

fun reply_status :: "('f, 'g, 'j) http_reply \<Rightarrow> int" where
  "reply_status (Handled resp) = hr_Status resp"
| "reply_status (ErrorText code _) = code"
| "reply_status (StatusOnly code) = code"

text \<open>
  The framework: \<open>sl_cors\<close> answers a preflight request, \<open>sl_limited\<close> says that a request is over the limit of a window, \<open>sl_routeOf\<close> is the
  path of the handler reached last, \<open>sl_elapsed\<close> the time a request took, \<open>sl_receive\<close> reads a request into the buffers.  A response that nothing has written to has status 200.
\<close>

record ('f, 'g, 'j) server_lib =
  sl_cors :: "cors_config \<Rightarrow> http_request \<Rightarrow> ('f, 'g, 'j) http_reply option"
  sl_limited :: "int \<Rightarrow> duration \<Rightarrow> http_request \<Rightarrow> bool"
  sl_routeOf :: "http_request \<Rightarrow> string option"
  sl_elapsed :: "http_request \<Rightarrow> duration"
  sl_receive :: "http_request \<Rightarrow> body_memory \<Rightarrow> body_memory"

definition MaxRequests :: int where "MaxRequests = 100"
definition RateLimitWindow :: duration where "RateLimitWindow = 60000000000"

text \<open>The caches of the service with the buffers of the framework they point into, and the metrics.\<close>

type_synonym ('f, 'g, 'j) server_state = "(('f, 'g, 'j) cache_middleware \<times> body_memory) \<times> http_metrics"

text \<open>
  The limiter and the routes: the reply, the status written so far and the error returned when control comes back to the middlewares
  outside, and the caches.
\<close>

definition limited_routes ::
  "('f, 'g, 'j) server_lib \<Rightarrow> ('f, 'g, 'j) http_env \<Rightarrow> body_memory \<Rightarrow> http_request \<Rightarrow> ('f, 'g, 'j) cache_middleware \<Rightarrow>
     (('f, 'g, 'j) http_reply \<times> int \<times> go_error option) \<times> ('f, 'g, 'j) cache_middleware" where
  "limited_routes lib env mem r c =
     (if sl_limited lib MaxRequests RateLimitWindow r
      then ((framework_error limitReached, 200, Some (ErrText ''too many requests, please try again later'')), c)
      else if map_of routes (hq_Method r, hq_Path r) = None
      then ((Handled (he_notFound env r), 200, Some (ErrText ''Cannot '')), c)
      else (case serve_request env mem r c of (resp, c) \<Rightarrow> ((Handled resp, hr_Status resp, None), c)))"

definition observed_routes ::
  "('f, 'g, 'j) server_lib \<Rightarrow> ('f, 'g, 'j) http_env \<Rightarrow> http_request \<Rightarrow> ('f, 'g, 'j) server_state \<Rightarrow> ('f, 'g, 'j) http_reply \<times> ('f, 'g, 'j) server_state" where
  "observed_routes lib env r s =
     (case s of ((c, mem), m) \<Rightarrow>
        (case limited_routes lib env mem r c of
           ((reply, code, err), c) \<Rightarrow>
             (reply, ((c, mem), snd (http_metricsMiddleware (sl_elapsed lib r) (hq_Method r) (\<lambda>m. ((sl_routeOf lib r, code, err), m)) m)))))"

text \<open>The framework has read a request into its buffers before the first middleware runs.\<close>

definition receive_request :: "('f, 'g, 'j) server_lib \<Rightarrow> http_request \<Rightarrow> ('f, 'g, 'j) server_state \<Rightarrow> ('f, 'g, 'j) server_state" where
  "receive_request lib r s = (case s of ((c, mem), m) \<Rightarrow> ((c, sl_receive lib r mem), m))"

definition RegisterRoutes ::
  "('f, 'g, 'j) server_lib \<Rightarrow> string list \<Rightarrow> ('f, 'g, 'j) http_env \<Rightarrow> http_request \<Rightarrow> ('f, 'g, 'j) server_state \<Rightarrow>
     ('f, 'g, 'j) http_reply \<times> ('f, 'g, 'j) server_state" where
  "RegisterRoutes lib origins env r s =
     (let s = receive_request lib r s
      in case (if origins \<noteq> [] then sl_cors lib (corsMiddleware origins) r else None) of
           Some reply \<Rightarrow> (reply, s)
         | None \<Rightarrow> observed_routes lib env r s)"

text \<open>The debug build sets the headers itself and answers every \<^verbatim>\<open>OPTIONS\<close> request.\<close>

definition debug_headers :: "(string \<times> string) list" where
  "debug_headers =
     [(''Access-Control-Allow-Origin'', ''*''), (''Access-Control-Allow-Methods'', ''GET,POST,PUT,DELETE,OPTIONS''),
      (''Access-Control-Allow-Headers'', ''*'')]"

definition debug_RegisterRoutes ::
  "('f, 'g, 'j) server_lib \<Rightarrow> ('f, 'g, 'j) http_env \<Rightarrow> http_request \<Rightarrow> ('f, 'g, 'j) server_state \<Rightarrow>
     ((string \<times> string) list \<times> ('f, 'g, 'j) http_reply) \<times> ('f, 'g, 'j) server_state" where
  "debug_RegisterRoutes lib env r s =
     (let s = receive_request lib r s
      in if hq_Method r = ''OPTIONS'' then ((debug_headers, StatusOnly 200), s)
         else (case observed_routes lib env r s of (reply, s) \<Rightarrow> ((debug_headers, reply), s)))"

lemma logged_headers_hide: "map_of (logged_headers headers) ''Authorization'' \<in> {None, Some [''REDACTED'']}"
  by (simp add: logged_headers_def update_conv')

lemma debug_routes_agree:
  "hq_Method r \<noteq> ''OPTIONS'' \<Longrightarrow>
   debug_RegisterRoutes lib env r s = (case RegisterRoutes lib [] env r s of (reply, s') \<Rightarrow> ((debug_headers, reply), s'))"
  by (simp add: debug_RegisterRoutes_def RegisterRoutes_def Let_def)

subsection \<open>What is counted\<close>

definition counted_requests :: "(string \<Rightarrow> bool) \<Rightarrow> http_metrics \<Rightarrow> int" where
  "counted_requests codes m = sum_list (map (\<lambda>((route, httpMethod, code), n). if codes code then n else 0) (hm_totalRequests m))"

lemma map_inc_sum:
  "sum_list (map (\<lambda>(k', n). if P k' then n else 0) (map_inc k m)) =
   sum_list (map (\<lambda>(k', n). if P k' then n else 0) m) + (if P k then 1 else 0)"
  by (induction m) (auto simp: map_inc_def split: option.splits if_splits)

lemma middleware_counts:
  "counted_requests codes (snd (http_metricsMiddleware d httpMethod (\<lambda>m. ((route, code, err), m)) m)) =
     counted_requests codes m + (if codes (Itoa code) then 1 else 0)"
  "hm_inflightRequests (snd (http_metricsMiddleware d httpMethod (\<lambda>m. ((route, code, err), m)) m)) = hm_inflightRequests m"
proof -
  have fn: "(\<lambda>((route, httpMethod, code), n). if codes code then n else 0) = (\<lambda>(k', n :: int). if codes (snd (snd k')) then n else 0)"
    by (auto simp: fun_eq_iff)
  show "counted_requests codes (snd (http_metricsMiddleware d httpMethod (\<lambda>m. ((route, code, err), m)) m)) =
      counted_requests codes m + (if codes (Itoa code) then 1 else 0)"
    by (simp add: counted_requests_def fn http_metricsMiddleware_def Let_def map_inc_sum [of "\<lambda>k. codes (snd (snd k))"])
qed (simp add: http_metricsMiddleware_def Let_def)

text \<open>What a request over the limit or without a route leaves: an error for the framework.\<close>

definition unhandled :: "('f, 'g, 'j) server_lib \<Rightarrow> http_request \<Rightarrow> bool" where
  "unhandled lib r \<longleftrightarrow> sl_limited lib MaxRequests RateLimitWindow r \<or> map_of routes (hq_Method r, hq_Path r) = None"

text \<open>
  C22.  Every request that CORS lets through is counted exactly once and leaves no request in flight.  A request that reaches a handler is
  answered and counted with the status the handler wrote.  One over the limit is answered with 429 and changes no cache, but it is counted
  under 200, as is one without a route: the status is read before the framework turns the error into an answer.  The caches point into the
  framework's buffers, which change with every request.
\<close>

theorem requests_counted:
  assumes "RegisterRoutes lib origins env r ((c, mem), m) = (reply, ((c', mem'), m'))" "origins \<noteq> [] \<longrightarrow> sl_cors lib (corsMiddleware origins) r = None"
  shows "hm_inflightRequests m' = hm_inflightRequests m \<and> mem' = sl_receive lib r mem \<and>
    (\<forall>codes. counted_requests codes m' =
       counted_requests codes m + (if codes (if unhandled lib r then ''200'' else Itoa (reply_status reply)) then 1 else 0)) \<and>
    (unhandled lib r \<longrightarrow> c' = c) \<and>
    (sl_limited lib MaxRequests RateLimitWindow r \<longrightarrow> reply_status reply = 429) \<and>
    (\<not> unhandled lib r \<longrightarrow> (\<exists>resp. reply = Handled resp \<and> serve_request env (sl_receive lib r mem) r c = (resp, c')))"
proof -
  have run: "observed_routes lib env r ((c, sl_receive lib r mem), m) = (reply, ((c', mem'), m'))"
    using assms by (auto simp: RegisterRoutes_def receive_request_def Let_def split: if_splits)
  obtain code err where inner: "limited_routes lib env (sl_receive lib r mem) r c = ((reply, code, err), c')"
    and m: "m' = snd (http_metricsMiddleware (sl_elapsed lib r) (hq_Method r) (\<lambda>m. ((sl_routeOf lib r, code, err), m)) m)" "mem' = sl_receive lib r mem"
    using run by (auto simp: observed_routes_def split: prod.splits)
  have digits: "Itoa 200 = ''200''" by code_simp
  have "Itoa code = (if unhandled lib r then ''200'' else Itoa (reply_status reply))"
    using inner by (auto simp: limited_routes_def unhandled_def digits split: if_splits prod.splits)
  then have "counted_requests codes m' =
      counted_requests codes m + (if codes (if unhandled lib r then ''200'' else Itoa (reply_status reply)) then 1 else 0)" for codes
    unfolding m middleware_counts(1) by simp
  moreover have "unhandled lib r \<longrightarrow> c' = c"
    using inner by (auto simp: limited_routes_def unhandled_def split: if_splits)
  moreover have "sl_limited lib MaxRequests RateLimitWindow r \<longrightarrow> reply_status reply = 429"
    using inner by (auto simp: limited_routes_def framework_error_def limitReached_def)
  moreover have "\<not> unhandled lib r \<longrightarrow> (\<exists>resp. reply = Handled resp \<and> serve_request env (sl_receive lib r mem) r c = (resp, c'))"
    using inner by (auto simp: limited_routes_def unhandled_def split: prod.splits)
  moreover have "hm_inflightRequests m' = hm_inflightRequests m" unfolding m by (rule middleware_counts(2))
  ultimately show ?thesis using m(2) by blast
qed

definition sample_http_server :: "bool \<Rightarrow> (nat, nat, nat) server_lib" where
  "sample_http_server over = \<lparr>sl_cors = \<lambda>_ _. None, sl_limited = \<lambda>_ _ _. over, sl_routeOf = \<lambda>r. Some (hq_Path r), sl_elapsed = \<lambda>_. 1,
     sl_receive = \<lambda>r mem. mem(hq_Buffer r := hq_Body r)\<rparr>"

theorem requests_counted_witness:
  "\<exists>reply c m mem. RegisterRoutes (sample_http_server True) [] sample_http (sample_get []) ((sample_middleware, sample_memory), newHttpMetrics) =
      (reply, ((c, mem), m)) \<and>
     reply_status reply = 429 \<and> counted_requests (\<lambda>code. code = ''200'') m = 1"
proof -
  obtain reply c mem m where run: "RegisterRoutes (sample_http_server True) [] sample_http (sample_get []) ((sample_middleware, sample_memory), newHttpMetrics) =
      (reply, ((c, mem), m))" by (metis surj_pair)
  have "sl_limited (sample_http_server True) MaxRequests RateLimitWindow (sample_get [])" by (simp add: sample_http_server_def)
  then show ?thesis using requests_counted [OF run] run
    by (simp add: unhandled_def) (simp add: counted_requests_def newHttpMetrics_def)
qed

text \<open>
  A report that was accepted changes with the next request that the framework reads into the same buffer, also when
  that request is answered with 429 or 401: a body that is not shorter than the report takes its place.  The hypothesis is what the framework
  promises of \<^verbatim>\<open>c.Body()\<close> while a request is handled.
\<close>

lemma report_rewritten:
  assumes "RegisterRoutes lib origins env r ((c, mem), m) = (reply, ((c', mem'), m'))" "read_body (sl_receive lib r mem) (c_Body r) = hq_Body r"
    and "hq_Buffer r = bs_Buffer b" "bs_Length b \<le> length (hq_Body r)"
  shows "read_body mem' b = take (bs_Length b) (hq_Body r)"
proof -
  have "mem' = sl_receive lib r mem"
    using assms(1) by (auto simp: RegisterRoutes_def receive_request_def observed_routes_def Let_def split: if_splits prod.splits option.splits)
  then show ?thesis using rewritten_report [OF assms(2), of b] assms(3,4) by (simp add: c_Body_def)
qed

section \<open>Registered metrics\<close>

record metric_opts =
  mo_Namespace :: string
  mo_Subsystem :: string
  mo_Name :: string
  mo_Labels :: "string list"

text \<open>The collectors \<^verbatim>\<open>run\<close> registers, and those of the HTTP server, which come later.\<close>

definition main_collectors :: "metrics_cfg \<Rightarrow> metric_opts list" where
  "main_collectors cfg =
     map (\<lambda>(name, labels). \<lparr>mo_Namespace = mc_Namespace cfg, mo_Subsystem = mc_DbSubsystem cfg, mo_Name = name, mo_Labels = labels\<rparr>)
       [(''db_requests_count'', [''method'', ''error'']), (''db_requests_duration'', [''method'', ''error'']),
        (''workers_requests_count'', [''method'', ''error'']), (''workers_requests_duration'', [''method'', ''error'']),
        (''providers_net_load'', [''provider_pubkey'', ''type''])]"

definition server_collectors :: "string \<Rightarrow> string \<Rightarrow> metric_opts list" where
  "server_collectors namespace subsystem =
     map (\<lambda>(name, labels). \<lparr>mo_Namespace = namespace, mo_Subsystem = subsystem, mo_Name = name, mo_Labels = labels\<rparr>)
       [(''requests_total'', [''route'', ''method'', ''code'']), (''requests_duration'', [''route'', ''method'', ''code'']),
        (''requests_inflight'', [])]"

text \<open>
  The registry: \<open>fq\<close> builds the full name of a metric, \<open>valid\<close> is its check of the description.  \<^verbatim>\<open>MustRegister\<close> panics for an invalid
  metric and for one whose full name is taken; otherwise the names are taken afterwards.
\<close>

definition MustRegister :: "(metric_opts \<Rightarrow> string) \<Rightarrow> (metric_opts \<Rightarrow> bool) \<Rightarrow> metric_opts list \<Rightarrow> string list \<Rightarrow> string list option" where
  "MustRegister fq valid ms taken =
     fold (\<lambda>m r. Option.bind r (\<lambda>names. if \<not> valid m \<or> fq m \<in> set names then None else Some (fq m # names))) ms (Some taken)"

definition registers_metrics :: "(metric_opts \<Rightarrow> string) \<Rightarrow> (metric_opts \<Rightarrow> bool) \<Rightarrow> metrics_cfg \<Rightarrow> bool \<times> bool" where
  "registers_metrics fq valid cfg =
     (case MustRegister fq valid (main_collectors cfg) [] of
        None \<Rightarrow> (False, False)
      | Some names \<Rightarrow> (True, MustRegister fq valid (server_collectors (mc_Namespace cfg) (mc_ServerSubsystem cfg)) names \<noteq> None))"

text \<open>The documented full name: the parts that are not empty, joined by underscores.\<close>

definition joined_name :: "(metric_opts \<Rightarrow> string) \<Rightarrow> bool" where
  "joined_name fq \<longleftrightarrow>
     (\<forall>m. mo_Name m \<noteq> [] \<longrightarrow> fq m = str_Join (filter (\<lambda>s. s \<noteq> []) [mo_Namespace m, mo_Subsystem m, mo_Name m]) ''_'')"

lemma fold_None: "fold (\<lambda>m r. Option.bind r (f m)) ms None = None"
  by (induction ms) simp_all

lemma MustRegister_Cons:
  "MustRegister fq valid (m # ms) taken = (if \<not> valid m \<or> fq m \<in> set taken then None else MustRegister fq valid ms (fq m # taken))"
  by (simp add: MustRegister_def fold_None)

lemma MustRegister_iff:
  "MustRegister fq valid ms taken =
     (if list_all valid ms \<and> distinct (map fq ms) \<and> set (map fq ms) \<inter> set taken = {} then Some (rev (map fq ms) @ taken) else None)"
proof (induction ms arbitrary: taken)
  case (Cons m ms)
  show ?case unfolding MustRegister_Cons Cons.IH by auto
qed (simp add: MustRegister_def)

lemma registers_iff:
  "registers_metrics fq valid cfg =
     (let ms = main_collectors cfg; every = ms @ server_collectors (mc_Namespace cfg) (mc_ServerSubsystem cfg)
      in (list_all valid ms \<and> distinct (map fq ms), list_all valid every \<and> distinct (map fq every)))"
  by (auto simp: registers_metrics_def MustRegister_iff Let_def)

lemma joined_inject:
  assumes "joined_name fq" "mo_Namespace m = mo_Namespace m'" "mo_Subsystem m = mo_Subsystem m'" "mo_Name m \<noteq> []" "mo_Name m' \<noteq> []"
  shows "fq m = fq m' \<longleftrightarrow> mo_Name m = mo_Name m'"
  using assms by (auto simp: joined_name_def)

text \<open>
  Nothing panics when the server has the subsystem of the database; with the subsystem \<^verbatim>\<open>db\<close> for the
  server and none for the database two metrics have one name, and the server panics after the workers have started.
\<close>

lemma registration_succeeds:
  assumes "joined_name fq" "\<forall>m. valid m" "mc_ServerSubsystem cfg = mc_DbSubsystem cfg"
  shows "registers_metrics fq valid cfg = (True, True)"
proof -
  have eq: "fq \<lparr>mo_Namespace = ns, mo_Subsystem = sub, mo_Name = name, mo_Labels = labels\<rparr> =
      fq \<lparr>mo_Namespace = ns, mo_Subsystem = sub, mo_Name = name', mo_Labels = labels'\<rparr> \<longleftrightarrow> name = name'"
    if "name \<noteq> []" "name' \<noteq> []" for ns sub name name' labels labels' using joined_inject [OF assms(1)] that by simp
  have "distinct (map fq (main_collectors cfg @ server_collectors (mc_Namespace cfg) (mc_ServerSubsystem cfg)))"
    by (simp add: main_collectors_def server_collectors_def assms(3) eq)
  then show ?thesis using assms(2) by (simp add: registers_iff Let_def list_all_iff)
qed

lemma registration_panics:
  assumes "joined_name fq" "mc_ServerSubsystem cfg = ''db''" "mc_DbSubsystem cfg = []"
  shows "\<not> snd (registers_metrics fq valid cfg)"
proof -
  have "fq \<lparr>mo_Namespace = mc_Namespace cfg, mo_Subsystem = [], mo_Name = ''db_requests_duration'', mo_Labels = [''method'', ''error'']\<rparr> =
      fq \<lparr>mo_Namespace = mc_Namespace cfg, mo_Subsystem = ''db'', mo_Name = ''requests_duration'', mo_Labels = [''route'', ''method'', ''code'']\<rparr>"
    using assms(1) by (simp add: joined_name_def)
  then show ?thesis using assms(2,3) by (auto simp: registers_iff Let_def main_collectors_def server_collectors_def)
qed

section \<open>Connections to the agents\<close>

text \<open>The CA file must be readable and hold a certificate; \<open>Inr\<close> is the pool with the least TLS version, 1.2.\<close>

definition loadTLSCredentials ::
  "(string \<Rightarrow> go_error + bytes) \<Rightarrow> (bytes \<Rightarrow> bool) \<Rightarrow> string \<Rightarrow> go_error + nat \<times> bytes" where
  "loadTLSCredentials readFile appendCertsFromPEM caCertFile =
     (case readFile caCertFile of
        Inl err \<Rightarrow> Inl (ErrWrap ''read CA cert file'' err)
      | Inr caPEM \<Rightarrow>
         if \<not> appendCertsFromPEM caPEM then Inl (ErrText ''append CA cert to pool: invalid PEM'') else Inr (0x0303, caPEM))"

definition tls_error :: "go_error + 'a \<Rightarrow> go_error option" where
  "tls_error r = (case r of Inl err \<Rightarrow> Some err | Inr _ \<Rightarrow> None)"

text \<open>\<^verbatim>\<open>Close\<close>: every connection is closed; the error is the first one.\<close>

fun close_agents :: "(string \<Rightarrow> go_error option) \<Rightarrow> string list \<Rightarrow> go_error option \<Rightarrow> go_error option \<times> string list" where
  "close_agents closeConn [] firstErr = (firstErr, [])"
| "close_agents closeConn (a # agents) firstErr =
     (let firstErr = (if closeConn a \<noteq> None \<and> firstErr = None then closeConn a else firstErr)
      in case close_agents closeConn agents firstErr of (err, rest) \<Rightarrow> (err, a # rest))"

definition client_Close :: "(string \<Rightarrow> go_error option) \<Rightarrow> agent_client \<Rightarrow> go_error option \<times> string list" where
  "client_Close closeConn cl = close_agents closeConn (ac_agents cl) None"

lemma client_Close_all:
  "client_Close closeConn cl = (Option.bind (find (\<lambda>a. closeConn a \<noteq> None) (ac_agents cl)) closeConn, ac_agents cl)"
proof -
  have "close_agents closeConn agents e = ((case e of None \<Rightarrow> Option.bind (find (\<lambda>a. closeConn a \<noteq> None) agents) closeConn | Some _ \<Rightarrow> e), agents)" for agents e
    by (induction agents arbitrary: e) (auto split: option.splits)
  then show ?thesis by (simp add: client_Close_def)
qed

text \<open>A client with agents has been given a readable CA file with a certificate, and a token.\<close>

lemma client_needs_ca:
  assumes "agentrpc_New (\<lambda>file. tls_error (loadTLSCredentials readFile pem file)) dial cfg = Inr cl" "ac_agents cl \<noteq> []"
  shows "\<exists>caPEM. readFile (acf_CACertFile cfg) = Inr caPEM \<and> pem caPEM" "ac_authToken cl \<noteq> []"
  using assms by (auto simp: agentrpc_New_def tls_error_def loadTLSCredentials_def split: if_splits option.splits sum.splits)

section \<open>The life of the coordinator\<close>

definition cache_ttl_setting :: duration where "cache_ttl_setting = minutes 2"

definition access_tokens :: "coordinator_cfg \<Rightarrow> string list" where
  "access_tokens cfg = str_Split (CHR '','') (sc_AccessTokens (cc_System cfg))"

definition cors_origins :: "coordinator_cfg \<Rightarrow> string list" where
  "cors_origins cfg = parseCSV (sc_CORSAllowedOrigins (cc_System cfg))"

text \<open>\<^verbatim>\<open>slog\<close> levels: debug is -4, info 0, warning 4, error 8.\<close>

definition log_level :: "8 word \<Rightarrow> int" where
  "log_level n = (case map_of [(0, -4), (1, 0), (2, 4), (3, 8)] n of None \<Rightarrow> 0 | Some level \<Rightarrow> level)"

datatype run_event = WorkersStarted | ServerListening | WorkersCancelled | ServerShutDown | AgentsClosed

text \<open>The last part of \<^verbatim>\<open>run\<close>, from the start of the workers to the shutdown after a signal, with the code of the exit (2 for a panic).\<close>

definition run_services :: "bool \<Rightarrow> go_error option \<Rightarrow> run_event list \<times> nat" where
  "run_services registerOk shutdownErr =
     (if \<not> registerOk then ([WorkersStarted], 2)
      else ([WorkersStarted, ServerListening, WorkersCancelled, ServerShutDown], if shutdownErr = None then 0 else 1))"

text \<open>
  \<^verbatim>\<open>run\<close> and \<^verbatim>\<open>main\<close>: the outcomes of the steps, the events in their order and the exit code of the process.  The errors of
  the listener and of the agents' client are logged only; the process ends with a signal.
\<close>

definition coordinator_run ::
  "string + coordinator_cfg \<Rightarrow> (metrics_cfg \<Rightarrow> bool \<times> bool) \<Rightarrow> go_error option \<Rightarrow> go_error option \<Rightarrow> (string \<Rightarrow> go_error option) \<Rightarrow>
   (string \<Rightarrow> bool) \<Rightarrow> go_error option \<Rightarrow> go_error option \<Rightarrow> run_event list \<times> nat" where
  "coordinator_run load reg tonErr providerErr tlsErr dial dbErr shutdownErr =
     (case load of
        Inl _ \<Rightarrow> ([], 1)
      | Inr cfg \<Rightarrow>
         if \<not> fst (reg (cc_Metrics cfg)) then ([], 2)
         else if tonErr \<noteq> None \<or> providerErr \<noteq> None then ([], 1)
         else
          (let deferred = (case agentrpc_New tlsErr dial (agent_settings cfg) of Inl _ \<Rightarrow> [] | Inr _ \<Rightarrow> [AgentsClosed])
           in case run_startup tonErr providerErr tlsErr dial dbErr cfg of
                Inl _ \<Rightarrow> (deferred, 1)
              | Inr _ \<Rightarrow>
                 (case run_services (snd (reg (cc_Metrics cfg))) shutdownErr of (ev, code) \<Rightarrow> (ev @ deferred, code))))"

text \<open>Without a setting for the tokens nobody is let in to the protected routes, and no CORS handler is installed.\<close>

lemma closed_by_default:
  "sc_AccessTokens (cc_System cfg) = [] \<Longrightarrow> accessTokensMap md5 (access_tokens cfg) = [] \<and>
     authorizationMiddleware md5 (accessTokensMap md5 (access_tokens cfg)) r \<noteq> None"
  "sc_CORSAllowedOrigins (cc_System cfg) = [] \<Longrightarrow> cors_origins cfg = []"
  by (simp_all add: access_tokens_def cors_origins_def parseCSV_def accessTokensMap_def authorizationMiddleware_def)

text \<open>
  A process that serves has started its workers before and cancels them before the server shuts down, connections to agents are closed
  last and exactly when there was a client, and the exit code is 0 only after a clean shutdown.
\<close>

lemma coordinator_run_ends:
  assumes "coordinator_run load reg tonErr providerErr tlsErr dial dbErr shutdownErr = (ev, code)"
  shows "(ServerListening \<in> set ev \<longrightarrow> (\<exists>rest. ev = [WorkersStarted, ServerListening, WorkersCancelled, ServerShutDown] @ rest)) \<and>
    (code = 0 \<longrightarrow> ServerListening \<in> set ev \<and> shutdownErr = None) \<and> (WorkersStarted \<in> set ev \<longrightarrow> dbErr = None) \<and>
    (AgentsClosed \<in> set ev \<longrightarrow> last ev = AgentsClosed \<and> count_list ev AgentsClosed = 1)"
  using assms
  by (auto simp: coordinator_run_def run_services_def run_startup_def Let_def split: sum.splits if_splits option.splits)

end
