(* ===== verification/Spec2Isabelle.thy ===== *)
theory Spec2Isabelle
  imports StoreProof Stages Http AgentConfig Dump Workers EventStore RepoMetrics JobProgress RunReports Startup
    LegacyChecks CycleStore MemoryCycle Server
begin

text \<open>
  Verification of mytonprovider-backend: storage providers of the TON network are checked by
  \<^emph>\<open>agents\<close>, which a \<^emph>\<open>coordinator\<close> calls over gRPC; the coordinator keeps the results in a database
  and offers them over HTTP.  This library models the checking pipeline (what an agent does with a
  request, how the coordinator finds endpoints, shards providers over agents, merges their answers, and
  writes one result per contract), the workers that fill the database from the chain, and the HTTP side
  (search, telemetry and benchmarks, authorization).

  \<^bold>\<open>The pipeline and its theories\<close> (paths are below \<^verbatim>\<open>src/\<close>)

  \<^item> \<open>Prelude\<close>: Go strings, errors, hexadecimal and decimal text, maps; the lemmas and the collection
    \<open>go_map\<close> that the component proofs share.
  \<^item> \<open>Reason\<close>: \<^verbatim>\<open>agent/internal/reason\<close>, \<^verbatim>\<open>coordinator/internal/constants\<close>, \<^verbatim>\<open>reason_mapper.go\<close>: codes and
    their wire form; the round trip.
  \<^item> \<open>Messages\<close>: \<^verbatim>\<open>contracts/gen/go/providerchecks/v1\<close>: requests and responses as records, nil pointers
    as options.
  \<^item> \<open>Monitor\<close>: the locale of an object guarded by a mutex whose operations are counted; \<open>PeerGate\<close>
    (\<^verbatim>\<open>agent/internal/checker/session.go\<close>) and \<open>PieceLimit\<close> (\<^verbatim>\<open>aimd.go\<close>) interpret it and so hold for every
    interleaving of the checks.
  \<^item> \<open>PieceCheck\<close>, \<open>Checker\<close>, \<open>CheckerRun\<close>: \<^verbatim>\<open>agent/internal/checker/checker.go\<close>: the check of one piece
    with all its error paths, the pool of goroutines of one provider as a step function on its state,
    a whole request.  The rows are complete, the pool ends, giving up follows the failures.
  \<^item> \<open>JobProgress\<close>: the lock-free progress counter of a request in \<^verbatim>\<open>checker.go\<close>: a call of \<^verbatim>\<open>advance\<close> is a machine of
    atomic operations, a run interleaves all calls.
  \<^item> \<open>AgentServer\<close>: \<^verbatim>\<open>agent/internal/grpcserver\<close>: authorization, validation, deadlines, the three calls.
  \<^item> \<open>RunReports\<close>: \<^verbatim>\<open>agent/internal/metrics\<close>, \<^verbatim>\<open>agent/internal/lokipush\<close>: what an agent reports, and the handlers with
    their reports: every row is counted once.
  \<^item> \<open>AgentRpc\<close>: \<^verbatim>\<open>coordinator/internal/clients/agentrpc\<close>: the client of the agents.
  \<^item> \<open>DbTypes\<close>: \<^verbatim>\<open>coordinator/internal/models/db\<close>: the rows the workers exchange with the database.
  \<^item> \<open>Recorder\<close>: \<^verbatim>\<open>coordinator/internal/pipelineevents\<close>, \<^verbatim>\<open>resolve_errors.go\<close>: pipeline events.
  \<^item> \<open>Stages\<close>: the text contract between the details of an agent and the stages of the coordinator.
  \<^item> \<open>Shard\<close>: \<^verbatim>\<open>runchecks_shard.go\<close>: partition, choice and balance of the assignment.
  \<^item> \<open>Merge\<close>, \<open>Commit\<close>: \<^verbatim>\<open>buildRunChecksRPCRequest\<close> and the merges of \<^verbatim>\<open>worker.go\<close>, \<^verbatim>\<open>storeproof_commit.go\<close>.
  \<^item> \<open>Rejected\<close>: \<^verbatim>\<open>updateRejectedContracts\<close>, \<^verbatim>\<open>isRemovedByLowBalance\<close>.
  \<^item> \<open>EndpointRefresh\<close>: \<^verbatim>\<open>endpoint_refresh.go\<close> and the lookups of \<^verbatim>\<open>worker.go\<close>.
  \<^item> \<open>StoreProof\<close>: \<^verbatim>\<open>runStoreProofChecks\<close> and the cycle \<^verbatim>\<open>StoreProof\<close> that puts all of this together; the locale
    \<open>proof_store\<close> is what a cycle relies on from the repository it works on.

  \<^bold>\<open>Collecting and serving\<close>

  \<^item> \<open>Strconv\<close>: the number parsing of the standard library that configuration, stored logical times and
    addresses go through.
  \<^item> \<open>TonClient\<close>: \<^verbatim>\<open>coordinator/internal/clients/ton\<close>: the paging of transactions, storage contracts and
    their providers with retries and fallback; its rows feed \<open>Rejected\<close>.
  \<^item> \<open>Collect\<close>: \<^verbatim>\<open>CollectNewProviders\<close>, \<^verbatim>\<open>UpdateKnownProviders\<close>, \<^verbatim>\<open>CollectProvidersNewStorageContracts\<close>
    and the smaller workers of \<^verbatim>\<open>worker.go\<close>, on the TON client, the agents and the merge of rates.
  \<^item> \<open>Cache\<close>: \<^verbatim>\<open>coordinator/internal/cache\<close>: the locale \<open>timed_store\<close> of a store with deadlines, interpreted by the
    cache, with the log of operations as its abstract specification.
  \<^item> \<open>ApiTypes\<close>, \<open>Query\<close>, \<open>Search\<close>: \<^verbatim>\<open>models/api/v1\<close>, \<^verbatim>\<open>repositories/providers/helpers.go\<close>,
    \<^verbatim>\<open>services/providers/service.go\<close>: rows and messages, the text and arguments of the search query, the service.
  \<^item> \<open>NetIp\<close>: \<^verbatim>\<open>utils/ip.go\<close> with the address parsing of the standard library.
  \<^item> \<open>Telemetry\<close>: \<^verbatim>\<open>services/providers/cache.go\<close>, \<^verbatim>\<open>workers/telemetry\<close>: a report from its post to its row.  The cache
    keeps slices of the framework's buffers, which later requests overwrite; the buffers are the argument \<open>mem\<close>.
  \<^item> \<open>Http\<close>: \<^verbatim>\<open>coordinator/internal/httpServer\<close>: routes (with the \<^verbatim>\<open>HEAD\<close> route the framework adds for every \<^verbatim>\<open>Get\<close>),
    authorization and handlers over service and buffers.
  \<^item> \<open>Memory\<close>: \<^verbatim>\<open>repositories/*/inmemory\<close>: the repositories of the dump tool with their invariant; the locale
    \<open>provider_registry\<close> states what \<^verbatim>\<open>CollectNewProviders\<close> relies on and is interpreted by them.
  \<^item> \<open>Dump\<close>: \<^verbatim>\<open>runchecks_dump.go\<close>, \<^verbatim>\<open>cmd/dump-runchecks\<close>: the tool that writes a request of the agents to a file.
  \<^item> \<open>Workers\<close>: \<^verbatim>\<open>workers.go\<close>, \<^verbatim>\<open>workers/cleaner\<close>, \<^verbatim>\<open>NewWorker\<close>: the loop of every worker, the cleanup, the defaults.
  \<^item> \<open>AgentConfig\<close>: \<^verbatim>\<open>agent/internal/config\<close>: what an agent accepts from its environment.

  \<^bold>\<open>The database\<close>

  \<^item> \<open>SqlJson\<close>: the rows as JSON, as the driver sends them (tags of \<^verbatim>\<open>models/db/types.go\<close>), and the casts of PostgreSQL
    with their errors.
  \<^item> \<open>SqlTables\<close>: the tables and triggers of \<^verbatim>\<open>coordinator/db/init.sql\<close>; updates from a source of rows, inserts with a
    conflict rule, and their laws.
  \<^item> \<open>SqlRepo\<close>, \<open>SqlTelemetry\<close>: \<^verbatim>\<open>repositories/providers/repository.go\<close>, \<^verbatim>\<open>repositories/system/repository.go\<close>: one
    definition per method, a function of the database.  A statement that fails leaves the database as it was.
  \<^item> \<open>SqlInvariant\<close>: the invariant of the tables, kept by every method; the step relation of all writes.
  \<^item> \<open>SqlStore\<close>, \<open>SqlReports\<close>: what readers see after writers, over several methods.
  \<^item> \<open>EventStore\<close>: the locale \<open>event_store\<close> of what the recorder of pipeline events relies on, interpreted by the
    SQL repository; the events that the two endpoint refreshes of a cycle leave for a provider.
  \<^item> \<open>CycleStore\<close>: the cycle on the SQL repository, which interprets \<open>proof_store\<close>: what a cycle leaves in the tables, with a time and
    a possible failure of its own for each statement and the rows that were committed.  \<open>MemoryCycle\<close>: the same for the in-memory repository.
  \<^item> \<open>RepoMetrics\<close>: the \<^verbatim>\<open>metrics.go\<close> wrappers of repositories and workers: transparent, and every call counted once.

  \<^bold>\<open>Start and end\<close>

  \<^item> \<open>Postgres\<close>: \<^verbatim>\<open>cmd/init.go\<close>, \<^verbatim>\<open>dump-runchecks/bootstrap.go\<close>: settings, connection URL and pool of the database.
  \<^item> \<open>Startup\<close>: \<^verbatim>\<open>cmd/config.go\<close>, \<^verbatim>\<open>cmd/main.go\<close>, \<^verbatim>\<open>workers.go\<close>, \<^verbatim>\<open>agent/internal/tontransport\<close>, \<^verbatim>\<open>agent/cmd/agent\<close>:
    configuration with its defaults, the loops that are started, the TON transport and the life of an agent process.
  \<^item> \<open>Server\<close>: \<^verbatim>\<open>httpServer/router.go\<close>, \<^verbatim>\<open>router_debug.go\<close>, \<^verbatim>\<open>middlewares.go\<close>, \<^verbatim>\<open>cmd/main.go\<close>: the middlewares around the routes, the
    registered metrics, and the course of the coordinator from its configuration to its shutdown.
  \<^item> \<open>LegacyChecks\<close>: the checks of the coordinator that the agents have replaced.

  \<^bold>\<open>How code becomes definitions\<close>

  Structs are records, enums datatypes or the integers the code uses; integers keep their width where
  they are computed with (\<^verbatim>\<open>pieceTimeout\<close>, \<^verbatim>\<open>piecesCount\<close>, the wire types), clocks and durations are
  integers of nanoseconds.  A pointer is an option, an error a value of \<open>go_error\<close>, a function that
  may fail returns a sum or a pair with an optional error, as in the source.  Worker state and database
  are passed along; the database, TON libraries, DHT, gRPC and clocks are parameters, with what the
  code relies on as named hypotheses (\<open>store_log_ok\<close>).  A Go map is an association list without
  duplicates; a loop over it takes the order it happens to follow as an argument, and the theorems hold
  for every order.  Goroutines are either steps of a scheduler (the pool of a provider, gate and limiter)
  or, when they only meet at a mutex or a channel, calls whose order of completion is an argument.
  Strings are byte strings; \<^verbatim>\<open>TrimSpace\<close> and \<^verbatim>\<open>Fields\<close> know the UTF-8 forms of Unicode white space.

  \<^bold>\<open>Loops\<close>

  The compare-and-swap loop of \<open>JobProgress\<close> is bounded over all interleavings (\<open>progress_reported\<close>).
  No definition uses fuel: loops are structural recursion or have a measure, except the paging loop of
  \<^verbatim>\<open>GetTransactions\<close>, which runs as long as the liteserver answers: \<open>scan_pages\<close> is a partial function with
  \<open>None\<close> for not returning, and \<open>GetTransactions_exact\<close> shows that it returns on every linked history.  A schedule
  of the pool is a list of actions; \<open>pool_terminates\<close> shows that every schedule is bounded and can be completed.

  \<^bold>\<open>What the theorems show\<close>

  For the agent: a verdict is valid exactly when the proof is; every contract of a request is answered
  once; the pool ends; a provider is given up only after enough failures, and a dead one costs a
  bounded number of checks; gate, limiter and ping cache stay consistent; deadlines are exact.  For the
  coordinator: requests are the ones agents accept; the shards partition the work; a valid answer wins the merge;
  main and final commit write every result once; the refresh returns what the cache holds; closing
  relations partitions them; a whole cycle without error writes exactly one result per active contract and
  keeps its schedule; on the database it leaves exactly these results, and no cycle, failed or not, breaks the tables.  Between the two: reasons, stages, and the authorization header survive the trip.
  For the collecting side: new providers, statuses and contracts in the database are exactly those the chain
  and the agents gave, in every order of the goroutines, and nothing is closed on a liteserver error.  For the
  HTTP side: protected routes need a token, the buffers of reports change only through accepted posts and the reads that
  release them, every request that CORS lets through is counted once, an accepted report is handed to one write by the next run,
  a search is at most one query of bounded size whose text no user text enters.
  For the dump tool: the in-memory registry settles after one run, and the dumped request is the one a pass would send.
  For the database: every order of methods, rows and faults keeps the tables consistent; committed reasons are read
  back and decide the status; batches are written as a whole or not at all; the events of a
  cycle follow from the last ones stored and its two refreshes.

  \<^bold>\<open>Not modelled\<close>

  Logging; PostgreSQL itself, of which the definitions above state what the statements use, with floating-point
  arithmetic, time zones and every choice left open by SQL as parameters (\<open>sql_env\<close>, \<open>float_ops\<close>); third-party
  ADNL, RLDP, DHT, TL, gRPC, environment, Prometheus and web framework code (with its choice of the buffer a
  request is read into), listeners and
  generated gRPC stubs.  In the theories before \<open>SqlJson\<close> the repositories are parameters, with the
  contracts stated there.
\<close>

end
